(* ===== verification/JS_Prelude.thy ===== *)
theory JS_Prelude
  imports Main "HOL-Library.Word"
begin

text \<open>
  What every component of the development shares: the collections of rules the
  component proofs are driven by, the JavaScript number primitives (rounding of an
  integer-valued double, the \<open>ToInt32\<close> and \<open>ToUint8\<close> conversions of the bitwise
  operators and of typed-array stores), generic facts about loops that update a list
  in place, and the value in base \<open>2 ^ 16\<close> of a list of limbs.
\<close>

unbundle bit_operations_syntax

named_theorems js_defs \<open>definitions of JavaScript primitives to unfold\<close>
named_theorems exact \<open>the double arithmetic of the source is exact on these operands\<close>
named_theorems limb_simps \<open>length and lookup after an update of a limb array\<close>

section \<open>Numbers\<close>

text \<open>
  An integer-valued double. Every arithmetic result is rounded to 53 significant bits,
  ties to even; integers up to \<open>2 ^ 53\<close> in absolute value are represented exactly. (The
  overflow to infinity above \<open>2 ^ 1024\<close> is out of the range the models reach.)
\<close>

fun bit_len :: "nat \<Rightarrow> nat" where
  "bit_len n = (if n = 0 then 0 else Suc (bit_len (n div 2)))"

declare bit_len.simps [simp del]

definition f64 :: "int \<Rightarrow> int" where
  "f64 x =
     (if \<bar>x\<bar> \<le> 2 ^ 53 then x
      else let d = 2 ^ (bit_len (nat \<bar>x\<bar>) - 53); q = \<bar>x\<bar> div d; r = \<bar>x\<bar> mod d;
               q' = (if 2 * r > d \<or> (2 * r = d \<and> odd q) then q + 1 else q)
           in sgn x * (q' * d))"

lemma f64_exact [exact]: "\<bar>x\<bar> \<le> 2 ^ 53 \<Longrightarrow> f64 x = x"
  by (simp add: f64_def)

text \<open>\<open>ToInt32\<close>: the operand of \<open>|\<close>, \<open>&\<close>, \<open>^\<close>, \<open>~\<close>, \<open><<\<close> and \<open>>>\<close> on numbers.\<close>

definition to_int32 :: "int \<Rightarrow> int" where
  "to_int32 x = signed_take_bit 31 x"

lemma to_int32_id: "- (2 ^ 31) \<le> x \<Longrightarrow> x < 2 ^ 31 \<Longrightarrow> to_int32 x = x"
  by (simp add: to_int32_def signed_take_bit_int_eq_self)

text \<open>The value a \<open>Uint8Array\<close> element holds after a store.\<close>

definition to_uint8 :: "int \<Rightarrow> int" where
  "to_uint8 x = take_bit 8 x"

text \<open>\<open>x & m\<close>, \<open>x ^ y\<close>, \<open>~x\<close> and \<open>x >> n\<close>.\<close>

definition js_and :: "int \<Rightarrow> int \<Rightarrow> int" where
  "js_and x y = to_int32 x AND to_int32 y"

definition js_xor :: "int \<Rightarrow> int \<Rightarrow> int" where
  "js_xor x y = to_int32 x XOR to_int32 y"

definition js_or :: "int \<Rightarrow> int \<Rightarrow> int" where
  "js_or x y = to_int32 x OR to_int32 y"

definition js_not :: "int \<Rightarrow> int" where
  "js_not x = NOT (to_int32 x)"

definition js_sar :: "int \<Rightarrow> nat \<Rightarrow> int" where
  "js_sar x n = drop_bit n (to_int32 x)"

definition js_shl :: "int \<Rightarrow> nat \<Rightarrow> int" where
  "js_shl x n = to_int32 (push_bit n (to_int32 x))"

text \<open>\<open>x >>> n\<close>: the operand is read as an unsigned 32-bit integer.\<close>

definition js_shr :: "int \<Rightarrow> nat \<Rightarrow> int" where
  "js_shr x n = drop_bit n (take_bit 32 x)"

lemma js_and_ffff: "js_and x 65535 = x mod 65536"
proof -
  have "js_and x 65535 = to_int32 x AND mask 16"
    by (simp add: js_and_def to_int32_def mask_eq_exp_minus_1)
  also have "\<dots> = take_bit 16 (signed_take_bit 31 x)"
    by (simp add: take_bit_eq_mask to_int32_def)
  also have "\<dots> = take_bit 16 x"
    by (simp add: take_bit_signed_take_bit)
  finally show ?thesis by (simp add: take_bit_eq_mod)
qed

lemma js_and_ff: "js_and x 255 = x mod 256"
proof -
  have "js_and x 255 = to_int32 x AND mask 8"
    by (simp add: js_and_def to_int32_def mask_eq_exp_minus_1)
  also have "\<dots> = take_bit 8 (signed_take_bit 31 x)"
    by (simp add: take_bit_eq_mask to_int32_def)
  also have "\<dots> = take_bit 8 x"
    by (simp add: take_bit_signed_take_bit)
  finally show ?thesis by (simp add: take_bit_eq_mod)
qed

lemma js_and_1: "js_and x 1 = x mod 2"
proof -
  have "js_and x 1 = to_int32 x AND mask 1"
    by (simp add: js_and_def to_int32_def mask_eq_exp_minus_1)
  also have "\<dots> = take_bit 1 (signed_take_bit 31 x)"
    by (simp add: take_bit_eq_mask to_int32_def)
  also have "\<dots> = take_bit 1 x"
    by (rule take_bit_signed_take_bit) simp
  finally show ?thesis by (simp add: take_bit_eq_mod)
qed

lemma js_sar_id: "- (2 ^ 31) \<le> x \<Longrightarrow> x < 2 ^ 31 \<Longrightarrow> js_sar x n = x div 2 ^ n"
  by (simp add: js_sar_def to_int32_id drop_bit_eq_div)

section \<open>Loops\<close>

text \<open>A \<open>for\<close> loop over \<open>0 \<dots> n - 1\<close> keeps an indexed invariant.\<close>

lemma for_loop_inv:
  assumes "P 0 s" and "\<And>i s. i < n \<Longrightarrow> P i s \<Longrightarrow> P (Suc i) (f i s)"
  shows "P n (fold f [0..<n] s)"
  using assms
proof (induction n)
  case 0
  then show ?case by simp
next
  case (Suc n)
  then have "P n (fold f [0..<n] s)" by simp
  then show ?case using Suc.prems(2) by simp
qed

section \<open>Limbs in base \<open>2 ^ 16\<close>\<close>

text \<open>The integer a list of limbs stands for, least significant limb first.\<close>

fun fval :: "int list \<Rightarrow> int" where
  "fval [] = 0"
| "fval (x # xs) = x + 65536 * fval xs"

lemma fval_append: "fval (xs @ ys) = fval xs + 65536 ^ length xs * fval ys"
  by (induction xs) (auto simp: algebra_simps)

lemma fval_update:
  "i < length xs \<Longrightarrow> fval (xs[i := v]) = fval xs + (v - xs ! i) * 65536 ^ i"
proof (induction xs arbitrary: i)
  case Nil
  then show ?case by simp
next
  case (Cons x xs)
  show ?case
  proof (cases i)
    case 0
    then show ?thesis by simp
  next
    case (Suc j)
    with Cons.prems have "fval (xs[j := v]) = fval xs + (v - xs ! j) * 65536 ^ j"
      by (intro Cons.IH) simp
    with Suc show ?thesis by (simp add: algebra_simps)
  qed
qed

lemma fval_replicate_0 [simp]: "fval (replicate n 0) = 0"
  by (induction n) auto

lemma fval_bounds:
  "(\<forall>x \<in> set xs. 0 \<le> x \<and> x < 65536) \<Longrightarrow> 0 \<le> fval xs \<and> fval xs < 65536 ^ length xs"
proof (induction xs)
  case Nil
  then show ?case by simp
next
  case (Cons x xs)
  then have "0 \<le> fval xs" "fval xs + 1 \<le> 65536 ^ length xs" "0 \<le> x" "x < 65536" by auto
  then show ?case by simp
qed

lemma fval_map2_add:
  "length xs = length ys \<Longrightarrow> fval (map2 (\<lambda>x y. x + y) xs ys) = fval xs + fval ys"
  by (induction xs ys rule: list_induct2) (auto simp: algebra_simps)

lemma fval_map2_diff:
  "length xs = length ys \<Longrightarrow> fval (map2 (\<lambda>x y. x - y) xs ys) = fval xs - fval ys"
  by (induction xs ys rule: list_induct2) (auto simp: algebra_simps)

end
