(* ===== verification/Base64_Codec.thy ===== *)
theory Base64_Codec
  imports JS_String
begin

text \<open>
  The Base64 and UTF-8 primitives of the browser (\<open>btoa\<close>, \<open>atob\<close>, \<open>TextEncoder\<close>,
  \<open>TextDecoder\<close>) and the class \<open>Base64\<close> of \<open>frontend/src/utils/index.ts\<close> on top of
  them: encoding a text, its URL-safe variant, decoding. A text is the list of its Unicode
  scalar values; the Base64 alphabet is ASCII, so an encoded text is a \<^typ>\<open>string\<close>.
\<close>

section \<open>The Base64 alphabet\<close>

definition b64_char :: "nat \<Rightarrow> char" where
  "b64_char v =
     (if v < 26 then char_of (65 + v) else if v < 52 then char_of (71 + v)
      else if v < 62 then char_of (v - 4) else if v = 62 then CHR ''+'' else CHR ''/'')"

definition b64_val :: "char \<Rightarrow> nat option" where
  "b64_val c =
     (if is_upper c then Some (code c - 65) else if is_lower c then Some (code c - 71)
      else if is_digit c then Some (code c + 4) else if c = CHR ''+'' then Some 62
      else if c = CHR ''/'' then Some 63 else None)"

lemma char_eq_code: "c = d \<longleftrightarrow> code c = code d"
  by simp

lemma code_less_256 [simp]: "code c < 256"
  using horner_sum_bound [where ?'a = nat and bs = "case c of Char b0 b1 b2 b3 b4 b5 b6 b7 \<Rightarrow> [b0, b1, b2, b3, b4, b5, b6, b7]"]
  by (cases c) (simp add: of_char_def)

lemma b64_val_char [simp]: "v < 64 \<Longrightarrow> b64_val (b64_char v) = Some v"
  by (auto simp: b64_char_def b64_val_def is_upper_def is_lower_def is_digit_def char_eq_code)

lemma b64_char_alpha: "v < 64 \<Longrightarrow> b64_char v \<noteq> CHR ''='' \<and> \<not> is_space (b64_char v)"
  by (auto simp: b64_char_def is_space_def char_eq_code)

section \<open>\<open>btoa\<close> and \<open>atob\<close>\<close>

fun b64_encode :: "nat list \<Rightarrow> string" where
  "b64_encode [] = []"
| "b64_encode [a] = [b64_char (a div 4), b64_char (a mod 4 * 16), CHR ''='', CHR ''='']"
| "b64_encode [a, b] =
     [b64_char (a div 4), b64_char (a mod 4 * 16 + b div 16), b64_char (b mod 16 * 4), CHR ''='']"
| "b64_encode (a # b # c # r) =
     [b64_char (a div 4), b64_char (a mod 4 * 16 + b div 16), b64_char (b mod 16 * 4 + c div 64),
      b64_char (c mod 64)] @ b64_encode r"

definition btoa :: "string \<Rightarrow> string" where
  "btoa s = b64_encode (map code s)"

fun b64_decode :: "nat list \<Rightarrow> nat list" where
  "b64_decode (a # b # c # d # r) =
     [a * 4 + b div 16, b mod 16 * 16 + c div 4, c mod 4 * 64 + d] @ b64_decode r"
| "b64_decode [a, b, c] = [a * 4 + b div 16, b mod 16 * 16 + c div 4]"
| "b64_decode [a, b] = [a * 4 + b div 16]"
| "b64_decode [a] = []"
| "b64_decode [] = []"

text \<open>Up to two padding characters, only where the length is a multiple of four.\<close>

definition strip_padding :: "string \<Rightarrow> string" where
  "strip_padding s =
     (if length s mod 4 = 0 \<and> ends_with s ''=='' then take (length s - 2) s
      else if length s mod 4 = 0 \<and> ends_with s ''='' then take (length s - 1) s else s)"

definition ascii_space :: "char \<Rightarrow> bool" where
  "ascii_space c \<longleftrightarrow> code c = 9 \<or> code c = 10 \<or> code c = 12 \<or> code c = 13 \<or> code c = 32"

fun all_some :: "'a option list \<Rightarrow> 'a list option" where
  "all_some [] = Some []"
| "all_some (None # xs) = None"
| "all_some (Some x # xs) = map_option ((#) x) (all_some xs)"

text \<open>\<open>None\<close> is the \<open>InvalidCharacterError\<close> that \<open>atob\<close> throws.\<close>

definition atob :: "string \<Rightarrow> string option" where
  "atob s =
     (let t = strip_padding (filter (\<lambda>c. \<not> ascii_space c) s)
      in if length t mod 4 = 1 then None
         else map_option (\<lambda>vs. map char_of (b64_decode vs)) (all_some (map b64_val t)))"

section \<open>UTF-8\<close>

definition scalar_value :: "nat \<Rightarrow> bool" where
  "scalar_value c \<longleftrightarrow> c < 0xD800 \<or> 0xE000 \<le> c \<and> c < 0x110000"

definition utf8_char :: "nat \<Rightarrow> nat list" where
  "utf8_char c =
     (if c < 0x80 then [c]
      else if c < 0x800 then [0xC0 + c div 64, 0x80 + c mod 64]
      else if c < 0x10000 then [0xE0 + c div 4096, 0x80 + c div 64 mod 64, 0x80 + c mod 64]
      else [0xF0 + c div 262144, 0x80 + c div 4096 mod 64, 0x80 + c div 64 mod 64, 0x80 + c mod 64])"

definition utf8_encode :: "nat list \<Rightarrow> nat list" where
  "utf8_encode s = concat (map utf8_char s)"

text \<open>
  The decoder of the Encoding standard, with its replacement of malformed sequences by
  U+FFFD. The state is the number of continuation bytes still needed, the bounds the next
  one must satisfy and the code point collected so far.
\<close>

abbreviation replacement :: nat where
  "replacement \<equiv> 0xFFFD"

fun utf8_start :: "nat \<Rightarrow> (nat \<times> nat \<times> nat \<times> nat) option" where
  "utf8_start b =
     (if 0xC2 \<le> b \<and> b \<le> 0xDF then Some (1, 0x80, 0xBF, b - 0xC0)
      else if 0xE0 \<le> b \<and> b \<le> 0xEF then
        Some (2, if b = 0xE0 then 0xA0 else 0x80, if b = 0xED then 0x9F else 0xBF, b - 0xE0)
      else if 0xF0 \<le> b \<and> b \<le> 0xF4 then
        Some (3, if b = 0xF0 then 0x90 else 0x80, if b = 0xF4 then 0x8F else 0xBF, b - 0xF0)
      else None)"

declare utf8_start.simps [simp del]

fun utf8_decode_from :: "(nat \<times> nat \<times> nat \<times> nat) option \<Rightarrow> nat list \<Rightarrow> nat list" where
  "utf8_decode_from None [] = []"
| "utf8_decode_from (Some st) [] = [replacement]"
| "utf8_decode_from None (b # bs) =
     (if b < 0x80 then b # utf8_decode_from None bs
      else case utf8_start b of
             None \<Rightarrow> replacement # utf8_decode_from None bs
           | Some st \<Rightarrow> utf8_decode_from (Some st) bs)"
| "utf8_decode_from (Some (n, lo, hi, cp)) (b # bs) =
     (if lo \<le> b \<and> b \<le> hi then
        (let cp' = cp * 64 + (b - 0x80)
         in if n = 1 then cp' # utf8_decode_from None bs
            else utf8_decode_from (Some (n - 1, 0x80, 0xBF, cp')) bs)
      else replacement #
        (if b < 0x80 then b # utf8_decode_from None bs
         else case utf8_start b of
                None \<Rightarrow> replacement # utf8_decode_from None bs
              | Some st \<Rightarrow> utf8_decode_from (Some st) bs))"

text \<open>\<open>new TextDecoder().decode\<close>: a leading byte order mark is dropped.\<close>

definition utf8_decode :: "nat list \<Rightarrow> nat list" where
  "utf8_decode bs =
     utf8_decode_from None (if take 3 bs = [0xEF, 0xBB, 0xBF] then drop 3 bs else bs)"

section \<open>The class Base64\<close>

definition Base64_encode_plain :: "nat list \<Rightarrow> string" where
  "Base64_encode_plain content = btoa (map char_of (utf8_encode content))"

definition Base64_encode :: "nat list \<Rightarrow> bool \<Rightarrow> string" where
  "Base64_encode content safe =
     (if safe then subst_char CHR ''/'' CHR ''_'' (strip_char CHR ''=''
           (subst_char CHR ''+'' CHR ''-'' (Base64_encode_plain content)))
      else Base64_encode_plain content)"

definition alternativeEncode :: "string \<Rightarrow> string" where
  "alternativeEncode content = btoa content"

definition Base64_decode :: "string \<Rightarrow> nat list option" where
  "Base64_decode content = map_option (\<lambda>b. utf8_decode (map code b)) (atob content)"

section \<open>Decoding what was encoded\<close>

lemma all_some_map: "(\<And>x. x \<in> set xs \<Longrightarrow> f x = Some (g x)) \<Longrightarrow> all_some (map f xs) = Some (map g xs)"
  by (induction xs) auto

text \<open>The sextets of a byte string, without padding.\<close>

fun sextets :: "nat list \<Rightarrow> nat list" where
  "sextets [] = []"
| "sextets [a] = [a div 4, a mod 4 * 16]"
| "sextets [a, b] = [a div 4, a mod 4 * 16 + b div 16, b mod 16 * 4]"
| "sextets (a # b # c # r) =
     [a div 4, a mod 4 * 16 + b div 16, b mod 16 * 4 + c div 64, c mod 64] @ sextets r"

definition padding :: "nat \<Rightarrow> string" where
  "padding n = (if n mod 3 = 1 then ''=='' else if n mod 3 = 2 then ''='' else [])"

lemma b64_encode_sextets: "b64_encode bs = map b64_char (sextets bs) @ padding (length bs)"
proof (induction bs rule: b64_encode.induct)
  case (4 a b c r)
  have "length (a # b # c # r) = length r + 3" by simp
  then have "length (a # b # c # r) mod 3 = length r mod 3" by (simp only: mod_add_self2)
  then have "padding (length (a # b # c # r)) = padding (length r)" by (simp only: padding_def)
  then show ?case unfolding sextets.simps b64_encode.simps 4 by simp
qed (simp_all add: padding_def)

lemma sextets_less: "\<forall>b \<in> set bs. b < 256 \<Longrightarrow> v \<in> set (sextets bs) \<Longrightarrow> v < 64"
  by (induction bs rule: sextets.induct) auto

lemma joined: "q < k \<Longrightarrow> (p * k + q) div k = (p :: nat) \<and> (p * k + q) mod k = q"
  by simp

lemma decode_sextets: "\<forall>b \<in> set bs. b < 256 \<Longrightarrow> b64_decode (sextets bs) = bs"
proof (induction bs rule: sextets.induct)
  case (4 a b c r)
  then have l: "b div 16 < 16" "c div 64 < 4" and ih: "b64_decode (sextets r) = r" by auto
  show ?case using joined [OF l(1)] joined [OF l(2)] ih by (simp del: mod_mult_self1 mod_mult_self2)
next
  case (3 a b)
  then have l: "b div 16 < 16" by auto
  show ?case using joined [OF l] by (simp del: mod_mult_self1 mod_mult_self2)
qed auto

lemma length_sextets: "length (sextets bs) mod 4 = (if length bs mod 3 = 0 then 0 else length bs mod 3 + 1)"
  by (induction bs rule: sextets.induct) (auto simp: mod_Suc)

lemma length_b64_encode: "length (b64_encode bs) mod 4 = 0"
  by (induction bs rule: b64_encode.induct) auto

lemma all_some_values: "\<forall>v \<in> set vs. v < 64 \<Longrightarrow> all_some (map b64_val (map b64_char vs)) = Some vs"
  by (induction vs) auto

lemma alpha_no_pad:
  assumes "\<forall>v \<in> set vs. v < 64"
  shows "filter (\<lambda>c. \<not> ascii_space c) (map b64_char vs) = map b64_char vs"
    and "\<not> ends_with (map b64_char vs) ''=''" and "\<not> ends_with (map b64_char vs) ''==''"
proof -
  have n: "c \<noteq> CHR ''='' \<and> \<not> is_space c" if "c \<in> set (map b64_char vs)" for c
    using that assms b64_char_alpha by auto
  then show "filter (\<lambda>c. \<not> ascii_space c) (map b64_char vs) = map b64_char vs"
    by (intro filter_True) (force simp: ascii_space_def is_space_def)
  show "\<not> ends_with (map b64_char vs) ''=''" "\<not> ends_with (map b64_char vs) ''==''"
    using n [of "CHR ''=''"] by (auto simp: ends_with_iff simp del: set_map)
qed

lemma atob_unpadded:
  assumes "\<forall>v \<in> set vs. v < 64" and "length vs mod 4 \<noteq> 1"
  shows "atob (map b64_char vs) = Some (map char_of (b64_decode vs))"
  using assms all_some_values [OF assms(1)]
  by (simp add: atob_def strip_padding_def alpha_no_pad [OF assms(1)])

lemma strip_padding_encode:
  assumes "\<forall>b \<in> set bs. b < 256"
  shows "strip_padding (b64_encode bs) = map b64_char (sextets bs)"
proof -
  note n = alpha_no_pad [of "sextets bs", OF ballI [OF sextets_less [OF assms]]]
  have "length bs mod 3 = 0 \<or> length bs mod 3 = 1 \<or> length bs mod 3 = 2" by linarith
  moreover have "\<not> ends_with (x @ ''='') ''==''" if "\<not> ends_with x ''=''" for x
    using that by (auto simp: ends_with_def)
  ultimately show ?thesis using length_b64_encode [of bs] n(2,3)
    by (auto simp: strip_padding_def b64_encode_sextets padding_def ends_with_iff)
qed

lemma atob_b64_encode:
  assumes "\<forall>b \<in> set bs. b < 256"
  shows "atob (b64_encode bs) = Some (map char_of bs)"
proof -
  have v: "\<forall>v \<in> set (sextets bs). v < 64" using sextets_less [OF assms] by blast
  have "filter (\<lambda>c. \<not> ascii_space c) (b64_encode bs) = b64_encode bs"
    using alpha_no_pad(1) [OF v] by (simp add: b64_encode_sextets padding_def ascii_space_def)
  moreover have "length (sextets bs) mod 4 \<noteq> 1" by (simp add: length_sextets)
  ultimately show ?thesis
    using all_some_values [OF v] decode_sextets [OF assms]
    by (simp add: atob_def strip_padding_encode [OF assms])
qed

lemma atob_btoa [simp, js_str]: "atob (btoa s) = Some s"
proof -
  show ?thesis using atob_b64_encode [of "map code s"] by (simp add: btoa_def map_idI)
qed

lemma utf8_char_bytes: "scalar_value c \<Longrightarrow> b \<in> set (utf8_char c) \<Longrightarrow> b < 256"
  by (auto simp: utf8_char_def scalar_value_def split: if_splits)

lemma decode_2:
  assumes "2 \<le> p" "p < 32" "q < 64"
  shows "utf8_decode_from None ([0xC0 + p, 0x80 + q] @ bs) = (p * 64 + q) # utf8_decode_from None bs"
  using assms by (simp add: utf8_start.simps Let_def)

lemma decode_3:
  assumes "p < 16" "q < 64" "r < 64" "p = 0 \<Longrightarrow> 32 \<le> q" "p = 13 \<Longrightarrow> q \<le> 31"
  shows "utf8_decode_from None ([0xE0 + p, 0x80 + q, 0x80 + r] @ bs)
    = ((p * 64 + q) * 64 + r) # utf8_decode_from None bs"
  using assms by (simp add: utf8_start.simps Let_def)

lemma decode_4:
  assumes "p \<le> 4" "q < 64" "r < 64" "t < 64" "p = 0 \<Longrightarrow> 16 \<le> q" "p = 4 \<Longrightarrow> q \<le> 15"
  shows "utf8_decode_from None ([0xF0 + p, 0x80 + q, 0x80 + r, 0x80 + t] @ bs)
    = (((p * 64 + q) * 64 + r) * 64 + t) # utf8_decode_from None bs"
  using assms by (simp add: utf8_start.simps Let_def)

lemma digits_64: "(c :: nat) div 64 * 64 + c mod 64 = c"
  "(c div 4096 * 64 + c div 64 mod 64) = c div 64"
  "(c div 262144 * 64 + c div 4096 mod 64) = c div 4096"
  using div_mult2_eq [of c 64 64] div_mult2_eq [of c 4096 64] by simp_all

lemma utf8_2:
  assumes "0x80 \<le> c" "c < 0x800"
  shows "utf8_decode_from None (utf8_char c @ bs) = c # utf8_decode_from None bs"
proof -
  have "2 \<le> c div 64" "c div 64 < 32" using assms by auto
  from decode_2 [OF this, of "c mod 64" bs] show ?thesis
    using assms by (simp add: utf8_char_def del: utf8_decode_from.simps)
qed

lemma utf8_3:
  assumes "0x800 \<le> c" "c < 0x10000" "scalar_value c"
  shows "utf8_decode_from None (utf8_char c @ bs) = c # utf8_decode_from None bs"
proof -
  have d: "c div 4096 < 16" using assms by auto
  have lo: "32 \<le> c div 64 mod 64" if "c div 4096 = 0"
    using assms(1) that digits_64(2) [of c] by simp
  have hi: "c div 64 mod 64 \<le> 31" if "c div 4096 = 13"
    using assms(3) that digits_64(1,2) [of c] unfolding scalar_value_def by linarith
  from decode_3 [OF d _ _ lo hi, of "c mod 64" bs] show ?thesis
    using assms by (simp add: utf8_char_def digits_64 del: utf8_decode_from.simps)
qed

lemma utf8_4:
  assumes "0x10000 \<le> c" "c < 0x110000"
  shows "utf8_decode_from None (utf8_char c @ bs) = c # utf8_decode_from None bs"
proof -
  have d: "c div 262144 \<le> 4" using assms by auto
  have lo: "16 \<le> c div 4096 mod 64" if "c div 262144 = 0"
    using assms(1) that digits_64(3) [of c] by simp
  have hi: "c div 4096 mod 64 \<le> 15" if "c div 262144 = 4"
    using assms(2) that digits_64(3) [of c] by simp
  from decode_4 [OF d _ _ _ lo hi, of "c div 64 mod 64" "c mod 64" bs] show ?thesis
    using assms by (simp add: utf8_char_def digits_64 del: utf8_decode_from.simps)
qed

lemma utf8_decode_char:
  assumes "scalar_value c"
  shows "utf8_decode_from None (utf8_char c @ bs) = c # utf8_decode_from None bs"
proof -
  consider "c < 0x80" | "0x80 \<le> c \<and> c < 0x800" | "0x800 \<le> c \<and> c < 0x10000" | "0x10000 \<le> c"
    by linarith
  then show ?thesis
  proof cases
    case 1
    then show ?thesis by (simp add: utf8_char_def)
  qed (use assms utf8_2 utf8_3 utf8_4 in \<open>auto simp: scalar_value_def\<close>)
qed

lemma utf8_decode_from_encode:
  "\<forall>c \<in> set s. scalar_value c \<Longrightarrow> utf8_decode_from None (utf8_encode s) = s"
  by (induction s) (auto simp: utf8_encode_def utf8_decode_char)

lemma utf8_bom:
  assumes "\<forall>c \<in> set s. scalar_value c" "take 3 (utf8_encode s) = [0xEF, 0xBB, 0xBF]"
  shows "s \<noteq> [] \<and> hd s = 0xFEFF"
proof -
  have "utf8_encode s = [0xEF, 0xBB, 0xBF] @ drop 3 (utf8_encode s)"
    using assms(2) by (metis append_take_drop_id)
  moreover have "utf8_decode_from None ([0xEF, 0xBB, 0xBF] @ r) = 0xFEFF # utf8_decode_from None r" for r
    using decode_3 [of 15 59 63 r] by (simp del: utf8_decode_from.simps)
  ultimately have "utf8_decode_from None (utf8_encode s) = 0xFEFF # utf8_decode_from None (drop 3 (utf8_encode s))"
    by metis
  then show ?thesis unfolding utf8_decode_from_encode [OF assms(1)]
    by (metis list.distinct(1) list.sel(1))
qed

lemma utf8_roundtrip:
  assumes "\<forall>c \<in> set s. scalar_value c" "s \<noteq> [] \<longrightarrow> hd s \<noteq> 0xFEFF"
  shows "utf8_decode (utf8_encode s) = s"
  using utf8_bom [OF assms(1)] assms utf8_decode_from_encode by (auto simp: utf8_decode_def)

lemma utf8_encode_bytes: "\<forall>c \<in> set s. scalar_value c \<Longrightarrow> \<forall>b \<in> set (utf8_encode s). b < 256"
  using utf8_char_bytes by (auto simp: utf8_encode_def)

section \<open>Properties\<close>

text \<open>What \<open>Base64.encode\<close> writes, \<open>Base64.decode\<close> reads back, for every Unicode text
  that does not start with a byte order mark.\<close>

theorem base64_decode_encode:
  assumes "\<forall>c \<in> set s. scalar_value c" and "s \<noteq> [] \<longrightarrow> hd s \<noteq> 0xFEFF"
  shows "Base64_decode (Base64_encode s False) = Some s"
proof -
  have "map (code \<circ> char_of) (utf8_encode s) = utf8_encode s"
    using utf8_encode_bytes [OF assms(1)] by (auto intro: map_idI)
  then show ?thesis
    using utf8_roundtrip [OF assms] by (simp add: Base64_decode_def Base64_encode_def Base64_encode_plain_def)
qed

theorem base64_decode_encode_witness:
  "Base64_decode (Base64_encode [104, 233, 8364, 128512] False) = Some [104, 233, 8364, 128512]"
  by (rule base64_decode_encode) (simp_all add: scalar_value_def)

end
