(* ===== verification/Random_Util.thy ===== *)
theory Random_Util
  imports Base64_Codec "HOL-Library.State_Monad"
begin

text \<open>
  The class \<open>RandomUtil\<close> of \<open>frontend/src/utils/index.ts\<close>. The random source is the state
  of a state monad: the sequence of numbers that \<open>crypto.getRandomValues\<close> will deliver, of
  which a typed array keeps the low bits. Statements hold for every source
  (\<open>always\<close>), so they are about what the code guarantees, not about distributions.
\<close>

section \<open>The random source\<close>

type_synonym rng = "nat \<Rightarrow> nat"

type_synonym 'a rand = "(rng, 'a) state"

text \<open>\<open>getRandomValues\<close> on a typed array of \<open>n\<close> elements of \<open>w\<close> bits.\<close>

definition getRandomValues :: "nat \<Rightarrow> nat \<Rightarrow> nat list rand" where
  "getRandomValues w n = State (\<lambda>s. (map (\<lambda>i. s i mod 2 ^ w) [0..<n], \<lambda>i. s (n + i)))"

definition always :: "('a \<Rightarrow> bool) \<Rightarrow> 'a rand \<Rightarrow> bool" where
  "always P m \<longleftrightarrow> (\<forall>s. P (fst (run_state m s)))"

lemma always_return [simp]: "always P (State_Monad.return x) \<longleftrightarrow> P x"
  by (simp add: always_def)

lemma always_bind: "always Q m \<Longrightarrow> (\<And>x. Q x \<Longrightarrow> always P (f x)) \<Longrightarrow> always P (m \<bind> f)"
  by (auto simp: always_def split: prod.splits) (metis fst_conv)

lemma always_bindI: "(\<And>x. always P (f x)) \<Longrightarrow> always P (m \<bind> f)"
  by (rule always_bind [where Q = "\<lambda>_. True"]) (auto simp: always_def)

lemma always_mono: "always P m \<Longrightarrow> (\<And>x. P x \<Longrightarrow> Q x) \<Longrightarrow> always Q m"
  by (auto simp: always_def)

lemma always_D: "always P m \<Longrightarrow> P (fst (run_state m s))"
  by (simp add: always_def)

lemma always_random: "always (\<lambda>vs. length vs = n \<and> (\<forall>v \<in> set vs. v < 2 ^ w)) (getRandomValues w n)"
  by (auto simp: always_def getRandomValues_def)

section \<open>Sequences\<close>

datatype seq_type = Default_Seq | Hex_Seq

definition digits_seq :: string where "digits_seq = ''0123456789''"

definition lower_seq :: string where "lower_seq = ''abcdefghijklmnopqrstuvwxyz''"

definition upper_seq :: string where "upper_seq = ''ABCDEFGHIJKLMNOPQRSTUVWXYZ''"

definition getSeq :: "seq_type \<Rightarrow> bool \<Rightarrow> bool \<Rightarrow> bool \<Rightarrow> string" where
  "getSeq type hasNumbers hasLowercase hasUppercase =
     (case type of
        Hex_Seq \<Rightarrow> ''0123456789abcdef''
      | Default_Seq \<Rightarrow> (if hasNumbers then digits_seq else []) @ (if hasLowercase then lower_seq else [])
          @ (if hasUppercase then upper_seq else []))"

text \<open>\<open>Math.floor((buf / 2^32) * range) + min\<close>: dividing by \<open>2 ^ 32\<close> is exact.\<close>

definition randomInteger :: "int \<Rightarrow> int \<Rightarrow> int rand" where
  "randomInteger mn mx = do {
     buf \<leftarrow> getRandomValues 32 1;
     State_Monad.return (f64 (int (hd buf) * (mx - mn + 1)) div 2 ^ 32 + mn)
   }"

text \<open>\<open>seq[v % seq.length]\<close>; an empty sequence has no element, and \<open>join\<close> prints \<open>undefined\<close>
  as nothing.\<close>

definition pick_char :: "string \<Rightarrow> nat \<Rightarrow> string" where
  "pick_char sq v = (if sq = [] then [] else [sq ! (v mod length sq)])"

definition random_from :: "nat \<Rightarrow> string \<Rightarrow> string rand" where
  "random_from count sq = do {
     randomValues \<leftarrow> getRandomValues 32 count;
     State_Monad.return (concat (map (pick_char sq) randomValues))
   }"

definition randomSeq :: "nat \<Rightarrow> string rand" where
  "randomSeq count = random_from count (getSeq Default_Seq True True True)"

definition randomHex :: "nat \<Rightarrow> string rand" where
  "randomHex count = random_from count (getSeq Hex_Seq True True True)"

definition randomLowerAndNum :: "nat \<Rightarrow> string rand" where
  "randomLowerAndNum len = random_from len (getSeq Default_Seq True True False)"

fun map_rand :: "('a \<Rightarrow> 'b rand) \<Rightarrow> 'a list \<Rightarrow> 'b list rand" where
  "map_rand f [] = State_Monad.return []"
| "map_rand f (x # xs) = do { y \<leftarrow> f x; ys \<leftarrow> map_rand f xs; State_Monad.return (y # ys) }"

text \<open>The order \<open>Array.prototype.sort\<close> leaves under a random comparator is the engine's
  business: \<open>shuffle\<close> is a parameter.\<close>

definition randomShortIds :: "(nat list \<Rightarrow> nat list) \<Rightarrow> string rand" where
  "randomShortIds shuffle = do {
     ids \<leftarrow> map_rand randomHex (shuffle [2, 4, 6, 8, 10, 12, 14, 16]);
     State_Monad.return (join '','' ids)
   }"

section \<open>UUIDs\<close>

definition hex_char :: "nat \<Rightarrow> char" where
  "hex_char d = (if d < 10 then char_of (48 + d) else char_of (87 + d))"

definition uuid_template :: string where
  "uuid_template = ''xxxxxxxx-xxxx-4xxx-yxxx-xxxxxxxxxxxx''"

definition uuid_char :: "char \<Rightarrow> string rand" where
  "uuid_char c =
     (if c = CHR ''x'' \<or> c = CHR ''y'' then do {
        randomValues \<leftarrow> getRandomValues 8 1;
        let randomValue = hd randomValues mod 16;
        let calculatedValue = (if c = CHR ''x'' then randomValue else randomValue mod 4 + 8);
        State_Monad.return [hex_char calculatedValue]
      } else State_Monad.return [c])"

text \<open>In a secure context the browser's own \<open>crypto.randomUUID\<close> is called: it is the
  parameter \<open>nativeUUID\<close>.\<close>

definition randomUUID :: "string rand option \<Rightarrow> string rand" where
  "randomUUID nativeUUID =
     (case nativeUUID of
        Some m \<Rightarrow> m
      | None \<Rightarrow> do { parts \<leftarrow> map_rand uuid_char uuid_template; State_Monad.return (concat parts) })"

text \<open>\<open>/^[0-9a-f]{8}-[0-9a-f]{4}-[0-9a-f]{4}-[0-9a-f]{4}-[0-9a-f]{12}$/i\<close>.\<close>

definition is_uuid :: "string \<Rightarrow> bool" where
  "is_uuid s = list_all2 (\<lambda>p c. if p = CHR ''x'' then is_hex c else c = CHR ''-'')
     ''xxxxxxxx-xxxx-xxxx-xxxx-xxxxxxxxxxxx'' s"

section \<open>Shadowsocks keys, Base64, Base32\<close>

definition bytes_to_string :: "nat list \<Rightarrow> string" where
  "bytes_to_string bs = map char_of bs"

definition ss_key_length :: "string \<Rightarrow> nat" where
  "ss_key_length method = (if method = ''2022-blake3-aes-128-gcm'' then 16 else 32)"

definition randomShadowsocksPassword :: "string \<Rightarrow> string rand" where
  "randomShadowsocksPassword method = do {
     array \<leftarrow> getRandomValues 8 (ss_key_length method);
     State_Monad.return (alternativeEncode (bytes_to_string array))
   }"

definition isShadowsocks2022Password :: "string \<Rightarrow> string \<Rightarrow> bool" where
  "isShadowsocks2022Password password method =
     (if method = [] \<or> take 4 method \<noteq> ''2022'' then True
      else case atob password of Some b \<Rightarrow> length b = ss_key_length method | None \<Rightarrow> False)"

definition randomBase64 :: "nat \<Rightarrow> string rand" where
  "randomBase64 len = do {
     array \<leftarrow> getRandomValues 8 len;
     State_Monad.return (alternativeEncode (bytes_to_string array))
   }"

definition base32Chars :: string where
  "base32Chars = ''ABCDEFGHIJKLMNOPQRSTUVWXYZ234567''"

text \<open>The inner \<open>while (bits >= 5)\<close> loop on \<open>(result, bits, buffer)\<close>.\<close>

fun base32_drain :: "int \<Rightarrow> nat \<Rightarrow> string \<Rightarrow> nat \<times> string" where
  "base32_drain buffer bits result =
     (if bits \<ge> 5 then base32_drain buffer (bits - 5)
        (result @ [base32Chars ! nat (js_and (js_shr buffer (bits - 5)) 0x1F)])
      else (bits, result))"

declare base32_drain.simps [simp del]

definition base32_step :: "nat \<Rightarrow> int \<times> nat \<times> string \<Rightarrow> int \<times> nat \<times> string" where
  "base32_step b st =
     (case st of (buffer, bits, result) \<Rightarrow>
        (let buffer = js_or (js_shl buffer 8) (int b);
             (bits, result) = base32_drain buffer (bits + 8) result
         in (buffer, bits, result)))"

definition base32_encode :: "nat list \<Rightarrow> string" where
  "base32_encode array =
     (case fold base32_step array (0, 0, []) of (buffer, bits, result) \<Rightarrow>
        if bits > 0 then result @ [base32Chars ! nat (js_and (js_shl buffer (5 - bits)) 0x1F)]
        else result)"

definition randomBase32String :: "nat \<Rightarrow> string rand" where
  "randomBase32String len = do {
     array \<leftarrow> getRandomValues 8 len;
     State_Monad.return (base32_encode array)
   }"

section \<open>What the generators guarantee\<close>

lemma always_map_rand:
  assumes "\<And>x. x \<in> set xs \<Longrightarrow> always (R x) (f x)"
  shows "always (\<lambda>ys. list_all2 R xs ys) (map_rand f xs)"
  using assms
proof (induction xs)
  case Nil
  then show ?case by simp
next
  case (Cons x xs)
  show ?case unfolding map_rand.simps
    by (rule always_bind [of "R x"], use Cons in simp, rule always_bind [of "list_all2 R xs"], use Cons in simp, simp)
qed

lemma pick_char_in: "sq \<noteq> [] \<Longrightarrow> length (pick_char sq v) = 1 \<and> set (pick_char sq v) \<subseteq> set sq"
  by (simp add: pick_char_def)

lemma always_random_from:
  assumes "sq \<noteq> []"
  shows "always (\<lambda>s. length s = n \<and> set s \<subseteq> set sq) (random_from n sq)"
  unfolding random_from_def
proof (rule always_bind [OF always_random])
  fix vs :: "nat list" assume vs: "length vs = n \<and> (\<forall>v \<in> set vs. v < 2 ^ 32)"
  have "length (concat (map (pick_char sq) vs)) = length vs"
    using pick_char_in [OF assms] by (induction vs) auto
  moreover have "set (concat (map (pick_char sq) vs)) \<subseteq> set sq"
    using pick_char_in [OF assms] by auto
  ultimately show "always (\<lambda>s. length s = n \<and> set s \<subseteq> set sq) (State_Monad.return (concat (map (pick_char sq) vs)))"
    using vs by simp
qed

lemma seqs_nonempty [simp]: "getSeq t True l u \<noteq> []"
  by (cases t) (simp_all add: getSeq_def digits_seq_def)

lemma always_randomSeq: "always (\<lambda>s. length s = n) (randomSeq n)"
  unfolding randomSeq_def by (rule always_mono [OF always_random_from]) auto

lemma always_randomLowerAndNum: "always (\<lambda>s. length s = n) (randomLowerAndNum n)"
  unfolding randomLowerAndNum_def by (rule always_mono [OF always_random_from]) auto

lemma always_randomHex: "always (\<lambda>s. length s = n \<and> set s \<subseteq> set ''0123456789abcdef'') (randomHex n)"
  unfolding randomHex_def by (rule always_mono [OF always_random_from]) (auto simp: getSeq_def)

lemma hex_char_hex: "d < 16 \<Longrightarrow> is_hex (hex_char d)"
  by (auto simp: hex_char_def is_hex_def is_digit_def)

definition uuid_digit :: "char \<Rightarrow> char \<Rightarrow> bool" where
  "uuid_digit c d \<longleftrightarrow> (if c = CHR ''x'' \<or> c = CHR ''y'' then is_hex d else d = c)"

lemma always_uuid_char: "always (\<lambda>s. \<exists>d. s = [d] \<and> uuid_digit c d) (uuid_char c)"
  unfolding uuid_char_def uuid_digit_def Let_def
  by (auto intro!: always_bindI hex_char_hex split: if_splits)

lemma always_nonnative_uuid: "always is_uuid (randomUUID None)"
  unfolding randomUUID_def option.case
proof (rule always_bind [OF always_map_rand], rule always_uuid_char)
  fix parts
  assume "list_all2 (\<lambda>c s. \<exists>d. s = [d] \<and> uuid_digit c d) uuid_template parts"
  then have "list_all2 uuid_digit uuid_template (concat parts)"
    by (induction rule: list_all2_induct) auto
  moreover have "is_hex CHR ''4''" by (simp add: is_hex_def is_digit_def)
  ultimately show "always is_uuid (State_Monad.return (concat parts))"
    by (auto simp: uuid_template_def is_uuid_def list_all2_Cons1 uuid_digit_def)
qed

lemma randomUUID_is_uuid:
  assumes "case nativeUUID of Some m \<Rightarrow> always is_uuid m | None \<Rightarrow> True"
  shows "always is_uuid (randomUUID nativeUUID)"
  using assms always_nonnative_uuid by (cases nativeUUID) (auto simp: randomUUID_def)

lemma ss_password_ok:
  "always (\<lambda>p. isShadowsocks2022Password p method) (randomShadowsocksPassword method)"
  unfolding randomShadowsocksPassword_def
  by (rule always_bind [OF always_random])
    (simp add: isShadowsocks2022Password_def alternativeEncode_def bytes_to_string_def)

lemma random_integer_range:
  assumes "mn \<le> mx" "mx - mn < 2 ^ 21"
  shows "always (\<lambda>r. mn \<le> r \<and> r \<le> mx) (randomInteger mn mx)"
  unfolding randomInteger_def
proof (rule always_bind [OF always_random])
  fix buf :: "nat list" assume b: "length buf = 1 \<and> (\<forall>v \<in> set buf. v < 2 ^ 32)"
  define v where "v = int (hd buf)"
  have "hd buf \<in> set buf" using b by (cases buf) auto
  then have v: "0 \<le> v" "v < 2 ^ 32" using b by (auto simp: v_def)
  define range where "range = mx - mn + 1"
  have r: "1 \<le> range" "range \<le> 2 ^ 21" using assms by (auto simp: range_def)
  have "v * range \<le> (2 ^ 32 - 1) * range" using v r by (intro mult_right_mono) auto
  then have p: "0 \<le> v * range" "v * range < range * 2 ^ 32" using v r by (auto simp: algebra_simps)
  have "v * range \<le> 2 ^ 53" by (rule order.trans [OF less_imp_le [OF p(2)]]) (use r(2) in simp)
  then have "f64 (v * range) = v * range" using p(1) by (intro f64_exact) simp
  moreover have "0 \<le> v * range div 2 ^ 32" "v * range div 2 ^ 32 < range"
    using p by (auto simp: pos_imp_zdiv_nonneg_iff div_less_iff_less_mult)
  ultimately show "always (\<lambda>r. mn \<le> r \<and> r \<le> mx)
      (State_Monad.return (f64 (int (hd buf) * (mx - mn + 1)) div 2 ^ 32 + mn))"
    by (simp add: v_def [symmetric] range_def [symmetric]) (simp add: range_def)
qed

section \<open>Base32\<close>

text \<open>The base-32 digits of the number the bytes write in big-endian order, most significant
  first; the last one is filled up with zero bits.\<close>

definition be_val :: "nat list \<Rightarrow> nat" where
  "be_val bs = foldl (\<lambda>n b. 256 * n + b) 0 bs"

definition base32_ref :: "nat list \<Rightarrow> string" where
  "base32_ref bs =
     (let n = be_val bs; l = 8 * length bs
      in map (\<lambda>j. base32Chars ! (n div 2 ^ (l - 5 * (j + 1)) mod 32)) [0..<l div 5]
         @ (if l mod 5 > 0 then [base32Chars ! (n * 2 ^ (5 - l mod 5) mod 32)] else []))"

lemma js_and_31: "js_and x 31 = take_bit 5 x"
proof -
  have "js_and x 31 = to_int32 x AND mask 5"
    by (simp add: js_and_def to_int32_def mask_eq_exp_minus_1)
  also have "\<dots> = take_bit 5 x"
    by (simp add: take_bit_eq_mask [symmetric] to_int32_def take_bit_signed_take_bit)
  finally show ?thesis .
qed

definition int32_is :: "int \<Rightarrow> nat \<Rightarrow> bool" where
  "int32_is buffer n \<longleftrightarrow> take_bit 32 buffer = take_bit 32 (int n)"

lemma int32_is_low: "int32_is buffer n \<Longrightarrow> k \<le> 32 \<Longrightarrow> take_bit k buffer = take_bit k (int n)"
  unfolding int32_is_def by (metis min.absorb1 take_bit_take_bit)

lemma take_32_to_int32: "k \<le> 32 \<Longrightarrow> take_bit k (to_int32 x) = take_bit k x"
  by (simp add: to_int32_def take_bit_signed_take_bit)

lemma int32_is_shift:
  assumes "int32_is buffer n" "b < 256"
  shows "int32_is (js_or (js_shl buffer 8) (int b)) (256 * n + b)"
proof -
  have "take_bit 32 (push_bit 8 buffer) = push_bit 8 (take_bit 24 buffer)" by (simp add: take_bit_push_bit)
  also have "\<dots> = take_bit 32 (push_bit 8 (int n))"
    using int32_is_low [OF assms(1), of 24] by (simp add: take_bit_push_bit)
  finally have s: "take_bit 32 (push_bit 8 buffer) = take_bit 32 (push_bit 8 (int n))" .
  have p: "take_bit 32 (push_bit 8 (to_int32 buffer)) = take_bit 32 (push_bit 8 buffer)"
    by (simp add: take_bit_push_bit take_32_to_int32)
  have "take_bit 32 (js_or (js_shl buffer 8) (int b)) = take_bit 32 (push_bit 8 (int n) OR int b)"
    by (simp add: js_or_def js_shl_def take_bit_or take_32_to_int32 p s)
  moreover have "push_bit 8 (int n) OR int b = int n * 256 + int b"
    using concat_bit_eq [of 8 "int b" "int n"] assms(2)
    by (simp add: concat_bit_def take_bit_int_eq_self or.commute push_bit_eq_mult)
  ultimately show ?thesis by (simp add: int32_is_def mult.commute)
qed

lemma digit_read:
  assumes "int32_is buffer n" "k + 5 \<le> 32"
  shows "nat (js_and (js_shr buffer k) 31) = n div 2 ^ k mod 32"
proof -
  have "take_bit 5 (drop_bit k (take_bit 32 buffer)) = take_bit 5 (drop_bit k (take_bit 32 (int n)))"
    using assms(1) by (simp add: int32_is_def)
  also have "\<dots> = take_bit 5 (drop_bit k (int n))"
    using assms(2) by (simp add: drop_bit_take_bit min_absorb1)
  also have "\<dots> = int (n div 2 ^ k mod 32)"
    by (simp add: take_bit_eq_mod drop_bit_eq_div zdiv_int zmod_int)
  finally show ?thesis by (simp add: js_and_31 js_shr_def)
qed

lemma drain_digits:
  "base32_drain buffer m res =
     (m mod 5, res @ map (\<lambda>i. base32Chars ! nat (js_and (js_shr buffer (m - 5 * (i + 1))) 31)) [0..<m div 5])"
proof (induction buffer m res rule: base32_drain.induct)
  case (1 buffer m res)
  show ?case
  proof (cases "m \<ge> 5")
    case False
    then show ?thesis by (simp add: base32_drain.simps)
  next
    case True
    then have m: "m div 5 = Suc ((m - 5) div 5)" "(m - 5) mod 5 = m mod 5" by (simp_all add: le_div_geq le_mod_geq)
    have "m - 5 * (Suc i + 1) = m - 5 - 5 * (i + 1)" for i by simp
    then have "map (\<lambda>i. base32Chars ! nat (js_and (js_shr buffer (m - 5 * (i + 1))) 31)) [0..<m div 5]
        = base32Chars ! nat (js_and (js_shr buffer (m - 5)) 31)
          # map (\<lambda>i. base32Chars ! nat (js_and (js_shr buffer (m - 5 - 5 * (i + 1))) 31)) [0..<(m - 5) div 5]"
      unfolding m(1) by (simp only: upt_conv_Cons [OF zero_less_Suc] map_Suc_upt [symmetric] list.map map_map comp_def) simp
    then show ?thesis using 1 [OF True] True by (simp add: base32_drain.simps [of buffer m] m(2))
  qed
qed

definition base32_inv :: "nat list \<Rightarrow> int \<times> nat \<times> string \<Rightarrow> bool" where
  "base32_inv bs st = (case st of (buffer, bits, result) \<Rightarrow>
     int32_is buffer (be_val bs) \<and> bits = 8 * length bs mod 5
     \<and> result = map (\<lambda>j. base32Chars ! (be_val bs div 2 ^ (8 * length bs - 5 * (j + 1)) mod 32)) [0..<8 * length bs div 5])"

lemma base32_inv_step:
  assumes "base32_inv bs st" "b < 256"
  shows "base32_inv (bs @ [b]) (base32_step b st)"
proof -
  obtain buffer bits result where st: "st = (buffer, bits, result)" by (cases st)
  define l q n n' where "l = 8 * length bs" and "q = l div 5" and "n = be_val bs" and "n' = 256 * n + b"
  have inv: "int32_is buffer n" "bits = l mod 5"
    "result = map (\<lambda>j. base32Chars ! (n div 2 ^ (l - 5 * (j + 1)) mod 32)) [0..<q]"
    using assms(1) by (simp_all add: base32_inv_def st l_def q_def n_def)
  have n': "be_val (bs @ [b]) = n'" by (simp add: be_val_def n'_def n_def)
  have l': "8 * length (bs @ [b]) = l + 8" by (simp add: l_def)
  have lq: "l = 5 * q + l mod 5" by (simp add: q_def)
  define m where "m = l mod 5 + 8"
  have m: "(l + 8) mod 5 = m mod 5" "(l + 8) div 5 = q + m div 5" using lq by (simp_all add: m_def) presburger
  have buf: "int32_is (js_or (js_shl buffer 8) (int b)) n'" unfolding n'_def by (rule int32_is_shift [OF inv(1) assms(2)])
  have old: "n div 2 ^ (l - 5 * (j + 1)) = n' div 2 ^ (l + 8 - 5 * (j + 1))" if "j < q" for j
  proof -
    have e: "l + 8 - 5 * (j + 1) = 8 + (l - 5 * (j + 1))" using that lq by simp
    have "n' div 2 ^ 8 = n" using assms(2) by (simp add: n'_def)
    then show ?thesis unfolding e power_add div_mult2_eq by simp
  qed
  have new: "nat (js_and (js_shr (js_or (js_shl buffer 8) (int b)) (m - 5 * (i + 1))) 31) = n' div 2 ^ (l + 8 - 5 * (i + q + 1)) mod 32"
    if "i < m div 5" for i
  proof -
    have "m - 5 * (i + 1) = l + 8 - 5 * (i + q + 1)" using lq by (simp add: m_def)
    moreover have "m - 5 * (i + 1) + 5 \<le> 32" by (simp add: m_def)
    ultimately show ?thesis using digit_read [OF buf] by simp
  qed
  have u: "[0..<q + k] = [0..<q] @ map (\<lambda>i. i + q) [0..<k]" for k
    using upt_add_eq_append [of 0 q k] map_add_upt [of q k] by (simp only: add.commute [of k q])
  have "map (\<lambda>j. base32Chars ! (n' div 2 ^ (l + 8 - 5 * (j + 1)) mod 32)) [0..<q + m div 5]
      = result @ map (\<lambda>i. base32Chars ! nat (js_and (js_shr (js_or (js_shl buffer 8) (int b)) (m - 5 * (i + 1))) 31)) [0..<m div 5]"
    unfolding u map_append map_map comp_def inv(3)
    by (intro arg_cong2 [where f = append] map_cong refl) (simp_all only: old new set_upt atLeastLessThan_iff)
  moreover have "bits + 8 = m" by (simp add: inv(2) m_def)
  then have "base32_step b st = (js_or (js_shl buffer 8) (int b), m mod 5,
      result @ map (\<lambda>i. base32Chars ! nat (js_and (js_shr (js_or (js_shl buffer 8) (int b)) (m - 5 * (i + 1))) 31)) [0..<m div 5])"
    by (simp only: base32_step_def st prod.case Let_def drain_digits)
  ultimately show ?thesis using buf m
    by (simp only: base32_inv_def n' l' prod.case simp_thms)
qed

lemma base32_encode_ref:
  assumes "\<forall>b \<in> set bs. b < 256"
  shows "base32_encode bs = base32_ref bs"
proof -
  have "base32_inv bs (fold base32_step bs (0, 0, []))" if "\<forall>b \<in> set bs. b < 256" for bs
    using that
  proof (induction bs rule: rev_induct)
    case Nil
    then show ?case by (simp add: base32_inv_def int32_is_def be_val_def)
  next
    case (snoc b bs)
    then show ?case using base32_inv_step by simp
  qed
  then have inv: "base32_inv bs (fold base32_step bs (0, 0, []))" using assms .
  obtain buffer bits result where st: "fold base32_step bs (0, 0, []) = (buffer, bits, result)"
    by (cases "fold base32_step bs (0, 0, [])")
  have b: "int32_is buffer (be_val bs)" "bits = 8 * length bs mod 5" using inv by (simp_all add: st base32_inv_def)
  have "take_bit 5 (push_bit (5 - bits) buffer) = take_bit 5 (push_bit (5 - bits) (int (be_val bs)))"
    using int32_is_low [OF b(1), of bits] by (simp add: take_bit_push_bit b(2))
  moreover have "take_bit 5 (push_bit (5 - bits) (to_int32 buffer)) = take_bit 5 (push_bit (5 - bits) buffer)"
    by (simp add: take_bit_push_bit take_32_to_int32)
  ultimately have "js_and (js_shl buffer (5 - bits)) 31 = take_bit 5 (push_bit (5 - bits) (int (be_val bs)))"
    by (simp add: js_and_31 js_shl_def take_32_to_int32)
  also have "\<dots> = int (be_val bs * 2 ^ (5 - bits) mod 32)"
    by (simp add: take_bit_eq_mod push_bit_eq_mult zmod_int)
  finally have "js_and (js_shl buffer (5 - bits)) 31 = int (be_val bs * 2 ^ (5 - bits) mod 32)" .
  then show ?thesis using inv
    by (simp add: base32_encode_def st base32_inv_def base32_ref_def Let_def)
qed

section \<open>Properties\<close>

text \<open>The streaming Base32 encoder, whose 32-bit buffer overflows after four bytes, writes
  the base-32 digits of the whole byte string.\<close>

theorem base32_digits:
  assumes "\<forall>b \<in> set bs. b < 256"
  shows "base32_encode bs = base32_ref bs"
  by (rule base32_encode_ref [OF assms])

theorem base32_digits_witness: "base32_encode [255, 0, 17, 200, 9, 1, 2] = base32_ref [255, 0, 17, 200, 9, 1, 2]"
  by (rule base32_digits) simp

text \<open>Whatever the random source delivers: a generated Shadowsocks key passes the panel's
  own check for its method, a generated UUID matches the panel's UUID pattern, and a random
  integer lies in the requested range.\<close>

theorem generated_credentials_valid:
  assumes "mn \<le> mx" "mx - mn < 2 ^ 21"
  shows "always (\<lambda>p. isShadowsocks2022Password p method) (randomShadowsocksPassword method)
    \<and> always is_uuid (randomUUID None) \<and> always (\<lambda>r. mn \<le> r \<and> r \<le> mx) (randomInteger mn mx)"
  using ss_password_ok always_nonnative_uuid random_integer_range [OF assms] by blast

theorem generated_credentials_valid_witness:
  "always (\<lambda>p. isShadowsocks2022Password p ''2022-blake3-aes-128-gcm'') (randomShadowsocksPassword ''2022-blake3-aes-128-gcm'')
    \<and> always is_uuid (randomUUID None) \<and> always (\<lambda>r. 10000 \<le> r \<and> r \<le> 60000) (randomInteger 10000 60000)"
  by (rule generated_credentials_valid) simp_all

end
