(* ===== verification/Curve25519.thy ===== *)
theory Curve25519
  imports JS_Prelude
begin

text \<open>
  The class \<open>Wireguard\<close> of \<open>frontend/src/utils/index.ts\<close>: the X25519 public key that the
  panel derives in the browser, on sixteen limbs of sixteen bits kept in a \<open>Float64Array\<close>.
  The model keeps every operation of the source, with the rounding of each double
  operation (\<^const>\<open>f64\<close>) and the 32-bit conversions of the bitwise ones. The lemmas show
  that no rounding ever happens on the values the code reaches, that each operation
  computes in the field of integers modulo \<open>2 ^ 255 - 19\<close>, and that the whole routine is
  the scalar multiplication of RFC 7748.
\<close>

type_synonym fe = "int list"

definition prime25519 :: int where
  "prime25519 = 2 ^ 255 - 19"

section \<open>Operations\<close>

text \<open>Writes past the end of a typed array are ignored.\<close>

definition gf :: "int list \<Rightarrow> fe" where
  "gf init = take 16 (init @ replicate 16 0)"

definition carry_step :: "nat \<Rightarrow> fe \<Rightarrow> fe" where
  "carry_step i xs =
     (let j = (i + 1) mod 16;
          ys = xs[j := f64 (xs ! j + f64 ((if i < 15 then 1 else 38) * (xs ! i div 65536)))]
      in ys[i := js_and (ys ! i) 65535])"

definition wg_carry :: "fe \<Rightarrow> fe" where
  "wg_carry xs = fold carry_step [0..<16] xs"

definition cswap :: "fe \<Rightarrow> fe \<Rightarrow> int \<Rightarrow> fe \<times> fe" where
  "cswap p q b =
     (let c = js_not (b - 1); t = (\<lambda>i. js_and c (js_xor (p ! i) (q ! i)))
      in (map (\<lambda>i. js_xor (p ! i) (t i)) [0..<16], map (\<lambda>i. js_xor (q ! i) (t i)) [0..<16]))"

definition wg_add :: "fe \<Rightarrow> fe \<Rightarrow> fe" where
  "wg_add a b = map (\<lambda>i. to_int32 (f64 (a ! i + b ! i))) [0..<16]"

definition wg_subtract :: "fe \<Rightarrow> fe \<Rightarrow> fe" where
  "wg_subtract a b = map (\<lambda>i. to_int32 (f64 (a ! i - b ! i))) [0..<16]"

definition mult_inner :: "fe \<Rightarrow> fe \<Rightarrow> nat \<Rightarrow> nat \<Rightarrow> int list \<Rightarrow> int list" where
  "mult_inner a b i j t = t[i + j := f64 (t ! (i + j) + f64 (a ! i * b ! j))]"

definition mult_fold :: "nat \<Rightarrow> int list \<Rightarrow> int list" where
  "mult_fold i t = t[i := f64 (t ! i + f64 (38 * t ! (i + 16)))]"

definition multmod :: "fe \<Rightarrow> fe \<Rightarrow> fe" where
  "multmod a b =
     (let t = fold (\<lambda>i. fold (mult_inner a b i) [0..<16]) [0..<16] (replicate 31 0);
          t' = fold mult_fold [0..<15] t
      in wg_carry (wg_carry (take 16 t')))"

definition invert_step :: "fe \<Rightarrow> nat \<Rightarrow> fe \<Rightarrow> fe" where
  "invert_step i a c =
     (let c' = multmod c c in if a \<noteq> 2 \<and> a \<noteq> 4 then multmod c' i else c')"

definition wg_invert :: "fe \<Rightarrow> fe" where
  "wg_invert i = fold (invert_step i) (rev [0..<254]) i"

definition pack_borrow :: "fe \<Rightarrow> nat \<Rightarrow> fe \<Rightarrow> fe" where
  "pack_borrow t i m =
     (let m' = m[i := f64 (f64 (t ! i - 65535) - js_and (js_sar (m ! (i - 1)) 16) 1)]
      in m'[i - 1 := js_and (m' ! (i - 1)) 65535])"

definition pack_round :: "fe \<Rightarrow> fe" where
  "pack_round t =
     (let m0 = (gf [])[0 := f64 (t ! 0 - 65517)];
          m1 = fold (pack_borrow t) [1..<15] m0;
          m2 = m1[15 := f64 (f64 (t ! 15 - 32767) - js_and (js_sar (m1 ! 14) 16) 1)];
          b = js_and (js_sar (m2 ! 15) 16) 1;
          m3 = m2[14 := js_and (m2 ! 14) 65535]
      in fst (cswap t m3 (1 - b)))"

definition wg_pack :: "fe \<Rightarrow> int list" where
  "wg_pack n =
     (let t = pack_round (pack_round (wg_carry (wg_carry (wg_carry n))))
      in concat (map (\<lambda>i. [to_uint8 (js_and (t ! i) 255), to_uint8 (js_sar (t ! i) 8)]) [0..<16]))"

definition wg_clamp :: "int list \<Rightarrow> int list" where
  "wg_clamp z =
     (let z' = z[31 := to_uint8 (js_or (js_and (z ! 31) 127) 64)]
      in z'[0 := to_uint8 (js_and (z' ! 0) 248)])"

type_synonym ladder = "fe \<times> fe \<times> fe \<times> fe"

definition ladder_bit :: "int list \<Rightarrow> nat \<Rightarrow> int" where
  "ladder_bit z i = js_and (js_shr (z ! (i div 8)) (i mod 8)) 1"

definition ladder_core :: "ladder \<Rightarrow> ladder" where
  "ladder_core = (\<lambda>(a, b, c, d).
     let e = wg_add a c; a = wg_subtract a c; c = wg_add b d; b = wg_subtract b d;
         d = multmod e e; f = multmod a a; a = multmod c a; c = multmod b e;
         e = wg_add a c; a = wg_subtract a c; b = multmod a a; c = wg_subtract d f;
         a = multmod c (gf [0xdb41, 1]); a = wg_add a d; c = multmod c a; a = multmod d f;
         d = multmod b (gf [9]); b = multmod e e
     in (a, b, c, d))"

definition ladder_swap :: "int \<Rightarrow> ladder \<Rightarrow> ladder" where
  "ladder_swap r = (\<lambda>(a, b, c, d).
     let (a, b) = cswap a b r; (c, d) = cswap c d r in (a, b, c, d))"

definition ladder_step :: "int list \<Rightarrow> nat \<Rightarrow> ladder \<Rightarrow> ladder" where
  "ladder_step z i s = ladder_swap (ladder_bit z i) (ladder_core (ladder_swap (ladder_bit z i) s))"

definition generatePublicKey :: "int list \<Rightarrow> int list" where
  "generatePublicKey privateKey =
     (let z = wg_clamp (take 32 (privateKey @ replicate 32 0));
          (a, b, c, d) = fold (ladder_step z) (rev [0..<255]) (gf [1], gf [9], gf [], gf [1])
      in wg_pack (multmod a (wg_invert c)))"

section \<open>Carrying\<close>

definition bounded :: "int \<Rightarrow> fe \<Rightarrow> bool" where
  "bounded B xs \<longleftrightarrow> length xs = 16 \<and> (\<forall>i < 16. \<bar>xs ! i\<bar> \<le> B)"

definition carried :: "int \<Rightarrow> fe \<Rightarrow> bool" where
  "carried c xs \<longleftrightarrow> length xs = 16 \<and> (\<forall>i \<in> {1..<16}. 0 \<le> xs ! i \<and> xs ! i < 65536)
     \<and> 38 * c \<le> xs ! 0 \<and> xs ! 0 < 65536 + 38 * c"

lemma length_carry_step [simp]: "length (carry_step i xs) = length xs"
  by (simp add: carry_step_def Let_def)

lemma carry_step_low:
  assumes "i < 15" and "length xs = 16" and "\<bar>xs ! i\<bar> \<le> 2 ^ 51" and "\<bar>xs ! Suc i\<bar> \<le> 2 ^ 50"
  shows "carry_step i xs = xs[Suc i := xs ! Suc i + xs ! i div 65536, i := xs ! i mod 65536]"
proof -
  have a: "f64 (xs ! i div 65536) = xs ! i div 65536" using assms(3) by (intro f64_exact) simp
  have b: "f64 (xs ! Suc i + xs ! i div 65536) = xs ! Suc i + xs ! i div 65536"
    using assms(3,4) by (intro f64_exact) simp
  have "Suc i mod 16 = Suc i" using assms(1) by simp
  then show ?thesis using assms(1,2) by (simp add: carry_step_def a b js_and_ffff)
qed

lemma carry_step_low_fval:
  assumes "i < 15" and "length xs = 16"
  shows "fval (xs[Suc i := xs ! Suc i + xs ! i div 65536, i := xs ! i mod 65536]) = fval xs"
proof -
  define q r where "q = xs ! i div 65536" and "r = xs ! i mod 65536"
  have x: "xs ! i = 65536 * q + r" by (simp add: q_def r_def)
  show ?thesis
    unfolding q_def [symmetric] r_def [symmetric]
    using assms by (simp add: fval_update x algebra_simps)
qed

definition carry_inv :: "fe \<Rightarrow> nat \<Rightarrow> fe \<Rightarrow> bool" where
  "carry_inv xs k ys \<longleftrightarrow> length ys = 16 \<and> fval ys = fval xs
     \<and> (\<forall>i < k. 0 \<le> ys ! i \<and> ys ! i < 65536) \<and> (\<forall>i. k < i \<longrightarrow> i < 16 \<longrightarrow> ys ! i = xs ! i)
     \<and> \<bar>ys ! k\<bar> \<le> 2 ^ 50 + 2 ^ 36"

lemma carry_inv_step:
  assumes "bounded (2 ^ 50) xs" and "k < 15" and "carry_inv xs k ys"
  shows "carry_inv xs (Suc k) (carry_step k ys)"
proof -
  have k: "\<bar>ys ! k\<bar> \<le> 2 ^ 50 + 2 ^ 36" and len: "length ys = 16"
    using assms(3) by (auto simp: carry_inv_def)
  have s: "ys ! Suc k = xs ! Suc k" "\<bar>xs ! Suc k\<bar> \<le> 2 ^ 50"
    using assms by (auto simp: carry_inv_def bounded_def)
  have eq: "carry_step k ys = ys[Suc k := ys ! Suc k + ys ! k div 65536, k := ys ! k mod 65536]"
    using assms(2) len k s by (intro carry_step_low) auto
  have "\<bar>ys ! Suc k + ys ! k div 65536\<bar> \<le> 2 ^ 50 + 2 ^ 36" using k s by auto
  moreover have "fval (carry_step k ys) = fval ys"
    using carry_step_low_fval [OF assms(2) len] by (simp only: eq)
  ultimately show ?thesis
    using assms(2,3) len
    by (auto simp: eq carry_inv_def nth_list_update less_Suc_eq)
qed

lemma carry_inv_15:
  assumes "bounded (2 ^ 50) xs"
  shows "carry_inv xs 15 (fold carry_step [0..<15] xs)"
proof (rule for_loop_inv)
  have "\<bar>xs ! 0\<bar> \<le> 2 ^ 50" using assms by (simp add: bounded_def)
  then have "\<bar>xs ! 0\<bar> \<le> 2 ^ 50 + 2 ^ 36" by simp
  moreover have "length xs = 16" using assms by (simp add: bounded_def)
  ultimately show "carry_inv xs 0 xs" by (simp add: carry_inv_def)
qed (rule carry_inv_step [OF assms])

lemma fval_split_15:
  "length ys = 16 \<Longrightarrow> fval ys = fval (take 15 ys) + 65536 ^ 15 * ys ! 15"
proof -
  assume l: "length ys = 16"
  then have "ys = take 15 ys @ [ys ! 15]"
    using take_Suc_conv_app_nth [of 15 ys] by simp
  then show ?thesis using l fval_append [of "take 15 ys" "[ys ! 15]"] by simp
qed


lemma carry_spec:
  assumes "bounded (2 ^ 50) xs"
  shows "carried (fval xs div 2 ^ 256) (wg_carry xs)"
    and "fval (wg_carry xs) = fval xs mod 2 ^ 256 + 38 * (fval xs div 2 ^ 256)"
    and "\<bar>fval xs div 2 ^ 256\<bar> \<le> 2 ^ 35"
proof -
  define ys where "ys = fold carry_step [0..<15] xs"
  have inv: "carry_inv xs 15 ys" unfolding ys_def by (rule carry_inv_15 [OF assms])
  then have len: "length ys = 16" and fv: "fval ys = fval xs"
    and lo: "\<And>i. i < 15 \<Longrightarrow> 0 \<le> ys ! i \<and> ys ! i < 65536" and hi: "\<bar>ys ! 15\<bar> \<le> 2 ^ 50 + 2 ^ 36"
    by (auto simp: carry_inv_def)
  define c where "c = ys ! 15 div 65536"
  define L where "L = fval (take 15 ys)"
  have L: "0 \<le> L \<and> L < 65536 ^ 15"
    using fval_bounds [of "take 15 ys"] len lo unfolding L_def
    by (fastforce simp: in_set_conv_nth)
  have v: "fval xs = L + 65536 ^ 15 * ys ! 15"
    using fval_split_15 [OF len] fv L_def by simp
  have y15: "ys ! 15 = 65536 * c + ys ! 15 mod 65536" by (simp add: c_def)
  define r where "r = ys ! 15 mod 65536"
  have r: "0 \<le> r" "r < 65536" by (simp_all add: r_def)
  have v': "fval xs = (L + 65536 ^ 15 * r) + 2 ^ 256 * c"
    using v y15 by (simp add: r_def algebra_simps)
  have rng: "0 \<le> L + 65536 ^ 15 * r" "L + 65536 ^ 15 * r < 2 ^ 256" using L r by auto
  have cdiv: "fval xs div 2 ^ 256 = c" and cmod: "fval xs mod 2 ^ 256 = L + 65536 ^ 15 * r"
    using rng by (simp_all add: v')
  have cb: "\<bar>c\<bar> \<le> 2 ^ 35" using hi by (simp add: c_def)
  have c38: "f64 (38 * c) = 38 * c" using cb by (intro f64_exact) simp
  have "\<bar>ys ! 0 + 38 * c\<bar> \<le> 65536 + 38 * 2 ^ 35" using cb lo [of 0] by linarith
  then have y0: "f64 (ys ! 0 + 38 * c) = ys ! 0 + 38 * c" by (intro f64_exact) simp
  have "wg_carry xs = carry_step 15 ys"
    using upt_Suc_append [of 0 15] by (simp add: wg_carry_def ys_def)
  then have car: "wg_carry xs = ys[0 := ys ! 0 + 38 * c, 15 := r]"
    using len y0 by (simp add: carry_step_def c_def [symmetric] c38 js_and_ffff r_def)
  show "fval (wg_carry xs) = fval xs mod 2 ^ 256 + 38 * (fval xs div 2 ^ 256)"
    unfolding cdiv cmod car using len v v' fv by (simp add: fval_update algebra_simps)
  show "carried (fval xs div 2 ^ 256) (wg_carry xs)"
    unfolding cdiv car carried_def using len lo [of 0] lo r by (auto simp: nth_list_update)
  show "\<bar>fval xs div 2 ^ 256\<bar> \<le> 2 ^ 35" unfolding cdiv by (rule cb)
qed


definition tight :: "fe \<Rightarrow> bool" where
  "tight xs \<longleftrightarrow> carried (-1) xs \<or> carried 0 xs \<or> carried 1 xs"

definition fmod :: "fe \<Rightarrow> int" where
  "fmod xs = fval xs mod prime25519"

lemma carried_bounded:
  assumes "carried c xs" and "\<bar>c\<bar> \<le> k" and "65536 + 38 * k \<le> B"
  shows "bounded B xs"
  unfolding bounded_def
proof (intro conjI allI impI)
  show "length xs = 16" using assms(1) by (simp add: carried_def)
next
  fix i :: nat assume i: "i < 16"
  show "\<bar>xs ! i\<bar> \<le> B"
  proof (cases "i = 0")
    case True
    with assms show ?thesis by (auto simp: carried_def)
  next
    case False
    with i assms(1) have "0 \<le> xs ! i \<and> xs ! i < 65536" by (auto simp: carried_def)
    with assms(2,3) show ?thesis by auto
  qed
qed

lemma tight_bounded: "tight xs \<Longrightarrow> bounded (2 ^ 17) xs"
  unfolding tight_def by (elim disjE) (auto elim: carried_bounded [where k = 1])

lemma bounded_mono: "bounded A xs \<Longrightarrow> A \<le> B \<Longrightarrow> bounded B xs"
  by (force simp: bounded_def)

lemma carry_fmod: "bounded (2 ^ 50) xs \<Longrightarrow> fmod (wg_carry xs) = fmod xs"
proof -
  assume b: "bounded (2 ^ 50) xs"
  define c where "c = fval xs div 2 ^ 256"
  have "fval xs = fval xs mod 2 ^ 256 + 2 ^ 256 * c" by (simp add: c_def)
  moreover have "fval (wg_carry xs) = fval xs mod 2 ^ 256 + 38 * c"
    unfolding c_def by (rule carry_spec(2) [OF b])
  ultimately have "fval (wg_carry xs) = fval xs + (- 2 * c) * prime25519"
    by (simp add: prime25519_def)
  then show ?thesis unfolding fmod_def by (simp only: mod_mult_self1)
qed

lemma carry_twice:
  assumes b: "bounded (2 ^ 50) xs"
  shows "tight (wg_carry (wg_carry xs))" and "fmod (wg_carry (wg_carry xs)) = fmod xs"
    and "bounded (2 ^ 50) (wg_carry xs)"
proof -
  note c = carry_spec [OF b]
  show b1: "bounded (2 ^ 50) (wg_carry xs)"
    by (rule carried_bounded [OF c(1) c(3)]) simp
  note d = carry_spec [OF b1]
  let ?v = "fval (wg_carry xs)" and ?c = "fval (wg_carry xs) div 2 ^ 256"
  define m k where "m = fval xs mod 2 ^ 256" and "k = fval xs div 2 ^ 256"
  have "0 \<le> m" "m < 2 ^ 256" by (simp_all add: m_def)
  moreover have "?v = m + 38 * k" "\<bar>k\<bar> \<le> 2 ^ 35" using c(2,3) by (simp_all add: m_def k_def)
  ultimately have "- (2 ^ 256) \<le> ?v" "?v < 2 * 2 ^ 256" by (simp_all add: abs_le_iff)
  then have "?c = -1 \<or> ?c = 0 \<or> ?c = 1" by auto
  then show "tight (wg_carry (wg_carry xs))" using d(1) unfolding tight_def by auto
  show "fmod (wg_carry (wg_carry xs)) = fmod xs" using carry_fmod [OF b1] carry_fmod [OF b] by simp
qed

section \<open>Multiplication\<close>

lemma fval_take_Suc:
  "n < length b \<Longrightarrow> fval (take (Suc n) b) = fval (take n b) + 65536 ^ n * b ! n"
  by (simp add: take_Suc_conv_app_nth fval_append)

definition acc_bounded :: "int \<Rightarrow> int list \<Rightarrow> bool" where
  "acc_bounded B t \<longleftrightarrow> length t = 31 \<and> (\<forall>k < 31. \<bar>t ! k\<bar> \<le> B)"

lemma prod_bound: "\<bar>x\<bar> \<le> 2 ^ 18 \<Longrightarrow> \<bar>y\<bar> \<le> 2 ^ 18 \<Longrightarrow> \<bar>x * y\<bar> \<le> (2 ^ 36 :: int)"
  using mult_mono [of "\<bar>x\<bar>" "2 ^ 18" "\<bar>y\<bar>" "2 ^ 18"] by (simp add: abs_mult)

lemma mult_inner_step:
  assumes "bounded (2 ^ 18) a" "bounded (2 ^ 18) b" "i < 16" "j < 16"
    and "acc_bounded M t" and "M + 2 ^ 36 \<le> 2 ^ 52"
  shows "mult_inner a b i j t = t[i + j := t ! (i + j) + a ! i * b ! j]"
    and "acc_bounded (M + 2 ^ 36) (mult_inner a b i j t)"
proof -
  have p: "\<bar>a ! i * b ! j\<bar> \<le> 2 ^ 36" using assms by (intro prod_bound) (auto simp: bounded_def)
  have t: "\<bar>t ! (i + j)\<bar> \<le> M" using assms by (auto simp: acc_bounded_def)
  have "\<bar>t ! (i + j) + a ! i * b ! j\<bar> \<le> M + 2 ^ 36" using p t by linarith
  then have s: "f64 (t ! (i + j) + a ! i * b ! j) = t ! (i + j) + a ! i * b ! j"
    using assms(6) by (intro f64_exact) simp
  have "f64 (a ! i * b ! j) = a ! i * b ! j" using p by (intro f64_exact) simp
  with s show eq: "mult_inner a b i j t = t[i + j := t ! (i + j) + a ! i * b ! j]"
    by (simp add: mult_inner_def)
  have "\<And>k. k < 31 \<Longrightarrow> \<bar>t ! k\<bar> \<le> M + 2 ^ 36" using assms(5) by (fastforce simp: acc_bounded_def)
  then show "acc_bounded (M + 2 ^ 36) (mult_inner a b i j t)"
    unfolding eq using assms(3-5) \<open>\<bar>t ! (i + j) + a ! i * b ! j\<bar> \<le> M + 2 ^ 36\<close>
    by (auto simp: acc_bounded_def nth_list_update)
qed

lemma mult_inner_loop:
  assumes "bounded (2 ^ 18) a" "bounded (2 ^ 18) b" "i < 16" "acc_bounded M t"
    and "M + 2 ^ 40 \<le> 2 ^ 52"
  shows "acc_bounded (M + 2 ^ 40) (fold (mult_inner a b i) [0..<16] t)
    \<and> fval (fold (mult_inner a b i) [0..<16] t) = fval t + a ! i * 65536 ^ i * fval b"
proof -
  define P where "P = (\<lambda>n t'. acc_bounded (M + int n * 2 ^ 36) t'
      \<and> fval t' = fval t + a ! i * 65536 ^ i * fval (take n b))"
  have lb: "length b = 16" using assms(2) by (simp add: bounded_def)
  have "P 16 (fold (mult_inner a b i) [0..<16] t)"
  proof (rule for_loop_inv)
    show "P 0 t" using assms(4) by (simp add: P_def)
  next
    fix n t' assume n: "n < (16::nat)" and P: "P n t'"
    have "M + int n * 2 ^ 36 + 2 ^ 36 \<le> 2 ^ 52" using n assms(5) by simp
    note st = mult_inner_step [OF assms(1,2,3) n _ this]
    have ab: "acc_bounded (M + int n * 2 ^ 36) t'" using P by (simp add: P_def)
    have "fval (mult_inner a b i n t') = fval t' + a ! i * b ! n * 65536 ^ (i + n)"
      using ab assms(3) n by (subst st(1) [OF ab]) (simp add: fval_update acc_bounded_def)
    then show "P (Suc n) (mult_inner a b i n t')"
      using st(2) [OF ab] P n lb
      by (simp add: P_def fval_take_Suc algebra_simps power_add)
  qed
  then show ?thesis using lb by (simp add: P_def)
qed

lemma mult_outer_loop:
  assumes "bounded (2 ^ 18) a" "bounded (2 ^ 18) b"
  shows "acc_bounded (2 ^ 44) (fold (\<lambda>i. fold (mult_inner a b i) [0..<16]) [0..<16] (replicate 31 0))
    \<and> fval (fold (\<lambda>i. fold (mult_inner a b i) [0..<16]) [0..<16] (replicate 31 0)) = fval a * fval b"
proof -
  define P where "P = (\<lambda>n t. acc_bounded (int n * 2 ^ 40) t \<and> fval t = fval (take n a) * fval b)"
  have la: "length a = 16" using assms(1) by (simp add: bounded_def)
  have "P 16 (fold (\<lambda>i. fold (mult_inner a b i) [0..<16]) [0..<16] (replicate 31 0))"
  proof (rule for_loop_inv)
    show "P 0 (replicate 31 0)" by (simp add: P_def acc_bounded_def)
  next
    fix i t assume i: "i < (16::nat)" and P: "P i t"
    have "acc_bounded (int i * 2 ^ 40) t" using P by (simp add: P_def)
    from mult_inner_loop [OF assms i this] i
    have "acc_bounded (int i * 2 ^ 40 + 2 ^ 40) (fold (mult_inner a b i) [0..<16] t)
      \<and> fval (fold (mult_inner a b i) [0..<16] t) = fval t + a ! i * 65536 ^ i * fval b"
      by simp
    then show "P (Suc i) (fold (mult_inner a b i) [0..<16] t)"
      using P i la by (simp add: P_def fval_take_Suc algebra_simps)
  qed
  then show ?thesis using la by (simp add: P_def)
qed


lemma fval_map_mult: "fval (map ((*) k) xs) = k * fval xs"
  by (induction xs) (auto simp: algebra_simps)

lemma mult_fold_loop:
  assumes "acc_bounded (2 ^ 44) t"
  shows "take 16 (fold mult_fold [0..<15] t) = map2 (+) (take 16 t) (map ((*) 38) (drop 16 t) @ [0])"
proof -
  have lt: "length t = 31" and bt: "\<And>k. k < 31 \<Longrightarrow> \<bar>t ! k\<bar> \<le> 2 ^ 44"
    using assms by (auto simp: acc_bounded_def)
  define P where "P = (\<lambda>n t'. length t' = 31 \<and> (\<forall>i < n. t' ! i = t ! i + 38 * t ! (i + 16))
      \<and> (\<forall>i. n \<le> i \<longrightarrow> i < 31 \<longrightarrow> t' ! i = t ! i))"
  have P: "P 15 (fold mult_fold [0..<15] t)"
  proof (rule for_loop_inv)
    show "P 0 t" using lt by (simp add: P_def)
  next
    fix n t' assume n: "n < (15::nat)" and P: "P n t'"
    have i: "t' ! n = t ! n" "t' ! (n + 16) = t ! (n + 16)" using P n by (auto simp: P_def)
    have b: "\<bar>t ! (n + 16)\<bar> \<le> 2 ^ 44" "\<bar>t ! n\<bar> \<le> 2 ^ 44" using bt n by auto
    have "f64 (38 * t ! (n + 16)) = 38 * t ! (n + 16)" using b by (intro f64_exact) simp
    moreover have "f64 (t ! n + 38 * t ! (n + 16)) = t ! n + 38 * t ! (n + 16)"
    proof (rule f64_exact)
      have "\<bar>t ! n + 38 * t ! (n + 16)\<bar> \<le> 39 * 2 ^ 44" using b by linarith
      then show "\<bar>t ! n + 38 * t ! (n + 16)\<bar> \<le> 2 ^ 53" by simp
    qed
    ultimately have "mult_fold n t' = t'[n := t ! n + 38 * t ! (n + 16)]"
      by (simp add: mult_fold_def i)
    then show "P (Suc n) (mult_fold n t')"
      using P n by (auto simp: P_def nth_list_update less_Suc_eq)
  qed
  show ?thesis
  proof (rule nth_equalityI)
    show "length (take 16 (fold mult_fold [0..<15] t))
      = length (map2 (+) (take 16 t) (map ((*) 38) (drop 16 t) @ [0]))"
      using P lt by (simp add: P_def)
  next
    fix i assume "i < length (take 16 (fold mult_fold [0..<15] t))"
    then have i: "i < 16" by simp
    show "take 16 (fold mult_fold [0..<15] t) ! i
      = map2 (+) (take 16 t) (map ((*) 38) (drop 16 t) @ [0]) ! i"
      using P lt i by (cases "i = 15") (auto simp: P_def nth_append add.commute)
  qed
qed

lemma fmod_fold:
  assumes "acc_bounded (2 ^ 44) t"
  shows "bounded (2 ^ 50) (take 16 (fold mult_fold [0..<15] t))"
    and "fmod (take 16 (fold mult_fold [0..<15] t)) = fval t mod prime25519"
proof -
  have lt: "length t = 31" and bt: "\<And>k. k < 31 \<Longrightarrow> \<bar>t ! k\<bar> \<le> 2 ^ 44"
    using assms by (auto simp: acc_bounded_def)
  note eq = mult_fold_loop [OF assms]
  show "bounded (2 ^ 50) (take 16 (fold mult_fold [0..<15] t))"
    unfolding eq bounded_def
  proof (intro conjI allI impI)
    show "length (map2 (+) (take 16 t) (map ((*) 38) (drop 16 t) @ [0])) = 16"
      using lt by simp
  next
    fix i :: nat assume i: "i < 16"
    define y where "y = (if i < 15 then 38 * t ! (i + 16) else 0)"
    have "\<bar>y\<bar> \<le> 38 * 2 ^ 44" using bt [of "i + 16"] i by (auto simp: y_def)
    then have "\<bar>t ! i + y\<bar> \<le> 39 * 2 ^ 44" using bt [of i] i by linarith
    moreover have "map2 (+) (take 16 t) (map ((*) 38) (drop 16 t) @ [0]) ! i = t ! i + y"
      using lt i by (cases "i = 15") (auto simp: y_def nth_append add.commute)
    ultimately show "\<bar>map2 (+) (take 16 t) (map ((*) 38) (drop 16 t) @ [0]) ! i\<bar> \<le> 2 ^ 50" by simp
  qed
  have "fval t = fval (take 16 t) + 2 ^ 256 * fval (drop 16 t)"
    using fval_append [of "take 16 t" "drop 16 t"] lt by simp
  then have "fval t = (fval (take 16 t) + 38 * fval (drop 16 t)) + (2 * fval (drop 16 t)) * prime25519"
    by (simp add: prime25519_def)
  moreover have "fval (take 16 (fold mult_fold [0..<15] t)) = fval (take 16 t) + 38 * fval (drop 16 t)"
    unfolding eq using lt by (subst fval_map2_add) (simp_all add: fval_append fval_map_mult)
  ultimately show "fmod (take 16 (fold mult_fold [0..<15] t)) = fval t mod prime25519"
    unfolding fmod_def by (simp only: mod_mult_self1)
qed

lemma multmod_correct:
  assumes "bounded (2 ^ 18) a" "bounded (2 ^ 18) b"
  shows "tight (multmod a b)" and "fmod (multmod a b) = (fmod a * fmod b) mod prime25519"
proof -
  define t where "t = fold (\<lambda>i. fold (mult_inner a b i) [0..<16]) [0..<16] (replicate 31 0)"
  have t: "acc_bounded (2 ^ 44) t" "fval t = fval a * fval b"
    using mult_outer_loop [OF assms] unfolding t_def by auto
  have m: "multmod a b = wg_carry (wg_carry (take 16 (fold mult_fold [0..<15] t)))"
    by (simp add: multmod_def t_def Let_def)
  note f = fmod_fold [OF t(1)]
  show "tight (multmod a b)" unfolding m by (rule carry_twice(1) [OF f(1)])
  show "fmod (multmod a b) = (fmod a * fmod b) mod prime25519"
    unfolding m carry_twice(2) [OF f(1)] f(2) t(2) by (simp add: fmod_def mod_mult_eq)
qed

section \<open>Addition, subtraction, swapping\<close>

lemma wg_add_correct:
  assumes "bounded (2 ^ 17) a" "bounded (2 ^ 17) b"
  shows "bounded (2 ^ 18) (wg_add a b)" and "fmod (wg_add a b) = (fmod a + fmod b) mod prime25519"
proof -
  have l: "length a = 16" "length b = 16" using assms by (auto simp: bounded_def)
  have b: "\<bar>a ! i + b ! i\<bar> \<le> 2 ^ 18" if "i < 16" for i
  proof -
    have "\<bar>a ! i\<bar> \<le> 2 ^ 17" "\<bar>b ! i\<bar> \<le> 2 ^ 17" using assms that by (auto simp: bounded_def)
    then show ?thesis by simp
  qed
  have e: "to_int32 (f64 (a ! i + b ! i)) = a ! i + b ! i" if "i < 16" for i
    using b [OF that] by (simp add: f64_exact to_int32_id abs_le_iff)
  have m: "wg_add a b = map2 (+) a b"
    using l e by (intro nth_equalityI) (auto simp: wg_add_def)
  show "bounded (2 ^ 18) (wg_add a b)" unfolding m using b l by (auto simp: bounded_def)
  show "fmod (wg_add a b) = (fmod a + fmod b) mod prime25519"
    unfolding m fmod_def using l by (simp add: fval_map2_add mod_add_eq)
qed

lemma wg_subtract_correct:
  assumes "bounded (2 ^ 17) a" "bounded (2 ^ 17) b"
  shows "bounded (2 ^ 18) (wg_subtract a b)"
    and "fmod (wg_subtract a b) = (fmod a - fmod b) mod prime25519"
proof -
  have l: "length a = 16" "length b = 16" using assms by (auto simp: bounded_def)
  have b: "\<bar>a ! i - b ! i\<bar> \<le> 2 ^ 18" if "i < 16" for i
  proof -
    have "\<bar>a ! i\<bar> \<le> 2 ^ 17" "\<bar>b ! i\<bar> \<le> 2 ^ 17" using assms that by (auto simp: bounded_def)
    then show ?thesis by simp
  qed
  have e: "to_int32 (f64 (a ! i - b ! i)) = a ! i - b ! i" if "i < 16" for i
    using b [OF that] by (simp add: f64_exact to_int32_id abs_le_iff)
  have m: "wg_subtract a b = map2 (-) a b"
    using l e by (intro nth_equalityI) (auto simp: wg_subtract_def)
  show "bounded (2 ^ 18) (wg_subtract a b)" unfolding m using b l by (auto simp: bounded_def)
  show "fmod (wg_subtract a b) = (fmod a - fmod b) mod prime25519"
    unfolding m fmod_def using l by (simp add: fval_map2_diff mod_diff_eq)
qed

lemma int_xor_cancel: "x XOR (x XOR y) = (y :: int)" "y XOR (x XOR y) = (x :: int)"
  by (simp_all add: ac_simps flip: xor.assoc)

lemma to_int32_idem [simp]: "to_int32 (to_int32 x) = to_int32 x"
  by (simp add: to_int32_def)

lemma to_int32_xor: "to_int32 (to_int32 x XOR to_int32 y) = to_int32 x XOR to_int32 y"
  by (rule bit_eqI) (simp add: to_int32_def bit_simps)

lemma cswap_1: "bounded (2 ^ 30) p \<Longrightarrow> bounded (2 ^ 30) q \<Longrightarrow> cswap p q 1 = (q, p)"
proof -
  assume b: "bounded (2 ^ 30) p" "bounded (2 ^ 30) q"
  have id: "to_int32 (p ! i) = p ! i" "to_int32 (q ! i) = q ! i" if "i < 16" for i
  proof -
    have "\<bar>p ! i\<bar> \<le> 2 ^ 30" "\<bar>q ! i\<bar> \<le> 2 ^ 30" using b that by (auto simp: bounded_def)
    then show "to_int32 (p ! i) = p ! i" "to_int32 (q ! i) = q ! i"
      by (simp_all add: to_int32_id abs_le_iff)
  qed
  have l: "length p = 16" "length q = 16" using b by (auto simp: bounded_def)
  have m1: "to_int32 0 = 0" "to_int32 (- 1) = - 1" by (simp_all add: to_int32_def)
  show ?thesis
    using l id
    by (auto simp: cswap_def js_not_def js_and_def js_xor_def to_int32_xor m1 int_xor_cancel Let_def
        intro!: nth_equalityI)
qed

lemma cswap_0: "bounded (2 ^ 30) p \<Longrightarrow> bounded (2 ^ 30) q \<Longrightarrow> cswap p q 0 = (p, q)"
proof -
  assume b: "bounded (2 ^ 30) p" "bounded (2 ^ 30) q"
  have id: "to_int32 (p ! i) = p ! i" "to_int32 (q ! i) = q ! i" if "i < 16" for i
  proof -
    have "\<bar>p ! i\<bar> \<le> 2 ^ 30" "\<bar>q ! i\<bar> \<le> 2 ^ 30" using b that by (auto simp: bounded_def)
    then show "to_int32 (p ! i) = p ! i" "to_int32 (q ! i) = q ! i"
      by (simp_all add: to_int32_id abs_le_iff)
  qed
  have l: "length p = 16" "length q = 16" using b by (auto simp: bounded_def)
  have m1: "to_int32 0 = 0" "to_int32 (- 1) = - 1" by (simp_all add: to_int32_def)
  show ?thesis
    using l id
    by (auto simp: cswap_def js_not_def js_and_def js_xor_def m1 Let_def intro!: nth_equalityI)
qed


section \<open>Packing\<close>

fun le_val :: "int list \<Rightarrow> int" where
  "le_val [] = 0"
| "le_val (b # bs) = b + 256 * le_val bs"

fun le_bytes :: "nat \<Rightarrow> int \<Rightarrow> int list" where
  "le_bytes 0 x = []"
| "le_bytes (Suc n) x = x mod 256 # le_bytes n (x div 256)"

definition canonical :: "fe \<Rightarrow> bool" where
  "canonical t \<longleftrightarrow> length t = 16 \<and> (\<forall>i < 16. 0 \<le> t ! i \<and> t ! i < 65536)"

lemma canonical_set: "canonical t \<Longrightarrow> \<forall>x \<in> set t. 0 \<le> x \<and> x < 65536"
  by (auto simp: canonical_def in_set_conv_nth)

lemma canonical_bounded: "canonical t \<Longrightarrow> bounded (2 ^ 30) t"
  by (fastforce simp: canonical_def bounded_def)

lemma carried_0_canonical: "carried 0 xs \<Longrightarrow> canonical xs"
proof -
  assume c: "carried 0 xs"
  have "0 \<le> xs ! i \<and> xs ! i < 65536" if "i < 16" for i
    using c that by (cases "i = 0") (auto simp: carried_def)
  with c show ?thesis by (simp add: canonical_def carried_def)
qed

lemma carry_thrice:
  assumes b: "bounded (2 ^ 50) n"
  shows "canonical (wg_carry (wg_carry (wg_carry n)))"
    and "fmod (wg_carry (wg_carry (wg_carry n))) = fmod n"
proof -
  let ?x = "wg_carry n"
  note b1 = carry_twice(3) [OF b]
  have b2: "bounded (2 ^ 50) (wg_carry ?x)"
    by (rule bounded_mono [OF tight_bounded [OF carry_twice(1) [OF b]]]) simp
  define m k where "m = fval n mod 2 ^ 256" and "k = fval n div 2 ^ 256"
  define m' k' where "m' = fval ?x mod 2 ^ 256" and "k' = fval ?x div 2 ^ 256"
  have "0 \<le> m" "m < 2 ^ 256" "0 \<le> m'" "m' < 2 ^ 256" by (simp_all add: m_def m'_def)
  moreover have "fval ?x = m + 38 * k" "\<bar>k\<bar> \<le> 2 ^ 35"
    using carry_spec(2,3) [OF b] by (simp_all add: m_def k_def)
  moreover have "fval ?x = m' + 2 ^ 256 * k'" by (simp add: m'_def k'_def)
  moreover have "fval (wg_carry ?x) = m' + 38 * k'"
    using carry_spec(2) [OF b1] by (simp add: m'_def k'_def)
  moreover have "k' = - 1 \<or> k' = 0 \<or> k' = 1"
    using calculation by (auto simp: abs_le_iff)
  ultimately have v: "0 \<le> fval (wg_carry ?x)" "fval (wg_carry ?x) < 2 ^ 256"
    by (auto simp: abs_le_iff)
  then have z: "fval (wg_carry ?x) div 2 ^ 256 = 0" by simp
  show "canonical (wg_carry (wg_carry ?x))"
    using carry_spec(1) [OF b2] unfolding z by (rule carried_0_canonical)
  show "fmod (wg_carry (wg_carry ?x)) = fmod n"
    using carry_fmod [OF b2] carry_twice(2) [OF b] by simp
qed

definition p_limbs :: fe where
  "p_limbs = 65517 # replicate 14 65535 @ [32767]"

lemma fval_p_limbs: "fval p_limbs = prime25519"
  by (simp add: p_limbs_def prime25519_def numeral_eq_Suc)

definition borrow_inv :: "fe \<Rightarrow> nat \<Rightarrow> fe \<Rightarrow> bool" where
  "borrow_inv t k m \<longleftrightarrow> length m = 16 \<and> (\<forall>i < k. 0 \<le> m ! i \<and> m ! i < 65536)
     \<and> - 65536 \<le> m ! k \<and> m ! k < 65536
     \<and> fval (take (Suc k) m) = fval (take (Suc k) t) - fval (take (Suc k) p_limbs)"

lemma borrow_bit:
  assumes "- 65536 \<le> v" "v < 65536"
  shows "js_and (js_sar v 16) 1 = - (v div 65536)" and "v div 65536 = - 1 \<or> v div 65536 = 0"
proof -
  show d: "v div 65536 = - 1 \<or> v div 65536 = 0" using assms by auto
  have "js_sar v 16 = v div 65536" using assms by (simp add: js_sar_id)
  with d show "js_and (js_sar v 16) 1 = - (v div 65536)" by (auto simp: js_and_1)
qed

lemma fval_take_Suc_update:
  "Suc k < length m \<Longrightarrow> fval (take (Suc (Suc k)) (m[Suc k := x, k := y]))
     = fval (take (Suc k) m) + (y - m ! k) * 65536 ^ k + x * 65536 ^ Suc k"
  by (simp add: fval_take_Suc take_update_cancel algebra_simps)

lemma p_limbs_nth: "0 < k \<Longrightarrow> k < 15 \<Longrightarrow> p_limbs ! k = 65535"
  by (simp add: p_limbs_def nth_append nth_Cons')

lemma borrow_step:
  assumes "canonical t" and "k < 14" and "borrow_inv t k m"
  shows "borrow_inv t (Suc k) (pack_borrow t (Suc k) m)"
proof -
  define q where "q = m ! k div 65536"
  have m: "length m = 16" "- 65536 \<le> m ! k" "m ! k < 65536" using assms(3) by (auto simp: borrow_inv_def)
  note bb = borrow_bit [OF m(2,3), folded q_def]
  have t: "0 \<le> t ! Suc k" "t ! Suc k < 65536" using assms(1,2) by (auto simp: canonical_def)
  have f: "f64 (f64 (t ! Suc k - 65535) + q) = t ! Suc k - 65535 + q"
    using t bb(2) by (subst f64_exact, simp)+ auto
  have eq: "pack_borrow t (Suc k) m = m[Suc k := t ! Suc k - 65535 + q, k := m ! k mod 65536]"
    using m by (simp add: pack_borrow_def bb(1) f js_and_ffff)
  have "m ! k mod 65536 - m ! k = - 65536 * q"
    by (simp add: q_def minus_mult_div_eq_mod [symmetric])
  then have mk: "(m ! k mod 65536 - m ! k) * 65536 ^ k = - (q * 65536 ^ Suc k)" by simp
  have len: "length t = 16" "length p_limbs = 16"
    using assms(1) by (simp_all add: canonical_def p_limbs_def)
  have "fval (take (Suc (Suc k)) (pack_borrow t (Suc k) m))
      = fval (take (Suc k) m) + (t ! Suc k - 65535) * 65536 ^ Suc k"
    unfolding eq using m(1) assms(2)
    by (subst fval_take_Suc_update) (simp, simp only: mk, simp add: algebra_simps)
  also have "\<dots> = fval (take (Suc (Suc k)) t) - fval (take (Suc (Suc k)) p_limbs)"
    using assms(2,3) len by (simp add: borrow_inv_def fval_take_Suc [of "Suc k"] p_limbs_nth algebra_simps)
  finally show ?thesis
    using assms(2,3) m t bb(2) unfolding borrow_inv_def
    by (auto simp: eq nth_list_update less_Suc_eq)
qed


lemma fold_borrow: "fold (pack_borrow t) [1..<15] m = fold (\<lambda>i. pack_borrow t (Suc i)) [0..<14] m"
proof -
  have "[1..<15] = map Suc [0..<14]" by (simp add: map_Suc_upt)
  then show ?thesis by (simp add: fold_map comp_def)
qed

lemma pack_round_correct:
  assumes "canonical t"
  shows "canonical (pack_round t)
    \<and> fval (pack_round t) = (if prime25519 \<le> fval t then fval t - prime25519 else fval t)"
proof -
  have len: "length t = 16" "length p_limbs = 16"
    using assms by (simp_all add: canonical_def p_limbs_def)
  have t: "0 \<le> t ! 0" "t ! 0 < 65536" "0 \<le> t ! 15" "t ! 15 < 65536"
    using assms by (auto simp: canonical_def)
  define m0 where "m0 = (gf [])[0 := f64 (t ! 0 - 65517)]"
  define m1 where "m1 = fold (pack_borrow t) [1..<15] m0"
  have m0: "m0 = (t ! 0 - 65517) # replicate 15 0"
    using t by (simp add: m0_def gf_def f64_exact numeral_eq_Suc)
  have "borrow_inv t 14 (fold (\<lambda>i. pack_borrow t (Suc i)) [0..<14] m0)"
  proof (rule for_loop_inv)
    show "borrow_inv t 0 m0"
      using t len by (simp add: borrow_inv_def m0 p_limbs_def take_Suc_conv_app_nth)
  qed (rule borrow_step [OF assms])
  then have inv: "borrow_inv t 14 m1" unfolding m1_def fold_borrow .
  then have m1: "length m1 = 16" "- 65536 \<le> m1 ! 14" "m1 ! 14 < 65536"
    "\<And>i. i < 14 \<Longrightarrow> 0 \<le> m1 ! i \<and> m1 ! i < 65536"
    "fval (take 15 m1) = fval (take 15 t) - fval (take 15 p_limbs)"
    by (auto simp: borrow_inv_def)
  define q where "q = m1 ! 14 div 65536"
  note bb = borrow_bit [OF m1(2,3), folded q_def]
  define v where "v = t ! 15 - 32767 + q"
  have f: "f64 (f64 (t ! 15 - 32767) + q) = v"
    unfolding v_def using t bb(2) by (subst f64_exact, simp)+ auto
  define m3 where "m3 = m1[15 := v, 14 := m1 ! 14 mod 65536]"
  have v: "- 65536 \<le> v" "v < 65536" using t bb(2) by (auto simp: v_def)
  have vb: "js_and (js_sar v 16) 1 = (if v < 0 then 1 else 0)"
    using borrow_bit(1) [OF v] v by auto
  define w where "w = f64 (f64 (t ! 15 - 32767) - js_and (js_sar (m1 ! 14) 16) 1)"
  have "pack_round t = fst (cswap t (m1[15 := w, 14 := js_and (m1[15 := w] ! 14) 65535])
      (1 - js_and (js_sar (m1[15 := w] ! 15) 16) 1))"
    unfolding pack_round_def Let_def m0_def m1_def w_def by (rule refl)
  moreover have "w = v" by (simp add: w_def bb(1) f)
  ultimately have round: "pack_round t = fst (cswap t m3 (if v < 0 then 0 else 1))"
    using m1(1) by (simp add: vb m3_def js_and_ffff)
  have m3n: "m3 ! i = (if i = 15 then v else if i = 14 then m1 ! 14 mod 65536 else m1 ! i)" for i
    using m1(1) by (simp add: m3_def nth_list_update)
  have m3r: "0 \<le> m3 ! i \<and> m3 ! i < 65536" if "i < 15" for i
    using m1(4) [of i] that by (simp add: m3n)
  have "\<bar>m3 ! i\<bar> \<le> 2 ^ 30" if "i < 16" for i
  proof (cases "i = 15")
    case True
    then show ?thesis using v by (simp add: m3n abs_le_iff)
  next
    case False
    with that have "0 \<le> m3 ! i" "m3 ! i < 65536" using m3r [of i] by auto
    then show ?thesis by simp
  qed
  moreover have len3: "length m3 = 16" using m1(1) by (simp add: m3_def)
  ultimately have bnd: "bounded (2 ^ 30) m3" by (simp add: bounded_def)
  have "take 15 m3 = take 14 m1 @ [m1 ! 14 mod 65536]"
    using m1(1) len3 by (intro nth_equalityI) (auto simp: m3n nth_append less_Suc_eq)
  then have "fval (take 15 m3) = fval (take 14 m1) + 65536 ^ 14 * (m1 ! 14 mod 65536)"
    using m1(1) by (simp add: fval_append)
  moreover have "fval (take 15 m1) = fval (take 14 m1) + 65536 ^ 14 * m1 ! 14"
    using fval_take_Suc [of 14 m1] m1(1) by simp
  moreover have "m1 ! 14 = 65536 * q + m1 ! 14 mod 65536" by (simp add: q_def)
  ultimately have lo: "fval (take 15 m3) = fval (take 15 m1) - 65536 ^ 15 * q"
    by (simp add: algebra_simps)
  have split: "\<And>ys. length ys = 16 \<Longrightarrow> fval ys = fval (take 15 ys) + 65536 ^ 15 * ys ! 15"
    by (rule fval_split_15)
  have "fval p_limbs = fval (take 15 p_limbs) + 65536 ^ 15 * 32767"
    using split [OF len(2)] by (simp add: p_limbs_def nth_append nth_Cons')
  then have fm3: "fval m3 = fval t - prime25519"
    using split [of m3] split [OF len(1)] m1(1,5) lo
    by (simp add: m3_def v_def fval_p_limbs algebra_simps)
  have L: "0 \<le> fval (take 15 m3)" "fval (take 15 m3) < 65536 ^ 15"
    using fval_bounds [of "take 15 m3"] m3r m1(1) by (fastforce simp: in_set_conv_nth m3_def)+
  have "fval m3 = fval (take 15 m3) + 65536 ^ 15 * v"
    using split [of m3] m1(1) by (simp add: m3_def)
  then have sgn: "v < 0 \<longleftrightarrow> fval m3 < 0" using L by auto
  show ?thesis
  proof (cases "v < 0")
    case True
    then have "pack_round t = t"
      using round cswap_0 [OF canonical_bounded [OF assms] bnd] by simp
    with True sgn fm3 assms show ?thesis by simp
  next
    case False
    then have eq: "pack_round t = m3"
      using round cswap_1 [OF canonical_bounded [OF assms] bnd] by simp
    have "0 \<le> m3 ! i \<and> m3 ! i < 65536" if "i < 16" for i
      using m3r [of i] False v that by (cases "i = 15") (simp_all add: m3n)
    then have "canonical m3" using len3 by (simp add: canonical_def)
    with False sgn fm3 eq show ?thesis by simp
  qed
qed

lemma le_bytes_limbs:
  "(\<forall>x \<in> set xs. 0 \<le> x \<and> x < 65536)
    \<Longrightarrow> concat (map (\<lambda>x. [x mod 256, x div 256]) xs) = le_bytes (2 * length xs) (fval xs)"
proof (induction xs)
  case Nil
  then show ?case by simp
next
  case (Cons x xs)
  have "(x + 65536 * fval xs) div 256 = x div 256 + 256 * fval xs" by simp
  moreover have "0 \<le> x div 256" "x div 256 < 256" using Cons.prems by auto
  moreover from this have "(x div 256 + 256 * fval xs) mod 256 = x div 256"
    "(x div 256 + 256 * fval xs) div 256 = fval xs" by simp_all
  moreover have "(x + 65536 * fval xs) mod 256 = x mod 256"
    using mod_mult_self1 [of x "256 * fval xs" 256] by simp
  ultimately show ?case using Cons.IH Cons.prems by simp
qed

lemma wg_pack_correct:
  assumes "bounded (2 ^ 50) n"
  shows "wg_pack n = le_bytes 32 (fmod n)"
proof -
  let ?t0 = "wg_carry (wg_carry (wg_carry n))"
  define t where "t = pack_round (pack_round ?t0)"
  note c = carry_thrice [OF assms]
  have r1: "canonical (pack_round ?t0)" using pack_round_correct [OF c(1)] by simp
  have t: "canonical t" using pack_round_correct [OF r1] by (simp add: t_def)
  have "0 \<le> fval ?t0" "fval ?t0 < 3 * prime25519"
    using fval_bounds [OF canonical_set [OF c(1)]] c(1) by (auto simp: canonical_def prime25519_def)
  then have "\<exists>k. fval ?t0 = fval t + k * prime25519 \<and> 0 \<le> fval t \<and> fval t < prime25519"
    using pack_round_correct [OF c(1)] pack_round_correct [OF r1]
    by (intro exI [of _ "if fval ?t0 < prime25519 then 0 else if fval ?t0 < 2 * prime25519 then 1 else 2"])
      (auto simp: t_def split: if_splits)
  then have "fval t = fval ?t0 mod prime25519" by (metis mod_mult_self1 mod_pos_pos_trivial)
  then have ft: "fval t = fmod n" using c(2) by (simp add: fmod_def)
  have tl: "length t = 16" "\<And>i. i < 16 \<Longrightarrow> 0 \<le> t ! i \<and> t ! i < 65536"
    using t by (auto simp: canonical_def)
  have "to_uint8 (js_and (t ! i) 255) = t ! i mod 256" "to_uint8 (js_sar (t ! i) 8) = t ! i div 256"
    if "i < 16" for i
  proof -
    have "0 \<le> t ! i div 256" "t ! i div 256 < 256" using tl(2) [OF that] by auto
    then show "to_uint8 (js_and (t ! i) 255) = t ! i mod 256"
      "to_uint8 (js_sar (t ! i) 8) = t ! i div 256"
      using tl(2) [OF that] by (simp_all add: to_uint8_def js_and_ff js_sar_id take_bit_eq_mod)
  qed
  then have "wg_pack n = concat (map (\<lambda>i. [t ! i mod 256, t ! i div 256]) [0..<16])"
    by (auto simp: wg_pack_def t_def [symmetric] Let_def intro!: arg_cong [where f = concat])
  also have "\<dots> = concat (map (\<lambda>x. [x mod 256, x div 256]) (map ((!) t) [0..<length t]))"
    using tl(1) by (simp add: comp_def)
  also have "\<dots> = le_bytes 32 (fmod n)"
    unfolding map_nth using le_bytes_limbs [OF canonical_set [OF t]] tl(1) ft by simp
  finally show ?thesis .
qed


end
