(* ===== verification/X25519.thy ===== *)
theory X25519
  imports Curve25519
begin

text \<open>
  The ladder of \<open>Wireguard.generatePublicKey\<close> (\<open>frontend/src/utils/index.ts\<close>) against
  RFC 7748. The limb operations are used through the interface \<open>residue_ops\<close> only; its
  interpretation on the operations of the source is what carries the bounds. The
  inversion is the power \<open>p - 2\<close>, the scalar is clamped as the RFC says, and the bytes of
  the key are those of the RFC's function at the base point 9.
\<close>

section \<open>The field interface\<close>

text \<open>
  What the ladder and the inversion need of the limb operations: they compute on residues
  modulo \<open>m\<close>, a product of lax operands is strict, a sum or difference of strict operands
  is lax.
\<close>

locale residue_ops =
  fixes val :: "'e \<Rightarrow> int" and m :: int and strict lax :: "'e \<Rightarrow> bool"
    and add sub mul :: "'e \<Rightarrow> 'e \<Rightarrow> 'e"
  assumes lax_strict: "strict x \<Longrightarrow> lax x"
    and lax_add: "strict x \<Longrightarrow> strict y \<Longrightarrow> lax (add x y)"
    and lax_sub: "strict x \<Longrightarrow> strict y \<Longrightarrow> lax (sub x y)"
    and strict_mul: "lax x \<Longrightarrow> lax y \<Longrightarrow> strict (mul x y)"
    and val_range: "val x mod m = val x"
    and val_add: "strict x \<Longrightarrow> strict y \<Longrightarrow> val (add x y) = (val x + val y) mod m"
    and val_sub: "strict x \<Longrightarrow> strict y \<Longrightarrow> val (sub x y) = (val x - val y) mod m"
    and val_mul: "lax x \<Longrightarrow> lax y \<Longrightarrow> val (mul x y) = (val x * val y) mod m"
begin

text \<open>One step of square-and-multiply, with \<open>e\<close> the exponent reached so far.\<close>

lemma square_step:
  assumes "strict c" and "strict x" and "val c = val x ^ e mod m"
  shows "strict (mul c c)" and "val (mul c c) = val x ^ (2 * e) mod m"
    and "strict (mul (mul c c) x)" and "val (mul (mul c c) x) = val x ^ Suc (2 * e) mod m"
proof -
  show s: "strict (mul c c)" using assms(1) by (simp add: strict_mul lax_strict)
  show v: "val (mul c c) = val x ^ (2 * e) mod m"
    using assms by (simp add: val_mul lax_strict mod_mult_eq mult_2 power_add)
  show "strict (mul (mul c c) x)" using s assms(2) by (simp add: strict_mul lax_strict)
  show "val (mul (mul c c) x) = val x ^ Suc (2 * e) mod m"
    using s v assms(2) by (simp add: val_mul lax_strict mod_mult_left_eq mod_mult_right_eq mult.commute)
qed

text \<open>The doubling and differential addition of one ladder step.\<close>

lemma ladder_arith:
  assumes st: "strict a" "strict b" "strict c" "strict d" "strict k" "strict u"
  defines "e \<equiv> add a c" and "a1 \<equiv> sub a c" and "c1 \<equiv> add b d" and "b1 \<equiv> sub b d"
  defines "d1 \<equiv> mul e e" and "f \<equiv> mul a1 a1" and "a2 \<equiv> mul c1 a1" and "c2 \<equiv> mul b1 e"
  defines "e1 \<equiv> add a2 c2" and "a3 \<equiv> sub a2 c2" and "c3 \<equiv> sub d1 f"
  defines "a4 \<equiv> mul c3 k"
  shows "strict (mul d1 f) \<and> val (mul d1 f) = ((val a + val c)\<^sup>2 * (val a - val c)\<^sup>2) mod m"
    and "strict (mul e1 e1) \<and> val (mul e1 e1) =
      ((val b - val d) * (val a + val c) + (val b + val d) * (val a - val c))\<^sup>2 mod m"
    and "lax (add a4 d1) \<and> strict (mul c3 (add a4 d1)) \<and> val (mul c3 (add a4 d1)) =
      (((val a + val c)\<^sup>2 - (val a - val c)\<^sup>2)
        * ((val a + val c)\<^sup>2 + val k * ((val a + val c)\<^sup>2 - (val a - val c)\<^sup>2))) mod m"
    and "strict (mul (mul a3 a3) u) \<and> val (mul (mul a3 a3) u) =
      (val u * ((val b - val d) * (val a + val c) - (val b + val d) * (val a - val c))\<^sup>2) mod m"
proof -
  let ?A = "val a + val c" and ?B = "val a - val c" and ?C = "val b + val d" and ?D = "val b - val d"
  have 1: "lax e" "lax a1" "lax c1" "lax b1"
    unfolding e_def a1_def c1_def b1_def using st by (simp_all add: lax_add lax_sub)
  have v1: "val e = ?A mod m" "val a1 = ?B mod m" "val c1 = ?C mod m" "val b1 = ?D mod m"
    unfolding e_def a1_def c1_def b1_def using st by (simp_all add: val_add val_sub)
  have 2: "strict d1" "strict f" "strict a2" "strict c2"
    unfolding d1_def f_def a2_def c2_def using 1 by (simp_all add: strict_mul)
  have v2: "val d1 = ?A\<^sup>2 mod m" "val f = ?B\<^sup>2 mod m" "val a2 = (?C * ?B) mod m"
    "val c2 = (?D * ?A) mod m"
    unfolding d1_def f_def a2_def c2_def using 1 v1
    by (simp_all add: val_mul mod_mult_eq power2_eq_square)
  have 3: "lax e1" "lax a3" "lax c3"
    unfolding e1_def a3_def c3_def using 2 by (simp_all add: lax_add lax_sub)
  have v3: "val e1 = (?D * ?A + ?C * ?B) mod m" "val a3 = (?C * ?B - ?D * ?A) mod m"
    "val c3 = (?A\<^sup>2 - ?B\<^sup>2) mod m"
    unfolding e1_def a3_def c3_def using 2 v2
    by (simp_all add: val_add val_sub mod_add_eq mod_diff_eq add.commute)
  have 4: "strict a4" unfolding a4_def using 3 st by (simp add: strict_mul lax_strict)
  have v4: "val a4 = (val k * (?A\<^sup>2 - ?B\<^sup>2)) mod m"
    unfolding a4_def using 3 v3 st by (simp add: val_mul lax_strict mod_mult_left_eq mod_mult_right_eq mult.commute)
  show "strict (mul d1 f) \<and> val (mul d1 f) = (?A\<^sup>2 * ?B\<^sup>2) mod m"
    using 2 v2 by (simp add: strict_mul val_mul lax_strict mod_mult_eq)
  show "strict (mul e1 e1) \<and> val (mul e1 e1) = (?D * ?A + ?C * ?B)\<^sup>2 mod m"
    using 3 v3 by (simp add: strict_mul val_mul mod_mult_eq power2_eq_square)
  have 5: "lax (add a4 d1)" using 4 2 by (simp add: lax_add)
  have v5: "val (add a4 d1) = (?A\<^sup>2 + val k * (?A\<^sup>2 - ?B\<^sup>2)) mod m"
    using 4 2 v4 v2 by (simp add: val_add mod_add_eq add.commute)
  show "lax (add a4 d1) \<and> strict (mul c3 (add a4 d1)) \<and> val (mul c3 (add a4 d1)) =
      ((?A\<^sup>2 - ?B\<^sup>2) * (?A\<^sup>2 + val k * (?A\<^sup>2 - ?B\<^sup>2))) mod m"
    using 5 3 v3 v5 by (simp add: strict_mul val_mul mod_mult_eq)
  have 6: "strict (mul a3 a3)" using 3 by (simp add: strict_mul)
  have "(?C * ?B - ?D * ?A) * (?C * ?B - ?D * ?A) = (?D * ?A - ?C * ?B)\<^sup>2"
    by (simp add: power2_eq_square algebra_simps)
  then have v6: "val (mul a3 a3) = (?D * ?A - ?C * ?B)\<^sup>2 mod m"
    using 3 v3 by (simp add: val_mul mod_mult_eq)
  show "strict (mul (mul a3 a3) u) \<and> val (mul (mul a3 a3) u) =
      (val u * (?D * ?A - ?C * ?B)\<^sup>2) mod m"
    using 6 v6 st by (simp add: strict_mul val_mul lax_strict mod_mult_left_eq mod_mult_right_eq mult.commute)
qed

end

lemma tight_bounded_18: "tight x \<Longrightarrow> bounded (2 ^ 18) x"
  by (rule bounded_mono [OF tight_bounded]) simp_all

lemma fmod_mod [simp]: "fmod x mod prime25519 = fmod x"
  by (simp add: fmod_def)

interpretation fe: residue_ops fmod prime25519 tight "bounded (2 ^ 18)" wg_add wg_subtract multmod
  by unfold_locales
    (simp_all only: tight_bounded_18 wg_add_correct wg_subtract_correct multmod_correct tight_bounded
      fmod_mod)

section \<open>Inversion\<close>

lemma rev_upt_split: "rev [0..<254] = rev [5..<254] @ [4, 3, 2, 1, 0]"
proof -
  have "[0..<254] = [0..<5] @ [5..<254]" using upt_add_eq_append [of 0 5 249] by simp
  moreover have "[0..<5] = [0, 1, 2, 3, 4::nat]" by (simp add: upt_rec)
  ultimately show ?thesis by simp
qed

definition exp_step :: "nat \<Rightarrow> nat \<Rightarrow> nat" where
  "exp_step a e = (if a \<noteq> 2 \<and> a \<noteq> 4 then Suc (2 * e) else 2 * e)"

lemma invert_fold:
  assumes "tight x"
  shows "tight c \<Longrightarrow> fmod c = fmod x ^ e mod prime25519
    \<Longrightarrow> tight (fold (invert_step x) is c)
      \<and> fmod (fold (invert_step x) is c) = fmod x ^ fold exp_step is e mod prime25519"
proof (induction "is" arbitrary: c e)
  case Nil
  then show ?case by simp
next
  case (Cons a "is")
  note sq = fe.square_step [OF Cons.prems(1) assms Cons.prems(2)]
  have "tight (invert_step x a c)"
    using sq(1,3) by (simp add: invert_step_def Let_def)
  moreover have "fmod (invert_step x a c) = fmod x ^ exp_step a e mod prime25519"
    using sq(2,4) by (simp add: invert_step_def exp_step_def Let_def)
  ultimately show ?case using Cons.IH by simp
qed

lemma exp_high: "\<forall>a \<in> set is. 5 \<le> a \<Longrightarrow> fold exp_step is (2 ^ n - 1) = 2 ^ (n + length is) - 1"
proof (induction "is" arbitrary: n)
  case Nil
  then show ?case by simp
next
  case (Cons a "is")
  obtain k where k: "2 ^ n = Suc k" using not0_implies_Suc [of "2 ^ n"] by auto
  with Cons.prems have "exp_step a (2 ^ n - 1) = 2 ^ Suc n - 1" by (auto simp: exp_step_def)
  moreover have "fold exp_step is (2 ^ Suc n - 1) = 2 ^ (Suc n + length is) - 1"
    using Cons.prems by (intro Cons.IH) simp
  ultimately show ?case by simp
qed

lemma invert_exponent: "fold exp_step (rev [0..<254]) 1 = nat (prime25519 - 2)"
proof -
  have "fold exp_step (rev [5..<254]) (2 ^ 1 - 1) = 2 ^ (1 + length (rev [5..<254])) - 1"
    by (rule exp_high) simp
  then show ?thesis by (simp add: rev_upt_split exp_step_def prime25519_def)
qed

lemma wg_invert_correct:
  assumes "tight x"
  shows "tight (wg_invert x)" and "fmod (wg_invert x) = fmod x ^ nat (prime25519 - 2) mod prime25519"
  using invert_fold [OF assms, of x 1 "rev [0..<254]"] assms fe.val_range [of x]
  by (simp_all add: wg_invert_def invert_exponent [unfolded One_nat_def])

section \<open>Scalars\<close>

definition byte_list :: "int list \<Rightarrow> bool" where
  "byte_list bs \<longleftrightarrow> (\<forall>b \<in> set bs. 0 \<le> b \<and> b < 256)"

lemma le_val_update:
  "i < length bs \<Longrightarrow> le_val (bs[i := v]) = le_val bs + (v - bs ! i) * 256 ^ i"
proof (induction bs arbitrary: i)
  case Nil
  then show ?case by simp
next
  case (Cons b bs)
  show ?case
  proof (cases i)
    case 0
    then show ?thesis by simp
  next
    case (Suc j)
    with Cons.prems have "le_val (bs[j := v]) = le_val bs + (v - bs ! j) * 256 ^ j"
      by (intro Cons.IH) simp
    with Suc show ?thesis by (simp add: algebra_simps)
  qed
qed

lemma le_val_bit:
  assumes "byte_list bs" and "i < 8 * length bs"
  shows "bit (le_val bs) i = bit (bs ! (i div 8)) (i mod 8)"
  using assms
proof (induction bs arbitrary: i)
  case Nil
  then show ?case by simp
next
  case (Cons b bs)
  have b: "0 \<le> b" "b < 256" using Cons.prems by (auto simp: byte_list_def)
  have v: "b + 256 * le_val bs = concat_bit 8 b (le_val bs)"
    using b by (simp add: concat_bit_eq take_bit_int_eq_self push_bit_eq_mult)
  show ?case
  proof (cases "i < 8")
    case True
    then show ?thesis by (simp add: v bit_concat_bit_iff)
  next
    case False
    define j where "j = i - 8"
    have i: "i = j + 8" using False by (simp add: j_def)
    have "bit (le_val bs) j = bit (bs ! (j div 8)) (j mod 8)"
      using Cons.prems i by (intro Cons.IH) (auto simp: byte_list_def)
    moreover have "(j + 8) div 8 = Suc (j div 8)" by simp
    ultimately show ?thesis by (simp add: v bit_concat_bit_iff i del: div_add_self2)
  qed
qed

text \<open>RFC 7748's \<open>decodeScalar25519\<close>, on the number the bytes stand for.\<close>

definition clamp_scalar :: "int \<Rightarrow> int" where
  "clamp_scalar n = 2 ^ 254 + 8 * ((n mod 2 ^ 254) div 8)"

lemma js_byte:
  assumes "0 \<le> b" "b < 256"
  shows "to_uint8 (js_or (js_and b 127) 64) = 64 + b mod 64"
    and "to_uint8 (js_and b 248) = 8 * (b div 8)"
proof -
  have "b \<in> set [0..255]" using assms by simp
  moreover have "\<forall>b \<in> set [0..255]. to_uint8 (js_or (js_and b 127) 64) = 64 + b mod 64
      \<and> to_uint8 (js_and b 248) = 8 * (b div 8)"
    by code_simp
  ultimately show "to_uint8 (js_or (js_and b 127) 64) = 64 + b mod 64"
    and "to_uint8 (js_and b 248) = 8 * (b div 8)" by blast+
qed

lemma le_val_bounds:
  "byte_list bs \<Longrightarrow> 0 \<le> le_val bs \<and> le_val bs < 256 ^ length bs"
proof (induction bs)
  case Nil
  then show ?case by simp
next
  case (Cons b bs)
  then have "0 \<le> le_val bs" "le_val bs + 1 \<le> 256 ^ length bs" "0 \<le> b" "b < 256"
    by (auto simp: byte_list_def)
  then show ?case by simp
qed

lemma le_val_append: "le_val (xs @ ys) = le_val xs + 256 ^ length xs * le_val ys"
  by (induction xs) (auto simp: algebra_simps)

lemma wg_clamp_scalar:
  assumes bl: "byte_list z" and len: "length z = 32"
  shows "le_val (wg_clamp z) = clamp_scalar (le_val z)" and "byte_list (wg_clamp z)"
    and "length (wg_clamp z) = 32"
proof -
  have z: "0 \<le> z ! 31" "z ! 31 < 256" "0 \<le> z ! 0" "z ! 0 < 256"
    using bl len by (auto simp: byte_list_def)
  have eq: "wg_clamp z = z[31 := 64 + z ! 31 mod 64, 0 := 8 * (z ! 0 div 8)]"
    using len z js_byte [of "z ! 31"] js_byte [of "z ! 0"] by (simp add: wg_clamp_def Let_def)
  show "length (wg_clamp z) = 32" by (simp add: eq len)
  have "0 \<le> 64 + z ! 31 mod 64" "64 + z ! 31 mod 64 < 256" "0 \<le> 8 * (z ! 0 div 8)"
    "8 * (z ! 0 div 8) < 256" using z by (auto simp: pos_mod_bound trans_less_add1)
  then show "byte_list (wg_clamp z)"
    using bl by (auto simp: eq byte_list_def dest!: set_update_subset_insert [THEN subsetD])
  define q r where "q = z ! 31 div 64" and "r = z ! 31 mod 64"
  define L where "L = le_val (take 31 z)"
  have L: "0 \<le> L" "L < 256 ^ 31"
    using le_val_bounds [of "take 31 z"] bl len by (auto simp: L_def byte_list_def dest: in_set_takeD)
  have r: "0 \<le> r" "r < 64" and z31: "z ! 31 = 64 * q + r" by (simp_all add: r_def q_def)
  have "z = take 31 z @ [z ! 31]" using take_Suc_conv_app_nth [of 31 z] len by simp
  then have v: "le_val z = L + 256 ^ 31 * z ! 31"
    using le_val_append [of "take 31 z" "[z ! 31]"] len by (simp add: L_def)
  then have "le_val z = (L + 256 ^ 31 * r) + 2 ^ 254 * q" by (simp add: z31)
  moreover have "0 \<le> L + 256 ^ 31 * r" "L + 256 ^ 31 * r < 2 ^ 254" using L r by auto
  ultimately have m: "le_val z mod 2 ^ 254 = L + 256 ^ 31 * r" by simp
  obtain w where w: "L = z ! 0 + 256 * w"
    using len by (cases z) (auto simp: L_def)
  have "L + 256 ^ 31 * r = z ! 0 + 8 * (32 * w + 2 ^ 245 * r)" by (simp add: w)
  then have "(L + 256 ^ 31 * r) div 8 = z ! 0 div 8 + (32 * w + 2 ^ 245 * r)" by simp
  then have "clamp_scalar (le_val z) = 2 ^ 254 + 8 * (z ! 0 div 8) + 256 * w + 256 ^ 31 * r"
    unfolding clamp_scalar_def m by simp
  moreover have "le_val (wg_clamp z) = le_val z + (64 + r - z ! 31) * 256 ^ 31 + (8 * (z ! 0 div 8) - z ! 0)"
    unfolding eq using len by (simp add: le_val_update r_def)
  ultimately show "le_val (wg_clamp z) = clamp_scalar (le_val z)"
    unfolding v w by (simp add: algebra_simps)
qed

lemma ladder_bit_scalar:
  assumes "byte_list z" and "i < 8 * length z"
  shows "ladder_bit z i = of_bool (bit (le_val z) i)"
proof -
  let ?x = "z ! (i div 8)"
  have "?x \<in> set z" using assms(2) by (intro nth_mem) auto
  then have "0 \<le> ?x" "?x < 256" using assms(1) by (auto simp: byte_list_def)
  then have "take_bit 32 ?x = ?x" by (simp add: take_bit_int_eq_self)
  then have "ladder_bit z i = of_bool (odd (drop_bit (i mod 8) ?x))"
    by (simp add: ladder_bit_def js_shr_def js_and_1 mod2_eq_if)
  also have "odd (drop_bit (i mod 8) ?x) = bit (le_val z) i"
    using le_val_bit [OF assms] by (simp add: bit_iff_odd_drop_bit)
  finally show ?thesis .
qed

section \<open>The ladder\<close>

type_synonym xz = "int \<times> int \<times> int \<times> int"

text \<open>RFC 7748, section 5: one step on \<open>(x2, z2, x3, z3)\<close>, and the whole function.\<close>

definition rfc_step :: "int \<Rightarrow> xz \<Rightarrow> xz" where
  "rfc_step u = (\<lambda>(x2, z2, x3, z3).
     let A = x2 + z2; AA = A\<^sup>2; B = x2 - z2; BB = B\<^sup>2; E = AA - BB;
         C = x3 + z3; D = x3 - z3; DA = D * A; CB = C * B
     in (AA * BB mod prime25519, E * (AA + 121665 * E) mod prime25519,
         (DA + CB)\<^sup>2 mod prime25519, u * (DA - CB)\<^sup>2 mod prime25519))"

definition cond_swap :: "bool \<Rightarrow> xz \<Rightarrow> xz" where
  "cond_swap sw = (\<lambda>(x2, z2, x3, z3). if sw then (x3, z3, x2, z2) else (x2, z2, x3, z3))"

definition rfc_loop :: "int \<Rightarrow> int \<Rightarrow> nat \<Rightarrow> bool \<times> xz \<Rightarrow> bool \<times> xz" where
  "rfc_loop k u t = (\<lambda>(sw, s). (bit k t, rfc_step u (cond_swap (sw \<noteq> bit k t) s)))"

definition rfc_x25519 :: "int \<Rightarrow> int \<Rightarrow> int" where
  "rfc_x25519 k u =
     (let (sw, s) = fold (rfc_loop k u) (rev [0..<255]) (False, 1, 0, u, 1);
          (x2, z2, x3, z3) = cond_swap sw s
      in x2 * z2 ^ nat (prime25519 - 2) mod prime25519)"

definition ladder_abs :: "ladder \<Rightarrow> xz" where
  "ladder_abs = (\<lambda>(a, b, c, d). (fmod a, fmod c, fmod b, fmod d))"

definition ladder_ok :: "ladder \<Rightarrow> bool" where
  "ladder_ok = (\<lambda>(a, b, c, d). tight a \<and> tight b \<and> tight c \<and> tight d)"

lemma tight_gf: "tight (gf [9])" "tight (gf [1])" "tight (gf [])" "tight (gf [0xdb41, 1])"
  by (auto simp: tight_def carried_def gf_def nth_Cons' )

lemma fmod_gf: "fmod (gf [9]) = 9" "fmod (gf [1]) = 1" "fmod (gf []) = 0" "fmod (gf [0xdb41, 1]) = 121665"
  by (simp_all add: fmod_def gf_def prime25519_def numeral_eq_Suc)

lemma ladder_core_correct:
  assumes "ladder_ok s"
  shows "ladder_ok (ladder_core s)" and "ladder_abs (ladder_core s) = rfc_step 9 (ladder_abs s)"
proof -
  obtain a b c d where s: "s = (a, b, c, d)" by (cases s)
  with assms have t: "tight a" "tight b" "tight c" "tight d" by (simp_all add: ladder_ok_def)
  note f = fe.ladder_arith [OF t tight_gf(4) tight_gf(1)]
  show "ladder_ok (ladder_core s)"
    using f by (simp add: s ladder_ok_def ladder_core_def Let_def)
  show "ladder_abs (ladder_core s) = rfc_step 9 (ladder_abs s)"
    using f by (simp add: s ladder_abs_def ladder_core_def rfc_step_def Let_def fmod_gf)
qed

lemma ladder_swap_correct:
  assumes "ladder_ok s"
  shows "ladder_ok (ladder_swap (of_bool r) s)"
    and "ladder_abs (ladder_swap (of_bool r) s) = cond_swap r (ladder_abs s)"
proof -
  obtain a b c d where s: "s = (a, b, c, d)" by (cases s)
  with assms have t: "tight a" "tight b" "tight c" "tight d" by (simp_all add: ladder_ok_def)
  have "bounded (2 ^ 30) x" if "tight x" for x
    by (rule bounded_mono [OF tight_bounded [OF that]]) simp
  with t have sw: "ladder_swap (of_bool r) s = (if r then (b, a, d, c) else (a, b, c, d))"
    by (simp add: s ladder_swap_def cswap_0 cswap_1)
  then show "ladder_ok (ladder_swap (of_bool r) s)"
    and "ladder_abs (ladder_swap (of_bool r) s) = cond_swap r (ladder_abs s)"
    using t by (simp_all add: s ladder_ok_def ladder_abs_def cond_swap_def)
qed

lemma cond_swap_twice: "cond_swap r (cond_swap sw s) = cond_swap (sw \<noteq> r) s"
  by (cases s) (auto simp: cond_swap_def)

lemma rfc_loop_fold:
  "(case fold (rfc_loop k u) is (sw, s) of (sw', s') \<Rightarrow> cond_swap sw' s')
    = fold (\<lambda>t s. cond_swap (bit k t) (rfc_step u (cond_swap (bit k t) s))) is (cond_swap sw s)"
proof (induction "is" arbitrary: sw s)
  case Nil
  then show ?case by simp
next
  case (Cons t "is")
  then show ?case by (simp add: rfc_loop_def [of k u t] cond_swap_twice)
qed

lemma ladder_fold:
  assumes "byte_list z" and "\<forall>t \<in> set is. t < 8 * length z" and "ladder_ok s"
  shows "ladder_ok (fold (ladder_step z) is s) \<and> ladder_abs (fold (ladder_step z) is s)
    = fold (\<lambda>t s. cond_swap (bit (le_val z) t) (rfc_step 9 (cond_swap (bit (le_val z) t) s))) is
        (ladder_abs s)"
  using assms(2,3)
proof (induction "is" arbitrary: s)
  case Nil
  then show ?case by simp
next
  case (Cons t "is")
  let ?r = "bit (le_val z) t"
  have r: "ladder_bit z t = of_bool ?r" using Cons.prems(1) assms(1) by (simp add: ladder_bit_scalar)
  note s1 = ladder_swap_correct [OF Cons.prems(2), of ?r]
  note s2 = ladder_core_correct [OF s1(1)]
  note s3 = ladder_swap_correct [OF s2(1), of ?r]
  have "ladder_ok (ladder_step z t s)" using s3(1) by (simp add: ladder_step_def r)
  moreover have "ladder_abs (ladder_step z t s) = cond_swap ?r (rfc_step 9 (cond_swap ?r (ladder_abs s)))"
    using s1(2) s2(2) s3(2) by (simp add: ladder_step_def r)
  ultimately show ?case using Cons.IH [of "ladder_step z t s"] Cons.prems(1) by simp
qed

lemma generatePublicKey_x25519:
  assumes "length k = 32" and "byte_list k"
  shows "generatePublicKey k = le_bytes 32 (rfc_x25519 (clamp_scalar (le_val k)) 9)"
proof -
  define z where "z = wg_clamp k"
  note cl = wg_clamp_scalar [OF assms(2,1), folded z_def]
  have tk: "take 32 (k @ replicate 32 0) = k" using assms(1) by simp
  let ?s0 = "(gf [1], gf [9], gf [], gf [1])"
  obtain a b c d where f: "fold (ladder_step z) (rev [0..<255]) ?s0 = (a, b, c, d)"
    by (cases "fold (ladder_step z) (rev [0..<255]) ?s0")
  have ok0: "ladder_ok ?s0" by (simp add: ladder_ok_def tight_gf)
  have ix: "\<forall>t \<in> set (rev [0..<255]). t < 8 * length z" using cl(3) by simp
  note lf = ladder_fold [OF cl(2) ix ok0]
  then have t: "tight a" "tight c" by (simp_all add: f ladder_ok_def)
  have s0: "ladder_abs ?s0 = cond_swap False (1, 0, 9, 1)"
    by (simp add: ladder_abs_def cond_swap_def fmod_gf)
  have "(fmod a, fmod c, fmod b, fmod d)
      = (case fold (rfc_loop (le_val z) 9) (rev [0..<255]) (False, 1, 0, 9, 1) of
          (sw, s) \<Rightarrow> cond_swap sw s)"
    using lf unfolding rfc_loop_fold by (simp add: f ladder_abs_def s0 [unfolded ladder_abs_def, simplified])
  then have spec: "rfc_x25519 (le_val z) 9 = fmod a * fmod c ^ nat (prime25519 - 2) mod prime25519"
    by (auto simp: rfc_x25519_def split: prod.splits)
  note iv = wg_invert_correct [OF t(2)]
  note m = multmod_correct [OF tight_bounded_18 [OF t(1)] tight_bounded_18 [OF iv(1)]]
  have "bounded (2 ^ 50) (multmod a (wg_invert c))"
    by (rule bounded_mono [OF tight_bounded [OF m(1)]]) simp
  note p = wg_pack_correct [OF this]
  have "generatePublicKey k = wg_pack (multmod a (wg_invert c))"
    unfolding generatePublicKey_def tk Let_def z_def [symmetric] f by simp
  also have "\<dots> = le_bytes 32 (rfc_x25519 (le_val z) 9)"
    unfolding p m(2) iv(2) spec by (simp add: mod_mult_right_eq)
  finally show ?thesis by (simp only: cl(1))
qed

section \<open>Properties\<close>

text \<open>C1: The public key the panel derives in the browser is the X25519 function of RFC 7748
  on the clamped private key and the base point 9, in little-endian bytes: none of the
  double roundings, 32-bit conversions and lazy carries of the source changes the result.\<close>

theorem public_key_is_rfc7748_x25519:
  assumes "length k = 32" and "byte_list k"
  shows "generatePublicKey k = le_bytes 32 (rfc_x25519 (clamp_scalar (le_val k)) 9)"
  by (rule generatePublicKey_x25519 [OF assms])

theorem public_key_is_rfc7748_x25519_witness:
  "generatePublicKey (replicate 32 7) = le_bytes 32 (rfc_x25519 (clamp_scalar (le_val (replicate 32 7))) 9)"
  by (rule public_key_is_rfc7748_x25519) (simp_all add: byte_list_def)

text \<open>C39: Multiplication of two field elements whose limbs may have grown to 18 bits gives
  the product modulo the prime, again in limbs small enough for one addition or
  subtraction before the next multiplication.\<close>

theorem multmod_multiplies_mod_p:
  assumes "bounded (2 ^ 18) a" "bounded (2 ^ 18) b"
  shows "fmod (multmod a b) = (fmod a * fmod b) mod prime25519 \<and> bounded (2 ^ 17) (multmod a b)"
  using multmod_correct [OF assms] tight_bounded by auto

theorem multmod_multiplies_mod_p_witness:
  "fmod (multmod (gf [9]) (gf [7, 1])) = (fmod (gf [9]) * fmod (gf [7, 1])) mod prime25519
     \<and> bounded (2 ^ 17) (multmod (gf [9]) (gf [7, 1]))"
  by (rule multmod_multiplies_mod_p) (auto simp: bounded_def gf_def nth_Cons')

text \<open>Packing gives the 32 little-endian bytes of the unique representative below the
  prime, whatever the (possibly negative or oversized) limbs it is given.\<close>

theorem pack_is_canonical:
  assumes "bounded (2 ^ 50) n"
  shows "wg_pack n = le_bytes 32 (fmod n) \<and> 0 \<le> fmod n \<and> fmod n < prime25519"
  using wg_pack_correct [OF assms] by (simp add: fmod_def prime25519_def)

theorem pack_is_canonical_witness:
  "wg_pack (gf [-5]) = le_bytes 32 (fmod (gf [-5])) \<and> 0 \<le> fmod (gf [-5]) \<and> fmod (gf [-5]) < prime25519"
  by (rule pack_is_canonical) (auto simp: bounded_def gf_def nth_Cons')

end
