(* ===== verification/Wireguard_Keys.thy ===== *)
theory Wireguard_Keys
  imports X25519 Base64_Codec
begin

text \<open>
  Key texts and key pairs of the class \<open>Wireguard\<close> of \<open>frontend/src/utils/index.ts\<close>: the
  Base64 writer on a typed array (\<open>encodeBase64\<close>, \<open>keyToBase64\<close>), the reader
  (\<open>keyFromBase64\<close>) and \<open>generateKeypair\<close>. The random bytes of
  \<open>crypto.getRandomValues\<close> are an argument.
\<close>

section \<open>Operations\<close>

definition generatePresharedKey :: "(nat \<Rightarrow> int) \<Rightarrow> int list" where
  "generatePresharedKey getRandomValues = map getRandomValues [0..<32]"

definition generatePrivateKey :: "(nat \<Rightarrow> int) \<Rightarrow> int list" where
  "generatePrivateKey getRandomValues = wg_clamp (generatePresharedKey getRandomValues)"

text \<open>Reading past the end of a typed array gives \<open>undefined\<close>, which the bitwise operators
  and a typed-array store take as 0; writing past the end is ignored.\<close>

definition byte_at :: "int list \<Rightarrow> nat \<Rightarrow> int" where
  "byte_at src i = (if i < length src then src ! i else 0)"

definition base64_input :: "int list \<Rightarrow> int list" where
  "base64_input src =
     map to_uint8
      [js_and (js_sar (byte_at src 0) 2) 63,
       js_and (js_or (js_shl (byte_at src 0) 4) (js_sar (byte_at src 1) 4)) 63,
       js_and (js_or (js_shl (byte_at src 1) 2) (js_sar (byte_at src 2) 6)) 63,
       js_and (byte_at src 2) 63]"

definition base64_byte :: "int \<Rightarrow> int" where
  "base64_byte v =
     to_uint8 (v + 65 + js_and (js_sar (25 - v) 8) 6 - js_and (js_sar (51 - v) 8) 75
       - js_and (js_sar (61 - v) 8) 15 + js_and (js_sar (62 - v) 8) 3)"

text \<open>\<open>encodeBase64(dest.subarray(off), src)\<close>.\<close>

definition encodeBase64 :: "nat \<Rightarrow> int list \<Rightarrow> int list \<Rightarrow> int list" where
  "encodeBase64 off src dest =
     (let input = base64_input src
      in fold (\<lambda>i d. d[off + i := base64_byte (input ! i)]) [0..<4] dest)"

definition keyToBase64 :: "int list \<Rightarrow> string" where
  "keyToBase64 key =
     (let base64 = replicate 44 0;
          base64 = fold (\<lambda>i. encodeBase64 (i * 4) (drop (i * 3) key)) [0..<11] base64;
          base64 = encodeBase64 (11 * 4) [byte_at key (11 * 3 + 0), byte_at key (11 * 3 + 1), 0] base64;
          base64 = base64[43 := 61]
      in map (\<lambda>b. char_of (nat b)) base64)"

definition keyFromBase64 :: "string \<Rightarrow> int list option" where
  "keyFromBase64 encoded = map_option (map (\<lambda>c. int (code c))) (atob encoded)"

record keypair =
  publicKey :: string
  privateKey :: string

definition generateKeypair :: "(nat \<Rightarrow> int) \<Rightarrow> string \<Rightarrow> keypair option" where
  "generateKeypair getRandomValues secretKey =
     (case (if length secretKey > 0 then keyFromBase64 secretKey
            else Some (generatePrivateKey getRandomValues)) of
        None \<Rightarrow> None
      | Some priv \<Rightarrow>
          Some \<lparr>publicKey = keyToBase64 (generatePublicKey priv),
                privateKey = (if length secretKey > 0 then secretKey else keyToBase64 priv)\<rparr>)"

section \<open>The Base64 writer\<close>

lemma js_and_63: "js_and x 63 = x mod 64"
proof -
  have "js_and x 63 = to_int32 x AND mask 6"
    by (simp add: js_and_def to_int32_def mask_eq_exp_minus_1)
  also have "\<dots> = take_bit 6 x"
    by (simp add: take_bit_eq_mask [symmetric] to_int32_def take_bit_signed_take_bit)
  finally show ?thesis by (simp add: take_bit_eq_mod)
qed

lemma or_join: "0 \<le> x \<Longrightarrow> x < 2 ^ n \<Longrightarrow> push_bit n y OR x = y * 2 ^ n + (x :: int)"
  using concat_bit_eq [of n x y] by (simp add: concat_bit_def take_bit_int_eq_self or.commute push_bit_eq_mult)

lemma js_or_shl:
  assumes "0 \<le> a" "a < 256" "0 \<le> x" "x < 2 ^ n" "n \<le> 8"
  shows "js_or (js_shl a n) x = a * 2 ^ n + x"
proof -
  have "(2::int) ^ n \<le> 2 ^ 8" using assms(5) by (intro power_increasing) auto
  then have n: "(2::int) ^ n \<le> 256" by simp
  have "a * 2 ^ n \<le> 255 * 256" using assms(1,2) n by (intro mult_mono) auto
  then have m: "0 \<le> a * 2 ^ n" "a * 2 ^ n < 2 ^ 31" using assms(1) by auto
  have x: "x < 2 ^ 31" using assms(4) n by auto
  have "to_int32 a = a" using assms by (intro to_int32_id) auto
  then have "js_shl a n = a * 2 ^ n"
    using m by (simp add: js_shl_def push_bit_eq_mult to_int32_id)
  moreover have "to_int32 (a * 2 ^ n) = a * 2 ^ n" "to_int32 x = x"
    using m x assms(3) by (auto intro!: to_int32_id)
  ultimately show ?thesis using or_join [OF assms(3,4), of a]
    by (simp add: js_or_def push_bit_eq_mult)
qed

lemma mod_64_join: "0 \<le> x \<Longrightarrow> x < 2 ^ n \<Longrightarrow> n \<le> 6 \<Longrightarrow> (a * 2 ^ n + x) mod 64 = a mod 2 ^ (6 - n) * 2 ^ n + (x :: int)"
proof -
  assume x: "0 \<le> x" "x < 2 ^ n" "n \<le> 6"
  have "(64 :: int) = 2 ^ n * 2 ^ (6 - n)" using x(3) by (simp add: power_add [symmetric])
  then have "(a * 2 ^ n + x) mod 64 = 2 ^ n * ((a * 2 ^ n + x) div 2 ^ n mod 2 ^ (6 - n)) + (a * 2 ^ n + x) mod 2 ^ n"
    using mod_mult2_eq' [of "a * 2 ^ n + x" "2 ^ n" "2 ^ (6 - n)"] by simp
  then show ?thesis using x by (simp add: mult.commute)
qed

text \<open>The four sextets of (up to) three bytes; a missing byte counts as 0.\<close>

lemma base64_input_bytes:
  assumes "\<And>i. 0 \<le> byte_at src i \<and> byte_at src i < 256"
  defines "a \<equiv> byte_at src 0" and "b \<equiv> byte_at src 1" and "c \<equiv> byte_at src 2"
  shows "base64_input src = [a div 4, a mod 4 * 16 + b div 16, b mod 16 * 4 + c div 64, c mod 64]"
proof -
  have r: "0 \<le> a" "a < 256" "0 \<le> b" "b < 256" "0 \<le> c" "c < 256"
    using assms(1) by (auto simp: a_def b_def c_def)
  have s: "js_sar a 2 = a div 4" "js_sar b 4 = b div 16" "js_sar c 6 = c div 64"
    using r by (simp_all add: js_sar_id)
  have d: "a div 4 < 64" "b div 16 < 2 ^ 4" "c div 64 < 2 ^ 2" using r by auto
  have o: "js_or (js_shl a 4) (js_sar b 4) = a * 16 + b div 16"
    "js_or (js_shl b 2) (js_sar c 6) = b * 4 + c div 64"
    using js_or_shl [OF r(1,2) _ d(2)] js_or_shl [OF r(3,4) _ d(3)] r unfolding s by auto
  have m: "(a * 16 + b div 16) mod 64 = a mod 4 * 16 + b div 16"
    "(b * 4 + c div 64) mod 64 = b mod 16 * 4 + c div 64"
    using mod_64_join [OF _ d(2), of a] mod_64_join [OF _ d(3), of b] r by auto
  have u: "to_uint8 x = x" if "0 \<le> x" "x < 64" for x
    using that by (simp add: to_uint8_def take_bit_int_eq_self)
  have v: "a mod 4 * 16 + b div 16 < 64" "b mod 16 * 4 + c div 64 < 64"
    "0 \<le> a mod 4 * 16 + b div 16" "0 \<le> b mod 16 * 4 + c div 64"
    unfolding m [symmetric] by simp_all
  have "to_uint8 (a div 4) = a div 4" "to_uint8 (c mod 64) = c mod 64" "a div 4 mod 64 = a div 4"
    using r d(1) by (simp_all add: u)
  then show ?thesis
    unfolding base64_input_def js_and_63 a_def [symmetric] b_def [symmetric] c_def [symmetric] o m s(1) list.map
    by (simp only: u [OF v(3,1)] u [OF v(4,2)])
qed

lemma threshold_mask:
  assumes "0 \<le> v" "v < 64" "0 \<le> k" "k < 64" "0 \<le> m" "m < 128"
  shows "js_and (js_sar (k - v) 8) m = (if k < v then m else 0)"
proof -
  have "js_sar (k - v) 8 = (k - v) div 256" using assms by (simp add: js_sar_id)
  also have "\<dots> = (if k < v then - 1 else 0)" using assms by auto
  finally show ?thesis using assms by (simp add: js_and_def to_int32_id)
qed

lemma base64_byte_char:
  assumes "v < 64"
  shows "char_of (nat (base64_byte (int v))) = b64_char v"
proof -
  have "base64_byte (int v) = int (code (b64_char v))"
    using assms by (auto simp: base64_byte_def threshold_mask b64_char_def to_uint8_def take_bit_eq_mod)
  then show ?thesis by simp
qed

definition octet :: "nat list \<Rightarrow> nat \<Rightarrow> nat" where
  "octet bs i = (if i < length bs then bs ! i else 0)"

definition quad :: "nat list \<Rightarrow> string" where
  "quad bs =
     (let a = octet bs 0; b = octet bs 1; c = octet bs 2
      in map b64_char [a div 4, a mod 4 * 16 + b div 16, b mod 16 * 4 + c div 64, c mod 64])"

lemma b64_encode_quads:
  "length bs = 3 * k + 2 \<Longrightarrow>
     b64_encode bs = concat (map (\<lambda>i. quad (drop (3 * i) bs)) [0..<k]) @ take 3 (quad (drop (3 * k) bs)) @ ''=''"
proof (induction k arbitrary: bs)
  case 0
  then obtain a b where "bs = [a, b]" by (metis add_0 length_0_conv length_Suc_conv mult_0_right numeral_2_eq_2)
  then show ?case by (simp add: quad_def octet_def numeral_3_eq_3)
next
  case (Suc k)
  then obtain a b c r where bs: "bs = a # b # c # r" and r: "length r = 3 * k + 2"
    by (cases bs; cases "tl bs"; cases "tl (tl bs)") auto
  have "[0..<Suc k] = 0 # map Suc [0..<k]" by (simp add: map_Suc_upt upt_conv_Cons)
  moreover have "drop (3 * Suc i) bs = drop (3 * i) r" for i
  proof -
    have "drop (3 * Suc i) bs = drop (3 * i) (drop 3 bs)" by (simp add: add.commute)
    then show ?thesis by (simp add: bs)
  qed
  moreover have "quad bs = take 4 (b64_encode bs)"
    by (simp add: bs quad_def octet_def numeral_2_eq_2)
  ultimately show ?case using Suc.IH [OF r] by (simp add: bs comp_def del: upt_Suc)
qed

abbreviation as_text :: "int list \<Rightarrow> string" where
  "as_text \<equiv> map (\<lambda>b. char_of (nat b))"

lemma take_write_4:
  assumes "off + 4 \<le> length d"
  shows "take (off + 4) (fold (\<lambda>i d. d[off + i := f i]) [0, 1, 2, 3] d) = take off d @ map f [0, 1, 2, 3]"
proof -
  obtain x y z w q where q: "drop off d = x # y # z # w # q"
  proof -
    have "4 \<le> length (drop off d)" using assms by simp
    then show ?thesis using that
      by (cases "drop off d"; cases "tl (drop off d)"; cases "tl (tl (drop off d))"; cases "tl (tl (tl (drop off d)))") auto
  qed
  have "d = take off d @ x # y # z # w # q" unfolding q [symmetric] by simp
  moreover have "length (take off d) = off" using assms by simp
  ultimately obtain p where "d = p @ x # y # z # w # q" "length p = off" by blast
  then show ?thesis by (auto simp: list_update_append numeral_eq_Suc)
qed

lemma encodeBase64_quad:
  assumes "\<forall>b \<in> set bs. b < 256" and "length d = 44" and "off + 4 \<le> 44"
  shows "length (encodeBase64 off (map int bs) d) = 44"
    and "as_text (take (off + 4) (encodeBase64 off (map int bs) d)) = as_text (take off d) @ quad bs"
proof -
  have o: "byte_at (map int bs) i = int (octet bs i)" "octet bs i < 256" for i
    using assms(1) by (auto simp: byte_at_def octet_def)
  define vs where "vs = (let a = octet bs 0; b = octet bs 1; c = octet bs 2
    in [a div 4, a mod 4 * 16 + b div 16, b mod 16 * 4 + c div 64, c mod 64])"
  have vl: "length vs = 4" by (simp add: vs_def Let_def)
  have v: "\<forall>x \<in> set vs. x < 64"
    using o(2) [of 0] o(2) [of 1] o(2) [of 2] by (auto simp: vs_def Let_def)
  have inp: "base64_input (map int bs) = map int vs"
    using o(2) by (subst base64_input_bytes) (simp_all add: o(1) vs_def Let_def zdiv_int zmod_int)
  have e: "encodeBase64 off (map int bs) d = fold (\<lambda>i d. d[off + i := base64_byte (int (vs ! i))]) [0, 1, 2, 3] d"
    using vl by (simp add: encodeBase64_def inp upt_rec numeral_eq_Suc)
  then show "length (encodeBase64 off (map int bs) d) = 44" using assms(2) by simp
  have "as_text (take (off + 4) (encodeBase64 off (map int bs) d))
      = as_text (take off d) @ map (\<lambda>i. char_of (nat (base64_byte (int (vs ! i))))) [0, 1, 2, 3]"
    using take_write_4 [of off d "\<lambda>i. base64_byte (int (vs ! i))"] assms(2,3) unfolding e by simp
  also have "map (\<lambda>i. char_of (nat (base64_byte (int (vs ! i))))) [0, 1, 2, 3] = map (\<lambda>i. b64_char (vs ! i)) [0, 1, 2, 3]"
    using v vl by (simp add: base64_byte_char)
  also have "\<dots> = quad bs" by (simp add: vs_def quad_def Let_def numeral_2_eq_2 numeral_3_eq_3)
  finally show "as_text (take (off + 4) (encodeBase64 off (map int bs) d)) = as_text (take off d) @ quad bs" .
qed

lemma length_encodeBase64 [simp]: "length (encodeBase64 off src d) = length d"
proof -
  have "length (fold (\<lambda>i d. d[off + i := f i]) is d) = length d" for f :: "nat \<Rightarrow> int" and "is" d
    by (induction "is" arbitrary: d) simp_all
  then show ?thesis by (simp add: encodeBase64_def Let_def)
qed

lemma length_keyToBase64 [simp]: "length (keyToBase64 key) = 44"
proof -
  have "length (fold (\<lambda>i. encodeBase64 (f i) (g i)) is d) = length d" for f and g :: "nat \<Rightarrow> int list" and "is" d
    by (induction "is" arbitrary: d) simp_all
  then show ?thesis by (simp add: keyToBase64_def Let_def)
qed

lemma keyToBase64_nonempty: "keyToBase64 key \<noteq> []"
  using length_keyToBase64 [of key] by (cases "keyToBase64 key") simp_all

lemma encodeBase64_outside: "length d \<le> off \<Longrightarrow> encodeBase64 off src d = d"
  by (simp add: encodeBase64_def Let_def upt_rec numeral_eq_Suc list_update_beyond)

lemma keyToBase64_encode:
  assumes "\<forall>b \<in> set bs. b < 256" and "length bs = 32"
  shows "keyToBase64 (map int bs) = b64_encode bs"
proof -
  let ?f = "\<lambda>i. encodeBase64 (i * 4) (drop (i * 3) (map int bs))"
  let ?P = "\<lambda>n d. length d = 44 \<and> as_text (take (n * 4) d) = concat (map (\<lambda>i. quad (drop (3 * i) bs)) [0..<n])"
  have step: "?P (Suc i) (?f i d)" if "i < 11" "?P i d" for i d
  proof -
    have m: "drop (i * 3) (map int bs) = map int (drop (3 * i) bs)" by (simp add: drop_map mult.commute)
    have "\<forall>b \<in> set (drop (3 * i) bs). b < 256" using assms(1) by (meson in_set_dropD)
    from encodeBase64_quad [OF this, of d "i * 4"] show ?thesis
      using that unfolding m by (simp add: add.commute)
  qed
  define d where "d = fold ?f [0..<11] (replicate 44 0)"
  have "?P 11 d" unfolding d_def by (rule for_loop_inv) (use step in simp_all)
  then have l: "length d = 44" and t: "as_text (take (11 * 4) d) = concat (map (\<lambda>i. quad (drop (3 * i) bs)) [0..<11])"
    by blast+
  let ?q = "\<lambda>i. quad (drop (3 * i) bs)"
  have q: "length (?q i) = 4" for i by (simp add: quad_def Let_def)
  have "length (concat (map ?q [0..<n])) = 4 * n" for n by (induction n) (auto simp: q)
  moreover have "as_text d = concat (map ?q [0..<10]) @ ?q 10"
    using t l by (simp add: upt_rec [of 0 11] upt_rec [of 0 10] upt_rec)
  ultimately have "as_text (take 43 d) = concat (map ?q [0..<10]) @ take 3 (?q 10)"
    by (simp add: take_map [symmetric])
  moreover have "as_text (d[43 := 61]) = as_text (take 43 d) @ ''=''"
    using l by (simp add: upd_conv_take_nth_drop char_eq_code del: code_inject)
  moreover have "keyToBase64 (map int bs) = as_text (d[43 := 61])"
    using l by (simp only: keyToBase64_def Let_def d_def [symmetric]) (simp add: encodeBase64_outside)
  ultimately show ?thesis using b64_encode_quads [of bs 10] assms(2) by simp
qed

lemma byte_list_nat: "byte_list key \<Longrightarrow> key = map int (map nat key) \<and> (\<forall>b \<in> set (map nat key). b < 256)"
  by (auto simp: byte_list_def map_idI comp_def)

lemma keyToBase64_btoa:
  assumes "byte_list key" "length key = 32"
  shows "keyToBase64 key = btoa (as_text key)"
proof -
  note n = byte_list_nat [OF assms(1)]
  have "map code (as_text key) = map nat key"
    using n by (auto intro!: map_cong)
  then show ?thesis
    using keyToBase64_encode [of "map nat key"] n assms(2) unfolding btoa_def
    by (metis length_map)
qed

lemma keyFromBase64_btoa:
  assumes "byte_list key"
  shows "keyFromBase64 (btoa (as_text key)) = Some key"
  using assms by (auto simp: keyFromBase64_def byte_list_def intro!: map_idI)

lemma le_bytes_ok: "byte_list (le_bytes n x) \<and> length (le_bytes n x) = n"
  by (induction n x rule: le_bytes.induct) (auto simp: byte_list_def)

lemma clamp_scalar_idem: "clamp_scalar (clamp_scalar n) = clamp_scalar n"
proof -
  define m where "m = n mod 2 ^ 254 div 8"
  have "0 \<le> 8 * m" "8 * m < 2 ^ 254"
    using pos_mod_bound [of "2 ^ 254" n] pos_mod_sign [of "2 ^ 254" n] by (simp_all add: m_def)
  then have "(2 ^ 254 + 8 * m) mod 2 ^ 254 = 8 * m" by simp
  then show ?thesis unfolding clamp_scalar_def m_def [symmetric] by simp
qed

section \<open>Properties\<close>

text \<open>The hand-written Base64 writer agrees with the browser's on every 32-byte key, and
  reading the text back gives the key.\<close>

theorem key_text_roundtrip:
  assumes "byte_list key" "length key = 32"
  shows "keyToBase64 key = btoa (map (\<lambda>b. char_of (nat b)) key)
    \<and> keyFromBase64 (keyToBase64 key) = Some key"
  using keyToBase64_btoa [OF assms] keyFromBase64_btoa [OF assms(1)] by simp

theorem key_text_roundtrip_witness:
  "keyToBase64 (replicate 32 255) = btoa (map (\<lambda>b. char_of (nat b)) (replicate 32 255))
    \<and> keyFromBase64 (keyToBase64 (replicate 32 255)) = Some (replicate 32 255)"
  by (rule key_text_roundtrip) (simp_all add: byte_list_def)

lemma fresh_keypair_facts:
  assumes "\<And>i. 0 \<le> rnd i \<and> rnd i < 256"
  shows "\<exists>kp. generateKeypair rnd [] = Some kp
    \<and> generateKeypair rnd' (privateKey kp) = Some kp
    \<and> keyFromBase64 (publicKey kp) = Some (le_bytes 32 (rfc_x25519 (clamp_scalar (le_val (map rnd [0..<32]))) 9))"
proof -
  define z where "z = generatePrivateKey rnd"
  have b: "byte_list (generatePresharedKey rnd)" "length (generatePresharedKey rnd) = 32"
    using assms by (auto simp: generatePresharedKey_def byte_list_def)
  note c = wg_clamp_scalar [OF b, folded generatePrivateKey_def, folded z_def]
  have pub: "generatePublicKey z = le_bytes 32 (rfc_x25519 (clamp_scalar (le_val (map rnd [0..<32]))) 9)"
    using generatePublicKey_x25519 [OF c(3,2)]
    by (simp add: c(1) clamp_scalar_idem generatePresharedKey_def)
  have tz: "keyToBase64 z = btoa (as_text z)" by (rule keyToBase64_btoa) (use c in auto)
  moreover have "length (btoa (as_text z)) > 0"
    using c(3) by (cases "map code (as_text z)" rule: b64_encode.cases) (auto simp: btoa_def)
  ultimately show ?thesis
    using keyFromBase64_btoa [OF c(2)] keyToBase64_btoa [of "generatePublicKey z"]
      keyFromBase64_btoa [of "generatePublicKey z"]
    by (simp add: generateKeypair_def z_def [symmetric] pub le_bytes_ok)
qed

text \<open>A freshly generated key pair is reproduced from its own private key text, whatever
  the random source holds by then, and its public key text holds the X25519 function of the
  clamped random bytes.\<close>

theorem keypair_rederives:
  assumes "\<And>i. 0 \<le> rnd i \<and> rnd i < 256"
  shows "\<exists>kp. generateKeypair rnd [] = Some kp
    \<and> generateKeypair rnd' (privateKey kp) = Some kp
    \<and> keyFromBase64 (publicKey kp) = Some (le_bytes 32 (rfc_x25519 (clamp_scalar (le_val (map rnd [0..<32]))) 9))"
  using assms by (rule fresh_keypair_facts)

theorem keypair_rederives_witness:
  "\<exists>kp. generateKeypair (\<lambda>i. 77) [] = Some kp
    \<and> generateKeypair (\<lambda>i. 0) (privateKey kp) = Some kp
    \<and> keyFromBase64 (publicKey kp)
        = Some (le_bytes 32 (rfc_x25519 (clamp_scalar (le_val (map (\<lambda>i. 77) [0..<32]))) 9))"
  by (rule keypair_rederives) simp

end
