(* ===== verification/JS_Value.thy ===== *)
theory JS_Value
  imports Complex_Main JS_String "HOL-Library.AList"
begin

text \<open>
  JavaScript values as the panel handles them (\<open>unknown\<close>, \<open>Record<string, unknown>\<close>): a
  datatype over \<open>undefined\<close>, \<open>null\<close>, booleans, numbers, strings, arrays and objects. An
  object is the list of its own properties in insertion order, read and written with
  \<open>obj.k\<close>, \<open>obj.k = v\<close> and \<open>delete obj.k\<close>; those three operations are an instance of the
  interface \<open>keyed_store\<close>, whose lemmas say what the loops of the sources do that
  delete or copy a list of keys.
\<close>

section \<open>Numbers\<close>

text \<open>
  A number is NaN, an infinity or a finite value. \<open>-0\<close> is identified with \<open>0\<close>; no
  modelled code tells them apart.
\<close>

datatype jsnum = NaN | PInf | NInf | Fin rat

definition is_finite :: "jsnum \<Rightarrow> bool" where
  "is_finite n = (case n of Fin _ \<Rightarrow> True | _ \<Rightarrow> False)"

definition is_integer :: "jsnum \<Rightarrow> bool" where
  "is_integer n = (case n of Fin q \<Rightarrow> of_int \<lfloor>q\<rfloor> = q | _ \<Rightarrow> False)"

text \<open>\<open>a === b\<close>, \<open>a < b\<close> and \<open>a <= b\<close> on numbers.\<close>

fun num_eq :: "jsnum \<Rightarrow> jsnum \<Rightarrow> bool" where
  "num_eq NaN _ = False"
| "num_eq _ NaN = False"
| "num_eq a b = (a = b)"

fun num_less :: "jsnum \<Rightarrow> jsnum \<Rightarrow> bool" where
  "num_less NaN _ = False"
| "num_less _ NaN = False"
| "num_less PInf _ = False"
| "num_less NInf b = (b \<noteq> NInf)"
| "num_less (Fin a) PInf = True"
| "num_less (Fin a) NInf = False"
| "num_less (Fin a) (Fin b) = (a < b)"

definition num_truthy :: "jsnum \<Rightarrow> bool" where
  "num_truthy n \<longleftrightarrow> n \<noteq> NaN \<and> n \<noteq> Fin 0"

abbreviation num :: "int \<Rightarrow> jsnum" where
  "num i \<equiv> Fin (of_int i)"

text \<open>
  \<open>Number(s)\<close>: the string numeric literal of ECMA-262, trimmed; the empty string is 0,
  anything that is not a literal is NaN. An integer value is rounded to a double; a
  fractional one is kept as the decimal the literal writes.
\<close>

definition to_num :: "rat \<Rightarrow> jsnum" where
  "to_num q = (if of_int \<lfloor>q\<rfloor> = q then num (f64 \<lfloor>q\<rfloor>) else Fin q)"

definition exp10 :: "rat \<Rightarrow> bool \<Rightarrow> nat \<Rightarrow> rat" where
  "exp10 q neg n = (if neg then q / 10 ^ n else q * 10 ^ n)"

definition parse_exponent :: "rat \<Rightarrow> string \<Rightarrow> rat option" where
  "parse_exponent q s =
     (case s of [] \<Rightarrow> Some q
      | e # r \<Rightarrow>
        (if e = CHR ''e'' \<or> e = CHR ''E'' then
           (let (neg, d) = (case r of [] \<Rightarrow> (False, [])
                             | c # d \<Rightarrow> if c = CHR ''-'' then (True, d)
                                       else if c = CHR ''+'' then (False, d) else (False, r))
            in if d \<noteq> [] \<and> (\<forall>c \<in> set d. is_digit c)
               then Some (exp10 q neg (digits_val 10 d)) else None)
         else None))"

definition parse_decimal :: "string \<Rightarrow> rat option" where
  "parse_decimal s =
     (let ip = takeWhile is_digit s; r = dropWhile is_digit s;
          (fp, r2) = (case r of [] \<Rightarrow> ([], []) | c # d \<Rightarrow>
             if c = CHR ''.'' then (takeWhile is_digit d, dropWhile is_digit d) else ([], r))
      in if ip = [] \<and> fp = [] then None
         else parse_exponent (of_nat (digits_val 10 (ip @ fp)) / 10 ^ length fp) r2)"

definition in_base :: "nat \<Rightarrow> string \<Rightarrow> bool" where
  "in_base b s \<longleftrightarrow> s \<noteq> [] \<and> (\<forall>c \<in> set s. is_hex c \<and> digit_val c < b)"

definition js_number :: "string \<Rightarrow> jsnum" where
  "js_number s0 =
     (let s = trim s0 in
      if s = [] then Fin 0
      else if starts_with (to_lower s) ''0x'' \<and> in_base 16 (drop 2 s) then to_num (of_nat (digits_val 16 (drop 2 s)))
      else if starts_with (to_lower s) ''0o'' \<and> in_base 8 (drop 2 s) then to_num (of_nat (digits_val 8 (drop 2 s)))
      else if starts_with (to_lower s) ''0b'' \<and> in_base 2 (drop 2 s) then to_num (of_nat (digits_val 2 (drop 2 s)))
      else
        let (neg, r) = (case s of c # d \<Rightarrow> if c = CHR ''-'' then (True, d)
                          else if c = CHR ''+'' then (False, d) else (False, s))
        in if r = ''Infinity'' then (if neg then NInf else PInf)
           else case parse_decimal r of None \<Rightarrow> NaN | Some q \<Rightarrow> to_num (if neg then - q else q))"

text \<open>
  \<open>String(n)\<close>. Integers print in decimal (the sources print ports, identifiers and
  sizes, far below \<open>10 ^ 21\<close>, where JavaScript changes to exponents); a fraction prints
  its decimal digits.
\<close>

fun frac_digits :: "nat \<Rightarrow> rat \<Rightarrow> string" where
  "frac_digits 0 q = []"
| "frac_digits (Suc f) q =
     (if q = 0 then [] else digit_char (nat \<lfloor>10 * q\<rfloor>) # frac_digits f (10 * q - of_int \<lfloor>10 * q\<rfloor>))"

definition num_str :: "jsnum \<Rightarrow> string" where
  "num_str n =
     (case n of NaN \<Rightarrow> ''NaN'' | PInf \<Rightarrow> ''Infinity'' | NInf \<Rightarrow> ''-Infinity''
      | Fin q \<Rightarrow>
        if of_int \<lfloor>q\<rfloor> = q then int_str \<lfloor>q\<rfloor>
        else (if q < 0 then ''-'' else []) @ nat_str (nat \<lfloor>\<bar>q\<bar>\<rfloor>)
          @ ''.'' @ frac_digits 17 (\<bar>q\<bar> - of_int \<lfloor>\<bar>q\<bar>\<rfloor>))"

section \<open>Values\<close>

datatype jv =
    JUndef
  | JNull
  | JBool bool
  | JNum jsnum
  | JStr string
  | JArr "jv list"
  | JObj "(string \<times> jv) list"

type_synonym jobj = "(string \<times> jv) list"

fun truthy :: "jv \<Rightarrow> bool" where
  "truthy JUndef = False"
| "truthy JNull = False"
| "truthy (JBool b) = b"
| "truthy (JNum n) = num_truthy n"
| "truthy (JStr s) = (s \<noteq> [])"
| "truthy (JArr xs) = True"
| "truthy (JObj ps) = True"

text \<open>\<open>v == null\<close>.\<close>

definition nullish :: "jv \<Rightarrow> bool" where
  "nullish v \<longleftrightarrow> v = JUndef \<or> v = JNull"

text \<open>\<open>typeof v === 'object' && v && !Array.isArray(v)\<close>, as a partial view.\<close>

definition as_record :: "jv \<Rightarrow> jobj option" where
  "as_record v = (case v of JObj ps \<Rightarrow> Some ps | _ \<Rightarrow> None)"

definition is_num :: "jv \<Rightarrow> int \<Rightarrow> bool" where
  "is_num v i \<longleftrightarrow> v = JNum (num i)"

definition js_str_of :: "jv \<Rightarrow> string option" where
  "js_str_of v = (case v of JStr s \<Rightarrow> Some s | _ \<Rightarrow> None)"

section \<open>Objects\<close>

definition oget :: "jobj \<Rightarrow> string \<Rightarrow> jv" where
  "oget ps k = (case map_of ps k of None \<Rightarrow> JUndef | Some v \<Rightarrow> v)"

abbreviation oset :: "string \<Rightarrow> jv \<Rightarrow> jobj \<Rightarrow> jobj" where
  "oset \<equiv> AList.update"

abbreviation odel :: "string \<Rightarrow> jobj \<Rightarrow> jobj" where
  "odel \<equiv> AList.delete"

abbreviation okeys :: "jobj \<Rightarrow> string list" where
  "okeys ps \<equiv> map fst ps"

text \<open>\<open>{ ...a, ...b }\<close>.\<close>

definition spread :: "jobj \<Rightarrow> jobj \<Rightarrow> jobj" where
  "spread a b = fold (\<lambda>(k, v). oset k v) b a"

text \<open>An object has each property once.\<close>

definition wf_obj :: "jobj \<Rightarrow> bool" where
  "wf_obj ps \<longleftrightarrow> distinct (okeys ps)"

section \<open>Keyed stores\<close>

locale keyed_store =
  fixes get :: "'s \<Rightarrow> 'k \<Rightarrow> 'v option" and put :: "'k \<Rightarrow> 'v \<Rightarrow> 's \<Rightarrow> 's" and del :: "'k \<Rightarrow> 's \<Rightarrow> 's"
  assumes get_put: "get (put k v s) = (get s)(k \<mapsto> v)"
    and get_del: "get (del k s) = (get s)(k := None)"
begin

lemma get_del_all: "get (fold del ks s) k = (if k \<in> set ks then None else get s k)"
  by (induction ks arbitrary: s) (auto simp: get_del)

lemma get_put_all:
  "get (fold (\<lambda>(k, v). put k v) kvs s) k = (case map_of (rev kvs) k of None \<Rightarrow> get s k | Some v \<Rightarrow> Some v)"
  by (induction kvs arbitrary: s) (auto simp: get_put map_add_Some_iff map_add_def split: option.splits)

text \<open>\<open>for (const k of ks) if (P(obj[k])) delete obj[k];\<close>\<close>

lemma get_drop_if:
  "get (fold (\<lambda>k s. if P (get s k) then del k s else s) ks s) k =
     (if k \<in> set ks \<and> P (get s k) then None else get s k)"
proof (induction ks arbitrary: s)
  case Nil
  then show ?case by simp
next
  case (Cons j ks)
  then show ?case by (cases "j = k") (auto simp: get_del)
qed

end

lemma map_of_delete_eq: "map_of (AList.delete k ps) = (map_of ps)(k := None)"
  by (rule ext) (simp add: delete_conv)

interpretation obj: keyed_store map_of oset odel
  by unfold_locales (simp_all add: update_conv' map_of_delete_eq)

lemma oget_oset [simp]: "oget (oset k v ps) j = (if j = k then v else oget ps j)"
  by (simp add: oget_def obj.get_put)

lemma oget_odel [simp]: "oget (odel k ps) j = (if j = k then JUndef else oget ps j)"
  by (simp add: oget_def obj.get_del)

lemma wf_oset [simp, intro]: "wf_obj ps \<Longrightarrow> wf_obj (oset k v ps)"
  by (simp add: wf_obj_def distinct_update)

lemma wf_odel [simp, intro]: "wf_obj ps \<Longrightarrow> wf_obj (odel k ps)"
  by (simp add: wf_obj_def distinct_delete)

lemma wf_spread [simp, intro]: "wf_obj a \<Longrightarrow> wf_obj (spread a b)"
  unfolding spread_def by (induction b arbitrary: a) auto

lemma map_of_spread:
  "map_of (spread a b) k = (case map_of (rev b) k of None \<Rightarrow> map_of a k | Some v \<Rightarrow> Some v)"
  by (simp add: spread_def obj.get_put_all)

lemma nullish_simps [simp]:
  "nullish JUndef" "nullish JNull" "\<not> nullish (JBool b)" "\<not> nullish (JNum n)"
  "\<not> nullish (JStr s)" "\<not> nullish (JArr xs)" "\<not> nullish (JObj ps)"
  by (simp_all add: nullish_def)

lemma as_record_simps [simp]:
  "as_record (JObj ps) = Some ps" "as_record JUndef = None" "as_record JNull = None"
  "as_record (JBool b) = None" "as_record (JNum n) = None" "as_record (JStr s) = None"
  "as_record (JArr xs) = None"
  by (simp_all add: as_record_def)

lemma as_record_Some [simp]: "as_record v = Some ps \<longleftrightarrow> v = JObj ps"
  by (cases v) auto

section \<open>Decimal numerals\<close>

lemma digits_lower: "\<forall>c \<in> set s. is_digit c \<Longrightarrow> to_lower s = s"
  by (induction s) (auto simp: to_lower_def lower_char_def is_digit_def is_upper_def)

lemma starts_with_set: "starts_with s p \<Longrightarrow> set p \<subseteq> set s"
  by (auto simp: starts_with_iff)

lemma js_number_digits:
  assumes "s \<noteq> []" and d: "\<forall>c \<in> set s. is_digit c"
  shows "js_number s = to_num (of_nat (digits_val 10 s))"
proof -
  have t: "trim s = s" using d digit_not_space by (intro trim_no_space) blast
  have "\<not> is_digit CHR ''x''" "\<not> is_digit CHR ''o''" "\<not> is_digit CHR ''b''" "\<not> is_digit CHR ''-''"
    "\<not> is_digit CHR ''+''" "\<not> is_digit CHR ''I''" by (simp_all add: is_digit_def)
  note nd = this
  have p: "\<not> starts_with s ''0x''" "\<not> starts_with s ''0o''" "\<not> starts_with s ''0b''"
    using starts_with_set [of s] d nd by fastforce+
  obtain c r where s: "s = c # r" using assms(1) by (cases s) auto
  have c: "c \<noteq> CHR ''-''" "c \<noteq> CHR ''+''" "c \<noteq> CHR ''I''" using d nd s by auto
  have "parse_decimal s = Some (of_nat (digits_val 10 s))"
    using d assms(1) by (simp add: parse_decimal_def takeWhile_eq_all_conv [THEN iffD2] dropWhile_eq_Nil_conv [THEN iffD2] parse_exponent_def)
  then show ?thesis
    using p c by (simp add: js_number_def t digits_lower [OF d] Let_def) (simp add: s)
qed

lemma to_num_nat: "int n \<le> 2 ^ 53 \<Longrightarrow> to_num (of_nat n) = num (int n)"
  by (simp add: to_num_def f64_exact)

lemma js_number_nat_str [simp]: "int n \<le> 2 ^ 53 \<Longrightarrow> js_number (nat_str n) = num (int n)"
  using js_number_digits [of "nat_str n"] nat_str_digits by (simp add: to_num_nat)

end
