(* ===== verification/Wire_Normalize.thy ===== *)
theory Wire_Normalize
  imports JS_Value
begin

text \<open>
  \<open>frontend/src/lib/xray/stream-wire-normalize.ts\<close>: the pruning of \<open>streamSettings\<close> before
  the panel stores it, one definition per function, on objects as association lists. For
  the xhttp and the sockopt block the lemmas give the field-by-field contract: which keys
  of the input survive, with which value, for every input object.
\<close>

named_theorems wire_defs \<open>the operations of this theory\<close>

datatype side = Inbound | Outbound

section \<open>Field lists and predicates\<close>

definition PACKET_UP_FIELDS :: "string list" where
  "PACKET_UP_FIELDS = [''scMaxEachPostBytes'', ''scMinPostsIntervalMs'', ''scMaxBufferedPosts'']"

definition STREAM_UP_SERVER_FIELDS :: "string list" where
  "STREAM_UP_SERVER_FIELDS = [''scStreamUpServerSecs'']"

definition PLACEMENT_STRING_FIELDS :: "string list" where
  "PLACEMENT_STRING_FIELDS =
     [''sessionIDPlacement'', ''sessionIDKey'', ''sessionIDTable'', ''sessionIDLength'',
      ''seqPlacement'', ''seqKey'', ''uplinkDataPlacement'', ''uplinkDataKey'',
      ''uplinkHTTPMethod'', ''xPaddingKey'', ''xPaddingHeader'', ''xPaddingPlacement'',
      ''xPaddingMethod'']"

definition nonEmptyString :: "jv \<Rightarrow> bool" where
  "nonEmptyString v = (case v of JStr s \<Rightarrow> trim s \<noteq> [] | _ \<Rightarrow> False)"

definition hasMeaningfulHeaders :: "jv \<Rightarrow> bool" where
  "hasMeaningfulHeaders headers = (case as_record headers of Some h \<Rightarrow> okeys h \<noteq> [] | None \<Rightarrow> False)"

definition int32RangeUpper :: "jv \<Rightarrow> jsnum" where
  "int32RangeUpper v =
     (case v of
        JNum n \<Rightarrow> if is_finite n then n else Fin 0
      | JStr s \<Rightarrow>
          (let trimmed = trim s
           in if trimmed = [] then Fin 0
              else let n = js_number (last (split_on CHR ''-'' trimmed))
                   in if is_finite n then n else Fin 0)
      | _ \<Rightarrow> Fin 0)"

definition resolveXmuxExclusivity :: "jobj \<Rightarrow> jobj" where
  "resolveXmuxExclusivity xmux =
     (if num_less (Fin 0) (int32RangeUpper (oget xmux ''maxConnections''))
         \<and> num_less (Fin 0) (int32RangeUpper (oget xmux ''maxConcurrency''))
      then odel ''maxConcurrency'' xmux else xmux)"

definition all_digits :: "string \<Rightarrow> bool" where
  "all_digits s \<longleftrightarrow> s \<noteq> [] \<and> (\<forall>c \<in> set s. is_digit c)"

definition port_ok :: "string \<Rightarrow> bool" where
  "port_ok s \<longleftrightarrow> \<not> num_less (js_number s) (Fin 1) \<and> \<not> num_less (Fin 65535) (js_number s)"

text \<open>\<open>None\<close> is \<open>undefined\<close> (the target is valid); otherwise the key of the message.\<close>

definition validateRealityTarget :: "string \<Rightarrow> string option" where
  "validateRealityTarget target =
     (let trimmed = trim target in
      if trimmed = [] then Some ''pages.inbounds.form.realityTargetRequired''
      else if starts_with trimmed ''/'' \<or> starts_with trimmed ''@'' then None
      else if all_digits trimmed then
        (if port_ok trimmed then None else Some ''pages.inbounds.form.realityTargetInvalidPort'')
      else case last_index_of CHR '':'' trimmed of
             None \<Rightarrow> Some ''pages.inbounds.form.realityTargetNeedsPort''
           | Some lastColon \<Rightarrow>
               if lastColon = 0 \<or> lastColon = length trimmed - 1
               then Some ''pages.inbounds.form.realityTargetNeedsPort''
               else let portPart = drop (lastColon + 1) trimmed
                    in if \<not> all_digits portPart \<or> \<not> port_ok portPart
                       then Some ''pages.inbounds.form.realityTargetInvalidPort'' else None)"

section \<open>Dropping fields\<close>

definition is_empty_field :: "jv \<Rightarrow> bool" where
  "is_empty_field v \<longleftrightarrow> v = JStr [] \<or> nullish v"

definition dropEmptyStrings :: "string list \<Rightarrow> jobj \<Rightarrow> jobj" where
  "dropEmptyStrings keys ob =
     fold (\<lambda>key ob. if is_empty_field (oget ob key) then odel key ob else ob) keys ob"

definition dropFalseFlags :: "string list \<Rightarrow> jobj \<Rightarrow> jobj" where
  "dropFalseFlags keys ob =
     fold (\<lambda>key ob. if oget ob key = JBool False then odel key ob else ob) keys ob"

definition dropZeroNumbers :: "string list \<Rightarrow> jobj \<Rightarrow> jobj" where
  "dropZeroNumbers keys ob =
     fold (\<lambda>key ob. if oget ob key = JNum (Fin 0) then odel key ob else ob) keys ob"

definition delete_all :: "string list \<Rightarrow> jobj \<Rightarrow> jobj" where
  "delete_all keys ob = fold odel keys ob"

text \<open>\<open>if (cond) delete obj[key]\<close> on the value of the key.\<close>

definition drop_when :: "string \<Rightarrow> (jv \<Rightarrow> bool) \<Rightarrow> jobj \<Rightarrow> jobj" where
  "drop_when key P ob = (if P (oget ob key) then odel key ob else ob)"

text \<open>\<open>if (isRecord(obj[key])) obj[key] = f(obj[key])\<close>.\<close>

definition at_record :: "string \<Rightarrow> (jobj \<Rightarrow> jobj) \<Rightarrow> jobj \<Rightarrow> jobj" where
  "at_record key f ob = (case as_record (oget ob key) of Some x \<Rightarrow> oset key (JObj (f x)) ob | None \<Rightarrow> ob)"

text \<open>A record is replaced by its normal form, or deleted where nothing is left of it.\<close>

definition set_or_delete :: "string \<Rightarrow> (jobj \<Rightarrow> jobj option) \<Rightarrow> jobj \<Rightarrow> jobj" where
  "set_or_delete key f out =
     (case as_record (oget out key) of
        None \<Rightarrow> out
      | Some x \<Rightarrow> (case f x of Some ob \<Rightarrow> oset key (JObj ob) out | None \<Rightarrow> odel key out))"

abbreviation empty_array :: "jv \<Rightarrow> bool" where
  "empty_array v \<equiv> v = JArr []"

section \<open>The sockopt block\<close>

definition normalizeHappyEyeballs :: "jobj \<Rightarrow> jobj" where
  "normalizeHappyEyeballs he =
     (let heOut = he;
          heOut = drop_when ''tryDelayMs'' (\<lambda>v. v = JNum (num 0)) heOut;
          heOut = drop_when ''prioritizeIPv6'' (\<lambda>v. v = JBool False) heOut;
          heOut = drop_when ''interleave'' (\<lambda>v. v = JNum (num 1)) heOut
      in drop_when ''maxConcurrentTry'' (\<lambda>v. v = JNum (num 4)) heOut)"

definition sockopt_fields :: "jobj \<Rightarrow> jobj" where
  "sockopt_fields raw =
     (let out = raw;
          out = dropZeroNumbers [''tcpWindowClamp'', ''tcpMaxSeg'', ''tcpUserTimeout'',
                  ''tcpKeepAliveIdle'', ''tcpKeepAliveInterval'', ''mark''] out;
          out = dropFalseFlags [''acceptProxyProtocol'', ''tcpFastOpen'', ''tcpMptcp'',
                  ''penetrate'', ''V6Only''] out;
          out = drop_when ''tproxy'' (\<lambda>v. v = JStr ''off'') out;
          out = drop_when ''domainStrategy'' (\<lambda>v. v = JStr ''AsIs'') out;
          out = drop_when ''addressPortStrategy'' (\<lambda>v. v = JStr ''none'') out;
          out = drop_when ''dialerProxy'' (\<lambda>v. \<not> nonEmptyString v) out;
          out = drop_when ''interface'' (\<lambda>v. \<not> nonEmptyString v) out;
          out = drop_when ''trustedXForwardedFor'' empty_array out;
          out = drop_when ''customSockopt'' empty_array out;
          out = set_or_delete ''happyEyeballs'' (\<lambda>he.
                  let heOut = normalizeHappyEyeballs he in if okeys heOut = [] then None else Some heOut) out
      in drop_when ''tcpcongestion'' (\<lambda>v. \<not> nonEmptyString v) out)"

definition normalizeSockoptForWire :: "jobj \<Rightarrow> jobj option" where
  "normalizeSockoptForWire raw =
     (let out = sockopt_fields raw in if okeys out = [] then None else Some out)"

section \<open>The TLS block\<close>

definition normalizeTlsForWire :: "jobj \<Rightarrow> jobj" where
  "normalizeTlsForWire raw =
     (let out = raw;
          out = drop_when ''fingerprint'' (\<lambda>v. v = JStr []) out;
          out = drop_when ''curvePreferences'' empty_array out;
          out = drop_when ''masterKeyLog'' is_empty_field out;
          out = set_or_delete ''echSockopt'' normalizeSockoptForWire out
      in at_record ''settings'' (drop_when ''fingerprint'' (\<lambda>v. v = JStr [])) out)"

section \<open>The xhttp block\<close>

definition xhttp_mode :: "jobj \<Rightarrow> string" where
  "xhttp_mode out = (case oget out ''mode'' of JStr m \<Rightarrow> if m \<noteq> [] then m else ''auto'' | _ \<Rightarrow> ''auto'')"

definition xhttp_inbound_fields :: "bool \<Rightarrow> jobj \<Rightarrow> jobj" where
  "xhttp_inbound_fields enableXmux out =
     (let out = (if \<not> enableXmux then odel ''xmux'' out else out);
          out = drop_when ''scMinPostsIntervalMs'' (\<lambda>v. v = JStr [] \<or> v = JStr ''30'') out
      in odel ''uplinkChunkSize'' out)"

definition xhttp_mode_fields :: "string \<Rightarrow> side \<Rightarrow> jobj \<Rightarrow> jobj" where
  "xhttp_mode_fields mode sd out =
     (if mode = ''stream-one'' then delete_all STREAM_UP_SERVER_FIELDS (delete_all PACKET_UP_FIELDS out)
      else if mode = ''stream-up'' then
        (let out = delete_all PACKET_UP_FIELDS out
         in if sd = Outbound then odel ''scStreamUpServerSecs'' out else out)
      else if mode = ''packet-up'' then odel ''scStreamUpServerSecs'' out
      else out)"

definition xhttp_padding_fields :: "jobj \<Rightarrow> jobj" where
  "xhttp_padding_fields out =
     (if oget out ''xPaddingObfsMode'' \<noteq> JBool True
      then dropEmptyStrings [''xPaddingKey'', ''xPaddingHeader'', ''xPaddingPlacement'', ''xPaddingMethod'']
             (odel ''xPaddingObfsMode'' out)
      else out)"

definition normalizeXhttpForWire :: "jobj \<Rightarrow> side \<Rightarrow> jobj" where
  "normalizeXhttpForWire raw sd =
     (let out = raw;
          mode = xhttp_mode out;
          enableXmux = (oget out ''enableXmux'' = JBool True);
          out = odel ''enableXmux'' out;
          out = (if sd = Inbound then xhttp_inbound_fields enableXmux out else out);
          out = at_record ''xmux'' resolveXmuxExclusivity out;
          out = dropEmptyStrings PLACEMENT_STRING_FIELDS out;
          out = dropEmptyStrings [''scMaxEachPostBytes'', ''scMinPostsIntervalMs'', ''scStreamUpServerSecs''] out;
          out = drop_when ''headers'' (\<lambda>v. \<not> hasMeaningfulHeaders v) out;
          out = xhttp_padding_fields out;
          out = drop_when ''noGRPCHeader'' (\<lambda>v. v \<noteq> JBool True) out;
          out = drop_when ''noSSEHeader'' (\<lambda>v. v \<noteq> JBool True) out;
          out = drop_when ''serverMaxHeaderBytes'' (\<lambda>v. v = JNum (num 0)) out;
          out = drop_when ''uplinkChunkSize'' (\<lambda>v. v = JNum (num 0)) out
      in xhttp_mode_fields mode sd out)"

section \<open>The whole subtree\<close>

definition normalizeStreamSettingsForWire :: "jobj \<Rightarrow> side \<Rightarrow> jobj" where
  "normalizeStreamSettingsForWire stream sd =
     (let out = stream;
          out = at_record ''xhttpSettings'' (\<lambda>x. normalizeXhttpForWire x sd) out;
          out = at_record ''tlsSettings'' normalizeTlsForWire out
      in set_or_delete ''sockopt'' normalizeSockoptForWire out)"

section \<open>What the dropping loops do\<close>

lemma oget_drop_if:
  assumes "P JUndef \<or> \<not> P JUndef"
  shows "oget (fold (\<lambda>k ob. if P (oget ob k) then odel k ob else ob) ks ob) k
    = (if k \<in> set ks \<and> P (oget ob k) then JUndef else oget ob k)"
proof -
  define Q where "Q = (\<lambda>ov. P (case ov of None \<Rightarrow> JUndef | Some v \<Rightarrow> v))"
  have "(\<lambda>k ob. if P (oget ob k) then odel k ob else ob) = (\<lambda>k ob. if Q (map_of ob k) then odel k ob else ob)"
    by (simp add: Q_def oget_def)
  then show ?thesis using obj.get_drop_if [of Q ks ob k] by (auto simp: Q_def oget_def)
qed

lemma oget_dropEmptyStrings [wire_defs]:
  "oget (dropEmptyStrings ks ob) k = (if k \<in> set ks \<and> is_empty_field (oget ob k) then JUndef else oget ob k)"
  unfolding dropEmptyStrings_def by (rule oget_drop_if) simp

lemma oget_dropFalseFlags [wire_defs]:
  "oget (dropFalseFlags ks ob) k = (if k \<in> set ks \<and> oget ob k = JBool False then JUndef else oget ob k)"
  unfolding dropFalseFlags_def by (rule oget_drop_if [where P = "\<lambda>v. v = JBool False"]) simp

lemma oget_dropZeroNumbers [wire_defs]:
  "oget (dropZeroNumbers ks ob) k = (if k \<in> set ks \<and> oget ob k = JNum (Fin 0) then JUndef else oget ob k)"
  unfolding dropZeroNumbers_def by (rule oget_drop_if [where P = "\<lambda>v. v = JNum (Fin 0)"]) simp

lemma oget_delete_all [wire_defs]:
  "oget (delete_all ks ob) k = (if k \<in> set ks then JUndef else oget ob k)"
  by (simp add: delete_all_def oget_def obj.get_del_all)

lemma oget_drop_when [wire_defs]:
  "oget (drop_when j P ob) k = (if k = j \<and> P (oget ob k) then JUndef else oget ob k)"
  by (auto simp: drop_when_def)

lemma oget_at_record [wire_defs]:
  "oget (at_record j f ob) k = (if k = j then (case oget ob j of JObj x \<Rightarrow> JObj (f x) | v \<Rightarrow> v) else oget ob k)"
  by (auto simp: at_record_def split: option.splits jv.splits)

lemma oget_set_or_delete [wire_defs]:
  "oget (set_or_delete j f ob) k =
     (if k = j then (case oget ob j of
         JObj x \<Rightarrow> (case f x of Some y \<Rightarrow> JObj y | None \<Rightarrow> JUndef) | v \<Rightarrow> v) else oget ob k)"
  by (auto simp: set_or_delete_def split: option.splits jv.splits)

section \<open>The contract of the xhttp block\<close>

text \<open>The keys that do not survive, from the values of the input object.\<close>

definition xhttp_dropped :: "jobj \<Rightarrow> side \<Rightarrow> string \<Rightarrow> bool" where
  "xhttp_dropped raw sd k \<longleftrightarrow>
     k = ''enableXmux''
     \<or> sd = Inbound \<and> k = ''xmux'' \<and> oget raw ''enableXmux'' \<noteq> JBool True
     \<or> sd = Inbound \<and> k = ''scMinPostsIntervalMs'' \<and> oget raw k = JStr ''30''
     \<or> sd = Inbound \<and> k = ''uplinkChunkSize''
     \<or> k \<in> set PLACEMENT_STRING_FIELDS \<union> {''scMaxEachPostBytes'', ''scMinPostsIntervalMs'', ''scStreamUpServerSecs''}
         \<and> is_empty_field (oget raw k)
     \<or> k = ''headers'' \<and> \<not> hasMeaningfulHeaders (oget raw k)
     \<or> k \<in> {''xPaddingObfsMode'', ''noGRPCHeader'', ''noSSEHeader''} \<and> oget raw k \<noteq> JBool True
     \<or> k \<in> {''serverMaxHeaderBytes'', ''uplinkChunkSize''} \<and> oget raw k = JNum (num 0)
     \<or> k \<in> set PACKET_UP_FIELDS \<and> xhttp_mode raw \<in> {''stream-one'', ''stream-up''}
     \<or> k = ''scStreamUpServerSecs'' \<and> (xhttp_mode raw \<in> {''stream-one'', ''packet-up''}
         \<or> xhttp_mode raw = ''stream-up'' \<and> sd = Outbound)"

definition xhttp_value :: "jobj \<Rightarrow> string \<Rightarrow> jv" where
  "xhttp_value raw k =
     (case oget raw k of
        JObj x \<Rightarrow> if k = ''xmux'' then JObj (resolveXmuxExclusivity x) else JObj x
      | v \<Rightarrow> v)"

lemma is_empty_JUndef [simp]: "is_empty_field JUndef" "\<not> hasMeaningfulHeaders JUndef"
  by (simp_all add: is_empty_field_def hasMeaningfulHeaders_def)

text \<open>Every stage acts on the value of each key alone.\<close>

definition kill :: "bool \<Rightarrow> jv \<Rightarrow> jv" where
  "kill b v = (if b then JUndef else v)"

lemma kill_kill: "kill b (kill c v) = kill (b \<or> c) v"
  by (simp add: kill_def)

lemma kill_cong: "(v \<noteq> JUndef \<Longrightarrow> b = c) \<Longrightarrow> kill b v = kill c v"
  by (auto simp: kill_def)

lemma oget_xhttp_mode_fields:
  "oget (xhttp_mode_fields m sd ob) k =
     kill (k \<in> set PACKET_UP_FIELDS \<and> m \<in> {''stream-one'', ''stream-up''}
        \<or> k = ''scStreamUpServerSecs'' \<and> (m \<in> {''stream-one'', ''packet-up''} \<or> m = ''stream-up'' \<and> sd = Outbound))
       (oget ob k)"
  by (auto simp: kill_def xhttp_mode_fields_def oget_delete_all STREAM_UP_SERVER_FIELDS_def PACKET_UP_FIELDS_def Let_def)

lemma oget_xhttp_inbound_fields:
  "oget (if sd = Inbound then xhttp_inbound_fields en ob else ob) k =
     kill (sd = Inbound \<and> (k = ''uplinkChunkSize'' \<or> k = ''xmux'' \<and> \<not> en
        \<or> k = ''scMinPostsIntervalMs'' \<and> (oget ob k = JStr [] \<or> oget ob k = JStr ''30'')))
      (oget ob k)"
  by (auto simp: kill_def xhttp_inbound_fields_def oget_drop_when Let_def)

lemma oget_xhttp_padding_fields:
  "oget (xhttp_padding_fields ob) k =
     kill (oget ob ''xPaddingObfsMode'' \<noteq> JBool True
        \<and> (k = ''xPaddingObfsMode'' \<or> k \<in> {''xPaddingKey'', ''xPaddingHeader'', ''xPaddingPlacement'', ''xPaddingMethod''}
              \<and> is_empty_field (oget ob k)))
      (oget ob k)"
  by (auto simp: kill_def xhttp_padding_fields_def oget_dropEmptyStrings)

lemma kill_drop_when: "oget (drop_when j P ob) k = kill (k = j \<and> P (oget ob k)) (oget ob k)"
  by (simp add: kill_def oget_drop_when)

lemma kill_dropEmptyStrings:
  "oget (dropEmptyStrings ks ob) k = kill (k \<in> set ks \<and> is_empty_field (oget ob k)) (oget ob k)"
  by (simp add: kill_def oget_dropEmptyStrings)

text \<open>Stages in sequence: a key that is gone has no value to test.\<close>

lemma kill_seq:
  "kill (c \<and> is_empty_field (kill b v)) (kill b v) = kill (b \<or> c \<and> is_empty_field v) v"
  "kill (c \<and> \<not> hasMeaningfulHeaders (kill b v)) (kill b v) = kill (b \<or> c \<and> \<not> hasMeaningfulHeaders v) v"
  "kill (c \<and> kill b v \<noteq> JBool True) (kill b v) = kill (b \<or> c \<and> v \<noteq> JBool True) v"
  "kill (c \<and> kill b v = JNum n) (kill b v) = kill (b \<or> c \<and> v = JNum n) v"
  by (auto simp: kill_def)

lemma kill_last:
  "kill (a \<and> \<not> hasMeaningfulHeaders (kill b v) \<or> c \<and> kill b v \<noteq> JBool True \<or> d \<and> kill b v = JNum n \<or> e) (kill b v)
    = kill (b \<or> a \<and> \<not> hasMeaningfulHeaders v \<or> c \<and> v \<noteq> JBool True \<or> d \<and> v = JNum n \<or> e) v"
  by (simp add: kill_def)

lemma kill_padding:
  assumes "k \<in> S \<Longrightarrow> \<not> is_empty_field v \<or> v = JUndef" and "k = j \<Longrightarrow> v = w"
  shows "kill (w \<noteq> JBool True \<and> (k = j \<or> k \<in> S \<and> is_empty_field v)) v = kill (k = j \<and> v \<noteq> JBool True) v"
  using assms by (auto simp: kill_def)

lemma case_obj_id: "(case v of JObj x \<Rightarrow> JObj x | w \<Rightarrow> w) = v"
  by (cases v) auto

lemma kill_simps [simp]: "kill False v = v" "kill True v = JUndef" "kill b JUndef = JUndef"
  by (simp_all add: kill_def)

definition xhttp_special :: "string list" where
  "xhttp_special =
     [''enableXmux'', ''xmux'', ''scMinPostsIntervalMs'', ''uplinkChunkSize'', ''scMaxEachPostBytes'',
      ''scMaxBufferedPosts'', ''scStreamUpServerSecs'', ''headers'', ''xPaddingObfsMode'', ''noGRPCHeader'',
      ''noSSEHeader'', ''serverMaxHeaderBytes''] @ PLACEMENT_STRING_FIELDS"

text \<open>The value of a key after all stages, in one expression over its value in the input.\<close>

definition xhttp_mid :: "jobj \<Rightarrow> side \<Rightarrow> string \<Rightarrow> jv" where
  "xhttp_mid raw sd k =
     (let v = (case oget raw k of JObj x \<Rightarrow> if k = ''xmux'' then JObj (resolveXmuxExclusivity x) else JObj x | v \<Rightarrow> v);
          b = (k = ''enableXmux'' \<or> sd = Inbound \<and> (k = ''uplinkChunkSize'' \<or> k = ''xmux'' \<and> oget raw ''enableXmux'' \<noteq> JBool True
                 \<or> k = ''scMinPostsIntervalMs'' \<and> (oget raw k = JStr [] \<or> oget raw k = JStr ''30'')))
      in kill (b \<or> k \<in> set (PLACEMENT_STRING_FIELDS @ [''scMaxEachPostBytes'', ''scMinPostsIntervalMs'', ''scStreamUpServerSecs''])
                 \<and> is_empty_field v) v)"

lemma xhttp_first_stages:
  fixes raw sd
  defines "o1 \<equiv> (if sd = Inbound then xhttp_inbound_fields (oget raw ''enableXmux'' = JBool True) (odel ''enableXmux'' raw)
      else odel ''enableXmux'' raw)"
  shows "oget (dropEmptyStrings [''scMaxEachPostBytes'', ''scMinPostsIntervalMs'', ''scStreamUpServerSecs'']
      (dropEmptyStrings PLACEMENT_STRING_FIELDS (at_record ''xmux'' resolveXmuxExclusivity o1))) k = xhttp_mid raw sd k"
proof -
  have "oget o1 k = kill (k = ''enableXmux'' \<or> sd = Inbound \<and> (k = ''uplinkChunkSize'' \<or> k = ''xmux'' \<and> oget raw ''enableXmux'' \<noteq> JBool True
                 \<or> k = ''scMinPostsIntervalMs'' \<and> (oget raw k = JStr [] \<or> oget raw k = JStr ''30''))) (oget raw k)" for k
    unfolding o1_def oget_xhttp_inbound_fields by (auto simp: kill_def)
  note o1 = this
  show ?thesis
  proof (cases "k = ''xmux''")
    case False
    then show ?thesis
      unfolding kill_dropEmptyStrings oget_at_record xhttp_mid_def Let_def o1
      by (simp only: if_False case_obj_id kill_seq set_append Un_iff disj_assoc conj_disj_distribR)
  next
    case True
    then show ?thesis
      by (cases "oget raw ''xmux''"; cases "sd = Inbound \<and> oget raw ''enableXmux'' \<noteq> JBool True")
        (simp_all add: kill_dropEmptyStrings oget_at_record xhttp_mid_def Let_def o1 PLACEMENT_STRING_FIELDS_def kill_def)
  qed
qed

lemma xhttp_last_stages:
  "oget (normalizeXhttpForWire raw sd) k =
     (let m = xhttp_mode raw; v = xhttp_mid raw sd k
      in kill (k = ''headers'' \<and> \<not> hasMeaningfulHeaders v
           \<or> k \<in> {''xPaddingObfsMode'', ''noGRPCHeader'', ''noSSEHeader''} \<and> v \<noteq> JBool True
           \<or> k \<in> {''serverMaxHeaderBytes'', ''uplinkChunkSize''} \<and> v = JNum (num 0)
           \<or> k \<in> set PACKET_UP_FIELDS \<and> m \<in> {''stream-one'', ''stream-up''}
           \<or> k = ''scStreamUpServerSecs'' \<and> (m \<in> {''stream-one'', ''packet-up''} \<or> m = ''stream-up'' \<and> sd = Outbound)) v)"
proof -
  define o1 where "o1 = (if sd = Inbound then xhttp_inbound_fields (oget raw ''enableXmux'' = JBool True) (odel ''enableXmux'' raw)
      else odel ''enableXmux'' raw)"
  define o4 where "o4 = dropEmptyStrings [''scMaxEachPostBytes'', ''scMinPostsIntervalMs'', ''scStreamUpServerSecs'']
      (dropEmptyStrings PLACEMENT_STRING_FIELDS (at_record ''xmux'' resolveXmuxExclusivity o1))"
  define o5 where "o5 = drop_when ''headers'' (\<lambda>v. \<not> hasMeaningfulHeaders v) o4"
  define o6 where "o6 = drop_when ''noSSEHeader'' (\<lambda>v. v \<noteq> JBool True)
      (drop_when ''noGRPCHeader'' (\<lambda>v. v \<noteq> JBool True) (xhttp_padding_fields o5))"
  define o7 where "o7 = drop_when ''uplinkChunkSize'' (\<lambda>v. v = JNum (num 0))
      (drop_when ''serverMaxHeaderBytes'' (\<lambda>v. v = JNum (num 0)) o6)"
  have v: "oget o4 k = xhttp_mid raw sd k" for k
    unfolding o4_def o1_def by (rule xhttp_first_stages)
  have e: "\<not> is_empty_field (oget o4 k) \<or> oget o4 k = JUndef"
    if "k \<in> {''xPaddingKey'', ''xPaddingHeader'', ''xPaddingPlacement'', ''xPaddingMethod''}"
  proof -
    have "k \<in> set PLACEMENT_STRING_FIELDS" using that by (simp add: PLACEMENT_STRING_FIELDS_def)
    then show ?thesis unfolding o4_def kill_dropEmptyStrings kill_seq by (simp add: kill_def)
  qed
  have s5: "oget o5 k = kill (k = ''headers'' \<and> \<not> hasMeaningfulHeaders (oget o4 k)) (oget o4 k)" for k
    unfolding o5_def kill_drop_when by simp
  have s6: "oget (xhttp_padding_fields o5) k = kill (k = ''xPaddingObfsMode'' \<and> oget o5 k \<noteq> JBool True) (oget o5 k)"
    unfolding oget_xhttp_padding_fields
    by (rule kill_padding) (use e s5 in \<open>auto simp: kill_def\<close>)
  have s7: "oget o7 k = kill (k = ''headers'' \<and> \<not> hasMeaningfulHeaders (oget o4 k)
      \<or> k \<in> {''xPaddingObfsMode'', ''noGRPCHeader'', ''noSSEHeader''} \<and> oget o4 k \<noteq> JBool True
      \<or> k \<in> {''serverMaxHeaderBytes'', ''uplinkChunkSize''} \<and> oget o4 k = JNum (num 0)) (oget o4 k)"
    unfolding o7_def o6_def kill_drop_when s6 s5 kill_seq insert_iff empty_iff by (simp only: simp_thms disj_assoc conj_disj_distribR)
  have "normalizeXhttpForWire raw sd = xhttp_mode_fields (xhttp_mode raw) sd o7"
    by (simp add: normalizeXhttpForWire_def Let_def o1_def o4_def o5_def o6_def o7_def)
  then show ?thesis
    unfolding Let_def v [symmetric] by (simp only: oget_xhttp_mode_fields s7 kill_kill) (auto simp: kill_def)
qed

text \<open>The contract: a key is dropped exactly when the rules name it, and keeps its value
  otherwise, except that \<open>xmux\<close> is made exclusive.\<close>

lemma xhttp_contract:
  "oget (normalizeXhttpForWire raw sd) k = (if xhttp_dropped raw sd k then JUndef else xhttp_value raw k)"
proof -
  let ?S = "set (PLACEMENT_STRING_FIELDS @ [''scMaxEachPostBytes'', ''scMinPostsIntervalMs'', ''scStreamUpServerSecs''])"
  have S: "k \<noteq> ''xmux'' \<or> k \<notin> ?S \<and> k \<noteq> ''headers'' \<and> k \<notin> {''xPaddingObfsMode'', ''noGRPCHeader'', ''noSSEHeader''}
      \<and> k \<notin> {''serverMaxHeaderBytes'', ''uplinkChunkSize''} \<and> k \<noteq> ''scMinPostsIntervalMs''"
    by (auto simp: PLACEMENT_STRING_FIELDS_def)
  have m: "''scMinPostsIntervalMs'' \<in> ?S" by simp
  have v: "k \<noteq> ''xmux'' \<Longrightarrow> xhttp_value raw k = oget raw k"
    by (cases "oget raw k") (simp_all add: xhttp_value_def)
  have e: "is_empty_field (JStr [])" by (simp add: is_empty_field_def)
  show ?thesis
  proof (cases "k = ''xmux''")
    case True
    then show ?thesis
      using S by (cases "oget raw ''xmux''") (simp_all add: xhttp_last_stages xhttp_mid_def xhttp_dropped_def xhttp_value_def Let_def kill_def PACKET_UP_FIELDS_def)
  next
    case False
    have "xhttp_mid raw sd k = kill (k = ''enableXmux'' \<or> sd = Inbound \<and> (k = ''uplinkChunkSize''
        \<or> k = ''scMinPostsIntervalMs'' \<and> oget raw k = JStr ''30'') \<or> k \<in> ?S \<and> is_empty_field (oget raw k)) (oget raw k)"
      using False m e unfolding xhttp_mid_def Let_def
      by (simp only: if_False case_obj_id) (rule kill_cong, metis)
    then have "oget (normalizeXhttpForWire raw sd) k = kill (xhttp_dropped raw sd k) (oget raw k)"
      unfolding xhttp_last_stages Let_def kill_last
      by (simp only: kill_last) (rule kill_cong, use False in \<open>unfold xhttp_dropped_def set_append Un_iff list.set insert_iff empty_iff, argo\<close>)
    then show ?thesis by (simp add: v [OF False] kill_def)
  qed
qed

lemma xhttp_key_plain: "k \<noteq> ''xmux'' \<Longrightarrow> xhttp_value raw k = oget raw k"
  by (cases "oget raw k") (simp_all add: xhttp_value_def)

lemma xhttp_mode_kept: "xhttp_mode (normalizeXhttpForWire raw sd) = xhttp_mode raw"
proof -
  have "oget (normalizeXhttpForWire raw sd) ''mode'' = oget raw ''mode''"
    by (simp add: xhttp_contract xhttp_dropped_def xhttp_key_plain PLACEMENT_STRING_FIELDS_def PACKET_UP_FIELDS_def)
  then show ?thesis by (simp add: xhttp_mode_def)
qed

lemma resolve_idem [simp]: "resolveXmuxExclusivity (resolveXmuxExclusivity x) = resolveXmuxExclusivity x"
  by (auto simp: resolveXmuxExclusivity_def int32RangeUpper_def)

lemma resolve_exclusive:
  "\<not> (num_less (Fin 0) (int32RangeUpper (oget (resolveXmuxExclusivity x) ''maxConnections''))
     \<and> num_less (Fin 0) (int32RangeUpper (oget (resolveXmuxExclusivity x) ''maxConcurrency'')))"
  by (auto simp: resolveXmuxExclusivity_def int32RangeUpper_def)

lemma xhttp_dropped_again:
  assumes kept: "\<not> xhttp_dropped raw sd k" and ok: "sd = Outbound \<or> oget raw ''enableXmux'' \<noteq> JBool True"
  shows "\<not> xhttp_dropped (normalizeXhttpForWire raw sd) sd k"
proof (cases "k = ''xmux''")
  case True
  have "sd = Outbound" using kept ok True by (cases sd) (auto simp: xhttp_dropped_def)
  then show ?thesis
    by (simp add: True xhttp_dropped_def PLACEMENT_STRING_FIELDS_def PACKET_UP_FIELDS_def)
next
  case False
  then have "oget (normalizeXhttpForWire raw sd) k = oget raw k"
    using kept by (simp add: xhttp_contract xhttp_key_plain)
  then show ?thesis using kept False unfolding xhttp_dropped_def xhttp_mode_kept by metis
qed

lemma xhttp_twice:
  assumes "sd = Outbound \<or> oget raw ''enableXmux'' \<noteq> JBool True"
  shows "oget (normalizeXhttpForWire (normalizeXhttpForWire raw sd) sd) k = oget (normalizeXhttpForWire raw sd) k"
proof (cases "xhttp_dropped raw sd k")
  case True
  then have "oget (normalizeXhttpForWire raw sd) k = JUndef" by (simp add: xhttp_contract)
  then show ?thesis by (simp add: xhttp_contract [of "normalizeXhttpForWire raw sd"] xhttp_value_def)
next
  case False
  then have n: "oget (normalizeXhttpForWire raw sd) k = xhttp_value raw k" by (simp add: xhttp_contract)
  show ?thesis using xhttp_dropped_again [OF False assms]
    by (cases "oget raw k") (simp_all add: xhttp_contract [of "normalizeXhttpForWire raw sd"] n xhttp_value_def)
qed

section \<open>The contract of the sockopt block\<close>

definition SOCKOPT_ZERO :: "string list" where
  "SOCKOPT_ZERO = [''tcpWindowClamp'', ''tcpMaxSeg'', ''tcpUserTimeout'', ''tcpKeepAliveIdle'',
     ''tcpKeepAliveInterval'', ''mark'']"

definition SOCKOPT_FALSE :: "string list" where
  "SOCKOPT_FALSE = [''acceptProxyProtocol'', ''tcpFastOpen'', ''tcpMptcp'', ''penetrate'', ''V6Only'']"

text \<open>A sockopt field holding its default is dropped.\<close>

definition sockopt_default :: "string \<Rightarrow> jv \<Rightarrow> bool" where
  "sockopt_default k v \<longleftrightarrow>
     k \<in> set SOCKOPT_ZERO \<and> v = JNum (Fin 0) \<or> k \<in> set SOCKOPT_FALSE \<and> v = JBool False
     \<or> k = ''tproxy'' \<and> v = JStr ''off'' \<or> k = ''domainStrategy'' \<and> v = JStr ''AsIs''
     \<or> k = ''addressPortStrategy'' \<and> v = JStr ''none''
     \<or> k \<in> {''dialerProxy'', ''interface'', ''tcpcongestion''} \<and> \<not> nonEmptyString v
     \<or> k \<in> {''trustedXForwardedFor'', ''customSockopt''} \<and> v = JArr []"

definition happy_value :: "jv \<Rightarrow> jv" where
  "happy_value v =
     (case v of JObj he \<Rightarrow> if okeys (normalizeHappyEyeballs he) = [] then JUndef else JObj (normalizeHappyEyeballs he)
      | w \<Rightarrow> w)"

definition sockopt_scalars :: "jobj \<Rightarrow> jobj" where
  "sockopt_scalars raw =
     drop_when ''customSockopt'' empty_array (drop_when ''trustedXForwardedFor'' empty_array
      (drop_when ''interface'' (\<lambda>v. \<not> nonEmptyString v) (drop_when ''dialerProxy'' (\<lambda>v. \<not> nonEmptyString v)
      (drop_when ''addressPortStrategy'' (\<lambda>v. v = JStr ''none'') (drop_when ''domainStrategy'' (\<lambda>v. v = JStr ''AsIs'')
      (drop_when ''tproxy'' (\<lambda>v. v = JStr ''off'') (dropFalseFlags SOCKOPT_FALSE (dropZeroNumbers SOCKOPT_ZERO raw))))))))"

lemma sockopt_fields_scalars:
  "sockopt_fields raw = drop_when ''tcpcongestion'' (\<lambda>v. \<not> nonEmptyString v)
     (set_or_delete ''happyEyeballs'' (\<lambda>he.
        let heOut = normalizeHappyEyeballs he in if okeys heOut = [] then None else Some heOut) (sockopt_scalars raw))"
  by (simp add: sockopt_fields_def sockopt_scalars_def SOCKOPT_ZERO_def SOCKOPT_FALSE_def Let_def)

lemma kill_false_zero:
  "oget (dropFalseFlags ks ob) k = kill (k \<in> set ks \<and> oget ob k = JBool False) (oget ob k)"
  "oget (dropZeroNumbers ks ob) k = kill (k \<in> set ks \<and> oget ob k = JNum (Fin 0)) (oget ob k)"
  by (simp_all add: kill_def oget_dropFalseFlags oget_dropZeroNumbers)

lemma nonEmptyString_JUndef [simp]: "\<not> nonEmptyString JUndef"
  by (simp add: nonEmptyString_def)

lemma kill_seq_str:
  "kill (c \<and> kill b v = JStr n) (kill b v) = kill (b \<or> c \<and> v = JStr n) v"
  "kill (c \<and> kill b v = JArr m) (kill b v) = kill (b \<or> c \<and> v = JArr m) v"
  "kill (c \<and> kill b v = JBool q) (kill b v) = kill (b \<or> c \<and> v = JBool q) v"
  "kill (c \<and> \<not> nonEmptyString (kill b v)) (kill b v) = kill (b \<or> c \<and> \<not> nonEmptyString v) v"
  by (auto simp: kill_def)

lemma sockopt_scalars_contract:
  "k \<noteq> ''tcpcongestion'' \<Longrightarrow> oget (sockopt_scalars raw) k = kill (sockopt_default k (oget raw k)) (oget raw k)"
  unfolding sockopt_scalars_def kill_drop_when kill_false_zero kill_seq kill_seq_str
  by (rule kill_cong) (unfold sockopt_default_def insert_iff empty_iff, argo)

lemma sockopt_contract:
  "oget (sockopt_fields raw) k =
     (if sockopt_default k (oget raw k) then JUndef
      else if k = ''happyEyeballs'' then happy_value (oget raw k) else oget raw k)"
proof -
  consider "k = ''happyEyeballs''" | "k = ''tcpcongestion''" | "k \<noteq> ''happyEyeballs''" "k \<noteq> ''tcpcongestion''" by blast
  then show ?thesis
  proof cases
    case 1
    then have "\<not> sockopt_default k (oget raw k)"
      by (simp add: sockopt_default_def SOCKOPT_ZERO_def SOCKOPT_FALSE_def)
    moreover have "oget (sockopt_scalars raw) k = oget raw k"
      using calculation 1 by (simp add: sockopt_scalars_contract)
    ultimately show ?thesis using 1
      by (simp add: sockopt_fields_scalars oget_drop_when oget_set_or_delete happy_value_def Let_def split: jv.splits)
  next
    case 2
    then have "oget (sockopt_scalars raw) k = oget raw k"
      by (simp only: sockopt_scalars_def kill_drop_when kill_false_zero kill_seq kill_seq_str)
        (simp add: SOCKOPT_ZERO_def SOCKOPT_FALSE_def)
    then show ?thesis using 2
      by (simp add: sockopt_fields_scalars oget_drop_when oget_set_or_delete sockopt_default_def SOCKOPT_ZERO_def SOCKOPT_FALSE_def)
  next
    case 3
    then show ?thesis
      by (simp add: sockopt_fields_scalars oget_drop_when oget_set_or_delete sockopt_scalars_contract kill_def)
  qed
qed

lemma happy_idem:
  "normalizeHappyEyeballs (normalizeHappyEyeballs he) = normalizeHappyEyeballs he"
proof -
  have d: "drop_when k P (normalizeHappyEyeballs he) = normalizeHappyEyeballs he"
    if "\<not> P (oget (normalizeHappyEyeballs he) k)" for k P
    using that by (simp add: drop_when_def)
  show ?thesis
    unfolding normalizeHappyEyeballs_def [of "normalizeHappyEyeballs he"] Let_def
    by (subst d, simp add: normalizeHappyEyeballs_def Let_def oget_drop_when)+ simp
qed

lemma sockopt_default_happy [simp]: "\<not> sockopt_default ''happyEyeballs'' v"
  by (simp add: sockopt_default_def SOCKOPT_ZERO_def SOCKOPT_FALSE_def)

lemma sockopt_twice: "oget (sockopt_fields (sockopt_fields raw)) k = oget (sockopt_fields raw) k"
proof (cases "k = ''happyEyeballs''")
  case True
  then show ?thesis
    by (cases "oget raw k") (simp_all add: sockopt_contract happy_value_def happy_idem)
next
  case False
  then show ?thesis by (simp add: sockopt_contract)
qed

section \<open>Reality targets\<close>

lemma reality_host_port:
  assumes h: "host \<noteq> []" "\<forall>c \<in> set host. \<not> is_space c" "hd host \<noteq> CHR ''/''" "hd host \<noteq> CHR ''@''"
    and n: "int n \<le> 2 ^ 53"
  shows "validateRealityTarget (host @ CHR '':'' # nat_str n)
    = (if 1 \<le> n \<and> n \<le> 65535 then None else Some ''pages.inbounds.form.realityTargetInvalidPort'')"
proof -
  let ?t = "host @ CHR '':'' # nat_str n"
  have dg: "\<forall>c \<in> set (nat_str n). is_digit c" using nat_str_digits by blast
  have c: "\<not> is_digit CHR '':''" "\<not> is_space CHR '':''" by (simp_all add: is_digit_def is_space_def)
  have t: "trim ?t = ?t" using h(2) dg digit_not_space c by (intro trim_no_space) auto
  have nc: "CHR '':'' \<notin> set (nat_str n)" using dg c by blast
  have nd: "\<not> all_digits ?t" using c by (auto simp: all_digits_def)
  have ad: "all_digits (nat_str n)" using dg by (simp add: all_digits_def)
  have p: "port_ok (nat_str n) \<longleftrightarrow> 1 \<le> n \<and> n \<le> 65535"
    using n by (auto simp: port_ok_def)
  have "\<not> starts_with ?t ''/''" "\<not> starts_with ?t ''@''" using h(1,3,4) by (cases host; simp)+
  then show ?thesis
    using h(1) nd ad p by (simp add: validateRealityTarget_def t last_index_of_append [OF nc] Let_def)
qed

section \<open>Properties\<close>

text \<open>Every xhttp field is dropped exactly by the rules of its kind (mode, side, emptiness,
  default value) read off the input object, and keeps its value otherwise, except that an
  \<open>xmux\<close> record never keeps both of its exclusive limits.\<close>

theorem xhttp_field_contract:
  "oget (normalizeXhttpForWire raw sd) k = (if xhttp_dropped raw sd k then JUndef else xhttp_value raw k)
   \<and> \<not> (num_less (Fin 0) (int32RangeUpper (oget (resolveXmuxExclusivity x) ''maxConnections''))
        \<and> num_less (Fin 0) (int32RangeUpper (oget (resolveXmuxExclusivity x) ''maxConcurrency'')))"
  using xhttp_contract resolve_exclusive by blast

text \<open>Normalising stored xhttp settings again changes no field: always on the outbound
  side, and on the inbound side unless the form's \<open>enableXmux\<close> switch was on.\<close>

theorem xhttp_normalize_idempotent:
  assumes "sd = Outbound \<or> oget raw ''enableXmux'' \<noteq> JBool True"
  shows "oget (normalizeXhttpForWire (normalizeXhttpForWire raw sd) sd) k = oget (normalizeXhttpForWire raw sd) k"
  by (rule xhttp_twice [OF assms])

theorem xhttp_normalize_idempotent_witness:
  "oget (normalizeXhttpForWire (normalizeXhttpForWire [(''mode'', JStr ''stream-up''), (''scMaxEachPostBytes'', JNum (num 1))] Inbound) Inbound) ''scMaxEachPostBytes''
    = oget (normalizeXhttpForWire [(''mode'', JStr ''stream-up''), (''scMaxEachPostBytes'', JNum (num 1))] Inbound) ''scMaxEachPostBytes''"
  by (rule xhttp_normalize_idempotent) (simp add: oget_def)

text \<open>A sockopt field survives normalisation exactly where it does not hold its default,
  nothing else is changed, a block with nothing left is reported absent, and normalising the
  result again changes nothing.\<close>

theorem sockopt_field_contract:
  "(case normalizeSockoptForWire raw of
      None \<Rightarrow> sockopt_default k (oget raw k)
        \<or> (if k = ''happyEyeballs'' then happy_value (oget raw k) else oget raw k) = JUndef
    | Some out \<Rightarrow> out \<noteq> []
        \<and> oget out k = (if sockopt_default k (oget raw k) then JUndef
            else if k = ''happyEyeballs'' then happy_value (oget raw k) else oget raw k)
        \<and> oget (sockopt_fields out) k = oget out k)"
proof (cases "okeys (sockopt_fields raw) = []")
  case True
  then have "oget (sockopt_fields raw) k = JUndef" by (simp add: oget_def)
  then have "sockopt_default k (oget raw k)
      \<or> (if k = ''happyEyeballs'' then happy_value (oget raw k) else oget raw k) = JUndef"
    unfolding sockopt_contract by metis
  then show ?thesis using True by (simp add: normalizeSockoptForWire_def)
next
  case False
  then show ?thesis
    unfolding normalizeSockoptForWire_def Let_def
    by (simp only: if_False option.case sockopt_twice) (simp add: sockopt_contract [of raw])
qed

text \<open>A Reality target \<open>host:port\<close> is accepted exactly where the port is between 1 and
  65535; the host may contain colons.\<close>

theorem reality_target_port_range:
  assumes "host \<noteq> []" "\<forall>c \<in> set host. \<not> is_space c" "hd host \<noteq> CHR ''/''" "hd host \<noteq> CHR ''@''"
    and "int n \<le> 2 ^ 53"
  shows "validateRealityTarget (host @ CHR '':'' # nat_str n)
    = (if 1 \<le> n \<and> n \<le> 65535 then None else Some ''pages.inbounds.form.realityTargetInvalidPort'')"
  by (rule reality_host_port [OF assms])

theorem reality_target_port_range_witness:
  "validateRealityTarget (''a.b'' @ CHR '':'' # nat_str 65536)
    = (if 1 \<le> (65536 :: nat) \<and> 65536 \<le> (65535 :: nat) then None else Some ''pages.inbounds.form.realityTargetInvalidPort'')"
  by (rule reality_target_port_range) (simp_all add: is_space_def)

end
