(* ===== verification/Outbound_Form.thy ===== *)
theory Outbound_Form
  imports Wire_Normalize Wireguard_Keys
begin

text \<open>
  \<open>frontend/src/lib/xray/outbound-form-adapter.ts\<close> with the form types of
  \<open>frontend/src/schemas/forms/outbound-form.ts\<close>: reading a stored outbound into the typed
  form of the editor (\<open>\<dots>FromWire\<close>, total on any JSON value except that a malformed
  WireGuard key throws) and writing the form back (\<open>\<dots>ToWire\<close>). A property an object
  literal sets to \<open>undefined\<close> is present with the value \<^const>\<open>JUndef\<close>, as in the source.
\<close>

named_theorems from_wire \<open>readers of stored outbounds\<close>
named_theorems to_wire \<open>writers of stored outbounds\<close>

section \<open>Reading values\<close>

definition asObject :: "jv \<Rightarrow> jobj" where
  "asObject value = (case value of JObj ps \<Rightarrow> ps | _ \<Rightarrow> [])"

definition asArray :: "jv \<Rightarrow> jv list" where
  "asArray value = (case value of JArr xs \<Rightarrow> xs | _ \<Rightarrow> [])"

definition asString_or :: "string \<Rightarrow> jv \<Rightarrow> string" where
  "asString_or fallback value = (case value of JStr s \<Rightarrow> s | _ \<Rightarrow> fallback)"

abbreviation asString :: "jv \<Rightarrow> string" where
  "asString \<equiv> asString_or []"

definition asNumber :: "jv \<Rightarrow> jsnum \<Rightarrow> jsnum" where
  "asNumber value fallback =
     (case value of
        JNum n \<Rightarrow> if is_finite n then n else fallback
      | JStr s \<Rightarrow> if trim s \<noteq> [] then (if is_finite (js_number s) then js_number s else fallback) else fallback
      | _ \<Rightarrow> fallback)"

definition asBool :: "jv \<Rightarrow> bool" where
  "asBool value = (value = JBool True)"

definition asPort :: "jv \<Rightarrow> jsnum \<Rightarrow> jsnum" where
  "asPort value fallback =
     (let n = asNumber value fallback
      in if \<not> is_integer n \<or> num_less n (num 1) \<or> num_less (num 65535) n then fallback else n)"

text \<open>\<open>arr[0]\<close>.\<close>

definition first_elem :: "jv list \<Rightarrow> jv" where
  "first_elem xs = (case xs of [] \<Rightarrow> JUndef | x # _ \<Rightarrow> x)"

text \<open>\<open>a ?? b\<close>.\<close>

definition or_else :: "jv \<Rightarrow> jv \<Rightarrow> jv" where
  "or_else a b = (if nullish a then b else a)"

definition one_of :: "string list \<Rightarrow> string \<Rightarrow> string \<Rightarrow> string" where
  "one_of allowed s fallback = (if s \<in> set allowed then s else fallback)"

text \<open>\<open>String(x)\<close>.\<close>

fun js_String :: "jv \<Rightarrow> string" where
  "js_String JUndef = ''undefined''"
| "js_String JNull = ''null''"
| "js_String (JBool b) = (if b then ''true'' else ''false'')"
| "js_String (JNum n) = num_str n"
| "js_String (JStr s) = s"
| "js_String (JArr xs) = join '','' (map (\<lambda>x. if nullish x then [] else js_String x) xs)"
| "js_String (JObj ps) = ''[object Object]''"

definition own_props :: "jv \<Rightarrow> jobj option" where
  "own_props v =
     (case v of
        JObj ps \<Rightarrow> Some ps
      | JArr xs \<Rightarrow> Some (zip (map nat_str [0..<length xs]) xs)
      | _ \<Rightarrow> None)"

section \<open>Form types\<close>

record sniffing =
  sn_enabled :: bool
  sn_destOverride :: "string list"
  sn_metadataOnly :: bool
  sn_routeOnly :: bool
  sn_ipsExcluded :: "string list"
  sn_domainsExcluded :: "string list"

record vmess_form =
  vm_address :: string
  vm_port :: jsnum
  vm_id :: string
  vm_security :: string

record vless_form =
  vl_address :: string
  vl_port :: jsnum
  vl_id :: string
  vl_flow :: string
  vl_encryption :: string
  vl_reverseTag :: string
  vl_reverseSniffing :: sniffing
  vl_testpre :: jsnum
  vl_testseed :: "jsnum list"

record trojan_form =
  tj_address :: string
  tj_port :: jsnum
  tj_password :: string

record shadowsocks_form =
  ss_address :: string
  ss_port :: jsnum
  ss_password :: string
  ss_method :: string
  ss_uot :: bool
  ss_UoTVersion :: jsnum

record simple_auth_form =
  sa_address :: string
  sa_port :: jsnum
  sa_user :: string
  sa_pass :: string

record wireguard_peer =
  wp_publicKey :: string
  wp_psk :: string
  wp_allowedIPs :: "string list"
  wp_endpoint :: string
  wp_keepAlive :: jsnum

record wireguard_form =
  wf_mtu :: jsnum
  wf_secretKey :: string
  wf_pubKey :: string
  wf_address :: string
  wf_domainStrategy :: string
  wf_reserved :: string
  wf_peers :: "wireguard_peer list"
  wf_noKernelTun :: bool

record hysteria_form =
  hy_address :: string
  hy_port :: jsnum
  hy_version :: jsnum

record freedom_noise =
  fn_type :: string
  fn_packet :: string
  fn_delay :: string
  fn_applyTo :: string

record freedom_fragment =
  ff_packets :: string
  ff_length :: string
  ff_interval :: string
  ff_maxSplit :: string

record final_rule =
  fr_action :: string
  fr_network :: string
  fr_port :: string
  fr_ip :: "string list"
  fr_blockDelay :: string

record freedom_form =
  fd_domainStrategy :: string
  fd_redirect :: string
  fd_userLevel :: jsnum
  fd_proxyProtocol :: jsnum
  fd_fragment :: "freedom_fragment option"
  fd_noises :: "freedom_noise list"
  fd_finalRules :: "final_rule list"

record dns_rule =
  dr_action :: string
  dr_qType :: string
  dr_domain :: string
  dr_rCode :: jsnum

record dns_form =
  dn_rewriteNetwork :: string
  dn_rewriteAddress :: string
  dn_rewritePort :: jsnum
  dn_userLevel :: jsnum
  dn_rules :: "dns_rule list"

record loopback_form =
  lb_inboundTag :: string
  lb_sniffing :: sniffing

record mux_form =
  mx_enabled :: bool
  mx_concurrency :: jsnum
  mx_xudpConcurrency :: jsnum
  mx_xudpProxyUDP443 :: string

datatype outbound_settings =
    OVmess vmess_form
  | OVless vless_form
  | OTrojan trojan_form
  | OShadowsocks shadowsocks_form
  | OSocks simple_auth_form
  | OHttp simple_auth_form
  | OWireguard wireguard_form
  | OHysteria hysteria_form
  | OFreedom freedom_form
  | OBlackhole string
  | ODns dns_form
  | OLoopback loopback_form

record outbound_form =
  of_settings :: outbound_settings
  of_tag :: string
  of_sendThrough :: string
  of_mux :: "mux_form option"
  of_stream :: "jobj option"

section \<open>Stored outbound to form\<close>

definition SNIFFING_DEST_VALUES :: "string list" where
  "SNIFFING_DEST_VALUES = [''http'', ''tls'', ''quic'', ''fakedns'']"

definition SNIFFING_DEFAULT :: sniffing where
  "SNIFFING_DEFAULT = \<lparr>sn_enabled = False, sn_destOverride = SNIFFING_DEST_VALUES, sn_metadataOnly = False,
     sn_routeOnly = False, sn_ipsExcluded = [], sn_domainsExcluded = []\<rparr>"

definition strings_of :: "jv \<Rightarrow> string list" where
  "strings_of v = map asString (asArray v)"

definition sniffingFromWire :: "jv \<Rightarrow> sniffing" where
  "sniffingFromWire raw =
     (let r = asObject raw;
          dest = filter (\<lambda>x. x \<in> set SNIFFING_DEST_VALUES) (strings_of (oget r ''destOverride''))
      in \<lparr>sn_enabled = asBool (oget r ''enabled''),
          sn_destOverride = (if dest \<noteq> [] then dest else SNIFFING_DEST_VALUES),
          sn_metadataOnly = asBool (oget r ''metadataOnly''),
          sn_routeOnly = asBool (oget r ''routeOnly''),
          sn_ipsExcluded = strings_of (oget r ''ipsExcluded''),
          sn_domainsExcluded = strings_of (oget r ''domainsExcluded'')\<rparr>)"

definition vmessFromWire :: "jobj \<Rightarrow> vmess_form" where
  "vmessFromWire raw =
     (let v = asObject (first_elem (asArray (oget raw ''vnext'')));
          u = asObject (first_elem (asArray (oget v ''users'')))
      in \<lparr>vm_address = asString (oget v ''address''),
          vm_port = asPort (oget v ''port'') (num 443),
          vm_id = asString (oget u ''id''),
          vm_security = one_of [''aes-128-gcm'', ''chacha20-poly1305'', ''auto'', ''none'', ''zero'']
            (asString (oget u ''security'')) ''auto''\<rparr>)"

definition positive_int :: "jsnum \<Rightarrow> bool" where
  "positive_int n \<longleftrightarrow> is_integer n \<and> num_less (Fin 0) n"

definition DEFAULT_TESTSEED :: "jsnum list" where
  "DEFAULT_TESTSEED = [num 900, num 500, num 900, num 256]"

definition saved_testseed :: "jv \<Rightarrow> jsnum list" where
  "saved_testseed v =
     (let ns = List.map_filter (\<lambda>x. case x of JNum n \<Rightarrow> if positive_int n then Some n else None | _ \<Rightarrow> None) (asArray v)
      in if length (asArray v) = 4 \<and> length ns = 4 then ns else DEFAULT_TESTSEED)"

definition vlessFromWire :: "jobj \<Rightarrow> vless_form" where
  "vlessFromWire raw =
     (let vnext = asArray (oget raw ''vnext'');
          v = asObject (first_elem vnext);
          u = asObject (first_elem (asArray (oget v ''users'')));
          (server, user) = (if vnext \<noteq> [] then (v, u) else (raw, raw));
          encryption = asString_or ''none'' (oget user ''encryption'');
          reverse = asObject (oget raw ''reverse'');
          reverseTag = asString (oget reverse ''tag'')
      in \<lparr>vl_address = asString (oget server ''address''),
          vl_port = asPort (oget server ''port'') (num 443),
          vl_id = asString (oget user ''id''),
          vl_flow = asString (oget user ''flow''),
          vl_encryption = (if encryption \<noteq> [] then encryption else ''none''),
          vl_reverseTag = reverseTag,
          vl_reverseSniffing = (if reverseTag \<noteq> [] then sniffingFromWire (oget reverse ''sniffing'') else SNIFFING_DEFAULT),
          vl_testpre = asNumber (oget raw ''testpre'') (num 0),
          vl_testseed = saved_testseed (oget raw ''testseed'')\<rparr>)"

definition first_server :: "jobj \<Rightarrow> jobj" where
  "first_server raw = asObject (first_elem (asArray (oget raw ''servers'')))"

definition trojanFromWire :: "jobj \<Rightarrow> trojan_form" where
  "trojanFromWire raw =
     (let s = first_server raw
      in \<lparr>tj_address = asString (oget s ''address''), tj_port = asPort (oget s ''port'') (num 443),
          tj_password = asString (oget s ''password'')\<rparr>)"

definition shadowsocksFromWire :: "jobj \<Rightarrow> shadowsocks_form" where
  "shadowsocksFromWire raw =
     (let s = first_server raw
      in \<lparr>ss_address = asString (oget s ''address''), ss_port = asPort (oget s ''port'') (num 443),
          ss_password = asString (oget s ''password''),
          ss_method = asString_or ''2022-blake3-aes-128-gcm'' (oget s ''method''),
          ss_uot = asBool (oget s ''uot''),
          ss_UoTVersion = asNumber (oget s ''UoTVersion'') (num 1)\<rparr>)"

definition simpleAuthFromWire :: "jobj \<Rightarrow> jsnum \<Rightarrow> simple_auth_form" where
  "simpleAuthFromWire raw defaultPort =
     (let s = first_server raw; u = asObject (first_elem (asArray (oget s ''users'')))
      in \<lparr>sa_address = asString (oget s ''address''), sa_port = asPort (oget s ''port'') defaultPort,
          sa_user = asString (oget u ''user''), sa_pass = asString (oget u ''pass'')\<rparr>)"

definition num_or_string :: "jv \<Rightarrow> string" where
  "num_or_string x = (case x of JNum n \<Rightarrow> num_str n | _ \<Rightarrow> asString x)"

definition peerFromWire :: "jv \<Rightarrow> wireguard_peer" where
  "peerFromWire p =
     (let pp = asObject p; allowed = strings_of (oget pp ''allowedIPs'')
      in \<lparr>wp_publicKey = asString (oget pp ''publicKey''), wp_psk = asString (oget pp ''preSharedKey''),
          wp_allowedIPs = (if allowed \<noteq> [] then allowed else [''0.0.0.0/0'', ''::/0'']),
          wp_endpoint = asString (oget pp ''endpoint''),
          wp_keepAlive = asNumber (oget pp ''keepAlive'') (num 0)\<rparr>)"

text \<open>\<open>Wireguard.generateKeypair(secretKey).publicKey\<close>; it throws where \<open>atob\<close> does. No
  random byte is read when the key is given.\<close>

definition derived_pubKey :: "string \<Rightarrow> string option" where
  "derived_pubKey secretKey =
     (if length secretKey > 0 then map_option publicKey (generateKeypair (\<lambda>_. 0) secretKey) else Some [])"

definition wireguardFromWire :: "jobj \<Rightarrow> wireguard_form option" where
  "wireguardFromWire raw =
     (let secretKey = asString (oget raw ''secretKey'')
      in case derived_pubKey secretKey of
           None \<Rightarrow> None
         | Some pubKey \<Rightarrow> Some
             \<lparr>wf_mtu = asNumber (oget raw ''mtu'') (num 1420), wf_secretKey = secretKey, wf_pubKey = pubKey,
              wf_address = join '','' (map num_or_string (asArray (oget raw ''address''))),
              wf_domainStrategy = one_of [''ForceIP'', ''ForceIPv4'', ''ForceIPv4v6'', ''ForceIPv6'', ''ForceIPv6v4'']
                (asString (oget raw ''domainStrategy'')) [],
              wf_reserved = join '','' (map num_or_string (asArray (oget raw ''reserved''))),
              wf_peers = map peerFromWire (asArray (oget raw ''peers'')),
              wf_noKernelTun = asBool (oget raw ''noKernelTun'')\<rparr>)"

definition hysteriaFromWire :: "jobj \<Rightarrow> hysteria_form" where
  "hysteriaFromWire raw =
     \<lparr>hy_address = asString (oget raw ''address''), hy_port = asPort (oget raw ''port'') (num 443), hy_version = num 2\<rparr>"

definition noiseFromWire :: "jv \<Rightarrow> freedom_noise" where
  "noiseFromWire n =
     (let nn = asObject n
      in \<lparr>fn_type = asString_or ''rand'' (oget nn ''type''), fn_packet = asString_or ''10-20'' (oget nn ''packet''),
          fn_delay = asString_or ''10-16'' (oget nn ''delay''), fn_applyTo = asString_or ''ip'' (oget nn ''applyTo'')\<rparr>)"

text \<open>\<open>Array.isArray(v) ? v.map(asString).join(',') : asString(v)\<close>.\<close>

definition joined_strings :: "jv \<Rightarrow> string" where
  "joined_strings v = (case v of JArr xs \<Rightarrow> join '','' (map asString xs) | _ \<Rightarrow> asString v)"

definition finalRuleFromWire :: "jv \<Rightarrow> final_rule" where
  "finalRuleFromWire r =
     (let rr = asObject r
      in \<lparr>fr_action = (if asString_or ''block'' (oget rr ''action'') = ''allow'' then ''allow'' else ''block''),
          fr_network = joined_strings (oget rr ''network''),
          fr_port = asString (oget rr ''port''), fr_ip = strings_of (oget rr ''ip''),
          fr_blockDelay = asString (oget rr ''blockDelay'')\<rparr>)"

definition FREEDOM_STRATEGIES :: "string list" where
  "FREEDOM_STRATEGIES =
     [''AsIs'', ''UseIP'', ''UseIPv4'', ''UseIPv6'', ''UseIPv6v4'', ''UseIPv4v6'',
      ''ForceIP'', ''ForceIPv6v4'', ''ForceIPv6'', ''ForceIPv4v6'', ''ForceIPv4'']"

text \<open>An absent fragment leaves the four fields empty; a present one is shown as it is.\<close>

definition fragmentFromWire :: "jv \<Rightarrow> freedom_fragment" where
  "fragmentFromWire v =
     (let fragment = asObject v
      in if okeys fragment \<noteq> []
         then \<lparr>ff_packets = asString_or ''1-3'' (oget fragment ''packets''), ff_length = asString (oget fragment ''length''),
               ff_interval = asString (oget fragment ''interval''), ff_maxSplit = asString (oget fragment ''maxSplit'')\<rparr>
         else \<lparr>ff_packets = [], ff_length = [], ff_interval = [], ff_maxSplit = []\<rparr>)"

definition freedomFromWire :: "jobj \<Rightarrow> freedom_form" where
  "freedomFromWire raw =
     (let finalRules = map finalRuleFromWire (asArray (oget raw ''finalRules''));
          ipsBlocked = strings_of (oget raw ''ipsBlocked'');
          finalRules = (if finalRules = [] \<and> ipsBlocked \<noteq> []
            then [\<lparr>fr_action = ''block'', fr_network = [], fr_port = [], fr_ip = ipsBlocked, fr_blockDelay = []\<rparr>]
            else finalRules);
          n = asNumber (oget raw ''proxyProtocol'') (num 0)
      in \<lparr>fd_domainStrategy = one_of FREEDOM_STRATEGIES (asString (oget raw ''domainStrategy'')) [],
          fd_redirect = asString (oget raw ''redirect''),
          fd_userLevel = asNumber (oget raw ''userLevel'') (num 0),
          fd_proxyProtocol = (if n = num 1 \<or> n = num 2 then n else num 0),
          fd_fragment = Some (fragmentFromWire (oget raw ''fragment'')),
          fd_noises = map noiseFromWire (asArray (oget raw ''noises'')),
          fd_finalRules = finalRules\<rparr>)"

definition blackholeFromWire :: "jobj \<Rightarrow> string" where
  "blackholeFromWire raw =
     one_of [''none'', ''http''] (asString (oget (asObject (oget raw ''response'')) ''type'')) []"

definition DNS_ACTIONS :: "string list" where
  "DNS_ACTIONS = [''direct'', ''drop'', ''return'', ''hijack'']"

definition qTypeFromWire :: "jv \<Rightarrow> string" where
  "qTypeFromWire rawQType =
     (case rawQType of JArr xs \<Rightarrow> join '','' (map js_String xs) | JNum n \<Rightarrow> num_str n | _ \<Rightarrow> asString rawQType)"

definition dnsRuleFromWire :: "jv \<Rightarrow> dns_rule" where
  "dnsRuleFromWire raw =
     (let r = asObject raw; rawQType = or_else (oget r ''qType'') (oget r ''qtype'')
      in \<lparr>dr_action = one_of DNS_ACTIONS (asString_or ''direct'' (oget r ''action'')) ''direct'',
          dr_qType = qTypeFromWire rawQType, dr_domain = joined_strings (oget r ''domain''),
          dr_rCode = asNumber (oget r ''rCode'') (num 0)\<rparr>)"

definition dnsFromWire :: "jobj \<Rightarrow> dns_form" where
  "dnsFromWire raw =
     \<lparr>dn_rewriteNetwork = one_of [''udp'', ''tcp''] (asString (or_else (oget raw ''rewriteNetwork'') (oget raw ''network''))) [],
      dn_rewriteAddress = asString (or_else (oget raw ''rewriteAddress'') (oget raw ''address'')),
      dn_rewritePort = asPort (or_else (oget raw ''rewritePort'') (oget raw ''port'')) (num 53),
      dn_userLevel = asNumber (oget raw ''userLevel'') (num 0),
      dn_rules = map dnsRuleFromWire (asArray (oget raw ''rules''))\<rparr>"

definition loopbackFromWire :: "jobj \<Rightarrow> loopback_form" where
  "loopbackFromWire raw =
     \<lparr>lb_inboundTag = asString (oget raw ''inboundTag''), lb_sniffing = sniffingFromWire (oget raw ''sniffing'')\<rparr>"

definition muxFromWire :: "jv \<Rightarrow> mux_form" where
  "muxFromWire raw =
     (let m = asObject raw
      in \<lparr>mx_enabled = asBool (oget m ''enabled''),
          mx_concurrency = asNumber (oget m ''concurrency'') (num 8),
          mx_xudpConcurrency = asNumber (oget m ''xudpConcurrency'') (num 16),
          mx_xudpProxyUDP443 = one_of [''reject'', ''allow'', ''skip''] (asString_or ''reject'' (oget m ''xudpProxyUDP443'')) ''reject''\<rparr>)"

definition XMUX_DEFAULTS :: jobj where
  "XMUX_DEFAULTS = [(''maxConcurrency'', JStr ''16-32''), (''maxConnections'', JNum (num 0)),
     (''cMaxReuseTimes'', JNum (num 0)), (''hMaxRequestTimes'', JStr ''600-900''),
     (''hMaxReusableSecs'', JStr ''1800-3000''), (''hKeepAlivePeriod'', JNum (num 0))]"

definition hydrateStreamForm :: "jobj \<Rightarrow> jobj" where
  "hydrateStreamForm stream =
     at_record ''xhttpSettings'' (\<lambda>xhttp.
       (case oget xhttp ''xmux'' of
          JObj xmux \<Rightarrow> oset ''xmux'' (JObj (spread XMUX_DEFAULTS xmux)) (oset ''enableXmux'' (JBool True) xhttp)
        | _ \<Rightarrow> xhttp)) stream"

definition settingsFromWire :: "string \<Rightarrow> jobj \<Rightarrow> outbound_settings option" where
  "settingsFromWire protocol settings =
     (if protocol = ''vmess'' then Some (OVmess (vmessFromWire settings))
      else if protocol = ''vless'' then Some (OVless (vlessFromWire settings))
      else if protocol = ''trojan'' then Some (OTrojan (trojanFromWire settings))
      else if protocol = ''shadowsocks'' then Some (OShadowsocks (shadowsocksFromWire settings))
      else if protocol = ''socks'' then Some (OSocks (simpleAuthFromWire settings (num 1080)))
      else if protocol = ''http'' then Some (OHttp (simpleAuthFromWire settings (num 8080)))
      else if protocol = ''wireguard'' then map_option OWireguard (wireguardFromWire settings)
      else if protocol = ''hysteria'' then Some (OHysteria (hysteriaFromWire settings))
      else if protocol = ''freedom'' then Some (OFreedom (freedomFromWire settings))
      else if protocol = ''blackhole'' then Some (OBlackhole (blackholeFromWire settings))
      else if protocol = ''dns'' then Some (ODns (dnsFromWire settings))
      else if protocol = ''loopback'' then Some (OLoopback (loopbackFromWire settings))
      else Some (OVless (vlessFromWire settings)))"

definition rawOutboundToFormValues :: "jobj \<Rightarrow> outbound_form option" where
  "rawOutboundToFormValues raw =
     (let protocol = asString_or ''vless'' (oget raw ''protocol'');
          settings = asObject (oget raw ''settings'');
          streamSettings = (case own_props (oget raw ''streamSettings'') of
             Some ps \<Rightarrow> if okeys ps \<noteq> [] then Some (hydrateStreamForm ps) else None | None \<Rightarrow> None)
      in case settingsFromWire protocol settings of
           None \<Rightarrow> None
         | Some typed \<Rightarrow> Some \<lparr>of_settings = typed, of_tag = asString (oget raw ''tag''),
             of_sendThrough = asString (oget raw ''sendThrough''),
             of_mux = Some (muxFromWire (oget raw ''mux'')), of_stream = streamSettings\<rparr>)"

section \<open>Form to stored outbound\<close>

text \<open>\<open>cond ? v : undefined\<close>.\<close>

definition when_set :: "bool \<Rightarrow> jv \<Rightarrow> jv" where
  "when_set b v = (if b then v else JUndef)"

abbreviation str_list :: "string list \<Rightarrow> jv" where
  "str_list xs \<equiv> JArr (map JStr xs)"

text \<open>\<open>s.split(',').map((x) => x.trim()).filter(Boolean)\<close>.\<close>

definition comma_parts :: "string \<Rightarrow> string list" where
  "comma_parts s = filter (\<lambda>x. x \<noteq> []) (map trim (split_on CHR '','' s))"

definition vmessToWire :: "vmess_form \<Rightarrow> jobj" where
  "vmessToWire s =
     [(''vnext'', JArr [JObj [(''address'', JStr (vm_address s)), (''port'', JNum (vm_port s)),
        (''users'', JArr [JObj [(''id'', JStr (vm_id s)), (''security'', JStr (vm_security s))]])]])]"

definition sniffingToWire :: "sniffing \<Rightarrow> jobj" where
  "sniffingToWire s =
     [(''enabled'', JBool (sn_enabled s)), (''destOverride'', str_list (sn_destOverride s)),
      (''metadataOnly'', JBool (sn_metadataOnly s)), (''routeOnly'', JBool (sn_routeOnly s)),
      (''ipsExcluded'', when_set (sn_ipsExcluded s \<noteq> []) (str_list (sn_ipsExcluded s))),
      (''domainsExcluded'', when_set (sn_domainsExcluded s \<noteq> []) (str_list (sn_domainsExcluded s)))]"

text \<open>The source compares the two sniffing objects through \<open>JSON.stringify\<close>; they have the
  same keys in the same order, so their texts agree exactly where their values do.\<close>

definition vlessToWire :: "vless_form \<Rightarrow> jobj" where
  "vlessToWire s =
     (let result = [(''address'', JStr (vl_address s)), (''port'', JNum (vl_port s)), (''id'', JStr (vl_id s)),
            (''flow'', JStr (vl_flow s)), (''encryption'', JStr (if vl_encryption s \<noteq> [] then vl_encryption s else ''none''))];
          result = (if vl_reverseTag s \<noteq> [] then
              (let sn = sniffingToWire (vl_reverseSniffing s); defaultSn = sniffingToWire SNIFFING_DEFAULT
               in oset ''reverse'' (JObj [(''tag'', JStr (vl_reverseTag s)),
                    (''sniffing'', JObj (if sn = defaultSn then [] else sn))]) result)
            else result)
      in if vl_flow s = ''xtls-rprx-vision'' then
           (let result = (if num_less (Fin 0) (vl_testpre s) then oset ''testpre'' (JNum (vl_testpre s)) result else result)
            in if length (vl_testseed s) = 4 \<and> (\<forall>v \<in> set (vl_testseed s). positive_int v)
               then oset ''testseed'' (JArr (map JNum (vl_testseed s))) result else result)
         else result)"

definition trojanToWire :: "trojan_form \<Rightarrow> jobj" where
  "trojanToWire s =
     [(''servers'', JArr [JObj [(''address'', JStr (tj_address s)), (''port'', JNum (tj_port s)),
        (''password'', JStr (tj_password s))]])]"

definition shadowsocksToWire :: "shadowsocks_form \<Rightarrow> jobj" where
  "shadowsocksToWire s =
     [(''servers'', JArr [JObj [(''address'', JStr (ss_address s)), (''port'', JNum (ss_port s)),
        (''password'', JStr (ss_password s)), (''method'', JStr (ss_method s)), (''uot'', JBool (ss_uot s)),
        (''UoTVersion'', JNum (ss_UoTVersion s))]])]"

definition simpleAuthToWire :: "simple_auth_form \<Rightarrow> jobj" where
  "simpleAuthToWire s =
     [(''servers'', JArr [JObj [(''address'', JStr (sa_address s)), (''port'', JNum (sa_port s)),
        (''users'', JArr (if sa_user s \<noteq> []
           then [JObj [(''user'', JStr (sa_user s)), (''pass'', JStr (sa_pass s))]] else []))]])]"

definition peerToWire :: "wireguard_peer \<Rightarrow> jv" where
  "peerToWire p =
     JObj [(''publicKey'', JStr (wp_publicKey p)), (''preSharedKey'', when_set (length (wp_psk p) > 0) (JStr (wp_psk p))),
       (''allowedIPs'', when_set (wp_allowedIPs p \<noteq> []) (str_list (wp_allowedIPs p))),
       (''endpoint'', JStr (wp_endpoint p)),
       (''keepAlive'', when_set (num_truthy (wp_keepAlive p)) (JNum (wp_keepAlive p)))]"

definition reserved_numbers :: "string \<Rightarrow> jsnum list" where
  "reserved_numbers s = filter is_finite (map (\<lambda>x. js_number (trim x)) (split_on CHR '','' s))"

definition wireguardToWire :: "wireguard_form \<Rightarrow> jobj" where
  "wireguardToWire s =
     [(''mtu'', when_set (num_truthy (wf_mtu s)) (JNum (wf_mtu s))), (''secretKey'', JStr (wf_secretKey s)),
      (''address'', str_list (if wf_address s \<noteq> [] then comma_parts (wf_address s) else [])),
      (''domainStrategy'', when_set (wf_domainStrategy s \<noteq> []) (JStr (wf_domainStrategy s))),
      (''reserved'', when_set (wf_reserved s \<noteq> []) (JArr (map JNum (reserved_numbers (wf_reserved s))))),
      (''peers'', JArr (map peerToWire (wf_peers s))), (''noKernelTun'', JBool (wf_noKernelTun s))]"

definition hysteriaToWire :: "hysteria_form \<Rightarrow> jobj" where
  "hysteriaToWire s =
     [(''address'', JStr (hy_address s)), (''port'', JNum (hy_port s)), (''version'', JNum (hy_version s))]"

definition fragment_entries :: "freedom_fragment \<Rightarrow> jobj" where
  "fragment_entries f =
     filter (\<lambda>(k, v). v \<noteq> JStr [])
       [(''packets'', JStr (ff_packets f)), (''length'', JStr (ff_length f)),
        (''interval'', JStr (ff_interval f)), (''maxSplit'', JStr (ff_maxSplit f))]"

definition fragment_enabled :: "freedom_fragment \<Rightarrow> bool" where
  "fragment_enabled f \<longleftrightarrow> ff_length f \<noteq> [] \<or> ff_interval f \<noteq> [] \<or> ff_maxSplit f \<noteq> []"

definition fragmentToWire :: "freedom_fragment option \<Rightarrow> jv" where
  "fragmentToWire fo =
     (case fo of None \<Rightarrow> JUndef | Some f \<Rightarrow> when_set (fragment_enabled f) (JObj (fragment_entries f)))"

definition finalRuleToWire :: "final_rule \<Rightarrow> jv" where
  "finalRuleToWire r =
     JObj [(''action'', JStr (fr_action r)), (''network'', when_set (fr_network r \<noteq> []) (JStr (fr_network r))),
       (''port'', when_set (fr_port r \<noteq> []) (JStr (fr_port r))),
       (''ip'', when_set (fr_ip r \<noteq> []) (str_list (fr_ip r))),
       (''blockDelay'', when_set (fr_action r = ''block'' \<and> fr_blockDelay r \<noteq> []) (JStr (fr_blockDelay r)))]"

definition noiseToWire :: "freedom_noise \<Rightarrow> jv" where
  "noiseToWire n =
     JObj [(''type'', JStr (fn_type n)), (''packet'', JStr (fn_packet n)), (''delay'', JStr (fn_delay n)),
       (''applyTo'', JStr (fn_applyTo n))]"

definition freedomToWire :: "freedom_form \<Rightarrow> jobj" where
  "freedomToWire s =
     [(''domainStrategy'', when_set (fd_domainStrategy s \<noteq> []) (JStr (fd_domainStrategy s))),
      (''redirect'', when_set (fd_redirect s \<noteq> []) (JStr (fd_redirect s))),
      (''userLevel'', when_set (num_truthy (fd_userLevel s)) (JNum (fd_userLevel s))),
      (''proxyProtocol'', when_set (num_truthy (fd_proxyProtocol s)) (JNum (fd_proxyProtocol s))),
      (''fragment'', fragmentToWire (fd_fragment s)),
      (''noises'', when_set (fd_noises s \<noteq> []) (JArr (map noiseToWire (fd_noises s)))),
      (''finalRules'', when_set (fd_finalRules s \<noteq> []) (JArr (map finalRuleToWire (fd_finalRules s))))]"

definition blackholeToWire :: "string \<Rightarrow> jobj" where
  "blackholeToWire t = [(''response'', when_set (t \<noteq> []) (JObj [(''type'', JStr t)]))]"

definition dnsRuleToWire :: "dns_rule \<Rightarrow> jv" where
  "dnsRuleToWire r =
     (let result = [(''action'', JStr (one_of DNS_ACTIONS (dr_action r) ''direct''))];
          qType = trim (dr_qType r);
          result = (if qType \<noteq> [] then
              oset ''qType'' (if all_digits qType then JNum (js_number qType) else JStr qType) result else result);
          domains = comma_parts (dr_domain r);
          result = (if domains \<noteq> [] then oset ''domain'' (str_list domains) result else result)
      in JObj (if num_less (Fin 0) (dr_rCode r) then oset ''rCode'' (JNum (dr_rCode r)) result else result))"

definition dnsToWire :: "dns_form \<Rightarrow> jobj" where
  "dnsToWire s =
     (let result = [];
          result = (if dn_rewriteNetwork s \<noteq> [] then oset ''rewriteNetwork'' (JStr (dn_rewriteNetwork s)) result else result);
          result = (if dn_rewriteAddress s \<noteq> [] then oset ''rewriteAddress'' (JStr (dn_rewriteAddress s)) result else result);
          result = (if num_truthy (dn_rewritePort s) then oset ''rewritePort'' (JNum (dn_rewritePort s)) result else result);
          result = (if num_truthy (dn_userLevel s) then oset ''userLevel'' (JNum (dn_userLevel s)) result else result)
      in if dn_rules s \<noteq> [] then oset ''rules'' (JArr (map dnsRuleToWire (dn_rules s))) result else result)"

definition loopbackToWire :: "loopback_form \<Rightarrow> jobj" where
  "loopbackToWire s =
     (let result = [(''inboundTag'', when_set (lb_inboundTag s \<noteq> []) (JStr (lb_inboundTag s)))]
      in if sn_enabled (lb_sniffing s) then oset ''sniffing'' (JObj (sniffingToWire (lb_sniffing s))) result else result)"

definition muxToWire :: "mux_form \<Rightarrow> jobj" where
  "muxToWire m =
     [(''enabled'', JBool (mx_enabled m)), (''concurrency'', JNum (mx_concurrency m)),
      (''xudpConcurrency'', JNum (mx_xudpConcurrency m)), (''xudpProxyUDP443'', JStr (mx_xudpProxyUDP443 m))]"

definition MUX_PROTOCOLS :: "string list" where
  "MUX_PROTOCOLS = [''vmess'', ''vless'', ''trojan'', ''shadowsocks'', ''http'', ''socks'']"

definition STREAM_PROTOCOLS :: "string list" where
  "STREAM_PROTOCOLS = [''vmess'', ''vless'', ''trojan'', ''shadowsocks'', ''hysteria'']"

definition drop_empty_entries :: "jobj \<Rightarrow> jobj" where
  "drop_empty_entries ob = fold (\<lambda>(k, v) out. if v = JStr [] then out else oset k v out) ob []"

definition stripUiOnlyStreamFields :: "jobj \<Rightarrow> jobj" where
  "stripUiOnlyStreamFields stream =
     (let next = (case own_props (oget stream ''xhttpSettings'') of
          None \<Rightarrow> stream
        | Some cleaned \<Rightarrow>
            (let xmuxEnabled = (oget cleaned ''enableXmux'' = JBool True);
                 cleaned = odel ''enableXmux'' cleaned;
                 cleaned = (if \<not> xmuxEnabled then odel ''xmux'' cleaned else cleaned)
             in oset ''xhttpSettings'' (JObj (drop_empty_entries cleaned)) stream))
      in normalizeStreamSettingsForWire next Outbound)"

fun protocol_name :: "outbound_settings \<Rightarrow> string" where
  "protocol_name (OVmess _) = ''vmess''"
| "protocol_name (OVless _) = ''vless''"
| "protocol_name (OTrojan _) = ''trojan''"
| "protocol_name (OShadowsocks _) = ''shadowsocks''"
| "protocol_name (OSocks _) = ''socks''"
| "protocol_name (OHttp _) = ''http''"
| "protocol_name (OWireguard _) = ''wireguard''"
| "protocol_name (OHysteria _) = ''hysteria''"
| "protocol_name (OFreedom _) = ''freedom''"
| "protocol_name (OBlackhole _) = ''blackhole''"
| "protocol_name (ODns _) = ''dns''"
| "protocol_name (OLoopback _) = ''loopback''"

definition form_flow :: "outbound_settings \<Rightarrow> string" where
  "form_flow s = (case s of OVless v \<Rightarrow> vl_flow v | _ \<Rightarrow> [])"

definition muxAllowed :: "outbound_form \<Rightarrow> bool" where
  "muxAllowed values =
     (if protocol_name (of_settings values) \<notin> set MUX_PROTOCOLS then False
      else if form_flow (of_settings values) \<noteq> [] then False
      else (case of_stream values of None \<Rightarrow> True | Some st \<Rightarrow> oget st ''network'' \<noteq> JStr ''xhttp''))"

fun settingsToWire :: "outbound_settings \<Rightarrow> jobj" where
  "settingsToWire (OVmess s) = vmessToWire s"
| "settingsToWire (OVless s) = vlessToWire s"
| "settingsToWire (OTrojan s) = trojanToWire s"
| "settingsToWire (OShadowsocks s) = shadowsocksToWire s"
| "settingsToWire (OSocks s) = simpleAuthToWire s"
| "settingsToWire (OHttp s) = simpleAuthToWire s"
| "settingsToWire (OWireguard s) = wireguardToWire s"
| "settingsToWire (OHysteria s) = hysteriaToWire s"
| "settingsToWire (OFreedom s) = freedomToWire s"
| "settingsToWire (OBlackhole s) = blackholeToWire s"
| "settingsToWire (ODns s) = dnsToWire s"
| "settingsToWire (OLoopback s) = loopbackToWire s"

definition formValuesToWirePayload :: "outbound_form \<Rightarrow> jobj" where
  "formValuesToWirePayload values =
     (let protocol = protocol_name (of_settings values);
          result = [(''protocol'', JStr protocol), (''settings'', JObj (settingsToWire (of_settings values)))];
          result = (if of_tag values \<noteq> [] then oset ''tag'' (JStr (of_tag values)) result else result);
          result = (case of_stream values of None \<Rightarrow> result
            | Some st \<Rightarrow>
                if protocol \<in> set STREAM_PROTOCOLS
                then oset ''streamSettings'' (JObj (stripUiOnlyStreamFields st)) result
                else if truthy (oget st ''sockopt'')
                then oset ''streamSettings'' (JObj [(''sockopt'', oget st ''sockopt'')]) result
                else result);
          result = (if of_sendThrough values \<noteq> [] then oset ''sendThrough'' (JStr (of_sendThrough values)) result else result)
      in case of_mux values of None \<Rightarrow> result
         | Some m \<Rightarrow> if mx_enabled m \<and> muxAllowed values then oset ''mux'' (JObj (muxToWire m)) result else result)"

end
