(* ===== verification/Client_Defaults.thy ===== *)
theory Client_Defaults
  imports Random_Util Wireguard_Keys Outbound_Form
begin

text \<open>
  The factories of \<open>frontend/src/lib/xray/inbound-defaults.ts\<close> and
  \<open>outbound-defaults.ts\<close>. Clients and settings are objects with the keys in the order of the
  source; a value drawn at random is an effect of the state monad, drawn in the source's
  order of evaluation. The browser's own UUID generator is the parameter \<open>uuid\<close>.
\<close>

section \<open>Clients\<close>

text \<open>A property of a seed that is \<open>undefined\<close> is \<^const>\<open>None\<close>.\<close>

record client_seed =
  sd_email :: "string option"
  sd_subId :: "string option"
  sd_limitIp :: "jsnum option"
  sd_totalGB :: "jsnum option"
  sd_expiryTime :: "jsnum option"
  sd_enable :: "bool option"
  sd_tgId :: "jsnum option"
  sd_comment :: "string option"
  sd_reset :: "jsnum option"

definition empty_seed :: client_seed where
  "empty_seed = \<lparr>sd_email = None, sd_subId = None, sd_limitIp = None, sd_totalGB = None, sd_expiryTime = None,
     sd_enable = None, sd_tgId = None, sd_comment = None, sd_reset = None\<rparr>"

text \<open>\<open>a ?? b\<close>, with \<open>b\<close> a constant or a draw.\<close>

definition default_to :: "'a \<Rightarrow> 'a option \<Rightarrow> 'a" where
  "default_to d a = (case a of Some x \<Rightarrow> x | None \<Rightarrow> d)"

definition or_draw :: "'a option \<Rightarrow> 'a rand \<Rightarrow> 'a rand" where
  "or_draw a m = (case a of Some x \<Rightarrow> State_Monad.return x | None \<Rightarrow> m)"

definition clientBase :: "client_seed \<Rightarrow> jobj rand" where
  "clientBase seed = do {
     email \<leftarrow> or_draw (sd_email seed) (randomLowerAndNum 10);
     subId \<leftarrow> or_draw (sd_subId seed) (randomLowerAndNum 16);
     State_Monad.return
      [(''email'', JStr email), (''limitIp'', JNum (default_to (num 0) (sd_limitIp seed))),
       (''totalGB'', JNum (default_to (num 0) (sd_totalGB seed))),
       (''expiryTime'', JNum (default_to (num 0) (sd_expiryTime seed))),
       (''enable'', JBool (default_to True (sd_enable seed))), (''tgId'', JNum (default_to (num 0) (sd_tgId seed))),
       (''subId'', JStr subId), (''comment'', JStr (default_to [] (sd_comment seed))),
       (''reset'', JNum (default_to (num 0) (sd_reset seed)))]
   }"

definition createDefaultVlessClient :: "string rand \<Rightarrow> string option \<Rightarrow> string option \<Rightarrow> client_seed \<Rightarrow> jobj rand" where
  "createDefaultVlessClient uuid id_seed flow seed = do {
     i \<leftarrow> or_draw id_seed uuid;
     base \<leftarrow> clientBase seed;
     State_Monad.return ([(''id'', JStr i), (''flow'', JStr (default_to [] flow))] @ base)
   }"

definition createDefaultVmessClient :: "string rand \<Rightarrow> string option \<Rightarrow> string option \<Rightarrow> client_seed \<Rightarrow> jobj rand" where
  "createDefaultVmessClient uuid id_seed security seed = do {
     i \<leftarrow> or_draw id_seed uuid;
     base \<leftarrow> clientBase seed;
     State_Monad.return ([(''id'', JStr i), (''security'', JStr (default_to ''auto'' security)), (''alterId'', JNum (num 0))] @ base)
   }"

definition createDefaultTrojanClient :: "string option \<Rightarrow> client_seed \<Rightarrow> jobj rand" where
  "createDefaultTrojanClient password seed = do {
     p \<leftarrow> or_draw password (randomSeq 10);
     base \<leftarrow> clientBase seed;
     State_Monad.return ([(''password'', JStr p)] @ base)
   }"

definition createDefaultShadowsocksClient ::
    "string option \<Rightarrow> string option \<Rightarrow> string option \<Rightarrow> client_seed \<Rightarrow> jobj rand" where
  "createDefaultShadowsocksClient method password ssMethod seed = do {
     p \<leftarrow> or_draw password (randomShadowsocksPassword (default_to ''2022-blake3-aes-256-gcm'' ssMethod));
     base \<leftarrow> clientBase seed;
     State_Monad.return ([(''method'', JStr (default_to [] method)), (''password'', JStr p)] @ base)
   }"

definition createDefaultHysteriaClient :: "string option \<Rightarrow> client_seed \<Rightarrow> jobj rand" where
  "createDefaultHysteriaClient auth seed = do {
     a \<leftarrow> or_draw auth (randomSeq 10);
     base \<leftarrow> clientBase seed;
     State_Monad.return ([(''auth'', JStr a)] @ base)
   }"

section \<open>Inbound settings\<close>

definition createDefaultVlessInboundSettings :: jobj where
  "createDefaultVlessInboundSettings =
     [(''clients'', JArr []), (''decryption'', JStr ''none''), (''encryption'', JStr ''none''), (''fallbacks'', JArr [])]"

definition createDefaultVmessInboundSettings :: jobj where
  "createDefaultVmessInboundSettings = [(''clients'', JArr [])]"

definition createDefaultTrojanInboundSettings :: jobj where
  "createDefaultTrojanInboundSettings = [(''clients'', JArr []), (''fallbacks'', JArr [])]"

definition createDefaultShadowsocksInboundSettings ::
    "string option \<Rightarrow> string option \<Rightarrow> string option \<Rightarrow> bool option \<Rightarrow> jobj rand" where
  "createDefaultShadowsocksInboundSettings seed_method seed_password seed_network seed_ivCheck = do {
     let method = default_to ''2022-blake3-aes-256-gcm'' seed_method;
     p \<leftarrow> or_draw seed_password (randomShadowsocksPassword method);
     State_Monad.return [(''method'', JStr method), (''password'', JStr p),
       (''network'', JStr (default_to ''tcp,udp'' seed_network)), (''clients'', JArr []),
       (''ivCheck'', JBool (default_to False seed_ivCheck))]
   }"

definition createDefaultHysteriaInboundSettings :: "jsnum option \<Rightarrow> jobj" where
  "createDefaultHysteriaInboundSettings seed_version =
     [(''version'', JNum (default_to (num 2) seed_version)), (''clients'', JArr [])]"

definition random_account :: "jv rand" where
  "random_account = do {
     user \<leftarrow> randomLowerAndNum 8;
     pass \<leftarrow> randomLowerAndNum 12;
     State_Monad.return (JObj [(''user'', JStr user), (''pass'', JStr pass)])
   }"

definition createDefaultHttpInboundSettings :: "jobj rand" where
  "createDefaultHttpInboundSettings = do {
     account \<leftarrow> random_account;
     State_Monad.return [(''accounts'', JArr [account]), (''allowTransparent'', JBool False)]
   }"

definition createDefaultMixedInboundSettings :: "jobj rand" where
  "createDefaultMixedInboundSettings = do {
     account \<leftarrow> random_account;
     State_Monad.return [(''auth'', JStr ''password''), (''accounts'', JArr [account]), (''udp'', JBool False),
       (''ip'', JStr ''127.0.0.1'')]
   }"

text \<open>\<open>b.toString(16).padStart(2, '0')\<close> of each byte of the UTF-8 text.\<close>

definition domainToHex :: "nat list \<Rightarrow> string" where
  "domainToHex domain = concat (map (\<lambda>b. [hex_char (b div 16), hex_char (b mod 16)]) (utf8_encode domain))"

definition generateMtprotoSecret :: "nat list \<Rightarrow> string rand" where
  "generateMtprotoSecret domain = do {
     middle \<leftarrow> randomHex 32;
     State_Monad.return (''ee'' @ middle @ domainToHex domain)
   }"

definition mtprotoSecretForDomain :: "string \<Rightarrow> nat list \<Rightarrow> string rand" where
  "mtprotoSecretForDomain currentSecret domain = do {
     let body = (if starts_with currentSecret ''ee'' \<or> starts_with currentSecret ''dd''
                 then drop 2 currentSecret else currentSecret);
     middle \<leftarrow> (if length body \<ge> 32 \<and> (\<forall>c \<in> set (take 32 body). is_hex c)
                then State_Monad.return (take 32 body) else randomHex 32);
     State_Monad.return (''ee'' @ middle @ domainToHex domain)
   }"

definition createDefaultMtprotoInboundSettings :: "jobj rand" where
  "createDefaultMtprotoInboundSettings = do {
     let fakeTlsDomain = ''www.cloudflare.com'';
     secret \<leftarrow> generateMtprotoSecret (map code fakeTlsDomain);
     State_Monad.return [(''fakeTlsDomain'', JStr fakeTlsDomain), (''secret'', JStr secret)]
   }"

definition createDefaultTunnelInboundSettings :: jobj where
  "createDefaultTunnelInboundSettings =
     [(''portMap'', JObj []), (''allowedNetwork'', JStr ''tcp,udp''), (''followRedirect'', JBool False)]"

definition createDefaultTunInboundSettings :: jobj where
  "createDefaultTunInboundSettings =
     [(''name'', JStr ''xray0''), (''mtu'', JNum (num 1500)), (''gateway'', JArr []), (''dns'', JArr []),
      (''userLevel'', JNum (num 0)), (''autoSystemRoutingTable'', JArr []), (''autoOutboundsInterface'', JStr ''auto'')]"

text \<open>\<open>Wireguard.generateKeypair()\<close> without a key draws 32 random bytes.\<close>

definition fresh_keypair :: "keypair rand" where
  "fresh_keypair = do {
     bytes \<leftarrow> getRandomValues 8 32;
     State_Monad.return (case generateKeypair (\<lambda>i. int (bytes ! i)) [] of Some kp \<Rightarrow> kp | None \<Rightarrow> \<lparr>publicKey = [], privateKey = []\<rparr>)
   }"

text \<open>\<open>None\<close>: the given peer key is not Base64 and \<open>atob\<close> throws.\<close>

definition createDefaultWireguardInboundSettings ::
    "jsnum option \<Rightarrow> string option \<Rightarrow> bool option \<Rightarrow> string option \<Rightarrow> jobj option rand" where
  "createDefaultWireguardInboundSettings seed_mtu seed_secretKey seed_noKernelTun peerPrivateKey = do {
     peer \<leftarrow> (case peerPrivateKey of
        Some k \<Rightarrow> if k \<noteq> [] then State_Monad.return (map_option (\<lambda>pub. (k, pub)) (derived_pubKey k))
                  else do { kp \<leftarrow> fresh_keypair; State_Monad.return (Some (privateKey kp, publicKey kp)) }
      | None \<Rightarrow> do { kp \<leftarrow> fresh_keypair; State_Monad.return (Some (privateKey kp, publicKey kp)) });
     case peer of
       None \<Rightarrow> State_Monad.return None
     | Some (priv, pub) \<Rightarrow> do {
         secretKey \<leftarrow> or_draw seed_secretKey (do { kp \<leftarrow> fresh_keypair; State_Monad.return (privateKey kp) });
         State_Monad.return (Some
          [(''mtu'', JNum (default_to (num 1420) seed_mtu)), (''secretKey'', JStr secretKey),
           (''peers'', JArr [JObj [(''privateKey'', JStr priv), (''publicKey'', JStr pub),
              (''allowedIPs'', JArr [JStr ''10.0.0.2/32'']), (''keepAlive'', JNum (num 0))]]),
           (''noKernelTun'', JBool (default_to False seed_noKernelTun))])
       }
   }"

definition createDefaultInboundSettings :: "string \<Rightarrow> jobj option rand" where
  "createDefaultInboundSettings protocol =
     (if protocol = ''vless'' then State_Monad.return (Some createDefaultVlessInboundSettings)
      else if protocol = ''vmess'' then State_Monad.return (Some createDefaultVmessInboundSettings)
      else if protocol = ''trojan'' then State_Monad.return (Some createDefaultTrojanInboundSettings)
      else if protocol = ''shadowsocks'' then
        do { s \<leftarrow> createDefaultShadowsocksInboundSettings None None None None; State_Monad.return (Some s) }
      else if protocol = ''hysteria'' then State_Monad.return (Some (createDefaultHysteriaInboundSettings None))
      else if protocol = ''http'' then do { s \<leftarrow> createDefaultHttpInboundSettings; State_Monad.return (Some s) }
      else if protocol = ''mixed'' then do { s \<leftarrow> createDefaultMixedInboundSettings; State_Monad.return (Some s) }
      else if protocol = ''tunnel'' then State_Monad.return (Some createDefaultTunnelInboundSettings)
      else if protocol = ''tun'' then State_Monad.return (Some createDefaultTunInboundSettings)
      else if protocol = ''wireguard'' then createDefaultWireguardInboundSettings None None None None
      else if protocol = ''mtproto'' then do { s \<leftarrow> createDefaultMtprotoInboundSettings; State_Monad.return (Some s) }
      else State_Monad.return None)"

section \<open>Outbound settings\<close>

definition createDefaultFreedomOutboundSettings :: jobj where
  "createDefaultFreedomOutboundSettings = []"

definition createDefaultBlackholeOutboundSettings :: jobj where
  "createDefaultBlackholeOutboundSettings = []"

definition createDefaultLoopbackOutboundSettings :: jobj where
  "createDefaultLoopbackOutboundSettings = [(''inboundTag'', JStr [])]"

definition createDefaultDNSOutboundSettings :: jobj where
  "createDefaultDNSOutboundSettings =
     [(''rewriteNetwork'', JStr []), (''rewriteAddress'', JStr []), (''rewritePort'', JNum (num 53)),
      (''userLevel'', JNum (num 0)), (''rules'', JArr [])]"

definition createDefaultVmessOutboundSettings :: jobj where
  "createDefaultVmessOutboundSettings =
     [(''vnext'', JArr [JObj [(''address'', JStr []), (''port'', JNum (num 443)),
        (''users'', JArr [JObj [(''id'', JStr []), (''security'', JStr ''auto'')]])]])]"

definition createDefaultVlessOutboundSettings :: jobj where
  "createDefaultVlessOutboundSettings =
     [(''address'', JStr []), (''port'', JNum (num 443)), (''id'', JStr []), (''flow'', JStr []),
      (''encryption'', JStr ''none'')]"

definition createDefaultTrojanOutboundSettings :: jobj where
  "createDefaultTrojanOutboundSettings =
     [(''servers'', JArr [JObj [(''address'', JStr []), (''port'', JNum (num 443)), (''password'', JStr [])]])]"

definition createDefaultShadowsocksOutboundSettings :: jobj where
  "createDefaultShadowsocksOutboundSettings =
     [(''servers'', JArr [JObj [(''address'', JStr []), (''port'', JNum (num 443)), (''password'', JStr []),
        (''method'', JStr ''2022-blake3-aes-128-gcm'')]])]"

definition createDefaultSocksOutboundSettings :: jobj where
  "createDefaultSocksOutboundSettings =
     [(''servers'', JArr [JObj [(''address'', JStr []), (''port'', JNum (num 1080)), (''users'', JArr [])]])]"

definition createDefaultHttpOutboundSettings :: jobj where
  "createDefaultHttpOutboundSettings =
     [(''servers'', JArr [JObj [(''address'', JStr []), (''port'', JNum (num 8080)), (''users'', JArr [])]])]"

definition createDefaultWireguardOutboundSettings :: "string option \<Rightarrow> jobj rand" where
  "createDefaultWireguardOutboundSettings seed_secretKey = do {
     secretKey \<leftarrow> or_draw seed_secretKey (do { kp \<leftarrow> fresh_keypair; State_Monad.return (privateKey kp) });
     State_Monad.return [(''mtu'', JNum (num 1420)), (''secretKey'', JStr secretKey), (''address'', JArr []),
       (''peers'', JArr [JObj [(''publicKey'', JStr []), (''allowedIPs'', JArr [JStr ''0.0.0.0/0'', JStr ''::/0'']),
          (''endpoint'', JStr [])]]),
       (''noKernelTun'', JBool False)]
   }"

definition createDefaultHysteriaOutboundSettings :: jobj where
  "createDefaultHysteriaOutboundSettings = [(''address'', JStr []), (''port'', JNum (num 443)), (''version'', JNum (num 2))]"

definition createDefaultOutboundSettings :: "string \<Rightarrow> jobj option rand" where
  "createDefaultOutboundSettings protocol =
     (if protocol = ''freedom'' then State_Monad.return (Some createDefaultFreedomOutboundSettings)
      else if protocol = ''blackhole'' then State_Monad.return (Some createDefaultBlackholeOutboundSettings)
      else if protocol = ''dns'' then State_Monad.return (Some createDefaultDNSOutboundSettings)
      else if protocol = ''vmess'' then State_Monad.return (Some createDefaultVmessOutboundSettings)
      else if protocol = ''vless'' then State_Monad.return (Some createDefaultVlessOutboundSettings)
      else if protocol = ''trojan'' then State_Monad.return (Some createDefaultTrojanOutboundSettings)
      else if protocol = ''shadowsocks'' then State_Monad.return (Some createDefaultShadowsocksOutboundSettings)
      else if protocol = ''socks'' then State_Monad.return (Some createDefaultSocksOutboundSettings)
      else if protocol = ''http'' then State_Monad.return (Some createDefaultHttpOutboundSettings)
      else if protocol = ''wireguard'' then
        do { s \<leftarrow> createDefaultWireguardOutboundSettings None; State_Monad.return (Some s) }
      else if protocol = ''hysteria'' then State_Monad.return (Some createDefaultHysteriaOutboundSettings)
      else if protocol = ''loopback'' then State_Monad.return (Some createDefaultLoopbackOutboundSettings)
      else State_Monad.return None)"

section \<open>Key pairs of the defaults\<close>

lemma or_draw_simps [simp]: "or_draw (Some x) m = State_Monad.return x" "or_draw None m = m"
  by (simp_all add: or_draw_def)

lemma return_bind [simp]: "State_Monad.return x \<bind> f = f x"
  by (simp add: State_Monad.return_def State_Monad.bind_def)

text \<open>A pair is proper when deriving from its private text gives it back.\<close>

definition proper_keypair :: "keypair \<Rightarrow> bool" where
  "proper_keypair kp \<longleftrightarrow> privateKey kp \<noteq> [] \<and> derived_pubKey (privateKey kp) = Some (publicKey kp)"

lemma always_fresh_keypair: "always proper_keypair fresh_keypair"
  unfolding fresh_keypair_def
proof (rule always_bind [OF always_random])
  fix bs :: "nat list" assume bs: "length bs = 32 \<and> (\<forall>v \<in> set bs. v < 2 ^ 8)"
  define rnd where "rnd = (\<lambda>i. if i < 32 then int (bs ! i) else 0)"
  have "\<And>i. 0 \<le> rnd i \<and> rnd i < 256" using bs by (simp add: rnd_def)
  from fresh_keypair_facts [of rnd "\<lambda>_. 0", OF this] obtain kp where
    kp: "generateKeypair rnd [] = Some kp" "generateKeypair (\<lambda>_. 0) (privateKey kp) = Some kp" by blast
  have "map (\<lambda>i. int (bs ! i)) [0..<32] = map rnd [0..<32]" by (rule map_cong) (auto simp: rnd_def)
  then have "generatePrivateKey (\<lambda>i. int (bs ! i)) = generatePrivateKey rnd"
    by (simp only: generatePrivateKey_def generatePresharedKey_def)
  then have same: "generateKeypair (\<lambda>i. int (bs ! i)) [] = Some kp" using kp(1) by (simp add: generateKeypair_def)
  have "privateKey kp \<noteq> []" using kp(1) by (auto simp: generateKeypair_def keyToBase64_nonempty)
  then show "always proper_keypair (State_Monad.return
      (case generateKeypair (\<lambda>i. int (bs ! i)) [] of Some kp \<Rightarrow> kp | None \<Rightarrow> \<lparr>publicKey = [], privateKey = []\<rparr>))"
    using kp(2) by (simp add: same proper_keypair_def derived_pubKey_def)
qed

end
