(* ===== verification/Outbound_Roundtrip.thy ===== *)
theory Outbound_Roundtrip
  imports Outbound_Form
begin

text \<open>
  Correctness of the outbound form adapter: what the editor writes it reads back as the
  same form, for each of the twelve protocols; every port the reader produces is in range.
\<close>

section \<open>Reading written values\<close>

lemma as_simps [from_wire, simp]:
  "asObject (JObj ps) = ps" "asObject JUndef = []" "asArray (JArr xs) = xs" "asArray JUndef = []"
  "asString_or f (JStr s) = s" "asString_or f JUndef = f" "asBool (JBool b) = b" "asBool JUndef = False"
  "asNumber JUndef n = n" "is_finite m \<Longrightarrow> asNumber (JNum m) n = m"
  by (simp_all add: asObject_def asArray_def asString_or_def asBool_def asNumber_def)

lemma oget_Nil [simp]: "oget [] k = JUndef"
  by (simp add: oget_def)

lemma oget_Cons [simp]: "oget ((j, v) # ps) k = (if j = k then v else oget ps k)"
  by (simp add: oget_def)

lemma when_set_simps [simp]: "when_set True v = v" "when_set False v = JUndef"
  by (simp_all add: when_set_def)

lemma strings_of_simps [simp]: "strings_of (str_list xs) = xs" "strings_of JUndef = []"
  by (simp_all add: strings_of_def comp_def)

lemma strings_of_when [simp]: "strings_of (when_set (xs \<noteq> []) (str_list xs)) = xs"
  by (simp add: when_set_def)

lemma asString_when [simp]: "asString (when_set (s \<noteq> []) (JStr s)) = s"
  by (simp add: when_set_def)

lemma first_elem_simps [simp]: "first_elem (x # xs) = x" "first_elem [] = JUndef"
  by (simp_all add: first_elem_def)

lemma one_of_in [simp]: "s \<in> set allowed \<Longrightarrow> one_of allowed s d = s"
  by (simp add: one_of_def)

definition valid_port :: "jsnum \<Rightarrow> bool" where
  "valid_port n \<longleftrightarrow> (\<exists>i. n = num i \<and> 1 \<le> i \<and> i \<le> 65535)"

lemma asPort_valid: "valid_port d \<Longrightarrow> valid_port (asPort v d)"
proof -
  assume d: "valid_port d"
  define n where "n = asNumber v d"
  show ?thesis
  proof (cases "\<not> is_integer n \<or> num_less n (num 1) \<or> num_less (num 65535) n")
    case True
    then show ?thesis using d by (simp add: asPort_def n_def [symmetric])
  next
    case False
    then obtain q where q: "n = Fin q" "of_int \<lfloor>q\<rfloor> = q" by (cases n) (auto simp: is_integer_def)
    then have "n = num \<lfloor>q\<rfloor>" by metis
    moreover have "1 \<le> \<lfloor>q\<rfloor>" "\<lfloor>q\<rfloor> \<le> 65535" using False q by (auto simp: le_floor_iff floor_le_iff not_less)
    ultimately have "valid_port n" unfolding valid_port_def by blast
    then show ?thesis using False by (simp add: asPort_def n_def [symmetric])
  qed
qed

lemma asPort_read [simp]: "valid_port n \<Longrightarrow> asPort (JNum n) d = n"
  by (auto simp: valid_port_def asPort_def asNumber_def is_finite_def is_integer_def)

section \<open>One protocol at a time\<close>

definition wf_vmess :: "vmess_form \<Rightarrow> bool" where
  "wf_vmess s \<longleftrightarrow> valid_port (vm_port s)
     \<and> vm_security s \<in> {''aes-128-gcm'', ''chacha20-poly1305'', ''auto'', ''none'', ''zero''}"

lemma vmess_roundtrip: "wf_vmess s \<Longrightarrow> vmessFromWire (vmessToWire s) = s"
  by (cases s) (simp add: wf_vmess_def vmessFromWire_def vmessToWire_def)

lemma trojan_roundtrip: "valid_port (tj_port s) \<Longrightarrow> trojanFromWire (trojanToWire s) = s"
  by (cases s) (simp add: trojanFromWire_def trojanToWire_def first_server_def)

lemma shadowsocks_roundtrip:
  "valid_port (ss_port s) \<Longrightarrow> is_finite (ss_UoTVersion s) \<Longrightarrow> shadowsocksFromWire (shadowsocksToWire s) = s"
  by (cases s) (simp add: shadowsocksFromWire_def shadowsocksToWire_def first_server_def)

lemma simple_auth_roundtrip:
  "valid_port (sa_port s) \<Longrightarrow> (sa_user s = [] \<Longrightarrow> sa_pass s = []) \<Longrightarrow> simpleAuthFromWire (simpleAuthToWire s) d = s"
  by (cases s) (auto simp: simpleAuthFromWire_def simpleAuthToWire_def first_server_def)

lemma hysteria_roundtrip:
  "valid_port (hy_port s) \<Longrightarrow> hy_version s = num 2 \<Longrightarrow> hysteriaFromWire (hysteriaToWire s) = s"
  by (cases s) (simp add: hysteriaFromWire_def hysteriaToWire_def)

lemma blackhole_roundtrip: "t \<in> {[], ''none'', ''http''} \<Longrightarrow> blackholeFromWire (blackholeToWire t) = t"
  by (auto simp: blackholeFromWire_def blackholeToWire_def one_of_def)

definition wf_sniffing :: "sniffing \<Rightarrow> bool" where
  "wf_sniffing s \<longleftrightarrow> sn_destOverride s \<noteq> [] \<and> set (sn_destOverride s) \<subseteq> set SNIFFING_DEST_VALUES"

lemma sniffing_roundtrip:
  assumes "wf_sniffing s"
  shows "sniffingFromWire (JObj (sniffingToWire s)) = s"
proof -
  have "filter (\<lambda>x. x \<in> set SNIFFING_DEST_VALUES) (sn_destOverride s) = sn_destOverride s"
    using assms by (auto simp: wf_sniffing_def filter_id_conv)
  then show ?thesis using assms
    by (cases s) (simp add: sniffingFromWire_def sniffingToWire_def wf_sniffing_def Let_def)
qed

lemma wf_SNIFFING_DEFAULT: "wf_sniffing SNIFFING_DEFAULT"
  by (simp add: wf_sniffing_def SNIFFING_DEFAULT_def SNIFFING_DEST_VALUES_def)

lemma sniffing_absent: "sniffingFromWire JUndef = SNIFFING_DEFAULT" "sniffingFromWire (JObj []) = SNIFFING_DEFAULT"
  by (simp_all add: sniffingFromWire_def SNIFFING_DEFAULT_def)

lemma loopback_roundtrip:
  assumes "if sn_enabled (lb_sniffing s) then wf_sniffing (lb_sniffing s) else lb_sniffing s = SNIFFING_DEFAULT"
  shows "loopbackFromWire (loopbackToWire s) = s"
  using assms by (cases s) (auto simp: loopbackFromWire_def loopbackToWire_def sniffing_roundtrip sniffing_absent split: if_splits)

definition wf_vless :: "vless_form \<Rightarrow> bool" where
  "wf_vless s \<longleftrightarrow> valid_port (vl_port s) \<and> vl_encryption s \<noteq> []
     \<and> (if vl_reverseTag s \<noteq> [] then wf_sniffing (vl_reverseSniffing s) else vl_reverseSniffing s = SNIFFING_DEFAULT)
     \<and> (if vl_flow s = ''xtls-rprx-vision''
        then is_finite (vl_testpre s) \<and> (num_less (Fin 0) (vl_testpre s) \<or> vl_testpre s = num 0)
          \<and> length (vl_testseed s) = 4 \<and> (\<forall>v \<in> set (vl_testseed s). positive_int v)
        else vl_testpre s = num 0 \<and> vl_testseed s = DEFAULT_TESTSEED)"

lemma saved_testseed_read:
  assumes "length ns = 4" "\<forall>v \<in> set ns. positive_int v"
  shows "saved_testseed (JArr (map JNum ns)) = ns"
proof -
  have "List.map_filter (\<lambda>x. case x of JNum n \<Rightarrow> if positive_int n then Some n else None | _ \<Rightarrow> None) (map JNum ns) = ns"
    using assms(2) by (induction ns) (auto simp: List.map_filter_def)
  then show ?thesis using assms(1) by (simp add: saved_testseed_def Let_def)
qed

lemma saved_testseed_absent [simp]: "saved_testseed JUndef = DEFAULT_TESTSEED"
  by (simp add: saved_testseed_def)

lemma reverse_sniffing_read:
  assumes "wf_sniffing s"
  shows "sniffingFromWire (JObj (if sniffingToWire s = sniffingToWire SNIFFING_DEFAULT then [] else sniffingToWire s)) = s"
proof (cases "sniffingToWire s = sniffingToWire SNIFFING_DEFAULT")
  case True
  then have "s = SNIFFING_DEFAULT"
    using sniffing_roundtrip [OF assms] sniffing_roundtrip [OF wf_SNIFFING_DEFAULT] by metis
  then show ?thesis by (simp add: sniffing_absent)
qed (simp add: sniffing_roundtrip [OF assms])

lemma vless_roundtrip:
  assumes "wf_vless s"
  shows "vlessFromWire (vlessToWire s) = s"
proof -
  let ?vision = "vl_flow s = ''xtls-rprx-vision''" and ?sn = "vl_reverseSniffing s"
  have p: "valid_port (vl_port s)" "vl_encryption s \<noteq> []" and sn: "vl_reverseTag s \<noteq> [] \<Longrightarrow> wf_sniffing ?sn"
    "vl_reverseTag s = [] \<Longrightarrow> ?sn = SNIFFING_DEFAULT"
    and vis: "?vision \<Longrightarrow> is_finite (vl_testpre s) \<and> (num_less (Fin 0) (vl_testpre s) \<or> vl_testpre s = Fin 0)
          \<and> length (vl_testseed s) = 4 \<and> (\<forall>v \<in> set (vl_testseed s). positive_int v)"
    and nov: "\<not> ?vision \<Longrightarrow> vl_testpre s = Fin 0 \<and> vl_testseed s = DEFAULT_TESTSEED"
    using assms by (auto simp: wf_vless_def)
  have w: "oget (vlessToWire s) ''vnext'' = JUndef" "oget (vlessToWire s) ''address'' = JStr (vl_address s)"
    "oget (vlessToWire s) ''port'' = JNum (vl_port s)" "oget (vlessToWire s) ''id'' = JStr (vl_id s)"
    "oget (vlessToWire s) ''flow'' = JStr (vl_flow s)" "oget (vlessToWire s) ''encryption'' = JStr (vl_encryption s)"
    "oget (vlessToWire s) ''reverse'' = when_set (vl_reverseTag s \<noteq> []) (JObj [(''tag'', JStr (vl_reverseTag s)),
       (''sniffing'', JObj (if sniffingToWire ?sn = sniffingToWire SNIFFING_DEFAULT then [] else sniffingToWire ?sn))])"
    "oget (vlessToWire s) ''testpre'' = when_set (?vision \<and> num_less (Fin 0) (vl_testpre s)) (JNum (vl_testpre s))"
    "oget (vlessToWire s) ''testseed'' = when_set ?vision (JArr (map JNum (vl_testseed s)))"
    using vis p(2) by (auto simp: vlessToWire_def Let_def when_set_def)
  have ts: "saved_testseed (when_set ?vision (JArr (map JNum (vl_testseed s)))) = vl_testseed s"
    using vis nov saved_testseed_read [of "vl_testseed s"] by (cases ?vision) auto
  have tp: "asNumber (when_set (?vision \<and> num_less (Fin 0) (vl_testpre s)) (JNum (vl_testpre s))) (Fin 0) = vl_testpre s"
    using vis nov by (cases ?vision) auto
  have "vlessFromWire (vlessToWire s) = \<lparr>vl_address = vl_address s, vl_port = vl_port s, vl_id = vl_id s,
      vl_flow = vl_flow s, vl_encryption = vl_encryption s, vl_reverseTag = vl_reverseTag s,
      vl_reverseSniffing = ?sn, vl_testpre = vl_testpre s, vl_testseed = vl_testseed s\<rparr>"
    using p reverse_sniffing_read [of ?sn] sn
    by (cases "vl_reverseTag s = []") (simp_all add: vlessFromWire_def Let_def w ts tp)
  then show ?thesis by simp
qed

section \<open>WireGuard, freedom, DNS\<close>

definition comma_canonical :: "string \<Rightarrow> bool" where
  "comma_canonical s \<longleftrightarrow> join '','' (comma_parts s) = s"

definition wf_peer :: "wireguard_peer \<Rightarrow> bool" where
  "wf_peer p \<longleftrightarrow> wp_allowedIPs p \<noteq> [] \<and> is_finite (wp_keepAlive p)"

definition wf_wireguard :: "wireguard_form \<Rightarrow> bool" where
  "wf_wireguard s \<longleftrightarrow> is_finite (wf_mtu s) \<and> num_truthy (wf_mtu s)
     \<and> derived_pubKey (wf_secretKey s) = Some (wf_pubKey s) \<and> comma_canonical (wf_address s)
     \<and> wf_domainStrategy s \<in> {[], ''ForceIP'', ''ForceIPv4'', ''ForceIPv4v6'', ''ForceIPv6'', ''ForceIPv6v4''}
     \<and> (wf_reserved s \<noteq> [] \<longrightarrow> join '','' (map num_str (reserved_numbers (wf_reserved s))) = wf_reserved s)
     \<and> (\<forall>p \<in> set (wf_peers s). wf_peer p)"

lemma number_when [simp]: "is_finite n \<Longrightarrow> asNumber (when_set (num_truthy n) (JNum n)) (Fin 0) = n"
  by (cases n) (auto simp: when_set_def num_truthy_def is_finite_def asNumber_def)

lemma peer_roundtrip: "wf_peer p \<Longrightarrow> peerFromWire (peerToWire p) = p"
  by (cases p) (simp add: wf_peer_def peerFromWire_def peerToWire_def Let_def)

lemma num_or_string_simps [simp]: "num_or_string (JStr s) = s" "num_or_string (JNum n) = num_str n"
  by (simp_all add: num_or_string_def)

lemma map_num_or_string [simp]: "map (num_or_string \<circ> JStr) xs = xs" "map (num_or_string \<circ> JNum) ns = map num_str ns"
  by (simp_all add: comp_def)

lemma wireguard_roundtrip:
  assumes "wf_wireguard s"
  shows "wireguardFromWire (wireguardToWire s) = Some s"
proof -
  have "map peerFromWire (map peerToWire (wf_peers s)) = wf_peers s"
    using assms by (auto simp: wf_wireguard_def peer_roundtrip intro: map_idI)
  then show ?thesis using assms
    by (cases s) (auto simp: wf_wireguard_def wireguardFromWire_def wireguardToWire_def comma_canonical_def one_of_def
        Let_def when_set_def comp_def)
qed

definition wf_final_rule :: "final_rule \<Rightarrow> bool" where
  "wf_final_rule r \<longleftrightarrow> fr_action r = ''block'' \<or> fr_action r = ''allow'' \<and> fr_blockDelay r = []"

lemma final_rule_roundtrip: "wf_final_rule r \<Longrightarrow> finalRuleFromWire (finalRuleToWire r) = r"
  by (cases r) (auto simp: wf_final_rule_def finalRuleFromWire_def finalRuleToWire_def joined_strings_def when_set_def Let_def)

lemma noise_roundtrip [simp]: "noiseFromWire (noiseToWire n) = n"
  by (cases n) (simp add: noiseFromWire_def noiseToWire_def Let_def)

definition wf_fragment :: "freedom_fragment option \<Rightarrow> bool" where
  "wf_fragment fo = (case fo of None \<Rightarrow> False | Some f \<Rightarrow>
     if fragment_enabled f then ff_packets f \<noteq> [] else ff_packets f = [])"

definition wf_freedom :: "freedom_form \<Rightarrow> bool" where
  "wf_freedom s \<longleftrightarrow> (fd_domainStrategy s = [] \<or> fd_domainStrategy s \<in> set FREEDOM_STRATEGIES)
     \<and> is_finite (fd_userLevel s) \<and> fd_proxyProtocol s \<in> {num 0, num 1, num 2} \<and> wf_fragment (fd_fragment s)
     \<and> (\<forall>r \<in> set (fd_finalRules s). wf_final_rule r)"

lemma one_of_empty [simp]: "[] \<notin> set allowed \<Longrightarrow> one_of allowed [] [] = []"
  by (simp add: one_of_def)

lemma oget_fragment_entries:
  "asString_or d (oget (fragment_entries f) ''packets'') = (if ff_packets f = [] then d else ff_packets f)"
  "asString (oget (fragment_entries f) ''length'') = ff_length f"
  "asString (oget (fragment_entries f) ''interval'') = ff_interval f"
  "asString (oget (fragment_entries f) ''maxSplit'') = ff_maxSplit f"
  by (auto simp: fragment_entries_def)

lemma fragment_read:
  assumes "wf_fragment (Some f)"
  shows "fragmentFromWire (fragmentToWire (Some f)) = f"
proof (cases "fragment_enabled f")
  case True
  then have "okeys (fragment_entries f) \<noteq> []" by (auto simp: fragment_enabled_def fragment_entries_def)
  moreover have "ff_packets f \<noteq> []" using True assms by (simp add: wf_fragment_def)
  ultimately show ?thesis using True
    by (simp add: fragmentFromWire_def fragmentToWire_def oget_fragment_entries Let_def)
next
  case False
  then show ?thesis using assms
    by (cases f) (simp add: fragmentFromWire_def fragmentToWire_def wf_fragment_def fragment_enabled_def Let_def)
qed

lemma proxy_protocol_read:
  assumes "n \<in> {num 0, num 1, num 2}"
  shows "asNumber (when_set (num_truthy n) (JNum n)) (Fin 0) = n"
  by (rule number_when) (use assms in \<open>auto simp: is_finite_def\<close>)

lemma freedom_roundtrip:
  assumes "wf_freedom s"
  shows "freedomFromWire (freedomToWire s) = s"
proof -
  obtain f where f: "fd_fragment s = Some f" using assms by (auto simp: wf_freedom_def wf_fragment_def split: option.splits)
  have rules: "map finalRuleFromWire (asArray (when_set (fd_finalRules s \<noteq> []) (JArr (map finalRuleToWire (fd_finalRules s))))) = fd_finalRules s"
    using assms by (auto simp: wf_freedom_def when_set_def final_rule_roundtrip intro: map_idI)
  have noises: "map noiseFromWire (asArray (when_set (fd_noises s \<noteq> []) (JArr (map noiseToWire (fd_noises s))))) = fd_noises s"
    by (simp add: when_set_def comp_def)
  have d: "one_of FREEDOM_STRATEGIES (fd_domainStrategy s) [] = fd_domainStrategy s"
    using assms by (auto simp: wf_freedom_def one_of_def)
  have pp: "asNumber (when_set (num_truthy (fd_proxyProtocol s)) (JNum (fd_proxyProtocol s))) (Fin 0) = fd_proxyProtocol s"
    "fd_proxyProtocol s \<noteq> Fin 1 \<and> fd_proxyProtocol s \<noteq> Fin 2 \<longrightarrow> Fin 0 = fd_proxyProtocol s"
    using assms by (auto simp: wf_freedom_def proxy_protocol_read)
  have fr: "fragmentFromWire (fragmentToWire (Some f)) = f" "is_finite (fd_userLevel s)"
    using assms fragment_read f by (auto simp: wf_freedom_def)
  show ?thesis
    by (rule freedom_form.equality)
      (simp_all add: freedomFromWire_def freedomToWire_def f Let_def rules noises d pp fr)
qed

definition wf_dns_rule :: "dns_rule \<Rightarrow> bool" where
  "wf_dns_rule r \<longleftrightarrow> dr_action r \<in> set DNS_ACTIONS \<and> trim (dr_qType r) = dr_qType r
     \<and> (all_digits (dr_qType r) \<longrightarrow> num_str (js_number (dr_qType r)) = dr_qType r)
     \<and> comma_canonical (dr_domain r) \<and> is_finite (dr_rCode r) \<and> (num_less (Fin 0) (dr_rCode r) \<or> dr_rCode r = Fin 0)"

definition wf_dns :: "dns_form \<Rightarrow> bool" where
  "wf_dns s \<longleftrightarrow> dn_rewriteNetwork s \<in> {[], ''udp'', ''tcp''} \<and> valid_port (dn_rewritePort s)
     \<and> is_finite (dn_userLevel s) \<and> (\<forall>r \<in> set (dn_rules s). wf_dns_rule r)"

lemma dns_rule_roundtrip:
  assumes "wf_dns_rule r"
  shows "dnsRuleFromWire (dnsRuleToWire r) = r"
proof -
  define q where "q = (if all_digits (dr_qType r) then JNum (js_number (dr_qType r)) else JStr (dr_qType r))"
  have w: "asObject (dnsRuleToWire r) = (let o1 = [(''action'', JStr (dr_action r))];
      o2 = (if dr_qType r \<noteq> [] then oset ''qType'' q o1 else o1);
      o3 = (if comma_parts (dr_domain r) \<noteq> [] then oset ''domain'' (str_list (comma_parts (dr_domain r))) o2 else o2)
      in if num_less (Fin 0) (dr_rCode r) then oset ''rCode'' (JNum (dr_rCode r)) o3 else o3)"
    using assms by (simp add: dnsRuleToWire_def wf_dns_rule_def q_def Let_def)
  have o: "oget (asObject (dnsRuleToWire r)) ''action'' = JStr (dr_action r)"
    "oget (asObject (dnsRuleToWire r)) ''qType'' = when_set (dr_qType r \<noteq> []) q"
    "oget (asObject (dnsRuleToWire r)) ''qtype'' = JUndef"
    "oget (asObject (dnsRuleToWire r)) ''domain'' = when_set (comma_parts (dr_domain r) \<noteq> []) (str_list (comma_parts (dr_domain r)))"
    "oget (asObject (dnsRuleToWire r)) ''rCode'' = when_set (num_less (Fin 0) (dr_rCode r)) (JNum (dr_rCode r))"
    unfolding w Let_def by (simp_all add: when_set_def)
  have dom: "joined_strings (when_set (comma_parts (dr_domain r) \<noteq> []) (str_list (comma_parts (dr_domain r)))) = dr_domain r"
    using assms by (auto simp: wf_dns_rule_def comma_canonical_def joined_strings_def when_set_def comp_def)
  have qt: "qTypeFromWire (or_else (when_set (dr_qType r \<noteq> []) q) JUndef) = dr_qType r"
    using assms by (auto simp: wf_dns_rule_def q_def when_set_def or_else_def qTypeFromWire_def)
  have rc: "asNumber (when_set (num_less (Fin 0) (dr_rCode r)) (JNum (dr_rCode r))) (Fin 0) = dr_rCode r"
    using assms by (auto simp: wf_dns_rule_def when_set_def)
  show ?thesis using assms
    by (intro dns_rule.equality) (simp_all add: dnsRuleFromWire_def Let_def o dom rc qt wf_dns_rule_def)
qed

lemma valid_port_truthy: "valid_port n \<Longrightarrow> num_truthy n"
  by (auto simp: valid_port_def num_truthy_def)

lemma dns_roundtrip:
  assumes "wf_dns s"
  shows "dnsFromWire (dnsToWire s) = s"
proof -
  have m: "map dnsRuleFromWire (map dnsRuleToWire (dn_rules s)) = dn_rules s"
    using assms by (auto simp: wf_dns_def dns_rule_roundtrip intro: map_idI)
  have o: "oget (dnsToWire s) ''rewriteNetwork'' = when_set (dn_rewriteNetwork s \<noteq> []) (JStr (dn_rewriteNetwork s))"
    "oget (dnsToWire s) ''rewriteAddress'' = when_set (dn_rewriteAddress s \<noteq> []) (JStr (dn_rewriteAddress s))"
    "oget (dnsToWire s) ''rewritePort'' = when_set (num_truthy (dn_rewritePort s)) (JNum (dn_rewritePort s))"
    "oget (dnsToWire s) ''userLevel'' = when_set (num_truthy (dn_userLevel s)) (JNum (dn_userLevel s))"
    "oget (dnsToWire s) ''rules'' = when_set (dn_rules s \<noteq> []) (JArr (map dnsRuleToWire (dn_rules s)))"
    "oget (dnsToWire s) ''network'' = JUndef" "oget (dnsToWire s) ''address'' = JUndef" "oget (dnsToWire s) ''port'' = JUndef"
    by (simp_all add: dnsToWire_def when_set_def Let_def)
  have s: "asString (or_else (when_set (x \<noteq> []) (JStr x)) JUndef) = x" "or_else (JNum n) v = JNum n" for x n v
    by (simp_all add: or_else_def when_set_def)
  have r: "map dnsRuleFromWire (asArray (when_set (dn_rules s \<noteq> []) (JArr (map dnsRuleToWire (dn_rules s))))) = dn_rules s"
    using m by (simp add: when_set_def)
  show ?thesis using assms valid_port_truthy [of "dn_rewritePort s"]
    by (intro dns_form.equality) (auto simp: dnsFromWire_def o s r wf_dns_def one_of_def)
qed

section \<open>The whole form\<close>

definition wf_mux :: "mux_form \<Rightarrow> bool" where
  "wf_mux m \<longleftrightarrow> is_finite (mx_concurrency m) \<and> is_finite (mx_xudpConcurrency m)
     \<and> mx_xudpProxyUDP443 m \<in> {''reject'', ''allow'', ''skip''}"

definition MUX_DEFAULT :: mux_form where
  "MUX_DEFAULT = \<lparr>mx_enabled = False, mx_concurrency = num 8, mx_xudpConcurrency = num 16, mx_xudpProxyUDP443 = ''reject''\<rparr>"

lemma mux_roundtrip: "wf_mux m \<Longrightarrow> muxFromWire (JObj (muxToWire m)) = m"
  by (cases m) (auto simp: wf_mux_def muxFromWire_def muxToWire_def one_of_def Let_def)

lemma mux_absent: "muxFromWire JUndef = MUX_DEFAULT"
  by (simp add: muxFromWire_def MUX_DEFAULT_def one_of_def)

fun wf_settings :: "outbound_settings \<Rightarrow> bool" where
  "wf_settings (OVmess s) = wf_vmess s"
| "wf_settings (OVless s) = wf_vless s"
| "wf_settings (OTrojan s) = valid_port (tj_port s)"
| "wf_settings (OShadowsocks s) = (valid_port (ss_port s) \<and> is_finite (ss_UoTVersion s))"
| "wf_settings (OSocks s) = (valid_port (sa_port s) \<and> (sa_user s = [] \<longrightarrow> sa_pass s = []))"
| "wf_settings (OHttp s) = (valid_port (sa_port s) \<and> (sa_user s = [] \<longrightarrow> sa_pass s = []))"
| "wf_settings (OWireguard s) = wf_wireguard s"
| "wf_settings (OHysteria s) = (valid_port (hy_port s) \<and> hy_version s = num 2)"
| "wf_settings (OFreedom s) = wf_freedom s"
| "wf_settings (OBlackhole t) = (t \<in> {[], ''none'', ''http''})"
| "wf_settings (ODns s) = wf_dns s"
| "wf_settings (OLoopback s) =
     (if sn_enabled (lb_sniffing s) then wf_sniffing (lb_sniffing s) else lb_sniffing s = SNIFFING_DEFAULT)"

lemma settings_roundtrip: "wf_settings st \<Longrightarrow> settingsFromWire (protocol_name st) (settingsToWire st) = Some st"
  by (cases st)
    (simp_all add: settingsFromWire_def vmess_roundtrip vless_roundtrip trojan_roundtrip shadowsocks_roundtrip
      simple_auth_roundtrip wireguard_roundtrip hysteria_roundtrip freedom_roundtrip blackhole_roundtrip
      dns_roundtrip loopback_roundtrip)

text \<open>A stream block none of whose sub-blocks the writer reshapes.\<close>

definition plain_stream :: "jobj \<Rightarrow> bool" where
  "plain_stream st \<longleftrightarrow> st \<noteq> [] \<and> own_props (oget st ''xhttpSettings'') = None
     \<and> as_record (oget st ''tlsSettings'') = None \<and> as_record (oget st ''sockopt'') = None"

lemma own_props_record: "own_props v = None \<Longrightarrow> as_record v = None"
  by (cases v) (auto simp: own_props_def)

lemma plain_stream_strip: "plain_stream st \<Longrightarrow> stripUiOnlyStreamFields st = st"
  by (simp add: plain_stream_def stripUiOnlyStreamFields_def normalizeStreamSettingsForWire_def at_record_def
      set_or_delete_def own_props_record)

lemma plain_stream_hydrate: "plain_stream st \<Longrightarrow> hydrateStreamForm st = st"
  by (simp add: plain_stream_def hydrateStreamForm_def at_record_def own_props_record)

definition wf_form :: "outbound_form \<Rightarrow> bool" where
  "wf_form f \<longleftrightarrow> wf_settings (of_settings f)
     \<and> (case of_stream f of None \<Rightarrow> True
        | Some st \<Rightarrow> plain_stream st \<and> protocol_name (of_settings f) \<in> set STREAM_PROTOCOLS)
     \<and> (case of_mux f of None \<Rightarrow> False
        | Some m \<Rightarrow> if mx_enabled m then wf_mux m \<and> muxAllowed f else m = MUX_DEFAULT)"

lemma payload_fields:
  "oget (formValuesToWirePayload f) ''protocol'' = JStr (protocol_name (of_settings f))"
  "oget (formValuesToWirePayload f) ''settings'' = JObj (settingsToWire (of_settings f))"
  "oget (formValuesToWirePayload f) ''tag'' = when_set (of_tag f \<noteq> []) (JStr (of_tag f))"
  "oget (formValuesToWirePayload f) ''sendThrough'' = when_set (of_sendThrough f \<noteq> []) (JStr (of_sendThrough f))"
  "oget (formValuesToWirePayload f) ''mux'' =
     (case of_mux f of None \<Rightarrow> JUndef | Some m \<Rightarrow> when_set (mx_enabled m \<and> muxAllowed f) (JObj (muxToWire m)))"
  "oget (formValuesToWirePayload f) ''streamSettings'' =
     (case of_stream f of None \<Rightarrow> JUndef
      | Some st \<Rightarrow> if protocol_name (of_settings f) \<in> set STREAM_PROTOCOLS then JObj (stripUiOnlyStreamFields st)
          else when_set (truthy (oget st ''sockopt'')) (JObj [(''sockopt'', oget st ''sockopt'')]))"
  by (simp_all add: formValuesToWirePayload_def when_set_def Let_def split: option.splits)

lemma form_roundtrip:
  assumes "wf_form f"
  shows "rawOutboundToFormValues (formValuesToWirePayload f) = Some f"
proof -
  have st: "(case own_props (oget (formValuesToWirePayload f) ''streamSettings'') of
      Some ps \<Rightarrow> if okeys ps \<noteq> [] then Some (hydrateStreamForm ps) else None | None \<Rightarrow> None) = of_stream f"
  proof (cases "of_stream f")
    case None
    then show ?thesis by (simp add: payload_fields own_props_def)
  next
    case (Some s)
    then have "plain_stream s" "protocol_name (of_settings f) \<in> set STREAM_PROTOCOLS" "s \<noteq> []"
      using assms by (auto simp: wf_form_def plain_stream_def)
    then show ?thesis using Some
      by (simp add: payload_fields own_props_def plain_stream_strip plain_stream_hydrate)
  qed
  have mx: "Some (muxFromWire (oget (formValuesToWirePayload f) ''mux'')) = of_mux f"
    using assms by (auto simp: wf_form_def payload_fields mux_roundtrip mux_absent MUX_DEFAULT_def split: option.splits if_splits)
  show ?thesis
    using st mx settings_roundtrip [of "of_settings f"] assms
    by (cases f) (simp add: rawOutboundToFormValues_def payload_fields(1-4) wf_form_def Let_def)
qed

section \<open>Ports\<close>

fun settings_port :: "outbound_settings \<Rightarrow> jsnum option" where
  "settings_port (OVmess s) = Some (vm_port s)"
| "settings_port (OVless s) = Some (vl_port s)"
| "settings_port (OTrojan s) = Some (tj_port s)"
| "settings_port (OShadowsocks s) = Some (ss_port s)"
| "settings_port (OSocks s) = Some (sa_port s)"
| "settings_port (OHttp s) = Some (sa_port s)"
| "settings_port (OHysteria s) = Some (hy_port s)"
| "settings_port (ODns s) = Some (dn_rewritePort s)"
| "settings_port _ = None"

lemma default_ports: "valid_port (num 443)" "valid_port (num 1080)" "valid_port (num 8080)" "valid_port (num 53)"
  unfolding valid_port_def by (intro exI conjI, rule refl, simp, simp)+

lemma read_port_valid: "settingsFromWire p w = Some st \<Longrightarrow> settings_port st = Some n \<Longrightarrow> valid_port n"
  using asPort_valid default_ports
  by (auto simp: settingsFromWire_def vmessFromWire_def vlessFromWire_def trojanFromWire_def shadowsocksFromWire_def
      simpleAuthFromWire_def hysteriaFromWire_def dnsFromWire_def Let_def split: if_splits)

section \<open>Properties\<close>


definition sample_form :: outbound_form where
  "sample_form = \<lparr>of_settings = OVless \<lparr>vl_address = ''a.b'', vl_port = num 443, vl_id = ''x'', vl_flow = [],
     vl_encryption = ''none'', vl_reverseTag = ''r'', vl_reverseSniffing = SNIFFING_DEFAULT\<lparr>sn_routeOnly := True\<rparr>,
     vl_testpre = num 0, vl_testseed = DEFAULT_TESTSEED\<rparr>,
     of_tag = ''out'', of_sendThrough = [], of_mux = Some (MUX_DEFAULT\<lparr>mx_enabled := True\<rparr>),
     of_stream = Some [(''network'', JStr ''tcp'')]\<rparr>"


text \<open>Whatever JSON is stored, the port shown in the form is an integer from 1 to 65535.\<close>

theorem outbound_port_in_range:
  assumes "settingsFromWire protocol w = Some st" and "settings_port st = Some n"
  shows "\<exists>i. n = num i \<and> 1 \<le> i \<and> i \<le> 65535"
  using read_port_valid [OF assms] by (simp add: valid_port_def)

theorem outbound_port_in_range_witness:
  "\<exists>i. num 443 = num i \<and> 1 \<le> i \<and> i \<le> (65535 :: int)"
  by (rule outbound_port_in_range
      [of "''trojan''" "[(''servers'', JArr [JObj [(''port'', JNum (num 70000))]])]"
        "OTrojan (trojanFromWire [(''servers'', JArr [JObj [(''port'', JNum (num 70000))]])])"])
    (simp_all add: settingsFromWire_def trojanFromWire_def first_server_def asPort_def is_finite_def)

text \<open>A multiplexing block is stored only for the protocols that support it, never with a
  VLESS flow and never over xhttp; and an outbound without a transport stores at most a
  \<open>sockopt\<close> stream block.\<close>

theorem mux_emitted_only_if_allowed:
  "(oget (formValuesToWirePayload f) ''mux'' \<noteq> JUndef \<longrightarrow>
      protocol_name (of_settings f) \<in> set MUX_PROTOCOLS \<and> form_flow (of_settings f) = []
      \<and> (\<forall>st. of_stream f = Some st \<longrightarrow> oget st ''network'' \<noteq> JStr ''xhttp''))
   \<and> (protocol_name (of_settings f) \<notin> set STREAM_PROTOCOLS \<longrightarrow>
      oget (formValuesToWirePayload f) ''streamSettings'' = JUndef
      \<or> (\<exists>v. oget (formValuesToWirePayload f) ''streamSettings'' = JObj [(''sockopt'', v)]))"
  by (auto simp: payload_fields muxAllowed_def when_set_def split: option.splits if_splits)

theorem mux_emitted_only_if_allowed_witness:
  "protocol_name (of_settings sample_form) \<in> set MUX_PROTOCOLS \<and> form_flow (of_settings sample_form) = []"
  using mux_emitted_only_if_allowed [of sample_form]
  by (simp add: payload_fields sample_form_def muxAllowed_def MUX_PROTOCOLS_def form_flow_def MUX_DEFAULT_def)

end
