(* ===== verification/Factory_Forms.thy ===== *)
theory Factory_Forms
  imports Client_Defaults Outbound_Roundtrip
begin

text \<open>
  What the factories of \<^theory_text>\<open>Client_Defaults\<close> hand to the rest of the panel: outbound defaults
  that open as well-formed forms, WireGuard peers whose public key belongs to their private
  key, and MTProto secrets that keep their identity when the FakeTLS domain changes.
\<close>

section \<open>Outbound defaults in the form\<close>

definition opens_well :: "string \<Rightarrow> jobj option \<Rightarrow> bool" where
  "opens_well protocol r \<longleftrightarrow> (\<exists>s st. r = Some s \<and> settingsFromWire protocol s = Some st
     \<and> wf_settings st \<and> protocol_name st = protocol)"

lemma opens_well_Some: "settingsFromWire p s = Some st \<Longrightarrow> wf_settings st \<Longrightarrow> protocol_name st = p \<Longrightarrow> opens_well p (Some s)"
  by (simp add: opens_well_def)

lemma valid_port_defaults [simp]: "valid_port (Fin 443)" "valid_port (Fin 1080)" "valid_port (Fin 8080)" "valid_port (Fin 53)"
  unfolding valid_port_def
  by (rule exI [of _ 443], simp) (rule exI [of _ 1080], simp, rule exI [of _ 8080], simp, rule exI [of _ 53], simp)

lemma or_else_simps [simp]: "or_else (JStr s) v = JStr s" "or_else (JNum n) v = JNum n"
  by (simp_all add: or_else_def)

lemma wf_fresh_freedom: "wf_freedom (freedomFromWire [])"
  by (simp add: wf_freedom_def freedomFromWire_def fragmentFromWire_def Let_def wf_fragment_def one_of_def
      fragment_enabled_def fragment_entries_def is_finite_def strings_of_def)

lemma wf_fresh_dns: "wf_dns (dnsFromWire createDefaultDNSOutboundSettings)"
  by (simp add: createDefaultDNSOutboundSettings_def wf_dns_def dnsFromWire_def is_finite_def one_of_def asPort_valid)

lemma wf_fresh_vless: "wf_vless (vlessFromWire createDefaultVlessOutboundSettings)"
  by (simp add: createDefaultVlessOutboundSettings_def wf_vless_def vlessFromWire_def is_finite_def asPort_valid)

lemma wf_fresh_vmess: "wf_vmess (vmessFromWire createDefaultVmessOutboundSettings)"
  by (simp add: createDefaultVmessOutboundSettings_def wf_vmess_def vmessFromWire_def is_finite_def asPort_valid)

lemma wf_fresh_wireguard:
  assumes "proper_keypair kp"
  shows "\<exists>s. wireguardFromWire [(''mtu'', JNum (num 1420)), (''secretKey'', JStr (privateKey kp)), (''address'', JArr []),
       (''peers'', JArr [JObj [(''publicKey'', JStr []), (''allowedIPs'', JArr [JStr ''0.0.0.0/0'', JStr ''::/0'']),
          (''endpoint'', JStr [])]]), (''noKernelTun'', JBool False)] = Some s \<and> wf_wireguard s"
  using assms
  by (simp add: proper_keypair_def wireguardFromWire_def wf_wireguard_def is_finite_def num_truthy_def comma_canonical_def
      comma_parts_def one_of_def wf_peer_def peerFromWire_def strings_of_def Let_def trim_def trim_start_def)

lemma default_outbound_opens:
  assumes "protocol \<in> set [''freedom'', ''blackhole'', ''dns'', ''vmess'', ''vless'', ''trojan'', ''shadowsocks'',
     ''socks'', ''http'', ''wireguard'', ''hysteria'', ''loopback'']"
  shows "always (opens_well protocol) (createDefaultOutboundSettings protocol)"
proof -
  have a: "always (opens_well ''freedom'') (createDefaultOutboundSettings ''freedom'')"
    "always (opens_well ''blackhole'') (createDefaultOutboundSettings ''blackhole'')"
    "always (opens_well ''dns'') (createDefaultOutboundSettings ''dns'')"
    "always (opens_well ''vmess'') (createDefaultOutboundSettings ''vmess'')"
    "always (opens_well ''vless'') (createDefaultOutboundSettings ''vless'')"
    by (simp_all add: createDefaultOutboundSettings_def opens_well_def settingsFromWire_def wf_fresh_freedom wf_fresh_dns
        wf_fresh_vless wf_fresh_vmess createDefaultFreedomOutboundSettings_def
        createDefaultBlackholeOutboundSettings_def blackholeFromWire_def one_of_def)
  have b: "always (opens_well ''trojan'') (createDefaultOutboundSettings ''trojan'')"
    "always (opens_well ''shadowsocks'') (createDefaultOutboundSettings ''shadowsocks'')"
    "always (opens_well ''socks'') (createDefaultOutboundSettings ''socks'')"
    "always (opens_well ''http'') (createDefaultOutboundSettings ''http'')"
    by (simp_all add: createDefaultOutboundSettings_def opens_well_def settingsFromWire_def
        createDefaultTrojanOutboundSettings_def createDefaultShadowsocksOutboundSettings_def
        createDefaultSocksOutboundSettings_def createDefaultHttpOutboundSettings_def trojanFromWire_def
        shadowsocksFromWire_def simpleAuthFromWire_def first_server_def asPort_valid is_finite_def)
  have c: "always (opens_well ''hysteria'') (createDefaultOutboundSettings ''hysteria'')"
    "always (opens_well ''loopback'') (createDefaultOutboundSettings ''loopback'')"
    by (simp_all add: createDefaultOutboundSettings_def opens_well_def settingsFromWire_def
        createDefaultHysteriaOutboundSettings_def hysteriaFromWire_def asPort_valid
        createDefaultLoopbackOutboundSettings_def loopbackFromWire_def sniffing_absent) (simp add: SNIFFING_DEFAULT_def)
  have d: "always (opens_well ''wireguard'') (createDefaultOutboundSettings ''wireguard'')"
  proof -
    have "always (\<lambda>k. \<exists>kp. k = privateKey kp \<and> proper_keypair kp) (do { kp \<leftarrow> fresh_keypair; State_Monad.return (privateKey kp) })"
      by (rule always_bind [OF always_fresh_keypair]) auto
    then have "always (\<lambda>s. opens_well ''wireguard'' (Some s)) (createDefaultWireguardOutboundSettings None)"
      unfolding createDefaultWireguardOutboundSettings_def or_draw_simps
    proof (rule always_bind, elim exE conjE)
      fix k kp assume "k = privateKey kp" "proper_keypair kp"
      with wf_fresh_wireguard [of kp] obtain s where "wireguardFromWire [(''mtu'', JNum (num 1420)), (''secretKey'', JStr k),
          (''address'', JArr []), (''peers'', JArr [JObj [(''publicKey'', JStr []),
          (''allowedIPs'', JArr [JStr ''0.0.0.0/0'', JStr ''::/0'']), (''endpoint'', JStr [])]]),
          (''noKernelTun'', JBool False)] = Some s" and "wf_wireguard s" by blast
      then show "always (\<lambda>s. opens_well ''wireguard'' (Some s))
        (State_Monad.return [(''mtu'', JNum (num 1420)), (''secretKey'', JStr k), (''address'', JArr []),
          (''peers'', JArr [JObj [(''publicKey'', JStr []), (''allowedIPs'', JArr [JStr ''0.0.0.0/0'', JStr ''::/0'']),
             (''endpoint'', JStr [])]]), (''noKernelTun'', JBool False)])"
        unfolding always_return by (intro opens_well_Some [of _ _ "OWireguard s"]) (simp_all add: settingsFromWire_def)
    qed
    then show ?thesis
      by (simp add: createDefaultOutboundSettings_def) (rule always_bind, assumption, simp)
  qed
  show ?thesis using assms a b c d by (simp only: list.set insert_iff empty_iff simp_thms) (elim disjE; simp only:)
qed

text \<open>An outbound the panel scaffolds for any of the twelve protocols opens in the editor,
  under its own protocol, as a well-formed form: its port is valid, its enumerations are legal
  values, and for WireGuard the displayed public key is the one of the secret key drawn.
  (Well-formed forms are the ones that survive storing and reading back.)\<close>

theorem default_outbound_well_formed:
  assumes "protocol \<in> set [''freedom'', ''blackhole'', ''dns'', ''vmess'', ''vless'', ''trojan'', ''shadowsocks'',
     ''socks'', ''http'', ''wireguard'', ''hysteria'', ''loopback'']"
  shows "always (\<lambda>r. \<exists>s st. r = Some s \<and> settingsFromWire protocol s = Some st \<and> wf_settings st
      \<and> protocol_name st = protocol) (createDefaultOutboundSettings protocol)"
  using default_outbound_opens [OF assms] unfolding opens_well_def .

theorem default_outbound_well_formed_witness:
  "always (\<lambda>r. \<exists>s st. r = Some s \<and> settingsFromWire ''wireguard'' s = Some st \<and> wf_settings st
      \<and> protocol_name st = ''wireguard'') (createDefaultOutboundSettings ''wireguard'')"
  by (rule default_outbound_well_formed) simp

section \<open>WireGuard inbounds\<close>

text \<open>A new WireGuard inbound carries one peer whose public key is the one its private key
  derives, and a nonempty server key; a given peer key that is not Base64 is rejected.\<close>

theorem wireguard_inbound_peer_key:
  "always (\<lambda>r. case r of
       None \<Rightarrow> (\<exists>k. peerKey = Some k \<and> derived_pubKey k = None)
     | Some s \<Rightarrow> \<exists>priv pub secret. derived_pubKey priv = Some pub \<and> priv \<noteq> []
         \<and> (\<forall>k. peerKey = Some k \<and> k \<noteq> [] \<longrightarrow> priv = k)
         \<and> oget s ''peers'' = JArr [JObj [(''privateKey'', JStr priv), (''publicKey'', JStr pub),
              (''allowedIPs'', JArr [JStr ''10.0.0.2/32'']), (''keepAlive'', JNum (num 0))]]
         \<and> oget s ''secretKey'' = JStr secret \<and> secret \<noteq> [])
     (createDefaultWireguardInboundSettings mtu None noKernelTun peerKey)"
proof -
  have k: "always (\<lambda>k. k \<noteq> []) (do { kp \<leftarrow> fresh_keypair; State_Monad.return (privateKey kp) })"
    by (rule always_bind [OF always_fresh_keypair]) (simp add: proper_keypair_def)
  have f: "always (\<lambda>r. \<exists>priv pub. r = Some (priv, pub) \<and> derived_pubKey priv = Some pub \<and> priv \<noteq> [])
      (do { kp \<leftarrow> fresh_keypair; State_Monad.return (Some (privateKey kp, publicKey kp)) })"
    by (rule always_bind [OF always_fresh_keypair]) (simp add: proper_keypair_def)
  define peer where "peer = (case peerKey of
        Some k \<Rightarrow> if k \<noteq> [] then State_Monad.return (map_option (\<lambda>pub. (k, pub)) (derived_pubKey k))
                  else do { kp \<leftarrow> fresh_keypair; State_Monad.return (Some (privateKey kp, publicKey kp)) }
      | None \<Rightarrow> do { kp \<leftarrow> fresh_keypair; State_Monad.return (Some (privateKey kp, publicKey kp)) })"
  have "always (\<lambda>r. case r of None \<Rightarrow> (\<exists>k. peerKey = Some k \<and> derived_pubKey k = None)
     | Some (priv, pub) \<Rightarrow> derived_pubKey priv = Some pub \<and> priv \<noteq> [] \<and> (\<forall>k. peerKey = Some k \<and> k \<noteq> [] \<longrightarrow> priv = k)) peer"
  proof (cases "\<exists>k. peerKey = Some k \<and> k \<noteq> []")
    case True
    then obtain k where "peerKey = Some k" "k \<noteq> []" by blast
    then show ?thesis by (cases "derived_pubKey k") (simp_all add: peer_def)
  next
    case False
    then have "peer = (do { kp \<leftarrow> fresh_keypair; State_Monad.return (Some (privateKey kp, publicKey kp)) })"
      by (auto simp: peer_def split: option.splits)
    with f show ?thesis by (simp only:) (rule always_mono, assumption, use False in auto)
  qed
  then show ?thesis
    unfolding createDefaultWireguardInboundSettings_def peer_def [symmetric] or_draw_simps
  proof (rule always_bind, goal_cases)
    case (1 r)
    show ?case
    proof (cases r)
      case None
      with 1 show ?thesis by simp
    next
      case (Some a)
      obtain priv pub where a: "a = (priv, pub)" by (cases a)
      show ?thesis unfolding Some a option.case prod.case
        by (rule always_bind [OF k]) (use 1 Some a in simp)
    qed
  qed
qed

theorem wireguard_inbound_peer_key_witness:
  "always (\<lambda>r. r \<noteq> None) (createDefaultWireguardInboundSettings None None None None)"
  by (rule always_mono [OF wireguard_inbound_peer_key]) (simp split: option.splits)

section \<open>MTProto secrets\<close>

lemma hex_char_ok: "d < 16 \<Longrightarrow> is_hex (hex_char d) \<and> digit_val (hex_char d) = d"
  by (auto simp: hex_char_def is_hex_def is_digit_def digit_val_def)

text \<open>The bytes a hexadecimal text stands for.\<close>

fun hex_bytes :: "string \<Rightarrow> nat list" where
  "hex_bytes (a # b # s) = (16 * digit_val a + digit_val b) # hex_bytes s"
| "hex_bytes s = []"

lemma hex_bytes_digits:
  assumes "\<forall>b \<in> set bs. b < 256"
  shows "hex_bytes (concat (map (\<lambda>b. [hex_char (b div 16), hex_char (b mod 16)]) bs)) = bs"
  using assms
proof (induction bs)
  case (Cons b bs)
  then have "b div 16 < 16" by auto
  then show ?case using Cons by (simp add: hex_char_ok)
qed simp

lemma hex_prefix:
  assumes "length m = 32" "\<forall>c \<in> set m. is_hex c"
  shows "mtprotoSecretForDomain (''ee'' @ m @ r) d = State_Monad.return (''ee'' @ m @ domainToHex d)"
  using assms by (simp add: mtprotoSecretForDomain_def starts_with_append [of "''ee''", simplified])

text \<open>A generated FakeTLS secret is \<open>ee\<close>, 32 hexadecimal digits and the domain in
  hexadecimal, from which the domain's bytes can be read back; changing the domain keeps
  the 32 digits, so the secret keeps its identity.\<close>

theorem mtproto_secret_identity:
  assumes "\<forall>c \<in> set domain. scalar_value c"
  shows "always (\<lambda>s. \<exists>m. length m = 32 \<and> (\<forall>c \<in> set m. is_hex c) \<and> s = ''ee'' @ m @ domainToHex domain
      \<and> hex_bytes (drop 34 s) = utf8_encode domain
      \<and> (\<forall>domain'. always (\<lambda>s'. s' = ''ee'' @ m @ domainToHex domain') (mtprotoSecretForDomain s domain')))
    (generateMtprotoSecret domain)"
  unfolding generateMtprotoSecret_def
proof (rule always_bind [OF always_randomHex])
  fix m assume m: "length m = 32 \<and> set m \<subseteq> set ''0123456789abcdef''"
  then have h: "\<forall>c \<in> set m. is_hex c" by (auto simp: is_hex_def is_digit_def)
  have "hex_bytes (domainToHex domain) = utf8_encode domain"
    unfolding domainToHex_def by (rule hex_bytes_digits) (rule utf8_encode_bytes [OF assms])
  then show "always (\<lambda>s. \<exists>m. length m = 32 \<and> (\<forall>c \<in> set m. is_hex c) \<and> s = ''ee'' @ m @ domainToHex domain
      \<and> hex_bytes (drop 34 s) = utf8_encode domain
      \<and> (\<forall>domain'. always (\<lambda>s'. s' = ''ee'' @ m @ domainToHex domain') (mtprotoSecretForDomain s domain')))
    (State_Monad.return (''ee'' @ m @ domainToHex domain))"
    unfolding always_return using m h hex_prefix [OF _ h] by (intro exI [of _ m]) simp
qed

theorem mtproto_secret_identity_witness:
  "always (\<lambda>s. \<exists>m. length m = 32 \<and> s = ''ee'' @ m @ domainToHex [97, 46, 228]
      \<and> hex_bytes (drop 34 s) = utf8_encode [97, 46, 228]) (generateMtprotoSecret [97, 46, 228])"
  by (rule always_mono [OF mtproto_secret_identity]) (auto simp: scalar_value_def)

end
