(* ===== verification/Protocol_Migration.thy ===== *)
theory Protocol_Migration
  imports Client_Defaults
begin

text \<open>
  \<open>frontend/src/lib/xray/protocol-migration.ts\<close>: the operator changes the protocol of an
  inbound, and every client is rebuilt for the target protocol.
\<close>

definition CLIENT_BEARING_PROTOCOLS :: "string list" where
  "CLIENT_BEARING_PROTOCOLS = [''vless'', ''vmess'', ''trojan'', ''shadowsocks'', ''hysteria'']"

definition protocolSupportsClients :: "string \<Rightarrow> bool" where
  "protocolSupportsClients protocol \<longleftrightarrow> protocol \<in> set CLIENT_BEARING_PROTOCOLS"

definition str_value :: "jv \<Rightarrow> string option" where
  "str_value v = (case v of JStr s \<Rightarrow> if s \<noteq> [] then Some s else None | _ \<Rightarrow> None)"

definition int_value :: "jv \<Rightarrow> jsnum option" where
  "int_value v =
     (case v of
        JNum n \<Rightarrow> if is_finite n then Some n else None
      | JStr s \<Rightarrow> if trim s \<noteq> [] \<and> is_finite (js_number s) then Some (js_number s) else None
      | _ \<Rightarrow> None)"

definition baseSeed :: "jobj \<Rightarrow> client_seed" where
  "baseSeed client =
     \<lparr>sd_email = str_value (oget client ''email''), sd_subId = str_value (oget client ''subId''),
      sd_limitIp = int_value (oget client ''limitIp''), sd_totalGB = int_value (oget client ''totalGB''),
      sd_expiryTime = int_value (oget client ''expiryTime''),
      sd_enable = (case oget client ''enable'' of JBool b \<Rightarrow> Some b | _ \<Rightarrow> None),
      sd_tgId = int_value (oget client ''tgId''), sd_comment = str_value (oget client ''comment''),
      sd_reset = int_value (oget client ''reset'')\<rparr>"

definition set_some :: "string \<Rightarrow> jsnum option \<Rightarrow> jobj \<Rightarrow> jobj" where
  "set_some k v ob = (case v of Some n \<Rightarrow> oset k (JNum n) ob | None \<Rightarrow> ob)"

definition carryExtras :: "jobj \<Rightarrow> jobj \<Rightarrow> string \<Rightarrow> jobj" where
  "carryExtras source target protocol =
     (let target = set_some ''created_at'' (int_value (oget source ''created_at'')) target;
          target = set_some ''updated_at'' (int_value (oget source ''updated_at'')) target
      in case as_record (oget source ''reverse'') of
           Some r \<Rightarrow> if protocol = ''vless'' then oset ''reverse'' (JObj r) target else target
         | None \<Rightarrow> target)"

definition uuid_or_fresh :: "string rand \<Rightarrow> string option \<Rightarrow> string rand" where
  "uuid_or_fresh fresh uuid =
     (case uuid of Some u \<Rightarrow> if is_uuid u then State_Monad.return u else fresh | None \<Rightarrow> fresh)"

definition first_some :: "'a option \<Rightarrow> 'a option \<Rightarrow> 'a option" where
  "first_some a b = (case a of Some x \<Rightarrow> Some x | None \<Rightarrow> b)"

text \<open>One client; \<open>None\<close> is the \<open>continue\<close> of an unknown protocol.\<close>

definition migrateClient ::
    "string rand \<Rightarrow> string \<Rightarrow> string option \<Rightarrow> string option \<Rightarrow> jobj \<Rightarrow> jobj option rand" where
  "migrateClient freshUUID target fromProtocol ssMethod source =
     (let seed = baseSeed source;
          uuid = str_value (oget source ''id'');
          password = str_value (oget source ''password'');
          auth = str_value (oget source ''auth'');
          wrap = (\<lambda>m. do { c \<leftarrow> m; State_Monad.return (Some (carryExtras source c target)) })
      in if target = ''vless'' then wrap (do {
           i \<leftarrow> uuid_or_fresh freshUUID uuid;
           createDefaultVlessClient freshUUID (Some i) (Some []) seed })
         else if target = ''vmess'' then wrap (do {
           i \<leftarrow> uuid_or_fresh freshUUID uuid;
           createDefaultVmessClient freshUUID (Some i) None seed })
         else if target = ''trojan'' then wrap (createDefaultTrojanClient (first_some password auth) seed)
         else if target = ''shadowsocks'' then wrap (createDefaultShadowsocksClient
           (Some (if fromProtocol = Some ''shadowsocks'' then default_to [] (str_value (oget source ''method'')) else []))
           (if fromProtocol = Some ''shadowsocks'' then password else None) ssMethod seed)
         else if target = ''hysteria'' then wrap (createDefaultHysteriaClient (first_some auth password) seed)
         else State_Monad.return None)"

definition migrateClientsToProtocol ::
    "string rand \<Rightarrow> string \<Rightarrow> jv \<Rightarrow> string option \<Rightarrow> string option \<Rightarrow> jobj list rand" where
  "migrateClientsToProtocol freshUUID target clients fromProtocol ssMethod =
     (if \<not> protocolSupportsClients target then State_Monad.return []
      else case clients of
        JArr cs \<Rightarrow> do {
          out \<leftarrow> map_rand (migrateClient freshUUID target fromProtocol ssMethod) (List.map_filter as_record cs);
          State_Monad.return (List.map_filter id out) }
      | _ \<Rightarrow> State_Monad.return [])"

section \<open>What a migrated client keeps\<close>

text \<open>Identity and quota of the source client.\<close>

definition base_kept :: "jobj \<Rightarrow> jobj \<Rightarrow> bool" where
  "base_kept source c \<longleftrightarrow>
     (\<forall>e. str_value (oget source ''email'') = Some e \<longrightarrow> oget c ''email'' = JStr e)
     \<and> (\<forall>s. str_value (oget source ''subId'') = Some s \<longrightarrow> oget c ''subId'' = JStr s)
     \<and> (\<forall>k \<in> {''limitIp'', ''totalGB'', ''expiryTime'', ''tgId'', ''reset''}.
          oget c k = JNum (default_to (num 0) (int_value (oget source k))))
     \<and> oget c ''enable'' = (case oget source ''enable'' of JBool b \<Rightarrow> JBool b | _ \<Rightarrow> JBool True)
     \<and> oget c ''comment'' = JStr (default_to [] (str_value (oget source ''comment'')))"

text \<open>The credential of the target protocol.\<close>

definition credential_ok :: "string \<Rightarrow> string option \<Rightarrow> string option \<Rightarrow> jobj \<Rightarrow> jobj \<Rightarrow> bool" where
  "credential_ok target from ssMethod source c \<longleftrightarrow>
     (if target \<in> {''vless'', ''vmess''} then
        (\<exists>i. oget c ''id'' = JStr i \<and> is_uuid i \<and> (\<forall>u. oget source ''id'' = JStr u \<and> is_uuid u \<longrightarrow> i = u))
      else if target = ''trojan'' then
        (case first_some (str_value (oget source ''password'')) (str_value (oget source ''auth'')) of
           Some p \<Rightarrow> oget c ''password'' = JStr p | None \<Rightarrow> \<exists>p. oget c ''password'' = JStr p \<and> length p = 10)
      else if target = ''hysteria'' then
        (case first_some (str_value (oget source ''auth'')) (str_value (oget source ''password'')) of
           Some p \<Rightarrow> oget c ''auth'' = JStr p | None \<Rightarrow> \<exists>p. oget c ''auth'' = JStr p \<and> length p = 10)
      else (\<exists>p. oget c ''password'' = JStr p
         \<and> (if from = Some ''shadowsocks'' \<and> str_value (oget source ''password'') = Some p then True
            else isShadowsocks2022Password p (default_to ''2022-blake3-aes-256-gcm'' ssMethod))))"

lemma always_or_draw: "(\<And>x. a = Some x \<Longrightarrow> Q x) \<Longrightarrow> (a = None \<Longrightarrow> always Q m) \<Longrightarrow> always Q (or_draw a m)"
  by (cases a) (auto simp: or_draw_def)

definition base_object :: "client_seed \<Rightarrow> jobj \<Rightarrow> bool" where
  "base_object seed b \<longleftrightarrow> (\<exists>email subId. (\<forall>e. sd_email seed = Some e \<longrightarrow> email = e) \<and> (\<forall>s. sd_subId seed = Some s \<longrightarrow> subId = s)
     \<and> b = [(''email'', JStr email), (''limitIp'', JNum (default_to (num 0) (sd_limitIp seed))),
       (''totalGB'', JNum (default_to (num 0) (sd_totalGB seed))),
       (''expiryTime'', JNum (default_to (num 0) (sd_expiryTime seed))),
       (''enable'', JBool (default_to True (sd_enable seed))), (''tgId'', JNum (default_to (num 0) (sd_tgId seed))),
       (''subId'', JStr subId), (''comment'', JStr (default_to [] (sd_comment seed))),
       (''reset'', JNum (default_to (num 0) (sd_reset seed)))])"

lemma always_clientBase: "always (base_object seed) (clientBase seed)"
  unfolding clientBase_def
proof (rule always_bind [of "\<lambda>x. \<forall>e. sd_email seed = Some e \<longrightarrow> x = e"], rule always_or_draw)
  fix email assume e: "\<forall>e. sd_email seed = Some e \<longrightarrow> email = e"
  show "always (base_object seed) (or_draw (sd_subId seed) (randomLowerAndNum 16) \<bind> (\<lambda>subId. State_Monad.return
      [(''email'', JStr email), (''limitIp'', JNum (default_to (num 0) (sd_limitIp seed))),
       (''totalGB'', JNum (default_to (num 0) (sd_totalGB seed))),
       (''expiryTime'', JNum (default_to (num 0) (sd_expiryTime seed))),
       (''enable'', JBool (default_to True (sd_enable seed))), (''tgId'', JNum (default_to (num 0) (sd_tgId seed))),
       (''subId'', JStr subId), (''comment'', JStr (default_to [] (sd_comment seed))),
       (''reset'', JNum (default_to (num 0) (sd_reset seed)))]))"
    by (rule always_bind [of "\<lambda>x. \<forall>e. sd_subId seed = Some e \<longrightarrow> x = e"], rule always_or_draw)
      (use e in \<open>auto simp: base_object_def always_def\<close>)
qed (auto simp: always_def)

lemma oget_carryExtras:
  "k \<notin> {''created_at'', ''updated_at'', ''reverse''} \<Longrightarrow> oget (carryExtras source c p) k = oget c k"
  by (auto simp: carryExtras_def set_some_def Let_def split: option.splits)

lemma oget_append_fresh:
  assumes "k \<notin> set (okeys ps)"
  shows "oget (ps @ b) k = oget b k"
proof -
  have "map_of ps k = None" using assms by (simp add: map_of_eq_None_iff)
  then show ?thesis by (simp add: oget_def map_add_def split: option.splits)
qed

definition base_keys :: "string list" where
  "base_keys = [''email'', ''subId'', ''limitIp'', ''totalGB'', ''expiryTime'', ''tgId'', ''reset'', ''enable'', ''comment'']"

lemma base_keys_not_extra: "k \<in> set base_keys \<Longrightarrow> k \<notin> {''created_at'', ''updated_at'', ''reverse''}"
  unfolding base_keys_def by (simp only: set_simps) (elim insertE emptyE; simp)

lemma base_keys_simps:
  "''email'' \<in> set base_keys" "''subId'' \<in> set base_keys" "''limitIp'' \<in> set base_keys" "''totalGB'' \<in> set base_keys"
  "''expiryTime'' \<in> set base_keys" "''tgId'' \<in> set base_keys" "''reset'' \<in> set base_keys" "''enable'' \<in> set base_keys"
  "''comment'' \<in> set base_keys"
  by (simp_all add: base_keys_def)

lemma oget_migrated_base:
  assumes "k \<in> set base_keys" and "set (okeys ps) \<inter> set base_keys = {}"
  shows "oget (carryExtras source (ps @ b) p) k = oget b k"
proof -
  have "k \<notin> set (okeys ps)" using assms by blast
  from oget_append_fresh [OF this] show ?thesis
    by (simp only: oget_carryExtras [OF base_keys_not_extra [OF assms(1)]])
qed

lemma base_object_kept:
  assumes "base_object (baseSeed source) b" and a: "\<And>k. k \<in> set base_keys \<Longrightarrow> oget c k = oget b k"
  shows "base_kept source c"
proof -
  let ?s = "baseSeed source"
  obtain email subId where e: "\<forall>e. sd_email ?s = Some e \<longrightarrow> email = e" "\<forall>s. sd_subId ?s = Some s \<longrightarrow> subId = s"
    and b: "oget b ''email'' = JStr email" "oget b ''subId'' = JStr subId"
      "oget b ''limitIp'' = JNum (default_to (num 0) (sd_limitIp ?s))" "oget b ''totalGB'' = JNum (default_to (num 0) (sd_totalGB ?s))"
      "oget b ''expiryTime'' = JNum (default_to (num 0) (sd_expiryTime ?s))" "oget b ''tgId'' = JNum (default_to (num 0) (sd_tgId ?s))"
      "oget b ''reset'' = JNum (default_to (num 0) (sd_reset ?s))" "oget b ''enable'' = JBool (default_to True (sd_enable ?s))"
      "oget b ''comment'' = JStr (default_to [] (sd_comment ?s))"
    using assms(1) unfolding base_object_def by (elim exE conjE) (simp add: oget_def)
  have en: "JBool (default_to True (sd_enable ?s)) = (case oget source ''enable'' of JBool b \<Rightarrow> JBool b | _ \<Rightarrow> JBool True)"
    by (cases "oget source ''enable''") (simp_all add: baseSeed_def default_to_def)
  have s: "sd_email ?s = str_value (oget source ''email'')" "sd_subId ?s = str_value (oget source ''subId'')"
    "sd_limitIp ?s = int_value (oget source ''limitIp'')" "sd_totalGB ?s = int_value (oget source ''totalGB'')"
    "sd_expiryTime ?s = int_value (oget source ''expiryTime'')" "sd_tgId ?s = int_value (oget source ''tgId'')"
    "sd_comment ?s = str_value (oget source ''comment'')" "sd_reset ?s = int_value (oget source ''reset'')"
    by (simp_all add: baseSeed_def)
  have "\<forall>e. str_value (oget source ''email'') = Some e \<longrightarrow> oget c ''email'' = JStr e"
    using e(1) by (simp only: a [OF base_keys_simps(1)] b s) blast
  moreover have "\<forall>e. str_value (oget source ''subId'') = Some e \<longrightarrow> oget c ''subId'' = JStr e"
    using e(2) by (simp only: a [OF base_keys_simps(2)] b s) blast
  moreover have "oget c ''limitIp'' = JNum (default_to (num 0) (int_value (oget source ''limitIp'')))"
    "oget c ''totalGB'' = JNum (default_to (num 0) (int_value (oget source ''totalGB'')))"
    "oget c ''expiryTime'' = JNum (default_to (num 0) (int_value (oget source ''expiryTime'')))"
    "oget c ''tgId'' = JNum (default_to (num 0) (int_value (oget source ''tgId'')))"
    "oget c ''reset'' = JNum (default_to (num 0) (int_value (oget source ''reset'')))"
    by (simp_all only: a base_keys_simps b s)
  moreover have "oget c ''enable'' = (case oget source ''enable'' of JBool b \<Rightarrow> JBool b | _ \<Rightarrow> JBool True)"
    by (simp only: a base_keys_simps b en)
  moreover have "oget c ''comment'' = JStr (default_to [] (str_value (oget source ''comment'')))"
    by (simp only: a base_keys_simps b s)
  ultimately show ?thesis unfolding base_kept_def by (simp only: ball_simps simp_thms)
qed

lemma always_wrap:
  assumes "always Q m" and "\<And>c. Q c \<Longrightarrow> P (Some (carryExtras source c t))"
  shows "always P (do { c \<leftarrow> m; State_Monad.return (Some (carryExtras source c t)) })"
  by (rule always_bind [OF assms(1)]) (simp add: assms(2))

definition migrated_ok :: "string \<Rightarrow> string option \<Rightarrow> string option \<Rightarrow> jobj \<Rightarrow> jobj option \<Rightarrow> bool" where
  "migrated_ok target from ssMethod source r \<longleftrightarrow>
     (\<exists>c. r = Some c \<and> base_kept source c \<and> credential_ok target from ssMethod source c)"

lemma migrated_okI:
  assumes "base_object (baseSeed source) b" and "set (okeys ps) \<inter> set base_keys = {}"
    and "credential_ok target from ssMethod source (carryExtras source (ps @ b) target)"
  shows "migrated_ok target from ssMethod source (Some (carryExtras source (ps @ b) target))"
  unfolding migrated_ok_def using base_object_kept [OF assms(1) oget_migrated_base [OF _ assms(2)]] assms(3) by blast

text \<open>The shape every factory of a client returns: its credential keys, then the base.\<close>

definition client_with :: "client_seed \<Rightarrow> (jobj \<Rightarrow> bool) \<Rightarrow> jobj \<Rightarrow> bool" where
  "client_with seed P c \<longleftrightarrow> (\<exists>ps b. c = ps @ b \<and> P ps \<and> base_object seed b)"

lemma always_client_with:
  assumes "always Q m" and "\<And>x. Q x \<Longrightarrow> P (f x)"
  shows "always (client_with seed P) (do { x \<leftarrow> m; b \<leftarrow> clientBase seed; State_Monad.return (f x @ b) })"
proof (rule always_bind [OF assms(1)], rule always_bind [OF always_clientBase])
  fix x b assume "Q x" "base_object seed b"
  then show "always (client_with seed P) (State_Monad.return (f x @ b))"
    using assms(2) unfolding client_with_def by auto
qed

lemma str_value_Some: "str_value v = Some s \<longleftrightarrow> v = JStr s \<and> s \<noteq> []"
  by (auto simp: str_value_def split: jv.splits)

lemma is_uuid_nonempty: "is_uuid u \<Longrightarrow> u \<noteq> []"
  by (auto simp: is_uuid_def)

definition uuid_kept :: "jv \<Rightarrow> string \<Rightarrow> bool" where
  "uuid_kept v i \<longleftrightarrow> is_uuid i \<and> (\<forall>u. v = JStr u \<and> is_uuid u \<longrightarrow> i = u)"

lemma always_uuid_or_fresh:
  assumes "always is_uuid fresh"
  shows "always (uuid_kept v) (uuid_or_fresh fresh (str_value v))"
proof (cases "\<exists>u. v = JStr u \<and> is_uuid u")
  case True
  then obtain u where "v = JStr u" "is_uuid u" by blast
  then show ?thesis using is_uuid_nonempty by (simp add: uuid_or_fresh_def str_value_def uuid_kept_def)
next
  case False
  then have "uuid_or_fresh fresh (str_value v) = fresh"
    by (auto simp: uuid_or_fresh_def str_value_Some split: option.splits)
  moreover have "always (uuid_kept v) fresh"
    by (rule always_mono [OF assms]) (use False in \<open>auto simp: uuid_kept_def\<close>)
  ultimately show ?thesis by simp
qed

lemma oget_first: "oget ((j, v) # ps) k = (if k = j then v else oget ps k)"
  by (simp add: oget_def)

lemma always_migrated:
  assumes m: "always (client_with (baseSeed source) (\<lambda>ps. \<exists>x. ps = f x \<and> R x)) m"
    and keys: "\<And>x. set (okeys (f x)) \<inter> set base_keys = {}"
    and cred: "\<And>x b. R x \<Longrightarrow> credential_ok target from ssMethod source (carryExtras source (f x @ b) target)"
  shows "always (migrated_ok target from ssMethod source)
    (do { c \<leftarrow> m; State_Monad.return (Some (carryExtras source c target)) })"
proof (rule always_wrap [OF m])
  fix c assume "client_with (baseSeed source) (\<lambda>ps. \<exists>x. ps = f x \<and> R x) c"
  then obtain x b where "c = f x @ b" "R x" "base_object (baseSeed source) b" unfolding client_with_def by blast
  then show "migrated_ok target from ssMethod source (Some (carryExtras source c target))"
    using migrated_okI [OF _ keys cred] by simp
qed

lemmas migrate_unfold = migrateClient_def Let_def simp_thms if_True if_False

lemma target_neqs:
  "(''vmess'' = ''vless'') = False" "(''trojan'' = ''vless'') = False" "(''trojan'' = ''vmess'') = False"
  "(''shadowsocks'' = ''vless'') = False" "(''shadowsocks'' = ''vmess'') = False" "(''shadowsocks'' = ''trojan'') = False"
  "(''hysteria'' = ''vless'') = False" "(''hysteria'' = ''vmess'') = False" "(''hysteria'' = ''trojan'') = False"
  "(''hysteria'' = ''shadowsocks'') = False"
  by simp_all

lemma always_migrate_vless:
  assumes "always is_uuid fresh"
  shows "always (migrated_ok ''vless'' from ssMethod source) (migrateClient fresh ''vless'' from ssMethod source)"
  unfolding migrate_unfold
proof (rule always_migrated [where f = "\<lambda>i. [(''id'', JStr i), (''flow'', JStr [])]" and R = "uuid_kept (oget source ''id'')"])
  show "always (client_with (baseSeed source) (\<lambda>ps. \<exists>i. ps = [(''id'', JStr i), (''flow'', JStr [])] \<and> uuid_kept (oget source ''id'') i))
      (do { i \<leftarrow> uuid_or_fresh fresh (str_value (oget source ''id''));
            createDefaultVlessClient fresh (Some i) (Some []) (baseSeed source) })"
    unfolding createDefaultVlessClient_def or_draw_simps return_bind default_to_def option.case
    by (rule always_client_with [OF always_uuid_or_fresh [OF assms]]) blast
qed (simp_all add: base_keys_def credential_ok_def uuid_kept_def oget_carryExtras oget_first)

lemma always_migrate_vmess:
  assumes "always is_uuid fresh"
  shows "always (migrated_ok ''vmess'' from ssMethod source) (migrateClient fresh ''vmess'' from ssMethod source)"
  unfolding migrate_unfold target_neqs
proof (rule always_migrated [where f = "\<lambda>i. [(''id'', JStr i), (''security'', JStr ''auto''), (''alterId'', JNum (num 0))]" and R = "uuid_kept (oget source ''id'')"])
  show "always (client_with (baseSeed source) (\<lambda>ps. \<exists>i. ps = [(''id'', JStr i), (''security'', JStr ''auto''), (''alterId'', JNum (num 0))] \<and> uuid_kept (oget source ''id'') i))
      (do { i \<leftarrow> uuid_or_fresh fresh (str_value (oget source ''id''));
            createDefaultVmessClient fresh (Some i) None (baseSeed source) })"
    unfolding createDefaultVmessClient_def or_draw_simps return_bind default_to_def option.case
    by (rule always_client_with [OF always_uuid_or_fresh [OF assms]]) blast
qed (simp_all add: base_keys_def credential_ok_def uuid_kept_def oget_carryExtras oget_first)

definition secret_kept :: "string option \<Rightarrow> (string \<Rightarrow> bool) \<Rightarrow> string \<Rightarrow> bool" where
  "secret_kept v P p \<longleftrightarrow> (case v of Some s \<Rightarrow> p = s | None \<Rightarrow> P p)"

lemma always_secret: "always P m \<Longrightarrow> always (secret_kept v P) (or_draw v m)"
  by (cases v) (simp_all add: secret_kept_def [abs_def])

lemma always_migrate_trojan:
  "always (migrated_ok ''trojan'' from ssMethod source) (migrateClient fresh ''trojan'' from ssMethod source)"
  unfolding migrate_unfold target_neqs
proof (rule always_migrated [where f = "\<lambda>p. [(''password'', JStr p)]" and R = "secret_kept
    (first_some (str_value (oget source ''password'')) (str_value (oget source ''auth''))) (\<lambda>p. length p = 10)"])
  show "always (client_with (baseSeed source) (\<lambda>ps. \<exists>p. ps = [(''password'', JStr p)] \<and> secret_kept
      (first_some (str_value (oget source ''password'')) (str_value (oget source ''auth''))) (\<lambda>p. length p = 10) p))
      (createDefaultTrojanClient (first_some (str_value (oget source ''password'')) (str_value (oget source ''auth''))) (baseSeed source))"
    unfolding createDefaultTrojanClient_def by (rule always_client_with [OF always_secret [OF always_randomSeq]]) blast
qed (simp_all add: base_keys_def credential_ok_def secret_kept_def oget_carryExtras oget_first split: option.splits)

lemma always_migrate_hysteria:
  "always (migrated_ok ''hysteria'' from ssMethod source) (migrateClient fresh ''hysteria'' from ssMethod source)"
  unfolding migrate_unfold target_neqs
proof (rule always_migrated [where f = "\<lambda>p. [(''auth'', JStr p)]" and R = "secret_kept
    (first_some (str_value (oget source ''auth'')) (str_value (oget source ''password''))) (\<lambda>p. length p = 10)"])
  show "always (client_with (baseSeed source) (\<lambda>ps. \<exists>p. ps = [(''auth'', JStr p)] \<and> secret_kept
      (first_some (str_value (oget source ''auth'')) (str_value (oget source ''password''))) (\<lambda>p. length p = 10) p))
      (createDefaultHysteriaClient (first_some (str_value (oget source ''auth'')) (str_value (oget source ''password''))) (baseSeed source))"
    unfolding createDefaultHysteriaClient_def by (rule always_client_with [OF always_secret [OF always_randomSeq]]) blast
qed (simp_all add: base_keys_def credential_ok_def secret_kept_def oget_carryExtras oget_first split: option.splits)

lemma always_migrate_shadowsocks:
  "always (migrated_ok ''shadowsocks'' from ssMethod source) (migrateClient fresh ''shadowsocks'' from ssMethod source)"
  unfolding migrate_unfold target_neqs
proof -
  let ?m = "if from = Some ''shadowsocks'' then default_to [] (str_value (oget source ''method'')) else []"
  let ?pw = "if from = Some ''shadowsocks'' then str_value (oget source ''password'') else None"
  let ?R = "secret_kept ?pw (\<lambda>p. isShadowsocks2022Password p (default_to ''2022-blake3-aes-256-gcm'' ssMethod))"
  have "always (client_with (baseSeed source) (\<lambda>ps. \<exists>p. ps = [(''method'', JStr ?m), (''password'', JStr p)] \<and> ?R p))
      (createDefaultShadowsocksClient (Some ?m) ?pw ssMethod (baseSeed source))"
    unfolding createDefaultShadowsocksClient_def default_to_def [of "[]" "Some ?m"] option.case
    by (rule always_client_with [OF always_secret [OF ss_password_ok]]) blast
  then show "always (migrated_ok ''shadowsocks'' from ssMethod source)
      (do { c \<leftarrow> createDefaultShadowsocksClient (Some ?m) ?pw ssMethod (baseSeed source);
            State_Monad.return (Some (carryExtras source c ''shadowsocks'')) })"
  proof (rule always_migrated)
    fix p b assume "?R p"
    then show "credential_ok ''shadowsocks'' from ssMethod source
        (carryExtras source ([(''method'', JStr ?m), (''password'', JStr p)] @ b) ''shadowsocks'')"
      by (cases "str_value (oget source ''password'')")
        (simp_all add: credential_ok_def secret_kept_def oget_carryExtras oget_first split: if_splits)
  qed (simp add: base_keys_def)
qed

lemma always_migrateClient:
  assumes u: "always is_uuid fresh" and t: "protocolSupportsClients target"
  shows "always (migrated_ok target from ssMethod source) (migrateClient fresh target from ssMethod source)"
proof -
  have "target = ''vless'' \<or> target = ''vmess'' \<or> target = ''trojan'' \<or> target = ''shadowsocks'' \<or> target = ''hysteria''"
    using t unfolding protocolSupportsClients_def CLIENT_BEARING_PROTOCOLS_def
    by (simp only: list.set insert_iff empty_iff simp_thms)
  then show ?thesis
    by (elim disjE) (simp_all only: always_migrate_vless [OF u] always_migrate_vmess [OF u] always_migrate_trojan
        always_migrate_shadowsocks always_migrate_hysteria)
qed

text \<open>C26: changing the protocol of an inbound keeps every client, in order: for any random source, each stored client object
  becomes one client of the target protocol with the same email, subscription id and quota
  fields (missing ones defaulted), and with a credential valid for that protocol: the old one
  where it still fits, else a fresh UUID, a ten-character secret, or a Shadowsocks key of
  the method's size. A protocol without clients gets none.\<close>

theorem migration_keeps_clients:
  assumes "always is_uuid fresh"
  shows "always (\<lambda>out. if protocolSupportsClients target
       then list_all2 (\<lambda>source c. base_kept source c \<and> credential_ok target from ssMethod source c)
              (List.map_filter as_record cs) out
       else out = [])
    (migrateClientsToProtocol fresh target (JArr cs) from ssMethod)"
proof (cases "protocolSupportsClients target")
  case True
  have "always (\<lambda>ys. list_all2 (migrated_ok target from ssMethod) (List.map_filter as_record cs) ys)
      (map_rand (migrateClient fresh target from ssMethod) (List.map_filter as_record cs))"
    by (rule always_map_rand) (rule always_migrateClient [OF assms True])
  moreover have "list_all2 (\<lambda>source c. base_kept source c \<and> credential_ok target from ssMethod source c) xs (List.map_filter id ys)"
    if "list_all2 (migrated_ok target from ssMethod) xs ys" for xs ys
    using that by (induction rule: list_all2_induct) (auto simp: migrated_ok_def List.map_filter_simps)
  ultimately show ?thesis
    using True by (simp add: migrateClientsToProtocol_def) (rule always_bind, assumption, simp)
qed (simp add: migrateClientsToProtocol_def)

theorem migration_keeps_clients_witness:
  "always (\<lambda>out. if protocolSupportsClients ''trojan''
       then list_all2 (\<lambda>source c. base_kept source c \<and> credential_ok ''trojan'' None None source c)
              (List.map_filter as_record [JObj [(''email'', JStr ''a@b'')], JNull]) out
       else out = [])
    (migrateClientsToProtocol (randomUUID None) ''trojan'' (JArr [JObj [(''email'', JStr ''a@b'')], JNull]) None None)"
  by (rule migration_keeps_clients) (rule always_nonnative_uuid)

end
