(* ===== verification/Header_Map.thy ===== *)
theory Header_Map
  imports Outbound_Form
begin

text \<open>
  \<open>frontend/src/lib/xray/headers.ts\<close>: the flat list of header entries a form edits and the
  header map Xray stores. Header names are chosen by the operator, so two quirks of
  JavaScript objects are modelled: \<open>Object.keys\<close> lists array indices first in ascending
  order, and \<open>name in out\<close> also finds what every object inherits.
\<close>

record header_entry =
  hd_name :: "string option"
  hd_value :: "string option"

definition entry :: "string \<Rightarrow> string \<Rightarrow> header_entry" where
  "entry name val = \<lparr>hd_name = Some name, hd_value = Some val\<rparr>"

section \<open>Keys of an object\<close>

definition is_array_index :: "string \<Rightarrow> bool" where
  "is_array_index s \<longleftrightarrow> s \<noteq> [] \<and> list_all is_digit s \<and> nat_str (digits_val 10 s) = s \<and> digits_val 10 s < 2 ^ 32 - 1"

definition js_keys :: "jobj \<Rightarrow> string list" where
  "js_keys ps = sort_key (digits_val 10) (filter is_array_index (okeys ps)) @ filter (\<lambda>k. \<not> is_array_index k) (okeys ps)"

definition OBJECT_PROTOTYPE_KEYS :: "string list" where
  "OBJECT_PROTOTYPE_KEYS = [''constructor'', ''__defineGetter__'', ''__defineSetter__'', ''hasOwnProperty'',
     ''__lookupGetter__'', ''__lookupSetter__'', ''isPrototypeOf'', ''propertyIsEnumerable'', ''toString'', ''valueOf'',
     ''__proto__'', ''toLocaleString'']"

definition inherited :: "string \<Rightarrow> bool" where
  "inherited name \<longleftrightarrow> name \<in> set OBJECT_PROTOTYPE_KEYS"

text \<open>\<open>out[name] = value\<close> for a string: assigning one to \<open>__proto__\<close> has no effect.\<close>

definition assign_string :: "string \<Rightarrow> string \<Rightarrow> jobj \<Rightarrow> jobj" where
  "assign_string name val out = (if name = ''__proto__'' then out else oset name (JStr val) out)"

section \<open>The conversions\<close>

definition entries_of :: "string \<Rightarrow> jv \<Rightarrow> header_entry list" where
  "entries_of key vals =
     (case vals of
        JStr s \<Rightarrow> [entry key s]
      | JArr vs \<Rightarrow> List.map_filter (\<lambda>v. map_option (entry key) (js_str_of v)) vs
      | _ \<Rightarrow> [])"

definition toHeaders :: "jv \<Rightarrow> header_entry list" where
  "toHeaders v2Headers =
     (case own_props v2Headers of
        None \<Rightarrow> []
      | Some m \<Rightarrow> concat (map (\<lambda>key. entries_of key (oget m key)) (js_keys m)))"

fun header_lookup :: "jobj \<Rightarrow> string \<Rightarrow> string list \<Rightarrow> jv" where
  "header_lookup m lower [] = JStr []"
| "header_lookup m lower (key # ks) =
     (if to_lower key \<noteq> lower then header_lookup m lower ks
      else case oget m key of
        JStr s \<Rightarrow> JStr s
      | JArr vs \<Rightarrow> or_else (first_elem vs) (JStr [])
      | _ \<Rightarrow> header_lookup m lower ks)"

definition getHeaderValue :: "jv \<Rightarrow> string \<Rightarrow> jv" where
  "getHeaderValue headers name =
     (case own_props headers of None \<Rightarrow> JStr [] | Some m \<Rightarrow> header_lookup m (to_lower name) (js_keys m))"

definition toV2_step :: "bool \<Rightarrow> header_entry \<Rightarrow> jobj \<Rightarrow> jobj" where
  "toV2_step arr h out =
     (case (hd_name h, hd_value h) of
        (Some name, Some val) \<Rightarrow>
          if name = [] \<or> val = [] then out
          else if \<not> (name \<in> set (okeys out) \<or> inherited name)
          then oset name (if arr then JArr [JStr val] else JStr val) out
          else (case oget out name of
                  JArr vs \<Rightarrow> if arr then oset name (JArr (vs @ [JStr val])) out else assign_string name val out
                | _ \<Rightarrow> assign_string name val out)
      | _ \<Rightarrow> out)"

definition toV2Headers :: "header_entry list \<Rightarrow> bool \<Rightarrow> jobj" where
  "toV2Headers headers arr = fold (toV2_step arr) headers []"

section \<open>Values of one header\<close>

text \<open>The nonempty values the list gives a name, in order.\<close>

definition values_of :: "string \<Rightarrow> header_entry list \<Rightarrow> string list" where
  "values_of n hs = List.map_filter
     (\<lambda>h. if n \<noteq> [] \<and> hd_name h = Some n \<and> hd_value h \<noteq> Some [] then hd_value h else None) hs"

lemma values_of_simps:
  "values_of n [] = []"
  "values_of n (h # hs) = (if n \<noteq> [] \<and> hd_name h = Some n \<and> hd_value h \<noteq> Some [] \<and> hd_value h \<noteq> None
     then the (hd_value h) # values_of n hs else values_of n hs)"
  by (auto simp: values_of_def List.map_filter_def)

lemma values_of_append: "values_of n (xs @ ys) = values_of n xs @ values_of n ys"
  by (induction xs) (auto simp: values_of_simps)

lemma values_of_nonempty: "[] \<notin> set (values_of n hs)"
  by (induction hs) (auto simp: values_of_simps)

definition stored_value :: "bool \<Rightarrow> string list \<Rightarrow> jv" where
  "stored_value arr vs = (if vs = [] then JUndef else if arr then JArr (map JStr vs) else JStr (last vs))"

lemma oget_key: "oget out n \<noteq> JUndef \<Longrightarrow> n \<in> set (okeys out)"
  by (auto simp: oget_def split: option.splits dest!: map_of_SomeD intro: rev_image_eqI)

lemma okeys_oset: "set (okeys (oset k v out)) = insert k (set (okeys out))"
  by (simp add: dom_update)

definition stores :: "bool \<Rightarrow> header_entry list \<Rightarrow> jobj \<Rightarrow> bool" where
  "stores arr hs out \<longleftrightarrow> wf_obj out
     \<and> (\<forall>n. \<not> inherited n \<longrightarrow> oget out n = stored_value arr (values_of n hs) \<and> (n \<in> set (okeys out) \<longleftrightarrow> values_of n hs \<noteq> []))"

lemma assign_string_other:
  assumes "n \<noteq> k"
  shows "oget (assign_string k v out) n = oget out n \<and> (n \<in> fst ` set (assign_string k v out) \<longleftrightarrow> n \<in> fst ` set out)"
proof (cases "k = ''__proto__''")
  case True
  then show ?thesis by (simp only: assign_string_def if_True simp_thms)
next
  case False
  then show ?thesis using assms by (simp add: assign_string_def dom_update)
qed

lemma stores_step_value:
  assumes s: "stores arr hs out" and h: "hd_name h = Some k" "hd_value h = Some v" and "k \<noteq> []" "v \<noteq> []" "\<not> inherited k"
  shows "toV2_step arr h out = oset k (stored_value arr (values_of k hs @ [v])) out"
proof -
  have o: "oget out k = stored_value arr (values_of k hs)" "k \<in> set (okeys out) \<longleftrightarrow> values_of k hs \<noteq> []"
    using s assms(6) by (auto simp: stores_def)
  have "k \<noteq> ''__proto__''" using assms(6) by (auto simp: inherited_def OBJECT_PROTOTYPE_KEYS_def)
  then show ?thesis
    using o assms(2-6)
    by (cases "values_of k hs = []"; cases arr) (simp_all add: toV2_step_def stored_value_def assign_string_def)
qed

lemma inherited_step_keeps:
  assumes "hd_name h = Some k" "inherited k" "\<not> inherited n"
  shows "oget (toV2_step arr h out) n = oget out n \<and> (n \<in> set (okeys (toV2_step arr h out)) \<longleftrightarrow> n \<in> set (okeys out))"
proof -
  have "n \<noteq> k" using assms by auto
  then show ?thesis using assms(1) assign_string_other [of n k]
    by (cases "hd_value h"; cases "oget out k") (simp_all add: toV2_step_def dom_update)
qed

lemma wf_toV2_step: "wf_obj out \<Longrightarrow> wf_obj (toV2_step arr h out)"
  by (auto simp: toV2_step_def assign_string_def split: option.splits jv.splits)

lemma stores_step:
  assumes "stores arr hs out"
  shows "stores arr (hs @ [h]) (toV2_step arr h out)"
proof -
  have wf: "wf_obj (toV2_step arr h out)" using assms wf_toV2_step by (simp add: stores_def)
  have val: "oget (toV2_step arr h out) n = stored_value arr (values_of n (hs @ [h]))
      \<and> (n \<in> set (okeys (toV2_step arr h out)) \<longleftrightarrow> values_of n (hs @ [h]) \<noteq> [])" if n: "\<not> inherited n" for n
  proof -
    have o: "oget out n = stored_value arr (values_of n hs)" "n \<in> set (okeys out) \<longleftrightarrow> values_of n hs \<noteq> []"
      using assms n by (auto simp: stores_def)
    show ?thesis
    proof (cases "\<exists>k v. hd_name h = Some k \<and> hd_value h = Some v \<and> k \<noteq> [] \<and> v \<noteq> []")
      case False
      then have "toV2_step arr h out = out" "values_of n (hs @ [h]) = values_of n hs"
        by (auto simp: toV2_step_def values_of_append values_of_simps split: option.splits)
      then show ?thesis using o by simp
    next
      case True
      then obtain k v where h: "hd_name h = Some k" "hd_value h = Some v" "k \<noteq> []" "v \<noteq> []" by blast
      show ?thesis
      proof (cases "inherited k")
        case True
        with n have "k \<noteq> n" by auto
        then have "values_of n (hs @ [h]) = values_of n hs" using h by (simp add: values_of_append values_of_simps)
        then show ?thesis using inherited_step_keeps [OF h(1) True n] o by simp
      next
        case False
        then show ?thesis
          using stores_step_value [OF assms h False] o h
          by (cases "n = k") (simp_all add: dom_update values_of_append values_of_simps)
      qed
    qed
  qed
  show ?thesis unfolding stores_def using wf val by blast
qed

lemma stores_all: "stores arr hs (toV2Headers hs arr)"
proof (induction hs rule: rev_induct)
  case Nil
  then show ?case by (simp add: toV2Headers_def stores_def wf_obj_def stored_value_def values_of_simps oget_def)
next
  case (snoc h hs)
  then show ?case using stores_step [of arr hs "toV2Headers hs arr" h] by (simp add: toV2Headers_def)
qed

lemma set_js_keys [simp]: "set (js_keys m) = set (okeys m)"
  by (auto simp: js_keys_def)

lemma distinct_js_keys [simp]: "wf_obj m \<Longrightarrow> distinct (js_keys m)"
  by (auto simp: js_keys_def wf_obj_def)

lemma entries_of_name: "h \<in> set (entries_of k v) \<Longrightarrow> hd_name h = Some k"
  by (auto simp: entries_of_def entry_def List.map_filter_def js_str_of_def split: jv.splits)

lemma filter_entries:
  assumes "distinct ks"
  shows "filter (\<lambda>h. hd_name h = Some n) (concat (map (\<lambda>k. entries_of k (f k)) ks)) =
    (if n \<in> set ks then entries_of n (f n) else [])"
  using assms
proof (induction ks)
  case (Cons k ks)
  have "filter (\<lambda>h. hd_name h = Some n) (entries_of k (f k)) = (if n = k then entries_of k (f k) else [])"
    using entries_of_name [of _ k "f k"] by (auto simp: filter_id_conv filter_empty_conv)
  then show ?case using Cons by auto
qed simp

lemma entries_of_stored:
  "entries_of n (stored_value arr vs) = map (entry n) (if arr \<or> vs = [] then vs else [last vs])"
  by (auto simp: entries_of_def stored_value_def List.map_filter_def js_str_of_def comp_def)

text \<open>Storing a header list as a map and listing the map again keeps, for every header
  name, its nonempty values in their order (the array form), or just the last of them (the
  single-value form); entries with an empty name or value are dropped. Names that every
  JavaScript object inherits are the exception.\<close>

theorem headers_roundtrip:
  assumes "\<not> inherited n"
  shows "filter (\<lambda>h. hd_name h = Some n) (toHeaders (JObj (toV2Headers hs arr))) =
    map (entry n) (if arr \<or> values_of n hs = [] then values_of n hs else [last (values_of n hs)])"
proof -
  have s: "stores arr hs (toV2Headers hs arr)" by (rule stores_all)
  then have d: "distinct (js_keys (toV2Headers hs arr))" by (simp add: stores_def)
  have o: "oget (toV2Headers hs arr) n = stored_value arr (values_of n hs)"
    "n \<in> set (okeys (toV2Headers hs arr)) \<longleftrightarrow> values_of n hs \<noteq> []"
    using s assms by (auto simp: stores_def)
  show ?thesis
    unfolding toHeaders_def own_props_def jv.case option.case filter_entries [OF d] set_js_keys o
    by (simp add: entries_of_stored)
qed

theorem headers_roundtrip_witness:
  "filter (\<lambda>h. hd_name h = Some ''Host'') (toHeaders (JObj (toV2Headers [entry ''Host'' ''a'', entry ''X'' ''b'', entry ''Host'' ''c''] True)))
    = map (entry ''Host'') (if True \<or> values_of ''Host'' [entry ''Host'' ''a'', entry ''X'' ''b'', entry ''Host'' ''c''] = []
       then values_of ''Host'' [entry ''Host'' ''a'', entry ''X'' ''b'', entry ''Host'' ''c'']
       else [last (values_of ''Host'' [entry ''Host'' ''a'', entry ''X'' ''b'', entry ''Host'' ''c''])])"
  by (rule headers_roundtrip) (simp add: inherited_def OBJECT_PROTOTYPE_KEYS_def)

text \<open>The exception: a repeated header called like an inherited property keeps its last value only.\<close>

lemma inherited_header_loses_values:
  "toV2Headers [entry ''constructor'' ''a'', entry ''constructor'' ''b''] True = [(''constructor'', JStr ''b'')]"
  by (simp add: toV2Headers_def toV2_step_def entry_def inherited_def OBJECT_PROTOTYPE_KEYS_def assign_string_def oget_def)

end
