(* ===== verification/Json_Text.thy ===== *)
theory Json_Text
  imports Header_Map
begin

text \<open>
  \<open>JSON.stringify\<close> and \<open>JSON.parse\<close>, which the panel uses between its forms, the stored
  rows and the WebSocket messages. Strings have code units below 256, so an escape
  \<open>\u\<close> above \<open>00ff\<close> is outside the model (the parser gives \<^const>\<open>None\<close> for it, as for a
  syntax error). Properties are written in the order of \<open>Object.keys\<close>.
\<close>

section \<open>Writing\<close>

definition hex4 :: "nat \<Rightarrow> string" where
  "hex4 n = map (\<lambda>d. if d < 10 then char_of (48 + d) else char_of (87 + d))
     [n div 4096 mod 16, n div 256 mod 16, n div 16 mod 16, n mod 16]"

definition json_char :: "char \<Rightarrow> string" where
  "json_char c =
     (if code c = 34 then [CHR 92, CHR 34]
      else if code c = 92 then [CHR 92, CHR 92]
      else if code c = 8 then CHR 92 # ''b''
      else if code c = 12 then CHR 92 # ''f''
      else if code c = 10 then CHR 92 # ''n''
      else if code c = 13 then CHR 92 # ''r''
      else if code c = 9 then CHR 92 # ''t''
      else if code c < 32 then CHR 92 # ''u'' @ hex4 (code c)
      else [c])"

abbreviation quote_char :: char where
  "quote_char \<equiv> CHR 34"

definition json_quote :: "string \<Rightarrow> string" where
  "json_quote s = quote_char # concat (map json_char s) @ [quote_char]"

lemma map_of_size: "map_of ps k = Some v \<Longrightarrow> size v < Suc (size_list (size_prod (\<lambda>_. 0) size) ps)"
  by (induction ps) (auto split: if_splits)

text \<open>An absent property is left out, an absent array element is written \<open>null\<close>.\<close>

function (sequential) JSON_stringify :: "jv \<Rightarrow> string option" where
  "JSON_stringify JUndef = None"
| "JSON_stringify JNull = Some ''null''"
| "JSON_stringify (JBool b) = Some (if b then ''true'' else ''false'')"
| "JSON_stringify (JNum n) = Some (if is_finite n then num_str n else ''null'')"
| "JSON_stringify (JStr s) = Some (json_quote s)"
| "JSON_stringify (JArr xs) = Some (''['' @ join '','' (map (\<lambda>x. case JSON_stringify x of None \<Rightarrow> ''null'' | Some t \<Rightarrow> t) xs) @ '']'')"
| "JSON_stringify (JObj ps) = Some (''{'' @ join '',''
     (concat (map (\<lambda>k. case map_of ps k of None \<Rightarrow> [] | Some v \<Rightarrow>
        (case JSON_stringify v of None \<Rightarrow> [] | Some t \<Rightarrow> [json_quote k @ '':'' @ t])) (js_keys ps))) @ ''}'')"
  by pat_completeness auto

termination
proof (relation "measure size")
  fix x :: jv and xs assume "x \<in> set xs"
  then show "(x, JArr xs) \<in> measure size" by (induction xs) auto
next
  fix ps :: jobj and k and v :: jv assume "map_of ps k = Some v"
  from map_of_size [OF this] show "(v, JObj ps) \<in> measure size" by simp
qed simp

section \<open>Reading\<close>

definition json_space :: "char \<Rightarrow> bool" where
  "json_space c \<longleftrightarrow> code c \<in> {9, 10, 13, 32}"

definition skip_ws :: "string \<Rightarrow> string" where
  "skip_ws s = dropWhile json_space s"

definition unescape :: "char \<Rightarrow> char option" where
  "unescape e =
     (if e = quote_char \<or> e = CHR 92 \<or> e = CHR ''/'' then Some e
      else if e = CHR ''b'' then Some (CHR 8)
      else if e = CHR ''f'' then Some (CHR 12)
      else if e = CHR ''n'' then Some (CHR 10)
      else if e = CHR ''r'' then Some (CHR 13)
      else if e = CHR ''t'' then Some (CHR 9)
      else None)"

text \<open>The text after an opening quote: the string and what follows its closing quote.\<close>

fun parse_string :: "string \<Rightarrow> (string \<times> string) option" where
  "parse_string [] = None"
| "parse_string (c # s) =
     (if c = quote_char then Some ([], s)
      else if c = CHR 92 then
        (case s of
           [] \<Rightarrow> None
         | e # r \<Rightarrow>
             if e = CHR ''u'' then
               (case r of
                  a # b # c # d # r' \<Rightarrow>
                    if list_all is_hex [a, b, c, d] \<and> digits_val 16 [a, b, c, d] < 256
                    then map_option (apfst ((#) (char_of (digits_val 16 [a, b, c, d])))) (parse_string r') else None
                | _ \<Rightarrow> None)
             else (case unescape e of None \<Rightarrow> None | Some x \<Rightarrow> map_option (apfst ((#) x)) (parse_string r)))
      else if code c < 32 then None
      else map_option (apfst ((#) c)) (parse_string s))"

text \<open>\<open>-?(0|[1-9][0-9]*)(\.[0-9]+)?([eE][+-]?[0-9]+)?\<close>: the literal and the rest.\<close>

definition take_sign :: "char set \<Rightarrow> string \<Rightarrow> string \<times> string" where
  "take_sign cs s = (case s of c # r \<Rightarrow> if c \<in> cs then ([c], r) else ([], s) | [] \<Rightarrow> ([], s))"

definition take_digits :: "string \<Rightarrow> string \<times> string" where
  "take_digits s = (takeWhile is_digit s, dropWhile is_digit s)"

definition number_literal :: "string \<Rightarrow> (string \<times> string) option" where
  "number_literal s =
     (let (sign, s1) = take_sign {CHR ''-''} s; (ip, s2) = take_digits s1 in
      if ip = [] \<or> (hd ip = CHR ''0'' \<and> length ip > 1) then None
      else
        case (case s2 of c # r \<Rightarrow> if c = CHR ''.'' then (case take_digits r of (fp, r') \<Rightarrow> if fp = [] then None else Some (c # fp, r'))
                           else Some ([], s2) | [] \<Rightarrow> Some ([], s2)) of
          None \<Rightarrow> None
        | Some (fpart, s3) \<Rightarrow>
          (case (case s3 of c # r \<Rightarrow> if c = CHR ''e'' \<or> c = CHR ''E'' then
                   (case take_sign {CHR ''+'', CHR ''-''} r of (es, r1) \<Rightarrow> case take_digits r1 of (ed, r2) \<Rightarrow>
                      if ed = [] then None else Some (c # es @ ed, r2)) else Some ([], s3) | [] \<Rightarrow> Some ([], s3)) of
             None \<Rightarrow> None
           | Some (ex, s4) \<Rightarrow> Some (sign @ ip @ fpart @ ex, s4)))"

fun parse_value :: "nat \<Rightarrow> string \<Rightarrow> (jv \<times> string) option"
  and parse_elements :: "nat \<Rightarrow> string \<Rightarrow> (jv list \<times> string) option"
  and parse_members :: "nat \<Rightarrow> string \<Rightarrow> ((string \<times> jv) list \<times> string) option" where
  "parse_value 0 s = None"
| "parse_value (Suc f) s =
     (case skip_ws s of
        [] \<Rightarrow> None
      | c # r \<Rightarrow>
          if c = quote_char then map_option (apfst JStr) (parse_string r)
          else if c = CHR ''['' then
            (case skip_ws r of [] \<Rightarrow> None
             | d # t \<Rightarrow> if d = CHR '']'' then Some (JArr [], t) else map_option (apfst JArr) (parse_elements f r))
          else if c = CHR ''{'' then
            (case skip_ws r of [] \<Rightarrow> None
             | d # t \<Rightarrow> if d = CHR ''}'' then Some (JObj [], t)
                        else map_option (apfst (\<lambda>ps. JObj (spread [] ps))) (parse_members f r))
          else if starts_with (c # r) ''true'' then Some (JBool True, drop 4 (c # r))
          else if starts_with (c # r) ''false'' then Some (JBool False, drop 5 (c # r))
          else if starts_with (c # r) ''null'' then Some (JNull, drop 4 (c # r))
          else map_option (apfst (\<lambda>l. JNum (js_number l))) (number_literal (c # r)))"
| "parse_elements 0 s = None"
| "parse_elements (Suc f) s =
     (case parse_value f s of
        None \<Rightarrow> None
      | Some (v, t) \<Rightarrow>
          (case skip_ws t of [] \<Rightarrow> None
           | d # t' \<Rightarrow> if d = CHR '','' then map_option (apfst ((#) v)) (parse_elements f t')
                       else if d = CHR '']'' then Some ([v], t') else None))"
| "parse_members 0 s = None"
| "parse_members (Suc f) s =
     (case skip_ws s of [] \<Rightarrow> None
      | q # r \<Rightarrow>
          if q \<noteq> quote_char then None
          else (case parse_string r of None \<Rightarrow> None
            | Some (k, t) \<Rightarrow>
                (case skip_ws t of [] \<Rightarrow> None
                 | d # t' \<Rightarrow>
                     if d \<noteq> CHR '':'' then None
                     else (case parse_value f t' of None \<Rightarrow> None
                       | Some (v, u) \<Rightarrow>
                           (case skip_ws u of [] \<Rightarrow> None
                            | e # u' \<Rightarrow> if e = CHR '','' then map_option (apfst ((#) (k, v))) (parse_members f u')
                                        else if e = CHR ''}'' then Some ([(k, v)], u') else None)))))"

text \<open>\<^const>\<open>None\<close> is a thrown \<open>SyntaxError\<close>. The fuel is twice the length of the text, more than
  the parser can use.\<close>

definition JSON_parse :: "string \<Rightarrow> jv option" where
  "JSON_parse s =
     (case parse_value (2 * length s + 2) s of
        None \<Rightarrow> None
      | Some (v, t) \<Rightarrow> if skip_ws t = [] then Some v else None)"

section \<open>Reading back what was written\<close>

text \<open>Values JSON can carry unchanged: integers a double holds exactly, arrays without holes,
  objects without absent values and without array indices as keys.\<close>

fun wf_json :: "jv \<Rightarrow> bool" where
  "wf_json JUndef = False"
| "wf_json JNull = True"
| "wf_json (JBool b) = True"
| "wf_json (JNum n) = (case n of Fin q \<Rightarrow> of_int \<lfloor>q\<rfloor> = q \<and> \<bar>\<lfloor>q\<rfloor>\<bar> \<le> 2 ^ 53 | _ \<Rightarrow> False)"
| "wf_json (JStr s) = True"
| "wf_json (JArr xs) = (\<forall>x \<in> set xs. wf_json x)"
| "wf_json (JObj ps) = (wf_obj ps \<and> (\<forall>p \<in> set ps. \<not> is_array_index (fst p) \<and> wf_json (snd p)))"

lemma hex4_small: "n < 32 \<Longrightarrow> list_all is_hex (hex4 n) \<and> digits_val 16 (hex4 n) = n \<and> (\<exists>a b c d. hex4 n = [a, b, c, d])"
proof -
  assume n: "n < 32"
  then have "n div 16 < 10" "n mod 16 \<le> 15" "n = 16 * (n div 16) + n mod 16" by auto
  then show ?thesis using n
    by (simp add: hex4_def is_hex_def is_digit_def digits_val_def digit_val_def)
qed

lemma parse_json_char: "parse_string (json_char c @ r) = map_option (apfst ((#) c)) (parse_string r)"
proof -
  have c: "c = char_of (code c)" by simp
  consider (quote) "code c = 34" | (slash) "code c = 92" | (short) "code c \<in> {8, 9, 10, 12, 13}"
    | (ctl) "code c < 32" "code c \<notin> {8, 9, 10, 12, 13}" | (plain) "32 \<le> code c" "code c \<noteq> 34" "code c \<noteq> 92" by fastforce
  then show ?thesis
  proof cases
    case quote
    then have "c = CHR 34" by (simp add: char_eq_code)
    then show ?thesis by (simp add: json_char_def unescape_def)
  next
    case slash
    then have "c = CHR 92" by (simp add: char_eq_code)
    then show ?thesis by (simp add: json_char_def unescape_def)
  next
    case short
    then consider "c = CHR 8" | "c = CHR 9" | "c = CHR 10" | "c = CHR 12" | "c = CHR 13" by (auto simp: char_eq_code)
    then show ?thesis by cases (simp_all add: json_char_def unescape_def)
  next
    case ctl
    obtain a b c' d where h: "hex4 (code c) = [a, b, c', d]" using hex4_small [OF ctl(1)] by blast
    then have "json_char c = CHR 92 # CHR ''u'' # [a, b, c', d]" using ctl by (auto simp: json_char_def char_eq_code)
    moreover have "list_all is_hex [a, b, c', d]" "digits_val 16 [a, b, c', d] = code c" using hex4_small [OF ctl(1)] h by auto
    ultimately show ?thesis using ctl by simp
  next
    case plain
    then have "json_char c = [c]" "c \<noteq> quote_char" "c \<noteq> CHR 92" by (auto simp: json_char_def char_eq_code)
    then show ?thesis using plain by simp
  qed
qed

lemma parse_quoted: "parse_string (concat (map json_char s) @ quote_char # r) = Some (s, r)"
proof (induction s)
  case Nil
  then show ?case by simp
next
  case (Cons c s)
  then show ?case by (simp del: parse_string.simps add: parse_json_char)
qed

section \<open>Numbers\<close>

text \<open>What may follow a written value.\<close>

definition value_end :: "string \<Rightarrow> bool" where
  "value_end t \<longleftrightarrow> (case t of [] \<Rightarrow> True | c # _ \<Rightarrow> c = CHR '','' \<or> c = CHR '']'' \<or> c = CHR ''}'' \<or> c = CHR 10)"

lemma value_end_cases:
  assumes "value_end t"
  shows "takeWhile is_digit t = []" "dropWhile is_digit t = t"
    "(case t of c # r \<Rightarrow> c \<noteq> CHR ''.'' \<and> c \<noteq> CHR ''e'' \<and> c \<noteq> CHR ''E'' | [] \<Rightarrow> True)"
  using assms by (cases t; force simp: value_end_def is_digit_def)+

lemma nat_str_head: "n \<noteq> 0 \<Longrightarrow> hd (nat_str n) \<noteq> CHR ''0''"
proof (induction n rule: nat_str.induct)
  case (1 n)
  show ?case
  proof (cases "n < 10")
    case True
    then show ?thesis using "1.prems" by (simp add: nat_str.simps [of n] char_eq_code)
  next
    case False
    then show ?thesis using 1 by (simp add: nat_str.simps [of n])
  qed
qed

lemma nat_str_no_leading: "\<not> (hd (nat_str n) = CHR ''0'' \<and> length (nat_str n) > 1)"
  using nat_str_head [of n] by (cases "n = 0") (simp_all add: nat_str.simps [of 0])

lemma take_digits_nat: "value_end t \<Longrightarrow> take_digits (nat_str n @ t) = (nat_str n, t)"
  using nat_str_digits [of _ n] value_end_cases [of t] by (simp add: take_digits_def)

lemma number_literal_int:
  assumes "value_end t"
  shows "number_literal (int_str i @ t) = Some (int_str i, t)"
proof -
  obtain c r where h: "nat_str (nat i) = c # r" by (cases "nat_str (nat i)") simp_all
  have "is_digit c" using nat_str_digits [of c "nat i"] h by simp
  then have c: "c \<noteq> CHR ''-''" by (auto simp: is_digit_def)
  have s: "take_sign {CHR ''-''} (int_str i @ t) = ((if i < 0 then ''-'' else []), nat_str (nat \<bar>i\<bar>) @ t)"
    using c h by (auto simp: int_str_def take_sign_def)
  have e: "(if i < 0 then ''-'' else []) @ nat_str (nat \<bar>i\<bar>) = int_str i" by (simp add: int_str_def)
  have "nat_str (nat \<bar>i\<bar>) = [] \<or> hd (nat_str (nat \<bar>i\<bar>)) = CHR ''0'' \<and> length (nat_str (nat \<bar>i\<bar>)) > 1 \<longleftrightarrow> False"
    using nat_str_no_leading [of "nat \<bar>i\<bar>"] by simp
  note nf = this
  show ?thesis
    unfolding number_literal_def s prod.case take_digits_nat [OF assms] Let_def nf if_False
    using value_end_cases(3) [OF assms] e by (cases t) auto
qed

lemma js_number_int:
  assumes "\<bar>i\<bar> \<le> 2 ^ 53"
  shows "js_number (int_str i) = num i"
proof (cases "i < 0")
  case False
  then show ?thesis using assms by (simp add: int_str_def)
next
  case True
  define n where "n = nat (- i)"
  have i: "int_str i = CHR ''-'' # nat_str n" using True by (simp add: int_str_def n_def)
  have d: "\<forall>c \<in> set (nat_str n). is_digit c" using nat_str_digits by blast
  have t: "trim (CHR ''-'' # nat_str n) = CHR ''-'' # nat_str n"
    by (rule trim_no_space) (use d digit_not_space in \<open>auto simp: is_space_def\<close>)
  have p: "parse_decimal (nat_str n) = Some (of_nat n)"
    using d by (simp add: parse_decimal_def takeWhile_eq_all_conv [THEN iffD2] dropWhile_eq_Nil_conv [THEN iffD2] parse_exponent_def)
  have "nat_str n \<noteq> ''Infinity''" using d by (auto simp: is_digit_def)
  moreover have "to_num (- of_nat n) = num i"
  proof -
    have "of_int \<lfloor>- (of_nat n :: rat)\<rfloor> = - (of_nat n :: rat)" "\<lfloor>- (of_nat n :: rat)\<rfloor> = i"
      using True by (simp_all add: n_def floor_minus ceiling_of_nat)
    then show ?thesis using assms by (simp add: to_num_def f64_exact)
  qed
  ultimately show ?thesis by (simp add: js_number_def i t p to_lower_def lower_char_def is_upper_def)
qed

section \<open>The round trip\<close>

text \<open>A written value starts with a character that is neither space nor a closing bracket.\<close>

definition value_start :: "string \<Rightarrow> bool" where
  "value_start s \<longleftrightarrow> (case s of [] \<Rightarrow> False | c # _ \<Rightarrow> \<not> json_space c \<and> c \<noteq> CHR '']'' \<and> c \<noteq> CHR ''}'')"

lemma skip_ws_start: "value_start s \<Longrightarrow> skip_ws (s @ t) = s @ t"
  by (cases s) (simp_all add: value_start_def skip_ws_def)

lemma value_start_append: "value_start s \<Longrightarrow> value_start (s @ r)"
  by (cases s) (simp_all add: value_start_def)

lemma join_Cons: "\<exists>r. join sep (p # ps) = p @ r"
  by (cases ps) auto

lemma int_str_start: "\<exists>c r. int_str i = c # r \<and> (is_digit c \<or> c = CHR ''-'')"
proof -
  obtain c r where "nat_str (nat i) = c # r" by (cases "nat_str (nat i)") simp_all
  moreover from this have "is_digit c" using nat_str_digits [of c "nat i"] by simp
  ultimately show ?thesis by (simp add: int_str_def)
qed

definition written :: "jv \<Rightarrow> string" where
  "written v = (case JSON_stringify v of None \<Rightarrow> ''null'' | Some t \<Rightarrow> t)"

lemma num_str_int: "of_int \<lfloor>q\<rfloor> = q \<Longrightarrow> num_str (Fin q) = int_str \<lfloor>q\<rfloor>"
  by (simp add: num_str_def)

lemma written_start: "wf_json v \<Longrightarrow> JSON_stringify v = Some (written v) \<and> value_start (written v)"
proof (cases v)
  case (JNum n)
  assume "wf_json v"
  then obtain q where q: "n = Fin q" "of_int \<lfloor>q\<rfloor> = q" using JNum by (auto split: jsnum.splits)
  obtain c r where "int_str \<lfloor>q\<rfloor> = c # r" "is_digit c \<or> c = CHR ''-''" using int_str_start by blast
  then show ?thesis using JNum q
    by (auto simp: written_def value_start_def num_str_int is_finite_def json_space_def is_digit_def)
qed (simp_all add: written_def value_start_def json_space_def json_quote_def)

lemma written_simps:
  "written JNull = ''null''" "written (JBool b) = (if b then ''true'' else ''false'')" "written (JStr s) = json_quote s"
  "written (JArr xs) = ''['' @ join '','' (map written xs) @ '']''"
  by (simp_all add: written_def [abs_def])

lemma parse_elements_written:
  assumes "\<And>x t f. x \<in> set xs \<Longrightarrow> value_end t \<Longrightarrow> 2 * length (written x) \<le> f \<Longrightarrow> parse_value f (written x @ t) = Some (x, t)"
    and "\<And>x. x \<in> set xs \<Longrightarrow> value_start (written x)" and "xs \<noteq> []"
    and "2 * length (join '','' (map written xs)) + 2 \<le> f"
  shows "parse_elements f (join '','' (map written xs) @ CHR '']'' # t) = Some (xs, t)"
  using assms
proof (induction xs arbitrary: f)
  case Nil
  then show ?case by simp
next
  case (Cons x xs)
  obtain g where f: "f = Suc g" using Cons.prems(4) by (cases f) auto
  show ?case
  proof (cases xs)
    case Nil
    have "parse_value g (written x @ CHR '']'' # t) = Some (x, CHR '']'' # t)"
      by (rule Cons.prems(1)) (use Cons.prems(4) f Nil in \<open>auto simp: value_end_def\<close>)
    then show ?thesis by (simp add: f Nil skip_ws_def json_space_def)
  next
    case (Cons y ys)
    let ?r = "join '','' (map written xs)"
    have len: "2 * (length (written x) + 1 + length ?r) + 2 \<le> f"
      using Cons.prems(4) Cons by simp
    have "parse_value g (written x @ CHR '','' # ?r @ CHR '']'' # t) = Some (x, CHR '','' # ?r @ CHR '']'' # t)"
      by (rule Cons.prems(1)) (use len f in \<open>auto simp: value_end_def\<close>)
    moreover have "parse_elements g (?r @ CHR '']'' # t) = Some (xs, t)"
      by (rule Cons.IH) (use Cons.prems(1,2) len f Cons in auto)
    ultimately show ?thesis using Cons by (simp add: f skip_ws_def json_space_def)
  qed
qed

definition written_member :: "string \<times> jv \<Rightarrow> string" where
  "written_member p = json_quote (fst p) @ '':'' @ written (snd p)"

lemma js_keys_plain: "\<forall>k \<in> set (okeys ps). \<not> is_array_index k \<Longrightarrow> js_keys ps = okeys ps"
  by (simp add: js_keys_def filter_id_conv filter_empty_conv)

lemma written_object:
  assumes "wf_json (JObj ps)"
  shows "written (JObj ps) = ''{'' @ join '','' (map written_member ps) @ ''}''"
proof -
  have wf: "wf_obj ps" "\<forall>p \<in> set ps. \<not> is_array_index (fst p) \<and> wf_json (snd p)" using assms by auto
  then have k: "js_keys ps = okeys ps" by (intro js_keys_plain) auto
  define m where "m = (\<lambda>k. case map_of ps k of None \<Rightarrow> [] | Some v \<Rightarrow>
        (case JSON_stringify v of None \<Rightarrow> [] | Some t \<Rightarrow> [json_quote k @ '':'' @ t]))"
  have "m (fst p) = [written_member p]" if "p \<in> set ps" for p
  proof -
    have "map_of ps (fst p) = Some (snd p)" using that wf(1) by (simp add: wf_obj_def)
    moreover have "JSON_stringify (snd p) = Some (written (snd p))" using that wf(2) written_start by blast
    ultimately show ?thesis by (simp add: m_def written_member_def)
  qed
  then have "concat (map m (okeys ps)) = map written_member ps"
    by (induction ps) auto
  then show ?thesis by (simp add: written_def k m_def)
qed

lemma written_member_quote: "written_member p @ t = quote_char # concat (map json_char (fst p)) @ quote_char # CHR '':'' # written (snd p) @ t"
  by (simp add: written_member_def json_quote_def)

lemma parse_members_written:
  assumes "\<And>p t f. p \<in> set ps \<Longrightarrow> value_end t \<Longrightarrow> 2 * length (written (snd p)) \<le> f \<Longrightarrow>
      parse_value f (written (snd p) @ t) = Some (snd p, t)"
    and "ps \<noteq> []" and "2 * length (join '','' (map written_member ps)) + 2 \<le> f"
  shows "parse_members f (join '','' (map written_member ps) @ CHR ''}'' # t) = Some (ps, t)"
  using assms
proof (induction ps arbitrary: f)
  case Nil
  then show ?case by simp
next
  case (Cons p ps)
  obtain g where f: "f = Suc g" using Cons.prems(3) by (cases f) auto
  have lp: "length (written_member p) = length (json_quote (fst p)) + 1 + length (written (snd p))"
    by (simp add: written_member_def)
  note quoted = parse_quoted [of "fst p" "CHR '':'' # written (snd p) @ u" for u]
  show ?case
  proof (cases ps)
    case Nil
    have "parse_value g (written (snd p) @ CHR ''}'' # t) = Some (snd p, CHR ''}'' # t)"
      by (rule Cons.prems(1)) (use Cons.prems(3) f Nil lp in \<open>auto simp: value_end_def\<close>)
    then show ?thesis by (simp add: f Nil skip_ws_def json_space_def written_member_quote quoted del: parse_string.simps)
  next
    case (Cons q qs)
    let ?r = "join '','' (map written_member ps)"
    have len: "2 * (length (written_member p) + 1 + length ?r) + 2 \<le> f"
      using Cons.prems(3) Cons by simp
    have "parse_value g (written (snd p) @ CHR '','' # ?r @ CHR ''}'' # t) = Some (snd p, CHR '','' # ?r @ CHR ''}'' # t)"
      by (rule Cons.prems(1)) (use len f lp in \<open>auto simp: value_end_def\<close>)
    moreover have "parse_members g (?r @ CHR ''}'' # t) = Some (ps, t)"
      by (rule Cons.IH) (use Cons.prems(1) len f Cons in auto)
    ultimately show ?thesis using Cons
      by (simp add: f skip_ws_def json_space_def written_member_quote quoted del: parse_string.simps)
  qed
qed

lemma spread_nil:
  assumes "wf_obj ps"
  shows "spread [] ps = ps"
proof -
  have "fold (\<lambda>(k, v). oset k v) ps a = a @ ps" if "wf_obj (a @ ps)" for a
    using that
  proof (induction ps arbitrary: a)
    case (Cons p ps)
    obtain k v where p: "p = (k, v)" by (cases p)
    have "k \<notin> set (okeys a)" using Cons.prems p by (auto simp: wf_obj_def)
    then have "oset k v a = a @ [(k, v)]" by (induction a) auto
    then show ?case using Cons.IH [of "a @ [(k, v)]"] Cons.prems p by simp
  qed simp
  from this [of "[]"] assms show ?thesis by (simp add: spread_def)
qed

lemma parse_written:
  "wf_json v \<Longrightarrow> value_end t \<Longrightarrow> 2 * length (written v) \<le> f \<Longrightarrow> parse_value f (written v @ t) = Some (v, t)"
proof (induction v arbitrary: t f)
  case JUndef
  then show ?case by simp
next
  case (JNum n)
  then obtain q where q: "n = Fin q" "of_int \<lfloor>q\<rfloor> = q" "\<bar>\<lfloor>q\<rfloor>\<bar> \<le> 2 ^ 53" by (auto split: jsnum.splits)
  have w: "written (JNum n) = int_str \<lfloor>q\<rfloor>" using q by (simp add: written_def is_finite_def num_str_int)
  obtain c r where c: "int_str \<lfloor>q\<rfloor> = c # r" "is_digit c \<or> c = CHR ''-''" using int_str_start by blast
  obtain g where f: "f = Suc g" using JNum.prems(3) w c by (cases f) auto
  have neq: "\<not> json_space c" "c \<noteq> quote_char" "c \<noteq> CHR ''[''" "c \<noteq> CHR ''{''" "c \<noteq> CHR ''t''" "c \<noteq> CHR ''f''" "c \<noteq> CHR ''n''"
    using c(2) by (auto simp: is_digit_def json_space_def)
  have "number_literal (c # r @ t) = Some (c # r, t)" using number_literal_int [OF JNum.prems(2), of "\<lfloor>q\<rfloor>"] c by simp
  moreover have "js_number (c # r) = n" using js_number_int [OF q(3)] q c by simp
  ultimately show ?case using neq by (simp add: w c f skip_ws_def)
next
  case (JStr s)
  then obtain g where f: "f = Suc g" by (cases f) (simp_all add: written_simps json_quote_def)
  show ?case by (simp add: f written_simps json_quote_def skip_ws_def json_space_def parse_quoted del: parse_string.simps)
next
  case (JArr xs)
  then obtain g where f: "f = Suc g" by (cases f) (simp_all add: written_simps)
  show ?case
  proof (cases "xs = []")
    case True
    then show ?thesis by (simp add: f written_simps skip_ws_def json_space_def)
  next
    case False
    let ?r = "join '','' (map written xs)"
    have st: "value_start (written x)" if "x \<in> set xs" for x using that JArr.prems(1) written_start by auto
    have "parse_elements g (?r @ CHR '']'' # t) = Some (xs, t)"
      by (rule parse_elements_written) (use JArr st False f in \<open>auto simp: written_simps\<close>)
    moreover have "value_start ?r"
      using False st join_Cons [of "'',''" "written (hd xs)" "map written (tl xs)"] by (cases xs) (auto simp: value_start_append)
    ultimately show ?thesis using skip_ws_start [of ?r "CHR '']'' # t"]
      by (cases ?r) (simp_all add: f written_simps value_start_def, simp add: skip_ws_def json_space_def)
  qed
next
  case (JObj ps)
  have w: "written (JObj ps) = ''{'' @ join '','' (map written_member ps) @ ''}''" using JObj.prems(1) by (rule written_object)
  then obtain g where f: "f = Suc g" using JObj.prems(3) by (cases f) simp_all
  show ?case
  proof (cases ps)
    case Nil
    then show ?thesis unfolding w by (simp add: f skip_ws_def json_space_def)
  next
    case (Cons p qs)
    let ?r = "join '','' (map written_member ps)"
    have "parse_members g (?r @ CHR ''}'' # t) = Some (ps, t)"
    proof (rule parse_members_written)
      fix p' u and h assume "p' \<in> set ps" "value_end u" "2 * length (written (snd p')) \<le> h"
      then show "parse_value h (written (snd p') @ u) = Some (snd p', u)"
        using JObj.IH [of p' "snd p'" u h] JObj.prems(1) prod_set_simps(2) [of "fst p'" "snd p'"] by simp
    next
      show "ps \<noteq> []" using Cons by simp
      have "length (written (JObj ps)) = length ?r + 2" by (simp only: w) simp
      then show "2 * length ?r + 2 \<le> g" using JObj.prems(3) f by simp
    qed
    moreover obtain r' where "?r = quote_char # r'"
      using Cons written_member_quote [of p "[]"] by (cases qs) (auto simp: written_member_def json_quote_def)
    moreover have "spread [] ps = ps" using JObj.prems(1) by (intro spread_nil) simp
    ultimately show ?thesis unfolding w by (simp add: f skip_ws_def json_space_def)
  qed
next
  case JNull
  then obtain g where f: "f = Suc g" by (cases f) (simp_all add: written_simps)
  show ?case by (simp add: f written_simps skip_ws_def json_space_def)
next
  case (JBool b)
  then obtain g where f: "f = Suc g" by (cases f; cases b) (simp_all add: written_simps)
  show ?case by (cases b) (simp_all add: f written_simps skip_ws_def json_space_def)
qed

lemma json_parse_written: "wf_json v \<Longrightarrow> JSON_parse (written v) = Some v"
proof -
  assume v: "wf_json v"
  have "parse_value (2 * length (written v) + 2) (written v @ []) = Some (v, [])"
    by (rule parse_written [OF v]) (simp_all add: value_end_def)
  then show ?thesis by (simp add: JSON_parse_def skip_ws_def del: parse_value.simps)
qed

text \<open>Parsing the JSON text of a value gives the value back: for every value built of null,
  booleans, integers up to \<open>2 ^ 53\<close>, strings of any characters, arrays, and objects whose
  keys are no array indices, nested to any depth.\<close>

theorem json_roundtrip:
  assumes "wf_json v"
  shows "\<exists>s. JSON_stringify v = Some s \<and> JSON_parse s = Some v"
  using written_start [OF assms] json_parse_written [OF assms] by blast

theorem json_roundtrip_witness:
  "\<exists>s. JSON_stringify (JObj [(''a'', JArr [JNum (num (- 3)), JNull, JStr [CHR 10, CHR 34]]), (''b'', JBool True)]) = Some s
    \<and> JSON_parse s = Some (JObj [(''a'', JArr [JNum (num (- 3)), JNull, JStr [CHR 10, CHR 34]]), (''b'', JBool True)])"
  by (rule json_roundtrip) (simp add: wf_obj_def is_array_index_def is_digit_def)

section \<open>The parser uses up its text\<close>

lemma parse_string_shorter: "parse_string s = Some (x, t) \<Longrightarrow> length t < length s"
  by (induction s arbitrary: x t rule: parse_string.induct)
    (fastforce split: if_splits list.splits option.splits)+

lemma skip_ws_length: "length (skip_ws s) \<le> length s"
  by (simp add: skip_ws_def length_dropWhile_le)

lemma take_digits_split: "take_digits s = (d, r) \<Longrightarrow> s = d @ r"
  by (auto simp: take_digits_def)

lemma take_sign_split: "take_sign cs s = (d, r) \<Longrightarrow> s = d @ r"
  by (auto simp: take_sign_def split: list.splits if_splits)

lemma number_literal_split: "number_literal s = Some (l, t) \<Longrightarrow> s = l @ t \<and> l \<noteq> []"
  by (auto simp: number_literal_def Let_def split: list.splits if_splits option.splits prod.splits
      dest!: take_digits_split take_sign_split)

lemma number_literal_shorter: "number_literal s = Some (l, t) \<Longrightarrow> length t < length s"
  using number_literal_split [of s l t] by (cases l) auto

lemma map_option_apfst_Some: "map_option (apfst g) m = Some (x, t) \<longleftrightarrow> (\<exists>y. m = Some (y, t) \<and> x = g y)"
  by (cases m) (auto simp: apfst_def map_prod_def)

lemma parse_value_shorter:
  assumes "parse_value (Suc f) s = Some (v, t)"
    and el: "\<And>s vs t. parse_elements f s = Some (vs, t) \<Longrightarrow> length t < length s"
    and mb: "\<And>s ps t. parse_members f s = Some (ps, t) \<Longrightarrow> length t < length s"
  shows "length t < length s"
proof -
  obtain c r where s: "skip_ws s = c # r" using assms(1) by (cases "skip_ws s") auto
  have l: "length r < length s" "length (c # r) \<le> length s" using skip_ws_length [of s] s by simp_all
  consider (str) "c = quote_char" | (arr) "c = CHR ''[''" | (ob) "c = CHR ''{''"
    | (kw) "t = drop 3 r \<or> t = drop 4 r"
    | (num) x where "number_literal (c # r) = Some (x, t)" "c \<noteq> quote_char" "c \<noteq> CHR ''[''" "c \<noteq> CHR ''{''"
    using assms(1) s by (auto simp: map_option_apfst_Some split: if_splits simp del: starts_with.simps)
  then show ?thesis
  proof cases
    case str
    then show ?thesis using assms(1) s l parse_string_shorter by (fastforce simp: map_option_apfst_Some)
  next
    case arr
    show ?thesis
    proof (cases "skip_ws r")
      case Nil
      then show ?thesis using assms(1) s arr by simp
    next
      case (Cons d u)
      then have "length u < length s" using skip_ws_length [of r] l by simp
      then show ?thesis using assms(1) s arr Cons el [of r _ t] l by (auto simp: map_option_apfst_Some split: if_splits)
    qed
  next
    case ob
    show ?thesis
    proof (cases "skip_ws r")
      case Nil
      then show ?thesis using assms(1) s ob by simp
    next
      case (Cons d u)
      then have "length u < length s" using skip_ws_length [of r] l by simp
      then show ?thesis using assms(1) s ob Cons mb [of r _ t] l by (auto simp: map_option_apfst_Some split: if_splits)
    qed
  next
    case kw
    then show ?thesis using l by auto
  next
    case num
    then show ?thesis using number_literal_shorter [of "c # r" x t] l by simp
  qed
qed

lemma after_space: "skip_ws s = c # r \<Longrightarrow> length r < length s"
  using skip_ws_length [of s] by simp

lemma parse_shorter:
  "(parse_value f s = Some (v, t) \<longrightarrow> length t < length s)
    \<and> (parse_elements f s = Some (vs, t) \<longrightarrow> length t < length s)
    \<and> (parse_members f s = Some (ps, t) \<longrightarrow> length t < length s)"
proof (induction f arbitrary: s v t vs ps)
  case 0
  then show ?case by simp
next
  case (Suc f)
  have v: "parse_value (Suc f) s = Some (v, t) \<Longrightarrow> length t < length s" for s v t
    by (erule parse_value_shorter) (use Suc.IH in blast)+
  have "length t < length s" if el: "parse_elements (Suc f) s = Some (vs, t)"
  proof -
    obtain x u where x: "parse_value f s = Some (x, u)" using el by (auto split: option.splits)
    obtain d u' where d: "skip_ws u = d # u'" using el x by (auto split: list.splits)
    have "length u' < length s" using conjunct1 [OF Suc.IH [of s x u]] x after_space [OF d] by simp
    then show ?thesis using el x d Suc.IH [of u'] by (fastforce simp: map_option_apfst_Some split: if_splits)
  qed
  moreover have "length t < length s" if mb: "parse_members (Suc f) s = Some (ps, t)"
  proof -
    obtain q r where q: "skip_ws s = q # r" using mb by (auto split: list.splits)
    obtain k t1 where k: "parse_string r = Some (k, t1)" using mb q by (auto split: if_splits option.splits)
    obtain d t2 where d: "skip_ws t1 = d # t2" using mb q k by (auto split: if_splits list.splits)
    obtain x u where x: "parse_value f t2 = Some (x, u)" using mb q k d by (auto split: if_splits option.splits)
    obtain e u' where e: "skip_ws u = e # u'" using mb q k d x by (auto split: if_splits list.splits)
    have "length u' < length s"
      using after_space [OF q] parse_string_shorter [OF k] after_space [OF d] conjunct1 [OF Suc.IH [of t2 x u]] x after_space [OF e] by simp
    then show ?thesis using mb q k d x e Suc.IH [of u'] by (fastforce simp: map_option_apfst_Some split: if_splits)
  qed
  ultimately show ?case using v by blast
qed

lemma fuel_enough:
  "(2 * length s + 1 \<le> f \<longrightarrow> 2 * length s + 1 \<le> g \<longrightarrow> parse_value f s = parse_value g s)
    \<and> (2 * length s + 2 \<le> f \<longrightarrow> 2 * length s + 2 \<le> g \<longrightarrow> parse_elements f s = parse_elements g s)
    \<and> (2 * length s + 2 \<le> f \<longrightarrow> 2 * length s + 2 \<le> g \<longrightarrow> parse_members f s = parse_members g s)"
proof (induction f arbitrary: s g)
  case 0
  then show ?case by simp
next
  case (Suc f)
  show ?case
  proof (cases g)
    case 0
    then show ?thesis by simp
  next
    case g: (Suc h)
    have "parse_value (Suc f) s = parse_value (Suc h) s" if "2 * length s + 1 \<le> Suc f" "2 * length s + 1 \<le> Suc h"
    proof (cases "skip_ws s")
      case (Cons c r)
      then have l: "length r < length s" by (rule after_space)
      then have "parse_elements f r = parse_elements h r" "parse_members f r = parse_members h r"
        using Suc.IH [of r h] that by auto
      then show ?thesis by (simp only: parse_value.simps Cons list.case)
    qed simp
    moreover have "parse_elements (Suc f) s = parse_elements (Suc h) s" if "2 * length s + 2 \<le> Suc f" "2 * length s + 2 \<le> Suc h"
    proof -
      have v: "parse_value f s = parse_value h s" using Suc.IH [of s h] that by auto
      show ?thesis
      proof (cases "parse_value h s")
        case (Some p)
        obtain x u where p: "p = (x, u)" by (cases p)
        show ?thesis
        proof (cases "skip_ws u")
          case (Cons d u')
          have "length u' < length s" using after_space [OF Cons] conjunct1 [OF parse_shorter [of h s x u]] Some p by simp
          then have "parse_elements f u' = parse_elements h u'" using Suc.IH [of u' h] that by auto
          then show ?thesis by (simp only: parse_elements.simps v Some p option.case prod.case Cons list.case)
        qed (simp add: v Some p)
      qed (simp add: v)
    qed
    moreover have "parse_members (Suc f) s = parse_members (Suc h) s" if b: "2 * length s + 2 \<le> Suc f" "2 * length s + 2 \<le> Suc h"
    proof (cases "\<exists>q r k t1 d t2. skip_ws s = q # r \<and> parse_string r = Some (k, t1) \<and> skip_ws t1 = d # t2")
      case True
      then obtain q r k t1 d t2 where q: "skip_ws s = q # r" and k: "parse_string r = Some (k, t1)" and d: "skip_ws t1 = d # t2" by blast
      have l: "length t2 < length s" using after_space [OF q] parse_string_shorter [OF k] after_space [OF d] by simp
      have v: "parse_value f t2 = parse_value h t2" using Suc.IH [of t2 h] l b by auto
      show ?thesis
      proof (cases "\<exists>x u e u'. parse_value h t2 = Some (x, u) \<and> skip_ws u = e # u'")
        case True
        then obtain x u e u' where x: "parse_value h t2 = Some (x, u)" and e: "skip_ws u = e # u'" by blast
        have "length u' < length s" using l after_space [OF e] conjunct1 [OF parse_shorter [of h t2 x u]] x by simp
        then have "parse_members f u' = parse_members h u'" using Suc.IH [of u' h] b by auto
        then show ?thesis by (simp only: parse_members.simps v x e q k d option.case prod.case list.case)
      next
        case False
        then show ?thesis by (cases "parse_value h t2"; auto simp: v q k d split: list.splits)
      qed
    next
      case False
      then show ?thesis by (auto split: list.splits option.splits)
    qed
    ultimately show ?thesis using g by blast
  qed
qed

text \<open>The parser always reaches a verdict: the fuel \<open>JSON_parse\<close> starts with is enough for
  every text, since any larger amount reads the same value and leaves the same rest, so an
  outcome \<open>None\<close> is a syntax error and never exhausted fuel.\<close>

theorem json_parse_terminates:
  assumes "f \<ge> 2 * length s + 2"
  shows "JSON_parse s = (case parse_value f s of None \<Rightarrow> None | Some (v, t) \<Rightarrow> if skip_ws t = [] then Some v else None)
    \<and> (\<forall>v t. parse_value f s = Some (v, t) \<longrightarrow> length t < length s)"
proof -
  have "parse_value f s = parse_value (2 * length s + 2) s"
    using fuel_enough [of s f "2 * length s + 2"] assms by simp
  then show ?thesis using parse_shorter [of f s] by (simp only: JSON_parse_def) blast
qed

theorem json_parse_terminates_witness:
  "JSON_parse ''[1, {}'' = (case parse_value 1000 ''[1, {}'' of None \<Rightarrow> None | Some (v, t) \<Rightarrow> if skip_ws t = [] then Some v else None)"
  by (rule conjunct1 [OF json_parse_terminates]) simp

end
