(* ===== verification/Inbound_Rules.thy ===== *)
theory Inbound_Rules
  imports Outbound_Form
begin

text \<open>
  Rules about an inbound: \<open>protocol-capabilities.ts\<close> (which protocol and transport may use
  TLS, Reality, flow and sniffing), \<open>inbound-tag.ts\<close> (the tag derived from node, port and
  transports) and \<open>xhttp-session-id.ts\<close> (two validators of a form), all under
  \<open>frontend/src/lib/xray\<close>.
\<close>

section \<open>Capabilities\<close>

text \<open>The slice of an inbound the predicates read; absent blocks are \<^const>\<open>None\<close>.\<close>

record capability_slice =
  cap_protocol :: string
  cap_settings :: "jobj option"
  cap_stream :: "jobj option"

text \<open>\<open>block?.key\<close>.\<close>

definition chain_get :: "jobj option \<Rightarrow> string \<Rightarrow> jv" where
  "chain_get block key = (case block of None \<Rightarrow> JUndef | Some ob \<Rightarrow> oget ob key)"

definition TLS_ELIGIBLE_PROTOCOLS :: "string list" where
  "TLS_ELIGIBLE_PROTOCOLS = [''vmess'', ''vless'', ''trojan'', ''shadowsocks'']"

definition TLS_NETWORKS :: "string list" where
  "TLS_NETWORKS = [''tcp'', ''ws'', ''http'', ''grpc'', ''httpupgrade'', ''xhttp'']"

definition REALITY_ELIGIBLE_PROTOCOLS :: "string list" where
  "REALITY_ELIGIBLE_PROTOCOLS = [''vless'', ''trojan'']"

definition REALITY_NETWORKS :: "string list" where
  "REALITY_NETWORKS = [''tcp'', ''http'', ''grpc'', ''xhttp'']"

definition STREAM_CAPABLE_PROTOCOLS :: "string list" where
  "STREAM_CAPABLE_PROTOCOLS = [''vmess'', ''vless'', ''trojan'', ''shadowsocks'', ''hysteria'', ''wireguard'', ''tunnel'']"

text \<open>\<open>list.includes(v)\<close> of a list of strings.\<close>

definition includes_value :: "string list \<Rightarrow> jv \<Rightarrow> bool" where
  "includes_value xs v = (case v of JStr s \<Rightarrow> s \<in> set xs | _ \<Rightarrow> False)"

definition canEnableTls :: "capability_slice \<Rightarrow> bool" where
  "canEnableTls vals =
     (if cap_protocol vals = ''hysteria'' then True
      else if cap_protocol vals \<notin> set TLS_ELIGIBLE_PROTOCOLS then False
      else includes_value TLS_NETWORKS (or_else (chain_get (cap_stream vals) ''network'') (JStr [])))"

definition canEnableReality :: "capability_slice \<Rightarrow> bool" where
  "canEnableReality vals =
     (if cap_protocol vals \<notin> set REALITY_ELIGIBLE_PROTOCOLS then False
      else includes_value REALITY_NETWORKS (or_else (chain_get (cap_stream vals) ''network'') (JStr [])))"

definition is_set :: "jv \<Rightarrow> bool" where
  "is_set v \<longleftrightarrow> \<not> nullish v \<and> v \<noteq> JStr [] \<and> v \<noteq> JStr ''none''"

definition hasVlessEncryption :: "jobj option \<Rightarrow> bool" where
  "hasVlessEncryption settings \<longleftrightarrow> is_set (chain_get settings ''encryption'') \<or> is_set (chain_get settings ''decryption'')"

definition canEnableTlsFlow :: "capability_slice \<Rightarrow> bool" where
  "canEnableTlsFlow vals =
     (if cap_protocol vals \<noteq> ''vless'' then False
      else let network = chain_get (cap_stream vals) ''network''; security = chain_get (cap_stream vals) ''security''
      in if network = JStr ''tcp'' \<and> (security = JStr ''tls'' \<or> security = JStr ''reality'') then True
         else if network = JStr ''xhttp'' \<and> hasVlessEncryption (cap_settings vals) then True
         else False)"

definition canEnableStream :: "capability_slice \<Rightarrow> bool" where
  "canEnableStream vals \<longleftrightarrow> cap_protocol vals \<in> set STREAM_CAPABLE_PROTOCOLS"

definition canEnableSniffing :: "string \<Rightarrow> bool" where
  "canEnableSniffing protocol \<longleftrightarrow> protocol \<noteq> ''mtproto''"

text \<open>\<open>c?.flow\<close> of an element: a primitive has no such property.\<close>

definition flow_of :: "jv \<Rightarrow> jv" where
  "flow_of c = (case c of JObj ps \<Rightarrow> oget ps ''flow'' | _ \<Rightarrow> JUndef)"

definition canEnableVisionSeed :: "capability_slice \<Rightarrow> bool" where
  "canEnableVisionSeed vals =
     (if \<not> canEnableTlsFlow vals then False
      else case chain_get (cap_settings vals) ''clients'' of
        JArr clients \<Rightarrow> list_ex (\<lambda>c. flow_of c = JStr ''xtls-rprx-vision'') clients
      | _ \<Rightarrow> False)"

definition ss_method :: "capability_slice \<Rightarrow> jv" where
  "ss_method vals = (if cap_protocol vals = ''shadowsocks''
     then or_else (chain_get (cap_settings vals) ''method'') (JStr []) else JStr [])"

definition isSSMultiUser :: "capability_slice \<Rightarrow> bool" where
  "isSSMultiUser vals \<longleftrightarrow> ss_method vals \<noteq> JStr ''2022-blake3-chacha20-poly1305''"

text \<open>A method that is not a string has no \<open>substring\<close>: the code throws (\<^const>\<open>None\<close>).\<close>

definition isSS2022 :: "capability_slice \<Rightarrow> bool option" where
  "isSS2022 vals = map_option (\<lambda>m. take 4 m = ''2022'') (js_str_of (ss_method vals))"

section \<open>Inbound tags\<close>

record tag_input =
  ti_port :: "jsnum option"
  ti_nodeId :: "jsnum option"
  ti_protocol :: string
  ti_stream :: "jobj option"
  ti_settings :: "jobj option"

definition TCP :: int where "TCP = 1"

definition UDP :: int where "UDP = 2"

definition part_bits :: "string \<Rightarrow> int \<Rightarrow> int" where
  "part_bits part bits =
     (let p = trim part in
      if p = ''tcp'' then js_or bits TCP else if p = ''udp'' then js_or bits UDP else bits)"

definition settings_bits :: "string \<Rightarrow> jobj \<Rightarrow> int \<Rightarrow> int" where
  "settings_bits protocol settings bits =
     (if protocol = ''shadowsocks'' \<or> protocol = ''tunnel'' then
        (let key = (if protocol = ''tunnel'' then ''allowedNetwork'' else ''network'');
             n = asString (oget settings key)
         in if n \<noteq> [] then fold part_bits (split_on CHR '','' n) 0 else bits)
      else if protocol = ''mixed'' then
        (if oget settings ''udp'' = JBool True then js_or bits UDP else bits)
      else bits)"

definition inboundTransports :: "string \<Rightarrow> jobj option \<Rightarrow> jobj option \<Rightarrow> int" where
  "inboundTransports protocol streamSettings settings =
     (if protocol = ''hysteria'' \<or> protocol = ''wireguard'' then UDP
      else
        let network = asString (chain_get streamSettings ''network'');
            bits = (if network = ''kcp'' \<or> network = ''quic'' then js_or 0 UDP else js_or 0 TCP);
            bits = (case settings of None \<Rightarrow> bits | Some st \<Rightarrow> settings_bits protocol st bits)
        in if bits = 0 then TCP else bits)"

definition transportTagSuffix :: "int \<Rightarrow> string" where
  "transportTagSuffix bits =
     (if bits = TCP then ''tcp'' else if bits = UDP then ''udp''
      else if bits = js_or TCP UDP then ''tcpudp'' else ''any'')"

definition baseInboundTag :: "jsnum \<Rightarrow> string" where
  "baseInboundTag port = ''in-'' @ num_str port"

definition nodeTagPrefix :: "jsnum option \<Rightarrow> string" where
  "nodeTagPrefix nodeId = (case nodeId of None \<Rightarrow> [] | Some n \<Rightarrow> ''n'' @ num_str n @ ''-'')"

definition input_transports :: "tag_input \<Rightarrow> int" where
  "input_transports input = inboundTransports (ti_protocol input) (ti_stream input) (ti_settings input)"

definition input_port :: "tag_input \<Rightarrow> jsnum" where
  "input_port input = (case ti_port input of None \<Rightarrow> num 0 | Some p \<Rightarrow> p)"

definition composeInboundTag :: "tag_input \<Rightarrow> string" where
  "composeInboundTag input =
     nodeTagPrefix (ti_nodeId input) @ baseInboundTag (input_port input) @ ''-'' @ transportTagSuffix (input_transports input)"

definition isAutoInboundTag :: "string \<Rightarrow> tag_input \<Rightarrow> bool" where
  "isAutoInboundTag tag input =
     (if tag = [] then True
      else let base = composeInboundTag input in
        if tag = base then True
        else let prefix = base @ ''-'' in
          if \<not> starts_with tag prefix then False
          else let suffix = drop (length prefix) tag in suffix \<noteq> [] \<and> list_all is_digit suffix)"

section \<open>Session identifiers of xHTTP\<close>

text \<open>A rejected promise is its message (the last one with its sign spelt in ASCII).\<close>

definition validateSessionIDTable :: "jv \<Rightarrow> string option" where
  "validateSessionIDTable val =
     (let str = asString val in
      if str = [] then None
      else if list_ex (\<lambda>c. code c > 127) str then Some ''sessionIDTable must contain only ASCII characters''
      else None)"

text \<open>\<open>/^\d+(?:-\d+)?$/\<close>.\<close>

definition length_or_range :: "string \<Rightarrow> bool" where
  "length_or_range s =
     (let parts = split_on CHR ''-'' s
      in length parts \<in> {1, 2} \<and> list_all (\<lambda>p. p \<noteq> [] \<and> list_all is_digit p) parts)"

definition validateSessionIDLength :: "jv \<Rightarrow> string option" where
  "validateSessionIDLength val =
     (let str = (case val of JStr s \<Rightarrow> trim s | _ \<Rightarrow> []) in
      if str = [] then None
      else if \<not> length_or_range str then Some ''Use a length or range, e.g. 8 or 8-16''
      else let parts = split_on CHR ''-'' str; from = js_number (hd parts) in
        if \<not> is_finite from \<or> num_less from (num 0) \<or> from = num 0
        then Some ''sessionIDLength minimum must be greater than 0''
        else if length parts = 2 \<and> num_less (js_number (parts ! 1)) from
        then Some ''sessionIDLength range upper bound must be >= lower bound''
        else None)"

section \<open>Properties\<close>

lemma flow_networks: "includes_value REALITY_NETWORKS (JStr ''tcp'')" "includes_value REALITY_NETWORKS (JStr ''xhttp'')"
  by (simp_all add: includes_value_def REALITY_NETWORKS_def)

lemma reality_networks_tls: "includes_value REALITY_NETWORKS v \<Longrightarrow> includes_value TLS_NETWORKS v"
  by (cases v) (auto simp: includes_value_def REALITY_NETWORKS_def TLS_NETWORKS_def)

lemma flow_reality: "canEnableTlsFlow v \<Longrightarrow> canEnableReality v"
proof -
  assume f: "canEnableTlsFlow v"
  then have p: "cap_protocol v = ''vless''" by (simp add: canEnableTlsFlow_def split: if_splits)
  have "chain_get (cap_stream v) ''network'' \<in> {JStr ''tcp'', JStr ''xhttp''}"
    using f by (auto simp: canEnableTlsFlow_def Let_def simp del: jv.inject split: if_splits)
  then have "includes_value REALITY_NETWORKS (chain_get (cap_stream v) ''network'')
      \<and> or_else (chain_get (cap_stream v) ''network'') (JStr []) = chain_get (cap_stream v) ''network''"
    using flow_networks by (auto simp: or_else_def)
  then show ?thesis by (simp add: canEnableReality_def p REALITY_ELIGIBLE_PROTOCOLS_def)
qed

lemma reality_tls: "canEnableReality v \<Longrightarrow> canEnableTls v"
  using reality_networks_tls
  by (auto simp: canEnableReality_def canEnableTls_def REALITY_ELIGIBLE_PROTOCOLS_def TLS_ELIGIBLE_PROTOCOLS_def split: if_splits)

lemma tls_stream: "canEnableTls v \<Longrightarrow> canEnableStream v"
  by (auto simp: canEnableTls_def canEnableStream_def TLS_ELIGIBLE_PROTOCOLS_def STREAM_CAPABLE_PROTOCOLS_def split: if_splits)

text \<open>The capabilities of an inbound form a chain: a Vision seed needs a flow, a flow
  needs a transport that could carry Reality, Reality needs one that could carry TLS, and TLS
  needs a protocol that has stream settings at all.\<close>

theorem capability_chain:
  "(canEnableVisionSeed v \<longrightarrow> canEnableTlsFlow v) \<and> (canEnableTlsFlow v \<longrightarrow> canEnableReality v)
    \<and> (canEnableReality v \<longrightarrow> canEnableTls v) \<and> (canEnableTls v \<longrightarrow> canEnableStream v)"
  using flow_reality reality_tls tls_stream by (simp add: canEnableVisionSeed_def)

theorem capability_chain_witness:
  "let v = \<lparr>cap_protocol = ''vless'', cap_settings = Some [(''clients'', JArr [JObj [(''flow'', JStr ''xtls-rprx-vision'')]])],
      cap_stream = Some [(''network'', JStr ''tcp''), (''security'', JStr ''tls'')]\<rparr>
   in canEnableVisionSeed v \<and> canEnableStream v"
proof -
  let ?v = "\<lparr>cap_protocol = ''vless'', cap_settings = Some [(''clients'', JArr [JObj [(''flow'', JStr ''xtls-rprx-vision'')]])],
      cap_stream = Some [(''network'', JStr ''tcp''), (''security'', JStr ''tls'')]\<rparr>"
  have "canEnableVisionSeed ?v"
    by (simp add: canEnableVisionSeed_def canEnableTlsFlow_def chain_get_def oget_def flow_of_def)
  then show ?thesis using capability_chain [of ?v] by (simp add: Let_def)
qed

lemma js_or_bits: "js_or 0 1 = 1" "js_or 0 2 = 2" "js_or 1 1 = 1" "js_or 1 2 = 3" "js_or 2 1 = 3" "js_or 2 2 = 2"
    "js_or 3 1 = 3" "js_or 3 2 = 3"
  by code_simp+

lemma part_bits_range: "bits \<in> {0, 1, 2, 3} \<Longrightarrow> part_bits p bits \<in> {0, 1, 2, 3}"
  unfolding part_bits_def Let_def TCP_def UDP_def by (auto simp: js_or_bits simp del: insert_iff simp: insert_iff [of _ 0])

lemma fold_bits_range: "bits \<in> {0, 1, 2, 3} \<Longrightarrow> fold part_bits ps bits \<in> {0, 1, 2, 3}"
  by (induction ps arbitrary: bits) (simp_all only: fold.simps id_apply comp_apply part_bits_range)

lemma settings_bits_range:
  assumes b: "bits \<in> {0, 1, 2, 3}"
  shows "settings_bits protocol st bits \<in> {0, 1, 2, 3}"
proof -
  have "js_or bits UDP \<in> {0, 1, 2, 3}" using b by (auto simp: UDP_def js_or_bits)
  moreover have "fold part_bits ps 0 \<in> {0, 1, 2, 3}" for ps by (rule fold_bits_range) simp
  ultimately show ?thesis using b by (simp only: settings_bits_def Let_def split: if_splits) argo
qed

lemma transports_range: "inboundTransports protocol stream st \<in> {1, 2, 3}"
proof -
  define b0 where "b0 = (if asString (chain_get stream ''network'') = ''kcp'' \<or> asString (chain_get stream ''network'') = ''quic''
    then js_or 0 UDP else js_or 0 TCP)"
  define bits where "bits = (case st of None \<Rightarrow> b0 | Some s \<Rightarrow> settings_bits protocol s b0)"
  have "b0 \<in> {0, 1, 2, 3}" unfolding b0_def by (simp only: UDP_def TCP_def js_or_bits split: if_splits) simp
  then have b: "bits \<in> {0, 1, 2, 3}" unfolding bits_def by (cases st) (simp_all only: option.case settings_bits_range)
  have i: "inboundTransports protocol stream st = (if protocol = ''hysteria'' \<or> protocol = ''wireguard'' then UDP
      else if bits = 0 then TCP else bits)"
    unfolding inboundTransports_def Let_def bits_def b0_def ..
  show ?thesis
  proof (cases "protocol = ''hysteria'' \<or> protocol = ''wireguard''")
    case True
    then show ?thesis by (simp only: i if_True UDP_def) simp
  next
    case False
    then show ?thesis using b by (cases "bits = 0") (simp_all only: i if_False if_True TCP_def, auto)
  qed
qed

lemma suffix_values:
  assumes "bits \<in> {1, 2, 3}"
  shows "transportTagSuffix bits = (if bits = 1 then ''tcp'' else if bits = 2 then ''udp'' else ''tcpudp'')"
  using assms by (auto simp: transportTagSuffix_def TCP_def UDP_def js_or_bits)

lemma suffix_no_dash: "bits \<in> {1, 2, 3} \<Longrightarrow> CHR ''-'' \<notin> set (transportTagSuffix bits) \<and> \<not> list_all is_digit (transportTagSuffix bits)"
  by (simp add: suffix_values is_digit_def)

lemma suffix_inject:
  "b \<in> {1, 2, 3} \<Longrightarrow> b' \<in> {1, 2, 3} \<Longrightarrow> transportTagSuffix b = transportTagSuffix b' \<Longrightarrow> b = b'"
  by (auto simp: suffix_values)

lemma last_dash:
  fixes c :: char
  assumes "p @ c # s = p' @ c # s'" "c \<notin> set s" "c \<notin> set s'"
  shows "p = p' \<and> s = s'"
proof -
  have "last_index_of c (p @ c # s) = Some (length p)" "last_index_of c (p' @ c # s') = Some (length p')"
    using assms(2,3) by (simp_all add: last_index_of_append)
  then have "length p = length p'" using assms(1) by simp
  then show ?thesis using assms(1) by simp
qed

lemma nat_str_no_dash: "CHR ''-'' \<notin> set (nat_str n)"
  using nat_str_digits [of "CHR ''-''" n] by (auto simp: is_digit_def)

lemma num_str_nat: "num_str (Fin (of_nat n)) = nat_str n"
proof -
  have "\<lfloor>of_nat n :: rat\<rfloor> = int n" by simp
  then show ?thesis by (simp add: num_str_def int_str_def)
qed

text \<open>Identifiers and ports are natural numbers.\<close>

definition natural_input :: "tag_input \<Rightarrow> bool" where
  "natural_input i \<longleftrightarrow> (\<exists>p. input_port i = num (int p)) \<and> (\<forall>n. ti_nodeId i = Some n \<longrightarrow> (\<exists>k. n = num (int k)))"

lemma node_prefix_inject:
  assumes "natural_input i" "natural_input j" "nodeTagPrefix (ti_nodeId i) @ ''in'' = nodeTagPrefix (ti_nodeId j) @ ''in''"
  shows "ti_nodeId i = ti_nodeId j"
proof (cases "ti_nodeId i"; cases "ti_nodeId j")
  fix m n assume a: "ti_nodeId i = Some m" "ti_nodeId j = Some n"
  obtain p q where "m = num (int p)" "n = num (int q)" using assms(1,2) a by (auto simp: natural_input_def)
  then show ?thesis using assms(3) by (simp add: a nodeTagPrefix_def num_str_nat)
qed (use assms in \<open>auto simp: nodeTagPrefix_def\<close>)

lemma compose_inject:
  assumes "natural_input i" "natural_input j" "composeInboundTag i = composeInboundTag j"
  shows "ti_nodeId i = ti_nodeId j \<and> input_port i = input_port j \<and> input_transports i = input_transports j"
proof -
  obtain p q where p: "input_port i = num (int p)" "input_port j = num (int q)" using assms(1,2) by (auto simp: natural_input_def)
  let ?s = "transportTagSuffix (input_transports i)" and ?t = "transportTagSuffix (input_transports j)"
  let ?m = "nodeTagPrefix (ti_nodeId i)" and ?n = "nodeTagPrefix (ti_nodeId j)"
  have r: "input_transports i \<in> {1, 2, 3}" "input_transports j \<in> {1, 2, 3}"
    by (simp_all only: input_transports_def transports_range)
  have "(?m @ ''in-'' @ nat_str p) @ CHR ''-'' # ?s = (?n @ ''in-'' @ nat_str q) @ CHR ''-'' # ?t"
    using assms(3) by (simp add: composeInboundTag_def baseInboundTag_def p num_str_nat)
  from last_dash [OF this] have 1: "?m @ ''in-'' @ nat_str p = ?n @ ''in-'' @ nat_str q" "?s = ?t"
    using suffix_no_dash r by auto
  then have "(?m @ ''in'') @ CHR ''-'' # nat_str p = (?n @ ''in'') @ CHR ''-'' # nat_str q" by simp
  from last_dash [OF this nat_str_no_dash nat_str_no_dash] have 2: "?m @ ''in'' = ?n @ ''in''" "p = q" by auto
  show ?thesis using node_prefix_inject [OF assms(1,2) 2(1)] suffix_inject [OF r 1(2)] p 2(2) by simp
qed

lemma auto_tag_forms:
  assumes "isAutoInboundTag tag i" "tag \<noteq> []"
  shows "tag = composeInboundTag i \<or> (\<exists>d. d \<noteq> [] \<and> list_all is_digit d \<and> tag = composeInboundTag i @ CHR ''-'' # d)"
  using assms by (auto simp: isAutoInboundTag_def Let_def starts_with_iff split: if_splits)

lemma digits_no_dash: "list_all is_digit d \<Longrightarrow> CHR ''-'' \<notin> set d"
  by (auto simp: list_all_iff is_digit_def)

lemma compose_not_numbered:
  assumes "list_all is_digit d"
  shows "composeInboundTag i \<noteq> b @ CHR ''-'' # d"
proof
  assume "composeInboundTag i = b @ CHR ''-'' # d"
  then have e: "(nodeTagPrefix (ti_nodeId i) @ baseInboundTag (input_port i)) @ CHR ''-'' # transportTagSuffix (input_transports i)
      = b @ CHR ''-'' # d" by (simp add: composeInboundTag_def)
  have r: "input_transports i \<in> {1, 2, 3}" by (simp only: input_transports_def transports_range)
  from last_dash [OF e] suffix_no_dash [OF r] digits_no_dash [OF assms] assms show False by simp
qed

text \<open>An automatic tag names its inbound: the composed tag and every numbered variant of it
  are recognised, a recognised nonempty tag is one of those, and when one tag is recognised for
  two inbounds they have the same node, port and transports, so an edited inbound's
  hand-written tag is never mistaken for the derived one of another inbound.\<close>

theorem auto_tag_identifies:
  assumes "natural_input i" "natural_input j" "isAutoInboundTag tag i" "isAutoInboundTag tag j" "tag \<noteq> []"
  shows "ti_nodeId i = ti_nodeId j \<and> input_port i = input_port j \<and> input_transports i = input_transports j
    \<and> isAutoInboundTag (composeInboundTag i) i \<and> isAutoInboundTag (composeInboundTag i @ ''-'' @ nat_str n) i"
proof -
  have "composeInboundTag i = composeInboundTag j"
    using auto_tag_forms [OF assms(3,5)] auto_tag_forms [OF assms(4,5)]
  proof (elim disjE exE conjE)
    fix d d' assume "list_all is_digit d" "list_all is_digit d'" "tag = composeInboundTag i @ CHR ''-'' # d"
      "tag = composeInboundTag j @ CHR ''-'' # d'"
    then show ?thesis using last_dash [of "composeInboundTag i" "CHR ''-''" d "composeInboundTag j" d'] digits_no_dash by simp
  qed (use compose_not_numbered in metis)+
  moreover have "list_all is_digit (nat_str n)" using nat_str_digits by (simp add: list_all_iff)
  moreover have "composeInboundTag i \<noteq> []" by (simp add: composeInboundTag_def)
  ultimately show ?thesis
    using compose_inject [OF assms(1,2)] starts_with_append [of "composeInboundTag i @ ''-''" "nat_str n"]
    by (simp add: isAutoInboundTag_def Let_def)
qed

theorem auto_tag_identifies_witness:
  "let i = \<lparr>ti_port = Some (num 443), ti_nodeId = Some (num 2), ti_protocol = ''vless'', ti_stream = None, ti_settings = None\<rparr>
   in composeInboundTag i = ''n2-in-443-tcp'' \<and> isAutoInboundTag (composeInboundTag i @ ''-'' @ nat_str 7) i"
proof -
  let ?i = "\<lparr>ti_port = Some (num 443), ti_nodeId = Some (num 2), ti_protocol = ''vless'', ti_stream = None, ti_settings = None\<rparr>"
  have n: "natural_input ?i" by (simp add: natural_input_def input_port_def)
  have c: "composeInboundTag ?i = ''n2-in-443-tcp''" by code_simp
  then have "isAutoInboundTag ''n2-in-443-tcp'' ?i" "''n2-in-443-tcp'' \<noteq> []" by (simp_all add: isAutoInboundTag_def)
  from auto_tag_identifies [OF n n this(1,1) this(2)] c show ?thesis by (simp add: Let_def)
qed

definition numeral_text :: "string \<Rightarrow> bool" where
  "numeral_text a \<longleftrightarrow> a \<noteq> [] \<and> list_all is_digit a"

lemma numeral_number: "numeral_text a \<Longrightarrow> int (digits_val 10 a) \<le> 2 ^ 53 \<Longrightarrow> js_number a = num (int (digits_val 10 a))"
  unfolding numeral_text_def list_all_iff using js_number_digits [of a] to_num_nat [of "digits_val 10 a"] by simp

lemma numeral_trim:
  assumes "\<forall>c \<in> set s. is_digit c \<or> c = CHR ''-''"
  shows "trim s = s"
proof (rule trim_no_space)
  show "\<forall>c \<in> set s. \<not> is_space c" using assms digit_not_space by (auto simp: is_space_def)
qed

lemma split_numeral:
  assumes "numeral_text a" "numeral_text b"
  shows "split_on CHR ''-'' a = [a]" "split_on CHR ''-'' (a @ ''-'' @ b) = [a, b]"
  using assms digits_no_dash by (simp_all add: numeral_text_def split_on_no_sep split_on_append_sep)

text \<open>The validator of a session identifier length accepts, apart from the empty text,
  exactly a positive decimal numeral or a range of two of them in ascending order (numerals
  up to \<open>2 ^ 53\<close>, where \<open>Number\<close> is exact), with surrounding space ignored; everything
  else is rejected with a message.\<close>

theorem session_length_errors:
  assumes "numeral_text a" "numeral_text b" "int (digits_val 10 a) \<le> 2 ^ 53" "int (digits_val 10 b) \<le> 2 ^ 53"
  shows "(validateSessionIDLength (JStr a) = None \<longleftrightarrow> 0 < digits_val 10 a)
    \<and> (validateSessionIDLength (JStr (a @ ''-'' @ b)) = None \<longleftrightarrow> 0 < digits_val 10 a \<and> digits_val 10 a \<le> digits_val 10 b)
    \<and> (validateSessionIDLength (JStr s) = None \<longrightarrow> trim s = [] \<or> numeral_text (trim s)
        \<or> (\<exists>x y. numeral_text x \<and> numeral_text y \<and> trim s = x @ ''-'' @ y))"
proof (intro conjI)
  note n = numeral_number [OF assms(1,3)] numeral_number [OF assms(2,4)]
  have t: "trim a = a" "trim (a @ ''-'' @ b) = a @ ''-'' @ b"
    using assms(1,2) by (auto intro!: numeral_trim simp: numeral_text_def list_all_iff)
  have a: "a \<noteq> []" "length_or_range a" "length_or_range (a @ ''-'' @ b)"
    using assms(1,2) split_numeral [OF assms(1,2)] by (auto simp: length_or_range_def numeral_text_def)
  show "validateSessionIDLength (JStr a) = None \<longleftrightarrow> 0 < digits_val 10 a"
    using a t n split_numeral [OF assms(1,2)] by (auto simp: validateSessionIDLength_def Let_def is_finite_def)
  show "validateSessionIDLength (JStr (a @ ''-'' @ b)) = None \<longleftrightarrow> 0 < digits_val 10 a \<and> digits_val 10 a \<le> digits_val 10 b"
    using a t n split_numeral [OF assms(1,2)] by (auto simp: validateSessionIDLength_def Let_def is_finite_def)
  show "validateSessionIDLength (JStr s) = None \<longrightarrow> trim s = [] \<or> numeral_text (trim s)
        \<or> (\<exists>x y. numeral_text x \<and> numeral_text y \<and> trim s = x @ ''-'' @ y)"
  proof (intro impI, cases "trim s = []")
    assume "validateSessionIDLength (JStr s) = None" "trim s \<noteq> []"
    then have l: "length_or_range (trim s)" by (auto simp: validateSessionIDLength_def Let_def split: if_splits)
    define ps where "ps = split_on CHR ''-'' (trim s)"
    have j: "join ''-'' ps = trim s" unfolding ps_def by (rule join_split_on)
    have "length ps \<in> {1, 2}" "\<forall>p \<in> set ps. numeral_text p"
      using l by (auto simp: length_or_range_def ps_def numeral_text_def list_all_iff Let_def)
    then have "(\<exists>x. ps = [x] \<and> numeral_text x) \<or> (\<exists>x y. ps = [x, y] \<and> numeral_text x \<and> numeral_text y)"
      by (cases ps rule: remdups_adj.cases) auto
    then show "trim s = [] \<or> numeral_text (trim s) \<or> (\<exists>x y. numeral_text x \<and> numeral_text y \<and> trim s = x @ ''-'' @ y)"
    proof (elim disjE exE conjE)
      fix x y assume "ps = [x, y]" "numeral_text x" "numeral_text y"
      then show ?thesis using j by (intro disjI2 exI [of _ x] exI [of _ y]) simp
    qed (use j in simp)
  qed simp
qed

theorem session_length_errors_witness:
  "validateSessionIDLength (JStr ''8'') = None \<and> validateSessionIDLength (JStr (''8'' @ ''-'' @ ''16'')) = None"
proof -
  have n: "numeral_text ''8''" "numeral_text ''16''" "digits_val 10 ''8'' = 8" "digits_val 10 ''16'' = 16"
    by (simp_all add: numeral_text_def is_digit_def digits_val_def digit_val_def)
  show ?thesis using session_length_errors [OF n(1,2)] by (simp add: n)
qed

end
