(* ===== verification/Inbound_Form.thy ===== *)
theory Inbound_Form
  imports Json_Text Inbound_Rules
begin

text \<open>
  \<open>frontend/src/lib/xray/inbound-form-adapter.ts\<close>: the stored row of an inbound, whose
  nested blocks are JSON texts, and the typed form of the editor. The client schemas of
  \<open>zod\<close> are the parameter \<open>clientSchema\<close>: what \<open>safeParse\<close> returns for a protocol's
  client, \<^const>\<open>None\<close> where it fails. A network named like an inherited property of an object
  is outside the model. A thrown \<open>TypeError\<close> is \<^const>\<open>None\<close>.
\<close>

section \<open>Rows, forms, payloads\<close>

record raw_row =
  rr_port :: "jsnum option"
  rr_listen :: "string option"
  rr_protocol :: "string option"
  rr_tag :: "string option"
  rr_settings :: jv
  rr_streamSettings :: jv
  rr_sniffing :: jv
  rr_up :: "jsnum option"
  rr_down :: "jsnum option"
  rr_total :: "jsnum option"
  rr_remark :: "string option"
  rr_enable :: "bool option"
  rr_expiryTime :: "jsnum option"
  rr_trafficReset :: jv
  rr_lastTrafficResetTime :: "jsnum option"
  rr_nodeId :: "jsnum option"
  rr_shareAddrStrategy :: jv
  rr_shareAddr :: "string option"
  rr_subSortIndex :: "jsnum option"
  rr_trafficMultiplier :: "jsnum option"

record inbound_form =
  nf_remark :: string
  nf_enable :: bool
  nf_port :: jsnum
  nf_listen :: string
  nf_tag :: string
  nf_expiryTime :: jsnum
  nf_sniffing :: jobj
  nf_streamSettings :: "jobj option"
  nf_up :: jsnum
  nf_down :: jsnum
  nf_total :: jsnum
  nf_trafficReset :: string
  nf_lastTrafficResetTime :: jsnum
  nf_nodeId :: "jsnum option"
  nf_shareAddrStrategy :: string
  nf_shareAddr :: string
  nf_trafficMultiplier :: jsnum
  nf_subSortIndex :: jsnum
  nf_protocol :: string
  nf_settings :: jobj

record wire_payload =
  py_up :: jsnum
  py_down :: jsnum
  py_total :: jsnum
  py_remark :: string
  py_enable :: bool
  py_expiryTime :: jsnum
  py_trafficReset :: string
  py_lastTrafficResetTime :: jsnum
  py_listen :: string
  py_port :: jsnum
  py_protocol :: string
  py_settings :: string
  py_streamSettings :: string
  py_sniffing :: string
  py_tag :: string
  py_nodeId :: "jsnum option"
  py_shareAddrStrategy :: string
  py_shareAddr :: string
  py_subSortIndex :: jsnum
  py_trafficMultiplier :: jsnum

section \<open>Reading a row\<close>

definition coerceJsonObject :: "jv \<Rightarrow> jobj" where
  "coerceJsonObject v =
     (case v of
        JObj ps \<Rightarrow> ps
      | JStr s \<Rightarrow>
          let trimmed = trim s in
          if trimmed = [] then []
          else (case JSON_parse trimmed of Some (JObj ps) \<Rightarrow> ps | _ \<Rightarrow> [])
      | _ \<Rightarrow> [])"

definition TRAFFIC_RESETS :: "string list" where
  "TRAFFIC_RESETS = [''never'', ''hourly'', ''daily'', ''weekly'', ''monthly'']"

definition SHARE_ADDR_STRATEGIES :: "string list" where
  "SHARE_ADDR_STRATEGIES = [''node'', ''listen'', ''custom'']"

definition coerceTrafficReset :: "jv \<Rightarrow> string" where
  "coerceTrafficReset v = (case v of JStr s \<Rightarrow> if s \<in> set TRAFFIC_RESETS then s else ''never'' | _ \<Rightarrow> ''never'')"

definition coerceShareAddrStrategy :: "jv \<Rightarrow> string" where
  "coerceShareAddrStrategy v = (case v of JStr s \<Rightarrow> if s \<in> set SHARE_ADDR_STRATEGIES then s else ''node'' | _ \<Rightarrow> ''node'')"

definition NETWORK_SETTINGS_KEY :: "(string \<times> string) list" where
  "NETWORK_SETTINGS_KEY = [(''tcp'', ''tcpSettings''), (''kcp'', ''kcpSettings''), (''ws'', ''wsSettings''),
     (''grpc'', ''grpcSettings''), (''httpupgrade'', ''httpupgradeSettings''), (''xhttp'', ''xhttpSettings''),
     (''hysteria'', ''hysteriaSettings'')]"

text \<open>\<open>v == null || typeof v !== 'object'\<close>.\<close>

definition not_object :: "jv \<Rightarrow> bool" where
  "not_object v = (case v of JObj _ \<Rightarrow> False | JArr _ \<Rightarrow> False | _ \<Rightarrow> True)"

definition healStreamNetworkKey :: "jobj \<Rightarrow> jobj" where
  "healStreamNetworkKey stream =
     (case map_of NETWORK_SETTINGS_KEY (asString (oget stream ''network'')) of
        None \<Rightarrow> stream
      | Some key \<Rightarrow> if not_object (oget stream key) then oset key (JObj []) stream else stream)"

text \<open>\<open>tlsSettings?.certificates\<close> where it is an array.\<close>

definition tlsCerts :: "jobj \<Rightarrow> jv list" where
  "tlsCerts stream =
     (case oget stream ''tlsSettings'' of
        JObj tls \<Rightarrow> (case oget tls ''certificates'' of JArr cs \<Rightarrow> cs | _ \<Rightarrow> [])
      | _ \<Rightarrow> [])"

definition nonempty_array :: "jv \<Rightarrow> bool" where
  "nonempty_array v = (case v of JArr xs \<Rightarrow> xs \<noteq> [] | _ \<Rightarrow> False)"

definition cert_useFile :: "jobj \<Rightarrow> bool" where
  "cert_useFile c =
     (let hasFile = truthy (oget c ''certificateFile'') \<or> truthy (oget c ''keyFile'');
          hasInline = nonempty_array (oget c ''certificate'') \<or> nonempty_array (oget c ''key'')
      in hasFile \<or> \<not> hasInline)"

text \<open>One certificate entry: a property of an array is not part of its JSON text; a primitive
  takes no property and \<open>null\<close> has none, so the assignment throws.\<close>

definition synthesize_cert :: "jv \<Rightarrow> jv option" where
  "synthesize_cert v =
     (case v of
        JObj c \<Rightarrow> Some (case oget c ''useFile'' of JBool _ \<Rightarrow> JObj c | _ \<Rightarrow> JObj (oset ''useFile'' (JBool (cert_useFile c)) c))
      | JArr xs \<Rightarrow> Some (JArr xs)
      | _ \<Rightarrow> None)"

definition strip_cert :: "jv \<Rightarrow> jv option" where
  "strip_cert v = (case v of JObj c \<Rightarrow> Some (JObj (odel ''useFile'' c)) | JUndef \<Rightarrow> None | JNull \<Rightarrow> None | _ \<Rightarrow> Some v)"

definition map_certs :: "(jv \<Rightarrow> jv option) \<Rightarrow> jobj \<Rightarrow> jobj option" where
  "map_certs f stream =
     (if tlsCerts stream = [] then Some stream
      else map_option (\<lambda>cs. at_record ''tlsSettings'' (oset ''certificates'' (JArr cs)) stream)
             (all_some (map f (tlsCerts stream))))"

definition synthesizeTlsCertUseFile :: "jobj \<Rightarrow> jobj option" where
  "synthesizeTlsCertUseFile = map_certs synthesize_cert"

definition stripTlsCertUseFile :: "jobj \<Rightarrow> jobj option" where
  "stripTlsCertUseFile = map_certs strip_cert"

definition enable_saved_xmux :: "jobj \<Rightarrow> jobj" where
  "enable_saved_xmux stream =
     at_record ''xhttpSettings'' (\<lambda>xhttp.
       (case as_record (oget xhttp ''xmux'') of
          Some xmux \<Rightarrow> oset ''xmux'' (JObj (spread XMUX_DEFAULTS xmux)) (oset ''enableXmux'' (JBool True) xhttp)
        | None \<Rightarrow> xhttp)) stream"

definition readStream :: "jobj \<Rightarrow> jobj option option" where
  "readStream rawStream =
     (if okeys rawStream = [] then Some None
      else map_option (Some \<circ> enable_saved_xmux) (synthesizeTlsCertUseFile (healStreamNetworkKey rawStream)))"

text \<open>\<open>Math.max(1, n)\<close>.\<close>

definition max_1 :: "jsnum \<Rightarrow> jsnum" where
  "max_1 n = (if n = NaN then NaN else if num_less n (num 1) then num 1 else n)"

definition or_default :: "'a \<Rightarrow> 'a option \<Rightarrow> 'a" where
  "or_default d a = (case a of Some x \<Rightarrow> x | None \<Rightarrow> d)"

definition rawInboundToFormValues :: "raw_row \<Rightarrow> inbound_form option" where
  "rawInboundToFormValues row =
     (let protocol = (case rr_protocol row of Some p \<Rightarrow> if p \<noteq> [] then p else ''vless'' | None \<Rightarrow> ''vless'');
          settings = coerceJsonObject (rr_settings row)
      in case readStream (coerceJsonObject (rr_streamSettings row)) of
           None \<Rightarrow> None
         | Some streamSettings \<Rightarrow> Some
            \<lparr>nf_remark = or_default [] (rr_remark row), nf_enable = or_default True (rr_enable row),
             nf_port = or_default (num 0) (rr_port row), nf_listen = or_default [] (rr_listen row),
             nf_tag = or_default [] (rr_tag row), nf_expiryTime = or_default (num 0) (rr_expiryTime row),
             nf_sniffing = coerceJsonObject (rr_sniffing row), nf_streamSettings = streamSettings,
             nf_up = or_default (num 0) (rr_up row), nf_down = or_default (num 0) (rr_down row),
             nf_total = or_default (num 0) (rr_total row), nf_trafficReset = coerceTrafficReset (rr_trafficReset row),
             nf_lastTrafficResetTime = or_default (num 0) (rr_lastTrafficResetTime row), nf_nodeId = rr_nodeId row,
             nf_shareAddrStrategy = coerceShareAddrStrategy (rr_shareAddrStrategy row),
             nf_shareAddr = or_default [] (rr_shareAddr row),
             nf_trafficMultiplier = (case rr_trafficMultiplier row of
                Some m \<Rightarrow> if num_truthy m \<and> num_less (num 0) m then m else num 1 | None \<Rightarrow> num 1),
             nf_subSortIndex = max_1 (or_default (num 1) (rr_subSortIndex row)),
             nf_protocol = protocol, nf_settings = settings\<rparr>)"

section \<open>Writing the payload\<close>

function (sequential) pruneEmpty :: "jv \<Rightarrow> jv" where
  "pruneEmpty (JArr xs) = JArr (map pruneEmpty xs)"
| "pruneEmpty (JObj ps) = JObj (concat (map (\<lambda>k. case map_of ps k of None \<Rightarrow> [] | Some v \<Rightarrow>
     (let p = pruneEmpty v in if p = JUndef \<or> k = ''__proto__'' then [] else [(k, p)])) (js_keys ps)))"
| "pruneEmpty v = v"
  by pat_completeness auto

termination
proof (relation "measure size")
  fix x :: jv and xs assume "x \<in> set xs"
  then show "(x, JArr xs) \<in> measure size" by (induction xs) auto
next
  fix ps :: jobj and k and v :: jv assume "map_of ps k = Some v"
  from map_of_size [OF this] show "(v, JObj ps) \<in> measure size" by simp
qed simp

definition prune_object :: "jobj \<Rightarrow> jobj" where
  "prune_object ps = (case pruneEmpty (JObj ps) of JObj qs \<Rightarrow> qs | _ \<Rightarrow> [])"

definition normalizeClients :: "(string \<Rightarrow> jv \<Rightarrow> jv option) \<Rightarrow> string \<Rightarrow> jv \<Rightarrow> jv" where
  "normalizeClients clientSchema protocol clients =
     (if protocol \<notin> set [''vless'', ''vmess'', ''trojan'', ''shadowsocks'', ''hysteria''] then clients
      else case clients of
        JArr cs \<Rightarrow> JArr (map (\<lambda>c. case clientSchema protocol c of Some d \<Rightarrow> d | None \<Rightarrow> c) cs)
      | _ \<Rightarrow> clients)"

text \<open>\<open>v?.length\<close> as a condition.\<close>

definition has_length :: "jv \<Rightarrow> bool" where
  "has_length v = (case v of JArr xs \<Rightarrow> xs \<noteq> [] | JStr s \<Rightarrow> s \<noteq> [] | JObj ps \<Rightarrow> truthy (oget ps ''length'') | _ \<Rightarrow> False)"

definition normalizeSniffing :: "jobj option \<Rightarrow> jobj" where
  "normalizeSniffing s =
     (case s of
        None \<Rightarrow> [(''enabled'', JBool False)]
      | Some s \<Rightarrow>
          if \<not> truthy (oget s ''enabled'') then [(''enabled'', JBool False)]
          else [(''enabled'', JBool True), (''destOverride'', oget s ''destOverride'')]
            @ (if truthy (oget s ''metadataOnly'') then [(''metadataOnly'', JBool True)] else [])
            @ (if truthy (oget s ''routeOnly'') then [(''routeOnly'', JBool True)] else [])
            @ (if has_length (oget s ''ipsExcluded'') then [(''ipsExcluded'', oget s ''ipsExcluded'')] else [])
            @ (if has_length (oget s ''domainsExcluded'') then [(''domainsExcluded'', oget s ''domainsExcluded'')] else []))"

definition drop_empty_finalmask :: "jobj \<Rightarrow> jobj" where
  "drop_empty_finalmask stream =
     (case oget stream ''finalmask'' of
        JObj fm \<Rightarrow>
          (let hasTcp = nonempty_array (oget fm ''tcp''); hasUdp = nonempty_array (oget fm ''udp'');
               hasQuic = \<not> nullish (oget fm ''quicParams'')
           in if \<not> hasTcp \<and> \<not> hasUdp \<and> \<not> hasQuic then odel ''finalmask'' stream
              else (let fm = (if \<not> hasTcp then odel ''tcp'' fm else fm);
                        fm = (if \<not> hasUdp then odel ''udp'' fm else fm)
                    in oset ''finalmask'' (JObj fm) stream))
      | JArr _ \<Rightarrow> odel ''finalmask'' stream
      | _ \<Rightarrow> stream)"

definition drop_empty_auth :: "jobj \<Rightarrow> jobj" where
  "drop_empty_auth = at_record ''hysteriaSettings'' (drop_when ''auth'' (\<lambda>v. v = JStr [] \<or> nullish v))"

definition dropLegacyOptionalEmpties :: "jobj \<Rightarrow> jobj option \<Rightarrow> jobj \<times> jobj option" where
  "dropLegacyOptionalEmpties settings stream =
     (drop_when ''fallbacks'' (\<lambda>v. v = JArr []) settings, map_option (drop_empty_auth \<circ> drop_empty_finalmask) stream)"

definition object_text :: "jobj \<Rightarrow> string" where
  "object_text ps = or_default [] (JSON_stringify (JObj ps))"

definition formValuesToInboundPayload ::
    "(string \<Rightarrow> jv \<Rightarrow> jv option) \<Rightarrow> inbound_form \<Rightarrow> wire_payload option" where
  "formValuesToInboundPayload clientSchema f =
     (let settingsPruned = prune_object (nf_settings f);
          settingsPruned = (case oget settingsPruned ''clients'' of
             JArr cs \<Rightarrow> oset ''clients'' (normalizeClients clientSchema (nf_protocol f) (JArr cs)) settingsPruned
           | _ \<Rightarrow> settingsPruned)
      in case (case nf_streamSettings f of None \<Rightarrow> Some None
               | Some st \<Rightarrow> map_option Some (stripTlsCertUseFile (normalizeStreamSettingsForWire (prune_object st) Inbound))) of
           None \<Rightarrow> None
         | Some streamPruned \<Rightarrow>
           (case dropLegacyOptionalEmpties settingsPruned streamPruned of (settings, stream) \<Rightarrow> Some
             \<lparr>py_up = nf_up f, py_down = nf_down f, py_total = nf_total f, py_remark = nf_remark f, py_enable = nf_enable f,
              py_expiryTime = nf_expiryTime f, py_trafficReset = nf_trafficReset f,
              py_lastTrafficResetTime = nf_lastTrafficResetTime f, py_listen = nf_listen f, py_port = nf_port f,
              py_protocol = nf_protocol f, py_settings = object_text settings,
              py_streamSettings = (case stream of Some st \<Rightarrow> object_text st | None \<Rightarrow> []),
              py_sniffing = (if canEnableSniffing (nf_protocol f) then object_text (normalizeSniffing (Some (nf_sniffing f))) else []),
              py_tag = nf_tag f, py_nodeId = nf_nodeId f, py_shareAddrStrategy = nf_shareAddrStrategy f,
              py_shareAddr = nf_shareAddr f, py_subSortIndex = nf_subSortIndex f,
              py_trafficMultiplier = (if num_less (num 0) (nf_trafficMultiplier f) then nf_trafficMultiplier f else num 1)\<rparr>))"

section \<open>Pruning\<close>

text \<open>Objects have each key once, and none is called \<open>__proto__\<close>.\<close>

fun proper_value :: "jv \<Rightarrow> bool" where
  "proper_value (JArr xs) = (\<forall>x \<in> set xs. proper_value x)"
| "proper_value (JObj ps) = (wf_obj ps \<and> (\<forall>p \<in> set ps. fst p \<noteq> ''__proto__'' \<and> proper_value (snd p)))"
| "proper_value v = True"

lemma js_keys_ordered:
  assumes "okeys qs = inds @ ns" "\<forall>k \<in> set inds. is_array_index k" "\<forall>k \<in> set ns. \<not> is_array_index k"
    and "sorted (map (digits_val 10) inds)"
  shows "js_keys qs = okeys qs"
proof -
  have "filter is_array_index (okeys qs) = inds" "filter (\<lambda>k. \<not> is_array_index k) (okeys qs) = ns"
    using assms(1-3) by (simp_all add: filter_id_conv filter_empty_conv)
  then show ?thesis using assms(1,4) by (simp add: js_keys_def sort_key_id_if_sorted)
qed

lemma filter_js_keys:
  assumes "okeys qs = filter P (js_keys ps)"
  shows "js_keys qs = okeys qs"
proof (rule js_keys_ordered)
  let ?s = "sort_key (digits_val 10) (filter is_array_index (okeys ps))"
  show "okeys qs = filter P ?s @ filter P (filter (\<lambda>k. \<not> is_array_index k) (okeys ps))"
    using assms by (simp add: js_keys_def)
  show "sorted (map (digits_val 10) (filter P ?s))" by (rule sorted_filter) simp
qed auto

definition pruned_props :: "jobj \<Rightarrow> jobj" where
  "pruned_props ps = concat (map (\<lambda>k. case map_of ps k of None \<Rightarrow> [] | Some v \<Rightarrow>
     (let p = pruneEmpty v in if p = JUndef \<or> k = ''__proto__'' then [] else [(k, p)])) (js_keys ps))"

lemma pruneEmpty_object: "pruneEmpty (JObj ps) = JObj (pruned_props ps)"
  by (simp add: pruned_props_def)

declare pruneEmpty.simps(2) [simp del]

lemma prune_object_props: "prune_object ps = pruned_props ps"
  by (simp add: prune_object_def pruneEmpty_object)

definition pruned_at :: "jobj \<Rightarrow> string \<Rightarrow> jv option" where
  "pruned_at ps k = (case map_of ps k of None \<Rightarrow> None
     | Some v \<Rightarrow> if pruneEmpty v = JUndef \<or> k = ''__proto__'' then None else Some (pruneEmpty v))"

lemma tabulated:
  "okeys (concat (map (\<lambda>k. case g k of None \<Rightarrow> [] | Some p \<Rightarrow> [(k, p)]) ks)) = filter (\<lambda>k. g k \<noteq> None) ks"
  "map_of (concat (map (\<lambda>k. case g k of None \<Rightarrow> [] | Some p \<Rightarrow> [(k, p)]) ks)) j = (if j \<in> set ks then g j else None)"
  by (induction ks) (auto split: option.splits)

lemma pruned_props_tab:
  "pruned_props ps = concat (map (\<lambda>k. case pruned_at ps k of None \<Rightarrow> [] | Some p \<Rightarrow> [(k, p)]) (js_keys ps))"
  unfolding pruned_props_def pruned_at_def Let_def
  by (rule arg_cong [where f = concat], rule map_cong) (auto split: option.splits)

lemma okeys_pruned: "okeys (pruned_props ps) = filter (\<lambda>k. pruned_at ps k \<noteq> None) (js_keys ps)"
  unfolding pruned_props_tab by (rule tabulated(1))

lemma map_of_pruned: "map_of (pruned_props ps) k = pruned_at ps k"
proof -
  have "k \<notin> set (js_keys ps) \<Longrightarrow> pruned_at ps k = None"
    by (simp add: pruned_at_def map_of_eq_None_iff [THEN iffD2])
  then show ?thesis unfolding pruned_props_tab tabulated(2) by simp
qed

lemma js_keys_pruned: "js_keys (pruned_props ps) = filter (\<lambda>k. pruned_at ps k \<noteq> None) (js_keys ps)"
  using filter_js_keys [OF okeys_pruned] okeys_pruned by simp

lemma stringify_undefined: "JSON_stringify v = None \<longleftrightarrow> v = JUndef"
  by (cases v) simp_all

lemma proper_member: "proper_value (JObj ps) \<Longrightarrow> map_of ps k = Some v \<Longrightarrow> k \<noteq> ''__proto__'' \<and> proper_value v"
  by (auto dest!: map_of_SomeD)

lemma prune_same_text: "proper_value v \<Longrightarrow> JSON_stringify (pruneEmpty v) = JSON_stringify v"
proof (induction v rule: pruneEmpty.induct)
  case (1 xs)
  then have "map (\<lambda>x. case JSON_stringify x of None \<Rightarrow> ''null'' | Some t \<Rightarrow> t) (map pruneEmpty xs)
      = map (\<lambda>x. case JSON_stringify x of None \<Rightarrow> ''null'' | Some t \<Rightarrow> t) xs" by simp
  then show ?case by (simp only: pruneEmpty.simps JSON_stringify.simps)
next
  case (2 ps)
  define w where "w = (\<lambda>ps k. case map_of ps k of None \<Rightarrow> [] | Some v \<Rightarrow>
        (case JSON_stringify v of None \<Rightarrow> [] | Some t \<Rightarrow> [json_quote k @ '':'' @ t]))"
  have "w (pruned_props ps) k = w ps k" if k: "k \<in> set (js_keys ps)" for k
  proof (cases "map_of ps k")
    case None
    then show ?thesis by (simp add: w_def map_of_pruned pruned_at_def)
  next
    case (Some v)
    have pk: "k \<noteq> ''__proto__''" "proper_value v" using proper_member [OF "2.prems" Some] by auto
    have e: "JSON_stringify (pruneEmpty v) = JSON_stringify v" using "2.IH" [OF k Some pk(2)] .
    show ?thesis
    proof (cases "pruneEmpty v = JUndef")
      case True
      then have "v = JUndef" using e stringify_undefined [of v] by simp
      then show ?thesis using Some True by (simp add: w_def map_of_pruned pruned_at_def)
    next
      case False
      then show ?thesis using Some e pk by (simp add: w_def map_of_pruned pruned_at_def)
    qed
  qed
  note same = this
  have none: "w ps k = []" if "pruned_at ps k = None" "k \<in> set (js_keys ps)" for k
    using same [OF that(2)] that(1) by (simp add: w_def map_of_pruned)
  have "concat (map (w (pruned_props ps)) (filter (\<lambda>k. pruned_at ps k \<noteq> None) ks)) = concat (map (w ps) ks)"
    if "set ks \<subseteq> set (js_keys ps)" for ks
    using that by (induction ks) (auto simp: same none)
  then have "concat (map (w (pruned_props ps)) (js_keys (pruned_props ps))) = concat (map (w ps) (js_keys ps))"
    by (simp add: js_keys_pruned)
  then show ?case by (simp add: pruneEmpty_object w_def)
qed simp_all

text \<open>Pruning the form's blocks before they are stored never changes what is stored: the
  pruned value has the same JSON text, so dropping absent properties at every depth (and
  keeping empty arrays, empty objects, zeros and empty strings) is invisible to the backend.\<close>

theorem prune_preserves_text:
  assumes "proper_value v"
  shows "JSON_stringify (pruneEmpty v) = JSON_stringify v"
  by (rule prune_same_text [OF assms])

theorem prune_preserves_text_witness:
  "JSON_stringify (pruneEmpty (JObj [(''a'', JUndef), (''b'', JArr [JObj [(''c'', JUndef)], JUndef])]))
    = JSON_stringify (JObj [(''a'', JUndef), (''b'', JArr [JObj [(''c'', JUndef)], JUndef])])"
  by (rule prune_preserves_text) (simp add: wf_obj_def)

end
