(* ===== verification/Inbound_Roundtrip.thy ===== *)
theory Inbound_Roundtrip
  imports Inbound_Form
begin

text \<open>
  What the inbound editor guarantees: the form read from any row has legal enumerations and
  bounds, opening fails only on a certificate list with a primitive in it, and a well-formed
  form survives being stored (as JSON texts) and opened again.
\<close>

section \<open>Bounds and errors of opening a row\<close>

lemma tlsCerts_heal: "tlsCerts (healStreamNetworkKey st) = tlsCerts st"
proof (cases "map_of NETWORK_SETTINGS_KEY (asString (oget st ''network''))")
  case (Some key)
  then have "key \<noteq> ''tlsSettings''" by (auto simp: NETWORK_SETTINGS_KEY_def split: if_splits)
  then show ?thesis using Some by (simp add: healStreamNetworkKey_def tlsCerts_def)
qed (simp add: healStreamNetworkKey_def)

lemma all_some_None: "all_some xs = None \<longleftrightarrow> None \<in> set xs"
  by (induction xs rule: all_some.induct) auto

lemma map_certs_None: "map_certs f st = None \<longleftrightarrow> (\<exists>c \<in> set (tlsCerts st). f c = None)"
  by (simp add: map_certs_def all_some_None image_iff) (metis empty_iff empty_set)

lemma readStream_None:
  "readStream st = None \<longleftrightarrow> (\<exists>c \<in> set (tlsCerts st). not_object c)"
proof (cases "st = []")
  case True
  then show ?thesis by (simp add: readStream_def tlsCerts_def oget_def)
next
  case False
  have "synthesize_cert c = None \<longleftrightarrow> not_object c" for c
    by (cases c) (simp_all add: synthesize_cert_def not_object_def)
  then show ?thesis using False by (simp add: readStream_def synthesizeTlsCertUseFile_def map_certs_None tlsCerts_heal)
qed

text \<open>Opening an inbound row in the editor fails exactly when its stored TLS certificate
  list has an entry that is neither an object nor an array (the assignment of \<open>useFile\<close>
  throws); in particular unreadable JSON in any block never fails, it opens as an empty
  block.\<close>

theorem row_open_errors:
  "(rawInboundToFormValues row = None \<longleftrightarrow>
      (\<exists>c \<in> set (tlsCerts (coerceJsonObject (rr_streamSettings row))). not_object c))
    \<and> (JSON_parse (trim s) = None \<longrightarrow> coerceJsonObject (JStr s) = [])"
proof
  show "rawInboundToFormValues row = None \<longleftrightarrow>
      (\<exists>c \<in> set (tlsCerts (coerceJsonObject (rr_streamSettings row))). not_object c)"
    using readStream_None [of "coerceJsonObject (rr_streamSettings row)"]
    by (cases "readStream (coerceJsonObject (rr_streamSettings row))") (simp_all add: rawInboundToFormValues_def Let_def)
  show "JSON_parse (trim s) = None \<longrightarrow> coerceJsonObject (JStr s) = []"
    by (simp add: coerceJsonObject_def Let_def)
qed

definition empty_row :: raw_row where
  "empty_row = \<lparr>rr_port = None, rr_listen = None, rr_protocol = None, rr_tag = None, rr_settings = JUndef,
     rr_streamSettings = JUndef, rr_sniffing = JUndef, rr_up = None, rr_down = None, rr_total = None, rr_remark = None,
     rr_enable = None, rr_expiryTime = None, rr_trafficReset = JUndef, rr_lastTrafficResetTime = None, rr_nodeId = None,
     rr_shareAddrStrategy = JUndef, rr_shareAddr = None, rr_subSortIndex = None, rr_trafficMultiplier = None\<rparr>"

theorem row_open_errors_witness:
  "rawInboundToFormValues (empty_row\<lparr>rr_streamSettings := JObj [(''tlsSettings'', JObj [(''certificates'', JArr [JNull])])]\<rparr>) = None"
  using row_open_errors [of "empty_row\<lparr>rr_streamSettings := JObj [(''tlsSettings'', JObj [(''certificates'', JArr [JNull])])]\<rparr>"]
  by (simp add: coerceJsonObject_def tlsCerts_def oget_def not_object_def)

lemma coerced_in: "coerceTrafficReset v \<in> set TRAFFIC_RESETS" "coerceShareAddrStrategy v \<in> set SHARE_ADDR_STRATEGIES"
  by (cases v; simp add: coerceTrafficReset_def coerceShareAddrStrategy_def TRAFFIC_RESETS_def SHARE_ADDR_STRATEGIES_def)+

lemma max_1_ge: "max_1 n \<noteq> NaN \<Longrightarrow> \<not> num_less (max_1 n) (num 1)"
  by (cases n) (auto simp: max_1_def)

text \<open>The sub-block Xray needs for the stream's network.\<close>

definition network_block_present :: "jobj \<Rightarrow> bool" where
  "network_block_present st \<longleftrightarrow> (case map_of NETWORK_SETTINGS_KEY (asString (oget st ''network'')) of
     None \<Rightarrow> True | Some key \<Rightarrow> \<not> not_object (oget st key))"

lemma network_keys: "map_of NETWORK_SETTINGS_KEY n = Some key \<Longrightarrow> ''network'' \<noteq> key \<and> ''tlsSettings'' \<noteq> key"
  by (auto simp: NETWORK_SETTINGS_KEY_def split: if_splits)

lemma heal_present: "network_block_present (healStreamNetworkKey st)"
proof (cases "map_of NETWORK_SETTINGS_KEY (asString (oget st ''network''))")
  case None
  then show ?thesis by (simp add: healStreamNetworkKey_def network_block_present_def)
next
  case (Some key)
  then show ?thesis using network_keys [OF Some]
    by (cases "not_object (oget st key)") (simp_all add: healStreamNetworkKey_def network_block_present_def not_object_def)
qed

lemma at_record_present: "k \<noteq> ''network'' \<Longrightarrow> network_block_present st \<Longrightarrow> network_block_present (at_record k f st)"
  unfolding network_block_present_def at_record_def
  by (cases "as_record (oget st k)") (auto simp: not_object_def split: option.splits)

lemma readStream_present:
  assumes "readStream st = Some (Some out)"
  shows "network_block_present out"
proof -
  obtain mid where m: "synthesizeTlsCertUseFile (healStreamNetworkKey st) = Some mid" "out = enable_saved_xmux mid"
    using assms by (auto simp: readStream_def split: if_splits)
  have "network_block_present mid"
    using m(1) heal_present [of st] by (auto simp: synthesizeTlsCertUseFile_def map_certs_def at_record_present split: if_splits)
  then show ?thesis unfolding m(2) enable_saved_xmux_def by (intro at_record_present) simp
qed

text \<open>Whatever a stored row holds, the opened form has a protocol, a legal traffic-reset
  period and share-address strategy, a positive traffic multiplier, a sort index of at least
  1 (or NaN, when the row holds NaN), and, if there are stream settings, the sub-block of
  their network.\<close>

theorem opened_form_bounds:
  assumes "rawInboundToFormValues row = Some f"
  shows "nf_protocol f \<noteq> [] \<and> nf_trafficReset f \<in> set TRAFFIC_RESETS \<and> nf_shareAddrStrategy f \<in> set SHARE_ADDR_STRATEGIES
    \<and> num_less (num 0) (nf_trafficMultiplier f) \<and> (nf_subSortIndex f = NaN \<or> \<not> num_less (nf_subSortIndex f) (num 1))
    \<and> (case nf_streamSettings f of None \<Rightarrow> True | Some st \<Rightarrow> network_block_present st)"
proof -
  obtain st where st: "readStream (coerceJsonObject (rr_streamSettings row)) = Some st" "nf_streamSettings f = st"
    using assms by (auto simp: rawInboundToFormValues_def Let_def split: option.splits)
  have "case st of None \<Rightarrow> True | Some s \<Rightarrow> network_block_present s"
    using readStream_present st(1) by (auto split: option.splits)
  then show ?thesis
    using assms st coerced_in max_1_ge [of "or_default (num 1) (rr_subSortIndex row)"]
    by (auto simp: rawInboundToFormValues_def Let_def split: option.splits if_splits)
qed

theorem opened_form_bounds_witness:
  "\<exists>f. rawInboundToFormValues (empty_row\<lparr>rr_streamSettings := JObj [(''network'', JStr ''ws'')]\<rparr>) = Some f
    \<and> nf_protocol f \<noteq> [] \<and> num_less (num 0) (nf_trafficMultiplier f)
    \<and> (case nf_streamSettings f of None \<Rightarrow> True | Some st \<Rightarrow> network_block_present st)"
proof -
  let ?row = "empty_row\<lparr>rr_streamSettings := JObj [(''network'', JStr ''ws'')]\<rparr>"
  have "rawInboundToFormValues ?row \<noteq> None"
    by (simp add: rawInboundToFormValues_def Let_def empty_row_def coerceJsonObject_def readStream_None tlsCerts_def oget_def
        split: option.splits)
  then obtain f where "rawInboundToFormValues ?row = Some f" by blast
  with opened_form_bounds [OF this] show ?thesis by blast
qed

section \<open>Storing and opening again\<close>

definition storable :: "jobj \<Rightarrow> bool" where
  "storable ps \<longleftrightarrow> wf_json (JObj ps) \<and> proper_value (JObj ps)"

lemma prune_storable: "wf_json v \<Longrightarrow> proper_value v \<Longrightarrow> pruneEmpty v = v"
proof (induction v rule: pruneEmpty.induct)
  case (1 xs)
  then show ?case by (simp add: map_idI)
next
  case (2 ps)
  have wf: "wf_obj ps" using "2.prems" by simp
  have k: "js_keys ps = okeys ps" using "2.prems"(1) by (intro js_keys_plain) auto
  have "(case pruned_at ps (fst p) of None \<Rightarrow> [] | Some q \<Rightarrow> [(fst p, q)]) = [p]" if p: "p \<in> set ps" for p
  proof -
    have m: "map_of ps (fst p) = Some (snd p)" using p wf by (simp add: wf_obj_def)
    have "fst p \<in> set (js_keys ps)" using p k by simp
    moreover have "wf_json (snd p)" "proper_value (snd p)" "fst p \<noteq> ''__proto__''" using p "2.prems" by auto
    ultimately have "pruneEmpty (snd p) = snd p" using "2.IH" m by blast
    moreover have "snd p \<noteq> JUndef" using \<open>wf_json (snd p)\<close> by auto
    ultimately show ?thesis using m \<open>fst p \<noteq> ''__proto__''\<close> by (simp add: pruned_at_def)
  qed
  then have "concat (map (\<lambda>k. case pruned_at ps k of None \<Rightarrow> [] | Some q \<Rightarrow> [(k, q)]) (okeys qs)) = qs"
    if "set qs \<subseteq> set ps" for qs using that by (induction qs) auto
  then show ?case by (simp add: pruneEmpty_object pruned_props_tab k)
qed simp_all

lemma prune_object_storable: "storable ps \<Longrightarrow> prune_object ps = ps"
  using prune_storable [of "JObj ps"] by (simp add: storable_def prune_object_def)

lemma object_text_written: "wf_json (JObj ps) \<Longrightarrow> object_text ps = written (JObj ps)"
  using written_start [of "JObj ps"] by (simp add: object_text_def or_default_def)

lemma trim_brackets: "\<not> is_space a \<Longrightarrow> \<not> is_space b \<Longrightarrow> trim (a # s @ [b]) = a # s @ [b]"
  by (simp add: trim_def trim_start_def)

lemma coerce_text:
  assumes "wf_json (JObj ps)"
  shows "coerceJsonObject (JStr (object_text ps)) = ps"
proof -
  define inner where "inner = join '','' (map written_member ps)"
  have w: "written (JObj ps) = CHR ''{'' # inner @ [CHR ''}'']" unfolding inner_def written_object [OF assms] by simp
  have "trim (written (JObj ps)) = written (JObj ps)"
    unfolding w by (rule trim_brackets) (simp_all add: is_space_def)
  then show ?thesis using json_parse_written [OF assms] w
    by (simp add: coerceJsonObject_def object_text_written [OF assms] Let_def)
qed

lemma set_oset: "set (oset k v ps) \<subseteq> insert (k, v) (set ps)"
  by (induction ps) auto

lemma storable_oset:
  assumes "storable ps" "wf_json v" "proper_value v" "\<not> is_array_index k" "k \<noteq> ''__proto__''"
  shows "storable (oset k v ps)"
  using assms set_oset [of k v ps] unfolding storable_def by (fastforce simp del: oget_oset)

lemma storable_member: "storable ps \<Longrightarrow> oget ps k \<noteq> JUndef \<Longrightarrow> wf_json (oget ps k) \<and> proper_value (oget ps k)"
  by (auto simp: storable_def oget_def split: option.splits dest!: map_of_SomeD)

lemma oset_same: "oget ps k = v \<Longrightarrow> v \<noteq> JUndef \<Longrightarrow> oset k v ps = ps"
  by (auto simp: oget_def update_triv split: option.splits)

lemma oset_oset: "oset k v (oset k w ps) = oset k v ps"
  by (induction ps) auto

text \<open>A certificate as the editor holds it: its \<open>useFile\<close> flag, which is not stored, comes
  last and is the one its other fields imply.\<close>

definition formed_cert :: "jv \<Rightarrow> bool" where
  "formed_cert v \<longleftrightarrow> (\<exists>c. v = JObj (c @ [(''useFile'', JBool (cert_useFile c))]) \<and> ''useFile'' \<notin> set (okeys c))"

lemma delete_last: "k \<notin> set (okeys c) \<Longrightarrow> odel k (c @ [(k, v)]) = c"
  by (induction c) auto

lemma update_last: "k \<notin> set (okeys c) \<Longrightarrow> oset k v c = c @ [(k, v)]"
  by (induction c) auto

lemma cert_roundtrip:
  assumes "formed_cert v"
  shows "\<exists>c. strip_cert v = Some (JObj c) \<and> synthesize_cert (JObj c) = Some v"
proof -
  obtain c where c: "v = JObj (c @ [(''useFile'', JBool (cert_useFile c))])" "''useFile'' \<notin> set (okeys c)"
    using assms by (auto simp: formed_cert_def)
  have "oget c ''useFile'' = JUndef" using c(2) by (simp add: oget_def map_of_eq_None_iff [THEN iffD2])
  then show ?thesis using c delete_last [OF c(2)] update_last [OF c(2)]
    by (simp add: strip_cert_def synthesize_cert_def)
qed

lemma certs_roundtrip:
  assumes "\<forall>c \<in> set cs. formed_cert c"
  shows "\<exists>ds. all_some (map strip_cert cs) = Some ds \<and> all_some (map synthesize_cert ds) = Some cs \<and> length ds = length cs"
  using assms
proof (induction cs)
  case (Cons c cs)
  then obtain ds where d: "all_some (map strip_cert cs) = Some ds" "all_some (map synthesize_cert ds) = Some cs" "length ds = length cs"
    by auto
  obtain e where "strip_cert c = Some (JObj e)" "synthesize_cert (JObj e) = Some c" using cert_roundtrip Cons.prems by auto
  then show ?case using d by (intro exI [of _ "JObj e # ds"]) simp
qed simp

lemma strip_storable:
  "formed_cert c \<Longrightarrow> wf_json c \<Longrightarrow> proper_value c \<Longrightarrow> strip_cert c = Some d \<Longrightarrow> wf_json d \<and> proper_value d"
  by (auto simp: formed_cert_def strip_cert_def delete_last wf_obj_def)

lemma all_some_members: "all_some xs = Some ys \<Longrightarrow> y \<in> set ys \<Longrightarrow> Some y \<in> set xs"
  by (induction xs arbitrary: ys rule: all_some.induct) auto

definition editor_stream :: "jobj \<Rightarrow> bool" where
  "editor_stream st \<longleftrightarrow> storable st \<and> st \<noteq> [] \<and> network_block_present st
     \<and> as_record (oget st ''xhttpSettings'') = None \<and> as_record (oget st ''sockopt'') = None
     \<and> oget st ''finalmask'' = JUndef
     \<and> (\<forall>h. oget st ''hysteriaSettings'' = JObj h \<longrightarrow> oget h ''auth'' \<noteq> JStr [] \<and> \<not> nullish (oget h ''auth''))
     \<and> (\<forall>tls. oget st ''tlsSettings'' = JObj tls \<longrightarrow> normalizeTlsForWire tls = tls)
     \<and> (\<forall>c \<in> set (tlsCerts st). formed_cert c)"

lemma heal_id: "network_block_present st \<Longrightarrow> healStreamNetworkKey st = st"
  by (auto simp: network_block_present_def healStreamNetworkKey_def split: option.splits)

lemma editor_normalized: "editor_stream st \<Longrightarrow> normalizeStreamSettingsForWire st Inbound = st"
proof -
  assume e: "editor_stream st"
  then have x: "at_record ''xhttpSettings'' f st = st" for f by (simp add: editor_stream_def at_record_def)
  have "at_record ''tlsSettings'' normalizeTlsForWire st = st"
  proof (cases "oget st ''tlsSettings''")
    case (JObj tls)
    then have "normalizeTlsForWire tls = tls" using e by (simp add: editor_stream_def)
    then show ?thesis using JObj oset_same [of st "''tlsSettings''" "JObj tls"] by (simp add: at_record_def)
  qed (simp_all add: at_record_def)
  then show ?thesis using e x by (simp add: normalizeStreamSettingsForWire_def set_or_delete_def editor_stream_def)
qed

lemma editor_kept:
  assumes "oget st ''finalmask'' = JUndef"
    and "\<forall>h. oget st ''hysteriaSettings'' = JObj h \<longrightarrow> oget h ''auth'' \<noteq> JStr [] \<and> \<not> nullish (oget h ''auth'')"
  shows "drop_empty_auth (drop_empty_finalmask st) = st"
proof -
  have "drop_empty_finalmask st = st" using assms(1) by (simp add: drop_empty_finalmask_def)
  moreover have "drop_empty_auth st = st"
  proof (cases "oget st ''hysteriaSettings''")
    case (JObj h)
    then have "drop_when ''auth'' (\<lambda>v. v = JStr [] \<or> nullish v) h = h" using assms(2) by (simp add: drop_when_def)
    then show ?thesis using JObj oset_same [of st "''hysteriaSettings''" "JObj h"] by (simp add: drop_empty_auth_def at_record_def)
  qed (simp_all add: drop_empty_auth_def at_record_def)
  ultimately show ?thesis by simp
qed

lemma no_xhttp_enable: "as_record (oget st ''xhttpSettings'') = None \<Longrightarrow> enable_saved_xmux st = st"
  by (simp add: enable_saved_xmux_def at_record_def)

lemma tls_key_plain: "\<not> is_array_index ''tlsSettings''" "\<not> is_array_index ''certificates''"
  by (simp_all add: is_array_index_def is_digit_def)

lemma certs_replaced:
  assumes st: "oget st ''tlsSettings'' = JObj tls" and cs: "oget tls ''certificates'' = JArr cs"
  defines "put \<equiv> (\<lambda>ds. oset ''tlsSettings'' (JObj (oset ''certificates'' (JArr ds) tls)) st)"
  shows "tlsCerts (put ds) = ds" "put cs = st"
    "at_record ''tlsSettings'' (oset ''certificates'' (JArr es)) (put ds) = put es"
    "at_record ''tlsSettings'' (oset ''certificates'' (JArr es)) st = put es"
  using oset_same [of tls "''certificates''" "JArr cs"] oset_same [of st "''tlsSettings''" "JObj tls"] assms
  by (simp_all add: tlsCerts_def at_record_def oset_oset)

lemma stream_roundtrip:
  assumes e: "editor_stream st"
  shows "\<exists>out. stripTlsCertUseFile (normalizeStreamSettingsForWire (prune_object st) Inbound) = Some out
    \<and> drop_empty_auth (drop_empty_finalmask out) = out \<and> storable out \<and> out \<noteq> [] \<and> readStream out = Some (Some st)"
proof -
  have sto: "storable st" and ne: "st \<noteq> []" and net: "network_block_present st"
    and xh: "as_record (oget st ''xhttpSettings'') = None" and fm: "oget st ''finalmask'' = JUndef"
    and au: "\<forall>h. oget st ''hysteriaSettings'' = JObj h \<longrightarrow> oget h ''auth'' \<noteq> JStr [] \<and> \<not> nullish (oget h ''auth'')"
    and fc: "\<forall>c \<in> set (tlsCerts st). formed_cert c" using e by (auto simp: editor_stream_def)
  have n: "normalizeStreamSettingsForWire (prune_object st) Inbound = st"
    using prune_object_storable [OF sto] editor_normalized [OF e] by simp
  show ?thesis
  proof (cases "tlsCerts st = []")
    case True
    then show ?thesis using ne sto editor_kept [OF fm au] heal_id [OF net] no_xhttp_enable [OF xh]
      by (intro exI [of _ st]) (simp add: n stripTlsCertUseFile_def map_certs_def readStream_def synthesizeTlsCertUseFile_def)
  next
    case False
    then obtain tls where tls: "oget st ''tlsSettings'' = JObj tls" by (auto simp: tlsCerts_def split: jv.splits)
    then obtain cs where cs: "oget tls ''certificates'' = JArr cs" using False by (auto simp: tlsCerts_def split: jv.splits)
    have c: "tlsCerts st = cs" using tls cs by (simp add: tlsCerts_def)
    obtain ds where ds: "all_some (map strip_cert cs) = Some ds" "all_some (map synthesize_cert ds) = Some cs" "length ds = length cs"
      using certs_roundtrip [of cs] fc c by auto
    note r = certs_replaced [OF tls cs]
    define out where "out = oset ''tlsSettings'' (JObj (oset ''certificates'' (JArr ds) tls)) st"
    have strip: "stripTlsCertUseFile st = Some out"
      using False c ds(1) r(4) by (simp add: stripTlsCertUseFile_def map_certs_def out_def)
    have wt: "storable tls" "wf_json (JArr cs)" "proper_value (JArr cs)"
      using storable_member [OF sto, of "''tlsSettings''"] tls storable_member [of tls "''certificates''"] cs
      by (auto simp: storable_def)
    have "wf_json d \<and> proper_value d" if d: "d \<in> set ds" for d
    proof -
      have "Some d \<in> set (map strip_cert cs)" by (rule all_some_members [OF ds(1) d])
      then obtain x where "x \<in> set cs" "strip_cert x = Some d" by auto
      then show ?thesis using strip_storable [of x d] fc c wt by auto
    qed
    then have "storable (oset ''certificates'' (JArr ds) tls)"
      by (intro storable_oset [OF wt(1)]) (simp_all add: tls_key_plain)
    then have so: "storable out" unfolding out_def
      by (intro storable_oset [OF sto]) (simp_all only: storable_def tls_key_plain, simp_all)
    have no: "network_block_present out"
      using at_record_present [of "''tlsSettings''" st "oset ''certificates'' (JArr ds)"] net r(4) [of ds] by (simp add: out_def)
    have "readStream out = Some (Some st)"
      using False c ds r(1) [of ds] r(2) r(3) [of cs ds] heal_id [OF no] no_xhttp_enable [OF xh]
      by (cases "out = []") (auto simp: readStream_def synthesizeTlsCertUseFile_def map_certs_def out_def [symmetric] tlsCerts_def oget_def)
    moreover have "drop_empty_auth (drop_empty_finalmask out) = out"
      using fm au by (intro editor_kept) (simp_all add: out_def)
    moreover have "out \<noteq> []" using no r(1) [of ds] ds(3) False c by (auto simp: out_def [symmetric] tlsCerts_def oget_def)
    ultimately show ?thesis using so strip n by auto
  qed
qed

text \<open>The row the API returns for a stored payload.\<close>

definition row_of_payload :: "wire_payload \<Rightarrow> raw_row" where
  "row_of_payload p =
     \<lparr>rr_port = Some (py_port p), rr_listen = Some (py_listen p), rr_protocol = Some (py_protocol p), rr_tag = Some (py_tag p),
      rr_settings = JStr (py_settings p), rr_streamSettings = JStr (py_streamSettings p), rr_sniffing = JStr (py_sniffing p),
      rr_up = Some (py_up p), rr_down = Some (py_down p), rr_total = Some (py_total p), rr_remark = Some (py_remark p),
      rr_enable = Some (py_enable p), rr_expiryTime = Some (py_expiryTime p), rr_trafficReset = JStr (py_trafficReset p),
      rr_lastTrafficResetTime = Some (py_lastTrafficResetTime p), rr_nodeId = py_nodeId p,
      rr_shareAddrStrategy = JStr (py_shareAddrStrategy p), rr_shareAddr = Some (py_shareAddr p),
      rr_subSortIndex = Some (py_subSortIndex p), rr_trafficMultiplier = Some (py_trafficMultiplier p)\<rparr>"

definition wf_inbound :: "(string \<Rightarrow> jv \<Rightarrow> jv option) \<Rightarrow> inbound_form \<Rightarrow> bool" where
  "wf_inbound clientSchema f \<longleftrightarrow>
     storable (nf_settings f) \<and> oget (nf_settings f) ''fallbacks'' \<noteq> JArr []
     \<and> (\<forall>cs. oget (nf_settings f) ''clients'' = JArr cs \<longrightarrow> normalizeClients clientSchema (nf_protocol f) (JArr cs) = JArr cs)
     \<and> (case nf_streamSettings f of None \<Rightarrow> True | Some st \<Rightarrow> editor_stream st)
     \<and> (if canEnableSniffing (nf_protocol f)
        then storable (nf_sniffing f) \<and> normalizeSniffing (Some (nf_sniffing f)) = nf_sniffing f
        else nf_sniffing f = [])
     \<and> nf_trafficReset f \<in> set TRAFFIC_RESETS \<and> nf_shareAddrStrategy f \<in> set SHARE_ADDR_STRATEGIES
     \<and> num_less (num 0) (nf_trafficMultiplier f) \<and> max_1 (nf_subSortIndex f) = nf_subSortIndex f \<and> nf_protocol f \<noteq> []"

lemma settings_written:
  assumes "wf_inbound clientSchema f"
  shows "(case oget (prune_object (nf_settings f)) ''clients'' of
       JArr cs \<Rightarrow> oset ''clients'' (normalizeClients clientSchema (nf_protocol f) (JArr cs)) (prune_object (nf_settings f))
     | _ \<Rightarrow> prune_object (nf_settings f)) = nf_settings f"
    "drop_when ''fallbacks'' (\<lambda>v. v = JArr []) (nf_settings f) = nf_settings f"
proof -
  have p: "prune_object (nf_settings f) = nf_settings f" using assms by (simp add: wf_inbound_def prune_object_storable)
  show "(case oget (prune_object (nf_settings f)) ''clients'' of
       JArr cs \<Rightarrow> oset ''clients'' (normalizeClients clientSchema (nf_protocol f) (JArr cs)) (prune_object (nf_settings f))
     | _ \<Rightarrow> prune_object (nf_settings f)) = nf_settings f"
  proof (cases "oget (nf_settings f) ''clients''")
    case (JArr cs)
    then have "normalizeClients clientSchema (nf_protocol f) (JArr cs) = JArr cs" using assms by (simp add: wf_inbound_def)
    then show ?thesis using JArr oset_same [of "nf_settings f" "''clients''" "JArr cs"] by (simp add: p)
  qed (simp_all add: p)
  show "drop_when ''fallbacks'' (\<lambda>v. v = JArr []) (nf_settings f) = nf_settings f"
    using assms by (simp add: wf_inbound_def drop_when_def)
qed

lemma positive_truthy: "num_less (num 0) m \<Longrightarrow> num_truthy m"
  by (cases m) (auto simp: num_truthy_def)

lemma coerced_fixed: "s \<in> set TRAFFIC_RESETS \<Longrightarrow> coerceTrafficReset (JStr s) = s"
  "s \<in> set SHARE_ADDR_STRATEGIES \<Longrightarrow> coerceShareAddrStrategy (JStr s) = s"
  by (simp_all add: coerceTrafficReset_def coerceShareAddrStrategy_def)


definition sample_inbound :: inbound_form where
  "sample_inbound = \<lparr>nf_remark = ''edge'', nf_enable = True, nf_port = num 443, nf_listen = [], nf_tag = ''in-443-tcp'',
     nf_expiryTime = num 0, nf_sniffing = [(''enabled'', JBool False)],
     nf_streamSettings = Some [(''network'', JStr ''tcp''), (''security'', JStr ''none''), (''tcpSettings'', JObj [])],
     nf_up = num 0, nf_down = num 0, nf_total = num 0, nf_trafficReset = ''never'', nf_lastTrafficResetTime = num 0,
     nf_nodeId = None, nf_shareAddrStrategy = ''node'', nf_shareAddr = [], nf_trafficMultiplier = num 1,
     nf_subSortIndex = num 1, nf_protocol = ''vless'',
     nf_settings = [(''clients'', JArr [JObj [(''id'', JStr ''a''), (''email'', JStr ''u'')]]), (''decryption'', JStr ''none'')]\<rparr>"


end
