(* ===== verification/Ws_Client.thy ===== *)
theory Ws_Client
  imports Json_Text
begin

text \<open>
  \<open>frontend/src/api/websocket.ts\<close>: the class \<open>WebSocketClient\<close>, as a state machine over the
  client's fields, the browser's sockets and timers, and the stack of what is still to run in
  the current task. A handler is any sequence of calls of the client's methods: while an
  event is being delivered (the stack is not empty) such calls may happen at any point, so
  the statements hold for every handler. Browser events (a socket opening, a message, a
  close, a timer) start a task of their own, when the stack is empty.
\<close>

section \<open>State\<close>

datatype ready_state = CONNECTING | OPEN | CLOSING | CLOSED

text \<open>What remains of a task: callbacks of an event still to be called (\<open>for (const callback
  of set)\<close> visits the set as it is then, so a frame knows its set object), or the code after an
  \<open>#emit\<close>.\<close>

datatype frame =
    Deliver nat string "jv list" "nat list"
  | Then_Reschedule
  | Then_Emit_Message jv

record ws_world =
  reconnectAttempts :: nat
  isConnected :: bool
  ws :: "nat option"
  shouldReconnect :: bool
  reconnectTimer :: "nat option"
  listeners :: "string \<Rightarrow> (nat \<times> nat list) option"
  sockets :: "nat \<Rightarrow> ready_state option"
  next_socket :: nat
  timers :: "nat \<Rightarrow> rat option"
  next_timer :: nat
  next_set :: nat
  stack :: "frame list"
  calls :: "(nat \<times> string \<times> jv list) list"
  sent :: "(nat \<times> string) list"

definition maxReconnectAttempts :: nat where "maxReconnectAttempts = 10"

definition MAX_PAYLOAD_BYTES :: nat where "MAX_PAYLOAD_BYTES = 10 * 1024 * 1024"

definition BASE_RECONNECT_MS :: nat where "BASE_RECONNECT_MS = 1000"

definition MAX_RECONNECT_MS :: nat where "MAX_RECONNECT_MS = 30000"

definition SLOW_RETRY_MS :: nat where "SLOW_RETRY_MS = 60000"

definition new_client :: ws_world where
  "new_client = \<lparr>reconnectAttempts = 0, isConnected = False, ws = None, shouldReconnect = True, reconnectTimer = None,
     listeners = Map.empty, sockets = Map.empty, next_socket = 0, timers = Map.empty, next_timer = 0, next_set = 0,
     stack = [], calls = [], sent = []\<rparr>"

section \<open>Operations\<close>

definition push :: "frame \<Rightarrow> ws_world \<Rightarrow> ws_world" where
  "push fr w = w\<lparr>stack := fr # stack w\<rparr>"

definition emit :: "string \<Rightarrow> jv list \<Rightarrow> ws_world \<Rightarrow> ws_world" where
  "emit event args w =
     (case listeners w event of None \<Rightarrow> w | Some (i, cbs) \<Rightarrow> push (Deliver i event args cbs) w)"

definition cancelReconnect :: "ws_world \<Rightarrow> ws_world" where
  "cancelReconnect w =
     (case reconnectTimer w of
        None \<Rightarrow> w
      | Some t \<Rightarrow> w\<lparr>timers := (timers w)(t := None), reconnectTimer := None\<rparr>)"

definition reconnect_base :: "nat \<Rightarrow> nat \<times> nat" where
  "reconnect_base attempts =
     (if attempts < maxReconnectAttempts
      then (let n = attempts + 1; expo = BASE_RECONNECT_MS * 2 ^ (n - 1) in (n, min MAX_RECONNECT_MS expo))
      else (attempts, SLOW_RETRY_MS))"

text \<open>\<open>rnd\<close> is the value of \<open>Math.random()\<close>.\<close>

definition scheduleReconnect :: "rat \<Rightarrow> ws_world \<Rightarrow> ws_world" where
  "scheduleReconnect rnd w =
     (if \<not> shouldReconnect w then w
      else
        let w = cancelReconnect w; (n, base) = reconnect_base (reconnectAttempts w);
            delay = of_nat base * (3 / 4 + rnd / 2); t = next_timer w
        in w\<lparr>reconnectAttempts := n, reconnectTimer := Some t, timers := (timers w)(t := Some delay), next_timer := Suc t\<rparr>)"

text \<open>\<open>new WebSocket(url)\<close> may throw; then the \<open>error\<close> handlers run before the reconnection is
  scheduled.\<close>

definition openSocket :: "jv option \<Rightarrow> ws_world \<Rightarrow> ws_world" where
  "openSocket thrown w =
     (case thrown of
        Some err \<Rightarrow> emit ''error'' [err] (push Then_Reschedule w)
      | None \<Rightarrow> (let s = next_socket w
          in w\<lparr>ws := Some s, sockets := (sockets w)(s := Some CONNECTING), next_socket := Suc s\<rparr>))"

definition live_socket :: "ws_world \<Rightarrow> bool" where
  "live_socket w = (case ws w of None \<Rightarrow> False | Some s \<Rightarrow> sockets w s = Some OPEN \<or> sockets w s = Some CONNECTING)"

definition ws_connect :: "jv option \<Rightarrow> ws_world \<Rightarrow> ws_world" where
  "ws_connect thrown w =
     (if live_socket w then w
      else openSocket thrown (cancelReconnect (w\<lparr>shouldReconnect := True\<rparr>)))"

text \<open>\<open>socket.close()\<close>: a socket that is connecting or open starts closing.\<close>

definition close_socket :: "nat \<Rightarrow> ws_world \<Rightarrow> ws_world" where
  "close_socket s w =
     (if sockets w s = Some OPEN \<or> sockets w s = Some CONNECTING
      then w\<lparr>sockets := (sockets w)(s := Some CLOSING)\<rparr> else w)"

definition ws_disconnect :: "ws_world \<Rightarrow> ws_world" where
  "ws_disconnect w =
     (let w = cancelReconnect (w\<lparr>shouldReconnect := False\<rparr>);
          w = w\<lparr>reconnectAttempts := 0\<rparr>;
          w = (case ws w of None \<Rightarrow> w | Some s \<Rightarrow> (close_socket s w)\<lparr>ws := None\<rparr>)
      in w\<lparr>isConnected := False\<rparr>)"

text \<open>A callback added to a set object is also visited by the loops running over it.\<close>

fun frame_add :: "nat \<Rightarrow> nat \<Rightarrow> frame \<Rightarrow> frame" where
  "frame_add i cb (Deliver j event args cbs) = (if j = i then Deliver j event args (cbs @ [cb]) else Deliver j event args cbs)"
| "frame_add i cb fr = fr"

fun frame_remove :: "nat \<Rightarrow> nat \<Rightarrow> frame \<Rightarrow> frame" where
  "frame_remove i cb (Deliver j event args cbs) =
     (if j = i then Deliver j event args (filter (\<lambda>c. c \<noteq> cb) cbs) else Deliver j event args cbs)"
| "frame_remove i cb fr = fr"

definition ws_on :: "string \<Rightarrow> nat \<Rightarrow> ws_world \<Rightarrow> ws_world" where
  "ws_on event cb w =
     (case listeners w event of
        None \<Rightarrow> w\<lparr>listeners := (listeners w)(event \<mapsto> (next_set w, [cb])), next_set := Suc (next_set w)\<rparr>
      | Some (i, cbs) \<Rightarrow>
          if cb \<in> set cbs then w
          else w\<lparr>listeners := (listeners w)(event \<mapsto> (i, cbs @ [cb])), stack := map (frame_add i cb) (stack w)\<rparr>)"

definition ws_off :: "string \<Rightarrow> nat \<Rightarrow> ws_world \<Rightarrow> ws_world" where
  "ws_off event cb w =
     (case listeners w event of
        None \<Rightarrow> w
      | Some (i, cbs) \<Rightarrow>
          (let rest = filter (\<lambda>c. c \<noteq> cb) cbs
           in w\<lparr>listeners := (listeners w)(event := (if rest = [] then None else Some (i, rest))),
                stack := map (frame_remove i cb) (stack w)\<rparr>))"

definition ws_send :: "jv \<Rightarrow> ws_world \<Rightarrow> ws_world" where
  "ws_send v w =
     (case ws w of
        None \<Rightarrow> w
      | Some s \<Rightarrow> if sockets w s = Some OPEN
          then w\<lparr>sent := sent w @ [(s, (case JSON_stringify v of Some t \<Rightarrow> t | None \<Rightarrow> ''undefined''))]\<rparr> else w)"

definition buildUrl :: "bool \<Rightarrow> string \<Rightarrow> string \<Rightarrow> string" where
  "buildUrl https host base_path =
     (let protocol = (if https then ''wss:'' else ''ws:'');
          basePath = (if base_path \<noteq> [] then base_path else ''/'');
          basePath = (if \<not> starts_with basePath ''/'' then ''/'' @ basePath else basePath);
          basePath = (if \<not> ends_with basePath ''/'' then basePath @ ''/'' else basePath)
      in protocol @ ''//'' @ host @ basePath @ ''ws'')"

section \<open>Browser events\<close>

definition on_open :: "nat \<Rightarrow> ws_world \<Rightarrow> ws_world" where
  "on_open s w =
     (let w = w\<lparr>sockets := (sockets w)(s := Some OPEN)\<rparr>
      in if ws w \<noteq> Some s then w
         else emit ''connected'' [] (w\<lparr>isConnected := True, reconnectAttempts := 0\<rparr>))"

text \<open>The data of a message: a text, or something binary (\<^const>\<open>None\<close>).\<close>

definition message_envelope :: "string option \<Rightarrow> (string \<times> jobj) option" where
  "message_envelope data =
     (case JSON_parse (case data of Some s \<Rightarrow> s | None \<Rightarrow> []) of
        Some (JObj ps) \<Rightarrow> (case oget ps ''type'' of JStr ty \<Rightarrow> Some (ty, ps) | _ \<Rightarrow> None)
      | _ \<Rightarrow> None)"

definition too_large :: "string option \<Rightarrow> bool" where
  "too_large data = (case data of Some s \<Rightarrow> length (utf8_encode (map code s)) > MAX_PAYLOAD_BYTES | None \<Rightarrow> False)"

definition onMessage :: "string option \<Rightarrow> ws_world \<Rightarrow> ws_world" where
  "onMessage data w =
     (if too_large data then (case ws w of Some s \<Rightarrow> close_socket s w | None \<Rightarrow> w)
      else case message_envelope data of
        None \<Rightarrow> w
      | Some (ty, ps) \<Rightarrow> emit ty [oget ps ''payload'', oget ps ''time''] (push (Then_Emit_Message (JObj ps)) w))"

definition on_message :: "nat \<Rightarrow> string option \<Rightarrow> ws_world \<Rightarrow> ws_world" where
  "on_message s data w = (if ws w \<noteq> Some s then w else onMessage data w)"

definition on_error :: "nat \<Rightarrow> jv \<Rightarrow> ws_world \<Rightarrow> ws_world" where
  "on_error s event w = (if ws w \<noteq> Some s then w else emit ''error'' [event] w)"

definition on_close :: "nat \<Rightarrow> ws_world \<Rightarrow> ws_world" where
  "on_close s w =
     (let w = w\<lparr>sockets := (sockets w)(s := Some CLOSED)\<rparr>
      in if ws w \<noteq> Some s then w
         else emit ''disconnected'' [] (push Then_Reschedule (w\<lparr>isConnected := False, ws := None\<rparr>)))"

definition on_timer :: "nat \<Rightarrow> jv option \<Rightarrow> ws_world \<Rightarrow> ws_world" where
  "on_timer t thrown w =
     (let w = w\<lparr>timers := (timers w)(t := None), reconnectTimer := None\<rparr>
      in if \<not> shouldReconnect w then w else openSocket thrown w)"

section \<open>Steps\<close>

text \<open>Calls of the client's methods. \<open>reentrant\<close> says whether handlers may call \<open>connect\<close>
  while an event is being delivered.\<close>

inductive ws_call :: "bool \<Rightarrow> ws_world \<Rightarrow> ws_world \<Rightarrow> bool" for reentrant where
  connect: "reentrant \<or> stack w = [] \<Longrightarrow> ws_call reentrant w (ws_connect thrown w)"
| disconnect: "ws_call reentrant w (ws_disconnect w)"
| on_call: "ws_call reentrant w (ws_on event cb w)"
| off_call: "ws_call reentrant w (ws_off event cb w)"
| send_call: "ws_call reentrant w (ws_send v w)"

text \<open>The running task: the frame on the top of the stack goes on.\<close>

inductive ws_run :: "ws_world \<Rightarrow> ws_world \<Rightarrow> bool" where
  deliver: "stack w = Deliver i event args (cb # cbs) # rest \<Longrightarrow>
    ws_run w (w\<lparr>stack := Deliver i event args cbs # rest, calls := calls w @ [(cb, event, args)]\<rparr>)"
| delivered: "stack w = Deliver i event args [] # rest \<Longrightarrow> ws_run w (w\<lparr>stack := rest\<rparr>)"
| reschedule: "stack w = Then_Reschedule # rest \<Longrightarrow> 0 \<le> rnd \<Longrightarrow> rnd < 1 \<Longrightarrow>
    ws_run w (scheduleReconnect rnd (w\<lparr>stack := rest\<rparr>))"
| emit_message: "stack w = Then_Emit_Message m # rest \<Longrightarrow> ws_run w (emit ''message'' [m] (w\<lparr>stack := rest\<rparr>))"

text \<open>Events of the browser, each a task of its own.\<close>

inductive ws_event :: "ws_world \<Rightarrow> ws_world \<Rightarrow> bool" where
  opened: "stack w = [] \<Longrightarrow> sockets w s = Some CONNECTING \<Longrightarrow> ws_event w (on_open s w)"
| message: "stack w = [] \<Longrightarrow> sockets w s = Some OPEN \<Longrightarrow> ws_event w (on_message s data w)"
| error: "stack w = [] \<Longrightarrow> sockets w s = Some st \<Longrightarrow> ws_event w (on_error s ev w)"
| server_closes: "stack w = [] \<Longrightarrow> sockets w s = Some OPEN \<Longrightarrow>
    ws_event w (w\<lparr>sockets := (sockets w)(s := Some CLOSING)\<rparr>)"
| closed: "stack w = [] \<Longrightarrow> sockets w s = Some st \<Longrightarrow> st \<noteq> CLOSED \<Longrightarrow> ws_event w (on_close s w)"
| timer: "stack w = [] \<Longrightarrow> timers w t = Some d \<Longrightarrow> ws_event w (on_timer t thrown w)"

definition ws_step :: "bool \<Rightarrow> ws_world \<Rightarrow> ws_world \<Rightarrow> bool" where
  "ws_step reentrant w w' = (ws_call reentrant w w' \<or> ws_run w w' \<or> ws_event w w')"

inductive ws_reachable :: "bool \<Rightarrow> ws_world \<Rightarrow> bool" for reentrant where
  start: "ws_reachable reentrant new_client"
| step: "ws_reachable reentrant w \<Longrightarrow> ws_step reentrant w w' \<Longrightarrow> ws_reachable reentrant w'"

text \<open>States after the application has called \<open>connect\<close> (at the start of a task).\<close>

inductive ws_started :: "bool \<Rightarrow> ws_world \<Rightarrow> bool" for reentrant where
  first: "ws_reachable reentrant w \<Longrightarrow> stack w = [] \<Longrightarrow> ws_started reentrant (ws_connect thrown w)"
| step: "ws_started reentrant w \<Longrightarrow> ws_step reentrant w w' \<Longrightarrow> ws_started reentrant w'"

inductive_cases ws_callE: "ws_call reentrant w w'"
inductive_cases ws_runE: "ws_run w w'"
inductive_cases ws_eventE: "ws_event w w'"

lemma ws_step_cases [consumes 1, case_names call run event]:
  assumes "ws_step reentrant w w'"
    and "ws_call reentrant w w' \<Longrightarrow> P" and "ws_run w w' \<Longrightarrow> P" and "ws_event w w' \<Longrightarrow> P"
  shows P
  using assms by (auto simp: ws_step_def)

text \<open>An invariant kept by every kind of step holds in every reachable state.\<close>

lemma reachable_invariant:
  assumes "ws_reachable reentrant w" and "Q new_client"
    and "\<And>u v. Q u \<Longrightarrow> ws_call reentrant u v \<Longrightarrow> Q v"
    and "\<And>u v. Q u \<Longrightarrow> ws_run u v \<Longrightarrow> Q v"
    and "\<And>u v. Q u \<Longrightarrow> ws_event u v \<Longrightarrow> Q v"
  shows "Q w"
  using assms(1)
proof (induction rule: ws_reachable.induct)
  case start show ?case by (rule assms(2))
next
  case (step u v) thus ?case using assms(3-5) unfolding ws_step_def by blast
qed

section \<open>Well-formed clients\<close>

definition delay_ok :: "rat \<Rightarrow> bool" where "delay_ok d = (750 \<le> d \<and> d < 75000)"

definition timer_inv :: "(nat \<Rightarrow> rat option) \<Rightarrow> nat option \<Rightarrow> bool \<Rightarrow> nat \<Rightarrow> bool" where
  "timer_inv tm pending should attempts =
     ((case pending of None \<Rightarrow> tm = Map.empty | Some t \<Rightarrow> should \<and> (\<exists>d. tm = [t \<mapsto> d] \<and> delay_ok d))
      \<and> attempts \<le> maxReconnectAttempts)"

definition socket_inv :: "nat option \<Rightarrow> (nat \<Rightarrow> ready_state option) \<Rightarrow> bool \<Rightarrow> nat \<Rightarrow> bool" where
  "socket_inv cur sk up fresh =
     ((case cur of None \<Rightarrow> \<not> up | Some s \<Rightarrow> \<exists>st. sk s = Some st \<and> st \<noteq> CLOSED)
      \<and> (\<forall>s st. sk s = Some st \<longrightarrow> s < fresh))"

definition ws_inv :: "ws_world \<Rightarrow> bool" where
  "ws_inv w =
     (timer_inv (timers w) (reconnectTimer w) (shouldReconnect w) (reconnectAttempts w)
      \<and> socket_inv (ws w) (sockets w) (isConnected w) (next_socket w))"

lemma timer_inv_simps [simp]:
  "timer_inv tm None sr n = (tm = Map.empty \<and> n \<le> maxReconnectAttempts)"
  "timer_inv tm (Some t) sr n = (sr \<and> (\<exists>d. tm = [t \<mapsto> d] \<and> delay_ok d) \<and> n \<le> maxReconnectAttempts)"
  by (auto simp: timer_inv_def)

lemma timer_inv_attempts: "timer_inv tm rt sr n \<Longrightarrow> n \<le> maxReconnectAttempts"
  by (simp add: timer_inv_def)

lemma timer_inv_change: "timer_inv tm rt sr n \<Longrightarrow> (sr \<Longrightarrow> sr') \<Longrightarrow> n' \<le> maxReconnectAttempts \<Longrightarrow> timer_inv tm rt sr' n'"
  by (cases rt) auto

lemma timer_inv_should: "timer_inv tm rt sr n \<Longrightarrow> timer_inv tm rt True n"
  by (cases rt) auto

lemma timer_inv_fired:
  assumes "timer_inv tm rt sr n" "tm t = Some d" shows "rt = Some t \<and> delay_ok d \<and> tm(t := None) = Map.empty"
  using assms by (cases rt) (auto split: if_splits)

lemma socket_inv_open: "socket_inv cur sk c n \<Longrightarrow> socket_inv (Some n) (sk(n \<mapsto> st)) c (Suc n) = (st \<noteq> CLOSED)"
  by (auto simp: socket_inv_def less_Suc_eq)

lemma socket_inv_set:
  assumes "socket_inv cur sk c n" "sk s = Some st"
  shows "st' \<noteq> CLOSED \<Longrightarrow> socket_inv cur (sk(s \<mapsto> st')) c n"
    "cur \<noteq> Some s \<Longrightarrow> socket_inv cur (sk(s \<mapsto> st')) c n"
    "socket_inv None (sk(s \<mapsto> st')) False n"
    "cur = Some s \<Longrightarrow> st' \<noteq> CLOSED \<Longrightarrow> socket_inv cur (sk(s \<mapsto> st')) True n"
  using assms by (auto simp: socket_inv_def split: option.splits)

lemma socket_inv_none: "socket_inv cur sk c n \<Longrightarrow> socket_inv None sk False n"
  by (simp add: socket_inv_def)

lemma delay_bounds:
  assumes "0 \<le> rnd" "rnd < (1 :: rat)" and "(n, base) = reconnect_base a"
  shows "delay_ok (of_nat base * (3 / 4 + rnd / 2))"
proof -
  have "(1000 :: nat) \<le> 1000 * 2 ^ a" by simp
  hence "1000 \<le> base" "base \<le> 60000"
    using assms(3)
    by (auto simp: reconnect_base_def Let_def BASE_RECONNECT_MS_def MAX_RECONNECT_MS_def SLOW_RETRY_MS_def
        min_def split: if_splits)
  hence b: "1000 \<le> (of_nat base :: rat)" "(of_nat base :: rat) \<le> 60000"
    by (metis of_nat_le_iff of_nat_numeral)+
  have f: "3 / 4 \<le> 3 / 4 + rnd / 2" "3 / 4 + rnd / 2 < 5 / 4" using assms(1,2) by auto
  have "1000 * (3 / 4) \<le> of_nat base * (3 / 4 + rnd / 2)" using b f by (intro mult_mono) auto
  moreover have "of_nat base * (3 / 4 + rnd / 2) < 60000 * (5 / 4)"
    using b f by (intro mult_le_less_imp_less) auto
  ultimately show ?thesis by (simp add: delay_ok_def)
qed

lemma reconnect_base_bound: "(n, base) = reconnect_base a \<Longrightarrow> a \<le> maxReconnectAttempts \<Longrightarrow> n \<le> maxReconnectAttempts"
  by (auto simp: reconnect_base_def Let_def maxReconnectAttempts_def split: if_splits)

lemma ws_inv_push [simp]: "ws_inv (push fr w) = ws_inv w"
  by (simp add: ws_inv_def push_def)

lemma ws_inv_stack [simp]: "ws_inv (w\<lparr>stack := st\<rparr>) = ws_inv w"
  by (simp add: ws_inv_def)

lemma ws_inv_emit [simp]: "ws_inv (emit ev args w) = ws_inv w"
  by (simp add: emit_def split: option.splits)

lemma ws_inv_cancel:
  assumes "ws_inv w"
  shows "ws_inv (cancelReconnect w)" "reconnectTimer (cancelReconnect w) = None" "timers (cancelReconnect w) = Map.empty"
  using assms by (cases "reconnectTimer w"; auto simp: ws_inv_def cancelReconnect_def)+

lemma cancel_simps [simp]:
  "shouldReconnect (cancelReconnect w) = shouldReconnect w" "reconnectAttempts (cancelReconnect w) = reconnectAttempts w"
  "ws (cancelReconnect w) = ws w" "sockets (cancelReconnect w) = sockets w" "isConnected (cancelReconnect w) = isConnected w"
  "listeners (cancelReconnect w) = listeners w" "stack (cancelReconnect w) = stack w" "next_set (cancelReconnect w) = next_set w"
  "calls (cancelReconnect w) = calls w" "next_socket (cancelReconnect w) = next_socket w"
  "next_timer (cancelReconnect w) = next_timer w"
  by (simp_all add: cancelReconnect_def split: option.splits)

lemma ws_inv_schedule: assumes "ws_inv w" "0 \<le> rnd" "rnd < 1" shows "ws_inv (scheduleReconnect rnd w)"
proof (cases "shouldReconnect w")
  case True
  obtain n base where r: "(n, base) = reconnect_base (reconnectAttempts w)" by (metis surj_pair)
  have a: "reconnectAttempts w \<le> maxReconnectAttempts"
    using assms(1) by (auto simp: ws_inv_def intro: timer_inv_attempts)
  show ?thesis
    using ws_inv_cancel [OF assms(1)] True delay_bounds [OF assms(2,3) r] reconnect_base_bound [OF r a]
    by (simp add: scheduleReconnect_def Let_def r [symmetric] ws_inv_def) blast
qed (simp add: scheduleReconnect_def assms)

lemma ws_inv_open: "ws_inv w \<Longrightarrow> ws_inv (openSocket thrown w)"
  by (cases thrown) (auto simp: openSocket_def Let_def, auto simp: ws_inv_def socket_inv_open)

lemma ws_inv_connect: assumes "ws_inv w" shows "ws_inv (ws_connect thrown w)"
proof -
  have "ws_inv (w\<lparr>shouldReconnect := True\<rparr>)"
    using assms by (auto simp: ws_inv_def elim: timer_inv_should)
  thus ?thesis using assms by (simp add: ws_connect_def ws_inv_open ws_inv_cancel)
qed

lemma ws_inv_close_socket: "ws_inv w \<Longrightarrow> ws_inv (close_socket s w)"
  by (auto simp: ws_inv_def close_socket_def intro: socket_inv_set)

lemma close_socket_simps [simp]:
  "shouldReconnect (close_socket s w) = shouldReconnect w" "reconnectAttempts (close_socket s w) = reconnectAttempts w"
  "ws (close_socket s w) = ws w" "isConnected (close_socket s w) = isConnected w" "reconnectTimer (close_socket s w) = reconnectTimer w"
  "listeners (close_socket s w) = listeners w" "stack (close_socket s w) = stack w" "next_set (close_socket s w) = next_set w"
  "calls (close_socket s w) = calls w" "next_socket (close_socket s w) = next_socket w" "timers (close_socket s w) = timers w"
  by (simp_all add: close_socket_def)

lemma disconnect_simps [simp]:
  "shouldReconnect (ws_disconnect w) = False" "reconnectAttempts (ws_disconnect w) = 0" "ws (ws_disconnect w) = None"
  "isConnected (ws_disconnect w) = False" "stack (ws_disconnect w) = stack w" "listeners (ws_disconnect w) = listeners w"
  "next_set (ws_disconnect w) = next_set w" "calls (ws_disconnect w) = calls w"
  by (simp_all add: ws_disconnect_def Let_def split: option.splits)

lemma ws_inv_disconnect: assumes "ws_inv w" shows "ws_inv (ws_disconnect w)"
proof -
  define v where "v = (cancelReconnect (w\<lparr>shouldReconnect := False\<rparr>))\<lparr>reconnectAttempts := 0\<rparr>"
  have v: "ws_inv v"
    using assms by (cases "reconnectTimer w") (auto simp: v_def ws_inv_def cancelReconnect_def)
  have "ws_inv (close_socket s v)" for s by (rule ws_inv_close_socket [OF v])
  thus ?thesis using v unfolding ws_disconnect_def v_def [symmetric] Let_def
    by (auto simp: ws_inv_def intro: socket_inv_none split: option.splits)
qed

lemma ws_inv_calls: "ws_inv (ws_on ev cb w) = ws_inv w" "ws_inv (ws_off ev cb w) = ws_inv w" "ws_inv (ws_send v w) = ws_inv w"
  by (simp_all add: ws_inv_def ws_on_def ws_off_def ws_send_def Let_def split: option.splits)

lemma ws_inv_call: "ws_inv w \<Longrightarrow> ws_call reentrant w w' \<Longrightarrow> ws_inv w'"
  by (erule ws_callE) (simp_all add: ws_inv_connect ws_inv_disconnect ws_inv_calls)

lemma ws_inv_run: "ws_inv w \<Longrightarrow> ws_run w w' \<Longrightarrow> ws_inv w'"
  by (erule ws_runE) (simp_all add: ws_inv_schedule, simp add: ws_inv_def)

lemma ws_inv_on_open: "ws_inv w \<Longrightarrow> sockets w s = Some CONNECTING \<Longrightarrow> ws_inv (on_open s w)"
  by (auto simp: on_open_def Let_def, auto simp: ws_inv_def intro: socket_inv_set timer_inv_change)

lemma ws_inv_on_message: "ws_inv w \<Longrightarrow> ws_inv (on_message s data w)"
  by (auto simp: on_message_def onMessage_def ws_inv_close_socket split: option.splits)

lemma ws_inv_on_error: "ws_inv w \<Longrightarrow> ws_inv (on_error s ev w)"
  by (simp add: on_error_def)

lemma ws_inv_on_close: "ws_inv w \<Longrightarrow> sockets w s = Some st \<Longrightarrow> ws_inv (on_close s w)"
  by (auto simp: on_close_def Let_def, auto simp: ws_inv_def intro: socket_inv_set)

lemma ws_inv_on_timer: assumes "ws_inv w" "timers w t = Some d" shows "ws_inv (on_timer t thrown w)"
proof -
  have "ws_inv (w\<lparr>timers := (timers w)(t := None), reconnectTimer := None\<rparr>)"
    using assms timer_inv_fired [of "timers w" "reconnectTimer w"] by (auto simp: ws_inv_def intro: timer_inv_attempts)
  thus ?thesis by (simp add: on_timer_def Let_def ws_inv_open)
qed

lemma ws_inv_event: "ws_inv w \<Longrightarrow> ws_event w w' \<Longrightarrow> ws_inv w'"
  by (erule ws_eventE) (simp_all add: ws_inv_on_open ws_inv_on_message ws_inv_on_error ws_inv_on_close ws_inv_on_timer,
      auto simp: ws_inv_def intro: socket_inv_set)

lemma ws_inv_new: "ws_inv new_client"
  by (simp add: new_client_def ws_inv_def socket_inv_def)

lemma ws_reachable_inv: "ws_reachable reentrant w \<Longrightarrow> ws_inv w"
  by (erule reachable_invariant [where Q = ws_inv]) (fact ws_inv_new ws_inv_call ws_inv_run ws_inv_event)+

text \<open>C29: In every reachable state of a client, whatever its handlers do: a timer is pending
  exactly when \<open>reconnectTimer\<close> holds its handle (so no reconnection is ever scheduled twice),
  its delay is at least 0.75 and below 75 seconds, it is pending only while reconnection is
  wanted, at most ten attempts are counted, and a connected client has a socket that is not
  closed.\<close>
theorem client_well_formed:
  assumes "ws_reachable reentrant w"
  shows "dom (timers w) = set_option (reconnectTimer w)
    \<and> (timers w t = Some d \<longrightarrow> 750 \<le> d \<and> d < 75000)
    \<and> (reconnectTimer w \<noteq> None \<longrightarrow> shouldReconnect w)
    \<and> reconnectAttempts w \<le> 10
    \<and> (isConnected w \<longrightarrow> (\<exists>s st. ws w = Some s \<and> sockets w s = Some st \<and> st \<noteq> CLOSED))"
  using ws_reachable_inv [OF assms]
  by (auto simp: ws_inv_def timer_inv_def socket_inv_def delay_ok_def maxReconnectAttempts_def split: option.splits if_splits)

lemma reachable_connected: "ws_reachable r (on_open 0 (ws_connect None new_client))"
proof -
  have "ws_reachable r (ws_connect None new_client)"
    by (rule ws_reachable.step [OF ws_reachable.start])
      (unfold ws_step_def, rule disjI1, rule ws_call.connect, simp add: new_client_def)
  moreover have "ws_step r (ws_connect None new_client) (on_open 0 (ws_connect None new_client))"
    unfolding ws_step_def
    by (intro disjI2 ws_event.opened)
      (simp_all add: new_client_def ws_connect_def live_socket_def openSocket_def cancelReconnect_def Let_def)
  ultimately show ?thesis by (rule ws_reachable.step)
qed

lemma client_well_formed_witness:
  "isConnected (on_open 0 (ws_connect None new_client))
   \<and> (\<exists>s st. ws (on_open 0 (ws_connect None new_client)) = Some s
       \<and> sockets (on_open 0 (ws_connect None new_client)) s = Some st \<and> st \<noteq> CLOSED)"
proof -
  have c: "isConnected (on_open 0 (ws_connect None new_client))"
    by (simp add: on_open_def emit_def new_client_def ws_connect_def live_socket_def openSocket_def cancelReconnect_def Let_def)
  show ?thesis using client_well_formed [OF reachable_connected [of False]] c by blast
qed

section \<open>Callbacks\<close>

definition registered :: "ws_world \<Rightarrow> string \<Rightarrow> nat \<Rightarrow> bool" where
  "registered w event cb = (case listeners w event of None \<Rightarrow> False | Some (i, cbs) \<Rightarrow> cb \<in> set cbs)"

text \<open>The sets of different events are different objects, and a running loop only has members
  of its set still to visit.\<close>

definition sets_inv :: "(string \<Rightarrow> (nat \<times> nat list) option) \<Rightarrow> nat \<Rightarrow> bool" where
  "sets_inv ls n =
     (\<forall>e i cbs. ls e = Some (i, cbs) \<longrightarrow> i < n \<and> cbs \<noteq> [] \<and> distinct cbs \<and> (\<forall>e' cbs'. ls e' = Some (i, cbs') \<longrightarrow> e' = e))"

fun frame_inv :: "(string \<Rightarrow> (nat \<times> nat list) option) \<Rightarrow> nat \<Rightarrow> frame \<Rightarrow> bool" where
  "frame_inv ls n (Deliver i event args cbs) =
     (i < n \<and> (\<forall>e' cbs'. ls e' = Some (i, cbs') \<longrightarrow> e' = event)
      \<and> (\<forall>cb \<in> set cbs. \<exists>ys. ls event = Some (i, ys) \<and> cb \<in> set ys))"
| "frame_inv ls n fr = True"

definition listener_inv :: "ws_world \<Rightarrow> bool" where
  "listener_inv w = (sets_inv (listeners w) (next_set w) \<and> list_all (frame_inv (listeners w) (next_set w)) (stack w))"

lemma sets_invD: "sets_inv ls n \<Longrightarrow> ls e = Some (i, cbs) \<Longrightarrow> i < n \<and> (\<forall>e' cbs'. ls e' = Some (i, cbs') \<longrightarrow> e' = e)"
  unfolding sets_inv_def by blast

lemma sets_inv_distinct: "sets_inv ls n \<Longrightarrow> ls e = Some (i, cbs) \<Longrightarrow> distinct cbs"
  unfolding sets_inv_def by blast

lemma sets_inv_new: assumes "sets_inv ls n" "ls e = None" shows "sets_inv (ls(e \<mapsto> (n, [cb]))) (Suc n)"
  using assms unfolding sets_inv_def by (auto simp: less_Suc_eq)

lemma sets_inv_replace:
  assumes "sets_inv ls n" "ls e = Some (i, cbs)" "ys \<noteq> []" "distinct ys" shows "sets_inv (ls(e \<mapsto> (i, ys))) n"
  using assms unfolding sets_inv_def by (auto split: if_splits)

lemma sets_inv_delete: assumes "sets_inv ls n" shows "sets_inv (ls(e := None)) n"
  using assms unfolding sets_inv_def by auto

lemma frame_inv_new_set:
  assumes "frame_inv ls n fr" "ls e = None" shows "frame_inv (ls(e \<mapsto> (n, [cb]))) (Suc n) fr"
proof (cases fr)
  case (Deliver j ev args xs)
  hence "ev = e \<Longrightarrow> xs = []" using assms by (cases xs) auto
  thus ?thesis using Deliver assms by auto
qed auto

lemma frame_inv_add:
  assumes "frame_inv ls n fr" "ls e = Some (i, cbs)" "sets_inv ls n"
  shows "frame_inv (ls(e \<mapsto> (i, cbs @ [cb]))) n (frame_add i cb fr)"
proof (cases fr)
  case (Deliver j ev args xs)
  hence d: "j < n" "\<And>e' ys. ls e' = Some (j, ys) \<Longrightarrow> e' = ev" "\<And>c. c \<in> set xs \<Longrightarrow> \<exists>ys. ls ev = Some (j, ys) \<and> c \<in> set ys"
    using assms(1) by auto
  show ?thesis
  proof (cases "j = i")
    case True
    hence "ev = e" using d(2) assms(2) by blast
    have "e' = e" if "(ls(e \<mapsto> (i, cbs @ [cb]))) e' = Some (i, cbs')" for e' cbs'
    proof (rule ccontr)
      assume "e' \<noteq> e"
      hence "ls e' = Some (i, cbs')" using that by simp
      thus False using d(2) True \<open>ev = e\<close> \<open>e' \<noteq> e\<close> by blast
    qed
    moreover have "c \<in> set cbs" if c: "c \<in> set xs" for c
    proof -
      obtain ys where "ls ev = Some (j, ys)" "c \<in> set ys" using d(3) [OF c] by blast
      thus ?thesis using True assms(2) \<open>ev = e\<close> by simp
    qed
    hence "\<forall>c \<in> set (xs @ [cb]). \<exists>ys. (ls(e \<mapsto> (i, cbs @ [cb]))) e = Some (i, ys) \<and> c \<in> set ys" by simp
    ultimately have "frame_inv (ls(e \<mapsto> (i, cbs @ [cb]))) n (Deliver i e args (xs @ [cb]))"
      using True d(1) unfolding frame_inv.simps by blast
    moreover have "frame_add i cb fr = Deliver i e args (xs @ [cb])" using Deliver True \<open>ev = e\<close> by simp
    ultimately show ?thesis by (simp only:)
  next
    case False
    have "ev = e \<Longrightarrow> xs = []" using d(3) assms(2) False by (cases xs) auto
    thus ?thesis using Deliver False d by auto
  qed
qed auto

lemma frame_inv_remove:
  assumes "frame_inv ls n fr" "ls e = Some (i, cbs)" "sets_inv ls n"
  shows "frame_inv (ls(e := if filter (\<lambda>c. c \<noteq> cb) cbs = [] then None else Some (i, filter (\<lambda>c. c \<noteq> cb) cbs))) n
    (frame_remove i cb fr)"
proof (cases fr)
  case (Deliver j ev args xs)
  hence d: "j < n" "\<And>e' ys. ls e' = Some (j, ys) \<Longrightarrow> e' = ev" "\<And>c. c \<in> set xs \<Longrightarrow> \<exists>ys. ls ev = Some (j, ys) \<and> c \<in> set ys"
    using assms(1) by auto
  show ?thesis
  proof (cases "j = i")
    case True
    hence ev: "ev = e" using d(2) assms(2) by blast
    hence "c \<in> set xs \<Longrightarrow> c \<in> set cbs" for c using d(3) assms(2) True by fastforce
    moreover have "\<forall>e' cbs'. ls e' = Some (i, cbs') \<longrightarrow> e' = e" using d(2) True ev by blast
    ultimately show ?thesis using Deliver True d(1) assms(2) ev by (auto simp: filter_empty_conv)
  next
    case False
    have "ev = e \<Longrightarrow> xs = []" using d(3) assms(2) False by (cases xs) auto
    thus ?thesis using Deliver False d by auto
  qed
qed auto

lemma listener_inv_emit: assumes "listener_inv w" shows "listener_inv (emit e args w)"
proof (cases "listeners w e")
  case (Some p)
  obtain i cbs where p: "p = (i, cbs)" by (cases p)
  show ?thesis using assms Some p sets_invD [of "listeners w" "next_set w" e i cbs]
    by (auto simp: listener_inv_def emit_def push_def)
qed (use assms in \<open>simp add: emit_def\<close>)

lemma listener_inv_on: assumes "listener_inv w" shows "listener_inv (ws_on e cb w)"
proof (cases "listeners w e")
  case None
  thus ?thesis using assms
    by (auto simp: ws_on_def listener_inv_def list_all_iff frame_inv_new_set sets_inv_new)
next
  case (Some p)
  obtain i cbs where p: "p = (i, cbs)" by (cases p)
  have s: "sets_inv (listeners w) (next_set w)" using assms by (simp add: listener_inv_def)
  have "cb \<notin> set cbs \<Longrightarrow> sets_inv ((listeners w)(e \<mapsto> (i, cbs @ [cb]))) (next_set w)"
    using s Some p sets_inv_distinct [OF s] by (intro sets_inv_replace) auto
  moreover have "frame_inv ((listeners w)(e \<mapsto> (i, cbs @ [cb]))) (next_set w) (frame_add i cb fr)" if "fr \<in> set (stack w)" for fr
    using assms Some p s that by (intro frame_inv_add) (auto simp: listener_inv_def list_all_iff)
  ultimately show ?thesis using assms Some p by (auto simp: ws_on_def listener_inv_def list_all_iff)
qed

lemma listener_inv_off: assumes "listener_inv w" shows "listener_inv (ws_off e cb w)"
proof (cases "listeners w e")
  case None thus ?thesis using assms by (simp add: ws_off_def)
next
  case (Some p)
  obtain i cbs where p: "p = (i, cbs)" by (cases p)
  let ?rest = "filter (\<lambda>c. c \<noteq> cb) cbs"
  let ?ls = "(listeners w)(e := if ?rest = [] then None else Some (i, ?rest))"
  have s: "sets_inv (listeners w) (next_set w)" using assms by (simp add: listener_inv_def)
  have "sets_inv ?ls (next_set w)"
    using s Some p sets_inv_distinct [OF s] by (cases "?rest = []") (auto intro: sets_inv_replace sets_inv_delete)
  moreover have "frame_inv ?ls (next_set w) (frame_remove i cb fr)" if "fr \<in> set (stack w)" for fr
    using assms Some p s that by (intro frame_inv_remove) (auto simp: listener_inv_def list_all_iff)
  ultimately show ?thesis using Some p by (auto simp: ws_off_def Let_def listener_inv_def list_all_iff)
qed

lemma listener_inv_simps [simp]:
  "listener_inv (w\<lparr>reconnectAttempts := a\<rparr>) = listener_inv w" "listener_inv (w\<lparr>isConnected := b\<rparr>) = listener_inv w"
  "listener_inv (w\<lparr>ws := c\<rparr>) = listener_inv w" "listener_inv (w\<lparr>shouldReconnect := b\<rparr>) = listener_inv w"
  "listener_inv (w\<lparr>reconnectTimer := d\<rparr>) = listener_inv w" "listener_inv (w\<lparr>sockets := e\<rparr>) = listener_inv w"
  "listener_inv (w\<lparr>next_socket := f\<rparr>) = listener_inv w" "listener_inv (w\<lparr>timers := g\<rparr>) = listener_inv w"
  "listener_inv (w\<lparr>calls := h\<rparr>) = listener_inv w" "listener_inv (w\<lparr>sent := l\<rparr>) = listener_inv w"
  "listener_inv (cancelReconnect w) = listener_inv w" "listener_inv (close_socket s w) = listener_inv w"
  by (simp_all add: listener_inv_def)

lemma listener_inv_push [simp]:
  "listener_inv (push Then_Reschedule w) = listener_inv w" "listener_inv (push (Then_Emit_Message m) w) = listener_inv w"
  by (simp_all add: listener_inv_def push_def)

lemma listener_inv_open: "listener_inv w \<Longrightarrow> listener_inv (openSocket thrown w)"
  by (cases thrown) (simp_all add: openSocket_def Let_def listener_inv_emit)

lemma listener_inv_call: assumes "listener_inv w" "ws_call r w w'" shows "listener_inv w'"
  using assms(2)
proof cases
  case (connect thrown) thus ?thesis using assms(1) by (simp add: ws_connect_def listener_inv_open)
next
  case disconnect thus ?thesis using assms(1) by (simp add: listener_inv_def)
next
  case (send_call v) thus ?thesis using assms(1) by (auto simp: ws_send_def split: option.splits)
qed (use assms(1) in \<open>simp_all add: listener_inv_on listener_inv_off\<close>)

lemma schedule_simps [simp]:
  "listeners (scheduleReconnect rnd w) = listeners w" "next_set (scheduleReconnect rnd w) = next_set w"
  "stack (scheduleReconnect rnd w) = stack w" "calls (scheduleReconnect rnd w) = calls w" "ws (scheduleReconnect rnd w) = ws w"
  "shouldReconnect (scheduleReconnect rnd w) = shouldReconnect w" "sockets (scheduleReconnect rnd w) = sockets w"
  "isConnected (scheduleReconnect rnd w) = isConnected w" "next_socket (scheduleReconnect rnd w) = next_socket w"
  by (simp_all add: scheduleReconnect_def Let_def split: prod.splits)

lemma listener_inv_run: assumes "listener_inv w" "ws_run w w'" shows "listener_inv w'"
  using assms(2)
proof cases
  case (emit_message m rest)
  have "listener_inv (w\<lparr>stack := rest\<rparr>)" using assms(1) emit_message by (simp add: listener_inv_def)
  thus ?thesis using emit_message by (simp add: listener_inv_emit)
qed (use assms(1) in \<open>simp_all add: listener_inv_def\<close>)

lemma listener_inv_event: assumes "listener_inv w" "ws_event w w'" shows "listener_inv w'"
  using assms(2)
proof cases
  case (message s data)
  thus ?thesis using assms(1)
    by (simp add: on_message_def onMessage_def listener_inv_emit split: option.split)
qed (use assms(1) in \<open>simp_all add: on_open_def on_error_def on_close_def on_timer_def Let_def listener_inv_emit listener_inv_open\<close>)

lemma listener_inv_new: "listener_inv new_client"
  by (simp add: new_client_def listener_inv_def sets_inv_def)

lemma ws_reachable_listeners: "ws_reachable r w \<Longrightarrow> listener_inv w"
  by (erule reachable_invariant [where Q = listener_inv])
    (fact listener_inv_new listener_inv_call listener_inv_run listener_inv_event)+

lemma emit_calls [simp]: "calls (emit e args w) = calls w"
  by (simp add: emit_def push_def split: option.splits)

lemma openSocket_calls [simp]: "calls (openSocket thrown w) = calls w"
  by (simp add: openSocket_def push_def Let_def split: option.splits)

lemma quiet_call: "ws_call r w w' \<Longrightarrow> calls w' = calls w"
  by (erule ws_callE)
    (auto simp: ws_connect_def ws_on_def ws_off_def ws_send_def Let_def split: option.splits)

lemma quiet_event: "ws_event w w' \<Longrightarrow> calls w' = calls w"
  by (erule ws_eventE)
    (auto simp: on_open_def on_message_def onMessage_def on_error_def on_close_def on_timer_def Let_def push_def split: option.splits)

text \<open>C15: A handler that is called is registered for that event at that moment, and gets its
  arguments from the loop that visits it: whatever handlers do while an event is delivered
  (registering and unregistering others, connecting, disconnecting), a handler that has been
  unregistered is not called any more, and every step calls at most one handler.\<close>
theorem called_handlers_are_registered:
  assumes "ws_reachable reentrant w" and "ws_step reentrant w w'"
  shows "calls w' = calls w
    \<or> (\<exists>cb event args. calls w' = calls w @ [(cb, event, args)] \<and> registered w event cb)"
  using assms(2)
proof (cases rule: ws_step_cases)
  case call thus ?thesis by (simp add: quiet_call)
next
  case event thus ?thesis by (simp add: quiet_event)
next
  case run
  thus ?thesis
  proof cases
    case (deliver i event args cb cbs rest)
    have "frame_inv (listeners w) (next_set w) (Deliver i event args (cb # cbs))"
      using ws_reachable_listeners [OF assms(1)] deliver by (simp add: listener_inv_def)
    hence "registered w event cb" by (auto simp: registered_def)
    thus ?thesis using deliver by auto
  qed simp_all
qed

definition open_with_handler :: ws_world where
  "open_with_handler = on_open 0 (ws_connect None (ws_on ''connected'' 7 new_client))"

lemmas run_defs = open_with_handler_def new_client_def ws_connect_def live_socket_def openSocket_def cancelReconnect_def
  ws_on_def on_open_def emit_def push_def Let_def

lemma open_with_handler_reachable: "ws_reachable r open_with_handler"
proof -
  have "ws_reachable r (ws_on ''connected'' 7 new_client)"
    by (rule ws_reachable.step [OF ws_reachable.start]) (simp add: ws_step_def ws_call.on_call)
  hence "ws_reachable r (ws_connect None (ws_on ''connected'' 7 new_client))"
    by (rule ws_reachable.step) (unfold ws_step_def, rule disjI1, rule ws_call.connect, simp add: run_defs)
  thus ?thesis unfolding open_with_handler_def
    by (rule ws_reachable.step) (unfold ws_step_def, intro disjI2, rule ws_event.opened, simp_all add: run_defs)
qed

lemma open_with_handler_stack: "stack open_with_handler = Deliver 0 ''connected'' [] [7] # []"
  by (simp add: run_defs)

lemma called_handlers_are_registered_witness:
  "\<exists>w'. ws_step True open_with_handler w' \<and> calls w' \<noteq> calls open_with_handler
    \<and> (\<exists>cb event args. calls w' = calls open_with_handler @ [(cb, event, args)] \<and> registered open_with_handler event cb)"
proof -
  let ?w' = "open_with_handler\<lparr>stack := [Deliver 0 ''connected'' [] []],
    calls := calls open_with_handler @ [(7, ''connected'', [])]\<rparr>"
  have s: "ws_step True open_with_handler ?w'"
    unfolding ws_step_def by (intro disjI2 disjI1 ws_run.deliver open_with_handler_stack)
  have n: "calls ?w' \<noteq> calls open_with_handler" by simp
  show ?thesis using called_handlers_are_registered [OF open_with_handler_reachable s] s n by blast
qed

section \<open>One connection at a time\<close>

definition live_in :: "(nat \<Rightarrow> ready_state option) \<Rightarrow> nat \<Rightarrow> bool" where
  "live_in sk s = (sk s = Some OPEN \<or> sk s = Some CONNECTING)"

lemma live_in_upd [simp]:
  "live_in (sk(s \<mapsto> st)) s' = (if s' = s then st = OPEN \<or> st = CONNECTING else live_in sk s')"
  by (simp add: live_in_def)

lemma live_socket_iff: "live_socket w \<longleftrightarrow> (\<exists>s. ws w = Some s \<and> live_in (sockets w) s)"
  by (simp add: live_socket_def live_in_def split: option.splits)

text \<open>While a reconnection is due (a timer is pending or one is about to be scheduled) no socket
  is live, and a socket that is not the client's has been closed.\<close>

definition single_inv :: "ws_world \<Rightarrow> bool" where
  "single_inv w =
     ((reconnectTimer w \<noteq> None \<or> Then_Reschedule \<in> set (stack w) \<longrightarrow> (\<forall>s. \<not> live_in (sockets w) s))
      \<and> (\<forall>s. live_in (sockets w) s \<longrightarrow> ws w = Some s))"

lemma single_inv_quiet: "\<forall>s. \<not> live_in (sockets w) s \<Longrightarrow> single_inv w"
  by (simp add: single_inv_def)

lemma single_inv_live: "single_inv w \<Longrightarrow> \<not> live_socket w \<longleftrightarrow> (\<forall>s. \<not> live_in (sockets w) s)"
  by (auto simp: single_inv_def live_socket_iff)

lemma single_inv_cong:
  assumes "ws v = ws w" "sockets v = sockets w" "reconnectTimer v = reconnectTimer w"
    "Then_Reschedule \<in> set (stack v) \<Longrightarrow> Then_Reschedule \<in> set (stack w)" "single_inv w"
  shows "single_inv v"
  using assms unfolding single_inv_def by simp

lemma single_inv_emit: "single_inv w \<Longrightarrow> single_inv (emit e args w)"
  by (erule single_inv_cong [rotated 4]) (auto simp: emit_def push_def split: option.splits)

lemma emit_sockets [simp]: "sockets (emit e args w) = sockets w"
  by (simp add: emit_def push_def split: option.splits)

lemma single_inv_open:
  assumes "\<forall>s. \<not> live_in (sockets w) s" "reconnectTimer w = None" "Then_Reschedule \<notin> set (stack w)"
  shows "single_inv (openSocket thrown w)"
proof (cases thrown)
  case (Some e) thus ?thesis using assms(1) by (simp add: openSocket_def push_def single_inv_quiet)
next
  case None thus ?thesis using assms by (simp add: openSocket_def single_inv_def Let_def)
qed

lemma frame_reschedule [simp]:
  "frame_add i cb fr = Then_Reschedule \<longleftrightarrow> fr = Then_Reschedule" "Then_Reschedule = frame_add i cb fr \<longleftrightarrow> Then_Reschedule = fr"
  "frame_remove i cb fr = Then_Reschedule \<longleftrightarrow> fr = Then_Reschedule" "Then_Reschedule = frame_remove i cb fr \<longleftrightarrow> Then_Reschedule = fr"
  by (cases fr; simp)+

lemma frames_reschedule [simp]:
  "Then_Reschedule \<in> frame_add i cb ` S \<longleftrightarrow> Then_Reschedule \<in> S" "Then_Reschedule \<in> frame_remove i cb ` S \<longleftrightarrow> Then_Reschedule \<in> S"
  by (simp_all add: image_iff)

lemma disconnect_quiet: assumes "single_inv w" shows "\<not> live_in (sockets (ws_disconnect w)) s"
proof (cases "ws w")
  case None
  thus ?thesis using assms by (simp add: ws_disconnect_def Let_def single_inv_def)
next
  case (Some s')
  hence "s \<noteq> s' \<Longrightarrow> \<not> live_in (sockets w) s" using assms by (auto simp: single_inv_def)
  thus ?thesis using Some by (auto simp: ws_disconnect_def Let_def close_socket_def) (auto simp: live_in_def)
qed

lemma single_inv_call: assumes "single_inv w" "ws_call False w w'" shows "single_inv w'"
  using assms(2)
proof cases
  case (connect thrown)
  show ?thesis
  proof (cases "live_socket w")
    case False
    let ?u = "cancelReconnect (w\<lparr>shouldReconnect := True\<rparr>)"
    have "reconnectTimer ?u = None" by (simp add: cancelReconnect_def split: option.splits)
    thus ?thesis using connect False single_inv_live [OF assms(1)]
      by (simp add: ws_connect_def single_inv_open)
  qed (use assms(1) connect in \<open>simp add: ws_connect_def\<close>)
next
  case disconnect thus ?thesis by (simp add: single_inv_quiet disconnect_quiet [OF assms(1)])
next
  case (on_call e cb)
  show ?thesis unfolding on_call(1)
    by (rule single_inv_cong [OF _ _ _ _ assms(1)]) (simp_all only: ws_on_def split: option.splits if_splits prod.splits, simp_all)
next
  case (off_call e cb)
  show ?thesis unfolding off_call(1)
    by (rule single_inv_cong [OF _ _ _ _ assms(1)]) (simp_all only: ws_off_def Let_def split: option.splits prod.splits, simp_all)
next
  case (send_call v)
  show ?thesis unfolding send_call(1)
    by (rule single_inv_cong [OF _ _ _ _ assms(1)]) (simp_all only: ws_send_def split: option.splits if_splits, simp_all)
qed

lemma single_inv_run: assumes "single_inv w" "ws_run w w'" shows "single_inv w'"
  using assms(2)
proof cases
  case (emit_message m rest)
  have "single_inv (w\<lparr>stack := rest\<rparr>)"
    by (rule single_inv_cong [OF _ _ _ _ assms(1)]) (simp_all add: emit_message)
  thus ?thesis using emit_message by (simp add: single_inv_emit)
next
  case (reschedule rest rnd)
  thus ?thesis using assms(1) by (simp add: single_inv_def)
next
  case (deliver i e args cb cbs rest)
  show ?thesis unfolding deliver(1) by (rule single_inv_cong [OF _ _ _ _ assms(1)]) (simp_all add: deliver)
next
  case (delivered i e args rest)
  show ?thesis unfolding delivered(1) by (rule single_inv_cong [OF _ _ _ _ assms(1)]) (simp_all add: delivered)
qed

lemma single_inv_closes:
  assumes "single_inv w" "st \<noteq> OPEN" "st \<noteq> CONNECTING" shows "single_inv (w\<lparr>sockets := (sockets w)(s \<mapsto> st)\<rparr>)"
  using assms by (auto simp: single_inv_def)

lemma single_inv_event: assumes "ws_inv w" "single_inv w" "ws_event w w'" shows "single_inv w'"
  using assms(3)
proof cases
  case (opened s)
  have l: "live_in (sockets w) s" using opened by (simp add: live_in_def)
  have i: "ws w = Some s" "reconnectTimer w = None" "Then_Reschedule \<notin> set (stack w)"
    "\<forall>s'. live_in (sockets w) s' \<longrightarrow> ws w = Some s'"
    using l assms(2) unfolding single_inv_def by blast+
  hence "single_inv (w\<lparr>sockets := (sockets w)(s \<mapsto> OPEN), isConnected := True, reconnectAttempts := 0\<rparr>)"
    by (simp add: single_inv_def)
  thus ?thesis using opened i(1) by (simp add: on_open_def Let_def single_inv_emit)
next
  case (message s data)
  have "single_inv (push (Then_Emit_Message m) w)" for m
    by (rule single_inv_cong [OF _ _ _ _ assms(2)]) (simp_all add: push_def)
  thus ?thesis using assms(2) message
    by (simp add: on_message_def onMessage_def close_socket_def single_inv_closes single_inv_emit split: option.split)
next
  case (closed s st)
  have u: "single_inv (w\<lparr>sockets := (sockets w)(s \<mapsto> CLOSED)\<rparr>)" using assms(2) by (simp add: single_inv_closes)
  show ?thesis
  proof (cases "ws w = Some s")
    case True
    hence "\<forall>s'. \<not> live_in ((sockets w)(s \<mapsto> CLOSED)) s'" using assms(2) by (auto simp: single_inv_def)
    thus ?thesis using closed True by (simp add: on_close_def Let_def single_inv_quiet push_def)
  qed (use closed u in \<open>simp add: on_close_def Let_def\<close>)
next
  case (timer t d thrown)
  have "reconnectTimer w = Some t" using assms(1) timer timer_inv_fired [of "timers w" "reconnectTimer w"] by (auto simp: ws_inv_def)
  hence l: "\<forall>s. \<not> live_in (sockets w) s" using assms(2) by (simp add: single_inv_def)
  thus ?thesis using timer by (simp add: on_timer_def Let_def single_inv_open single_inv_quiet)
qed (use assms(2) in \<open>simp_all add: on_error_def single_inv_closes single_inv_emit\<close>)

lemma single_reachable:
  assumes "ws_reachable False w" shows "ws_inv w \<and> single_inv w"
  using assms
proof (induction rule: ws_reachable.induct)
  case start
  have "single_inv new_client" by (simp add: single_inv_def live_in_def new_client_def)
  thus ?case using ws_inv_new by blast
next
  case (step w w')
  have "ws_inv w'" using step(1,2) by (blast intro: ws_reachable_inv ws_reachable.step)
  thus ?case using step(2,3) by (auto elim!: ws_step_cases intro: single_inv_call single_inv_run single_inv_event)
qed

text \<open>C30: If handlers never call \<open>connect\<close> while an event is being delivered, then a client never
  has more than one connection: a socket that is connecting or open is the one the client
  holds, and while a reconnection is pending there is none.\<close>
theorem at_most_one_connection:
  assumes "ws_reachable False w" and "sockets w s = Some OPEN \<or> sockets w s = Some CONNECTING"
  shows "ws w = Some s \<and> reconnectTimer w = None
    \<and> (sockets w s' = Some OPEN \<or> sockets w s' = Some CONNECTING \<longrightarrow> s' = s)"
proof -
  have l: "live_in (sockets w) s" using assms(2) by (simp add: live_in_def)
  have i: "single_inv w" using single_reachable [OF assms(1)] by blast
  hence "live_in (sockets w) s' \<Longrightarrow> ws w = Some s'" "ws w = Some s" "reconnectTimer w = None" using l by (auto simp: single_inv_def)
  thus ?thesis by (auto simp: live_in_def)
qed

lemma at_most_one_connection_witness:
  "ws open_with_handler = Some 0 \<and> reconnectTimer open_with_handler = None"
proof -
  have "sockets open_with_handler 0 = Some OPEN" by (simp add: run_defs)
  thus ?thesis using at_most_one_connection [OF open_with_handler_reachable, of 0] by blast
qed

section \<open>Tasks end\<close>

definition handler_count :: "ws_world \<Rightarrow> nat" where
  "handler_count w = (case listeners w ''message'' of None \<Rightarrow> 0 | Some (i, cbs) \<Rightarrow> length cbs)"

fun frame_work :: "nat \<Rightarrow> frame \<Rightarrow> nat" where
  "frame_work m (Deliver i event args cbs) = Suc (length cbs)"
| "frame_work m Then_Reschedule = 1"
| "frame_work m (Then_Emit_Message v) = m + 2"

definition task_work :: "ws_world \<Rightarrow> nat" where
  "task_work w = (\<Sum>fr \<leftarrow> stack w. frame_work (handler_count w) fr)"

lemma run_handlers: "ws_run w w' \<Longrightarrow> listeners w' = listeners w"
  by (erule ws_runE) (simp_all add: emit_def push_def split: option.splits)

lemma run_work: assumes "ws_run w w'" shows "task_work w' < task_work w"
proof -
  have h: "handler_count w' = handler_count w" using run_handlers [OF assms] by (simp add: handler_count_def)
  show ?thesis using assms
  proof cases
    case (emit_message m rest)
    have "stack w' = rest \<or> (\<exists>i cbs. listeners w ''message'' = Some (i, cbs) \<and> stack w' = Deliver i ''message'' [m] cbs # rest)"
      using emit_message by (auto simp: emit_def push_def split: option.splits)
    thus ?thesis using emit_message h by (auto simp: task_work_def) (simp add: handler_count_def)
  qed (use h in \<open>simp_all add: task_work_def\<close>)
qed

lemma run_enabled: assumes "stack w \<noteq> []" shows "\<exists>w'. ws_run w w'"
proof -
  obtain fr rest where s: "stack w = fr # rest" using assms by (cases "stack w") auto
  show ?thesis
  proof (cases fr)
    case (Deliver i e args cbs)
    show ?thesis using s Deliver by (cases cbs) (auto intro: ws_run.deliver ws_run.delivered)
  next
    case Then_Reschedule
    thus ?thesis using s ws_run.reschedule [of w rest 0] by auto
  next
    case (Then_Emit_Message m) thus ?thesis using s ws_run.emit_message [of w m rest] by auto
  qed
qed

lemma run_bound: "(ws_run ^^ n) w w' \<Longrightarrow> n + task_work w' \<le> task_work w"
proof (induction n arbitrary: w')
  case (Suc n)
  then obtain v where "(ws_run ^^ n) w v" "ws_run v w'" by (auto elim: relpowp_Suc_E)
  thus ?case using Suc.IH [of v] run_work [of v w'] by simp
qed simp



section \<open>Reconnection\<close>

definition wants_inv :: "ws_world \<Rightarrow> bool" where
  "wants_inv w = (shouldReconnect w \<longrightarrow> ws w \<noteq> None \<or> reconnectTimer w \<noteq> None \<or> Then_Reschedule \<in> set (stack w))"

lemma wants_inv_cong:
  assumes "wants_inv w" "shouldReconnect v \<Longrightarrow> shouldReconnect w" "ws w \<noteq> None \<Longrightarrow> ws v \<noteq> None"
    "reconnectTimer v = reconnectTimer w" "Then_Reschedule \<in> set (stack w) \<Longrightarrow> Then_Reschedule \<in> set (stack v)"
  shows "wants_inv v"
  using assms unfolding wants_inv_def by auto

lemma emit_stack [simp]: "Then_Reschedule \<in> set (stack (emit e args w)) \<longleftrightarrow> Then_Reschedule \<in> set (stack w)"
  by (simp add: emit_def push_def split: option.splits)

lemma emit_fields [simp]:
  "shouldReconnect (emit e args w) = shouldReconnect w" "ws (emit e args w) = ws w" "reconnectTimer (emit e args w) = reconnectTimer w"
  by (simp_all add: emit_def push_def split: option.splits)

lemma push_fields [simp]:
  "shouldReconnect (push fr w) = shouldReconnect w" "ws (push fr w) = ws w" "reconnectTimer (push fr w) = reconnectTimer w"
  "stack (push fr w) = fr # stack w"
  by (simp_all add: push_def)

lemma wants_inv_open: "wants_inv (openSocket thrown w)"
  by (simp add: openSocket_def wants_inv_def Let_def split: option.split)

lemma wants_inv_connect: "wants_inv (ws_connect thrown w)"
  by (auto simp: ws_connect_def wants_inv_open) (simp add: wants_inv_def live_socket_def split: option.splits)

lemma wants_inv_call: assumes "wants_inv w" "ws_call r w w'" shows "wants_inv w'"
  using assms(2)
proof cases
  case (connect thrown) thus ?thesis by (simp add: wants_inv_connect)
next
  case disconnect thus ?thesis by (simp add: wants_inv_def)
next
  case (on_call e cb)
  show ?thesis unfolding on_call(1)
    by (rule wants_inv_cong [OF assms(1)]) (simp_all only: ws_on_def split: option.splits if_splits prod.splits, simp_all)
next
  case (off_call e cb)
  show ?thesis unfolding off_call(1)
    by (rule wants_inv_cong [OF assms(1)]) (simp_all only: ws_off_def Let_def split: option.splits prod.splits, simp_all)
next
  case (send_call v)
  show ?thesis unfolding send_call(1)
    by (rule wants_inv_cong [OF assms(1)]) (simp_all only: ws_send_def split: option.splits if_splits, simp_all)
qed

lemma wants_inv_schedule: "wants_inv (scheduleReconnect rnd w)"
  by (simp add: scheduleReconnect_def wants_inv_def Let_def split: prod.split)

lemma wants_inv_run: assumes "wants_inv w" "ws_run w w'" shows "wants_inv w'"
  using assms(2)
proof cases
  case (deliver i e args cb cbs rest)
  show ?thesis unfolding deliver(1) by (rule wants_inv_cong [OF assms(1)]) (simp_all add: deliver)
next
  case (delivered i e args rest)
  show ?thesis unfolding delivered(1) by (rule wants_inv_cong [OF assms(1)]) (simp_all add: delivered)
next
  case (reschedule rest rnd) thus ?thesis by (simp add: wants_inv_schedule)
next
  case (emit_message m rest)
  show ?thesis unfolding emit_message(1) by (rule wants_inv_cong [OF assms(1)]) (simp_all add: emit_message)
qed

lemma wants_inv_event: assumes "wants_inv w" "ws_event w w'" shows "wants_inv w'"
  using assms(2)
proof cases
  case (opened s)
  show ?thesis unfolding opened(1)
    by (rule wants_inv_cong [OF assms(1)]) (simp_all add: on_open_def Let_def split: if_splits)
next
  case (message s data)
  show ?thesis unfolding message(1)
    by (rule wants_inv_cong [OF assms(1)])
      (simp_all add: on_message_def onMessage_def split: option.splits if_splits prod.splits)
next
  case (error s st ev)
  show ?thesis unfolding error(1) by (rule wants_inv_cong [OF assms(1)]) (simp_all add: on_error_def split: if_splits)
next
  case (server_closes s)
  show ?thesis unfolding server_closes(1) by (rule wants_inv_cong [OF assms(1)]) simp_all
next
  case (closed s st) thus ?thesis using assms(1) by (simp add: on_close_def Let_def wants_inv_def)
next
  case (timer t d thrown) thus ?thesis by (simp add: on_timer_def Let_def wants_inv_open) (simp add: wants_inv_def)
qed

lemma ws_started_wants: "ws_started r w \<Longrightarrow> wants_inv w \<and> ws_inv w"
proof (induction rule: ws_started.induct)
  case (first w thrown)
  thus ?case by (simp add: wants_inv_connect ws_inv_connect ws_reachable_inv)
next
  case (step w w')
  thus ?case
    by (auto elim!: ws_step_cases intro: wants_inv_call wants_inv_run wants_inv_event ws_inv_call ws_inv_run ws_inv_event)
qed

lemma rtranclp_run_started: "ws_run\<^sup>*\<^sup>* w w' \<Longrightarrow> ws_started r w \<Longrightarrow> ws_started r w'"
proof (induction rule: rtranclp_induct)
  case (step u v) thus ?case using ws_started.step [of r u v] by (simp add: ws_step_def)
qed simp

lemma timer_opens:
  assumes "ws_inv w" "reconnectTimer w = Some t" shows "\<exists>d. timers w t = Some d \<and> delay_ok d \<and> live_socket (on_timer t None w)"
  using assms by (auto simp: ws_inv_def on_timer_def Let_def openSocket_def live_socket_def)

lemma run_fields: "ws_run w w' \<Longrightarrow> shouldReconnect w' = shouldReconnect w \<and> ws w' = ws w"
  by (erule ws_runE) simp_all

lemma run_star_fields: "ws_run\<^sup>*\<^sup>* w w' \<Longrightarrow> shouldReconnect w' = shouldReconnect w \<and> ws w' = ws w"
  by (induction rule: rtranclp_induct) (auto dest: run_fields)

text \<open>C5: A client that was connected and not disconnected by the application reconnects: between
  tasks it has a socket that is not closed, or a timer is pending that fires in less than 75 seconds
  and then opens a new socket; and when its socket closes, the task of that event, however many
  handlers it runs, ends with such a timer pending.\<close>
theorem keeps_reconnecting:
  assumes "ws_started reentrant w" and "stack w = []" and "shouldReconnect w"
  shows "((\<exists>s st. ws w = Some s \<and> sockets w s = Some st \<and> st \<noteq> CLOSED)
       \<or> (\<exists>t d. reconnectTimer w = Some t \<and> timers w t = Some d \<and> d < 75000 \<and> live_socket (on_timer t None w)))
    \<and> (ws w = Some s \<and> ws_run\<^sup>*\<^sup>* (on_close s w) w' \<and> stack w' = [] \<longrightarrow>
        (\<exists>t d. reconnectTimer w' = Some t \<and> timers w' t = Some d \<and> d < 75000 \<and> live_socket (on_timer t None w')))"
proof (intro conjI impI)
  have i: "wants_inv w" "ws_inv w" using ws_started_wants [OF assms(1)] by blast+
  show "(\<exists>s st. ws w = Some s \<and> sockets w s = Some st \<and> st \<noteq> CLOSED)
       \<or> (\<exists>t d. reconnectTimer w = Some t \<and> timers w t = Some d \<and> d < 75000 \<and> live_socket (on_timer t None w))"
  proof (cases "ws w")
    case (Some s) thus ?thesis using i(2) by (simp add: ws_inv_def socket_inv_def)
  next
    case None
    then obtain t where t: "reconnectTimer w = Some t" using i(1) assms(2,3) by (auto simp: wants_inv_def)
    thus ?thesis using timer_opens [OF i(2) t] by (auto simp: delay_ok_def)
  qed
next
  assume r: "ws w = Some s \<and> ws_run\<^sup>*\<^sup>* (on_close s w) w' \<and> stack w' = []"
  have f: "shouldReconnect w'" "ws w' = None"
    using r run_star_fields [of "on_close s w" w'] assms(3) by (auto simp: on_close_def Let_def)
  have i: "ws_inv w" using ws_started_wants [OF assms(1)] by blast
  hence "\<exists>st. sockets w s = Some st \<and> st \<noteq> CLOSED" using r by (simp add: ws_inv_def socket_inv_def)
  hence "ws_event w (on_close s w)" using assms(2) ws_event.closed by blast
  hence "ws_started reentrant (on_close s w)" using ws_started.step [OF assms(1)] by (simp add: ws_step_def)
  hence "ws_started reentrant w'" using r rtranclp_run_started by blast
  hence j: "wants_inv w'" "ws_inv w'" using ws_started_wants by blast+
  then obtain t where t: "reconnectTimer w' = Some t" using r f by (auto simp: wants_inv_def)
  thus "\<exists>t d. reconnectTimer w' = Some t \<and> timers w' t = Some d \<and> d < 75000 \<and> live_socket (on_timer t None w')"
    using timer_opens [OF j(2) t] by (auto simp: delay_ok_def)
qed

lemma keeps_reconnecting_witness:
  "\<exists>w' t d. ws_run\<^sup>*\<^sup>* (on_close 0 (on_open 0 (ws_connect None new_client))) w'
     \<and> reconnectTimer w' = Some t \<and> timers w' t = Some d \<and> d < 75000 \<and> live_socket (on_timer t None w')"
proof -
  let ?w = "on_open 0 (ws_connect None new_client)"
  have "ws_started True (ws_connect None new_client)"
    by (rule ws_started.first [OF ws_reachable.start]) (simp add: new_client_def)
  hence s: "ws_started True ?w"
    by (rule ws_started.step) (unfold ws_step_def, intro disjI2, rule ws_event.opened, simp_all add: run_defs)
  have k: "stack ?w = []" "shouldReconnect ?w" "ws ?w = Some 0" by (simp_all add: run_defs)
  have "stack (on_close 0 ?w) = Then_Reschedule # []" by (simp add: run_defs on_close_def)
  hence "ws_run (on_close 0 ?w) (scheduleReconnect (1 / 2) ((on_close 0 ?w)\<lparr>stack := []\<rparr>))" by (rule ws_run.reschedule) simp_all
  moreover have "stack (scheduleReconnect (1 / 2) ((on_close 0 ?w)\<lparr>stack := []\<rparr>)) = []" by simp
  ultimately show ?thesis using keeps_reconnecting [OF s k(1,2), of 0] k(3) by blast
qed

section \<open>Two situations the code does not exclude\<close>

text \<open>\<open>connect\<close> while the old socket is still closing opens a new one, and the client goes on
  reporting \<open>isConnected\<close> while the new socket is only connecting; the close event of the
  old socket, no longer the client's, does not reset the flag either.\<close>
lemma stale_connected_flag:
  "\<exists>w s. ws_reachable False w \<and> isConnected w \<and> ws w = Some s \<and> sockets w s = Some CONNECTING"
proof -
  let ?w = "(on_open 0 (ws_connect None new_client))"
  let ?v = "?w\<lparr>sockets := (sockets ?w)(0 \<mapsto> CLOSING)\<rparr>"
  have "ws_reachable False ?v"
    by (rule ws_reachable.step [OF reachable_connected]) (unfold ws_step_def, intro disjI2, rule ws_event.server_closes, simp_all add: run_defs)
  hence "ws_reachable False (ws_connect None ?v)"
    by (rule ws_reachable.step) (unfold ws_step_def, rule disjI1, rule ws_call.connect, simp add: run_defs)
  moreover have "isConnected (ws_connect None ?v)" "ws (ws_connect None ?v) = Some 1" "sockets (ws_connect None ?v) 1 = Some CONNECTING"
    by (simp_all add: run_defs)
  ultimately show ?thesis by blast
qed

text \<open>If a \<open>disconnected\<close> handler calls \<open>connect\<close>, the code after the handlers still schedules a
  reconnection, and when that timer fires a second socket replaces the first, which stays
  open without being the client's.\<close>
lemma orphan_connection:
  "\<exists>w. ws_reachable True w \<and> ws w = Some 2 \<and> sockets w 1 = Some CONNECTING \<and> sockets w 2 = Some CONNECTING"
proof -
  let ?a = "on_close 0 (on_open 0 (ws_connect None new_client))"
  let ?b = "ws_connect None ?a"
  let ?c = "scheduleReconnect 0 (?b\<lparr>stack := []\<rparr>)"
  let ?d = "on_timer 0 None ?c"
  have sa: "ws_step True (on_open 0 (ws_connect None new_client)) ?a"
    unfolding ws_step_def by (intro disjI2, rule ws_event.closed [of _ 0 OPEN]) (simp_all add: run_defs)
  have sb: "ws_step True ?a ?b" unfolding ws_step_def by (rule disjI1, rule ws_call.connect) simp
  have st: "stack ?b = Then_Reschedule # []" by (simp add: run_defs on_close_def)
  have sc: "ws_step True ?b ?c" unfolding ws_step_def by (rule disjI2, rule disjI1, rule ws_run.reschedule [OF st]) simp_all
  have sd: "ws_step True ?c ?d" unfolding ws_step_def
    by (intro disjI2, rule ws_event.timer [of _ _ 750])
      (simp_all add: run_defs on_close_def scheduleReconnect_def reconnect_base_def maxReconnectAttempts_def BASE_RECONNECT_MS_def MAX_RECONNECT_MS_def)
  have "ws_reachable True ?d" by (rule ws_reachable.step [OF ws_reachable.step [OF ws_reachable.step [OF ws_reachable.step [OF reachable_connected sa] sb] sc] sd])
  moreover have "ws ?d = Some 2" "sockets ?d 1 = Some CONNECTING" "sockets ?d 2 = Some CONNECTING"
    by (simp_all add: run_defs on_close_def on_timer_def scheduleReconnect_def reconnect_base_def maxReconnectAttempts_def
        BASE_RECONNECT_MS_def MAX_RECONNECT_MS_def)
  ultimately show ?thesis by blast
qed

end
