(* ===== verification/Web_Text.thy ===== *)
theory Web_Text
  imports Json_Text Base64_Codec
begin

text \<open>
  Texts inside URLs: \<open>encodeURIComponent\<close>, \<open>decodeURIComponent\<close> and the form encoding of
  \<open>URLSearchParams\<close>. Here and in the theories about links a text is the list of its UTF-8
  bytes, so that every Unicode text is covered; on ASCII texts this is the reading of the other
  theories. An interface, \<open>text_codec\<close>, holds what the links rely on: decoding undoes
  encoding, and an encoded text avoids the separators.
\<close>

section \<open>Texts as bytes\<close>

definition text_points :: "string \<Rightarrow> nat list" where
  "text_points s = utf8_decode_from None (map code s)"

definition of_points :: "nat list \<Rightarrow> string" where
  "of_points ps = map char_of (utf8_encode ps)"

definition valid_text :: "string \<Rightarrow> bool" where
  "valid_text s \<longleftrightarrow> list_all scalar_value (text_points s) \<and> of_points (text_points s) = s"

definition ascii_text :: "string \<Rightarrow> bool" where
  "ascii_text s \<longleftrightarrow> list_all (\<lambda>c. code c < 128) s"

text \<open>Blanks of \<open>trim\<close>: the white space and line terminators of ECMAScript.\<close>

definition blank_point :: "nat \<Rightarrow> bool" where
  "blank_point c \<longleftrightarrow> 9 \<le> c \<and> c \<le> 13 \<or> c \<in> {0x20, 0xA0, 0x1680, 0x2028, 0x2029, 0x202F, 0x205F, 0x3000, 0xFEFF}
     \<or> 0x2000 \<le> c \<and> c \<le> 0x200A"

definition text_trim :: "string \<Rightarrow> string" where
  "text_trim s = of_points (rev (dropWhile blank_point (rev (dropWhile blank_point (text_points s)))))"

section \<open>Percent encoding\<close>

definition hex_digit :: "nat \<Rightarrow> char" where
  "hex_digit d = (if d < 10 then char_of (48 + d) else char_of (55 + d))"

definition pct :: "char \<Rightarrow> string" where
  "pct c = [CHR ''%'', hex_digit (code c div 16), hex_digit (code c mod 16)]"

definition encode_set :: "(char \<Rightarrow> bool) \<Rightarrow> string \<Rightarrow> string" where
  "encode_set P s = concat (map (\<lambda>c. if P c then pct c else [c]) s)"

fun percent_decode :: "string \<Rightarrow> string" where
  "percent_decode (c # s) =
     (if c = CHR ''%'' then
        (case s of
           a # b # r \<Rightarrow> if is_hex a \<and> is_hex b then char_of (16 * digit_val a + digit_val b) # percent_decode r
             else c # percent_decode s
         | _ \<Rightarrow> c # percent_decode s)
      else c # percent_decode s)"
| "percent_decode [] = []"

definition alnum :: "char \<Rightarrow> bool" where
  "alnum c \<longleftrightarrow> is_digit c \<or> is_lower c \<or> is_upper c"

definition uri_unreserved :: "char \<Rightarrow> bool" where
  "uri_unreserved c \<longleftrightarrow> alnum c \<or> c \<in> set ''-_.!~*()'' \<or> code c = 39"

definition encodeURIComponent :: "string \<Rightarrow> string" where
  "encodeURIComponent s = encode_set (\<lambda>c. \<not> uri_unreserved c) s"

text \<open>\<open>decodeURIComponent\<close>: \<^const>\<open>None\<close> is the thrown \<open>URIError\<close>. The state holds how many
  escaped continuation bytes must follow and the bounds of the next one.\<close>

fun uri_decode :: "(nat \<times> nat \<times> nat) option \<Rightarrow> string \<Rightarrow> string option" where
  "uri_decode None [] = Some []"
| "uri_decode (Some st) [] = None"
| "uri_decode None (c # s) =
     (if c \<noteq> CHR ''%'' then map_option ((#) c) (uri_decode None s)
      else case s of
        a # b # r \<Rightarrow>
          if \<not> (is_hex a \<and> is_hex b) then None
          else (let v = 16 * digit_val a + digit_val b
                in if v < 0x80 then map_option ((#) (char_of v)) (uri_decode None r)
                   else case utf8_start v of
                     None \<Rightarrow> None
                   | Some (n, lo, hi, cp) \<Rightarrow> map_option ((#) (char_of v)) (uri_decode (Some (n, lo, hi)) r))
      | _ \<Rightarrow> None)"
| "uri_decode (Some (n, lo, hi)) (c # s) =
     (if c \<noteq> CHR ''%'' then None
      else case s of
        a # b # r \<Rightarrow>
          if \<not> (is_hex a \<and> is_hex b) then None
          else (let v = 16 * digit_val a + digit_val b
                in if \<not> (lo \<le> v \<and> v \<le> hi) then None
                   else map_option ((#) (char_of v)) (uri_decode (if n = 1 then None else Some (n - 1, 0x80, 0xBF)) r))
      | _ \<Rightarrow> None)"

definition decodeURIComponent :: "string \<Rightarrow> string option" where
  "decodeURIComponent s = uri_decode None s"

section \<open>Form encoding\<close>

definition form_safe :: "char \<Rightarrow> bool" where
  "form_safe c \<longleftrightarrow> alnum c \<or> c \<in> set ''*-._''"

definition form_encode :: "string \<Rightarrow> string" where
  "form_encode s = concat (map (\<lambda>c. if c = CHR '' '' then ''+'' else if form_safe c then [c] else pct c) s)"

definition form_decode :: "string \<Rightarrow> string" where
  "form_decode s = of_points (text_points (percent_decode (subst_char CHR ''+'' CHR '' '' s)))"

section \<open>The codec interface\<close>

locale text_codec =
  fixes encode :: "string \<Rightarrow> string" and decode :: "string \<Rightarrow> string option"
    and valid :: "string \<Rightarrow> bool" and clean :: "char \<Rightarrow> bool"
  assumes decode_encode: "valid s \<Longrightarrow> decode (encode s) = Some s"
    and encode_clean: "c \<in> set (encode s) \<Longrightarrow> clean c"
begin

lemma encode_inject: assumes "valid s" "valid t" "encode s = encode t" shows "s = t"
proof -
  have "Some s = decode (encode t)" using decode_encode [OF assms(1)] unfolding assms(3) by (rule sym)
  also have "\<dots> = Some t" by (rule decode_encode [OF assms(2)])
  finally show ?thesis by (rule option.inject [THEN iffD1])
qed

lemma encode_avoids: "\<not> clean c \<Longrightarrow> c \<notin> set (encode s)"
  using encode_clean by blast

text \<open>Encoded parts joined by a separator that encoding avoids are found again.\<close>

lemma split_encoded:
  assumes "\<not> clean sep" and "ss \<noteq> []"
  shows "split_on sep (join [sep] (map encode ss)) = map encode ss"
  using assms encode_avoids by (intro split_on_join) auto

lemma decode_parts:
  assumes "\<not> clean sep" and "ss \<noteq> []" and "\<forall>s \<in> set ss. valid s"
  shows "all_some (map decode (split_on sep (join [sep] (map encode ss)))) = Some ss"
proof -
  have "all_some (map (decode \<circ> encode) ss) = Some (map id ss)"
    using assms(3) by (intro all_some_map) (simp add: decode_encode)
  thus ?thesis using split_encoded [OF assms(1,2)] by simp
qed

text \<open>A pair written with a separator is cut at its first occurrence.\<close>

lemma cut_pair:
  assumes "\<not> clean sep"
  shows "takeWhile (\<lambda>c. c \<noteq> sep) (encode s @ sep # t) = encode s" "dropWhile (\<lambda>c. c \<noteq> sep) (encode s @ sep # t) = sep # t"
proof -
  have "\<forall>c \<in> set (encode s). c \<noteq> sep" using encode_avoids [OF assms] by blast
  thus "takeWhile (\<lambda>c. c \<noteq> sep) (encode s @ sep # t) = encode s" "dropWhile (\<lambda>c. c \<noteq> sep) (encode s @ sep # t) = sep # t"
    by (simp_all add: takeWhile_append dropWhile_append)
qed

end

section \<open>The codecs of the links\<close>

lemma hex_digit_hex: "d < 16 \<Longrightarrow> is_hex (hex_digit d) \<and> digit_val (hex_digit d) = d"
  by (auto simp: hex_digit_def is_hex_def is_digit_def digit_val_def)

lemma hex_digit_alnum: "d < 16 \<Longrightarrow> alnum (hex_digit d)"
  by (auto simp: hex_digit_def alnum_def is_digit_def is_upper_def)

lemma pct_hex: "pct c = [CHR ''%'', hex_digit (code c div 16), hex_digit (code c mod 16)]
  \<and> is_hex (hex_digit (code c div 16)) \<and> is_hex (hex_digit (code c mod 16))
  \<and> 16 * digit_val (hex_digit (code c div 16)) + digit_val (hex_digit (code c mod 16)) = code c"
proof -
  have "code c div 16 < 16" by (rule less_mult_imp_div_less) simp
  thus ?thesis by (simp add: pct_def hex_digit_hex)
qed

lemma pct_chars: "d \<in> set (pct c) \<Longrightarrow> d = CHR ''%'' \<or> alnum d"
proof -
  have "code c div 16 < 16" by (rule less_mult_imp_div_less) simp
  thus "d \<in> set (pct c) \<Longrightarrow> ?thesis" by (auto simp: pct_def hex_digit_alnum)
qed

lemma percent_decode_pct [simp]: "percent_decode (pct c @ s) = c # percent_decode s"
  using pct_hex [of c] by simp

lemma percent_decode_plain [simp]: "c \<noteq> CHR ''%'' \<Longrightarrow> percent_decode (c # s) = c # percent_decode s"
  by simp

lemma alnum_neq:
  assumes "alnum c"
  shows "c \<noteq> CHR ''%''" "c \<noteq> CHR ''+''" "c \<noteq> CHR ''&''" "c \<noteq> CHR ''=''" "c \<noteq> CHR '':''" "c \<noteq> CHR ''@''" "c \<noteq> CHR ''/''" "c \<noteq> CHR ''?''" "c \<noteq> CHR ''#''" "c \<noteq> CHR ''[''" "c \<noteq> CHR '']''" "c \<noteq> CHR '' ''"
  using assms by (auto simp: alnum_def is_digit_def is_upper_def is_lower_def)

lemma subst_pct [simp]: "subst_char CHR ''+'' CHR '' '' (pct c) = pct c"
proof -
  have "CHR ''+'' \<notin> set (pct c)" using pct_chars [of "CHR ''+''" c] alnum_neq(2) by auto
  thus ?thesis by (auto simp: subst_char_def intro!: map_idI)
qed

lemma subst_append [simp]: "subst_char a b (s @ t) = subst_char a b s @ subst_char a b t"
  by (simp add: subst_char_def)

lemma form_safe_neq:
  assumes "form_safe c"
  shows "c \<noteq> CHR ''%''" "c \<noteq> CHR ''+''" "c \<noteq> CHR ''&''" "c \<noteq> CHR ''=''" "c \<noteq> CHR '':''" "c \<noteq> CHR ''@''" "c \<noteq> CHR ''/''" "c \<noteq> CHR ''?''" "c \<noteq> CHR ''#''" "c \<noteq> CHR ''[''" "c \<noteq> CHR '']''" "c \<noteq> CHR '' ''"
  using assms by (auto simp: form_safe_def alnum_def is_digit_def is_upper_def is_lower_def)

lemma percent_decode_form: "percent_decode (subst_char CHR ''+'' CHR '' '' (form_encode s)) = s"
proof (induction s)
  case Nil thus ?case by (simp add: form_encode_def subst_char_def)
next
  case (Cons c s)
  have e: "form_encode (c # s) = (if c = CHR '' '' then ''+'' else if form_safe c then [c] else pct c) @ form_encode s"
    by (simp add: form_encode_def)
  consider "c = CHR '' ''" | "c \<noteq> CHR '' ''" "form_safe c" | "c \<noteq> CHR '' ''" "\<not> form_safe c" by blast
  thus ?case
  proof cases
    case 1 thus ?thesis unfolding e using Cons.IH by (simp add: subst_char_def)
  next
    case 2
    hence "c \<noteq> CHR ''%''" "c \<noteq> CHR ''+''" using form_safe_neq by auto
    thus ?thesis unfolding e using 2 Cons.IH by (simp add: subst_char_def)
  next
    case 3 thus ?thesis unfolding e using Cons.IH by simp
  qed
qed

lemma of_points_scalars: "\<forall>c \<in> set ps. scalar_value c \<Longrightarrow> text_points (of_points ps) = ps"
proof -
  assume a: "\<forall>c \<in> set ps. scalar_value c"
  hence "map code (of_points ps) = utf8_encode ps"
    using utf8_encode_bytes [OF a] by (simp add: of_points_def map_idI)
  thus ?thesis using utf8_decode_from_encode [OF a] by (simp add: text_points_def)
qed

lemma valid_of_points: "\<forall>c \<in> set ps. scalar_value c \<Longrightarrow> valid_text (of_points ps)"
  by (simp add: valid_text_def of_points_scalars list_all_iff)

lemma valid_text_points: "valid_text s \<longleftrightarrow> (\<exists>ps. (\<forall>c \<in> set ps. scalar_value c) \<and> s = of_points ps)"
  using of_points_scalars by (auto simp: valid_text_def list_all_iff)

lemma of_points_append: "of_points (ps @ qs) = of_points ps @ of_points qs"
  by (simp add: of_points_def utf8_encode_def)

lemma of_points_Cons: "of_points (c # ps) = map char_of (utf8_char c) @ of_points ps"
  by (simp add: of_points_def utf8_encode_def)

lemma valid_append: "valid_text s \<Longrightarrow> valid_text t \<Longrightarrow> valid_text (s @ t)"
  unfolding valid_text_points by (metis Un_iff of_points_append set_append)

lemma ascii_points: "ascii_text s \<Longrightarrow> s = of_points (map code s)"
  by (induction s) (auto simp: ascii_text_def of_points_Cons utf8_char_def, simp add: of_points_def utf8_encode_def)

lemma ascii_valid: "ascii_text s \<Longrightarrow> valid_text s"
  unfolding valid_text_points
  by (rule exI [of _ "map code s"]) (use ascii_points [of s] in \<open>auto simp: ascii_text_def list_all_iff scalar_value_def\<close>)

lemma form_decode_encode: "valid_text s \<Longrightarrow> form_decode (form_encode s) = s"
  by (simp add: form_decode_def percent_decode_form valid_text_def)

lemma form_encode_chars: "d \<in> set (form_encode s) \<Longrightarrow> form_safe d \<or> d = CHR ''%'' \<or> d = CHR ''+''"
  by (auto simp: form_encode_def form_safe_def split: if_splits dest!: pct_chars)

text \<open>Escaped UTF-8 sequences are read back as the bytes they escape.\<close>

lemma uri_start:
  assumes "0x80 \<le> v" "v < 256" "utf8_start v = Some (n, lo, hi, cp)"
  shows "uri_decode None (pct (char_of v) @ r) = map_option ((#) (char_of v)) (uri_decode (Some (n, lo, hi)) r)"
  using pct_hex [of "char_of v"] assms by (simp add: Let_def)

lemma uri_continue:
  assumes "lo \<le> v" "v \<le> hi" "v < 256"
  shows "uri_decode (Some (n, lo, hi)) (pct (char_of v) @ r)
    = map_option ((#) (char_of v)) (uri_decode (if n = 1 then None else Some (n - 1, 0x80, 0xBF)) r)"
  using pct_hex [of "char_of v"] assms by (simp add: Let_def)

lemma unreserved_ascii: "uri_unreserved c \<Longrightarrow> code c < 128"
  by (auto simp: uri_unreserved_def alnum_def is_digit_def is_lower_def is_upper_def)

lemma encode_high: "0x80 \<le> (v :: nat) \<Longrightarrow> v < 256 \<Longrightarrow> \<not> uri_unreserved (char_of v)"
  using unreserved_ascii [of "char_of v"] by auto

lemma encode_set_append: "encode_set P (s @ t) = encode_set P s @ encode_set P t"
  by (simp add: encode_set_def)

lemma encode_set_Cons: "encode_set P (c # s) = (if P c then pct c else [c]) @ encode_set P s"
  by (simp add: encode_set_def)

lemma encode_set_Nil [simp]: "encode_set P [] = []"
  by (simp add: encode_set_def)

lemma encode_bytes_high:
  "\<forall>v \<in> set vs. 0x80 \<le> v \<and> v < (256 :: nat) \<Longrightarrow> encodeURIComponent (map char_of vs) = concat (map (\<lambda>v. pct (char_of v)) vs)"
  by (induction vs) (simp_all add: encodeURIComponent_def encode_set_Cons encode_high)

lemma uri_2:
  assumes "2 \<le> p" "p < (32 :: nat)" "q < (64 :: nat)"
  shows "uri_decode None (encodeURIComponent (map char_of [0xC0 + p, 0x80 + q]) @ r)
    = map_option ((@) (map char_of [0xC0 + p, 0x80 + q])) (uri_decode None r)"
proof -
  have s: "utf8_start (0xC0 + p) = Some (1, 0x80, 0xBF, p)" using assms by (simp add: utf8_start.simps)
  have "encodeURIComponent (map char_of [0xC0 + p, 0x80 + q]) = pct (char_of (0xC0 + p)) @ pct (char_of (0x80 + q))"
    using assms by (subst encode_bytes_high) auto
  thus ?thesis using assms
    by (cases "uri_decode None r") (simp_all del: uri_decode.simps add: uri_start [OF _ _ s] uri_continue option.map_comp comp_def)
qed

lemma uri_3:
  assumes "p < (16 :: nat)" "q < (64 :: nat)" "r < (64 :: nat)" "p = 0 \<Longrightarrow> 32 \<le> q" "p = 13 \<Longrightarrow> q \<le> 31"
  shows "uri_decode None (encodeURIComponent (map char_of [0xE0 + p, 0x80 + q, 0x80 + r]) @ t)
    = map_option ((@) (map char_of [0xE0 + p, 0x80 + q, 0x80 + r])) (uri_decode None t)"
proof -
  have s: "utf8_start (0xE0 + p) = Some (2, if p = 0 then 0xA0 else 0x80, if p = 13 then 0x9F else 0xBF, p)"
    using assms(1) by (simp add: utf8_start.simps)
  have "encodeURIComponent (map char_of [0xE0 + p, 0x80 + q, 0x80 + r])
      = pct (char_of (0xE0 + p)) @ pct (char_of (0x80 + q)) @ pct (char_of (0x80 + r))"
    using assms(1-3) by (subst encode_bytes_high) auto
  thus ?thesis using assms
    by (cases "uri_decode None t") (simp_all del: uri_decode.simps add: uri_start [OF _ _ s] uri_continue option.map_comp comp_def)
qed

lemma uri_4:
  assumes "p \<le> (4 :: nat)" "q < (64 :: nat)" "r < (64 :: nat)" "t < (64 :: nat)" "p = 0 \<Longrightarrow> 16 \<le> q" "p = 4 \<Longrightarrow> q \<le> 15"
  shows "uri_decode None (encodeURIComponent (map char_of [0xF0 + p, 0x80 + q, 0x80 + r, 0x80 + t]) @ z)
    = map_option ((@) (map char_of [0xF0 + p, 0x80 + q, 0x80 + r, 0x80 + t])) (uri_decode None z)"
proof -
  have s: "utf8_start (0xF0 + p) = Some (3, if p = 0 then 0x90 else 0x80, if p = 4 then 0x8F else 0xBF, p)"
    using assms(1) by (simp add: utf8_start.simps)
  have "encodeURIComponent (map char_of [0xF0 + p, 0x80 + q, 0x80 + r, 0x80 + t])
      = pct (char_of (0xF0 + p)) @ pct (char_of (0x80 + q)) @ pct (char_of (0x80 + r)) @ pct (char_of (0x80 + t))"
    using assms(1-4) by (subst encode_bytes_high) auto
  thus ?thesis using assms
    by (cases "uri_decode None z") (simp_all del: uri_decode.simps add: uri_start [OF _ _ s] uri_continue option.map_comp comp_def)
qed

lemma uri_1:
  assumes "v < (0x80 :: nat)"
  shows "uri_decode None (encodeURIComponent [char_of v] @ r) = map_option ((#) (char_of v)) (uri_decode None r)"
proof (cases "uri_unreserved (char_of v)")
  case True
  have "\<not> uri_unreserved CHR ''%''" by (simp add: uri_unreserved_def alnum_def is_digit_def is_lower_def is_upper_def)
  hence "char_of v \<noteq> CHR ''%''" using True by metis
  thus ?thesis using True by (simp add: encodeURIComponent_def encode_set_def)
next
  case False
  thus ?thesis using pct_hex [of "char_of v"] assms by (simp add: encodeURIComponent_def encode_set_def Let_def)
qed

lemma uri_point:
  assumes "scalar_value c"
  shows "uri_decode None (encodeURIComponent (map char_of (utf8_char c)) @ r)
    = map_option ((@) (map char_of (utf8_char c))) (uri_decode None r)"
proof -
  have "c < 0x110000" using assms by (auto simp: scalar_value_def)
  then consider "c < 0x80" | "0x80 \<le> c" "c < 0x800" | "0x800 \<le> c" "c < 0x10000" | "0x10000 \<le> c" "c < 0x110000"
    by linarith
  thus ?thesis
  proof cases
    case 1 thus ?thesis using uri_1 [of c r]
      by (cases "uri_decode None r") (simp_all add: utf8_char_def del: uri_decode.simps)
  next
    case 2
    hence "2 \<le> c div 64" "c div 64 < 32" by auto
    from uri_2 [OF this, where q = "c mod 64" and r = r] show ?thesis using 2 by (simp add: utf8_char_def del: uri_decode.simps)
  next
    case 3
    have lo: "32 \<le> c div 64 mod 64" if "c div 4096 = 0" using 3(1) that digits_64(2) [of c] by simp
    have hi: "c div 64 mod 64 \<le> 31" if "c div 4096 = 13"
      using assms that digits_64(1,2) [of c] 3 unfolding scalar_value_def by linarith
    from uri_3 [OF _ _ _ lo hi, where r = "c mod 64" and t = r] show ?thesis using 3 by (simp add: utf8_char_def digits_64 del: uri_decode.simps)
  next
    case 4
    have lo: "16 \<le> c div 4096 mod 64" if "c div 262144 = 0" using 4(1) that digits_64(3) [of c] by simp
    have hi: "c div 4096 mod 64 \<le> 15" if "c div 262144 = 4" using 4(2) that digits_64(3) [of c] by simp
    from uri_4 [OF _ _ _ _ lo hi, where r = "c div 64 mod 64" and t = "c mod 64" and z = r] show ?thesis
      using 4 by (simp add: utf8_char_def digits_64 del: uri_decode.simps)
  qed
qed

lemma uri_points:
  "\<forall>c \<in> set ps. scalar_value c \<Longrightarrow>
    uri_decode None (encodeURIComponent (of_points ps) @ r) = map_option ((@) (of_points ps)) (uri_decode None r)"
proof (induction ps)
  case Nil thus ?case by (cases "uri_decode None r") (simp_all add: of_points_def utf8_encode_def encodeURIComponent_def)
next
  case (Cons c ps)
  have "encodeURIComponent (of_points (c # ps)) @ r
      = encodeURIComponent (map char_of (utf8_char c)) @ encodeURIComponent (of_points ps) @ r"
    by (simp add: of_points_Cons encodeURIComponent_def encode_set_append)
  thus ?case using Cons uri_point [of c "encodeURIComponent (of_points ps) @ r"]
    by (cases "uri_decode None r") (simp_all add: of_points_Cons del: uri_decode.simps)
qed

lemma uri_prefix:
  assumes "valid_text s" shows "uri_decode None (encodeURIComponent s @ r) = map_option ((@) s) (uri_decode None r)"
  using assms uri_points by (auto simp: valid_text_points)

lemma decode_encode_uri: "valid_text s \<Longrightarrow> decodeURIComponent (encodeURIComponent s) = Some s"
  using uri_prefix [of s "[]"] by (simp add: decodeURIComponent_def)

definition uri_clean :: "char \<Rightarrow> bool" where
  "uri_clean c \<longleftrightarrow> uri_unreserved c \<or> c = CHR ''%''"

definition form_clean :: "char \<Rightarrow> bool" where
  "form_clean c \<longleftrightarrow> form_safe c \<or> c = CHR ''%'' \<or> c = CHR ''+''"

lemma uri_encode_clean: "c \<in> set (encodeURIComponent s) \<Longrightarrow> uri_clean c"
  by (auto simp: encodeURIComponent_def encode_set_def uri_clean_def uri_unreserved_def split: if_splits dest!: pct_chars)

interpretation uri: text_codec encodeURIComponent decodeURIComponent valid_text uri_clean
  by unfold_locales (simp_all add: decode_encode_uri uri_encode_clean)

interpretation form: text_codec form_encode "\<lambda>s. Some (form_decode s)" valid_text form_clean
  by unfold_locales (simp add: form_decode_encode, auto simp: form_clean_def dest: form_encode_chars)

section \<open>\<open>URLSearchParams\<close>\<close>

text \<open>A parameter list: names and values in order, a name may repeat.\<close>

type_synonym query_params = "(string \<times> string) list"

definition params_get :: "query_params \<Rightarrow> string \<Rightarrow> string option" where
  "params_get ps k = map_of ps k"

fun params_set :: "string \<Rightarrow> string \<Rightarrow> query_params \<Rightarrow> query_params" where
  "params_set k v [] = [(k, v)]"
| "params_set k v ((j, w) # ps) =
     (if j = k then (k, v) # filter (\<lambda>p. fst p \<noteq> k) ps else (j, w) # params_set k v ps)"

definition params_delete :: "string \<Rightarrow> query_params \<Rightarrow> query_params" where
  "params_delete k ps = filter (\<lambda>p. fst p \<noteq> k) ps"

definition params_parse :: "string \<Rightarrow> query_params" where
  "params_parse q = map (\<lambda>part. (form_decode (takeWhile (\<lambda>c. c \<noteq> CHR ''='') part),
       form_decode (drop 1 (dropWhile (\<lambda>c. c \<noteq> CHR ''='') part))))
     (filter (\<lambda>part. part \<noteq> []) (split_on CHR ''&'' q))"

definition params_string :: "query_params \<Rightarrow> string" where
  "params_string ps = join ''&'' (map (\<lambda>(k, v). form_encode k @ ''='' @ form_encode v) ps)"

lemma params_set_get: "map_of (params_set k v ps) = (map_of ps)(k \<mapsto> v)"
proof (induction k v ps rule: params_set.induct)
  case (2 k v j w ps)
  have "map_of (filter (\<lambda>p. fst p \<noteq> k) ps) x = (if x = k then None else map_of ps x)" for x
    by (induction ps) auto
  thus ?case using 2 by (auto simp: fun_eq_iff)
qed simp

lemma params_delete_get: "map_of (params_delete k ps) = (map_of ps)(k := None)"
  by (rule ext) (induction ps; auto simp: params_delete_def)

interpretation params: keyed_store params_get params_set params_delete
  by unfold_locales (simp_all add: params_get_def [abs_def] params_set_get params_delete_get)

text \<open>What a list of parameters is written to is read back.\<close>

lemma pair_part:
  "form_decode (takeWhile (\<lambda>c. c \<noteq> CHR ''='') (form_encode k @ CHR ''='' # form_encode v)) = form_decode (form_encode k)"
  "form_decode (drop 1 (dropWhile (\<lambda>c. c \<noteq> CHR ''='') (form_encode k @ CHR ''='' # form_encode v))) = form_decode (form_encode v)"
proof -
  have "\<not> form_clean CHR ''=''" by (auto simp: form_clean_def dest: form_safe_neq)
  from form.cut_pair [OF this, of k "form_encode v"]
  show "form_decode (takeWhile (\<lambda>c. c \<noteq> CHR ''='') (form_encode k @ CHR ''='' # form_encode v)) = form_decode (form_encode k)"
    "form_decode (drop 1 (dropWhile (\<lambda>c. c \<noteq> CHR ''='') (form_encode k @ CHR ''='' # form_encode v))) = form_decode (form_encode v)"
    by simp_all
qed

lemma params_roundtrip:
  assumes "\<forall>(k, v) \<in> set ps. valid_text k \<and> valid_text v"
  shows "params_parse (params_string ps) = ps"
proof (cases "ps = []")
  case True thus ?thesis by (simp add: params_parse_def params_string_def)
next
  case False
  let ?parts = "map (\<lambda>(k, v). form_encode k @ ''='' @ form_encode v) ps"
  have n: "\<not> form_clean CHR ''&''" by (auto simp: form_clean_def dest: form_safe_neq)
  have "\<forall>p \<in> set ?parts. CHR ''&'' \<notin> set p" using form.encode_avoids [OF n] by auto
  hence s: "split_on CHR ''&'' (params_string ps) = ?parts"
    unfolding params_string_def using False by (intro split_on_join) auto
  have "filter (\<lambda>part. part \<noteq> []) ?parts = ?parts" by (auto simp: filter_id_conv)
  hence "params_parse (params_string ps) = map ((\<lambda>part. (form_decode (takeWhile (\<lambda>c. c \<noteq> CHR ''='') part),
       form_decode (drop 1 (dropWhile (\<lambda>c. c \<noteq> CHR ''='') part)))) \<circ> (\<lambda>(k, v). form_encode k @ ''='' @ form_encode v)) ps"
    unfolding params_parse_def s by simp
  also have "\<dots> = map id ps"
    using assms by (intro map_cong) (auto simp: pair_part [simplified] form_decode_encode)
  finally show ?thesis by simp
qed

lemma params_string_chars: "c \<in> set (params_string ps) \<Longrightarrow> form_clean c \<or> c = CHR ''='' \<or> c = CHR ''&''"
proof -
  have j: "c \<in> set (join sep xs) \<Longrightarrow> c \<in> set sep \<or> (\<exists>x \<in> set xs. c \<in> set x)" for sep xs
    by (induction sep xs rule: join.induct) auto
  show "c \<in> set (params_string ps) \<Longrightarrow> ?thesis"
    unfolding params_string_def using j [of "''&''"] form.encode_clean by fastforce
qed

end
