(* ===== verification/Web_Url.thy ===== *)
theory Web_Url
  imports Web_Text
begin

text \<open>
  The browser's \<open>URL\<close> class for the schemes share links use. All of them are non-special in
  the sense of the URL standard (\<open>vless\<close>, \<open>trojan\<close>, \<open>ss\<close>, \<open>hysteria2\<close>, \<open>wireguard\<close>, \<open>tg\<close>), so a
  host is opaque unless it is an IPv6 literal, and there is no default port. The parser of IPv6
  literals is a parameter (\<open>ipv6\<close>: the canonical text of a literal without its brackets).
\<close>

record url =
  u_scheme :: string
  u_username :: string
  u_password :: string
  u_host :: "string option"
  u_port :: "nat option"
  u_path :: string
  u_query :: "string option"
  u_fragment :: "string option"

section \<open>Character classes\<close>

definition c0_set :: "char \<Rightarrow> bool" where
  "c0_set c \<longleftrightarrow> code c < 32 \<or> 126 < code c"

definition fragment_set :: "char \<Rightarrow> bool" where
  "fragment_set c \<longleftrightarrow> c0_set c \<or> code c \<in> {32, 34, 60, 62, 96}"

definition query_set :: "char \<Rightarrow> bool" where
  "query_set c \<longleftrightarrow> c0_set c \<or> code c \<in> {32, 34, 35, 60, 62}"

definition path_set :: "char \<Rightarrow> bool" where
  "path_set c \<longleftrightarrow> query_set c \<or> code c \<in> {63, 94, 96, 123, 125}"

definition userinfo_set :: "char \<Rightarrow> bool" where
  "userinfo_set c \<longleftrightarrow> path_set c \<or> code c \<in> {47, 58, 59, 61, 64, 91, 92, 93, 94, 124}"

definition forbidden_host :: "char \<Rightarrow> bool" where
  "forbidden_host c \<longleftrightarrow> code c \<in> {0, 9, 10, 13, 32, 35, 47, 58, 60, 62, 63, 64, 91, 92, 93, 94, 124}"

definition special_schemes :: "string list" where
  "special_schemes = [''http'', ''https'', ''ws'', ''wss'', ''ftp'', ''file'']"

section \<open>Parsing\<close>

definition strip_url :: "string \<Rightarrow> string" where
  "strip_url s = filter (\<lambda>c. code c \<noteq> 9 \<and> code c \<noteq> 10 \<and> code c \<noteq> 13)
     (rev (dropWhile (\<lambda>c. code c \<le> 32) (rev (dropWhile (\<lambda>c. code c \<le> 32) s))))"

text \<open>The text before the first separator, and the text after it when there is one.\<close>

definition cut_at :: "char \<Rightarrow> string \<Rightarrow> string \<times> string option" where
  "cut_at c s =
     (case dropWhile (\<lambda>d. d \<noteq> c) s of [] \<Rightarrow> (s, None) | _ # r \<Rightarrow> (takeWhile (\<lambda>d. d \<noteq> c) s, Some r))"

definition alpha :: "char \<Rightarrow> bool" where
  "alpha c \<longleftrightarrow> is_lower c \<or> is_upper c"

definition scheme_char :: "char \<Rightarrow> bool" where
  "scheme_char c \<longleftrightarrow> alnum c \<or> code c \<in> {43, 45, 46}"

definition parse_scheme :: "string \<Rightarrow> (string \<times> string) option" where
  "parse_scheme s =
     (case cut_at CHR '':'' s of
        (c # sc, Some r) \<Rightarrow> if alpha c \<and> list_all scheme_char sc then Some (to_lower (c # sc), r) else None
      | _ \<Rightarrow> None)"

definition opaque_host :: "(string \<Rightarrow> string option) \<Rightarrow> string \<Rightarrow> string option" where
  "opaque_host ipv6 h =
     (if take 1 h = ''['' then
        (let r = drop 1 h
         in if r \<noteq> [] \<and> last r = CHR '']'' then map_option (\<lambda>t. ''['' @ t @ '']'') (ipv6 (butlast r)) else None)
      else if list_ex forbidden_host h then None else Some (encode_set c0_set h))"

text \<open>The host ends at the first \<open>:\<close> outside brackets.\<close>

fun cut_port :: "bool \<Rightarrow> string \<Rightarrow> string \<times> string option" where
  "cut_port inside [] = ([], None)"
| "cut_port inside (c # s) =
     (if c = CHR '':'' \<and> \<not> inside then ([], Some s)
      else apfst ((#) c) (cut_port (if c = CHR ''['' then True else if c = CHR '']'' then False else inside) s))"

definition parse_port :: "string \<Rightarrow> nat option option" where
  "parse_port s =
     (if s = [] then Some None
      else if list_all is_digit s \<and> digits_val 10 s \<le> 65535 then Some (Some (digits_val 10 s)) else None)"

definition parse_userinfo :: "string \<Rightarrow> string \<times> string" where
  "parse_userinfo s =
     (let (name, pw) = cut_at CHR '':'' s
      in (encode_set userinfo_set name, encode_set userinfo_set (case pw of None \<Rightarrow> [] | Some p \<Rightarrow> p)))"

text \<open>\<open>user:password@host:port\<close>: the last \<open>@\<close> ends the user information.\<close>

definition parse_authority :: "(string \<Rightarrow> string option) \<Rightarrow> string \<Rightarrow> (string \<times> string \<times> string \<times> nat option) option" where
  "parse_authority ipv6 s =
     (let (info, rest) = (case last_index_of CHR ''@'' s of None \<Rightarrow> (None, s) | Some i \<Rightarrow> (Some (take i s), drop (Suc i) s));
          (name, pw) = (case info of None \<Rightarrow> ([], []) | Some t \<Rightarrow> parse_userinfo t);
          (h, p) = cut_port False rest
      in if (info \<noteq> None \<and> rest = []) \<or> (h = [] \<and> p \<noteq> None) then None
         else case (opaque_host ipv6 h, parse_port (case p of None \<Rightarrow> [] | Some t \<Rightarrow> t)) of
           (Some host, Some port) \<Rightarrow> Some (name, pw, host, port)
         | _ \<Rightarrow> None)"

text \<open>Dot segments of a path are resolved.\<close>

definition single_dot :: "string \<Rightarrow> bool" where
  "single_dot s \<longleftrightarrow> to_lower s \<in> {''.'', ''%2e''}"

definition double_dot :: "string \<Rightarrow> bool" where
  "double_dot s \<longleftrightarrow> to_lower s \<in> {''..'', ''.%2e'', ''%2e.'', ''%2e%2e''}"

fun path_segments :: "string list \<Rightarrow> string list \<Rightarrow> string list" where
  "path_segments acc [] = acc"
| "path_segments acc (s # ss) =
     (if double_dot s then path_segments (butlast acc @ (if ss = [] then [[]] else [])) ss
      else if single_dot s then path_segments (acc @ (if ss = [] then [[]] else [])) ss
      else path_segments (acc @ [encode_set path_set s]) ss)"

definition parse_path :: "string \<Rightarrow> string" where
  "parse_path s =
     (case s of [] \<Rightarrow> []
      | _ # r \<Rightarrow> concat (map ((#) CHR ''/'') (path_segments [] (split_on CHR ''/'' r))))"

definition url_parse :: "(string \<Rightarrow> string option) \<Rightarrow> string \<Rightarrow> url option" where
  "url_parse ipv6 input =
     (case parse_scheme (strip_url input) of
        None \<Rightarrow> None
      | Some (scheme, rest) \<Rightarrow>
          if scheme \<in> set special_schemes then None
          else
            (let (rest, frag) = cut_at CHR ''#'' rest; (body, query) = cut_at CHR ''?'' rest;
                 mk = (\<lambda>name pw host port path.
                   \<lparr>u_scheme = scheme, u_username = name, u_password = pw, u_host = host, u_port = port, u_path = path,
                    u_query = map_option (encode_set query_set) query, u_fragment = map_option (encode_set fragment_set) frag\<rparr>)
             in if starts_with body ''//'' then
                  (let (auth, path) = (case index_of CHR ''/'' (drop 2 body) of
                       None \<Rightarrow> (drop 2 body, []) | Some i \<Rightarrow> (take i (drop 2 body), drop i (drop 2 body)))
                   in map_option (\<lambda>(name, pw, host, port). mk name pw (Some host) port (parse_path path))
                        (parse_authority ipv6 auth))
                else if starts_with body ''/'' then Some (mk [] [] None None (parse_path body))
                else Some (mk [] [] None None (encode_set c0_set body))))"

section \<open>Getters, setters, serialisation\<close>

definition url_protocol :: "url \<Rightarrow> string" where "url_protocol u = u_scheme u @ '':''"

definition url_hostname :: "url \<Rightarrow> string" where "url_hostname u = (case u_host u of None \<Rightarrow> [] | Some h \<Rightarrow> h)"

definition url_port :: "url \<Rightarrow> string" where "url_port u = (case u_port u of None \<Rightarrow> [] | Some p \<Rightarrow> nat_str p)"

definition url_hash :: "url \<Rightarrow> string" where
  "url_hash u = (case u_fragment u of None \<Rightarrow> [] | Some f \<Rightarrow> if f = [] then [] else CHR ''#'' # f)"

definition searchParams :: "url \<Rightarrow> query_params" where
  "searchParams u = (case u_query u of None \<Rightarrow> [] | Some q \<Rightarrow> params_parse q)"

text \<open>\<open>url.searchParams.set\<close> writes the list back into the query.\<close>

definition search_set :: "string \<Rightarrow> string \<Rightarrow> url \<Rightarrow> url" where
  "search_set k v u = u\<lparr>u_query := Some (params_string (params_set k v (searchParams u)))\<rparr>"

definition set_hash :: "string \<Rightarrow> url \<Rightarrow> url" where
  "set_hash v u =
     (if v = [] then u\<lparr>u_fragment := None\<rparr>
      else (let t = (if take 1 v = ''#'' then drop 1 v else v)
            in u\<lparr>u_fragment := Some (encode_set fragment_set (filter (\<lambda>c. code c \<noteq> 9 \<and> code c \<noteq> 10 \<and> code c \<noteq> 13) t))\<rparr>))"

definition set_username :: "string \<Rightarrow> url \<Rightarrow> url" where
  "set_username v u = (if url_hostname u = [] then u else u\<lparr>u_username := encode_set userinfo_set v\<rparr>)"

definition url_string :: "url \<Rightarrow> string" where
  "url_string u =
     u_scheme u @ '':''
     @ (case u_host u of
          None \<Rightarrow> (if starts_with (u_path u) ''//'' then ''/.'' else [])
        | Some h \<Rightarrow> ''//''
            @ (if u_username u \<noteq> [] \<or> u_password u \<noteq> []
               then u_username u @ (if u_password u \<noteq> [] then CHR '':'' # u_password u else []) @ ''@'' else [])
            @ h @ (case u_port u of None \<Rightarrow> [] | Some p \<Rightarrow> CHR '':'' # nat_str p))
     @ u_path u
     @ (case u_query u of None \<Rightarrow> [] | Some q \<Rightarrow> CHR ''?'' # q)
     @ (case u_fragment u of None \<Rightarrow> [] | Some f \<Rightarrow> CHR ''#'' # f)"

section \<open>A URL is read back from its text\<close>

definition printable :: "char \<Rightarrow> bool" where
  "printable c \<longleftrightarrow> 32 < code c \<and> code c \<le> 126"

definition plain_host :: "string \<Rightarrow> bool" where
  "plain_host h \<longleftrightarrow> h \<noteq> [] \<and> list_all (\<lambda>c. printable c \<and> \<not> forbidden_host c) h"

definition literal_host :: "(string \<Rightarrow> string option) \<Rightarrow> string \<Rightarrow> bool" where
  "literal_host ipv6 h \<longleftrightarrow>
     (\<exists>t. h = ''['' @ t @ '']'' \<and> t \<noteq> [] \<and> ipv6 t = Some t \<and> list_all (\<lambda>c. is_hex c \<or> c = CHR '':'' \<or> c = CHR ''.'') t)"

definition link_host :: "(string \<Rightarrow> string option) \<Rightarrow> string \<Rightarrow> bool" where
  "link_host ipv6 h \<longleftrightarrow> plain_host h \<or> literal_host ipv6 h"

definition scheme_ok :: "string \<Rightarrow> bool" where
  "scheme_ok s \<longleftrightarrow> s \<noteq> [] \<and> list_all is_lower (take 1 s) \<and> list_all (\<lambda>c. is_lower c \<or> is_digit c) s \<and> s \<notin> set special_schemes"

text \<open>The URLs of share links: everything already percent-encoded where it has to be.\<close>

definition link_url :: "(string \<Rightarrow> string option) \<Rightarrow> url \<Rightarrow> bool" where
  "link_url ipv6 u \<longleftrightarrow>
     scheme_ok (u_scheme u) \<and> list_all (\<lambda>c. \<not> userinfo_set c) (u_username u) \<and> u_password u = []
     \<and> (case u_host u of None \<Rightarrow> False | Some h \<Rightarrow> link_host ipv6 h)
     \<and> (case u_port u of None \<Rightarrow> True | Some p \<Rightarrow> p \<le> 65535) \<and> u_path u = []
     \<and> (case u_query u of None \<Rightarrow> True | Some q \<Rightarrow> list_all (\<lambda>c. \<not> query_set c) q)
     \<and> (case u_fragment u of None \<Rightarrow> True | Some f \<Rightarrow> list_all (\<lambda>c. \<not> fragment_set c) f)"

lemma printable_iff: "printable c \<longleftrightarrow> \<not> c0_set c \<and> code c \<noteq> 32"
  unfolding printable_def c0_set_def by linarith

lemma encode_set_id: "list_all (\<lambda>c. \<not> P c) s \<Longrightarrow> encode_set P s = s"
  by (induction s) (simp_all add: encode_set_Cons)

lemma strip_printable: "list_all printable s \<Longrightarrow> strip_url s = s"
proof -
  assume a: "list_all printable s"
  hence "dropWhile (\<lambda>c. code c \<le> 32) s = s" by (cases s) (auto simp: printable_def)
  moreover have "dropWhile (\<lambda>c. code c \<le> 32) (rev s) = rev s" using a by (cases "rev s") (auto simp: printable_def list_all_iff)
  ultimately show ?thesis using a by (auto simp: strip_url_def list_all_iff printable_def filter_id_conv)
qed

lemma cut_at_sep: "c \<notin> set p \<Longrightarrow> cut_at c (p @ c # r) = (p, Some r)"
proof -
  assume "c \<notin> set p"
  hence "\<forall>d \<in> set p. d \<noteq> c" by blast
  thus ?thesis by (simp add: cut_at_def takeWhile_append dropWhile_append)
qed

lemma cut_at_none: "c \<notin> set p \<Longrightarrow> cut_at c p = (p, None)"
proof -
  assume "c \<notin> set p"
  hence "dropWhile (\<lambda>d. d \<noteq> c) p = []" by (auto simp: dropWhile_eq_Nil_conv)
  thus ?thesis unfolding cut_at_def by (simp only: list.case)
qed

text \<open>A suffix that is absent, or present after its separator.\<close>

definition opt_suffix :: "char \<Rightarrow> string option \<Rightarrow> string" where
  "opt_suffix c x = (case x of None \<Rightarrow> [] | Some t \<Rightarrow> c # t)"

lemma cut_at_opt: "c \<notin> set p \<Longrightarrow> cut_at c (p @ opt_suffix c x) = (p, x)"
  by (cases x) (simp_all add: opt_suffix_def cut_at_sep cut_at_none)

lemma parse_scheme_ok:
  assumes "scheme_ok sc" shows "parse_scheme (sc @ CHR '':'' # r) = Some (sc, r)"
proof -
  have a: "list_all (\<lambda>c. is_lower c \<or> is_digit c) sc" using assms by (simp add: scheme_ok_def)
  hence n: "CHR '':'' \<notin> set sc" by (auto simp: list_all_iff is_lower_def is_digit_def)
  have l: "to_lower sc = sc"
    using a by (auto simp: to_lower_def list_all_iff lower_char_def is_upper_def is_lower_def is_digit_def intro!: map_idI)
  obtain c t where s: "sc = c # t" using assms by (cases sc) (auto simp: scheme_ok_def)
  have "alpha c" "list_all scheme_char t" using assms s a by (auto simp: scheme_ok_def alpha_def scheme_char_def alnum_def list_all_iff)
  thus ?thesis unfolding parse_scheme_def cut_at_sep [OF n] using s l by simp
qed

lemma digits_no: "is_digit c \<Longrightarrow> c \<noteq> CHR '':'' \<and> c \<noteq> CHR ''@'' \<and> c \<noteq> CHR ''/'' \<and> c \<noteq> CHR ''?'' \<and> c \<noteq> CHR ''#'' \<and> printable c"
  by (auto simp: is_digit_def printable_def)

lemma parse_port_str: "p \<le> 65535 \<Longrightarrow> parse_port (nat_str p) = Some (Some p)"
  using nat_str_digits by (auto simp: parse_port_def list_all_iff)

lemma cut_port_plain: "CHR '':'' \<notin> set h \<Longrightarrow> CHR ''['' \<notin> set h \<Longrightarrow> cut_port False (h @ opt_suffix CHR '':'' x) = (h, x)"
proof (induction h)
  case Nil thus ?case by (cases x) (simp_all add: opt_suffix_def)
qed auto

lemma cut_port_inside: "CHR '']'' \<notin> set t \<Longrightarrow> cut_port True (t @ CHR '']'' # r) = apfst ((@) (t @ '']'')) (cut_port False r)"
proof (induction t)
  case Nil thus ?case by (cases "cut_port False r") simp
next
  case (Cons c t) thus ?case by (cases "cut_port False r") auto
qed

lemma cut_port_literal:
  "CHR '']'' \<notin> set t \<Longrightarrow> cut_port False ((''['' @ t @ '']'') @ opt_suffix CHR '':'' x) = (''['' @ t @ '']'', x)"
  using cut_port_inside [of t "opt_suffix CHR '':'' x"] by (cases x) (simp_all add: opt_suffix_def)

lemma link_host_chars:
  assumes "link_host ipv6 h" "c \<in> set h"
  shows "c \<noteq> CHR ''@''" "c \<noteq> CHR ''/''" "c \<noteq> CHR ''?''" "c \<noteq> CHR ''#''" "printable c"
proof -
  have "c \<noteq> CHR ''@'' \<and> c \<noteq> CHR ''/'' \<and> c \<noteq> CHR ''?'' \<and> c \<noteq> CHR ''#'' \<and> printable c"
  proof (cases "plain_host h")
    case True
    hence "printable c" "\<not> forbidden_host c" using assms(2) by (auto simp: plain_host_def list_all_iff)
    thus ?thesis by (auto simp: forbidden_host_def)
  next
    case False
    then obtain t where t: "h = ''['' @ t @ '']''" "list_all (\<lambda>c. is_hex c \<or> c = CHR '':'' \<or> c = CHR ''.'') t"
      using assms(1) by (auto simp: link_host_def literal_host_def)
    have "c = CHR ''['' \<or> c = CHR '']'' \<or> is_hex c \<or> c = CHR '':'' \<or> c = CHR ''.''" using t assms(2) by (auto simp: list_all_iff)
    thus ?thesis by (elim disjE) (auto simp: is_hex_def is_digit_def printable_def)
  qed
  thus "c \<noteq> CHR ''@''" "c \<noteq> CHR ''/''" "c \<noteq> CHR ''?''" "c \<noteq> CHR ''#''" "printable c" by blast+
qed

lemma link_host_parse:
  assumes "link_host ipv6 h"
  shows "cut_port False (h @ opt_suffix CHR '':'' x) = (h, x)" "opaque_host ipv6 h = Some h" "h \<noteq> []"
proof -
  have "cut_port False (h @ opt_suffix CHR '':'' x) = (h, x) \<and> opaque_host ipv6 h = Some h \<and> h \<noteq> []"
  proof (cases "plain_host h")
    case True
    hence a: "h \<noteq> []" "\<forall>c \<in> set h. printable c \<and> \<not> forbidden_host c" by (auto simp: plain_host_def list_all_iff)
    hence n: "CHR '':'' \<notin> set h" "CHR ''['' \<notin> set h" by (auto simp: forbidden_host_def)
    have e: "encode_set c0_set h = h" using a by (intro encode_set_id) (auto simp: list_all_iff printable_def c0_set_def)
    have x: "\<not> list_ex forbidden_host h" using a by (auto simp: list_ex_iff)
    obtain c t where h: "h = c # t" using a by (cases h) auto
    have "c \<noteq> CHR ''[''" using n h by auto
    hence "opaque_host ipv6 h = Some h" using e x h by (auto simp: opaque_host_def)
    thus ?thesis using cut_port_plain [OF n] a by blast
  next
    case False
    then obtain t where t: "h = ''['' @ t @ '']''" "t \<noteq> []" "ipv6 t = Some t" "list_all (\<lambda>c. is_hex c \<or> c = CHR '':'' \<or> c = CHR ''.'') t"
      using assms by (auto simp: link_host_def literal_host_def)
    have "CHR '']'' \<notin> set t" using t(4) by (auto simp: list_all_iff is_hex_def is_digit_def)
    from cut_port_literal [OF this] show ?thesis using t by (auto simp: opaque_host_def)
  qed
  thus "cut_port False (h @ opt_suffix CHR '':'' x) = (h, x)" "opaque_host ipv6 h = Some h" "h \<noteq> []" by blast+
qed

lemma last_index_of_none: "c \<notin> set s \<Longrightarrow> last_index_of c s = None"
  by (simp add: last_index_of_def index_of_None)

lemma userinfo_chars: "\<not> userinfo_set c \<Longrightarrow> printable c \<and> c \<noteq> CHR '':'' \<and> c \<noteq> CHR ''@'' \<and> c \<noteq> CHR ''/'' \<and> c \<noteq> CHR ''?'' \<and> c \<noteq> CHR ''#''"
  by (auto simp: userinfo_set_def path_set_def query_set_def printable_iff)

definition authority_string :: "string \<Rightarrow> string \<Rightarrow> nat option \<Rightarrow> string" where
  "authority_string name h p = (if name \<noteq> [] then name @ ''@'' else []) @ h @ opt_suffix CHR '':'' (map_option nat_str p)"

lemma hostport_no_at:
  assumes "link_host ipv6 h" shows "CHR ''@'' \<notin> set (h @ opt_suffix CHR '':'' (map_option nat_str p))"
  using link_host_chars(1) [OF assms] nat_str_digits digits_no by (cases p) (auto simp: opt_suffix_def)

lemma parse_authority_string:
  assumes "link_host ipv6 h" "list_all (\<lambda>c. \<not> userinfo_set c) name" "case p of None \<Rightarrow> True | Some n \<Rightarrow> n \<le> 65535"
  shows "parse_authority ipv6 (authority_string name h p) = Some (name, [], h, p)"
proof -
  let ?hp = "h @ opt_suffix CHR '':'' (map_option nat_str p)"
  have no: "CHR ''@'' \<notin> set ?hp" by (rule hostport_no_at [OF assms(1)])
  have port: "parse_port (case map_option nat_str p of None \<Rightarrow> [] | Some t \<Rightarrow> t) = Some p"
    using assms(3) by (cases p) (simp_all add: parse_port_str, simp add: parse_port_def)
  note hp = link_host_parse [OF assms(1)]
  have ne: "?hp \<noteq> []" using hp(3) by simp
  show ?thesis
  proof (cases "name = []")
    case True
    thus ?thesis
      using no last_index_of_none [of "CHR ''@''" ?hp] hp port by (simp add: parse_authority_def authority_string_def Let_def)
  next
    case False
    have "CHR '':'' \<notin> set name" using assms(2) userinfo_chars by (auto simp: list_all_iff)
    hence "parse_userinfo name = (name, [])" using assms(2) by (simp add: parse_userinfo_def cut_at_none encode_set_id)
    thus ?thesis using False last_index_of_append [OF no, of name] hp port ne
      by (simp add: parse_authority_def authority_string_def Let_def)
  qed
qed

lemma url_string_link:
  assumes "link_url ipv6 u" "u_host u = Some h"
  shows "url_string u = u_scheme u @ CHR '':'' # (((''//'' @ authority_string (u_username u) h (u_port u))
      @ opt_suffix CHR ''?'' (u_query u)) @ opt_suffix CHR ''#'' (u_fragment u))"
  using assms by (simp add: url_string_def link_url_def authority_string_def opt_suffix_def split: option.split)

lemma authority_chars:
  assumes "link_host ipv6 h" "list_all (\<lambda>c. \<not> userinfo_set c) name" "c \<in> set (authority_string name h p)"
  shows "c \<noteq> CHR ''/''" "c \<noteq> CHR ''?''" "c \<noteq> CHR ''#''" "printable c"
proof -
  consider "c \<in> set name" | "c = CHR ''@''" | "c \<in> set h" | "c = CHR '':''" | n where "p = Some n" "c \<in> set (nat_str n)"
    using assms(3) by (auto simp: authority_string_def opt_suffix_def split: if_splits option.splits)
  hence "c \<noteq> CHR ''/'' \<and> c \<noteq> CHR ''?'' \<and> c \<noteq> CHR ''#'' \<and> printable c"
  proof cases
    case 1 thus ?thesis using assms(2) userinfo_chars by (auto simp: list_all_iff)
  next
    case 3 thus ?thesis using link_host_chars [OF assms(1)] by blast
  next
    case 5 thus ?thesis using nat_str_digits digits_no by blast
  qed (auto simp: printable_def)
  thus "c \<noteq> CHR ''/''" "c \<noteq> CHR ''?''" "c \<noteq> CHR ''#''" "printable c" by blast+
qed

lemma scheme_printable: "scheme_ok s \<Longrightarrow> list_all printable s"
  by (auto simp: scheme_ok_def list_all_iff printable_def is_lower_def is_digit_def)

lemma query_chars: "\<not> query_set c \<Longrightarrow> printable c \<and> c \<noteq> CHR ''#''"
  by (auto simp: query_set_def printable_iff)

lemma fragment_chars: "\<not> fragment_set c \<Longrightarrow> printable c"
  by (auto simp: fragment_set_def printable_iff)

lemma opt_suffix_chars: "d \<in> set (opt_suffix c x) \<Longrightarrow> d = c \<or> (\<exists>t. x = Some t \<and> d \<in> set t)"
  by (cases x) (auto simp: opt_suffix_def)

lemma url_string_printable:
  assumes "link_url ipv6 u" shows "list_all printable (url_string u)"
proof -
  obtain h where h: "u_host u = Some h" "link_host ipv6 h" using assms by (auto simp: link_url_def split: option.splits)
  have un: "list_all (\<lambda>c. \<not> userinfo_set c) (u_username u)" and sc: "scheme_ok (u_scheme u)" using assms by (auto simp: link_url_def)
  have q: "\<And>t c. u_query u = Some t \<Longrightarrow> c \<in> set t \<Longrightarrow> \<not> query_set c"
    and f: "\<And>t c. u_fragment u = Some t \<Longrightarrow> c \<in> set t \<Longrightarrow> \<not> fragment_set c"
    using assms by (auto simp: link_url_def list_all_iff)
  show ?thesis
    unfolding url_string_link [OF assms h(1)]
    using scheme_printable [OF sc] authority_chars(4) [OF h(2) un] query_chars [OF q] fragment_chars [OF f]
    by (auto simp: list_all_iff printable_def dest!: opt_suffix_chars)
qed

theorem url_roundtrip:
  assumes "link_url ipv6 u"
  shows "url_parse ipv6 (url_string u) = Some u"
proof -
  obtain h where h: "u_host u = Some h" "link_host ipv6 h" using assms by (auto simp: link_url_def split: option.splits)
  let ?a = "authority_string (u_username u) h (u_port u)"
  have un: "list_all (\<lambda>c. \<not> userinfo_set c) (u_username u)" and sc: "scheme_ok (u_scheme u)"
    and pw: "u_password u = []" and path: "u_path u = []"
    and port: "case u_port u of None \<Rightarrow> True | Some n \<Rightarrow> n \<le> 65535" using assms by (auto simp: link_url_def)
  have q: "\<And>t c. u_query u = Some t \<Longrightarrow> c \<in> set t \<Longrightarrow> \<not> query_set c"
    and f: "\<And>t c. u_fragment u = Some t \<Longrightarrow> c \<in> set t \<Longrightarrow> \<not> fragment_set c"
    using assms by (auto simp: link_url_def list_all_iff)
  note ac = authority_chars [OF h(2) un]
  have "list_all printable (url_string u)" by (rule url_string_printable [OF assms])
  hence strip: "strip_url (url_string u) = url_string u" by (rule strip_printable)
  have nohash: "CHR ''#'' \<notin> set ((''//'' @ ?a) @ opt_suffix CHR ''?'' (u_query u))"
    using ac(3) query_chars [OF q] by (auto dest!: opt_suffix_chars)
  have noq: "CHR ''?'' \<notin> set (''//'' @ ?a)" using ac(2) by auto
  have nos: "index_of CHR ''/'' ?a = None" using ac(1) by (auto simp: index_of_None)
  have eq: "map_option (encode_set query_set) (u_query u) = u_query u"
    using q by (cases "u_query u") (auto simp: encode_set_id list_all_iff)
  have ef: "map_option (encode_set fragment_set) (u_fragment u) = u_fragment u"
    using f by (cases "u_fragment u") (auto simp: encode_set_id list_all_iff)
  have ns: "u_scheme u \<notin> set special_schemes" using sc by (simp add: scheme_ok_def)
  have ps: "parse_scheme (strip_url (url_string u)) = Some (u_scheme u, ((''//'' @ ?a)
      @ opt_suffix CHR ''?'' (u_query u)) @ opt_suffix CHR ''#'' (u_fragment u))"
    unfolding strip unfolding url_string_link [OF assms h(1)] by (rule parse_scheme_ok [OF sc])
  have au: "parse_authority ipv6 ?a = Some (u_username u, [], h, u_port u)" by (rule parse_authority_string [OF h(2) un port])
  show ?thesis
    unfolding url_parse_def ps option.case prod.case if_not_P [OF ns] cut_at_opt [OF nohash] Let_def cut_at_opt [OF noq]
    using nos au eq ef h(1) pw path by (simp add: parse_path_def)
qed

end
