(* ===== verification/Json_Pretty.thy ===== *)
theory Json_Pretty
  imports Json_Text
begin

text \<open>
  \<open>JSON.stringify(value, null, 2)\<close>: the text of \<^const>\<open>JSON_stringify\<close> with one member or element
  per line, indented by two blanks per level.
\<close>

definition newline :: "nat \<Rightarrow> string" where
  "newline d = CHR 10 # replicate (2 * d) CHR '' ''"

function (sequential) JSON_pretty :: "nat \<Rightarrow> jv \<Rightarrow> string option" where
  "JSON_pretty d (JArr xs) =
     (if xs = [] then Some ''[]''
      else Some (''['' @ newline (Suc d)
        @ join ('','' @ newline (Suc d)) (map (\<lambda>x. case JSON_pretty (Suc d) x of None \<Rightarrow> ''null'' | Some t \<Rightarrow> t) xs)
        @ newline d @ '']''))"
| "JSON_pretty d (JObj ps) =
     (let ms = concat (map (\<lambda>k. case map_of ps k of None \<Rightarrow> [] | Some v \<Rightarrow>
            (case JSON_pretty (Suc d) v of None \<Rightarrow> [] | Some t \<Rightarrow> [json_quote k @ '': '' @ t])) (js_keys ps))
      in if ms = [] then Some ''{}''
         else Some (''{'' @ newline (Suc d) @ join ('','' @ newline (Suc d)) ms @ newline d @ ''}''))"
| "JSON_pretty d v = JSON_stringify v"
  by pat_completeness auto

termination
proof (relation "measure (size \<circ> snd)")
  fix d :: nat and x :: jv and xs assume "x \<in> set xs"
  then show "((Suc d, x), d, JArr xs) \<in> measure (size \<circ> snd)" by (induction xs) auto
next
  fix d :: nat and ps :: jobj and k and v :: jv assume "map_of ps k = Some v"
  from map_of_size [OF this] show "((Suc d, v), d, JObj ps) \<in> measure (size \<circ> snd)" by simp
qed simp

section \<open>Reading an indented text\<close>

text \<open>Values as \<open>JSON.parse\<close> delivers them: integers a double holds, objects in the order of
  \<open>Object.keys\<close>.\<close>

fun json_value :: "jv \<Rightarrow> bool" where
  "json_value JUndef = False"
| "json_value JNull = True"
| "json_value (JBool b) = True"
| "json_value (JNum n) = wf_json (JNum n)"
| "json_value (JStr s) = True"
| "json_value (JArr xs) = (\<forall>x \<in> set xs. json_value x)"
| "json_value (JObj ps) = (wf_obj ps \<and> js_keys ps = okeys ps \<and> (\<forall>p \<in> set ps. json_value (snd p)))"

definition pretty :: "nat \<Rightarrow> jv \<Rightarrow> string" where
  "pretty d v = (case JSON_pretty d v of None \<Rightarrow> ''null'' | Some t \<Rightarrow> t)"

definition pretty_member :: "nat \<Rightarrow> string \<times> jv \<Rightarrow> string" where
  "pretty_member d p = json_quote (fst p) @ '': '' @ pretty d (snd p)"

lemma pretty_simps:
  "pretty d JNull = ''null''" "pretty d (JBool b) = (if b then ''true'' else ''false'')" "pretty d (JStr s) = json_quote s"
  "pretty d (JNum n) = written (JNum n)"
  "pretty d (JArr xs) = (if xs = [] then ''[]''
     else ''['' @ newline (Suc d) @ join ('','' @ newline (Suc d)) (map (pretty (Suc d)) xs) @ newline d @ '']'')"
  by (simp_all add: pretty_def [abs_def] written_def)

lemma pretty_some: "json_value v \<Longrightarrow> JSON_pretty d v = Some (pretty d v)"
  by (cases v) (simp_all add: pretty_def Let_def)

lemma pretty_object:
  assumes "json_value (JObj ps)"
  shows "pretty d (JObj ps) = (if ps = [] then ''{}''
    else ''{'' @ newline (Suc d) @ join ('','' @ newline (Suc d)) (map (pretty_member (Suc d)) ps) @ newline d @ ''}'')"
proof -
  have wf: "wf_obj ps" "js_keys ps = okeys ps" "\<forall>p \<in> set ps. json_value (snd p)" using assms by auto
  define m where "m = (\<lambda>k. case map_of ps k of None \<Rightarrow> [] | Some v \<Rightarrow>
        (case JSON_pretty (Suc d) v of None \<Rightarrow> [] | Some t \<Rightarrow> [json_quote k @ '': '' @ t]))"
  have "m (fst p) = [pretty_member (Suc d) p]" if "p \<in> set ps" for p
  proof -
    have "map_of ps (fst p) = Some (snd p)" using that wf(1) by (simp add: wf_obj_def)
    moreover have "JSON_pretty (Suc d) (snd p) = Some (pretty (Suc d) (snd p))" using that wf(3) pretty_some by blast
    ultimately show ?thesis by (simp add: m_def pretty_member_def)
  qed
  then have c: "concat (map m (okeys ps)) = map (pretty_member (Suc d)) ps"
    by (induction ps) auto
  show ?thesis
    unfolding pretty_def JSON_pretty.simps Let_def wf(2) m_def [symmetric] c by simp
qed

lemma skip_newline [simp]: "skip_ws (newline d @ s) = skip_ws s" "skip_ws (CHR '' '' # s) = skip_ws s"
  by (induction d) (auto simp: newline_def skip_ws_def json_space_def)

lemma parse_newline [simp]:
  "parse_value f (newline d @ s) = parse_value f s" "parse_value f (CHR '' '' # s) = parse_value f s"
  "parse_members f (newline d @ s) = parse_members f s"
  by (cases f; simp del: append.simps)+

lemma parse_elements_newline [simp]: "parse_elements f (newline d @ s) = parse_elements f s"
  by (cases f) simp_all

lemma value_end_newline: "value_end (newline d @ t)"
  by (simp add: value_end_def newline_def)

lemma parse_elements_pretty:
  assumes "\<And>x t f. x \<in> set xs \<Longrightarrow> value_end t \<Longrightarrow> 2 * length (pretty d x) \<le> f \<Longrightarrow> parse_value f (pretty d x @ t) = Some (x, t)"
    and "xs \<noteq> []" and "2 * length (join ('','' @ newline d) (map (pretty d) xs)) + 2 \<le> f"
  shows "parse_elements f (join ('','' @ newline d) (map (pretty d) xs) @ newline e @ CHR '']'' # t) = Some (xs, t)"
  using assms
proof (induction xs arbitrary: f)
  case Nil
  then show ?case by simp
next
  case (Cons x xs)
  obtain g where f: "f = Suc g" using Cons.prems(3) by (cases f) auto
  show ?case
  proof (cases xs)
    case Nil
    have "parse_value g (pretty d x @ newline e @ CHR '']'' # t) = Some (x, newline e @ CHR '']'' # t)"
      by (rule Cons.prems(1)) (use Cons.prems(3) f Nil value_end_newline in auto)
    then show ?thesis by (simp add: f Nil) (simp add: skip_ws_def json_space_def)
  next
    case (Cons y ys)
    let ?r = "join ('','' @ newline d) (map (pretty d) xs)"
    have len: "2 * (length (pretty d x) + 1 + length ?r) + 2 \<le> f"
      using Cons.prems(3) Cons by simp
    have "parse_value g (pretty d x @ CHR '','' # newline d @ ?r @ newline e @ CHR '']'' # t)
        = Some (x, CHR '','' # newline d @ ?r @ newline e @ CHR '']'' # t)"
      by (rule Cons.prems(1)) (use len f in \<open>auto simp: value_end_def\<close>)
    moreover have "parse_elements g (?r @ newline e @ CHR '']'' # t) = Some (xs, t)"
      by (rule Cons.IH) (use Cons.prems(1) len f Cons in auto)
    ultimately show ?thesis using Cons by (simp add: f) (simp add: skip_ws_def json_space_def)
  qed
qed

lemma pretty_member_quote:
  "pretty_member d p @ t = quote_char # concat (map json_char (fst p)) @ quote_char # CHR '':'' # CHR '' '' # pretty d (snd p) @ t"
  by (simp add: pretty_member_def json_quote_def)

lemma parse_members_pretty:
  assumes "\<And>p t f. p \<in> set ps \<Longrightarrow> value_end t \<Longrightarrow> 2 * length (pretty d (snd p)) \<le> f \<Longrightarrow>
      parse_value f (pretty d (snd p) @ t) = Some (snd p, t)"
    and "ps \<noteq> []" and "2 * length (join ('','' @ newline d) (map (pretty_member d) ps)) + 2 \<le> f"
  shows "parse_members f (join ('','' @ newline d) (map (pretty_member d) ps) @ newline e @ CHR ''}'' # t) = Some (ps, t)"
  using assms
proof (induction ps arbitrary: f)
  case Nil
  then show ?case by simp
next
  case (Cons p ps)
  obtain g where f: "f = Suc g" using Cons.prems(3) by (cases f) auto
  have lp: "length (pretty_member d p) = length (json_quote (fst p)) + 2 + length (pretty d (snd p))"
    by (simp add: pretty_member_def)
  note quoted = parse_quoted [of "fst p" "CHR '':'' # CHR '' '' # pretty d (snd p) @ u" for u]
  have colon: "skip_ws (CHR '':'' # r) = CHR '':'' # r" "skip_ws (CHR '','' # r) = CHR '','' # r" "skip_ws (CHR ''}'' # r) = CHR ''}'' # r"
    "skip_ws (quote_char # r) = quote_char # r" for r
    by (simp_all add: skip_ws_def json_space_def)
  show ?case
  proof (cases ps)
    case Nil
    have "parse_value g (pretty d (snd p) @ newline e @ CHR ''}'' # t) = Some (snd p, newline e @ CHR ''}'' # t)"
      by (rule Cons.prems(1)) (use Cons.prems(3) f Nil lp value_end_newline in auto)
    then show ?thesis by (simp add: f Nil pretty_member_quote quoted colon del: parse_string.simps)
  next
    case (Cons q qs)
    let ?r = "join ('','' @ newline d) (map (pretty_member d) ps)"
    have len: "2 * (length (pretty_member d p) + 1 + length ?r) + 2 \<le> f"
      using Cons.prems(3) Cons by simp
    have "parse_value g (pretty d (snd p) @ CHR '','' # newline d @ ?r @ newline e @ CHR ''}'' # t)
        = Some (snd p, CHR '','' # newline d @ ?r @ newline e @ CHR ''}'' # t)"
      by (rule Cons.prems(1)) (use len f lp in \<open>auto simp: value_end_def\<close>)
    moreover have "parse_members g (?r @ newline e @ CHR ''}'' # t) = Some (ps, t)"
      by (rule Cons.IH) (use Cons.prems(1) len f Cons in auto)
    ultimately show ?thesis using Cons
      by (simp add: f pretty_member_quote quoted colon del: parse_string.simps)
  qed
qed

lemma pretty_start: "json_value v \<Longrightarrow> value_start (pretty d v)"
proof (cases v)
  case (JNum n)
  then show "json_value v \<Longrightarrow> ?thesis" using written_start [of v] by (simp add: pretty_simps del: wf_json.simps)
next
  case (JObj ps)
  then show "json_value v \<Longrightarrow> ?thesis" by (simp only: JObj pretty_object) (simp add: value_start_def json_space_def)
qed (simp_all add: pretty_simps value_start_def json_space_def json_quote_def)

lemma parse_pretty:
  "json_value v \<Longrightarrow> value_end t \<Longrightarrow> 2 * length (pretty d v) \<le> f \<Longrightarrow> parse_value f (pretty d v @ t) = Some (v, t)"
proof (induction v arbitrary: d t f)
  case JUndef
  then show ?case by simp
next
  case (JArr xs)
  then obtain g where f: "f = Suc g" by (cases f) (simp_all add: pretty_simps split: if_splits)
  show ?case
  proof (cases "xs = []")
    case True
    then show ?thesis by (simp add: f pretty_simps) (simp add: skip_ws_def json_space_def)
  next
    case False
    let ?r = "join ('','' @ newline (Suc d)) (map (pretty (Suc d)) xs)"
    have e: "parse_elements g (?r @ newline d @ CHR '']'' # t) = Some (xs, t)"
    proof (rule parse_elements_pretty)
      show "xs \<noteq> []" by (rule False)
      show "2 * length ?r + 2 \<le> g" using JArr.prems(3) False by (simp add: f pretty_simps)
    qed (use JArr in auto)
    have "value_start (pretty (Suc d) (hd xs))" using JArr.prems(1) False by (auto intro: pretty_start)
    then have s: "value_start (?r @ u)" for u
      using False join_Cons [of "'','' @ newline (Suc d)" "pretty (Suc d) (hd xs)" "map (pretty (Suc d)) (tl xs)"]
      by (cases xs) (auto simp: value_start_append)
    obtain c r' where c: "?r @ newline d @ CHR '']'' # t = c # r'" "c \<noteq> CHR '']''"
      using s [of "newline d @ CHR '']'' # t"] by (cases "?r @ newline d @ CHR '']'' # t") (auto simp: value_start_def)
    then have k: "skip_ws (?r @ newline d @ CHR '']'' # t) = c # r'"
      using s [of "newline d @ CHR '']'' # t"] by (auto simp: value_start_def skip_ws_def)
    have open_bracket: "skip_ws (CHR ''['' # r) = CHR ''['' # r" for r by (simp add: skip_ws_def json_space_def)
    show ?thesis using False e k c(2) by (simp add: f pretty_simps open_bracket)
  qed
next
  case (JObj ps)
  note w = pretty_object [OF JObj.prems(1), of d]
  have open_brace: "skip_ws (CHR ''{'' # r) = CHR ''{'' # r" "skip_ws (CHR ''}'' # r) = CHR ''}'' # r" "skip_ws (quote_char # r) = quote_char # r" for r
    by (simp_all add: skip_ws_def json_space_def)
  obtain g where f: "f = Suc g" using JObj.prems(3) w by (cases f) (simp_all split: if_splits)
  show ?case
  proof (cases ps)
    case Nil
    then show ?thesis unfolding w by (simp add: f open_brace)
  next
    case (Cons p qs)
    let ?r = "join ('','' @ newline (Suc d)) (map (pretty_member (Suc d)) ps)"
    have "parse_members g (?r @ newline d @ CHR ''}'' # t) = Some (ps, t)"
    proof (rule parse_members_pretty)
      fix p' u and h assume "p' \<in> set ps" "value_end u" "2 * length (pretty (Suc d) (snd p')) \<le> h"
      then show "parse_value h (pretty (Suc d) (snd p') @ u) = Some (snd p', u)"
        using JObj.IH [of p' "snd p'" u "Suc d" h] JObj.prems(1) prod_set_simps(2) [of "fst p'" "snd p'"] by simp
    next
      show "ps \<noteq> []" using Cons by simp
      have "length (pretty d (JObj ps)) \<ge> length ?r + 2" unfolding w using Cons by simp
      then show "2 * length ?r + 2 \<le> g" using JObj.prems(3) f by simp
    qed
    moreover obtain r' where "?r = quote_char # r'"
      using Cons pretty_member_quote [of "Suc d" p "[]"] by (cases qs) (auto simp: pretty_member_def json_quote_def)
    moreover have "spread [] ps = ps" using JObj.prems(1) by (intro spread_nil) simp
    ultimately show ?thesis using Cons unfolding w by (simp add: f open_brace)
  qed
next
  case (JNum n)
  then show ?case using parse_written [of "JNum n" t f] by (simp add: pretty_simps del: wf_json.simps)
next
  case (JStr s)
  then show ?case using parse_written [of "JStr s" t f] by (simp add: pretty_simps written_simps)
next
  case JNull
  then show ?case using parse_written [of JNull t f] by (simp add: pretty_simps written_simps)
next
  case (JBool b)
  then show ?case using parse_written [of "JBool b" t f] by (simp add: pretty_simps written_simps)
qed

text \<open>The text of \<open>JSON.stringify(v, null, 2)\<close> parses to \<open>v\<close>.\<close>

lemma json_pretty_roundtrip:
  assumes "json_value v"
  shows "\<exists>s. JSON_pretty d v = Some s \<and> JSON_parse s = Some v"
proof -
  have "parse_value (2 * length (pretty d v) + 2) (pretty d v @ []) = Some (v, [])"
    by (rule parse_pretty [OF assms]) (simp_all add: value_end_def)
  then have "JSON_parse (pretty d v) = Some v" by (simp add: JSON_parse_def skip_ws_def del: parse_value.simps)
  then show ?thesis using pretty_some [OF assms] by blast
qed

end
