(* ===== verification/Share_Inbound.thy ===== *)
theory Share_Inbound
  imports Header_Map Inbound_Rules Wireguard_Keys Web_Url Json_Pretty
begin

text \<open>
  The inbound a share link is made from (\<open>frontend/src/schemas\<close>, the branches of the Zod unions
  as datatypes), and the helpers of \<open>frontend/src/lib/xray/inbound-link.ts\<close> that write one
  aspect of it: xHTTP extras, finalmask, TLS of an external proxy, network and security
  parameters, certificate pins, and the address of a link.
\<close>

section \<open>Stream settings\<close>

record tcp_request =
  rq_path :: "string list"
  rq_headers :: jobj

datatype tcp_header =
    Header_None
  | Header_Http "tcp_request option" "jobj option" \<comment> \<open>the request, and the headers of the response\<close>

record ws_stream =
  ws_path :: string
  ws_host :: string
  ws_headers :: jobj

record httpupgrade_stream =
  hu_path :: string
  hu_host :: string
  hu_headers :: jobj

record grpc_stream =
  gr_serviceName :: string
  gr_authority :: string
  gr_multiMode :: bool

record kcp_stream =
  kc_mtu :: int
  kc_tti :: int

text \<open>The knobs of xHTTP are read by name; \<open>xh_knobs\<close> holds all but the four fields before it.\<close>

record xhttp_stream =
  xh_path :: string
  xh_host :: string
  xh_mode :: string
  xh_headers :: jobj
  xh_knobs :: jobj

datatype network =
    Net_Tcp "tcp_header option"
  | Net_Kcp kcp_stream
  | Net_Ws ws_stream
  | Net_Grpc grpc_stream
  | Net_HttpUpgrade httpupgrade_stream
  | Net_XHttp xhttp_stream
  | Net_Hysteria
  | Net_Absent

definition network_name :: "network \<Rightarrow> string option" where
  "network_name n =
     (case n of Net_Tcp _ \<Rightarrow> Some ''tcp'' | Net_Kcp _ \<Rightarrow> Some ''kcp'' | Net_Ws _ \<Rightarrow> Some ''ws'' | Net_Grpc _ \<Rightarrow> Some ''grpc''
      | Net_HttpUpgrade _ \<Rightarrow> Some ''httpupgrade'' | Net_XHttp _ \<Rightarrow> Some ''xhttp'' | Net_Hysteria \<Rightarrow> Some ''hysteria'' | Net_Absent \<Rightarrow> None)"

record share_tls =
  tl_serverName :: string
  tl_alpn :: "string list"
  tl_fingerprint :: string
  tl_echConfigList :: string
  tl_verifyPeerCertByName :: string
  tl_pinnedPeerCertSha256 :: "string list"

record share_reality =
  re_target :: string
  re_serverNames :: "string list"
  re_shortIds :: "string list"
  re_publicKey :: string
  re_fingerprint :: string
  re_serverName :: string
  re_spiderX :: string
  re_mldsa65Verify :: string

datatype security =
    Sec_Absent
  | Sec_None
  | Sec_Tls share_tls
  | Sec_Reality share_reality

definition security_name :: "security \<Rightarrow> string option" where
  "security_name s = (case s of Sec_Absent \<Rightarrow> None | Sec_None \<Rightarrow> Some ''none'' | Sec_Tls _ \<Rightarrow> Some ''tls'' | Sec_Reality _ \<Rightarrow> Some ''reality'')"

record external_proxy =
  ep_forceTls :: string
  ep_dest :: string
  ep_port :: int
  ep_remark :: string
  ep_sni :: "string option"
  ep_fingerprint :: "string option"
  ep_alpn :: "string list option"
  ep_pinnedPeerCertSha256 :: "string list option"
  ep_verifyPeerCertByName :: "string option"
  ep_echConfigList :: "string option"

record share_stream =
  st_network :: network
  st_security :: security
  st_finalmask :: jv
  st_externalProxy :: "external_proxy list option"

section \<open>Inbounds\<close>

record client_shape =
  cl_id :: "string option"
  cl_security :: "string option"
  cl_flow :: "string option"
  cl_password :: "string option"
  cl_auth :: "string option"
  cl_email :: "string option"

record share_peer =
  pe_privateKey :: "string option"
  pe_preSharedKey :: "string option"
  pe_allowedIPs :: "string list"
  pe_keepAlive :: "int option"
  pe_comment :: "string option"

record wireguard_settings =
  wg_mtu :: "int option"
  wg_secretKey :: string
  wg_peers :: "share_peer list"

text \<open>Protocols without share links carry only their name.\<close>

datatype inbound_settings =
    In_Vmess "client_shape list"
  | In_Vless "client_shape list" string string \<comment> \<open>encryption, decryption\<close>
  | In_Trojan "client_shape list"
  | In_Shadowsocks "client_shape list" string string \<comment> \<open>method, password\<close>
  | In_Hysteria "client_shape list" int \<comment> \<open>version\<close>
  | In_Wireguard wireguard_settings
  | In_Mtproto string \<comment> \<open>secret\<close>
  | In_Other string

record share_inbound =
  ib_port :: int
  ib_listen :: string
  ib_shareAddrStrategy :: string
  ib_shareAddr :: string
  ib_stream :: "share_stream option"
  ib_settings :: inbound_settings

section \<open>Hosts\<close>

text \<open>\<open>s.replace(/^\[|\]$/g, '')\<close>.\<close>

definition strip_brackets :: "string \<Rightarrow> string" where
  "strip_brackets s =
     (let t = (if starts_with s ''['' then drop 1 s else s) in if ends_with t '']'' then butlast t else t)"

definition formatUrlHost :: "string \<Rightarrow> string" where
  "formatUrlHost address = (let bare = strip_brackets address in if CHR '':'' \<in> set bare then ''['' @ bare @ '']'' else bare)"

section \<open>xHTTP\<close>

definition header_value :: "jobj \<Rightarrow> string \<Rightarrow> string" where
  "header_value hs name = asString (getHeaderValue (JObj hs) name)"

definition xhttpHostFallback :: "xhttp_stream \<Rightarrow> string" where
  "xhttpHostFallback xhttp = header_value (xh_headers xhttp) ''host''"

definition extra_stringFields :: "string list" where
  "extra_stringFields = [''uplinkHTTPMethod'', ''sessionIDPlacement'', ''sessionIDKey'', ''sessionIDTable'', ''sessionIDLength'',
     ''seqPlacement'', ''seqKey'', ''uplinkDataPlacement'', ''uplinkDataKey'', ''scMaxEachPostBytes'']"

definition extra_paddingFields :: "string list" where
  "extra_paddingFields = [''xPaddingKey'', ''xPaddingHeader'', ''xPaddingPlacement'', ''xPaddingMethod'']"

definition coreDefault :: "string \<Rightarrow> string option" where
  "coreDefault k = (if k = ''scMaxEachPostBytes'' then Some ''1000000'' else None)"

definition copy_string :: "jobj \<Rightarrow> string option \<Rightarrow> string \<Rightarrow> jobj \<Rightarrow> jobj" where
  "copy_string knobs dflt k extra =
     (case oget knobs k of JStr v \<Rightarrow> if v \<noteq> [] \<and> Some v \<noteq> dflt then oset k (JStr v) extra else extra | _ \<Rightarrow> extra)"

definition extra_headers :: "jobj \<Rightarrow> jobj" where
  "extra_headers hs = fold (\<lambda>name m. if to_lower name = ''host'' then m else assign_string name (asString (oget hs name)) m) (js_keys hs) []"

definition buildXhttpExtra :: "xhttp_stream \<Rightarrow> jobj option" where
  "buildXhttpExtra xhttp =
     (let knobs = xh_knobs xhttp;
          extra = (if xh_mode xhttp \<noteq> [] then oset ''mode'' (JStr (xh_mode xhttp)) [] else []);
          extra = copy_string knobs None ''xPaddingBytes'' extra;
          extra = (if oget knobs ''xPaddingObfsMode'' = JBool True
                   then fold (copy_string knobs None) extra_paddingFields (oset ''xPaddingObfsMode'' (JBool True) extra) else extra);
          extra = fold (\<lambda>k. copy_string knobs (coreDefault k) k) extra_stringFields extra;
          m = extra_headers (xh_headers xhttp);
          extra = (if m \<noteq> [] then oset ''headers'' (JObj m) extra else extra)
      in if extra \<noteq> [] then Some extra else None)"

text \<open>\<open>for (const [k, v] of Object.entries(extra)) obj[k] = v\<close>; no key of an extra is an array index.\<close>

definition applyXhttpExtraToObj :: "xhttp_stream \<Rightarrow> jobj \<Rightarrow> jobj" where
  "applyXhttpExtraToObj xhttp ob =
     (let ob = (case oget (xh_knobs xhttp) ''xPaddingBytes'' of
          JStr v \<Rightarrow> if v \<noteq> [] then oset ''x_padding_bytes'' (JStr v) ob else ob | _ \<Rightarrow> ob)
      in case buildXhttpExtra xhttp of None \<Rightarrow> ob | Some extra \<Rightarrow> spread ob extra)"

section \<open>Finalmask\<close>

fun hasShareableFinalMaskValue :: "jv \<Rightarrow> bool" where
  "hasShareableFinalMaskValue JUndef = False"
| "hasShareableFinalMaskValue JNull = False"
| "hasShareableFinalMaskValue (JArr xs) = list_ex hasShareableFinalMaskValue xs"
| "hasShareableFinalMaskValue (JObj ps) = list_ex (\<lambda>p. hasShareableFinalMaskValue (snd p)) ps"
| "hasShareableFinalMaskValue (JStr s) = (s \<noteq> [])"
| "hasShareableFinalMaskValue v = True"

definition serializeFinalMask :: "jv \<Rightarrow> string" where
  "serializeFinalMask finalmask =
     (if \<not> truthy finalmask then []
      else if hasShareableFinalMaskValue finalmask then (case JSON_stringify finalmask of Some t \<Rightarrow> t | None \<Rightarrow> [])
      else [])"

definition applyFinalMaskToObj :: "jv \<Rightarrow> jobj \<Rightarrow> jobj" where
  "applyFinalMaskToObj finalmask ob =
     (let payload = serializeFinalMask finalmask in if payload \<noteq> [] then oset ''fm'' (JStr payload) ob else ob)"

definition applyFinalMaskToParams :: "jv \<Rightarrow> query_params \<Rightarrow> query_params" where
  "applyFinalMaskToParams finalmask params =
     (let payload = serializeFinalMask finalmask in if payload \<noteq> [] then params_set ''fm'' payload params else params)"

section \<open>External proxies\<close>

definition join_nonempty :: "string list option \<Rightarrow> string" where
  "join_nonempty xs = (case xs of Some ys \<Rightarrow> join '','' (filter (\<lambda>s. s \<noteq> []) ys) | None \<Rightarrow> [])"

definition externalProxyAlpn :: "string list option \<Rightarrow> string" where
  "externalProxyAlpn xs = join_nonempty xs"

definition externalProxyPins :: "string list option \<Rightarrow> string" where
  "externalProxyPins xs = join_nonempty xs"

definition external_sni :: "external_proxy \<Rightarrow> string" where
  "external_sni ep = (case ep_sni ep of Some s \<Rightarrow> if s \<noteq> [] then s else ep_dest ep | None \<Rightarrow> ep_dest ep)"

definition or_empty :: "string option \<Rightarrow> string" where
  "or_empty x = (case x of Some s \<Rightarrow> s | None \<Rightarrow> [])"

text \<open>The TLS fields an external proxy overrides, in the order they are written; empty ones are not.\<close>

definition external_tls :: "external_proxy \<Rightarrow> (string \<times> string) list" where
  "external_tls ep = filter (\<lambda>(k, v). v \<noteq> [])
     [(''sni'', external_sni ep), (''fp'', or_empty (ep_fingerprint ep)), (''alpn'', externalProxyAlpn (ep_alpn ep)),
      (''pcs'', externalProxyPins (ep_pinnedPeerCertSha256 ep)), (''vcn'', or_empty (ep_verifyPeerCertByName ep)),
      (''ech'', or_empty (ep_echConfigList ep))]"

definition applyExternalProxyTLSObj :: "external_proxy option \<Rightarrow> string \<Rightarrow> jobj \<Rightarrow> jobj" where
  "applyExternalProxyTLSObj externalProxy security ob =
     (case externalProxy of
        None \<Rightarrow> ob
      | Some ep \<Rightarrow> if security \<noteq> ''tls'' then ob else fold (\<lambda>(k, v). oset k (JStr v)) (external_tls ep) ob)"

definition applyExternalProxyTLSParams :: "external_proxy option \<Rightarrow> string \<Rightarrow> query_params \<Rightarrow> query_params" where
  "applyExternalProxyTLSParams externalProxy security params =
     (case externalProxy of
        None \<Rightarrow> params
      | Some ep \<Rightarrow> if security \<noteq> ''tls'' then params else fold (\<lambda>(k, v). params_set k v) (external_tls ep) params)"

section \<open>Query parameters\<close>

definition applyXhttpExtraToParams :: "xhttp_stream \<Rightarrow> query_params \<Rightarrow> query_params" where
  "applyXhttpExtraToParams xhttp params =
     (let params = params_set ''path'' (xh_path xhttp) params;
          params = params_set ''host'' (if xh_host xhttp \<noteq> [] then xh_host xhttp else xhttpHostFallback xhttp) params;
          params = params_set ''mode'' (xh_mode xhttp) params;
          params = (case oget (xh_knobs xhttp) ''xPaddingBytes'' of
              JStr v \<Rightarrow> if v \<noteq> [] then params_set ''x_padding_bytes'' v params else params | _ \<Rightarrow> params)
      in case buildXhttpExtra xhttp of
           None \<Rightarrow> params
         | Some extra \<Rightarrow> params_set ''extra'' (case JSON_stringify (JObj extra) of Some t \<Rightarrow> t | None \<Rightarrow> []) params)"

text \<open>The host of HTTP camouflage: the response headers first, then the request headers.\<close>

definition http_host :: "tcp_request \<Rightarrow> jobj option \<Rightarrow> string" where
  "http_host request response =
     (let h = (case response of Some hs \<Rightarrow> header_value hs ''host'' | None \<Rightarrow> [])
      in if h \<noteq> [] then h else header_value (rq_headers request) ''host'')"

definition writeNetworkParams :: "network \<Rightarrow> query_params \<Rightarrow> query_params" where
  "writeNetworkParams network params =
     (case network of
        Net_Tcp (Some (Header_Http (Some request) response)) \<Rightarrow>
          (let params = params_set ''path'' (join '','' (rq_path request)) params;
               host = http_host request response;
               params = (if host \<noteq> [] then params_set ''host'' host params else params)
           in params_set ''headerType'' ''http'' params)
      | Net_Kcp kcp \<Rightarrow> params_set ''tti'' (int_str (kc_tti kcp)) (params_set ''mtu'' (int_str (kc_mtu kcp)) params)
      | Net_Ws s \<Rightarrow> params_set ''host'' (if ws_host s \<noteq> [] then ws_host s else header_value (ws_headers s) ''host'')
          (params_set ''path'' (ws_path s) params)
      | Net_Grpc grpc \<Rightarrow>
          (let params = params_set ''authority'' (gr_authority grpc) (params_set ''serviceName'' (gr_serviceName grpc) params)
           in if gr_multiMode grpc then params_set ''mode'' ''multi'' params else params)
      | Net_HttpUpgrade hu \<Rightarrow> params_set ''host'' (if hu_host hu \<noteq> [] then hu_host hu else header_value (hu_headers hu) ''host'')
          (params_set ''path'' (hu_path hu) params)
      | Net_XHttp xhttp \<Rightarrow> applyXhttpExtraToParams xhttp params
      | _ \<Rightarrow> params)"

definition set_nonempty :: "string \<Rightarrow> string \<Rightarrow> query_params \<Rightarrow> query_params" where
  "set_nonempty k v params = (if v \<noteq> [] then params_set k v params else params)"

definition writeTlsParams :: "security \<Rightarrow> query_params \<Rightarrow> query_params" where
  "writeTlsParams security params =
     (case security of
        Sec_Tls tls \<Rightarrow>
          (let params = params_set ''fp'' (tl_fingerprint tls) params;
               params = params_set ''alpn'' (join '','' (tl_alpn tls)) params;
               params = set_nonempty ''ech'' (tl_echConfigList tls) params;
               params = set_nonempty ''sni'' (tl_serverName tls) params;
               params = set_nonempty ''vcn'' (tl_verifyPeerCertByName tls) params
           in if tl_pinnedPeerCertSha256 tls \<noteq> [] then params_set ''pcs'' (join '','' (tl_pinnedPeerCertSha256 tls)) params
              else params)
      | _ \<Rightarrow> params)"

definition reality_sni :: "share_reality \<Rightarrow> string" where
  "reality_sni reality =
     (if re_serverName reality \<noteq> [] then re_serverName reality
      else case re_serverNames reality of
        (c # s) # _ \<Rightarrow> c # s
      | _ \<Rightarrow> hd (split_on CHR '':'' (re_target reality)))"

definition writeRealityParams :: "security \<Rightarrow> query_params \<Rightarrow> query_params" where
  "writeRealityParams security params =
     (case security of
        Sec_Reality reality \<Rightarrow>
          (let params = params_set ''pbk'' (re_publicKey reality) params;
               params = params_set ''fp'' (re_fingerprint reality) params;
               params = set_nonempty ''sni'' (reality_sni reality) params;
               params = (case re_shortIds reality of [] \<Rightarrow> params | sid # _ \<Rightarrow> params_set ''sid'' sid params);
               params = set_nonempty ''spx'' (re_spiderX reality) params
           in set_nonempty ''pqv'' (re_mldsa65Verify reality) params)
      | _ \<Rightarrow> params)"

section \<open>Certificate pins\<close>

definition hex_byte :: "char \<Rightarrow> string" where
  "hex_byte c = map (\<lambda>d. if d < 10 then char_of (48 + d) else char_of (87 + d)) [code c div 16, code c mod 16]"

definition hysteriaPinHex :: "string \<Rightarrow> string" where
  "hysteriaPinHex pin =
     (let stripped = strip_char CHR '':'' (text_trim pin)
      in if length stripped = 64 \<and> list_all is_hex stripped then to_lower stripped
         else case atob (subst_char CHR ''_'' CHR ''/'' (subst_char CHR ''-'' CHR ''+'' (text_trim pin))) of
           None \<Rightarrow> pin
         | Some binary \<Rightarrow> if length binary \<noteq> 32 then pin else concat (map hex_byte binary))"

end
