(* ===== verification/Share_Links.thy ===== *)
theory Share_Links
  imports Share_Inbound
begin

text \<open>
  The generators of \<open>frontend/src/lib/xray/inbound-link.ts\<close>: one per protocol, the address of a
  link, and the orchestrators that make the links of a client, an inbound or a WireGuard peer.
  \<^const>\<open>None\<close> is a thrown exception (an invalid URL, an undecodable key). Two functions of the
  browser are parameters: \<open>ipv6\<close>, its parser of IPv6 literals, and \<open>web_host\<close>, the
  \<open>hostname\<close> of \<open>new URL('http://' + h)\<close>.
\<close>

section \<open>VMess\<close>

definition vmess_network :: "network \<Rightarrow> jobj \<Rightarrow> jobj" where
  "vmess_network network ob =
     (case network of
        Net_Tcp header \<Rightarrow>
          (case header of
             None \<Rightarrow> oset ''type'' (JStr ''none'') ob
           | Some Header_None \<Rightarrow> oset ''type'' (JStr ''none'') ob
           | Some (Header_Http request response) \<Rightarrow>
               (let ob = oset ''type'' (JStr ''http'') ob
                in case request of
                     None \<Rightarrow> ob
                   | Some rq \<Rightarrow>
                       (let ob = oset ''path'' (JStr (join '','' (rq_path rq))) ob; host = http_host rq response
                        in if host \<noteq> [] then oset ''host'' (JStr host) ob else ob)))
      | Net_Kcp kcp \<Rightarrow> oset ''tti'' (JNum (num (kc_tti kcp))) (oset ''mtu'' (JNum (num (kc_mtu kcp))) ob)
      | Net_Ws s \<Rightarrow> oset ''host'' (JStr (if ws_host s \<noteq> [] then ws_host s else header_value (ws_headers s) ''host''))
          (oset ''path'' (JStr (ws_path s)) ob)
      | Net_Grpc grpc \<Rightarrow>
          (let ob = oset ''authority'' (JStr (gr_authority grpc)) (oset ''path'' (JStr (gr_serviceName grpc)) ob)
           in if gr_multiMode grpc then oset ''type'' (JStr ''multi'') ob else ob)
      | Net_HttpUpgrade hu \<Rightarrow> oset ''host'' (JStr (if hu_host hu \<noteq> [] then hu_host hu else header_value (hu_headers hu) ''host''))
          (oset ''path'' (JStr (hu_path hu)) ob)
      | Net_XHttp xhttp \<Rightarrow>
          (let ob = oset ''path'' (JStr (xh_path xhttp)) ob;
               ob = oset ''host'' (JStr (if xh_host xhttp \<noteq> [] then xh_host xhttp else xhttpHostFallback xhttp)) ob;
               ob = oset ''type'' (JStr (xh_mode xhttp)) ob
           in applyXhttpExtraToObj xhttp ob)
      | _ \<Rightarrow> ob)"

definition oset_nonempty :: "string \<Rightarrow> string \<Rightarrow> jobj \<Rightarrow> jobj" where
  "oset_nonempty k v ob = (if v \<noteq> [] then oset k (JStr v) ob else ob)"

definition vmess_tls :: "security \<Rightarrow> jobj \<Rightarrow> jobj" where
  "vmess_tls security ob =
     (case security of
        Sec_Tls tls \<Rightarrow>
          (let ob = oset_nonempty ''sni'' (tl_serverName tls) ob;
               ob = oset_nonempty ''fp'' (tl_fingerprint tls) ob;
               ob = (if tl_alpn tls \<noteq> [] then oset ''alpn'' (JStr (join '','' (tl_alpn tls))) ob else ob);
               ob = oset_nonempty ''ech'' (tl_echConfigList tls) ob;
               ob = oset_nonempty ''vcn'' (tl_verifyPeerCertByName tls) ob
           in if tl_pinnedPeerCertSha256 tls \<noteq> [] then oset ''pcs'' (JStr (join '','' (tl_pinnedPeerCertSha256 tls))) ob else ob)
      | _ \<Rightarrow> ob)"

definition option_str :: "string option \<Rightarrow> jv" where
  "option_str x = (case x of None \<Rightarrow> JUndef | Some s \<Rightarrow> JStr s)"

definition vmess_object :: "share_stream \<Rightarrow> string \<Rightarrow> int \<Rightarrow> string \<Rightarrow> string \<Rightarrow> string \<Rightarrow> string option
    \<Rightarrow> external_proxy option \<Rightarrow> jobj" where
  "vmess_object stream address port forceTls remark clientId security externalProxy =
     (let tls = (if forceTls = ''same'' then (case security_name (st_security stream) of Some s \<Rightarrow> s | None \<Rightarrow> ''none'') else forceTls);
          ob = [(''v'', JStr ''2''), (''ps'', JStr remark), (''add'', JStr address), (''port'', JNum (num port)), (''id'', JStr clientId),
                (''scy'', option_str security), (''net'', option_str (network_name (st_network stream))), (''tls'', JStr tls)];
          ob = vmess_network (st_network stream) ob;
          ob = applyFinalMaskToObj (st_finalmask stream) ob;
          ob = (if tls = ''tls'' then vmess_tls (st_security stream) ob else ob)
      in applyExternalProxyTLSObj externalProxy tls ob)"

text \<open>\<open>Base64.encode\<close> of a text given by its UTF-8 bytes.\<close>

definition base64_text :: "string \<Rightarrow> bool \<Rightarrow> string" where
  "base64_text s safe = Base64_encode (text_points s) safe"

definition genVmessLink :: "share_inbound \<Rightarrow> string \<Rightarrow> int \<Rightarrow> string \<Rightarrow> string \<Rightarrow> string \<Rightarrow> string option
    \<Rightarrow> external_proxy option \<Rightarrow> string" where
  "genVmessLink inbound address port forceTls remark clientId security externalProxy =
     (case (ib_settings inbound, ib_stream inbound) of
        (In_Vmess _, Some stream) \<Rightarrow>
          ''vmess://'' @ base64_text (case JSON_pretty 0
              (JObj (vmess_object stream address port forceTls remark clientId security externalProxy)) of
            Some t \<Rightarrow> t | None \<Rightarrow> []) False
      | _ \<Rightarrow> [])"

section \<open>VLESS, Trojan, Shadowsocks\<close>

text \<open>\<open>new URL(scheme://userinfo@host:port)\<close>, the parameters in order, the remark as fragment.\<close>

definition link_base :: "string \<Rightarrow> string \<Rightarrow> string \<Rightarrow> int \<Rightarrow> string" where
  "link_base scheme userinfo address port = scheme @ ''://'' @ userinfo @ ''@'' @ formatUrlHost address @ '':'' @ int_str port"

definition finish_link :: "query_params \<Rightarrow> string \<Rightarrow> url \<Rightarrow> string" where
  "finish_link params remark u =
     url_string (set_hash (encodeURIComponent remark) (fold (\<lambda>(k, v). search_set k v) params u))"

definition make_link :: "(string \<Rightarrow> string option) \<Rightarrow> string \<Rightarrow> query_params \<Rightarrow> string \<Rightarrow> string option" where
  "make_link ipv6 base params remark = map_option (finish_link params remark) (url_parse ipv6 base)"

definition link_security :: "share_stream \<Rightarrow> string \<Rightarrow> string option" where
  "link_security stream forceTls = (if forceTls = ''same'' then security_name (st_security stream) else Some forceTls)"

definition network_or_tcp :: "share_stream \<Rightarrow> string" where
  "network_or_tcp stream = (case network_name (st_network stream) of Some n \<Rightarrow> n | None \<Rightarrow> ''tcp'')"

definition vless_tls :: "security \<Rightarrow> query_params \<Rightarrow> query_params" where
  "vless_tls security params =
     (case security of
        Sec_Tls tls \<Rightarrow>
          (let params = params_set ''fp'' (tl_fingerprint tls) params;
               params = params_set ''alpn'' (join '','' (tl_alpn tls)) params;
               params = set_nonempty ''sni'' (tl_serverName tls) params;
               params = set_nonempty ''ech'' (tl_echConfigList tls) params;
               params = set_nonempty ''vcn'' (tl_verifyPeerCertByName tls) params
           in if tl_pinnedPeerCertSha256 tls \<noteq> [] then params_set ''pcs'' (join '','' (tl_pinnedPeerCertSha256 tls)) params
              else params)
      | _ \<Rightarrow> params)"

text \<open>The part of the inbound \<^const>\<open>canEnableTlsFlow\<close> reads.\<close>

definition vless_slice :: "share_stream \<Rightarrow> string \<Rightarrow> string \<Rightarrow> capability_slice" where
  "vless_slice stream encryption decryption =
     \<lparr>cap_protocol = ''vless'', cap_settings = Some [(''encryption'', JStr encryption), (''decryption'', JStr decryption)],
      cap_stream = Some [(''network'', option_str (network_name (st_network stream))),
        (''security'', option_str (security_name (st_security stream)))]\<rparr>"

definition vless_params :: "share_stream \<Rightarrow> string \<Rightarrow> string \<Rightarrow> string \<Rightarrow> string \<Rightarrow> external_proxy option \<Rightarrow> query_params" where
  "vless_params stream encryption decryption forceTls flow externalProxy =
     (let security = link_security stream forceTls;
          params = params_set ''encryption'' encryption (params_set ''type'' (network_or_tcp stream) []);
          params = writeNetworkParams (st_network stream) params;
          params = applyFinalMaskToParams (st_finalmask stream) params;
          params = (if security = Some ''tls''
              then applyExternalProxyTLSParams externalProxy ''tls'' (vless_tls (st_security stream) (params_set ''security'' ''tls'' params))
              else if security = Some ''reality''
              then writeRealityParams (st_security stream) (params_set ''security'' ''reality'' params)
              else params_set ''security'' ''none'' params)
      in if flow \<noteq> [] \<and> canEnableTlsFlow (vless_slice stream encryption decryption) then params_set ''flow'' flow params else params)"

definition genVlessLink :: "(string \<Rightarrow> string option) \<Rightarrow> share_inbound \<Rightarrow> string \<Rightarrow> int \<Rightarrow> string \<Rightarrow> string \<Rightarrow> string \<Rightarrow> string
    \<Rightarrow> external_proxy option \<Rightarrow> string option" where
  "genVlessLink ipv6 inbound address port forceTls remark clientId flow externalProxy =
     (case (ib_settings inbound, ib_stream inbound) of
        (In_Vless _ encryption decryption, Some stream) \<Rightarrow>
          make_link ipv6 (link_base ''vless'' clientId address port)
            (vless_params stream encryption decryption forceTls flow externalProxy) remark
      | _ \<Rightarrow> Some [])"

definition trojan_params :: "share_stream \<Rightarrow> string \<Rightarrow> external_proxy option \<Rightarrow> query_params" where
  "trojan_params stream forceTls externalProxy =
     (let security = link_security stream forceTls;
          params = writeNetworkParams (st_network stream) (params_set ''type'' (network_or_tcp stream) []);
          params = applyFinalMaskToParams (st_finalmask stream) params
      in if security = Some ''tls''
         then applyExternalProxyTLSParams externalProxy ''tls'' (writeTlsParams (st_security stream) (params_set ''security'' ''tls'' params))
         else if security = Some ''reality''
         then writeRealityParams (st_security stream) (params_set ''security'' ''reality'' params)
         else params_set ''security'' ''none'' params)"

definition genTrojanLink :: "(string \<Rightarrow> string option) \<Rightarrow> share_inbound \<Rightarrow> string \<Rightarrow> int \<Rightarrow> string \<Rightarrow> string \<Rightarrow> string
    \<Rightarrow> external_proxy option \<Rightarrow> string option" where
  "genTrojanLink ipv6 inbound address port forceTls remark clientPassword externalProxy =
     (case (ib_settings inbound, ib_stream inbound) of
        (In_Trojan _, Some stream) \<Rightarrow>
          make_link ipv6 (link_base ''trojan'' (encodeURIComponent clientPassword) address port)
            (trojan_params stream forceTls externalProxy) remark
      | _ \<Rightarrow> Some [])"

definition shadowsocks_params :: "share_stream \<Rightarrow> string \<Rightarrow> external_proxy option \<Rightarrow> query_params" where
  "shadowsocks_params stream forceTls externalProxy =
     (let security = link_security stream forceTls;
          params = writeNetworkParams (st_network stream) (params_set ''type'' (network_or_tcp stream) []);
          params = applyFinalMaskToParams (st_finalmask stream) params;
          params = (if security = Some ''tls''
              then applyExternalProxyTLSParams externalProxy ''tls'' (writeTlsParams (st_security stream) (params_set ''security'' ''tls'' params))
              else params)
      in if network_or_tcp stream = ''tcp'' \<and> params_get params ''headerType'' = Some ''http''
         then (let host = or_empty (params_get params ''host'');
                   params = fold params_delete [''type'', ''headerType'', ''host'', ''path''] params
               in params_set ''plugin'' (''obfs-local;obfs=http;obfs-host='' @ host) params)
         else params)"

definition shadowsocks_passwords :: "string \<Rightarrow> string \<Rightarrow> string \<Rightarrow> string list" where
  "shadowsocks_passwords method password clientPassword =
     (if take 4 method = ''2022'' then [password] else [])
     @ (if method \<noteq> ''2022-blake3-chacha20-poly1305'' then [clientPassword] else [])"

definition genShadowsocksLink :: "(string \<Rightarrow> string option) \<Rightarrow> share_inbound \<Rightarrow> string \<Rightarrow> int \<Rightarrow> string \<Rightarrow> string \<Rightarrow> string
    \<Rightarrow> external_proxy option \<Rightarrow> string option" where
  "genShadowsocksLink ipv6 inbound address port forceTls remark clientPassword externalProxy =
     (case (ib_settings inbound, ib_stream inbound) of
        (In_Shadowsocks _ method password, Some stream) \<Rightarrow>
          (let params = shadowsocks_params stream forceTls externalProxy;
               passwords = shadowsocks_passwords method password clientPassword
           in if take 4 method = ''2022''
              then (let userinfo = join '':'' (map encodeURIComponent (method # passwords)); query = params_string params
                    in Some (''ss://'' @ userinfo @ ''@'' @ formatUrlHost address @ '':'' @ int_str port
                         @ (if query \<noteq> [] then CHR ''?'' # query else []) @ ''#'' @ encodeURIComponent remark))
              else make_link ipv6 (link_base ''ss'' (base64_text (method @ '':'' @ join '':'' passwords) True) address port) params remark)
      | _ \<Rightarrow> Some [])"

section \<open>Hysteria, MTProto\<close>

text \<open>\<open>a?.b\<close> of a JSON value.\<close>

definition opt_prop :: "jv \<Rightarrow> string \<Rightarrow> jv" where
  "opt_prop v k = (case v of JObj ps \<Rightarrow> oget ps k | _ \<Rightarrow> JUndef)"

definition salamander_password :: "jv \<Rightarrow> string" where
  "salamander_password finalmask =
     (case opt_prop finalmask ''udp'' of
        JArr masks \<Rightarrow>
          (case find (\<lambda>m. opt_prop m ''type'' = JStr ''salamander'') masks of
             None \<Rightarrow> [] | Some m \<Rightarrow> asString (opt_prop (opt_prop m ''settings'') ''password''))
      | _ \<Rightarrow> [])"

definition hop_ports :: "jv \<Rightarrow> string" where
  "hop_ports finalmask = text_trim (asString (opt_prop (opt_prop (opt_prop finalmask ''quicParams'') ''udpHop'') ''ports''))"

definition hysteria_params :: "share_tls \<Rightarrow> jv \<Rightarrow> external_proxy option \<Rightarrow> query_params" where
  "hysteria_params tls finalmask externalProxy =
     (let params = params_set ''security'' ''tls'' [];
          params = set_nonempty ''fp'' (tl_fingerprint tls) params;
          params = (if tl_alpn tls \<noteq> [] then params_set ''alpn'' (join '','' (tl_alpn tls)) params else params);
          params = set_nonempty ''ech'' (tl_echConfigList tls) params;
          params = set_nonempty ''sni'' (tl_serverName tls) params;
          params = set_nonempty ''vcn'' (tl_verifyPeerCertByName tls) params;
          params = (if tl_pinnedPeerCertSha256 tls \<noteq> []
              then params_set ''pinSHA256'' (join '','' (map hysteriaPinHex (tl_pinnedPeerCertSha256 tls))) params else params);
          params = (case externalProxy of
              None \<Rightarrow> params
            | Some ep \<Rightarrow>
                (case ep_pinnedPeerCertSha256 ep of
                   None \<Rightarrow> params
                 | Some pins \<Rightarrow>
                     (let epPins = map hysteriaPinHex (filter (\<lambda>s. s \<noteq> []) pins)
                      in if epPins \<noteq> [] then params_set ''pinSHA256'' (join '','' epPins) params else params)));
          pw = salamander_password finalmask;
          params = (if pw \<noteq> [] then params_set ''obfs-password'' pw (params_set ''obfs'' ''salamander'' params) else params);
          params = applyFinalMaskToParams finalmask params
      in set_nonempty ''mport'' (hop_ports finalmask) params)"

definition genHysteriaLink :: "(string \<Rightarrow> string option) \<Rightarrow> share_inbound \<Rightarrow> string \<Rightarrow> int \<Rightarrow> string \<Rightarrow> string
    \<Rightarrow> external_proxy option \<Rightarrow> string option" where
  "genHysteriaLink ipv6 inbound address port remark clientAuth externalProxy =
     (case (ib_settings inbound, ib_stream inbound) of
        (In_Hysteria _ version, Some stream) \<Rightarrow>
          (case st_security stream of
             Sec_Tls tls \<Rightarrow>
               make_link ipv6 (link_base (if version = 2 then ''hysteria2'' else ''hysteria'') clientAuth address port)
                 (hysteria_params tls (st_finalmask stream) externalProxy) remark
           | _ \<Rightarrow> Some [])
      | _ \<Rightarrow> Some [])"

definition genMtprotoLink :: "(string \<Rightarrow> string option) \<Rightarrow> share_inbound \<Rightarrow> string \<Rightarrow> int \<Rightarrow> string option" where
  "genMtprotoLink ipv6 inbound address port =
     (case ib_settings inbound of
        In_Mtproto secret \<Rightarrow>
          if secret = [] then Some []
          else map_option (\<lambda>u. url_string (search_set ''secret'' secret (search_set ''port'' (int_str port) (search_set ''server'' address u))))
                 (url_parse ipv6 ''tg://proxy'')
      | _ \<Rightarrow> Some [])"

end
