(* ===== verification/Link_Parser.thy ===== *)
theory Link_Parser
  imports Share_Links
begin

text \<open>
  \<open>frontend/src/lib/xray/outbound-link-parser.ts\<close>: a share link is read into an outbound in wire
  shape, one parser per scheme. An outbound is a \<^typ>\<open>jobj\<close>; \<^const>\<open>None\<close> is \<open>null\<close>, the answer to a
  link the parser does not recognise. Numbers are read from texts given by their UTF-8 bytes.
\<close>

section \<open>Values\<close>

definition Number_of :: "string \<Rightarrow> jsnum" where
  "Number_of s = js_number (text_trim s)"

text \<open>\<open>n || d\<close> of a number.\<close>

definition num_or :: "jsnum \<Rightarrow> int \<Rightarrow> jsnum" where
  "num_or n d = (if num_truthy n then n else num d)"

fun array_text :: "jv \<Rightarrow> string" where
  "array_text JUndef = []"
| "array_text JNull = []"
| "array_text (JBool b) = (if b then ''true'' else ''false'')"
| "array_text (JNum n) = num_str n"
| "array_text (JStr s) = s"
| "array_text (JArr xs) = join '','' (map array_text xs)"
| "array_text (JObj ps) = ''[object Object]''"

text \<open>\<open>Number(v)\<close> of a JSON value.\<close>

definition to_Number :: "jv \<Rightarrow> jsnum" where
  "to_Number v =
     (case v of JUndef \<Rightarrow> NaN | JNull \<Rightarrow> num 0 | JBool b \<Rightarrow> num (if b then 1 else 0) | JNum n \<Rightarrow> n
      | JStr s \<Rightarrow> Number_of s | JArr xs \<Rightarrow> Number_of (array_text (JArr xs)) | JObj _ \<Rightarrow> NaN)"

definition or_truthy :: "jv \<Rightarrow> jv \<Rightarrow> jv" where
  "or_truthy a b = (if truthy a then a else b)"

text \<open>\<open>(ob.key as Raw).k = v\<close>.\<close>

definition set_in :: "string \<Rightarrow> (jobj \<Rightarrow> jobj) \<Rightarrow> jobj \<Rightarrow> jobj" where
  "set_in key f ob = (case oget ob key of JObj ps \<Rightarrow> oset key (JObj (f ps)) ob | _ \<Rightarrow> ob)"

definition split_nonempty :: "string \<Rightarrow> jv list" where
  "split_nonempty s = map JStr (filter (\<lambda>p. p \<noteq> []) (split_on CHR '','' s))"

definition param_or :: "query_params \<Rightarrow> string \<Rightarrow> string \<Rightarrow> string" where
  "param_or params k d = (case params_get params k of Some v \<Rightarrow> v | None \<Rightarrow> d)"

section \<open>xHTTP knobs\<close>

definition XHTTP_STRING_KEYS :: "string list" where
  "XHTTP_STRING_KEYS = [''xPaddingBytes'', ''xPaddingKey'', ''xPaddingHeader'', ''xPaddingPlacement'', ''xPaddingMethod'',
     ''sessionIDPlacement'', ''sessionIDKey'', ''sessionIDTable'', ''sessionIDLength'', ''seqPlacement'', ''seqKey'',
     ''uplinkDataPlacement'', ''uplinkDataKey'', ''scMaxEachPostBytes'', ''scMinPostsIntervalMs'', ''scStreamUpServerSecs'',
     ''uplinkHTTPMethod'']"

definition XHTTP_LEGACY_ALIASES :: "(string \<times> string) list" where
  "XHTTP_LEGACY_ALIASES = [(''sessionPlacement'', ''sessionIDPlacement''), (''sessionKey'', ''sessionIDKey'')]"

definition XHTTP_NUMBER_KEYS :: "string list" where
  "XHTTP_NUMBER_KEYS = [''scMaxBufferedPosts'', ''serverMaxHeaderBytes'', ''uplinkChunkSize'']"

definition XHTTP_BOOL_KEYS :: "string list" where
  "XHTTP_BOOL_KEYS = [''xPaddingObfsMode'', ''noSSEHeader'', ''noGRPCHeader'']"

definition XHTTP_OBJECT_KEYS :: "string list" where
  "XHTTP_OBJECT_KEYS = [''xmux'', ''downloadSettings'']"

definition param_bool :: "string \<Rightarrow> bool" where
  "param_bool s \<longleftrightarrow> s = ''true'' \<or> s = ''1''"

definition copy_if :: "(jv \<Rightarrow> bool) \<Rightarrow> jobj \<Rightarrow> string \<Rightarrow> jobj \<Rightarrow> jobj" where
  "copy_if P json k xhttp = (if P (oget json k) then oset k (oget json k) xhttp else xhttp)"

definition is_str :: "jv \<Rightarrow> bool" where "is_str v = (case v of JStr _ \<Rightarrow> True | _ \<Rightarrow> False)"
definition is_number :: "jv \<Rightarrow> bool" where "is_number v = (case v of JNum _ \<Rightarrow> True | _ \<Rightarrow> False)"
definition is_boolean :: "jv \<Rightarrow> bool" where "is_boolean v = (case v of JBool _ \<Rightarrow> True | _ \<Rightarrow> False)"
definition is_plain_object :: "jv \<Rightarrow> bool" where "is_plain_object v = (case v of JObj _ \<Rightarrow> True | _ \<Rightarrow> False)"

definition legacy_from_json :: "jobj \<Rightarrow> string \<times> string \<Rightarrow> jobj \<Rightarrow> jobj" where
  "legacy_from_json json alias xhttp =
     (case alias of (legacy, renamed) \<Rightarrow>
        if oget xhttp renamed = JUndef \<and> is_str (oget json legacy) then oset renamed (oget json legacy) xhttp else xhttp)"

definition applyXhttpStringFromJson :: "jobj \<Rightarrow> jobj \<Rightarrow> jobj" where
  "applyXhttpStringFromJson json xhttp =
     (let xhttp = fold (copy_if is_str json) XHTTP_STRING_KEYS xhttp;
          xhttp = fold (legacy_from_json json) XHTTP_LEGACY_ALIASES xhttp;
          xhttp = fold (copy_if is_number json) XHTTP_NUMBER_KEYS xhttp;
          xhttp = fold (copy_if is_boolean json) XHTTP_BOOL_KEYS xhttp
      in fold (copy_if is_plain_object json) XHTTP_OBJECT_KEYS xhttp)"

definition param_nonempty :: "query_params \<Rightarrow> string \<Rightarrow> string option" where
  "param_nonempty params k = (case params_get params k of Some v \<Rightarrow> if v \<noteq> [] then Some v else None | None \<Rightarrow> None)"

definition set_param :: "(string \<Rightarrow> jv) \<Rightarrow> query_params \<Rightarrow> string \<Rightarrow> jobj \<Rightarrow> jobj" where
  "set_param f params k xhttp = (case param_nonempty params k of Some v \<Rightarrow> oset k (f v) xhttp | None \<Rightarrow> xhttp)"

text \<open>The decoded \<open>extra\<close>: a syntax error, or \<open>null\<close> (whose first property access throws), is ignored.\<close>

definition apply_extra :: "string \<Rightarrow> jobj \<Rightarrow> jobj" where
  "apply_extra extra xhttp =
     (case JSON_parse extra of
        None \<Rightarrow> xhttp
      | Some JNull \<Rightarrow> xhttp
      | Some (JObj ps) \<Rightarrow>
          (let xhttp = applyXhttpStringFromJson ps xhttp
           in case oget ps ''headers'' of
                JObj hs \<Rightarrow> oset ''headers'' (JObj hs) xhttp | JArr hs \<Rightarrow> oset ''headers'' (JArr hs) xhttp | _ \<Rightarrow> xhttp)
      | Some _ \<Rightarrow> xhttp)"

definition legacy_from_params :: "query_params \<Rightarrow> string \<times> string \<Rightarrow> jobj \<Rightarrow> jobj" where
  "legacy_from_params params alias xhttp =
     (case alias of (legacy, renamed) \<Rightarrow>
        if oget xhttp renamed = JUndef
        then (case param_nonempty params legacy of Some v \<Rightarrow> oset renamed (JStr v) xhttp | None \<Rightarrow> xhttp) else xhttp)"

definition applyXhttpStringFromParams :: "query_params \<Rightarrow> jobj \<Rightarrow> jobj" where
  "applyXhttpStringFromParams params xhttp =
     (let xhttp = (case param_nonempty params ''x_padding_bytes'' of Some v \<Rightarrow> oset ''xPaddingBytes'' (JStr v) xhttp | None \<Rightarrow> xhttp);
          xhttp = (case param_nonempty params ''extra'' of Some extra \<Rightarrow> apply_extra extra xhttp | None \<Rightarrow> xhttp);
          xhttp = fold (set_param JStr params) XHTTP_STRING_KEYS xhttp;
          xhttp = fold (set_param (\<lambda>v. JNum (num_or (Number_of v) 0)) params) XHTTP_NUMBER_KEYS xhttp;
          xhttp = fold (set_param (\<lambda>v. JBool (param_bool v)) params) XHTTP_BOOL_KEYS xhttp
      in fold (legacy_from_params params) XHTTP_LEGACY_ALIASES xhttp)"

section \<open>Streams\<close>

abbreviation jnum :: "int \<Rightarrow> jv" where "jnum i \<equiv> JNum (num i)"
abbreviation empty_str :: jv where "empty_str \<equiv> JStr []"

definition tcp_none :: "string \<times> jv" where
  "tcp_none = (''tcpSettings'', JObj [(''header'', JObj [(''type'', JStr ''none'')])])"

definition network_block :: "jv \<Rightarrow> string \<times> jv" where
  "network_block network =
     (if network = JStr ''kcp'' then (''kcpSettings'', JObj [(''mtu'', jnum 1350), (''tti'', jnum 20), (''uplinkCapacity'', jnum 5),
         (''downlinkCapacity'', jnum 20), (''cwndMultiplier'', jnum 1), (''maxSendingWindow'', jnum 2097152)])
      else if network = JStr ''ws'' then (''wsSettings'', JObj [(''path'', JStr ''/''), (''host'', empty_str), (''headers'', JObj []),
         (''heartbeatPeriod'', jnum 0)])
      else if network = JStr ''grpc'' then (''grpcSettings'', JObj [(''serviceName'', empty_str), (''authority'', empty_str),
         (''multiMode'', JBool False)])
      else if network = JStr ''httpupgrade'' then (''httpupgradeSettings'', JObj [(''path'', JStr ''/''), (''host'', empty_str),
         (''headers'', JObj [])])
      else if network = JStr ''xhttp'' then (''xhttpSettings'', JObj [(''path'', JStr ''/''), (''host'', empty_str), (''mode'', JStr ''auto''),
         (''headers'', JObj []), (''xPaddingBytes'', JStr ''100-1000'')])
      else tcp_none)"

definition tls_block :: "jobj" where
  "tls_block = [(''serverName'', empty_str), (''alpn'', JArr []), (''fingerprint'', empty_str), (''echConfigList'', empty_str),
     (''verifyPeerCertByName'', empty_str), (''pinnedPeerCertSha256'', empty_str)]"

definition reality_block :: "jobj" where
  "reality_block = [(''publicKey'', empty_str), (''fingerprint'', JStr ''chrome''), (''serverName'', empty_str), (''shortId'', empty_str),
     (''spiderX'', empty_str), (''mldsa65Verify'', empty_str)]"

definition buildStream :: "jv \<Rightarrow> string \<Rightarrow> jobj" where
  "buildStream network security =
     [(''network'', network), (''security'', JStr security), network_block network]
     @ (if security = ''tls'' then [(''tlsSettings'', JObj tls_block)]
        else if security = ''reality'' then [(''realitySettings'', JObj reality_block)] else [])"

definition http_header :: "string \<Rightarrow> string \<Rightarrow> jv" where
  "http_header path host =
     JObj [(''type'', JStr ''http''), (''request'', JObj [(''version'', JStr ''1.1''), (''method'', JStr ''GET''),
        (''path'', JArr (split_nonempty path)),
        (''headers'', JObj (if host \<noteq> [] then [(''Host'', JArr (split_nonempty host))] else []))])]"

definition applyTransportParams :: "query_params \<Rightarrow> jobj \<Rightarrow> jobj" where
  "applyTransportParams params stream =
     (let network = oget stream ''network''; host = param_or params ''host'' []; path = param_or params ''path'' ''/''
      in if network = JStr ''ws'' then set_in ''wsSettings'' (\<lambda>s. oset ''path'' (JStr path) (oset ''host'' (JStr host) s)) stream
         else if network = JStr ''grpc'' then
           set_in ''grpcSettings'' (\<lambda>s. oset ''multiMode'' (JBool (params_get params ''mode'' = Some ''multi''))
             (oset ''authority'' (JStr (param_or params ''authority'' []))
               (oset ''serviceName'' (JStr (param_or params ''serviceName'' (param_or params ''path'' []))) s))) stream
         else if network = JStr ''httpupgrade'' then
           set_in ''httpupgradeSettings'' (\<lambda>s. oset ''path'' (JStr path) (oset ''host'' (JStr host) s)) stream
         else if network = JStr ''xhttp'' then
           set_in ''xhttpSettings'' (\<lambda>s.
             (let s = oset ''path'' (JStr path) (oset ''host'' (JStr host) s);
                  s = (case param_nonempty params ''mode'' of Some m \<Rightarrow> oset ''mode'' (JStr m) s | None \<Rightarrow> s)
              in applyXhttpStringFromParams params s)) stream
         else if network = JStr ''tcp'' then
           (if params_get params ''headerType'' = Some ''http'' \<or> params_get params ''type'' = Some ''http''
            then set_in ''tcpSettings'' (oset ''header'' (http_header path host)) stream else stream)
         else stream)"

definition applyFinalMaskParam :: "query_params \<Rightarrow> jobj \<Rightarrow> jobj" where
  "applyFinalMaskParam params stream =
     (case param_nonempty params ''fm'' of
        None \<Rightarrow> stream
      | Some fm \<Rightarrow>
          (case JSON_parse fm of
             Some (JObj ps) \<Rightarrow> oset ''finalmask'' (JObj ps) stream
           | Some (JArr xs) \<Rightarrow> oset ''finalmask'' (JArr xs) stream
           | _ \<Rightarrow> stream))"

definition applySecurityParams :: "query_params \<Rightarrow> jobj \<Rightarrow> jobj" where
  "applySecurityParams params stream =
     (let get = (\<lambda>k. JStr (param_or params k []))
      in if oget stream ''security'' = JStr ''tls'' then
           set_in ''tlsSettings'' (\<lambda>tls.
             (let tls = oset ''fingerprint'' (get ''fp'') (oset ''serverName'' (get ''sni'') tls);
                  tls = (case param_nonempty params ''alpn'' of Some a \<Rightarrow> oset ''alpn'' (JArr (map JStr (split_on CHR '','' a))) tls | None \<Rightarrow> tls)
              in oset ''pinnedPeerCertSha256'' (get ''pcs'') (oset ''verifyPeerCertByName'' (get ''vcn'') (oset ''echConfigList'' (get ''ech'') tls)))) stream
         else if oget stream ''security'' = JStr ''reality'' then
           set_in ''realitySettings'' (\<lambda>r.
             oset ''mldsa65Verify'' (get ''pqv'') (oset ''spiderX'' (get ''spx'') (oset ''shortId'' (get ''sid'') (oset ''publicKey'' (get ''pbk'')
               (oset ''fingerprint'' (JStr (param_or params ''fp'' ''chrome'')) (oset ''serverName'' (get ''sni'') r)))))) stream
         else stream)"

definition decodeRemark :: "url \<Rightarrow> string" where
  "decodeRemark u =
     (let h = (if take 1 (url_hash u) = ''#'' then drop 1 (url_hash u) else url_hash u)
      in case decodeURIComponent h of Some r \<Rightarrow> r | None \<Rightarrow> h)"

section \<open>VMess\<close>

definition base64_decode_text :: "string \<Rightarrow> string option" where
  "base64_decode_text s = map_option of_points (Base64_decode s)"

text \<open>The \<open>net\<close>-specific part of the JSON; \<^const>\<open>None\<close> when a value that is not a text is split.\<close>

definition vmess_transport :: "jobj \<Rightarrow> jv \<Rightarrow> jobj \<Rightarrow> jobj option" where
  "vmess_transport json network stream =
     (let get = (\<lambda>k d. or_else (oget json k) (JStr d))
      in if network = JStr ''tcp'' \<and> oget json ''type'' = JStr ''http'' then
           (case (get ''path'' ''/'', if truthy (oget json ''host'') then oget json ''host'' else empty_str) of
              (JStr path, JStr host) \<Rightarrow> Some (set_in ''tcpSettings'' (oset ''header'' (http_header path host)) stream)
            | _ \<Rightarrow> None)
         else if network = JStr ''ws'' then
           Some (set_in ''wsSettings'' (\<lambda>s. oset ''path'' (get ''path'' ''/'') (oset ''host'' (get ''host'' []) s)) stream)
         else if network = JStr ''grpc'' then
           Some (set_in ''grpcSettings'' (\<lambda>s. oset ''multiMode'' (JBool (oget json ''type'' = JStr ''multi''))
             (oset ''authority'' (get ''authority'' []) (oset ''serviceName'' (get ''path'' []) s))) stream)
         else if network = JStr ''httpupgrade'' then
           Some (set_in ''httpupgradeSettings'' (\<lambda>s. oset ''path'' (get ''path'' ''/'') (oset ''host'' (get ''host'' []) s)) stream)
         else if network = JStr ''xhttp'' then
           Some (set_in ''xhttpSettings'' (\<lambda>s.
             (let s = oset ''path'' (get ''path'' ''/'') (oset ''host'' (get ''host'' []) s);
                  s = (if truthy (oget json ''mode'') then oset ''mode'' (oget json ''mode'') s else s)
              in applyXhttpStringFromJson json s)) stream)
         else Some stream)"

definition vmess_security :: "jobj \<Rightarrow> jobj \<Rightarrow> jobj option" where
  "vmess_security json stream =
     (let set_names = (\<lambda>tls. oset ''fingerprint'' (or_else (oget json ''fp'') empty_str)
          (oset ''serverName'' (or_else (oget json ''sni'') empty_str) tls))
      in if oget stream ''security'' \<noteq> JStr ''tls'' then Some stream
         else if truthy (oget json ''alpn'') then
           (case oget json ''alpn'' of
              JStr a \<Rightarrow> Some (set_in ''tlsSettings'' (\<lambda>tls. oset ''alpn'' (JArr (map JStr (split_on CHR '','' a))) (set_names tls)) stream)
            | _ \<Rightarrow> None)
         else Some (set_in ''tlsSettings'' set_names stream))"

definition vmess_outbound :: "jobj \<Rightarrow> jobj \<Rightarrow> jobj" where
  "vmess_outbound json stream =
     [(''protocol'', JStr ''vmess''), (''tag'', JStr (asString (oget json ''ps''))),
      (''settings'', JObj [(''vnext'', JArr [JObj [
         (''address'', or_else (oget json ''add'') empty_str),
         (''port'', JNum (num_or (to_Number (oget json ''port'')) 443)),
         (''users'', JArr [JObj [(''id'', or_else (oget json ''id'') empty_str),
            (''security'', or_truthy (oget json ''scy'') (JStr ''auto''))]])]])]),
      (''streamSettings'', JObj stream)]"

definition parseVmessLink :: "string \<Rightarrow> jobj option" where
  "parseVmessLink link =
     (if \<not> starts_with link ''vmess://'' then None
      else case base64_decode_text (drop 8 link) of
        None \<Rightarrow> None
      | Some decoded \<Rightarrow>
          (case JSON_parse decoded of
             None \<Rightarrow> None
           | Some JNull \<Rightarrow> None
           | Some v \<Rightarrow>
               (let json = (case v of JObj ps \<Rightarrow> ps | _ \<Rightarrow> []);
                    network = or_truthy (oget json ''net'') (JStr ''tcp'');
                    security = (if oget json ''tls'' = JStr ''tls'' then ''tls'' else ''none'')
                in Option.bind (vmess_transport json network (buildStream network security))
                     (\<lambda>stream. map_option (vmess_outbound json) (vmess_security json stream)))))"

section \<open>Links that are URLs\<close>

definition parseUrlLink :: "(string \<Rightarrow> string option) \<Rightarrow> string \<Rightarrow> string \<Rightarrow> url option" where
  "parseUrlLink ipv6 link expectedProto =
     (case url_parse ipv6 link of
        None \<Rightarrow> None
      | Some u \<Rightarrow> if u_scheme u \<noteq> expectedProto then None else Some u)"

definition link_port :: "url \<Rightarrow> jsnum" where
  "link_port u = num_or (Number_of (url_port u)) 443"

definition link_stream :: "query_params \<Rightarrow> string \<Rightarrow> jobj" where
  "link_stream params default_security =
     applyFinalMaskParam params (applySecurityParams params (applyTransportParams params
       (buildStream (JStr (param_or params ''type'' ''tcp'')) (param_or params ''security'' default_security))))"

definition parseVlessLink :: "(string \<Rightarrow> string option) \<Rightarrow> string \<Rightarrow> jobj option" where
  "parseVlessLink ipv6 link =
     map_option (\<lambda>u. let params = searchParams u in
       [(''protocol'', JStr ''vless''), (''tag'', JStr (decodeRemark u)),
        (''settings'', JObj [(''address'', JStr (url_hostname u)), (''port'', JNum (link_port u)), (''id'', JStr (u_username u)),
           (''flow'', JStr (param_or params ''flow'' [])), (''encryption'', JStr (param_or params ''encryption'' ''none''))]),
        (''streamSettings'', JObj (link_stream params ''none''))])
       (parseUrlLink ipv6 link ''vless'')"

definition parseTrojanLink :: "(string \<Rightarrow> string option) \<Rightarrow> string \<Rightarrow> jobj option" where
  "parseTrojanLink ipv6 link =
     map_option (\<lambda>u. let params = searchParams u in
       [(''protocol'', JStr ''trojan''), (''tag'', JStr (decodeRemark u)),
        (''settings'', JObj [(''servers'', JArr [JObj [(''address'', JStr (url_hostname u)), (''port'', JNum (link_port u)),
           (''password'', JStr (u_username u))]])]),
        (''streamSettings'', JObj (link_stream params ''tls''))])
       (parseUrlLink ipv6 link ''trojan'')"

section \<open>Shadowsocks\<close>

text \<open>\<open>host:port\<close> cut at the last colon.\<close>

definition host_port :: "string \<Rightarrow> (string \<times> jsnum) option" where
  "host_port s = map_option (\<lambda>i. (take i s, num_or (Number_of (drop (Suc i) s)) 443)) (last_index_of CHR '':'' s)"

definition decode_userinfo :: "string \<Rightarrow> string" where
  "decode_userinfo raw =
     (let decoded = (if CHR '':'' \<in> set raw then decodeURIComponent raw else base64_decode_text raw)
      in case decoded of Some t \<Rightarrow> t | None \<Rightarrow> raw)"

definition shadowsocks_outbound :: "string \<Rightarrow> string \<Rightarrow> string \<times> jsnum \<Rightarrow> jobj" where
  "shadowsocks_outbound remark userInfo hp =
     (let (name, pw) = cut_at CHR '':'' userInfo;
          (method, password) = (case pw of None \<Rightarrow> (''2022-blake3-aes-128-gcm'', userInfo) | Some p \<Rightarrow> (name, p))
      in [(''protocol'', JStr ''shadowsocks''), (''tag'', JStr remark),
          (''settings'', JObj [(''servers'', JArr [JObj [(''address'', JStr (fst hp)), (''port'', JNum (snd hp)),
             (''password'', JStr password), (''method'', JStr method)]])])])"

definition parseShadowsocksLink :: "string \<Rightarrow> jobj option" where
  "parseShadowsocksLink link =
     (if \<not> starts_with link ''ss://'' then None
      else
        (let (linkNoHash, hash) = cut_at CHR ''#'' link;
             remark = (case hash of None \<Rightarrow> [] | Some h \<Rightarrow> or_empty (decodeURIComponent h));
             core = fst (cut_at CHR ''?'' linkNoHash)
         in case cut_at CHR ''@'' core of
              (before, Some hostPort) \<Rightarrow>
                map_option (shadowsocks_outbound remark (decode_userinfo (drop 5 before))) (host_port hostPort)
            | (_, None) \<Rightarrow>
                (case base64_decode_text (drop 5 core) of
                   None \<Rightarrow> None
                 | Some decoded \<Rightarrow>
                     (case cut_at CHR ''@'' decoded of
                        (_, None) \<Rightarrow> None
                      | (userInfo, Some hostPort) \<Rightarrow> map_option (shadowsocks_outbound remark userInfo) (host_port hostPort)))))"

section \<open>Hysteria and WireGuard\<close>

definition hysteria_stream :: "url \<Rightarrow> jobj" where
  "hysteria_stream u =
     (let params = searchParams u; get = (\<lambda>k. JStr (param_or params k []))
      in applyFinalMaskParam params
        [(''network'', JStr ''hysteria''), (''security'', JStr ''tls''),
         (''hysteriaSettings'', JObj [(''version'', jnum 2), (''auth'', JStr (u_username u)), (''udpIdleTimeout'', jnum 60)]),
         (''tlsSettings'', JObj [(''serverName'', get ''sni''),
            (''alpn'', JArr (case param_nonempty params ''alpn'' of Some a \<Rightarrow> map JStr (split_on CHR '','' a) | None \<Rightarrow> [JStr ''h3''])),
            (''fingerprint'', get ''fp''), (''echConfigList'', get ''ech''), (''verifyPeerCertByName'', get ''vcn''),
            (''pinnedPeerCertSha256'', get ''pinSHA256'')])])"

definition or_parse :: "'a option \<Rightarrow> 'a option \<Rightarrow> 'a option" where
  "or_parse a b = (case a of Some x \<Rightarrow> Some x | None \<Rightarrow> b)"

definition parseHysteria2Link :: "(string \<Rightarrow> string option) \<Rightarrow> string \<Rightarrow> jobj option" where
  "parseHysteria2Link ipv6 link =
     map_option (\<lambda>u.
       [(''protocol'', JStr ''hysteria''), (''tag'', JStr (decodeRemark u)),
        (''settings'', JObj [(''address'', JStr (url_hostname u)), (''port'', JNum (link_port u)), (''version'', jnum 2)]),
        (''streamSettings'', JObj (hysteria_stream u))])
       (or_parse (parseUrlLink ipv6 link ''hysteria2'') (parseUrlLink ipv6 link ''hy2''))"

fun firstParam :: "query_params \<Rightarrow> string list \<Rightarrow> string option" where
  "firstParam params [] = None"
| "firstParam params (k # ks) = (case param_nonempty params k of Some v \<Rightarrow> Some v | None \<Rightarrow> firstParam params ks)"

definition trimmed_parts :: "string \<Rightarrow> jv list" where
  "trimmed_parts s = map JStr (filter (\<lambda>p. p \<noteq> []) (map text_trim (split_on CHR '','' s)))"

definition finite_field :: "string \<Rightarrow> string option \<Rightarrow> jobj" where
  "finite_field key raw =
     (case raw of None \<Rightarrow> [] | Some s \<Rightarrow> if is_finite (Number_of s) then [(key, JNum (Number_of s))] else [])"

definition wireguard_endpoint :: "url \<Rightarrow> string" where
  "wireguard_endpoint u =
     (if url_hostname u = [] then [] else if url_port u \<noteq> [] then url_hostname u @ '':'' @ url_port u else url_hostname u)"

definition wireguard_peer_object :: "url \<Rightarrow> jobj" where
  "wireguard_peer_object u =
     (let params = searchParams u
      in [(''publicKey'', JStr (or_empty (firstParam params [''publickey'', ''publicKey'', ''public_key'', ''peerPublicKey'']))),
          (''endpoint'', JStr (wireguard_endpoint u)),
          (''allowedIPs'', JArr (case firstParam params [''allowedips'', ''allowed_ips''] of
              Some s \<Rightarrow> trimmed_parts s | None \<Rightarrow> [JStr ''0.0.0.0/0'', JStr ''::/0'']))]
         @ (case firstParam params [''presharedkey'', ''preshared_key'', ''pre-shared-key'', ''psk''] of
              Some s \<Rightarrow> [(''preSharedKey'', JStr s)] | None \<Rightarrow> [])
         @ finite_field ''keepAlive'' (firstParam params [''keepalive'', ''persistentkeepalive'', ''persistent_keepalive'']))"

definition wireguard_reserved :: "query_params \<Rightarrow> jobj" where
  "wireguard_reserved params =
     (case firstParam params [''reserved''] of
        None \<Rightarrow> []
      | Some s \<Rightarrow>
          (let reserved = filter is_finite (map (\<lambda>p. Number_of (text_trim p)) (split_on CHR '','' s))
           in if reserved \<noteq> [] then [(''reserved'', JArr (map JNum reserved))] else []))"

definition parseWireguardLink :: "(string \<Rightarrow> string option) \<Rightarrow> string \<Rightarrow> jobj option" where
  "parseWireguardLink ipv6 link =
     map_option (\<lambda>u. let params = searchParams u in
       [(''protocol'', JStr ''wireguard''), (''tag'', JStr (decodeRemark u)),
        (''settings'', JObj (
           [(''secretKey'', JStr (case decodeURIComponent (u_username u) of Some s \<Rightarrow> s | None \<Rightarrow> u_username u)),
            (''address'', JArr (trimmed_parts (or_empty (firstParam params [''address'', ''ip''])))),
            (''peers'', JArr [JObj (wireguard_peer_object u)])]
           @ finite_field ''mtu'' (firstParam params [''mtu'']) @ wireguard_reserved params))])
       (or_parse (parseUrlLink ipv6 link ''wireguard'') (parseUrlLink ipv6 link ''wg''))"

definition parseOutboundLink :: "(string \<Rightarrow> string option) \<Rightarrow> string \<Rightarrow> jobj option" where
  "parseOutboundLink ipv6 link =
     (let trimmed = text_trim link
      in if trimmed = [] then None
         else or_parse (parseVmessLink trimmed) (or_parse (parseVlessLink ipv6 trimmed) (or_parse (parseTrojanLink ipv6 trimmed)
           (or_parse (parseShadowsocksLink trimmed) (or_parse (parseHysteria2Link ipv6 trimmed) (parseWireguardLink ipv6 trimmed))))))"

end
