(* ===== verification/Share_Fanout.thy ===== *)
theory Share_Fanout
  imports Share_Links
begin

text \<open>
  The rest of \<open>frontend/src/lib/xray/inbound-link.ts\<close>: WireGuard links and configuration texts,
  the address a link carries, and the functions that fan a client or an inbound out into links.
\<close>

section \<open>WireGuard\<close>

definition server_public_key :: "wireguard_settings \<Rightarrow> string option" where
  "server_public_key settings =
     (if wg_secretKey settings \<noteq> [] then map_option publicKey (generateKeypair (\<lambda>_. 0) (wg_secretKey settings)) else Some [])"

definition nth_peer :: "wireguard_settings \<Rightarrow> nat \<Rightarrow> share_peer option" where
  "nth_peer settings i = (if i < length (wg_peers settings) then Some (wg_peers settings ! i) else None)"

definition first_or_empty :: "string list \<Rightarrow> string" where
  "first_or_empty xs = (case xs of [] \<Rightarrow> [] | x # _ \<Rightarrow> x)"

definition search_set_nonempty :: "string \<Rightarrow> string \<Rightarrow> url \<Rightarrow> url" where
  "search_set_nonempty k v u = (if v \<noteq> [] then search_set k v u else u)"

definition wireguard_mtu :: "wireguard_settings \<Rightarrow> string" where
  "wireguard_mtu settings = (case wg_mtu settings of Some m \<Rightarrow> if m > 0 then int_str m else [] | None \<Rightarrow> [])"

definition genWireguardLink :: "(string \<Rightarrow> string option) \<Rightarrow> wireguard_settings \<Rightarrow> string \<Rightarrow> int \<Rightarrow> string \<Rightarrow> nat \<Rightarrow> string option" where
  "genWireguardLink ipv6 settings address port remark peerIndex =
     (case nth_peer settings peerIndex of
        None \<Rightarrow> Some []
      | Some peer \<Rightarrow>
          (case url_parse ipv6 (''wireguard://'' @ formatUrlHost address @ '':'' @ int_str port) of
             None \<Rightarrow> None
           | Some u \<Rightarrow>
               (let u = set_username (or_empty (pe_privateKey peer)) u
                in case server_public_key settings of
                     None \<Rightarrow> None
                   | Some pubKey \<Rightarrow>
                       (let u = search_set_nonempty ''publickey'' pubKey u;
                            u = search_set_nonempty ''address'' (first_or_empty (pe_allowedIPs peer)) u;
                            u = search_set_nonempty ''mtu'' (wireguard_mtu settings) u
                        in Some (url_string (set_hash (encodeURIComponent remark) u))))))"

abbreviation nl :: string where "nl \<equiv> [CHR 10]"

definition config_line :: "string \<Rightarrow> string \<Rightarrow> string" where
  "config_line key v = key @ '' = '' @ v"

definition genWireguardConfig :: "wireguard_settings \<Rightarrow> string \<Rightarrow> int \<Rightarrow> string \<Rightarrow> nat \<Rightarrow> string option" where
  "genWireguardConfig settings address port remark peerIndex =
     (case nth_peer settings peerIndex of
        None \<Rightarrow> Some []
      | Some peer \<Rightarrow>
          (case server_public_key settings of
             None \<Rightarrow> None
           | Some pubKey \<Rightarrow> Some (
               ''[Interface]'' @ nl
               @ config_line ''PrivateKey'' (or_empty (pe_privateKey peer)) @ nl
               @ config_line ''Address'' (first_or_empty (pe_allowedIPs peer)) @ nl
               @ ''DNS = 1.1.1.1, 1.0.0.1'' @ nl
               @ (if wireguard_mtu settings \<noteq> [] then config_line ''MTU'' (wireguard_mtu settings) @ nl else [])
               @ nl @ ''# '' @ remark @ nl
               @ ''[Peer]'' @ nl
               @ config_line ''PublicKey'' pubKey @ nl
               @ ''AllowedIPs = 0.0.0.0/0, ::/0'' @ nl
               @ config_line ''Endpoint'' (address @ '':'' @ int_str port)
               @ (if or_empty (pe_preSharedKey peer) \<noteq> [] then nl @ config_line ''PresharedKey'' (or_empty (pe_preSharedKey peer)) else [])
               @ (case pe_keepAlive peer of
                    Some k \<Rightarrow> if k > 0 then nl @ config_line ''PersistentKeepalive'' (int_str k) @ nl else []
                  | None \<Rightarrow> []))))"

section \<open>The address of a link\<close>

definition isUnixSocketListen :: "string \<Rightarrow> bool" where
  "isUnixSocketListen listen \<longleftrightarrow> starts_with listen ''/'' \<or> starts_with listen ''@''"

definition host_label :: "string \<Rightarrow> bool" where
  "host_label s \<longleftrightarrow> s \<noteq> [] \<and> alnum (hd s) \<and> alnum (last s) \<and> list_all (\<lambda>c. alnum c \<or> c = CHR ''-'') s"

definition is_share_hostname :: "string \<Rightarrow> bool" where
  "is_share_hostname s \<longleftrightarrow> list_all host_label (split_on CHR ''.'' s)"

definition normalizeShareHost :: "(string \<Rightarrow> string option) \<Rightarrow> string \<Rightarrow> string" where
  "normalizeShareHost web_host host =
     (let h = text_trim host
      in if h = [] \<or> str_includes h ''://'' \<or> starts_with h ''//'' \<or> list_ex (\<lambda>c. c \<in> set ''/?#@'') h then []
         else if starts_with h ''['' then
           (if \<not> ends_with h '']'' then [] else or_empty (web_host h))
         else if CHR '':'' \<in> set h then or_empty (web_host (''['' @ h @ '']''))
         else if is_share_hostname h then h else [])"

definition isShareableHost :: "(string \<Rightarrow> string option) \<Rightarrow> string \<Rightarrow> bool" where
  "isShareableHost web_host host =
     (let h = to_lower (strip_brackets (normalizeShareHost web_host host))
      in if h = [] then False
         else if h = ''0.0.0.0'' \<or> h = ''::'' \<or> h = ''::0'' then False
         else if h = ''localhost'' \<or> h = ''::1'' \<or> starts_with h ''127.'' then False
         else True)"

definition shareableListen :: "(string \<Rightarrow> string option) \<Rightarrow> share_inbound \<Rightarrow> string" where
  "shareableListen web_host inbound =
     (let listen = text_trim (ib_listen inbound)
      in if listen \<noteq> [] \<and> \<not> isUnixSocketListen listen \<and> isShareableHost web_host listen
         then normalizeShareHost web_host listen else [])"

datatype share_strategy = Strategy_Node | Strategy_Listen | Strategy_Custom

definition shareAddrStrategy :: "share_inbound \<Rightarrow> share_strategy" where
  "shareAddrStrategy inbound =
     (if ib_shareAddrStrategy inbound = ''listen'' then Strategy_Listen
      else if ib_shareAddrStrategy inbound = ''custom'' then Strategy_Custom else Strategy_Node)"

text \<open>\<open>a || b || ...\<close> of texts.\<close>

fun first_nonempty :: "string list \<Rightarrow> string" where
  "first_nonempty [] = []"
| "first_nonempty (s # ss) = (if s \<noteq> [] then s else first_nonempty ss)"

definition resolveAddr :: "(string \<Rightarrow> string option) \<Rightarrow> share_inbound \<Rightarrow> string \<Rightarrow> string \<Rightarrow> string" where
  "resolveAddr web_host inbound hostOverride fallbackHostname =
     (let nodeAddr = normalizeShareHost web_host hostOverride;
          listenAddr = shareableListen web_host inbound;
          customAddr = normalizeShareHost web_host (ib_shareAddr inbound);
          fallbackAddr = normalizeShareHost web_host fallbackHostname
      in case shareAddrStrategy inbound of
           Strategy_Listen \<Rightarrow> first_nonempty [listenAddr, nodeAddr, fallbackAddr]
         | Strategy_Custom \<Rightarrow> first_nonempty [customAddr, nodeAddr, listenAddr, fallbackAddr]
         | Strategy_Node \<Rightarrow> first_nonempty [nodeAddr, listenAddr, fallbackAddr])"

definition isLoopbackHost :: "string \<Rightarrow> bool" where
  "isLoopbackHost host =
     (let h = to_lower (strip_brackets (text_trim host)) in h = ''localhost'' \<or> h = ''::1'' \<or> starts_with h ''127.'')"

definition preferPublicHost :: "string \<Rightarrow> string \<Rightarrow> string" where
  "preferPublicHost browserHost publicHost = (if publicHost \<noteq> [] \<and> isLoopbackHost browserHost then publicHost else browserHost)"

section \<open>Orchestrators\<close>

definition is_multi_user :: "string \<Rightarrow> bool" where
  "is_multi_user method \<longleftrightarrow> method \<noteq> ''2022-blake3-chacha20-poly1305''"

definition getInboundClients :: "share_inbound \<Rightarrow> client_shape list option" where
  "getInboundClients inbound =
     (case ib_settings inbound of
        In_Vmess clients \<Rightarrow> Some clients
      | In_Vless clients _ _ \<Rightarrow> Some clients
      | In_Trojan clients \<Rightarrow> Some clients
      | In_Hysteria clients _ \<Rightarrow> Some clients
      | In_Shadowsocks clients method _ \<Rightarrow> if is_multi_user method then Some clients else None
      | _ \<Rightarrow> None)"

text \<open>A client without a flow gives \<open>genVlessLink\<close> its default, the empty flow.\<close>

definition genLink :: "(string \<Rightarrow> string option) \<Rightarrow> share_inbound \<Rightarrow> string \<Rightarrow> int \<Rightarrow> string \<Rightarrow> string \<Rightarrow> client_shape
    \<Rightarrow> external_proxy option \<Rightarrow> string option" where
  "genLink ipv6 inbound address port forceTls remark client externalProxy =
     (case ib_settings inbound of
        In_Vmess _ \<Rightarrow> Some (genVmessLink inbound address port forceTls remark (or_empty (cl_id client)) (cl_security client) externalProxy)
      | In_Vless _ _ _ \<Rightarrow>
          genVlessLink ipv6 inbound address port forceTls remark (or_empty (cl_id client)) (or_empty (cl_flow client)) externalProxy
      | In_Shadowsocks _ method _ \<Rightarrow>
          genShadowsocksLink ipv6 inbound address port forceTls remark
            (if is_multi_user method then or_empty (cl_password client) else []) externalProxy
      | In_Trojan _ \<Rightarrow> genTrojanLink ipv6 inbound address port forceTls remark (or_empty (cl_password client)) externalProxy
      | In_Hysteria _ _ \<Rightarrow> genHysteriaLink ipv6 inbound address port remark (or_empty (cl_auth client)) externalProxy
      | In_Mtproto _ \<Rightarrow> genMtprotoLink ipv6 inbound address port
      | _ \<Rightarrow> Some [])"

record links_entry =
  le_remark :: string
  le_link :: string

definition composeRemark :: "string \<Rightarrow> string \<Rightarrow> string" where
  "composeRemark remark proxyRemark = join ''-'' (filter (\<lambda>x. length x > 0) [remark, proxyRemark])"

definition external_entry :: "(string \<Rightarrow> string option) \<Rightarrow> share_inbound \<Rightarrow> string \<Rightarrow> client_shape \<Rightarrow> string \<Rightarrow> external_proxy
    \<Rightarrow> links_entry option" where
  "external_entry ipv6 inbound remark client addr ep =
     (let r = composeRemark remark (ep_remark ep);
          epAddr = (if ep_dest ep \<noteq> [] then ep_dest ep else addr);
          epPort = (if ep_port ep > 0 then ep_port ep else ib_port inbound);
          effective = ep\<lparr>ep_dest := epAddr, ep_port := epPort\<rparr>
      in map_option (\<lambda>l. \<lparr>le_remark = r, le_link = l\<rparr>)
           (genLink ipv6 inbound epAddr epPort (ep_forceTls ep) r client (Some effective)))"

definition genAllLinks :: "(string \<Rightarrow> string option) \<Rightarrow> (string \<Rightarrow> string option) \<Rightarrow> share_inbound \<Rightarrow> string \<Rightarrow> client_shape \<Rightarrow> string
    \<Rightarrow> string \<Rightarrow> links_entry list option" where
  "genAllLinks ipv6 web_host inbound remark client hostOverride fallbackHostname =
     (let addr = resolveAddr web_host inbound hostOverride fallbackHostname;
          externals = (case ib_stream inbound of None \<Rightarrow> None | Some stream \<Rightarrow> st_externalProxy stream)
      in case externals of
           Some (ep # eps) \<Rightarrow> all_some (map (external_entry ipv6 inbound remark client addr) (ep # eps))
         | _ \<Rightarrow> (let r = composeRemark remark []
                 in map_option (\<lambda>l. [\<lparr>le_remark = r, le_link = l\<rparr>])
                      (genLink ipv6 inbound addr (ib_port inbound) ''same'' r client None)))"

definition wgPeerCommentSuffix :: "share_peer \<Rightarrow> string" where
  "wgPeerCommentSuffix peer =
     (case pe_comment peer of
        Some comment \<Rightarrow> if text_trim comment \<noteq> [] then '' ('' @ text_trim comment @ '')'' else []
      | None \<Rightarrow> [])"

definition peer_remark :: "string \<Rightarrow> wireguard_settings \<Rightarrow> nat \<Rightarrow> string" where
  "peer_remark remark settings i = remark @ ''-'' @ nat_str (i + 1) @ wgPeerCommentSuffix (wg_peers settings ! i)"

abbreviation crlf :: string where "crlf \<equiv> [CHR 13, CHR 10]"

definition genWireguardLinks :: "(string \<Rightarrow> string option) \<Rightarrow> (string \<Rightarrow> string option) \<Rightarrow> share_inbound \<Rightarrow> string \<Rightarrow> string \<Rightarrow> string
    \<Rightarrow> string option" where
  "genWireguardLinks ipv6 web_host inbound remark hostOverride fallbackHostname =
     (case ib_settings inbound of
        In_Wireguard settings \<Rightarrow>
          (let addr = resolveAddr web_host inbound hostOverride fallbackHostname
           in map_option (join crlf) (all_some (map (\<lambda>i. genWireguardLink ipv6 settings addr (ib_port inbound)
                (peer_remark remark settings i) i) [0..<length (wg_peers settings)])))
      | _ \<Rightarrow> Some [])"

definition genWireguardConfigs :: "(string \<Rightarrow> string option) \<Rightarrow> share_inbound \<Rightarrow> string \<Rightarrow> string \<Rightarrow> string \<Rightarrow> string option" where
  "genWireguardConfigs web_host inbound remark hostOverride fallbackHostname =
     (case ib_settings inbound of
        In_Wireguard settings \<Rightarrow>
          (let addr = resolveAddr web_host inbound hostOverride fallbackHostname
           in map_option (join crlf) (all_some (map (\<lambda>i. genWireguardConfig settings addr (ib_port inbound)
                (peer_remark remark settings i) i) [0..<length (wg_peers settings)])))
      | _ \<Rightarrow> Some [])"

definition genInboundLinks :: "(string \<Rightarrow> string option) \<Rightarrow> (string \<Rightarrow> string option) \<Rightarrow> share_inbound \<Rightarrow> string \<Rightarrow> string \<Rightarrow> string
    \<Rightarrow> string option" where
  "genInboundLinks ipv6 web_host inbound remark hostOverride fallbackHostname =
     (let addr = resolveAddr web_host inbound hostOverride fallbackHostname
      in case getInboundClients inbound of
           Some clients \<Rightarrow>
             map_option (\<lambda>es. join crlf (map le_link (concat es)))
               (all_some (map (\<lambda>client. genAllLinks ipv6 web_host inbound remark client hostOverride fallbackHostname) clients))
         | None \<Rightarrow>
             (case ib_settings inbound of
                In_Shadowsocks _ _ _ \<Rightarrow> genShadowsocksLink ipv6 inbound addr (ib_port inbound) ''same'' remark [] None
              | In_Wireguard _ \<Rightarrow> genWireguardConfigs web_host inbound remark hostOverride fallbackHostname
              | _ \<Rightarrow> Some []))"

definition isPostQuantumLink :: "string \<Rightarrow> bool" where
  "isPostQuantumLink link \<longleftrightarrow> str_includes link ''?pqv='' \<or> str_includes link ''&pqv=''
     \<or> str_includes link ''mlkem768'' \<or> str_includes link ''mldsa65'' \<or> str_includes link ''ML-KEM-768''"

end
