(* ===== verification/Link_Roundtrip.thy ===== *)
theory Link_Roundtrip
  imports Link_Parser Share_Fanout
begin

text \<open>
  Links that are made and read back: the URL layer shared by the URL-shaped links, then VLESS,
  Trojan, Hysteria and WireGuard links, and the hand-built Shadowsocks 2022 links.
\<close>

section \<open>Parameter lists\<close>

definition params_ok :: "query_params \<Rightarrow> bool" where
  "params_ok ps \<longleftrightarrow> distinct (map fst ps) \<and> (\<forall>(k, v) \<in> set ps. valid_text k \<and> valid_text v)"

definition good_keys :: "query_params \<Rightarrow> bool" where
  "good_keys ps \<longleftrightarrow> distinct (map fst ps) \<and> (\<forall>k \<in> set (map fst ps). ascii_text k)"

lemma params_set_keys: "set (map fst (params_set k v ps)) = insert k (set (map fst ps))"
  by (induction k v ps rule: params_set.induct) auto

lemma params_set_new: "k \<notin> set (map fst ps) \<Longrightarrow> params_set k v ps = ps @ [(k, v)]"
  by (induction k v ps rule: params_set.induct) auto

lemma params_set_distinct: "distinct (map fst ps) \<Longrightarrow> distinct (map fst (params_set k v ps))"
proof (induction k v ps rule: params_set.induct)
  case (2 k v j w ps)
  have "distinct (map fst (filter (\<lambda>p. fst p \<noteq> k) ps))" using 2(2) by (simp add: distinct_map_filter)
  moreover have "j \<notin> set (map fst (params_set k v ps)) \<or> j = k" using 2(2) by (auto simp: params_set_keys [unfolded set_map])
  ultimately show ?case using 2 by auto
qed simp

lemma good_keys_set [intro]: "ascii_text k \<Longrightarrow> good_keys ps \<Longrightarrow> good_keys (params_set k v ps)"
  by (auto simp: good_keys_def params_set_distinct params_set_keys simp del: set_map)

lemma good_keys_nil [simp]: "good_keys []"
  by (simp add: good_keys_def)

lemma good_keys_if [intro]: "good_keys a \<Longrightarrow> good_keys b \<Longrightarrow> good_keys (if c then a else b)"
  by simp

lemma good_keys_nonempty [intro]: "ascii_text k \<Longrightarrow> good_keys ps \<Longrightarrow> good_keys (set_nonempty k v ps)"
  by (auto simp: set_nonempty_def)

lemma good_keys_ok: "good_keys ps \<Longrightarrow> \<forall>(k, v) \<in> set ps. valid_text v \<Longrightarrow> params_ok ps"
  by (fastforce simp: good_keys_def params_ok_def intro: ascii_valid)

lemma get_set: "params_get (params_set k v ps) j = (if j = k then Some v else params_get ps j)"
  using params.get_put [of k v ps] by simp

declare params_set.simps [simp del] JSON_stringify.simps [simp del]

section \<open>From a base URL to a link and back\<close>

definition base_url :: "string \<Rightarrow> string \<Rightarrow> string \<Rightarrow> nat \<Rightarrow> url" where
  "base_url scheme user host p = \<lparr>u_scheme = scheme, u_username = user, u_password = [], u_host = Some host, u_port = Some p,
     u_path = [], u_query = None, u_fragment = None\<rparr>"

definition final_url :: "string \<Rightarrow> string \<Rightarrow> string \<Rightarrow> nat \<Rightarrow> query_params \<Rightarrow> string \<Rightarrow> url" where
  "final_url scheme user host p ps remark =
     (base_url scheme user host p)\<lparr>u_query := if ps = [] then None else Some (params_string ps),
       u_fragment := if remark = [] then None else Some (encodeURIComponent remark)\<rparr>"

lemma search_set_all:
  assumes "params_ok ps" and "u_query u = None"
  shows "fold (\<lambda>(k, v). search_set k v) ps u = (if ps = [] then u else u\<lparr>u_query := Some (params_string ps)\<rparr>)"
  using assms
proof (induction ps rule: rev_induct)
  case (snoc p ps)
  obtain k v where p: "p = (k, v)" by (cases p)
  have ok: "params_ok ps" and new: "k \<notin> set (map fst ps)" using snoc.prems(1) p by (auto simp: params_ok_def)
  have s: "searchParams (fold (\<lambda>(k, v). search_set k v) ps u) = ps"
  proof (cases "ps = []")
    case True thus ?thesis using snoc.prems(2) by (simp add: searchParams_def)
  next
    case False
    have "params_parse (params_string ps) = ps" using ok by (intro params_roundtrip) (auto simp: params_ok_def)
    thus ?thesis using snoc.IH [OF ok snoc.prems(2)] False by (simp add: searchParams_def)
  qed
  have e: "fold (\<lambda>(k, v). search_set k v) (ps @ [p]) u = search_set k v (fold (\<lambda>(k, v). search_set k v) ps u)"
    by (simp add: p)
  have "search_set k v (fold (\<lambda>(k, v). search_set k v) ps u)
      = (fold (\<lambda>(k, v). search_set k v) ps u)\<lparr>u_query := Some (params_string (ps @ [(k, v)]))\<rparr>"
    unfolding search_set_def [of k v] s params_set_new [OF new] ..
  also have "\<dots> = u\<lparr>u_query := Some (params_string (ps @ [(k, v)]))\<rparr>"
    unfolding snoc.IH [OF ok snoc.prems(2)] by simp
  finally show ?case unfolding e by (simp add: p)
qed simp

lemma uri_clean_fragment: "uri_clean c \<Longrightarrow> \<not> fragment_set c \<and> c \<noteq> CHR ''#'' \<and> code c \<noteq> 9 \<and> code c \<noteq> 10 \<and> code c \<noteq> 13"
  by (auto simp: uri_clean_def uri_unreserved_def alnum_def is_digit_def is_lower_def is_upper_def fragment_set_def c0_set_def)

lemma set_hash_encoded:
  "set_hash (encodeURIComponent remark) u = u\<lparr>u_fragment := if remark = [] then None else Some (encodeURIComponent remark)\<rparr>"
proof (cases "remark = []")
  case True thus ?thesis by (simp add: set_hash_def encodeURIComponent_def)
next
  case False
  let ?e = "encodeURIComponent remark"
  have c: "\<And>c. c \<in> set ?e \<Longrightarrow> \<not> fragment_set c \<and> c \<noteq> CHR ''#'' \<and> code c \<noteq> 9 \<and> code c \<noteq> 10 \<and> code c \<noteq> 13"
    using uri_encode_clean uri_clean_fragment by blast
  have n: "?e \<noteq> []" using False by (cases remark) (auto simp: encodeURIComponent_def encode_set_Cons pct_def)
  have h: "take 1 ?e \<noteq> ''#''" using c n by (cases ?e) auto
  have f: "filter (\<lambda>c. code c \<noteq> 9 \<and> code c \<noteq> 10 \<and> code c \<noteq> 13) ?e = ?e" using c by (auto simp: filter_id_conv)
  have s: "encode_set fragment_set ?e = ?e" using c by (intro encode_set_id) (auto simp: list_all_iff)
  show ?thesis using n h f s False by (simp add: set_hash_def Let_def)
qed

lemma finish_link_base:
  assumes "params_ok ps"
  shows "finish_link ps remark (base_url scheme user host p) = url_string (final_url scheme user host p ps remark)"
  by (simp add: finish_link_def search_set_all [OF assms] set_hash_encoded base_url_def final_url_def)

definition user_ok :: "string \<Rightarrow> bool" where
  "user_ok user \<longleftrightarrow> user \<noteq> [] \<and> list_all (\<lambda>c. \<not> userinfo_set c) user"

lemma query_string_clean: "c \<in> set (params_string ps) \<Longrightarrow> \<not> query_set c"
  by (drule params_string_chars)
    (auto simp: form_clean_def form_safe_def alnum_def is_digit_def is_lower_def is_upper_def query_set_def c0_set_def)

lemma final_link_url:
  assumes "scheme_ok scheme" "list_all (\<lambda>c. \<not> userinfo_set c) user" "link_host ipv6 host" "p \<le> 65535"
  shows "link_url ipv6 (final_url scheme user host p ps remark)"
  using assms query_string_clean uri_encode_clean [of _ remark] uri_clean_fragment
  by (auto simp: link_url_def final_url_def base_url_def list_all_iff)

lemma base_string:
  assumes "user_ok user"
  shows "link_base scheme user address (int p) = url_string (base_url scheme user (formatUrlHost address) p)"
  using assms by (simp add: link_base_def url_string_def base_url_def user_ok_def int_str_def)

text \<open>The link, and what a parser sees when it reads the link.\<close>

lemma made_link:
  assumes "scheme_ok scheme" "user_ok user" "link_host ipv6 (formatUrlHost address)" "p \<le> 65535" "params_ok ps"
  shows "make_link ipv6 (link_base scheme user address (int p)) ps remark
      = Some (url_string (final_url scheme user (formatUrlHost address) p ps remark))"
    and "url_parse ipv6 (url_string (final_url scheme user (formatUrlHost address) p ps remark))
      = Some (final_url scheme user (formatUrlHost address) p ps remark)"
proof -
  have u: "list_all (\<lambda>c. \<not> userinfo_set c) user" using assms(2) by (simp add: user_ok_def)
  have "link_url ipv6 (base_url scheme user (formatUrlHost address) p)"
    using assms(1,3,4) u by (simp add: link_url_def base_url_def)
  hence "url_parse ipv6 (link_base scheme user address (int p)) = Some (base_url scheme user (formatUrlHost address) p)"
    unfolding base_string [OF assms(2)] by (rule url_roundtrip)
  thus "make_link ipv6 (link_base scheme user address (int p)) ps remark
      = Some (url_string (final_url scheme user (formatUrlHost address) p ps remark))"
    by (simp add: make_link_def finish_link_base [OF assms(5)])
  show "url_parse ipv6 (url_string (final_url scheme user (formatUrlHost address) p ps remark))
      = Some (final_url scheme user (formatUrlHost address) p ps remark)"
    by (rule url_roundtrip [OF final_link_url [OF assms(1) u assms(3,4)]])
qed

lemma final_params: "params_ok ps \<Longrightarrow> searchParams (final_url scheme user host p ps remark) = ps"
  using params_roundtrip [of ps] by (auto simp: searchParams_def final_url_def base_url_def params_ok_def)

lemma final_fields [simp]:
  "u_scheme (final_url scheme user host p ps remark) = scheme"
  "u_username (final_url scheme user host p ps remark) = user"
  "url_hostname (final_url scheme user host p ps remark) = host"
  "url_port (final_url scheme user host p ps remark) = nat_str p"
  by (simp_all add: final_url_def base_url_def url_hostname_def url_port_def)

lemma ascii_trim: "ascii_text s \<Longrightarrow> \<forall>c \<in> set s. \<not> is_space c \<Longrightarrow> text_trim s = s"
proof -
  assume a: "ascii_text s" and n: "\<forall>c \<in> set s. \<not> is_space c"
  have "\<forall>c \<in> set (map code s). scalar_value c" using a by (fastforce simp: ascii_text_def list_all_iff scalar_value_def)
  hence p: "text_points s = map code s"
    using arg_cong [OF ascii_points [OF a], of text_points] of_points_scalars [of "map code s"] by simp
  have b: "\<forall>c \<in> set s. \<not> blank_point (code c)"
    using n a by (auto simp: blank_point_def is_space_def ascii_text_def list_all_iff)
  have "dropWhile blank_point (map code s) = map code s" using b by (cases s) auto
  moreover have "dropWhile blank_point (rev (map code s)) = rev (map code s)"
    using b by (cases "rev s") (auto simp: rev_map)
  ultimately show ?thesis using ascii_points [OF a] by (simp add: text_trim_def p)
qed

lemma nat_str_ascii: "ascii_text (nat_str n)" "\<forall>c \<in> set (nat_str n). \<not> is_space c"
  by (auto simp: ascii_text_def list_all_iff is_digit_def is_space_def dest!: nat_str_digits)

lemma final_port: "0 < p \<Longrightarrow> p \<le> 65535 \<Longrightarrow> link_port (final_url scheme user host p ps remark) = num (int p)"
  by (simp add: link_port_def Number_of_def ascii_trim [OF nat_str_ascii] num_or_def num_truthy_def)

lemma final_remark: "valid_text remark \<Longrightarrow> decodeRemark (final_url scheme user host p ps remark) = remark"
proof -
  assume v: "valid_text remark"
  show ?thesis
  proof (cases "remark = []")
    case True thus ?thesis by (simp add: decodeRemark_def url_hash_def final_url_def decodeURIComponent_def)
  next
    case False
    have "encodeURIComponent remark \<noteq> []" using False by (cases remark) (auto simp: encodeURIComponent_def encode_set_Cons pct_def)
    thus ?thesis using False decode_encode_uri [OF v]
      by (simp add: decodeRemark_def url_hash_def final_url_def)
  qed
qed

section \<open>The parameter lists of the generators\<close>

lemma ascii_keys [intro, simp]:
  "ascii_text ''type''" "ascii_text ''encryption''" "ascii_text ''path''" "ascii_text ''host''" "ascii_text ''headerType''"
  "ascii_text ''mtu''" "ascii_text ''tti''" "ascii_text ''serviceName''" "ascii_text ''authority''" "ascii_text ''mode''"
  "ascii_text ''x_padding_bytes''" "ascii_text ''extra''" "ascii_text ''fm''" "ascii_text ''security''" "ascii_text ''fp''"
  "ascii_text ''alpn''" "ascii_text ''sni''" "ascii_text ''ech''" "ascii_text ''vcn''" "ascii_text ''pcs''" "ascii_text ''pbk''"
  "ascii_text ''sid''" "ascii_text ''spx''" "ascii_text ''pqv''" "ascii_text ''flow''" "ascii_text ''pinSHA256''" "ascii_text ''obfs''"
  "ascii_text ''obfs-password''" "ascii_text ''mport''" "ascii_text ''publickey''" "ascii_text ''address''"
  by (simp_all add: ascii_text_def)

lemma good_keys_network: "good_keys ps \<Longrightarrow> good_keys (writeNetworkParams n ps)"
  by (auto simp: writeNetworkParams_def applyXhttpExtraToParams_def Let_def
      intro!: good_keys_set split: network.split option.split tcp_header.split jv.split)

lemma good_keys_mask: "good_keys ps \<Longrightarrow> good_keys (applyFinalMaskToParams fm ps)"
  by (auto simp: applyFinalMaskToParams_def Let_def)

lemma good_keys_tls: "good_keys ps \<Longrightarrow> good_keys (writeTlsParams s ps)" "good_keys ps \<Longrightarrow> good_keys (vless_tls s ps)"
  by (auto simp: writeTlsParams_def vless_tls_def Let_def intro!: good_keys_set good_keys_nonempty split: security.split)

lemma good_keys_reality: "good_keys ps \<Longrightarrow> good_keys (writeRealityParams s ps)"
  by (auto simp: writeRealityParams_def Let_def intro!: good_keys_set good_keys_nonempty split: security.split list.split)

lemma good_keys_fold: "\<forall>(k, v) \<in> set kvs. ascii_text k \<Longrightarrow> good_keys ps \<Longrightarrow> good_keys (fold (\<lambda>(k, v). params_set k v) kvs ps)"
  by (induction kvs arbitrary: ps) auto

lemma good_keys_external: "good_keys ps \<Longrightarrow> good_keys (applyExternalProxyTLSParams ep s ps)"
  by (auto simp: applyExternalProxyTLSParams_def external_tls_def simp del: filter.simps intro!: good_keys_fold split: option.split)

lemmas good_keys_writers = good_keys_network good_keys_mask good_keys_tls good_keys_reality good_keys_external

lemma good_keys_vless: "good_keys (vless_params stream enc dec forceTls flow ep)"
  unfolding vless_params_def Let_def
  by (intro good_keys_if good_keys_set good_keys_writers ascii_keys good_keys_nil)

lemma good_keys_trojan: "good_keys (trojan_params stream forceTls ep)"
  unfolding trojan_params_def Let_def
  by (intro good_keys_if good_keys_set good_keys_writers ascii_keys good_keys_nil)

lemma good_keys_hysteria: "good_keys (hysteria_params tls fm ep)"
  unfolding hysteria_params_def Let_def
  by (auto intro!: good_keys_mask good_keys_set good_keys_nonempty split: option.split)

section \<open>Looking parameters up\<close>

definition link_network_keys :: "string list" where
  "link_network_keys = [''path'', ''host'', ''headerType'', ''mtu'', ''tti'', ''serviceName'', ''authority'', ''mode'', ''x_padding_bytes'', ''extra'']"

definition tls_keys :: "string list" where
  "tls_keys = [''fp'', ''alpn'', ''ech'', ''sni'', ''vcn'', ''pcs'']"

definition reality_keys :: "string list" where
  "reality_keys = [''pbk'', ''fp'', ''sni'', ''sid'', ''spx'', ''pqv'']"

lemma get_nonempty: "params_get (set_nonempty k v ps) j = (if j = k \<and> v \<noteq> [] then Some v else params_get ps j)"
  by (simp add: set_nonempty_def get_set)

lemma get_xhttp_other: "k \<notin> set link_network_keys \<Longrightarrow> params_get (applyXhttpExtraToParams x ps) k = params_get ps k"
  by (simp add: link_network_keys_def applyXhttpExtraToParams_def Let_def get_set split: option.split jv.split)

lemma get_network_other: "k \<notin> set link_network_keys \<Longrightarrow> params_get (writeNetworkParams n ps) k = params_get ps k"
  by (cases n) (simp_all add: writeNetworkParams_def get_xhttp_other,
    simp_all add: link_network_keys_def Let_def get_set split: option.split tcp_header.split)

lemma get_mask_other: "k \<noteq> ''fm'' \<Longrightarrow> params_get (applyFinalMaskToParams fm ps) k = params_get ps k"
  by (simp add: applyFinalMaskToParams_def Let_def get_set)

lemma get_tls_other:
  "k \<notin> set tls_keys \<Longrightarrow> params_get (writeTlsParams s ps) k = params_get ps k"
  "k \<notin> set tls_keys \<Longrightarrow> params_get (vless_tls s ps) k = params_get ps k"
  by (simp_all add: tls_keys_def writeTlsParams_def vless_tls_def Let_def get_set get_nonempty split: security.split)

lemma get_reality_other: "k \<notin> set reality_keys \<Longrightarrow> params_get (writeRealityParams s ps) k = params_get ps k"
  by (simp add: reality_keys_def writeRealityParams_def Let_def get_set get_nonempty split: security.split list.split)

lemma get_fold: "params_get (fold (\<lambda>(k, v). params_set k v) kvs ps) k = (case map_of (rev kvs) k of None \<Rightarrow> params_get ps k | Some v \<Rightarrow> Some v)"
  by (rule params.get_put_all)

lemma external_tls_keys: "(k, v) \<in> set (external_tls ep) \<Longrightarrow> k \<in> set tls_keys"
  by (auto simp: external_tls_def tls_keys_def simp del: filter.simps)

lemma get_external_other:
  assumes "k \<notin> set tls_keys" shows "params_get (applyExternalProxyTLSParams ep s ps) k = params_get ps k"
proof -
  have "map_of (rev (external_tls e)) k = None" for e
    using external_tls_keys assms by (auto simp: map_of_eq_None_iff)
  thus ?thesis by (simp add: applyExternalProxyTLSParams_def get_fold split: option.split)
qed

lemmas get_other = get_network_other get_mask_other get_tls_other get_reality_other get_external_other get_set get_nonempty

lemma keys_out:
  "''type'' \<notin> set link_network_keys" "''type'' \<notin> set tls_keys" "''type'' \<notin> set reality_keys"
  "''encryption'' \<notin> set link_network_keys" "''encryption'' \<notin> set tls_keys" "''encryption'' \<notin> set reality_keys"
  "''security'' \<notin> set link_network_keys" "''security'' \<notin> set tls_keys" "''security'' \<notin> set reality_keys"
  "''flow'' \<notin> set link_network_keys" "''flow'' \<notin> set tls_keys" "''flow'' \<notin> set reality_keys"
  "''fm'' \<notin> set link_network_keys" "''fm'' \<notin> set tls_keys" "''fm'' \<notin> set reality_keys"
  by (simp_all add: link_network_keys_def tls_keys_def reality_keys_def)

definition security_param :: "share_stream \<Rightarrow> string \<Rightarrow> string" where
  "security_param stream forceTls =
     (if link_security stream forceTls = Some ''tls'' then ''tls''
      else if link_security stream forceTls = Some ''reality'' then ''reality'' else ''none'')"

lemma vless_type: "params_get (vless_params stream enc dec forceTls flow ep) ''type'' = Some (network_or_tcp stream)"
  by (simp add: vless_params_def Let_def get_other keys_out)

lemma vless_encryption: "params_get (vless_params stream enc dec forceTls flow ep) ''encryption'' = Some enc"
  by (simp add: vless_params_def Let_def get_other keys_out)

lemma vless_security: "params_get (vless_params stream enc dec forceTls flow ep) ''security'' = Some (security_param stream forceTls)"
  by (simp add: vless_params_def Let_def get_other keys_out security_param_def)

lemma trojan_type: "params_get (trojan_params stream forceTls ep) ''type'' = Some (network_or_tcp stream)"
  by (simp add: trojan_params_def Let_def get_other keys_out)

lemma trojan_security: "params_get (trojan_params stream forceTls ep) ''security'' = Some (security_param stream forceTls)"
  by (simp add: trojan_params_def Let_def get_other keys_out security_param_def)

lemma vless_flow: "params_get (vless_params stream enc dec forceTls flow ep) ''flow''
  = (if flow \<noteq> [] \<and> canEnableTlsFlow (vless_slice stream enc dec) then Some flow else None)"
  by (simp add: vless_params_def Let_def get_other keys_out) (simp add: params_get_def)

section \<open>VLESS and Trojan\<close>

lemma scheme_ok_simps [simp]:
  "scheme_ok ''vless''" "scheme_ok ''trojan''" "scheme_ok ''ss''" "scheme_ok ''hysteria2''" "scheme_ok ''hysteria''" "scheme_ok ''wireguard''"
  by (simp_all add: scheme_ok_def is_lower_def is_digit_def special_schemes_def)

text \<open>The inputs of a URL-shaped link that survives: an address \<open>new URL\<close> takes as it is (a host name,
  an IPv4 address or a canonical IPv6 literal), a port other than 0, and Unicode texts.\<close>

definition endpoint_ok :: "(string \<Rightarrow> string option) \<Rightarrow> string \<Rightarrow> nat \<Rightarrow> bool" where
  "endpoint_ok ipv6 address p \<longleftrightarrow> link_host ipv6 (formatUrlHost address) \<and> 0 < p \<and> p \<le> 65535"

definition values_ok :: "query_params \<Rightarrow> bool" where
  "values_ok ps \<longleftrightarrow> list_all (\<lambda>(k, v). valid_text v) ps"

lemma params_okI: "good_keys ps \<Longrightarrow> values_ok ps \<Longrightarrow> params_ok ps"
  by (rule good_keys_ok) (auto simp: values_ok_def list_all_iff)

lemma printable_trim: "list_all printable s \<Longrightarrow> text_trim s = s"
  by (rule ascii_trim) (auto simp: ascii_text_def list_all_iff printable_def is_space_def)

definition vless_outbound :: "string \<Rightarrow> string \<Rightarrow> int \<Rightarrow> string \<Rightarrow> string \<Rightarrow> query_params \<Rightarrow> jobj" where
  "vless_outbound remark address port clientId enc ps =
     [(''protocol'', JStr ''vless''), (''tag'', JStr remark),
      (''settings'', JObj [(''address'', JStr (formatUrlHost address)), (''port'', JNum (num port)), (''id'', JStr clientId),
         (''flow'', JStr (param_or ps ''flow'' [])), (''encryption'', JStr enc)]),
      (''streamSettings'', JObj (link_stream ps ''none''))]"

lemma vless_link_import:
  assumes "ib_settings inbound = In_Vless clients enc dec" and "ib_stream inbound = Some stream"
    and "endpoint_ok ipv6 address p" and "user_ok clientId" and "valid_text remark"
    and "ps = vless_params stream enc dec forceTls flow ep" and "values_ok ps"
  shows "\<exists>link. genVlessLink ipv6 inbound address (int p) forceTls remark clientId flow ep = Some link
    \<and> parseVlessLink ipv6 link = Some (vless_outbound remark address (int p) clientId enc ps)
    \<and> parseOutboundLink ipv6 link = parseVlessLink ipv6 link"
proof -
  let ?u = "final_url ''vless'' clientId (formatUrlHost address) p ps remark"
  have host: "link_host ipv6 (formatUrlHost address)" and p: "0 < p" "p \<le> 65535" using assms(3) by (auto simp: endpoint_ok_def)
  have ok: "params_ok ps" unfolding assms(6) by (rule params_okI [OF good_keys_vless]) (use assms(6,7) in simp)
  note m = made_link [OF scheme_ok_simps(1) assms(4) host p(2) ok, where remark = remark]
  have enc: "param_or ps ''encryption'' d = enc" for d by (simp add: param_or_def assms(6) vless_encryption)
  have g: "genVlessLink ipv6 inbound address (int p) forceTls remark clientId flow ep = Some (url_string ?u)"
    using m(1) by (simp add: genVlessLink_def assms(1,2) assms(6) [symmetric])
  have r: "parseVlessLink ipv6 (url_string ?u) = Some (vless_outbound remark address (int p) clientId enc ps)"
    using m(2) p final_port [OF p] final_remark [OF assms(5)] final_params [OF ok] enc
    by (simp add: parseVlessLink_def parseUrlLink_def Let_def vless_outbound_def)
  have "list_all (\<lambda>c. \<not> userinfo_set c) clientId" using assms(4) by (simp add: user_ok_def)
  hence "list_all printable (url_string ?u)"
    by (intro url_string_printable [OF final_link_url [OF scheme_ok_simps(1) _ host p(2)]])
  hence t: "text_trim (url_string ?u) = url_string ?u" by (rule printable_trim)
  have s: "url_string ?u = ''vless'' @ drop 5 (url_string ?u)" by (simp add: url_string_def final_url_def base_url_def)
  have n: "parseVmessLink (url_string ?u) = None" by (subst s) (simp add: parseVmessLink_def)
  have e: "url_string ?u \<noteq> []" by (subst s) simp
  have "parseOutboundLink ipv6 (url_string ?u) = parseVlessLink ipv6 (url_string ?u)"
    unfolding parseOutboundLink_def t Let_def n r using e by (simp add: or_parse_def)
  thus ?thesis using g r by blast
qed

text \<open>A VLESS share link that is imported again gives an outbound with the address, port, user id,
  encryption and remark of the inbound it was made from, and with the stream the importer
  builds from exactly the parameters the generator wrote: the URL layer loses nothing.\<close>
theorem vless_link_roundtrip:
  assumes "ib_settings inbound = In_Vless clients enc dec" and "ib_stream inbound = Some stream"
    and "endpoint_ok ipv6 address p" and "user_ok clientId" and "valid_text remark"
    and "ps = vless_params stream enc dec forceTls flow ep" and "values_ok ps"
  shows "\<exists>link. genVlessLink ipv6 inbound address (int p) forceTls remark clientId flow ep = Some link
    \<and> parseVlessLink ipv6 link = Some
       [(''protocol'', JStr ''vless''), (''tag'', JStr remark),
        (''settings'', JObj [(''address'', JStr (formatUrlHost address)), (''port'', JNum (num (int p))), (''id'', JStr clientId),
           (''flow'', JStr (param_or ps ''flow'' [])), (''encryption'', JStr enc)]),
        (''streamSettings'', JObj (link_stream ps ''none''))]"
  using vless_link_import [OF assms] unfolding vless_outbound_def by blast

lemma user_ok_encoded: "pw \<noteq> [] \<Longrightarrow> user_ok (encodeURIComponent pw)"
proof -
  assume n: "pw \<noteq> []"
  have "\<not> userinfo_set c" if "uri_clean c" for c
    using that
    by (auto simp: uri_clean_def uri_unreserved_def alnum_def is_digit_def is_lower_def is_upper_def userinfo_set_def path_set_def
        query_set_def c0_set_def)
  hence "list_all (\<lambda>c. \<not> userinfo_set c) (encodeURIComponent pw)" using uri_encode_clean by (auto simp: list_all_iff)
  moreover have "encodeURIComponent pw \<noteq> []" using n by (cases pw) (auto simp: encodeURIComponent_def encode_set_Cons pct_def)
  ultimately show ?thesis by (simp add: user_ok_def)
qed

lemma encode_unreserved: "encodeURIComponent s = s \<longleftrightarrow> list_all uri_unreserved s"
proof
  assume e: "encodeURIComponent s = s"
  have g: "length (encodeURIComponent t) \<ge> length t \<and> (\<not> list_all uri_unreserved t \<longrightarrow> length (encodeURIComponent t) > length t)" for t
    by (induction t) (auto simp: encodeURIComponent_def encode_set_Cons pct_def)
  thus "list_all uri_unreserved s" using e by (metis less_irrefl)
qed (simp add: encodeURIComponent_def encode_set_id)

text \<open>C17: The same for Trojan, with one difference: the generator percent-encodes the password into
  the user information and the importer takes \<open>url.username\<close> undecoded, so the password
  survives exactly when it has only characters \<open>encodeURIComponent\<close> leaves alone.\<close>
theorem trojan_link_roundtrip:
  assumes "ib_settings inbound = In_Trojan clients" and "ib_stream inbound = Some stream"
    and "endpoint_ok ipv6 address p" and "pw \<noteq> []" and "valid_text remark"
    and "ps = trojan_params stream forceTls ep" and "values_ok ps"
  shows "(\<exists>link. genTrojanLink ipv6 inbound address (int p) forceTls remark pw ep = Some link
    \<and> parseTrojanLink ipv6 link = Some
       [(''protocol'', JStr ''trojan''), (''tag'', JStr remark),
        (''settings'', JObj [(''servers'', JArr [JObj [(''address'', JStr (formatUrlHost address)), (''port'', JNum (num (int p))),
           (''password'', JStr (encodeURIComponent pw))]])]),
        (''streamSettings'', JObj (link_stream ps ''tls''))])
    \<and> (encodeURIComponent pw = pw \<longleftrightarrow> list_all uri_unreserved pw)"
proof -
  have host: "link_host ipv6 (formatUrlHost address)" and p: "0 < p" "p \<le> 65535" using assms(3) by (auto simp: endpoint_ok_def)
  have ok: "params_ok ps" unfolding assms(6) by (rule params_okI [OF good_keys_trojan]) (use assms(6,7) in simp)
  note m = made_link [OF scheme_ok_simps(2) user_ok_encoded [OF assms(4)] host p(2) ok, where remark = remark]
  show ?thesis using m p final_port [OF p] final_remark [OF assms(5)] final_params [OF ok]
    by (simp add: genTrojanLink_def assms(1,2) assms(6) [symmetric] parseTrojanLink_def parseUrlLink_def Let_def encode_unreserved)
qed

section \<open>What the importer makes of the parameters\<close>

lemma oget_set_in: "oget (set_in k f ob) j = (if j = k then (case oget ob k of JObj ps \<Rightarrow> JObj (f ps) | v \<Rightarrow> v) else oget ob j)"
  by (simp add: set_in_def split: jv.split)

lemma network_key: "fst (network_block n) \<in> {''tcpSettings'', ''kcpSettings'', ''wsSettings'', ''grpcSettings'', ''httpupgradeSettings'', ''xhttpSettings''}"
  by (simp add: network_block_def tcp_none_def)

lemma oget_link_Cons: "oget (p # ps) j = (if j = fst p then snd p else oget ps j)"
  by (cases p) (auto simp: oget_def)

lemma build_network: "oget (buildStream n sec) ''network'' = n" "oget (buildStream n sec) ''security'' = JStr sec"
  by (simp_all add: buildStream_def oget_link_Cons)

lemma build_block: "oget (buildStream n sec) (fst (network_block n)) = snd (network_block n)"
  using network_key [of n] by (auto simp: buildStream_def oget_link_Cons)

lemma build_security:
  "oget (buildStream n ''tls'') ''tlsSettings'' = JObj tls_block" "oget (buildStream n ''reality'') ''realitySettings'' = JObj reality_block"
  using network_key [of n] by (auto simp: buildStream_def oget_link_Cons)

lemma transport_other:
  "oget (applyTransportParams ps stream) ''network'' = oget stream ''network''"
  "oget (applyTransportParams ps stream) ''security'' = oget stream ''security''"
  "oget (applyTransportParams ps stream) ''tlsSettings'' = oget stream ''tlsSettings''"
  "oget (applyTransportParams ps stream) ''realitySettings'' = oget stream ''realitySettings''"
  "oget (applyTransportParams ps stream) ''finalmask'' = oget stream ''finalmask''"
  by (simp_all add: applyTransportParams_def Let_def oget_set_in)

lemma security_other:
  assumes "k \<noteq> ''tlsSettings''" "k \<noteq> ''realitySettings''" shows "oget (applySecurityParams ps stream) k = oget stream k"
  using assms by (simp add: applySecurityParams_def Let_def oget_set_in)

lemma mask_other: "k \<noteq> ''finalmask'' \<Longrightarrow> oget (applyFinalMaskParam ps stream) k = oget stream k"
  by (simp add: applyFinalMaskParam_def split: option.split jv.split)

lemmas stream_lookup = mask_other security_other transport_other build_network build_security oget_set_in

lemma link_stream_security: "params_get ps ''security'' = Some sec \<Longrightarrow> oget (link_stream ps d) ''security'' = JStr sec"
  by (simp add: link_stream_def param_or_def stream_lookup)

text \<open>The list written with commas is read back when it has no commas inside and is not empty.\<close>

definition comma_list :: "string list \<Rightarrow> bool" where
  "comma_list xs \<longleftrightarrow> list_all (\<lambda>x. CHR '','' \<notin> set x \<and> x \<noteq> []) xs"

lemma comma_list_split: "comma_list xs \<Longrightarrow> xs \<noteq> [] \<Longrightarrow> split_on CHR '','' (join '','' xs) = xs"
  by (rule split_on_join) (auto simp: comma_list_def list_all_iff)

lemma join_empty: "comma_list xs \<Longrightarrow> join sep xs = [] \<longleftrightarrow> xs = []"
  by (cases "(sep, xs)" rule: join.cases) (auto simp: comma_list_def)

definition tls_of :: "share_tls \<Rightarrow> jv" where
  "tls_of tls = JObj [(''serverName'', JStr (tl_serverName tls)), (''alpn'', JArr (map JStr (tl_alpn tls))),
     (''fingerprint'', JStr (tl_fingerprint tls)), (''echConfigList'', JStr (tl_echConfigList tls)),
     (''verifyPeerCertByName'', JStr (tl_verifyPeerCertByName tls)),
     (''pinnedPeerCertSha256'', JStr (join '','' (tl_pinnedPeerCertSha256 tls)))]"

definition reality_of :: "share_reality \<Rightarrow> jv" where
  "reality_of r = JObj [(''publicKey'', JStr (re_publicKey r)), (''fingerprint'', JStr (re_fingerprint r)), (''serverName'', JStr (reality_sni r)),
     (''shortId'', JStr (first_or_empty (re_shortIds r))), (''spiderX'', JStr (re_spiderX r)), (''mldsa65Verify'', JStr (re_mldsa65Verify r))]"

text \<open>The TLS parameters as the importer looks them up.\<close>

definition tls_params :: "share_tls \<Rightarrow> query_params \<Rightarrow> bool" where
  "tls_params tls ps \<longleftrightarrow> params_get ps ''security'' = Some ''tls'' \<and> param_or ps ''sni'' [] = tl_serverName tls
     \<and> param_or ps ''fp'' [] = tl_fingerprint tls \<and> params_get ps ''alpn'' = Some (join '','' (tl_alpn tls))
     \<and> param_or ps ''ech'' [] = tl_echConfigList tls \<and> param_or ps ''vcn'' [] = tl_verifyPeerCertByName tls
     \<and> param_or ps ''pcs'' [] = join '','' (tl_pinnedPeerCertSha256 tls)"

lemma import_tls:
  assumes "tls_params tls ps" "comma_list (tl_alpn tls)"
  shows "oget (link_stream ps d) ''tlsSettings'' = tls_of tls"
proof -
  have s: "param_or ps ''security'' d = ''tls''" using assms(1) by (simp add: param_or_def tls_params_def)
  have a: "(case param_nonempty ps ''alpn'' of None \<Rightarrow> tl_alpn tls = []
      | Some a \<Rightarrow> tl_alpn tls \<noteq> [] \<and> split_on CHR '','' a = tl_alpn tls)"
    using assms comma_list_split [OF assms(2)] join_empty [OF assms(2), of "'',''"]
    by (auto simp: tls_params_def param_nonempty_def)
  show ?thesis using assms(1) a
    by (cases "param_nonempty ps ''alpn''")
      (simp_all add: link_stream_def stream_lookup s applySecurityParams_def Let_def tls_block_def tls_params_def tls_of_def)
qed

lemma keys_out_network: "k \<in> set tls_keys \<Longrightarrow> k \<notin> set link_network_keys" "k \<in> set reality_keys \<Longrightarrow> k \<notin> set link_network_keys"
  by (auto simp: tls_keys_def reality_keys_def link_network_keys_def)

lemma get_nil [simp]: "params_get [] k = None"
  by (simp add: params_get_def)

lemma absent_before:
  assumes "k \<in> set tls_keys \<or> k \<in> set reality_keys"
  shows "params_get (applyFinalMaskToParams fm (writeNetworkParams n (params_set ''encryption'' enc (params_set ''type'' ty [])))) k = None"
    "params_get (applyFinalMaskToParams fm (writeNetworkParams n (params_set ''type'' ty []))) k = None"
proof -
  have "k \<notin> set link_network_keys" using assms keys_out_network by blast
  moreover have "k \<noteq> ''fm''" "k \<noteq> ''encryption''" "k \<noteq> ''type''" using assms by (auto simp: tls_keys_def reality_keys_def)
  ultimately show "params_get (applyFinalMaskToParams fm (writeNetworkParams n (params_set ''encryption'' enc (params_set ''type'' ty [])))) k = None"
    "params_get (applyFinalMaskToParams fm (writeNetworkParams n (params_set ''type'' ty []))) k = None"
    by (simp_all add: get_other)
qed

lemma tls_written:
  assumes "\<forall>k \<in> set tls_keys. params_get ps k = None"
  shows "tls_params tls (vless_tls (Sec_Tls tls) (params_set ''security'' ''tls'' ps))"
    "tls_params tls (writeTlsParams (Sec_Tls tls) (params_set ''security'' ''tls'' ps))"
  using assms
  by (simp_all add: tls_params_def vless_tls_def writeTlsParams_def Let_def param_or_def get_set get_nonempty tls_keys_def)

lemma flow_keeps_tls: "tls_params tls ps \<Longrightarrow> tls_params tls (params_set ''flow'' fl ps)"
  by (simp add: tls_params_def param_or_def get_set)

lemma vless_tls_params:
  assumes "st_security stream = Sec_Tls tls" "link_security stream forceTls = Some ''tls''"
  shows "tls_params tls (vless_params stream enc dec forceTls flow None)"
  unfolding vless_params_def Let_def assms applyExternalProxyTLSParams_def
  by (auto intro!: flow_keeps_tls tls_written simp: absent_before)

lemma trojan_tls_params:
  assumes "st_security stream = Sec_Tls tls" "link_security stream forceTls = Some ''tls''"
  shows "tls_params tls (trojan_params stream forceTls None)"
  unfolding trojan_params_def Let_def assms applyExternalProxyTLSParams_def
  by (auto intro!: tls_written simp: absent_before)

definition reality_params :: "share_reality \<Rightarrow> query_params \<Rightarrow> bool" where
  "reality_params r ps \<longleftrightarrow> params_get ps ''security'' = Some ''reality'' \<and> param_or ps ''sni'' [] = reality_sni r
     \<and> params_get ps ''fp'' = Some (re_fingerprint r) \<and> param_or ps ''pbk'' [] = re_publicKey r
     \<and> param_or ps ''sid'' [] = first_or_empty (re_shortIds r) \<and> param_or ps ''spx'' [] = re_spiderX r
     \<and> param_or ps ''pqv'' [] = re_mldsa65Verify r"

lemma import_reality:
  assumes "reality_params r ps" shows "oget (link_stream ps d) ''realitySettings'' = reality_of r"
proof -
  have s: "param_or ps ''security'' d = ''reality''" using assms by (simp add: param_or_def reality_params_def)
  have f: "param_or ps ''fp'' ''chrome'' = re_fingerprint r" using assms by (simp add: param_or_def reality_params_def)
  show ?thesis using assms f
    by (simp add: link_stream_def stream_lookup s applySecurityParams_def Let_def reality_block_def reality_params_def reality_of_def)
qed

lemma reality_written:
  assumes "\<forall>k \<in> set reality_keys. params_get ps k = None"
  shows "reality_params r (writeRealityParams (Sec_Reality r) (params_set ''security'' ''reality'' ps))"
  using assms
  by (simp add: reality_params_def writeRealityParams_def Let_def param_or_def get_set get_nonempty reality_keys_def first_or_empty_def
      split: list.split)

lemma flow_keeps_reality: "reality_params r ps \<Longrightarrow> reality_params r (params_set ''flow'' fl ps)"
  by (simp add: reality_params_def param_or_def get_set)

lemma vless_reality_params:
  assumes "st_security stream = Sec_Reality r" "link_security stream forceTls = Some ''reality''"
  shows "reality_params r (vless_params stream enc dec forceTls flow ep)"
  unfolding vless_params_def Let_def assms
  by (auto intro!: flow_keeps_reality reality_written simp: absent_before)

lemma trojan_reality_params:
  assumes "st_security stream = Sec_Reality r" "link_security stream forceTls = Some ''reality''"
  shows "reality_params r (trojan_params stream forceTls ep)"
  unfolding trojan_params_def Let_def assms
  by (auto intro!: reality_written simp: absent_before)

text \<open>C18: The security settings of an imported VLESS or Trojan link are those of the inbound: with
  TLS the server name, ALPN list, fingerprint, ECH list, verified names and pins, with Reality
  the public key, fingerprint, server name, first short id, spiderX and verify key; and the
  stream's security is the one the link was made for.\<close>
theorem imported_security:
  assumes "ps = vless_params stream enc dec ''same'' flow None \<or> ps = trojan_params stream ''same'' None"
  shows "oget (link_stream ps d) ''security'' = JStr (security_param stream ''same'')
    \<and> (st_security stream = Sec_Tls tls \<and> comma_list (tl_alpn tls) \<longrightarrow> oget (link_stream ps d) ''tlsSettings'' = tls_of tls)
    \<and> (st_security stream = Sec_Reality r \<longrightarrow> oget (link_stream ps d) ''realitySettings'' = reality_of r)"
proof (intro conjI impI)
  show "oget (link_stream ps d) ''security'' = JStr (security_param stream ''same'')"
    using assms by (auto intro: link_stream_security vless_security trojan_security)
next
  assume a: "st_security stream = Sec_Tls tls \<and> comma_list (tl_alpn tls)"
  hence s: "st_security stream = Sec_Tls tls" "link_security stream ''same'' = Some ''tls''"
    by (simp_all add: link_security_def security_name_def)
  have "tls_params tls ps" using assms vless_tls_params [OF s] trojan_tls_params [OF s] by auto
  thus "oget (link_stream ps d) ''tlsSettings'' = tls_of tls" using a by (auto intro: import_tls)
next
  assume a: "st_security stream = Sec_Reality r"
  hence s: "link_security stream ''same'' = Some ''reality''"
    by (simp add: link_security_def security_name_def)
  have "reality_params r ps" using assms vless_reality_params [OF a s] trojan_reality_params [OF a s] by auto
  thus "oget (link_stream ps d) ''realitySettings'' = reality_of r" by (rule import_reality)
qed

lemma network_lookup:
  assumes "k \<in> set link_network_keys"
  shows "params_get (vless_params stream enc dec forceTls flow ep) k
      = params_get (writeNetworkParams (st_network stream) (params_set ''encryption'' enc (params_set ''type'' (network_or_tcp stream) []))) k"
    "params_get (trojan_params stream forceTls ep) k
      = params_get (writeNetworkParams (st_network stream) (params_set ''type'' (network_or_tcp stream) [])) k"
proof -
  have "k \<notin> set tls_keys" "k \<notin> set reality_keys" using assms keys_out_network by blast+
  moreover have "k \<noteq> ''fm''" "k \<noteq> ''security''" "k \<noteq> ''flow''" using assms by (auto simp: link_network_keys_def)
  ultimately show "params_get (vless_params stream enc dec forceTls flow ep) k
      = params_get (writeNetworkParams (st_network stream) (params_set ''encryption'' enc (params_set ''type'' (network_or_tcp stream) []))) k"
    "params_get (trojan_params stream forceTls ep) k
      = params_get (writeNetworkParams (st_network stream) (params_set ''type'' (network_or_tcp stream) [])) k"
    by (simp_all add: vless_params_def trojan_params_def Let_def get_mask_other get_tls_other get_reality_other get_external_other get_set)
qed

text \<open>The block of a network an import gives back.\<close>

definition ws_header_host :: "ws_stream \<Rightarrow> string" where
  "ws_header_host s = (if ws_host s \<noteq> [] then ws_host s else header_value (ws_headers s) ''host'')"

definition hu_header_host :: "httpupgrade_stream \<Rightarrow> string" where
  "hu_header_host s = (if hu_host s \<noteq> [] then hu_host s else header_value (hu_headers s) ''host'')"

fun network_of :: "network \<Rightarrow> (string \<times> jv) option" where
  "network_of (Net_Ws s) = Some (''wsSettings'', JObj [(''path'', JStr (ws_path s)), (''host'', JStr (ws_header_host s)),
     (''headers'', JObj []), (''heartbeatPeriod'', jnum 0)])"
| "network_of (Net_HttpUpgrade s) = Some (''httpupgradeSettings'', JObj [(''path'', JStr (hu_path s)), (''host'', JStr (hu_header_host s)),
     (''headers'', JObj [])])"
| "network_of (Net_Grpc s) = Some (''grpcSettings'', JObj [(''serviceName'', JStr (gr_serviceName s)), (''authority'', JStr (gr_authority s)),
     (''multiMode'', JBool (gr_multiMode s))])"
| "network_of (Net_Tcp (Some (Header_Http (Some rq) rs))) = Some (''tcpSettings'', JObj [(''header'',
     http_header (join '','' (rq_path rq)) (http_host rq rs))])"
| "network_of (Net_Tcp h) = Some tcp_none"
| "network_of (Net_Kcp k) = Some (network_block (JStr ''kcp''))"
| "network_of n = None"

lemma network_keys_in:
  "''path'' \<in> set link_network_keys" "''host'' \<in> set link_network_keys" "''headerType'' \<in> set link_network_keys" "''serviceName'' \<in> set link_network_keys"
  "''authority'' \<in> set link_network_keys" "''mode'' \<in> set link_network_keys" "''mtu'' \<in> set link_network_keys" "''x_padding_bytes'' \<in> set link_network_keys"
  "''extra'' \<in> set link_network_keys"
  by (simp_all add: link_network_keys_def)

lemma import_network:
  assumes "\<And>k. k \<in> set link_network_keys \<Longrightarrow> params_get ps k = params_get (writeNetworkParams n base) k"
    and "\<And>k. k \<in> set link_network_keys \<Longrightarrow> params_get base k = None" and "network_of n = Some (key, block)"
    and "params_get ps ''type'' = network_name n"
  shows "oget (link_stream ps d) key = block"
proof -
  note g = assms(1) [OF network_keys_in(1)] assms(1) [OF network_keys_in(2)] assms(1) [OF network_keys_in(3)]
    assms(1) [OF network_keys_in(4)] assms(1) [OF network_keys_in(5)] assms(1) [OF network_keys_in(6)]
  note b = assms(2) [OF network_keys_in(1)] assms(2) [OF network_keys_in(2)] assms(2) [OF network_keys_in(3)]
    assms(2) [OF network_keys_in(4)] assms(2) [OF network_keys_in(5)] assms(2) [OF network_keys_in(6)]
  note defs = link_stream_def mask_other security_other applyTransportParams_def Let_def build_network oget_set_in
    param_or_def get_set writeNetworkParams_def network_name_def buildStream_def network_block_def tcp_none_def oget_link_Cons
  show ?thesis
  proof (cases n)
    case (Net_Ws s) thus ?thesis using assms(3,4) g b by (simp add: defs ws_header_host_def) (auto simp: oget_link_Cons defs)
  next
    case (Net_HttpUpgrade s) thus ?thesis using assms(3,4) g b by (simp add: defs hu_header_host_def) (auto simp: oget_link_Cons defs)
  next
    case (Net_Grpc s) thus ?thesis using assms(3,4) g b by (simp add: defs) (auto simp: oget_link_Cons defs)
  next
    case (Net_Kcp s) thus ?thesis using assms(3,4) g b by (simp add: defs) (auto simp: oget_link_Cons defs)
  next
    case (Net_Tcp h)
    show ?thesis
    proof (cases "\<exists>rq rs. h = Some (Header_Http (Some rq) rs)")
      case True
      thus ?thesis using assms(3,4) g b Net_Tcp by (auto simp: defs)
    next
      case False
      hence w: "\<And>k. params_get (writeNetworkParams (Net_Tcp h) base) k = params_get base k"
        by (auto simp: writeNetworkParams_def split: tcp_header.split option.split)
      have o: "network_of (Net_Tcp h) = Some tcp_none"
      proof (cases h)
        case (Some hd)
        show ?thesis
        proof (cases hd)
          case (Header_Http rq rs) thus ?thesis using False Some by (cases rq) auto
        qed (simp add: Some)
      qed simp
      have t: "key = ''tcpSettings''" "block = snd tcp_none" using assms(3) unfolding Net_Tcp o by (simp_all add: tcp_none_def)
      have "params_get ps ''headerType'' = None" "params_get ps ''type'' = Some ''tcp''"
        using g(3) b(3) assms(4) w by (simp_all add: Net_Tcp network_name_def)
      thus ?thesis unfolding t by (simp add: defs)
    qed
  qed (use assms(3) in simp_all)
qed

text \<open>The transport of an imported VLESS or Trojan link is the inbound's: path and host of
  WebSocket and HTTPUpgrade (the \<open>Host\<close> header standing in for an empty host), service name,
  authority and mode of gRPC, HTTP camouflage of TCP. (The tuning of mKCP comes back as the
  defaults: the importer does not read the \<open>mtu\<close> and \<open>tti\<close> the generator writes.)\<close>
theorem imported_network:
  assumes "ps = vless_params stream enc dec forceTls flow ep \<or> ps = trojan_params stream forceTls ep"
    and "network_of (st_network stream) = Some (key, block)"
  shows "oget (link_stream ps d) key = block
    \<and> Some (oget (link_stream ps d) ''network'') = map_option JStr (network_name (st_network stream))"
proof
  have n: "network_name (st_network stream) = Some (network_or_tcp stream)"
    using assms(2) by (cases "st_network stream") (auto simp: network_name_def network_or_tcp_def)
  have t: "params_get ps ''type'' = network_name (st_network stream)"
    unfolding n using assms(1) by (auto simp: vless_type trojan_type)
  thus "Some (oget (link_stream ps d) ''network'') = map_option JStr (network_name (st_network stream))"
    by (simp add: link_stream_def stream_lookup param_or_def n)
  have b: "k \<in> set link_network_keys \<Longrightarrow> k \<noteq> ''type'' \<and> k \<noteq> ''encryption''" for k by (auto simp: link_network_keys_def)
  from assms(1) show "oget (link_stream ps d) key = block"
  proof
    assume v: "ps = vless_params stream enc dec forceTls flow ep"
    show ?thesis
      by (rule import_network [OF _ _ assms(2) t, where base = "params_set ''encryption'' enc (params_set ''type'' (network_or_tcp stream) [])"])
        (simp_all add: v network_lookup get_set b)
  next
    assume v: "ps = trojan_params stream forceTls ep"
    show ?thesis
      by (rule import_network [OF _ _ assms(2) t, where base = "params_set ''type'' (network_or_tcp stream) []"])
        (simp_all add: v network_lookup get_set b)
  qed
qed

section \<open>Hysteria\<close>

definition hysteria_pins :: "share_tls \<Rightarrow> string" where
  "hysteria_pins tls = join '','' (map hysteriaPinHex (tl_pinnedPeerCertSha256 tls))"

definition hysteria_tls :: "share_tls \<Rightarrow> jv" where
  "hysteria_tls tls = JObj [(''serverName'', JStr (tl_serverName tls)),
     (''alpn'', JArr (if tl_alpn tls = [] then [JStr ''h3''] else map JStr (tl_alpn tls))),
     (''fingerprint'', JStr (tl_fingerprint tls)), (''echConfigList'', JStr (tl_echConfigList tls)),
     (''verifyPeerCertByName'', JStr (tl_verifyPeerCertByName tls)), (''pinnedPeerCertSha256'', JStr (hysteria_pins tls))]"

lemma hysteria_lookup:
  assumes "comma_list (tl_alpn tls)"
  shows "param_or (hysteria_params tls fm None) ''sni'' [] = tl_serverName tls"
    "param_or (hysteria_params tls fm None) ''fp'' [] = tl_fingerprint tls"
    "param_or (hysteria_params tls fm None) ''ech'' [] = tl_echConfigList tls"
    "param_or (hysteria_params tls fm None) ''vcn'' [] = tl_verifyPeerCertByName tls"
    "param_or (hysteria_params tls fm None) ''pinSHA256'' [] = hysteria_pins tls"
    "param_nonempty (hysteria_params tls fm None) ''alpn'' = (if tl_alpn tls = [] then None else Some (join '','' (tl_alpn tls)))"
  using join_empty [OF assms, of "'',''"]
  by (simp_all add: param_or_def param_nonempty_def hysteria_params_def hysteria_pins_def Let_def get_set get_nonempty get_mask_other)

text \<open>A Hysteria 2 link that is imported again gives the auth token, address, port, remark and TLS
  settings of the inbound; the certificate pins come back in hexadecimal form. (A version 1
  inbound makes a \<open>hysteria://\<close> link, which no parser of the importer accepts.)\<close>
theorem hysteria_link_roundtrip:
  assumes "ib_settings inbound = In_Hysteria clients 2" and "ib_stream inbound = Some stream"
    and "st_security stream = Sec_Tls tls" and "comma_list (tl_alpn tls)"
    and "endpoint_ok ipv6 address p" and "user_ok auth" and "valid_text remark"
    and "values_ok (hysteria_params tls (st_finalmask stream) None)"
  shows "\<exists>link fields rest. genHysteriaLink ipv6 inbound address (int p) remark auth None = Some link
    \<and> parseHysteria2Link ipv6 link = Some
       [(''protocol'', JStr ''hysteria''), (''tag'', JStr remark),
        (''settings'', JObj [(''address'', JStr (formatUrlHost address)), (''port'', JNum (num (int p))), (''version'', jnum 2)]),
        (''streamSettings'', JObj rest)]
    \<and> oget rest ''hysteriaSettings'' = JObj fields \<and> oget fields ''auth'' = JStr auth
    \<and> oget rest ''tlsSettings'' = hysteria_tls tls"
proof -
  let ?ps = "hysteria_params tls (st_finalmask stream) None"
  let ?u = "final_url ''hysteria2'' auth (formatUrlHost address) p ?ps remark"
  have host: "link_host ipv6 (formatUrlHost address)" and p: "0 < p" "p \<le> 65535" using assms(5) by (auto simp: endpoint_ok_def)
  have ok: "params_ok ?ps" by (rule params_okI [OF good_keys_hysteria assms(8)])
  note m = made_link [OF scheme_ok_simps(4) assms(6) host p(2) ok, where remark = remark]
  have s: "searchParams ?u = ?ps" by (rule final_params [OF ok])
  have t: "oget (hysteria_stream ?u) ''tlsSettings'' = hysteria_tls tls"
    using assms(4) comma_list_split [OF assms(4)]
    by (simp add: hysteria_stream_def Let_def s mask_other oget_link_Cons hysteria_lookup [OF assms(4)] hysteria_tls_def)
  have h: "oget (hysteria_stream ?u) ''hysteriaSettings''
      = JObj [(''version'', jnum 2), (''auth'', JStr auth), (''udpIdleTimeout'', jnum 60)]"
    by (simp add: hysteria_stream_def Let_def mask_other oget_link_Cons)
  have "genHysteriaLink ipv6 inbound address (int p) remark auth None = Some (url_string ?u)"
    using m(1) by (simp add: genHysteriaLink_def assms(1,2,3))
  moreover have "parseHysteria2Link ipv6 (url_string ?u) = Some
       [(''protocol'', JStr ''hysteria''), (''tag'', JStr remark),
        (''settings'', JObj [(''address'', JStr (formatUrlHost address)), (''port'', JNum (num (int p))), (''version'', jnum 2)]),
        (''streamSettings'', JObj (hysteria_stream ?u))]"
    using m(2) final_port [OF p] final_remark [OF assms(7)]
    by (simp add: parseHysteria2Link_def parseUrlLink_def or_parse_def)
  moreover have "oget [(''version'', jnum 2), (''auth'', JStr auth), (''udpIdleTimeout'', jnum 60)] ''auth'' = JStr auth"
    by (simp add: oget_link_Cons)
  ultimately show ?thesis using t h by blast
qed

section \<open>A concrete inbound\<close>

definition sample_tls :: share_tls where
  "sample_tls = \<lparr>tl_serverName = ''a.b'', tl_alpn = [''h2'', ''http/1.1''], tl_fingerprint = ''chrome'', tl_echConfigList = [],
     tl_verifyPeerCertByName = [], tl_pinnedPeerCertSha256 = []\<rparr>"

definition sample_stream :: share_stream where
  "sample_stream = \<lparr>st_network = Net_Ws \<lparr>ws_path = ''/x y'', ws_host = ''cdn'', ws_headers = []\<rparr>,
     st_security = Sec_Tls sample_tls, st_finalmask = JUndef, st_externalProxy = None\<rparr>"

definition sample_link_inbound :: "inbound_settings \<Rightarrow> share_inbound" where
  "sample_link_inbound settings = \<lparr>ib_port = 443, ib_listen = [], ib_shareAddrStrategy = ''node'', ib_shareAddr = [],
     ib_stream = Some sample_stream, ib_settings = settings\<rparr>"

lemma no_text: "text_trim (asString JUndef) = []"
  by code_simp

lemma sample_lists:
  "vless_params sample_stream ''none'' ''none'' ''same'' [] None =
     [(''type'', ''ws''), (''encryption'', ''none''), (''path'', ''/x y''), (''host'', ''cdn''), (''security'', ''tls''), (''fp'', ''chrome''),
      (''alpn'', ''h2,http/1.1''), (''sni'', ''a.b'')]"
  "trojan_params sample_stream ''same'' None =
     [(''type'', ''ws''), (''path'', ''/x y''), (''host'', ''cdn''), (''security'', ''tls''), (''fp'', ''chrome''),
      (''alpn'', ''h2,http/1.1''), (''sni'', ''a.b'')]"
  "hysteria_params sample_tls JUndef None =
     [(''security'', ''tls''), (''fp'', ''chrome''), (''alpn'', ''h2,http/1.1''), (''sni'', ''a.b'')]"
  by (simp_all add: vless_params_def trojan_params_def hysteria_params_def sample_stream_def sample_tls_def link_security_def security_name_def
      network_or_tcp_def network_name_def writeNetworkParams_def applyFinalMaskToParams_def serializeFinalMask_def vless_tls_def writeTlsParams_def
      applyExternalProxyTLSParams_def set_nonempty_def salamander_password_def opt_prop_def hop_ports_def params_set.simps no_text)

lemma literal_text: "list_all (\<lambda>c. code c < 128) s \<Longrightarrow> valid_text s"
  by (rule ascii_valid) (simp add: ascii_text_def)

lemma sample_params:
  "values_ok (vless_params sample_stream ''none'' ''none'' ''same'' [] None)"
  "values_ok (trojan_params sample_stream ''same'' None)"
  "values_ok (hysteria_params sample_tls JUndef None)"
  by (simp_all add: sample_lists values_ok_def literal_text)

lemma sample_host: "plain_host ''e.org''" "formatUrlHost ''e.org'' = ''e.org''" "user_ok ''u-1''"
  by code_simp+

lemma sample_parts:
  "ib_settings (sample_link_inbound s) = s" "ib_stream (sample_link_inbound s) = Some sample_stream"
  "st_security sample_stream = Sec_Tls sample_tls" "st_finalmask sample_stream = JUndef" "comma_list (tl_alpn sample_tls)"
  "endpoint_ok (\<lambda>_. None) ''e.org'' 443" "user_ok ''u-1''" "valid_text ''my link''"
  by (simp_all add: sample_link_inbound_def sample_stream_def sample_tls_def comma_list_def literal_text endpoint_ok_def link_host_def sample_host)

lemma vless_link_roundtrip_witness:
  "\<exists>link. genVlessLink (\<lambda>_. None) (sample_link_inbound (In_Vless [] ''none'' ''none'')) ''e.org'' (int 443) ''same'' ''my link'' ''u-1'' [] None = Some link
     \<and> parseVlessLink (\<lambda>_. None) link \<noteq> None"
  using vless_link_roundtrip [OF sample_parts(1,2,6,7,8) refl sample_params(1)] by blast

lemma trojan_link_roundtrip_witness:
  "\<exists>link. genTrojanLink (\<lambda>_. None) (sample_link_inbound (In_Trojan [])) ''e.org'' (int 443) ''same'' ''my link'' ''p w'' None = Some link
     \<and> parseTrojanLink (\<lambda>_. None) link \<noteq> None"
  using trojan_link_roundtrip [OF sample_parts(1,2,6) _ sample_parts(8) refl sample_params(2), where pw = "''p w''"] by blast

lemma imported_security_witness:
  "oget (link_stream (trojan_params sample_stream ''same'' None) ''tls'') ''tlsSettings'' = tls_of sample_tls"
  using imported_security [where ps = "trojan_params sample_stream ''same'' None" and stream = sample_stream and tls = sample_tls] sample_parts(3,5)
  by blast

lemma imported_network_witness:
  "oget (link_stream (trojan_params sample_stream ''same'' None) ''tls'') ''wsSettings''
     = JObj [(''path'', JStr ''/x y''), (''host'', JStr ''cdn''), (''headers'', JObj []), (''heartbeatPeriod'', jnum 0)]"
  using imported_network [where ps = "trojan_params sample_stream ''same'' None" and stream = sample_stream and key = "''wsSettings''", OF disjI2 [OF refl]]
  by (simp add: sample_stream_def ws_header_host_def)

lemma hysteria_link_roundtrip_witness:
  "\<exists>link. genHysteriaLink (\<lambda>_. None) (sample_link_inbound (In_Hysteria [] 2)) ''e.org'' (int 443) ''my link'' ''u-1'' None = Some link
     \<and> parseHysteria2Link (\<lambda>_. None) link \<noteq> None"
  using hysteria_link_roundtrip [OF sample_parts(1,2,3,5,6,7,8)] sample_params(3) by (force simp: sample_parts(4))
end
