(* ===== verification/Link_Shadowsocks.thy ===== *)
theory Link_Shadowsocks
  imports Link_Roundtrip
begin

text \<open>
  Shadowsocks 2022 links (\<open>genShadowsocksLink\<close>, \<open>parseShadowsocksLink\<close>): the link is put together and taken
  apart by hand, at the first \<open>#\<close>, \<open>?\<close> and \<open>@\<close> and the last colon, not by \<open>URL\<close>.
\<close>

lemma decode_parts_colon:
  "list_all valid_text ss \<Longrightarrow> uri_decode None (join '':'' (map encodeURIComponent ss)) = Some (join '':'' ss)"
proof (induction "'':''" ss rule: join.induct)
  case (3 s t ts)
  have "uri_decode None (CHR '':'' # r) = map_option ((#) CHR '':'') (uri_decode None r)" for r by simp
  thus ?case using 3 uri_prefix [of s "CHR '':'' # join '':'' (map encodeURIComponent (t # ts))"] by (simp add: comp_def)
qed (simp_all add: uri_prefix [where r = "[]", simplified])

lemma joined_chars: "c \<in> set (join sep xs) \<Longrightarrow> c \<in> set sep \<or> (\<exists>x \<in> set xs. c \<in> set x)"
  by (induction sep xs rule: join.induct) auto

lemma userinfo_clean:
  assumes "c \<in> set (join '':'' (map encodeURIComponent ss))"
  shows "c \<noteq> CHR ''@''" "c \<noteq> CHR ''?''" "c \<noteq> CHR ''#''"
proof -
  have n: "x \<noteq> CHR ''@'' \<and> x \<noteq> CHR ''?'' \<and> x \<noteq> CHR ''#''" if "uri_clean x" for x
    using that by (auto simp: uri_clean_def uri_unreserved_def alnum_def is_digit_def is_lower_def is_upper_def)
  have "c = CHR '':'' \<or> uri_clean c" using joined_chars [OF assms] uri_encode_clean by auto
  thus "c \<noteq> CHR ''@''" "c \<noteq> CHR ''?''" "c \<noteq> CHR ''#''" using n by auto
qed

text \<open>A hand-built link is taken apart at the first \<open>#\<close>, \<open>?\<close> and \<open>@\<close> and the last colon.\<close>

lemma parse_built_link:
  assumes "\<forall>c \<in> set userinfo. c \<noteq> CHR ''@'' \<and> c \<noteq> CHR ''?'' \<and> c \<noteq> CHR ''#''" "link_host ipv6 host" "CHR ''#'' \<notin> set query"
  shows "parseShadowsocksLink (''ss://'' @ userinfo @ ''@'' @ host @ '':'' @ nat_str p @ (if query \<noteq> [] then CHR ''?'' # query else []) @ ''#'' @ hash)
    = Some (shadowsocks_outbound (or_empty (decodeURIComponent hash)) (decode_userinfo userinfo) (host, num_or (Number_of (nat_str p)) 443))"
proof -
  let ?core = "''ss://'' @ userinfo @ ''@'' @ host @ '':'' @ nat_str p"
  let ?q = "if query = [] then None else Some query"
  have d: "c \<in> set (nat_str p) \<Longrightarrow> c \<noteq> CHR '':'' \<and> c \<noteq> CHR ''@'' \<and> c \<noteq> CHR ''?'' \<and> c \<noteq> CHR ''#''" for c
    using nat_str_digits digits_no by blast
  have h: "c \<in> set host \<Longrightarrow> c \<noteq> CHR ''@'' \<and> c \<noteq> CHR ''?'' \<and> c \<noteq> CHR ''#''" for c using link_host_chars [OF assms(2)] by blast
  have nq: "CHR ''?'' \<notin> set ?core" "CHR ''#'' \<notin> set ?core" using assms(1) d h by auto
  have e: "?core @ (if query \<noteq> [] then CHR ''?'' # query else []) = ?core @ opt_suffix CHR ''?'' ?q" by (simp add: opt_suffix_def)
  have nh: "CHR ''#'' \<notin> set (?core @ opt_suffix CHR ''?'' ?q)" using nq(2) assms(3) by (auto simp: opt_suffix_def)
  have c1: "cut_at CHR ''#'' ((?core @ opt_suffix CHR ''?'' ?q) @ CHR ''#'' # hash) = (?core @ opt_suffix CHR ''?'' ?q, Some hash)"
    by (rule cut_at_sep [OF nh])
  have c2: "cut_at CHR ''?'' (?core @ opt_suffix CHR ''?'' ?q) = (?core, ?q)" by (rule cut_at_opt [OF nq(1)])
  have "CHR ''@'' \<notin> set (''ss://'' @ userinfo)" using assms(1) by auto
  from cut_at_sep [OF this, of "host @ '':'' @ nat_str p"]
  have c3: "cut_at CHR ''@'' ?core = (''ss://'' @ userinfo, Some (host @ '':'' @ nat_str p))" by simp
  have "CHR '':'' \<notin> set (nat_str p)" using d by blast
  from last_index_of_append [OF this, of host]
  have c4: "host_port (host @ '':'' @ nat_str p) = Some (host, num_or (Number_of (nat_str p)) 443)" by (simp add: host_port_def)
  have l: "''ss://'' @ userinfo @ ''@'' @ host @ '':'' @ nat_str p @ (if query \<noteq> [] then CHR ''?'' # query else []) @ ''#'' @ hash
      = (?core @ opt_suffix CHR ''?'' ?q) @ CHR ''#'' # hash" unfolding e [symmetric] by simp
  have s: "starts_with ((?core @ opt_suffix CHR ''?'' ?q) @ CHR ''#'' # hash) ''ss://''" by simp
  show ?thesis unfolding l parseShadowsocksLink_def c1 Let_def prod.case c2 fst_conv c3 option.case c4 using s by simp
qed


lemma share_2022_passwords: "take 4 method = ''2022'' \<Longrightarrow> shadowsocks_passwords method password clientPassword \<noteq> []"
  by (simp add: shadowsocks_passwords_def)

lemma cut_at_join:
  assumes "c \<notin> set x" "xs \<noteq> []" shows "cut_at c (join [c] (x # xs)) = (x, Some (join [c] xs))"
  using assms cut_at_sep [of c x "join [c] xs"] by (cases xs) simp_all

text \<open>C16: A Shadowsocks 2022 link that is imported again gives the method, the joined server and client
  keys, the address, port and remark it was made from, for every Unicode key and remark.\<close>
theorem shadowsocks_2022_roundtrip:
  assumes "ib_settings inbound = In_Shadowsocks clients method password" and "ib_stream inbound = Some stream"
    and "take 4 method = ''2022''" and "CHR '':'' \<notin> set method"
    and "list_all valid_text [method, password, clientPassword, remark]" and "endpoint_ok ipv6 address p"
  shows "\<exists>link. genShadowsocksLink ipv6 inbound address (int p) forceTls remark clientPassword externalProxy = Some link
    \<and> parseShadowsocksLink link = Some
       [(''protocol'', JStr ''shadowsocks''), (''tag'', JStr remark),
        (''settings'', JObj [(''servers'', JArr [JObj [(''address'', JStr (formatUrlHost address)), (''port'', JNum (num (int p))),
           (''password'', JStr (join '':'' (shadowsocks_passwords method password clientPassword))), (''method'', JStr method)]])])]"
proof -
  let ?pws = "shadowsocks_passwords method password clientPassword"
  let ?info = "join '':'' (map encodeURIComponent (method # ?pws))"
  let ?query = "params_string (shadowsocks_params stream forceTls externalProxy)"
  have host: "link_host ipv6 (formatUrlHost address)" and p: "0 < p" "p \<le> 65535" using assms(6) by (auto simp: endpoint_ok_def)
  have pws: "?pws \<noteq> []" by (rule share_2022_passwords [OF assms(3)])
  have info: "\<forall>c \<in> set ?info. c \<noteq> CHR ''@'' \<and> c \<noteq> CHR ''?'' \<and> c \<noteq> CHR ''#''" using userinfo_clean by blast
  have q: "CHR ''#'' \<notin> set ?query"
    using params_string_chars [of "CHR ''#''"] by (auto simp: form_clean_def form_safe_def alnum_def is_digit_def is_lower_def is_upper_def)
  have "list_all valid_text (method # ?pws)" using assms(5) by (simp add: shadowsocks_passwords_def)
  hence d: "decodeURIComponent ?info = Some (join '':'' (method # ?pws))"
    unfolding decodeURIComponent_def by (rule decode_parts_colon)
  have c: "CHR '':'' \<in> set ?info" using pws by (cases ?pws) simp_all
  have u: "decode_userinfo ?info = join '':'' (method # ?pws)" using c d by (simp add: decode_userinfo_def)
  have r: "decodeURIComponent (encodeURIComponent remark) = Some remark" using assms(5) by (simp add: decode_encode_uri)
  have n: "num_or (Number_of (nat_str p)) 443 = num (int p)" using p by (simp add: Number_of_def ascii_trim [OF nat_str_ascii] num_or_def num_truthy_def)
  note parse = parse_built_link [OF info host q, of p "encodeURIComponent remark"]
  have o: "shadowsocks_outbound remark (join '':'' (method # ?pws)) (formatUrlHost address, num (int p)) =
       [(''protocol'', JStr ''shadowsocks''), (''tag'', JStr remark),
        (''settings'', JObj [(''servers'', JArr [JObj [(''address'', JStr (formatUrlHost address)), (''port'', JNum (num (int p))),
           (''password'', JStr (join '':'' ?pws)), (''method'', JStr method)]])])]"
    unfolding shadowsocks_outbound_def cut_at_join [OF assms(4) pws] by simp
  show ?thesis using parse assms(1,2,3) unfolding u r n or_empty_def option.case o by (simp add: genShadowsocksLink_def Let_def int_str_def)
qed

lemma shadowsocks_2022_roundtrip_witness:
  "\<exists>link. genShadowsocksLink (\<lambda>_. None) (sample_link_inbound (In_Shadowsocks [] ''2022-blake3-aes-256-gcm'' ''s+k/1='')) ''e.org'' (int 443)
       ''same'' ''my link'' ''c=='' None = Some link
     \<and> parseShadowsocksLink link = Some
       [(''protocol'', JStr ''shadowsocks''), (''tag'', JStr ''my link''),
        (''settings'', JObj [(''servers'', JArr [JObj [(''address'', JStr (formatUrlHost ''e.org'')), (''port'', JNum (num (int 443))),
           (''password'', JStr ''s+k/1=:c==''), (''method'', JStr ''2022-blake3-aes-256-gcm'')]])])]"
  using shadowsocks_2022_roundtrip [where inbound = "sample_link_inbound (In_Shadowsocks [] ''2022-blake3-aes-256-gcm'' ''s+k/1='')"
      and clientPassword = "''c==''" and remark = "''my link''", OF sample_parts(1,2) _ _ _ sample_parts(6)]
  by (simp add: literal_text shadowsocks_passwords_def)

end
