(* ===== verification/Link_Address.thy ===== *)
theory Link_Address
  imports Link_Roundtrip
begin

text \<open>
  The address a link carries (\<open>resolveAddr\<close>), and all links of a client (\<open>genAllLinks\<close>): which link
  jobs a client's links are made for, and that every one of them is imported by
  \<open>parseOutboundLink\<close> as the outbound it was made for.
\<close>

section \<open>Candidates\<close>

lemma split_chars: "c \<in> set s \<Longrightarrow> c \<noteq> sep \<Longrightarrow> \<exists>p \<in> set (split_on sep s). c \<in> set p"
  by (induction s) (auto split: list.split)

lemma share_hostname_chars:
  assumes "is_share_hostname s" "c \<in> set s" shows "alnum c \<or> c = CHR ''-'' \<or> c = CHR ''.''"
proof (cases "c = CHR ''.''")
  case False
  then obtain p where "p \<in> set (split_on CHR ''.'' s)" "c \<in> set p" using split_chars assms(2) by blast
  thus ?thesis using assms(1) by (auto simp: is_share_hostname_def host_label_def list_all_iff)
qed simp

lemma host_char:
  "alnum c \<or> c = CHR ''-'' \<or> c = CHR ''.'' \<Longrightarrow>
    c \<noteq> CHR ''['' \<and> c \<noteq> CHR '']'' \<and> c \<noteq> CHR '':'' \<and> printable c \<and> \<not> forbidden_host c"
  by (auto simp: alnum_def is_digit_def is_lower_def is_upper_def printable_def forbidden_host_def)

lemma share_hostname_nonempty: "is_share_hostname s \<Longrightarrow> s \<noteq> []"
  by (auto simp: is_share_hostname_def host_label_def)

lemma strip_brackets_id: "CHR ''['' \<notin> set s \<Longrightarrow> CHR '']'' \<notin> set s \<Longrightarrow> strip_brackets s = s"
proof -
  assume a: "CHR ''['' \<notin> set s" "CHR '']'' \<notin> set s"
  have "\<not> starts_with s ''[''" using a(1) by (cases s) auto
  moreover have "\<not> ends_with s '']''" using a(2) by (cases "rev s") (auto simp: ends_with_def)
  ultimately show ?thesis by (simp add: strip_brackets_def)
qed

lemma strip_brackets_literal: "strip_brackets (''['' @ t @ '']'') = t"
  by (simp add: strip_brackets_def ends_with_def)

lemma share_hostname_host:
  assumes "is_share_hostname s" shows "formatUrlHost s = s" "plain_host s"
proof -
  have c: "c \<in> set s \<Longrightarrow> c \<noteq> CHR ''['' \<and> c \<noteq> CHR '']'' \<and> c \<noteq> CHR '':'' \<and> printable c \<and> \<not> forbidden_host c" for c
    using host_char [OF share_hostname_chars [OF assms]] .
  hence "strip_brackets s = s" by (intro strip_brackets_id) blast+
  thus "formatUrlHost s = s" using c by (auto simp: formatUrlHost_def)
  show "plain_host s" using c share_hostname_nonempty [OF assms] by (auto simp: plain_host_def list_all_iff)
qed

text \<open>What the browser documents of \<open>new URL('http://[...]').hostname\<close>: a canonical IPv6 literal in brackets.\<close>

definition canonical_hosts :: "(string \<Rightarrow> string option) \<Rightarrow> (string \<Rightarrow> string option) \<Rightarrow> bool" where
  "canonical_hosts ipv6 web_host \<longleftrightarrow>
     (\<forall>h r. web_host h = Some r \<longrightarrow> (\<exists>t. r = ''['' @ t @ '']'' \<and> ipv6 t = Some t \<and> CHR '':'' \<in> set t
        \<and> list_all (\<lambda>c. is_hex c \<or> c = CHR '':'' \<or> c = CHR ''.'') t))"

lemma canonical_host:
  assumes "canonical_hosts ipv6 web_host" "web_host h = Some r" shows "formatUrlHost r = r" "link_host ipv6 r" "r \<noteq> []"
proof -
  obtain t where t: "r = ''['' @ t @ '']''" "ipv6 t = Some t" "CHR '':'' \<in> set t"
      "list_all (\<lambda>c. is_hex c \<or> c = CHR '':'' \<or> c = CHR ''.'') t"
    using assms unfolding canonical_hosts_def by blast
  show "formatUrlHost r = r" unfolding formatUrlHost_def t(1) strip_brackets_literal using t(3) by simp
  show "link_host ipv6 r" using t by (auto simp: link_host_def literal_host_def)
  show "r \<noteq> []" using t(1) by simp
qed

lemma normalized_host:
  "normalizeShareHost web_host host = [] \<or> is_share_hostname (normalizeShareHost web_host host)
    \<or> (\<exists>h. web_host h = Some (normalizeShareHost web_host host))"
proof -
  have o: "or_empty x = [] \<or> x = Some (or_empty x)" for x by (cases x) (simp_all add: or_empty_def)
  show ?thesis unfolding normalizeShareHost_def Let_def using o by (auto simp: split: if_splits)
qed

lemma usable_host:
  assumes "canonical_hosts ipv6 web_host" "normalizeShareHost web_host host = a" "a \<noteq> []"
  shows "formatUrlHost a = a \<and> link_host ipv6 a"
proof -
  have "is_share_hostname a \<or> (\<exists>h. web_host h = Some a)" using normalized_host [of web_host host] assms(2,3) by auto
  thus ?thesis
  proof (elim disjE exE)
    assume "is_share_hostname a" thus ?thesis using share_hostname_host by (simp add: link_host_def)
  next
    fix h assume "web_host h = Some a" thus ?thesis using canonical_host [OF assms(1)] by blast
  qed
qed

definition listen_only_here :: "string \<Rightarrow> bool" where
  "listen_only_here a \<longleftrightarrow> to_lower (strip_brackets a) \<in> {''0.0.0.0'', ''::'', ''::0'', ''localhost'', ''::1''}
     \<or> starts_with (to_lower (strip_brackets a)) ''127.''"

lemma shareable_listen:
  "shareableListen web_host inbound = [] \<or> (shareableListen web_host inbound = normalizeShareHost web_host (text_trim (ib_listen inbound))
     \<and> \<not> isUnixSocketListen (text_trim (ib_listen inbound)) \<and> \<not> listen_only_here (shareableListen web_host inbound))"
  by (simp add: shareableListen_def isShareableHost_def listen_only_here_def Let_def)

lemma first_nonempty_in: "first_nonempty xs = [] \<or> first_nonempty xs \<in> set xs"
  by (induction xs) auto

text \<open>The address of every link is usable and never the panel's own interface: it is empty, or a host
  name or canonical IPv6 literal that \<open>new URL\<close> takes unchanged (so no input of the operator can
  smuggle a port, path or user into the link); and when it comes from the inbound's listen
  address, that is neither a wildcard, nor a loopback address, nor a Unix socket. The custom
  address is used under the custom strategy only.\<close>
theorem resolved_address_usable:
  assumes "canonical_hosts ipv6 web_host" and "a = resolveAddr web_host inbound hostOverride fallbackHostname"
  shows "(a = [] \<or> formatUrlHost a = a \<and> link_host ipv6 a)
    \<and> (a \<noteq> normalizeShareHost web_host hostOverride \<and> a \<noteq> normalizeShareHost web_host fallbackHostname \<and> a \<noteq> []
       \<and> (shareAddrStrategy inbound = Strategy_Custom \<longrightarrow> a \<noteq> normalizeShareHost web_host (ib_shareAddr inbound))
       \<longrightarrow> a = normalizeShareHost web_host (text_trim (ib_listen inbound)) \<and> \<not> listen_only_here a
         \<and> \<not> isUnixSocketListen (text_trim (ib_listen inbound)))"
proof -
  let ?n = "normalizeShareHost web_host" and ?l = "shareableListen web_host inbound"
  have c: "a = [] \<or> a = ?n hostOverride \<or> a = ?n fallbackHostname \<or> a = ?l
      \<or> (shareAddrStrategy inbound = Strategy_Custom \<and> a = ?n (ib_shareAddr inbound))"
    unfolding assms(2) resolveAddr_def Let_def
    using first_nonempty_in [of "[?l, ?n hostOverride, ?n fallbackHostname]"] first_nonempty_in [of "[?n hostOverride, ?l, ?n fallbackHostname]"]
      first_nonempty_in [of "[?n (ib_shareAddr inbound), ?n hostOverride, ?l, ?n fallbackHostname]"]
    by (cases "shareAddrStrategy inbound") (simp_all del: first_nonempty.simps, blast+)
  have l: "?l = [] \<or> ?l = ?n (text_trim (ib_listen inbound))" using shareable_listen by blast
  have "a = [] \<or> (\<exists>host. ?n host = a)" using c l by metis
  hence "a = [] \<or> formatUrlHost a = a \<and> link_host ipv6 a" using usable_host [OF assms(1)] by blast
  moreover have "a = ?l \<and> a \<noteq> [] \<longrightarrow> a = ?n (text_trim (ib_listen inbound)) \<and> \<not> listen_only_here a
      \<and> \<not> isUnixSocketListen (text_trim (ib_listen inbound))" using shareable_listen by metis
  ultimately show ?thesis using c by blast
qed


lemma literal_trim: "list_all (\<lambda>c. code c < 128 \<and> \<not> is_space c) s \<Longrightarrow> text_trim s = s"
  by (rule ascii_trim) (auto simp: ascii_text_def list_all_iff)

lemma sample_hosts:
  "normalizeShareHost (\<lambda>_. None) ''panel.org'' = ''panel.org''" "normalizeShareHost (\<lambda>_. None) ''127.0.0.1'' = ''127.0.0.1''"
  "normalizeShareHost (\<lambda>_. None) [] = []" "text_trim [] = []" "text_trim ''127.0.0.1'' = ''127.0.0.1''"
proof -
  have t: "text_trim ''panel.org'' = ''panel.org''" "text_trim ''127.0.0.1'' = ''127.0.0.1''" "text_trim [] = []"
    by (simp_all add: literal_trim is_space_def)
  show "normalizeShareHost (\<lambda>_. None) ''panel.org'' = ''panel.org''" "normalizeShareHost (\<lambda>_. None) ''127.0.0.1'' = ''127.0.0.1''"
    "normalizeShareHost (\<lambda>_. None) [] = []"
    by (simp_all add: normalizeShareHost_def t is_share_hostname_def host_label_def alnum_def is_digit_def is_lower_def is_upper_def)
qed (simp_all add: literal_trim is_space_def)

lemma resolved_address_usable_witness:
  "let a = resolveAddr (\<lambda>_. None) ((sample_link_inbound (In_Trojan []))\<lparr>ib_listen := ''127.0.0.1''\<rparr>) [] ''panel.org''
   in a = ''panel.org'' \<and> formatUrlHost a = a \<and> link_host (\<lambda>_. None) a"
proof -
  have c: "canonical_hosts (\<lambda>_. None) (\<lambda>_. None)" by (simp add: canonical_hosts_def)
  have a: "resolveAddr (\<lambda>_. None) ((sample_link_inbound (In_Trojan []))\<lparr>ib_listen := ''127.0.0.1''\<rparr>) [] ''panel.org'' = ''panel.org''"
    by (simp add: resolveAddr_def shareAddrStrategy_def shareableListen_def isShareableHost_def sample_hosts sample_link_inbound_def
        isUnixSocketListen_def strip_brackets_def ends_with_def to_lower_def lower_char_def is_upper_def)
  show ?thesis using resolved_address_usable [OF c a [symmetric]] a by simp
qed

section \<open>All links of a client\<close>

text \<open>What a client's links are made for: one job per external proxy, or one for the inbound itself.\<close>

record link_job =
  lj_address :: string
  lj_port :: int
  lj_forceTls :: string
  lj_remark :: string
  lj_proxy :: "external_proxy option"

definition external_job :: "share_inbound \<Rightarrow> string \<Rightarrow> string \<Rightarrow> external_proxy \<Rightarrow> link_job" where
  "external_job inbound remark addr ep =
     (let address = (if ep_dest ep \<noteq> [] then ep_dest ep else addr);
          port = (if ep_port ep > 0 then ep_port ep else ib_port inbound)
      in \<lparr>lj_address = address, lj_port = port, lj_forceTls = ep_forceTls ep, lj_remark = composeRemark remark (ep_remark ep),
          lj_proxy = Some (ep\<lparr>ep_dest := address, ep_port := port\<rparr>)\<rparr>)"

definition link_jobs :: "share_inbound \<Rightarrow> string \<Rightarrow> string \<Rightarrow> link_job list" where
  "link_jobs inbound remark addr =
     (case Option.bind (ib_stream inbound) st_externalProxy of
        Some (ep # eps) \<Rightarrow> map (external_job inbound remark addr) (ep # eps)
      | _ \<Rightarrow> [\<lparr>lj_address = addr, lj_port = ib_port inbound, lj_forceTls = ''same'', lj_remark = composeRemark remark [], lj_proxy = None\<rparr>])"

definition job_link :: "(string \<Rightarrow> string option) \<Rightarrow> share_inbound \<Rightarrow> client_shape \<Rightarrow> link_job \<Rightarrow> links_entry option" where
  "job_link ipv6 inbound client j =
     map_option (\<lambda>l. \<lparr>le_remark = lj_remark j, le_link = l\<rparr>)
       (genLink ipv6 inbound (lj_address j) (lj_port j) (lj_forceTls j) (lj_remark j) client (lj_proxy j))"

lemma external_entry_job: "external_entry ipv6 inbound remark client addr = job_link ipv6 inbound client \<circ> external_job inbound remark addr"
  by (rule ext) (simp add: external_entry_def job_link_def external_job_def Let_def)

lemma all_some_one: "all_some [map_option f x] = map_option (\<lambda>l. [f l]) x"
  by (cases x) simp_all

lemma genAllLinks_jobs:
  "genAllLinks ipv6 web_host inbound remark client hostOverride fallbackHostname
     = all_some (map (job_link ipv6 inbound client) (link_jobs inbound remark (resolveAddr web_host inbound hostOverride fallbackHostname)))"
proof -
  have one: "all_some (map (job_link ipv6 inbound client) [\<lparr>lj_address = addr, lj_port = p, lj_forceTls = f, lj_remark = r, lj_proxy = None\<rparr>])
      = map_option (\<lambda>l. [\<lparr>le_remark = r, le_link = l\<rparr>]) (genLink ipv6 inbound addr p f r client None)" for addr p f r
    by (simp add: job_link_def all_some_one del: all_some.simps)
  have g: "genAllLinks ipv6 web_host inbound remark client hostOverride fallbackHostname =
     (let addr = resolveAddr web_host inbound hostOverride fallbackHostname
      in case Option.bind (ib_stream inbound) st_externalProxy of
           Some (ep # eps) \<Rightarrow> all_some (map (external_entry ipv6 inbound remark client addr) (ep # eps))
         | _ \<Rightarrow> map_option (\<lambda>l. [\<lparr>le_remark = composeRemark remark [], le_link = l\<rparr>])
                  (genLink ipv6 inbound addr (ib_port inbound) ''same'' (composeRemark remark []) client None))"
    unfolding genAllLinks_def Let_def by (cases "ib_stream inbound") simp_all
  show ?thesis
  proof (cases "\<exists>ep eps. Option.bind (ib_stream inbound) st_externalProxy = Some (ep # eps)")
    case True
    then obtain ep eps where e: "Option.bind (ib_stream inbound) st_externalProxy = Some (ep # eps)" by blast
    show ?thesis unfolding g link_jobs_def e Let_def option.case list.case external_entry_job map_map ..
  next
    case False
    hence e: "(case Option.bind (ib_stream inbound) st_externalProxy of Some (ep # eps) \<Rightarrow> f ep eps | _ \<Rightarrow> z) = z" for f and z :: 'z
      by (auto split: option.split list.split)
    show ?thesis unfolding g link_jobs_def e Let_def one ..
  qed
qed

lemma all_some_rel: "list_all (\<lambda>x. \<exists>y. f x = Some y \<and> R x y) xs \<Longrightarrow> \<exists>ys. all_some (map f xs) = Some ys \<and> list_all2 R xs ys"
  by (induction xs) auto

definition good_job :: "(string \<Rightarrow> string option) \<Rightarrow> share_stream \<Rightarrow> string \<Rightarrow> string \<Rightarrow> client_shape \<Rightarrow> link_job \<Rightarrow> bool" where
  "good_job ipv6 stream enc dec client j \<longleftrightarrow>
     0 \<le> lj_port j \<and> endpoint_ok ipv6 (lj_address j) (nat (lj_port j)) \<and> valid_text (lj_remark j)
     \<and> values_ok (vless_params stream enc dec (lj_forceTls j) (or_empty (cl_flow client)) (lj_proxy j))"

text \<open>C6: The copied links of a VLESS client import, end to end: one link per external proxy in order (or one
  for the inbound), and \<open>parseOutboundLink\<close> reads each as a VLESS outbound with that endpoint's
  address and port (the inbound's own where the proxy leaves them blank), the client's id, the
  remark the panel shows and the stream of exactly the parameters written.\<close>
theorem all_links_import:
  assumes "ib_settings inbound = In_Vless clients enc dec" and "ib_stream inbound = Some stream" and "user_ok (or_empty (cl_id client))"
    and "jobs = link_jobs inbound remark (resolveAddr web_host inbound hostOverride fallbackHostname)"
    and "list_all (good_job ipv6 stream enc dec client) jobs"
  shows "\<exists>es. genAllLinks ipv6 web_host inbound remark client hostOverride fallbackHostname = Some es
    \<and> list_all2 (\<lambda>j e. le_remark e = lj_remark j
        \<and> parseOutboundLink ipv6 (le_link e) = Some (vless_outbound (lj_remark j) (lj_address j) (lj_port j) (or_empty (cl_id client)) enc
            (vless_params stream enc dec (lj_forceTls j) (or_empty (cl_flow client)) (lj_proxy j)))) jobs es"
proof -
  let ?R = "\<lambda>j e. le_remark e = lj_remark j
        \<and> parseOutboundLink ipv6 (le_link e) = Some (vless_outbound (lj_remark j) (lj_address j) (lj_port j) (or_empty (cl_id client)) enc
            (vless_params stream enc dec (lj_forceTls j) (or_empty (cl_flow client)) (lj_proxy j)))"
  have "\<exists>e. job_link ipv6 inbound client j = Some e \<and> ?R j e" if g: "good_job ipv6 stream enc dec client j" for j
  proof -
    have e: "endpoint_ok ipv6 (lj_address j) (nat (lj_port j))" "valid_text (lj_remark j)"
      "values_ok (vless_params stream enc dec (lj_forceTls j) (or_empty (cl_flow client)) (lj_proxy j))" "int (nat (lj_port j)) = lj_port j"
      using g by (auto simp: good_job_def)
    from vless_link_import [OF assms(1,2) e(1) assms(3) e(2) refl e(3)] show ?thesis
      unfolding e(4) by (auto simp: job_link_def genLink_def assms(1))
  qed
  hence "list_all (\<lambda>j. \<exists>e. job_link ipv6 inbound client j = Some e \<and> ?R j e) jobs" using assms(5) by (auto simp: list_all_iff)
  from all_some_rel [OF this] show ?thesis unfolding genAllLinks_jobs assms(4) .
qed

definition sample_client :: client_shape where
  "sample_client = \<lparr>cl_id = Some ''u-1'', cl_security = None, cl_flow = None, cl_password = None, cl_auth = None, cl_email = None\<rparr>"

lemma sample_jobs:
  "link_jobs (sample_link_inbound (In_Vless [] ''none'' ''none'')) ''my link''
     (resolveAddr (\<lambda>_. None) (sample_link_inbound (In_Vless [] ''none'' ''none'')) [] ''e.org'')
   = [\<lparr>lj_address = ''e.org'', lj_port = 443, lj_forceTls = ''same'', lj_remark = ''my link'', lj_proxy = None\<rparr>]"
proof -
  have t: "text_trim ''e.org'' = ''e.org''" by (simp add: literal_trim is_space_def)
  have "normalizeShareHost (\<lambda>_. None) ''e.org'' = ''e.org''"
    by (simp add: normalizeShareHost_def t is_share_hostname_def host_label_def alnum_def is_digit_def is_lower_def is_upper_def)
  hence "resolveAddr (\<lambda>_. None) (sample_link_inbound (In_Vless [] ''none'' ''none'')) [] ''e.org'' = ''e.org''"
    by (simp add: resolveAddr_def shareAddrStrategy_def shareableListen_def sample_hosts sample_link_inbound_def)
  thus ?thesis by (simp add: link_jobs_def sample_link_inbound_def sample_stream_def composeRemark_def)
qed

lemma all_links_import_witness:
  "\<exists>e. genAllLinks (\<lambda>_. None) (\<lambda>_. None) (sample_link_inbound (In_Vless [] ''none'' ''none'')) ''my link'' sample_client [] ''e.org'' = Some [e]
     \<and> le_remark e = ''my link''
     \<and> parseOutboundLink (\<lambda>_. None) (le_link e) = Some (vless_outbound ''my link'' ''e.org'' 443 ''u-1'' ''none''
         (vless_params sample_stream ''none'' ''none'' ''same'' [] None))"
proof -
  have u: "user_ok (or_empty (cl_id sample_client))" using sample_parts(7) by (simp add: sample_client_def or_empty_def)
  have g: "list_all (good_job (\<lambda>_. None) sample_stream ''none'' ''none'' sample_client)
      [\<lparr>lj_address = ''e.org'', lj_port = 443, lj_forceTls = ''same'', lj_remark = ''my link'', lj_proxy = None\<rparr>]"
    using sample_parts(6,8) sample_params(1) by (simp add: good_job_def sample_client_def or_empty_def)
  show ?thesis
    using all_links_import [OF sample_parts(1,2) u sample_jobs [symmetric] g]
    by (auto simp: list_all2_Cons1 sample_client_def or_empty_def)
qed

end
