(* ===== verification/Xray_Template.thy ===== *)
theory Xray_Template
  imports Link_Parser "HOL-Library.Multiset"
begin

text \<open>
  The Xray configuration template the panel edits (\<open>XraySettingsValueSchema\<close>) and the operations
  on it: \<open>frontend/src/pages/xray/basics/helpers.ts\<close>, \<open>balancers/balancer-helpers.ts\<close>, and the
  mutators of \<open>RoutingTab.tsx\<close>, \<open>OutboundsTab.tsx\<close>, \<open>BalancersTab.tsx\<close> and \<open>XrayPage.tsx\<close>. A mutator is
  run on a deep copy of the template (\<open>mutate\<close>), so it is a function of the template. Rules and
  outbounds are JSON values; the fields of the template no operation reads are kept aside.
\<close>

section \<open>State\<close>

record balancer =
  bl_tag :: string
  bl_selector :: "string list option"
  bl_fallbackTag :: "string option"
  bl_strategy :: "jobj option"

record xray_routing =
  rg_rules :: "jv list option"
  rg_balancers :: "balancer list option"
  rg_other :: jobj

record xray_template =
  xt_outbounds :: "jv list option"
  xt_routing :: "xray_routing option"
  xt_observatory :: "jobj option"
  xt_burstObservatory :: "jobj option"
  xt_other :: jobj

definition list_of :: "'a list option \<Rightarrow> 'a list" where
  "list_of x = (case x of None \<Rightarrow> [] | Some xs \<Rightarrow> xs)"

definition xt_rules :: "xray_template \<Rightarrow> jv list" where
  "xt_rules t = (case xt_routing t of None \<Rightarrow> [] | Some r \<Rightarrow> list_of (rg_rules r))"

definition xt_balancers :: "xray_template \<Rightarrow> balancer list" where
  "xt_balancers t = (case xt_routing t of None \<Rightarrow> [] | Some r \<Rightarrow> list_of (rg_balancers r))"

text \<open>\<open>t.routing.rules = ...\<close> where \<open>t.routing\<close> is present.\<close>

definition map_rules :: "(jv list option \<Rightarrow> jv list option) \<Rightarrow> xray_template \<Rightarrow> xray_template" where
  "map_rules f t = t\<lparr>xt_routing := map_option (\<lambda>r. r\<lparr>rg_rules := f (rg_rules r)\<rparr>) (xt_routing t)\<rparr>"

definition map_balancers :: "(balancer list option \<Rightarrow> balancer list option) \<Rightarrow> xray_template \<Rightarrow> xray_template" where
  "map_balancers f t = t\<lparr>xt_routing := map_option (\<lambda>r. r\<lparr>rg_balancers := f (rg_balancers r)\<rparr>) (xt_routing t)\<rparr>"

text \<open>\<open>xs[i] = v\<close>, \<open>xs.splice(i, 1)\<close> and the swaps of two neighbours: a write past the end extends the array.\<close>

definition put_at :: "nat \<Rightarrow> jv \<Rightarrow> jv list \<Rightarrow> jv list" where
  "put_at i v xs = (if i < length xs then xs[i := v] else xs @ replicate (i - length xs) JUndef @ [v])"

definition elem_at :: "jv list \<Rightarrow> nat \<Rightarrow> jv" where
  "elem_at xs i = (if i < length xs then xs ! i else JUndef)"

definition swap_at :: "nat \<Rightarrow> nat \<Rightarrow> jv list \<Rightarrow> jv list" where
  "swap_at i j xs = put_at j (elem_at xs i) (put_at i (elem_at xs j) xs)"

definition splice_out :: "nat \<Rightarrow> 'a list \<Rightarrow> 'a list" where
  "splice_out i xs = take i xs @ drop (Suc i) xs"

section \<open>Basic routing\<close>

definition has_own :: "jv \<Rightarrow> string \<Rightarrow> bool" where
  "has_own v k = (case v of JObj ps \<Rightarrow> k \<in> set (okeys ps) | _ \<Rightarrow> False)"

definition rule_matches :: "string \<Rightarrow> string \<Rightarrow> jv \<Rightarrow> bool" where
  "rule_matches outboundTag property rule \<longleftrightarrow>
     has_own rule property \<and> has_own rule ''outboundTag'' \<and> opt_prop rule ''outboundTag'' = JStr outboundTag"

definition rule_values :: "string \<Rightarrow> jv \<Rightarrow> jv list" where
  "rule_values property rule = (case opt_prop rule property of JArr vs \<Rightarrow> vs | _ \<Rightarrow> [])"

definition ruleGetter :: "xray_template option \<Rightarrow> string \<Rightarrow> string \<Rightarrow> jv list" where
  "ruleGetter t outboundTag property =
     (case t of
        None \<Rightarrow> []
      | Some t \<Rightarrow> concat (map (rule_values property) (filter (rule_matches outboundTag property) (xt_rules t))))"

definition set_prop :: "string \<Rightarrow> jv \<Rightarrow> jv \<Rightarrow> jv" where
  "set_prop k v rule = (case rule of JObj ps \<Rightarrow> JObj (oset k v ps) | _ \<Rightarrow> rule)"

text \<open>The loop of \<open>ruleSetter\<close>; the flag is \<open>inserted\<close>.\<close>

fun replace_rules :: "string \<Rightarrow> string \<Rightarrow> jv list \<Rightarrow> bool \<Rightarrow> jv list \<Rightarrow> jv list" where
  "replace_rules tag property data inserted [] = []"
| "replace_rules tag property data inserted (rule # rules) =
     (if rule_matches tag property rule
      then (if \<not> inserted \<and> data \<noteq> [] then set_prop property (JArr data) rule # replace_rules tag property data True rules
            else replace_rules tag property data inserted rules)
      else rule # replace_rules tag property data inserted rules)"

definition new_rule :: "string \<Rightarrow> string \<Rightarrow> jv list \<Rightarrow> jv" where
  "new_rule outboundTag property data = JObj (oset property (JArr data) [(''type'', JStr ''field''), (''outboundTag'', JStr outboundTag)])"

definition ruleSetter :: "xray_template \<Rightarrow> string \<Rightarrow> string \<Rightarrow> jv list \<Rightarrow> xray_template" where
  "ruleSetter t outboundTag property data =
     (let current = ruleGetter (Some t) outboundTag property
      in if current = [] then map_rules (\<lambda>rules. Some (list_of rules @ [new_rule outboundTag property data])) t
         else map_rules (\<lambda>rules. Some (replace_rules outboundTag property data False (list_of rules))) t)"

fun find_index :: "('a \<Rightarrow> bool) \<Rightarrow> 'a list \<Rightarrow> nat option" where
  "find_index P [] = None"
| "find_index P (x # xs) = (if P x then Some 0 else map_option Suc (find_index P xs))"

definition syncOutbound :: "xray_template \<Rightarrow> string \<Rightarrow> jobj \<Rightarrow> xray_template" where
  "syncOutbound t tag settings =
     (case (xt_outbounds t, xt_routing t) of
        (Some outbounds, Some _) \<Rightarrow>
          (let haveRules = list_ex (\<lambda>r. opt_prop r ''outboundTag'' = JStr tag) (xt_rules t);
               idx = find_index (\<lambda>o'. opt_prop o' ''tag'' = JStr tag) outbounds;
               outbounds = (case idx of Some i \<Rightarrow> if \<not> haveRules \<and> i > 0 then splice_out i outbounds else outbounds | None \<Rightarrow> outbounds);
               outbounds = (if haveRules \<and> idx = None then outbounds @ [JObj settings] else outbounds)
           in t\<lparr>xt_outbounds := Some outbounds\<rparr>)
      | _ \<Rightarrow> t)"

section \<open>Renaming an outbound\<close>

definition retag :: "string \<Rightarrow> string \<Rightarrow> string \<Rightarrow> string" where
  "retag oldTag newTag s = (if s = oldTag then newTag else s)"

definition rename_prop :: "string \<Rightarrow> string \<Rightarrow> string \<Rightarrow> jv \<Rightarrow> jv" where
  "rename_prop k oldTag newTag v = (if opt_prop v k = JStr oldTag then set_prop k (JStr newTag) v else v)"

definition rename_balancer :: "string \<Rightarrow> string \<Rightarrow> balancer \<Rightarrow> balancer" where
  "rename_balancer oldTag newTag b =
     b\<lparr>bl_fallbackTag := map_option (retag oldTag newTag) (bl_fallbackTag b),
       bl_selector := map_option (map (retag oldTag newTag)) (bl_selector b)\<rparr>"

definition rename_dialer :: "string \<Rightarrow> string \<Rightarrow> jv \<Rightarrow> jv" where
  "rename_dialer oldTag newTag outbound =
     (let stream = opt_prop outbound ''streamSettings''; sockopt = opt_prop stream ''sockopt''
      in if opt_prop sockopt ''dialerProxy'' = JStr oldTag
         then set_prop ''streamSettings'' (set_prop ''sockopt'' (set_prop ''dialerProxy'' (JStr newTag) sockopt) stream) outbound
         else outbound)"

definition propagateOutboundTagRename :: "string \<Rightarrow> string \<Rightarrow> xray_template \<Rightarrow> xray_template" where
  "propagateOutboundTagRename oldTag newTag t =
     (if oldTag = [] \<or> newTag = [] \<or> oldTag = newTag then t
      else
        (let t = map_rules (map_option (map (rename_prop ''outboundTag'' oldTag newTag))) t;
             t = map_balancers (map_option (map (rename_balancer oldTag newTag))) t
         in t\<lparr>xt_outbounds := map_option (map (rename_dialer oldTag newTag)) (xt_outbounds t)\<rparr>))"

section \<open>Balancers and observatories\<close>

definition DEFAULT_OBSERVATORY :: jobj where
  "DEFAULT_OBSERVATORY = [(''subjectSelector'', JArr []), (''probeURL'', JStr ''https://www.google.com/generate_204''),
     (''probeInterval'', JStr ''1m''), (''enableConcurrency'', JBool True)]"

definition DEFAULT_BURST_OBSERVATORY :: jobj where
  "DEFAULT_BURST_OBSERVATORY = [(''subjectSelector'', JArr []),
     (''pingConfig'', JObj [(''destination'', JStr ''https://www.google.com/generate_204''), (''interval'', JStr ''1m''),
        (''connectivity'', JStr ''http://connectivitycheck.platform.hicloud.com/generate_204''), (''timeout'', JStr ''5s''),
        (''sampling'', JNum (num 2))])]"

text \<open>A \<open>Set\<close> filled in order.\<close>

definition add_tag :: "string \<Rightarrow> string list \<Rightarrow> string list" where
  "add_tag s out = (if s = [] \<or> s \<in> set out then out else out @ [s])"

definition collectSelectors :: "balancer list \<Rightarrow> string list" where
  "collectSelectors bs = fold (\<lambda>b. fold add_tag (list_of (bl_selector b))) bs []"

definition strategy_type :: "balancer \<Rightarrow> jv" where
  "strategy_type b = (case bl_strategy b of None \<Rightarrow> JUndef | Some s \<Rightarrow> oget s ''type'')"

definition is_strategy :: "string \<Rightarrow> balancer \<Rightarrow> bool" where
  "is_strategy name b \<longleftrightarrow> strategy_type b = JStr name"

definition optional_observer :: "balancer \<Rightarrow> bool" where
  "optional_observer b \<longleftrightarrow> (let type = or_truthy (strategy_type b) (JStr ''random'') in type = JStr ''random'' \<or> type = JStr ''roundRobin'')"

definition observe :: "jobj option \<Rightarrow> jobj \<Rightarrow> balancer list \<Rightarrow> jobj option" where
  "observe current dflt bs =
     Some (oset ''subjectSelector'' (JArr (map JStr (collectSelectors bs))) (case current of None \<Rightarrow> dflt | Some ob \<Rightarrow> ob))"

definition syncObservatories :: "xray_template \<Rightarrow> xray_template" where
  "syncObservatories t =
     (let balancers = xt_balancers t;
          leastPings = filter (is_strategy ''leastPing'') balancers;
          t = t\<lparr>xt_observatory := (if leastPings \<noteq> [] then observe (xt_observatory t) DEFAULT_OBSERVATORY leastPings else None)\<rparr>;
          required = filter (is_strategy ''leastLoad'') balancers;
          optional = filter optional_observer balancers
      in if required \<noteq> [] \<or> (optional \<noteq> [] \<and> xt_burstObservatory t \<noteq> None)
         then t\<lparr>xt_burstObservatory := observe (xt_burstObservatory t) DEFAULT_BURST_OBSERVATORY (required @ optional)\<rparr>
         else if required = [] \<and> optional = [] then t\<lparr>xt_burstObservatory := None\<rparr>
         else t)"

section \<open>The tabs\<close>

text \<open>\<open>if (!tt.routing) tt.routing = dflt; if (!Array.isArray(tt.routing.rules)) tt.routing.rules = []\<close>.\<close>

definition ensure_routing :: "xray_routing \<Rightarrow> xray_template \<Rightarrow> xray_template" where
  "ensure_routing dflt t = (if xt_routing t = None then t\<lparr>xt_routing := Some dflt\<rparr> else t)"

definition edit_rules :: "(jv list \<Rightarrow> jv list) \<Rightarrow> xray_template \<Rightarrow> xray_template" where
  "edit_rules f t =
     map_rules (\<lambda>rules. Some (f (list_of rules))) (ensure_routing \<lparr>rg_rules = Some [], rg_balancers = None, rg_other = []\<rparr> t)"

text \<open>\<open>onRuleConfirm\<close>: a new rule is appended, an edited one replaces the old.\<close>

definition confirm_rule :: "nat option \<Rightarrow> jv \<Rightarrow> xray_template \<Rightarrow> xray_template" where
  "confirm_rule editingIndex rule t =
     (if length (case JSON_stringify rule of Some s \<Rightarrow> s | None \<Rightarrow> []) \<le> 3 then t
      else edit_rules (\<lambda>rules. case editingIndex of None \<Rightarrow> rules @ [rule] | Some i \<Rightarrow> put_at i rule rules) t)"

text \<open>\<open>importRules\<close>: an array, or an object that holds one; \<^const>\<open>None\<close> is the error message.\<close>

definition rules_of_import :: "jv \<Rightarrow> jv list option" where
  "rules_of_import parsed =
     (case parsed of
        JArr rules \<Rightarrow> Some rules
      | _ \<Rightarrow>
        (case opt_prop parsed ''rules'' of
           JArr rules \<Rightarrow> Some rules
         | _ \<Rightarrow> (case opt_prop (opt_prop parsed ''routing'') ''rules'' of JArr rules \<Rightarrow> Some rules | _ \<Rightarrow> None)))"

definition importRules :: "string \<Rightarrow> xray_template \<Rightarrow> xray_template option" where
  "importRules value t =
     map_option (\<lambda>rules. edit_rules (\<lambda>old. old @ rules) t) (Option.bind (JSON_parse value) rules_of_import)"

definition delete_rule :: "nat \<Rightarrow> xray_template \<Rightarrow> xray_template" where
  "delete_rule idx t = map_rules (map_option (splice_out idx)) t"

definition move_rule_up :: "nat \<Rightarrow> xray_template \<Rightarrow> xray_template" where
  "move_rule_up idx t = (if idx = 0 then t else map_rules (map_option (swap_at (idx - 1) idx)) t)"

definition move_rule_down :: "nat \<Rightarrow> xray_template \<Rightarrow> xray_template" where
  "move_rule_down idx t =
     map_rules (map_option (\<lambda>rules. if int idx \<ge> int (length rules) - 1 then rules else swap_at (Suc idx) idx rules)) t"

definition toggle_rule :: "nat \<Rightarrow> bool \<Rightarrow> xray_template \<Rightarrow> xray_template" where
  "toggle_rule idx enabled t =
     map_rules (map_option (\<lambda>rules. if truthy (elem_at rules idx) then put_at idx (set_prop ''enabled'' (JBool enabled) (elem_at rules idx)) rules
                                    else rules)) t"

text \<open>Dropping a dragged row: \<open>list.splice(from, 1)\<close>, then \<open>list.splice(to, 0, item)\<close>.\<close>

definition drop_row :: "nat \<Rightarrow> nat \<Rightarrow> jv list \<Rightarrow> jv list" where
  "drop_row from to rules = (let rest = splice_out from rules in take to rest @ elem_at rules from # drop to rest)"

definition drag_rule :: "nat \<Rightarrow> nat \<Rightarrow> xray_template \<Rightarrow> xray_template" where
  "drag_rule from to t = (if from = to then t else map_rules (map_option (drop_row from to)) t)"

definition map_outbounds :: "(jv list \<Rightarrow> jv list) \<Rightarrow> xray_template \<Rightarrow> xray_template" where
  "map_outbounds f t = t\<lparr>xt_outbounds := map_option f (xt_outbounds t)\<rparr>"

definition tag_of :: "jv \<Rightarrow> string" where
  "tag_of ob = (case opt_prop ob ''tag'' of JStr s \<Rightarrow> s | _ \<Rightarrow> [])"

definition confirm_outbound :: "nat option \<Rightarrow> jv \<Rightarrow> xray_template \<Rightarrow> xray_template" where
  "confirm_outbound editingIndex outbound t =
     (let t = t\<lparr>xt_outbounds := Some (list_of (xt_outbounds t))\<rparr>; newTag = tag_of outbound
      in case editingIndex of
           None \<Rightarrow> if newTag = [] then t else map_outbounds (\<lambda>obs. obs @ [outbound]) t
         | Some i \<Rightarrow>
             (let oldTag = tag_of (elem_at (list_of (xt_outbounds t)) i);
                  t = map_outbounds (put_at i outbound) t
              in if oldTag \<noteq> [] \<and> newTag \<noteq> [] \<and> oldTag \<noteq> newTag then propagateOutboundTagRename oldTag newTag t else t))"

definition delete_outbound :: "nat \<Rightarrow> xray_template \<Rightarrow> xray_template" where
  "delete_outbound idx t = map_outbounds (splice_out idx) t"

definition set_first :: "nat \<Rightarrow> xray_template \<Rightarrow> xray_template" where
  "set_first idx t = map_outbounds (\<lambda>obs. elem_at obs idx # splice_out idx obs) t"

definition move_outbound_up :: "nat \<Rightarrow> xray_template \<Rightarrow> xray_template" where
  "move_outbound_up idx t = (if idx = 0 then t else map_outbounds (swap_at (idx - 1) idx) t)"

definition move_outbound_down :: "nat \<Rightarrow> xray_template \<Rightarrow> xray_template" where
  "move_outbound_down idx t =
     map_outbounds (\<lambda>obs. if int idx \<ge> int (length obs) - 1 then obs else swap_at (Suc idx) idx obs) t"

definition importOutbounds :: "string \<Rightarrow> xray_template \<Rightarrow> xray_template option" where
  "importOutbounds value t =
     map_option (\<lambda>obs. t\<lparr>xt_outbounds := Some (list_of (xt_outbounds t) @ obs)\<rparr>)
       (Option.bind (JSON_parse value)
          (\<lambda>parsed. case parsed of JArr obs \<Rightarrow> Some obs | _ \<Rightarrow> (case opt_prop parsed ''outbounds'' of JArr obs \<Rightarrow> Some obs | _ \<Rightarrow> None)))"

text \<open>\<open>XrayPage\<close>: the Warp and Nord dialogs.\<close>

definition onAddOutbound :: "jv \<Rightarrow> xray_template \<Rightarrow> xray_template" where
  "onAddOutbound outbound t = t\<lparr>xt_outbounds := Some (list_of (xt_outbounds t) @ [outbound])\<rparr>"

definition onResetOutbound :: "nat \<Rightarrow> jv \<Rightarrow> string \<Rightarrow> string \<Rightarrow> xray_template \<Rightarrow> xray_template" where
  "onResetOutbound index outbound oldTag newTag t =
     (if xt_outbounds t = None then t
      else
        (let t = map_outbounds (put_at index outbound) t
         in if oldTag \<noteq> [] \<and> newTag \<noteq> [] then propagateOutboundTagRename oldTag newTag t else t))"

definition onRemoveOutboundByTag :: "string \<Rightarrow> xray_template \<Rightarrow> xray_template" where
  "onRemoveOutboundByTag tag t =
     map_outbounds (\<lambda>obs. case find_index (\<lambda>ob. opt_prop ob ''tag'' = JStr tag) obs of Some i \<Rightarrow> splice_out i obs | None \<Rightarrow> obs) t"

definition onRemoveOutboundByIndex :: "nat \<Rightarrow> xray_template \<Rightarrow> xray_template" where
  "onRemoveOutboundByIndex index t = map_outbounds (splice_out index) t"

definition onRemoveRoutingRules :: "string \<Rightarrow> xray_template \<Rightarrow> xray_template" where
  "onRemoveRoutingRules prefix t =
     map_rules (map_option (filter (\<lambda>r. \<not> (case opt_prop r ''outboundTag'' of JStr s \<Rightarrow> starts_with s prefix | _ \<Rightarrow> False)))) t"

text \<open>\<open>BalancersTab\<close>: a row index is an index of the balancer list.\<close>

record balancer_form =
  bf_tag :: string
  bf_strategy :: string
  bf_selector :: "string list"
  bf_fallbackTag :: string
  bf_settings :: "jobj option"

definition balancer_wire :: "balancer_form \<Rightarrow> balancer" where
  "balancer_wire form =
     \<lparr>bl_tag = bf_tag form, bl_selector = Some (bf_selector form), bl_fallbackTag = Some (bf_fallbackTag form),
      bl_strategy =
        (if bf_strategy form \<noteq> [] \<and> bf_strategy form \<noteq> ''random''
         then Some ((''type'', JStr (bf_strategy form))
           # (case bf_settings form of Some s \<Rightarrow> if bf_strategy form = ''leastLoad'' then [(''settings'', JObj s)] else [] | None \<Rightarrow> []))
         else None)\<rparr>"

definition confirm_balancer :: "nat option \<Rightarrow> balancer_form \<Rightarrow> xray_template \<Rightarrow> xray_template" where
  "confirm_balancer editingIndex form t =
     (let t = map_balancers (\<lambda>bs. Some (list_of bs)) (ensure_routing \<lparr>rg_rules = Some [], rg_balancers = Some [], rg_other = []\<rparr> t);
          wire = balancer_wire form
      in syncObservatories
        (case editingIndex of
           None \<Rightarrow> map_balancers (map_option (\<lambda>bs. bs @ [wire])) t
         | Some i \<Rightarrow>
             (let oldTag = (if i < length (xt_balancers t) then bl_tag (xt_balancers t ! i) else []); t = map_balancers (map_option (\<lambda>bs. bs[i := wire])) t
              in if oldTag \<noteq> [] \<and> oldTag \<noteq> bl_tag wire
                 then map_rules (map_option (map (rename_prop ''balancerTag'' oldTag (bl_tag wire)))) t else t)))"

definition delete_balancer :: "nat \<Rightarrow> xray_template \<Rightarrow> xray_template" where
  "delete_balancer idx t =
     (case xt_routing t of
        Some r \<Rightarrow> if rg_balancers r \<noteq> None then syncObservatories (map_balancers (map_option (splice_out idx)) t) else t
      | None \<Rightarrow> t)"

end
