(* ===== verification/Template_Laws.thy ===== *)
theory Template_Laws
  imports Xray_Template
begin

text \<open>
  What the editors of the template promise: basic routing is a lens on the rules of a tag, a tag
  with rules has its outbound, renaming an outbound moves every reference, observatories
  follow the balancers, and moving rows permutes them.
\<close>

section \<open>Properties of rules\<close>

lemma opt_prop_set: "has_own v k \<or> (\<exists>ps. v = JObj ps) \<Longrightarrow> opt_prop (set_prop k w v) j = (if j = k then w else opt_prop v j)"
  by (cases v) (auto simp: set_prop_def opt_prop_def has_own_def)

lemma opt_prop_set_other: "j \<noteq> k \<Longrightarrow> opt_prop (set_prop k w v) j = opt_prop v j"
  by (cases v) (auto simp: set_prop_def opt_prop_def)

lemma has_own_obj: "has_own v k \<Longrightarrow> \<exists>ps. v = JObj ps"
  by (cases v) (auto simp: has_own_def)

lemma keys_after_set: "set (okeys (oset k v ps)) = insert k (set (okeys ps))"
  by (induction ps) auto

lemma has_own_set: "has_own (set_prop k w v) j \<longleftrightarrow> (\<exists>ps. v = JObj ps) \<and> (j = k \<or> has_own v j)"
  by (cases v) (auto simp: set_prop_def has_own_def keys_after_set simp del: set_map)

lemma opt_prop_str: "opt_prop v k = JStr s \<Longrightarrow> \<exists>ps. v = JObj ps"
  by (cases v) (auto simp: opt_prop_def)

definition values_in :: "string \<Rightarrow> string \<Rightarrow> jv list \<Rightarrow> jv list" where
  "values_in tag property rules = concat (map (rule_values property) (filter (rule_matches tag property) rules))"

lemma values_in_simps [simp]:
  "values_in tag p [] = []"
  "values_in tag p (r # rs) = (if rule_matches tag p r then rule_values p r else []) @ values_in tag p rs"
  "values_in tag p (rs @ rs') = values_in tag p rs @ values_in tag p rs'"
  by (simp_all add: values_in_def)

lemma rules_of_map [simp]: "xt_routing t = Some r \<Longrightarrow> xt_rules (map_rules (\<lambda>rules. Some (g (list_of rules))) t) = g (xt_rules t)"
  by (simp add: xt_rules_def map_rules_def list_of_def)

lemma rules_of_map_option: "xt_rules (map_rules (map_option g) t) = (if xt_rules t = [] then list_of (map_option g (Option.bind (xt_routing t) rg_rules)) else g (xt_rules t))"
  by (auto simp: xt_rules_def map_rules_def list_of_def split: option.split)

lemma match_set: "p \<noteq> ''outboundTag'' \<Longrightarrow> rule_matches tag p (set_prop q w r) \<longleftrightarrow>
    (\<exists>ps. r = JObj ps) \<and> (p = q \<or> has_own r p) \<and> has_own (set_prop q w r) ''outboundTag'' \<and> opt_prop (set_prop q w r) ''outboundTag'' = JStr tag"
  by (auto simp: rule_matches_def has_own_set)

lemma values_set: "\<exists>ps. r = JObj ps \<Longrightarrow> rule_values p (set_prop p (JArr data) r) = data"
  by (auto simp: rule_values_def set_prop_def opt_prop_def)

lemma match_same: "p \<noteq> ''outboundTag'' \<Longrightarrow> rule_matches tag p r \<Longrightarrow> rule_matches tag p (set_prop p w r)"
  by (auto simp: rule_matches_def has_own_set opt_prop_set_other dest: has_own_obj)

lemma match_obj: "rule_matches tag p r \<Longrightarrow> \<exists>ps. r = JObj ps"
  by (auto simp: rule_matches_def dest: has_own_obj)

lemma match_other_tag: "p \<noteq> ''outboundTag'' \<Longrightarrow> rule_matches tag p r \<Longrightarrow> tag' \<noteq> tag \<Longrightarrow>
    \<not> rule_matches tag' q r \<and> \<not> rule_matches tag' q (set_prop p w r)"
  by (auto simp: rule_matches_def opt_prop_set_other)

lemma match_other_property: "p \<noteq> ''outboundTag'' \<Longrightarrow> \<not> has_own r q \<Longrightarrow> q \<noteq> p \<Longrightarrow>
    \<not> rule_matches tag' q r \<and> \<not> rule_matches tag' q (set_prop p w r)"
  by (auto simp: rule_matches_def has_own_set)

lemma replaced_values:
  "p \<noteq> ''outboundTag'' \<Longrightarrow> values_in tag p (replace_rules tag p data inserted rules)
     = (if inserted \<or> \<not> list_ex (rule_matches tag p) rules then [] else data)"
  by (induction tag p data inserted rules rule: replace_rules.induct)
    (auto simp: match_same values_set match_obj)

lemma replaced_other_tag:
  "p \<noteq> ''outboundTag'' \<Longrightarrow> tag' \<noteq> tag \<Longrightarrow> values_in tag' q (replace_rules tag p data inserted rules) = values_in tag' q rules"
  by (induction tag p data inserted rules rule: replace_rules.induct) (auto dest: match_other_tag)

lemma replaced_other_property:
  "p \<noteq> ''outboundTag'' \<Longrightarrow> q \<noteq> p \<Longrightarrow> list_all (\<lambda>r. \<not> (rule_matches tag p r \<and> has_own r q)) rules \<Longrightarrow>
    values_in tag' q (replace_rules tag p data inserted rules) = values_in tag' q rules"
  by (induction tag p data inserted rules rule: replace_rules.induct) (auto dest: match_other_property)

lemma new_rule_values:
  assumes "p \<noteq> ''outboundTag''"
  shows "rule_matches tag p (new_rule tag p data)" "rule_values p (new_rule tag p data) = data"
    "tag' \<noteq> tag \<Longrightarrow> \<not> rule_matches tag' q (new_rule tag p data)" "q \<noteq> p \<Longrightarrow> rule_values q (new_rule tag p data) = []"
  using assms by (auto simp: new_rule_def rule_matches_def has_own_def opt_prop_def keys_after_set rule_values_def oget_def
      map_of_delete_eq split: jv.splits if_splits simp del: set_map)


text \<open>Clearing one list of a tag deletes the other lists of a rule that carries both.\<close>

lemma clearing_drops_combined_rule:
  "let rule = JObj [(''outboundTag'', JStr ''direct''), (''ip'', JArr [JStr ''geoip:ir'']), (''domain'', JArr [JStr ''geosite:ir''])];
       t = \<lparr>xt_outbounds = None, xt_routing = Some \<lparr>rg_rules = Some [rule], rg_balancers = None, rg_other = []\<rparr>, xt_observatory = None,
            xt_burstObservatory = None, xt_other = []\<rparr>
   in ruleGetter (Some t) ''direct'' ''domain'' = [JStr ''geosite:ir'']
      \<and> ruleGetter (Some (ruleSetter t ''direct'' ''ip'' [])) ''direct'' ''domain'' = []"
  by (simp add: ruleGetter_def ruleSetter_def xt_rules_def list_of_def rule_matches_def has_own_def opt_prop_def oget_def rule_values_def
      map_rules_def)

section \<open>Outbounds that basic routing needs\<close>

lemma find_index_Some: "find_index P xs = Some i \<Longrightarrow> i < length xs \<and> P (xs ! i) \<and> (\<forall>j < i. \<not> P (xs ! j))"
proof (induction xs arbitrary: i)
  case (Cons x xs)
  thus ?case by (cases i) (auto simp: less_Suc_eq_0_disj split: if_splits)
qed simp

lemma find_index_None: "find_index P xs = None \<longleftrightarrow> \<not> list_ex P xs"
  by (induction xs) auto

lemma splice_split: "i < length xs \<Longrightarrow> xs = take i xs @ xs ! i # drop (Suc i) xs"
  by (simp add: id_take_nth_drop)

lemma splice_filter: "i < length xs \<Longrightarrow> \<not> P (xs ! i) \<Longrightarrow> filter P (splice_out i xs) = filter P xs"
  by (subst (2) splice_split [of i xs]) (simp_all add: splice_out_def)

lemma splice_hd: "0 < i \<Longrightarrow> take 1 (splice_out i xs) = take 1 xs"
  by (cases xs; cases i) (simp_all add: splice_out_def)

text \<open>After the outbound of a tag is synchronised, a tag that some rule routes to has an outbound, the first
  outbound (the default route) is never removed, and outbounds with other tags are left as they were.\<close>
theorem sync_provides_outbound:
  assumes "xt_outbounds t = Some obs" and "xt_routing t = Some r" and "oget settings ''tag'' = JStr tag" and "t' = syncOutbound t tag settings"
  shows "(list_ex (\<lambda>rule. opt_prop rule ''outboundTag'' = JStr tag) (xt_rules t') \<longrightarrow>
      list_ex (\<lambda>ob. opt_prop ob ''tag'' = JStr tag) (list_of (xt_outbounds t')))
    \<and> (obs \<noteq> [] \<longrightarrow> take 1 (list_of (xt_outbounds t')) = take 1 obs)
    \<and> filter (\<lambda>ob. opt_prop ob ''tag'' \<noteq> JStr tag) (list_of (xt_outbounds t')) = filter (\<lambda>ob. opt_prop ob ''tag'' \<noteq> JStr tag) obs
    \<and> xt_rules t' = xt_rules t"
proof -
  let ?have = "list_ex (\<lambda>rule. opt_prop rule ''outboundTag'' = JStr tag) (xt_rules t)"
  let ?P = "\<lambda>ob. opt_prop ob ''tag'' = JStr tag"
  have n: "opt_prop (JObj settings) ''tag'' = JStr tag" using assms(3) by (simp add: opt_prop_def)
  have r: "xt_rules t' = xt_rules t" by (simp add: assms syncOutbound_def xt_rules_def Let_def)
  show ?thesis
  proof (cases "find_index ?P obs")
    case None
    hence "list_of (xt_outbounds t') = (if ?have then obs @ [JObj settings] else obs)"
      using assms by (simp add: syncOutbound_def Let_def list_of_def)
    thus ?thesis using r n by (cases obs) auto
  next
    case (Some i)
    note f = find_index_Some [OF Some]
    have o: "list_of (xt_outbounds t') = (if \<not> ?have \<and> i > 0 then splice_out i obs else obs)"
      using Some assms by (simp add: syncOutbound_def Let_def list_of_def)
    have "list_ex ?P obs" using f by (auto simp: list_ex_iff)
    moreover have "filter (\<lambda>ob. \<not> ?P ob) (splice_out i obs) = filter (\<lambda>ob. \<not> ?P ob) obs" using f by (intro splice_filter) auto
    ultimately show ?thesis using o r splice_hd [of i obs] by auto
  qed
qed

section \<open>References to outbounds\<close>

definition ref_of :: "jv \<Rightarrow> string list" where
  "ref_of v = (case v of JStr s \<Rightarrow> [s] | _ \<Rightarrow> [])"

definition dialer_of :: "jv \<Rightarrow> jv" where
  "dialer_of ob = opt_prop (opt_prop (opt_prop ob ''streamSettings'') ''sockopt'') ''dialerProxy''"

definition balancer_refs :: "balancer \<Rightarrow> string list" where
  "balancer_refs b = (case bl_fallbackTag b of None \<Rightarrow> [] | Some s \<Rightarrow> [s]) @ list_of (bl_selector b)"

text \<open>The outbound tags a template refers to: rules, balancers, dialer proxies.\<close>

definition outbound_refs :: "xray_template \<Rightarrow> string list" where
  "outbound_refs t =
     concat (map (\<lambda>r. ref_of (opt_prop r ''outboundTag'')) (xt_rules t)) @ concat (map balancer_refs (xt_balancers t))
     @ concat (map (\<lambda>ob. ref_of (dialer_of ob)) (list_of (xt_outbounds t)))"

lemma rename_ref: "ref_of (opt_prop (rename_prop k a b v) k) = map (retag a b) (ref_of (opt_prop v k))"
proof (cases "opt_prop v k = JStr a")
  case True
  then obtain ps where "v = JObj ps" using opt_prop_str by blast
  thus ?thesis using True by (simp add: rename_prop_def opt_prop_set ref_of_def retag_def)
next
  case False
  thus ?thesis by (cases "opt_prop v k") (auto simp: rename_prop_def ref_of_def retag_def)
qed

lemma rename_dialer_ref: "ref_of (dialer_of (rename_dialer a b ob)) = map (retag a b) (ref_of (dialer_of ob))"
proof (cases "dialer_of ob = JStr a")
  case True
  then obtain sk where sk: "opt_prop (opt_prop ob ''streamSettings'') ''sockopt'' = JObj sk" unfolding dialer_of_def using opt_prop_str by blast
  obtain st where st: "opt_prop ob ''streamSettings'' = JObj st"
    using sk by (cases "opt_prop ob ''streamSettings''") (auto simp: opt_prop_def)
  obtain ps where ps: "ob = JObj ps" using st by (cases ob) (auto simp: opt_prop_def)
  have "dialer_of (rename_dialer a b ob) = JStr b"
    using True sk st ps by (simp add: rename_dialer_def dialer_of_def Let_def set_prop_def opt_prop_def)
  thus ?thesis using True by (simp add: ref_of_def retag_def)
next
  case False
  hence "rename_dialer a b ob = ob" by (simp add: rename_dialer_def dialer_of_def Let_def)
  thus ?thesis using False by (cases "dialer_of ob") (auto simp: ref_of_def retag_def)
qed

lemma rename_balancer_refs: "balancer_refs (rename_balancer a b bl) = map (retag a b) (balancer_refs bl)"
  by (cases "bl_fallbackTag bl"; cases "bl_selector bl") (simp_all add: balancer_refs_def rename_balancer_def list_of_def)

lemma propagate_parts:
  assumes "a \<noteq> []" "b \<noteq> []" "a \<noteq> b"
  shows "xt_rules (propagateOutboundTagRename a b t) = map (rename_prop ''outboundTag'' a b) (xt_rules t)"
    "xt_balancers (propagateOutboundTagRename a b t) = map (rename_balancer a b) (xt_balancers t)"
    "list_of (xt_outbounds (propagateOutboundTagRename a b t)) = map (rename_dialer a b) (list_of (xt_outbounds t))"
  using assms
  by (simp_all add: propagateOutboundTagRename_def Let_def map_rules_def map_balancers_def xt_rules_def xt_balancers_def list_of_def
      split: option.split)

lemma retag_self: "retag a a = id"
  by (auto simp: retag_def)

lemma rename_prop_back: "opt_prop v k \<noteq> JStr b \<Longrightarrow> rename_prop k b a (rename_prop k a b v) = v"
proof (cases "opt_prop v k = JStr a")
  case True
  then obtain ps where v: "v = JObj ps" using opt_prop_str by blast
  hence "map_of ps k = Some (JStr a)" using True by (auto simp: opt_prop_def oget_def split: option.splits)
  hence "oset k (JStr a) (oset k (JStr b) ps) = ps" by (simp add: update_triv)
  thus ?thesis using True v by (simp add: rename_prop_def set_prop_def opt_prop_def)
qed (simp add: rename_prop_def)

lemma set_prop_triv: "opt_prop v k = w \<Longrightarrow> w \<noteq> JUndef \<Longrightarrow> set_prop k w v = v"
  by (cases v) (auto simp: set_prop_def opt_prop_def oget_def update_triv split: option.splits)

lemma set_prop_twice: "set_prop k w (set_prop k w' v) = set_prop k w v"
  by (cases v) (simp_all add: set_prop_def)

lemma rename_dialer_back: "dialer_of ob \<noteq> JStr b \<Longrightarrow> rename_dialer b a (rename_dialer a b ob) = ob"
proof (cases "dialer_of ob = JStr a")
  case True
  let ?st = "opt_prop ob ''streamSettings''" let ?sk = "opt_prop ?st ''sockopt''"
  have d: "opt_prop ?sk ''dialerProxy'' = JStr a" using True by (simp add: dialer_of_def)
  then obtain sk where sk: "?sk = JObj sk" using opt_prop_str by blast
  then obtain st where st: "?st = JObj st" by (cases ?st) (auto simp: opt_prop_def)
  then obtain ps where ps: "ob = JObj ps" by (cases ob) (auto simp: opt_prop_def)
  let ?sk' = "set_prop ''dialerProxy'' (JStr b) ?sk" let ?st' = "set_prop ''sockopt'' ?sk' ?st"
  let ?ob' = "set_prop ''streamSettings'' ?st' ob"
  have r: "rename_dialer a b ob = ?ob'" using d by (simp add: rename_dialer_def Let_def)
  have o1: "opt_prop ?ob' ''streamSettings'' = ?st'" using ps by (simp add: opt_prop_set)
  have o2: "opt_prop ?st' ''sockopt'' = ?sk'" using st by (simp add: opt_prop_set)
  have o3: "opt_prop ?sk' ''dialerProxy'' = JStr b" using sk by (simp add: opt_prop_set)
  have "set_prop ''dialerProxy'' (JStr a) ?sk' = ?sk" using d by (simp add: set_prop_twice set_prop_triv)
  moreover have "set_prop ''sockopt'' ?sk ?st' = ?st" using sk by (simp add: set_prop_twice set_prop_triv)
  moreover have "set_prop ''streamSettings'' ?st ?ob' = ob" using st by (simp add: set_prop_twice set_prop_triv)
  ultimately show ?thesis unfolding r rename_dialer_def [of b a ?ob'] Let_def o1 o2 o3 by simp
next
  case False
  assume "dialer_of ob \<noteq> JStr b"
  thus ?thesis using False by (simp add: rename_dialer_def dialer_of_def Let_def)
qed

lemma rename_balancer_back: "b \<notin> set (balancer_refs bl) \<Longrightarrow> rename_balancer b a (rename_balancer a b bl) = bl"
proof -
  assume n: "b \<notin> set (balancer_refs bl)"
  have m: "b \<noteq> s \<Longrightarrow> retag b a (retag a b s) = s" for s by (auto simp: retag_def)
  have "map_option (retag b a) (map_option (retag a b) (bl_fallbackTag bl)) = bl_fallbackTag bl"
    using n m by (cases "bl_fallbackTag bl") (simp_all add: balancer_refs_def)
  moreover have "map_option (map (retag b a)) (map_option (map (retag a b)) (bl_selector bl)) = bl_selector bl"
    using n m by (cases "bl_selector bl") (auto simp: balancer_refs_def list_of_def comp_def intro!: map_idI m)
  ultimately show ?thesis by (simp add: rename_balancer_def)
qed

lemma map_option_back: "\<forall>x \<in> set (list_of xs). g (f x) = x \<Longrightarrow> map_option (map g) (map_option (map f) xs) = xs"
  by (cases xs) (auto simp: list_of_def comp_def intro!: map_idI)

lemma ref_of_in: "b \<notin> set (ref_of v) \<longleftrightarrow> v \<noteq> JStr b"
  by (cases v) (auto simp: ref_of_def)

text \<open>C12: Renaming an outbound moves every reference to it, in place and in order (rules, balancer fallbacks and
  selectors, dialer proxies), touches no other reference, leaves none to the old tag, and
  renaming back restores the template when the new tag was not referred to.\<close>
theorem rename_moves_references:
  assumes "oldTag \<noteq> []" and "newTag \<noteq> []" and "t' = propagateOutboundTagRename oldTag newTag t"
  shows "outbound_refs t' = map (retag oldTag newTag) (outbound_refs t)
    \<and> (oldTag \<noteq> newTag \<longrightarrow> oldTag \<notin> set (outbound_refs t'))
    \<and> (newTag \<notin> set (outbound_refs t) \<longrightarrow> propagateOutboundTagRename newTag oldTag t' = t)"
proof (cases "oldTag = newTag")
  case True
  thus ?thesis using assms by (simp add: propagateOutboundTagRename_def retag_self)
next
  case False
  note parts = propagate_parts [OF assms(1,2) False, of t]
  have refs: "outbound_refs t' = map (retag oldTag newTag) (outbound_refs t)"
    unfolding outbound_refs_def assms(3) parts
    by (simp add: map_concat rename_ref rename_balancer_refs rename_dialer_ref comp_def)
  have "oldTag \<notin> set (outbound_refs t')" using False by (auto simp: refs retag_def)
  moreover have "propagateOutboundTagRename newTag oldTag t' = t" if n: "newTag \<notin> set (outbound_refs t)"
  proof -
    have r: "\<forall>x \<in> set (xt_rules t). rename_prop ''outboundTag'' newTag oldTag (rename_prop ''outboundTag'' oldTag newTag x) = x"
      using n by (auto simp: outbound_refs_def ref_of_in intro!: rename_prop_back)
    have b: "\<forall>x \<in> set (xt_balancers t). rename_balancer newTag oldTag (rename_balancer oldTag newTag x) = x"
      using n by (auto simp: outbound_refs_def intro!: rename_balancer_back)
    have d: "\<forall>x \<in> set (list_of (xt_outbounds t)). rename_dialer newTag oldTag (rename_dialer oldTag newTag x) = x"
      using n by (auto simp: outbound_refs_def ref_of_in intro!: rename_dialer_back)
    note o = map_option_back [where xs = "xt_outbounds t" and f = "rename_dialer oldTag newTag", OF d]
    have "xt_routing (propagateOutboundTagRename newTag oldTag t') = xt_routing t"
    proof (cases "xt_routing t")
      case (Some rt)
      hence "xt_rules t = list_of (rg_rules rt)" "xt_balancers t = list_of (rg_balancers rt)" by (simp_all add: xt_rules_def xt_balancers_def)
      thus ?thesis using Some False assms
          map_option_back [where xs = "rg_rules rt" and f = "rename_prop ''outboundTag'' oldTag newTag", OF r [unfolded \<open>xt_rules t = list_of (rg_rules rt)\<close>]]
          map_option_back [where xs = "rg_balancers rt" and f = "rename_balancer oldTag newTag", OF b [unfolded \<open>xt_balancers t = list_of (rg_balancers rt)\<close>]]
        by (simp add: propagateOutboundTagRename_def Let_def map_rules_def map_balancers_def)
    qed (simp add: assms False propagateOutboundTagRename_def Let_def map_rules_def map_balancers_def)
    moreover have "xt_outbounds (propagateOutboundTagRename newTag oldTag t') = xt_outbounds t"
      using o assms False by (simp add: propagateOutboundTagRename_def Let_def map_rules_def map_balancers_def)
    moreover have "xt_observatory (propagateOutboundTagRename newTag oldTag t') = xt_observatory t"
      "xt_burstObservatory (propagateOutboundTagRename newTag oldTag t') = xt_burstObservatory t"
      "xt_other (propagateOutboundTagRename newTag oldTag t') = xt_other t"
      using assms False by (simp_all add: propagateOutboundTagRename_def Let_def map_rules_def map_balancers_def)
    ultimately show ?thesis by simp
  qed
  ultimately show ?thesis using refs by blast
qed

section \<open>Observatories\<close>

lemma add_tags: "set (fold add_tag ss out) = set out \<union> (set ss - {[]})" "distinct out \<Longrightarrow> distinct (fold add_tag ss out)"
  by (induction ss arbitrary: out) (auto simp: add_tag_def)

lemma collected:
  "set (collectSelectors bs) = (\<Union>b \<in> set bs. set (list_of (bl_selector b))) - {[]}" "distinct (collectSelectors bs)"
proof -
  have "set (fold (\<lambda>b. fold add_tag (list_of (bl_selector b))) bs out) = set out \<union> ((\<Union>b \<in> set bs. set (list_of (bl_selector b))) - {[]})" for out
    by (induction bs arbitrary: out) (auto simp: add_tags(1))
  thus "set (collectSelectors bs) = (\<Union>b \<in> set bs. set (list_of (bl_selector b))) - {[]}" by (simp add: collectSelectors_def)
  have "distinct out \<Longrightarrow> distinct (fold (\<lambda>b. fold add_tag (list_of (bl_selector b))) bs out)" for out
    by (induction bs arbitrary: out) (auto simp: add_tags(2))
  thus "distinct (collectSelectors bs)" by (simp add: collectSelectors_def)
qed

text \<open>The abstract contract: an observer exists when its balancers ask for it, and watches their tags.\<close>

definition watches :: "jobj option \<Rightarrow> balancer list \<Rightarrow> bool" where
  "watches obs bs \<longleftrightarrow> (\<exists>ob tags. obs = Some ob \<and> oget ob ''subjectSelector'' = JArr (map JStr tags) \<and> distinct tags
     \<and> set tags = (\<Union>b \<in> set bs. set (list_of (bl_selector b))) - {[]})"

lemma observe_watches: "watches (observe current dflt bs) bs"
proof -
  have o: "observe current dflt bs = Some (oset ''subjectSelector'' (str_list (collectSelectors bs))
      (case current of None \<Rightarrow> dflt | Some ob \<Rightarrow> ob))" by (simp add: observe_def)
  show ?thesis unfolding watches_def
    by (rule exI, rule exI [of _ "collectSelectors bs"], intro conjI, rule o) (simp_all only: oget_oset if_True simp_thms collected)
qed

lemma observe_again: "observe (observe current dflt bs) dflt' bs = observe current dflt bs"
  by (simp add: observe_def)


section \<open>Moving rows\<close>

lemma swap_mset: "i < length xs \<Longrightarrow> j < length xs \<Longrightarrow> mset (swap_at i j xs) = mset xs"
  by (simp add: swap_at_def put_at_def elem_at_def mset_swap)

lemma splice_mset: "i < length xs \<Longrightarrow> add_mset (xs ! i) (mset (splice_out i xs)) = mset xs"
  by (subst (3) splice_split [of i xs]) (simp_all add: splice_out_def)

lemma drop_row_at:
  assumes "from < length xs" "to < length xs"
  shows "drop_row from to xs ! to = xs ! from" "splice_out to (drop_row from to xs) = splice_out from xs" "mset (drop_row from to xs) = mset xs"
proof -
  let ?rest = "splice_out from xs"
  have l: "length ?rest = length xs - 1" using assms(1) by (simp add: splice_out_def)
  have t: "length (take to ?rest) = to" using assms l by simp
  have d: "drop_row from to xs = take to ?rest @ xs ! from # drop to ?rest" using assms(1) by (simp add: drop_row_def Let_def elem_at_def)
  show "drop_row from to xs ! to = xs ! from" unfolding d using t by (simp add: nth_append)
  show "splice_out to (drop_row from to xs) = ?rest" unfolding splice_out_def [of to] d using t by simp
  have "mset (take to ?rest) + mset (drop to ?rest) = mset ?rest" by (simp add: mset_append [symmetric] del: mset_append)
  thus "mset (drop_row from to xs) = mset xs" unfolding d using splice_mset [OF assms(1)] by simp
qed

text \<open>Moving, dragging and reordering rows never loses or duplicates one: each is a permutation; a dragged
  rule lands at the target index and the others keep their order; a promoted outbound comes first.\<close>
theorem moves_permute:
  assumes "xt_routing t = Some r" and "rg_rules r = Some rules" and "from < length rules" and "to < length rules"
    and "xt_outbounds t = Some obs" and "idx < length obs"
  shows "mset (xt_rules (move_rule_up from t)) = mset rules \<and> mset (xt_rules (move_rule_down from t)) = mset rules
    \<and> mset (xt_rules (drag_rule from to t)) = mset rules \<and> xt_rules (drag_rule from to t) ! to = rules ! from
    \<and> splice_out to (xt_rules (drag_rule from to t)) = splice_out from rules
    \<and> mset (list_of (xt_outbounds (set_first idx t))) = mset obs \<and> hd (list_of (xt_outbounds (set_first idx t))) = obs ! idx
    \<and> mset (list_of (xt_outbounds (move_outbound_up idx t))) = mset obs
    \<and> mset (list_of (xt_outbounds (move_outbound_down idx t))) = mset obs"
proof -
  have m: "xt_rules (map_rules (map_option f) t) = f rules" for f
    using assms(1,2) by (simp add: xt_rules_def map_rules_def list_of_def)
  have k: "xt_rules t = rules" using assms(1,2) by (simp add: xt_rules_def list_of_def)
  have "mset (xt_rules (move_rule_up from t)) = mset rules"
    using assms(3) k m swap_mset [of "from - 1" rules "from"] by (cases "from") (simp_all add: move_rule_up_def)
  moreover have "mset (xt_rules (move_rule_down from t)) = mset rules"
    using assms(3) m swap_mset [of "Suc from" rules "from"] by (simp add: move_rule_down_def)
  moreover have "xt_rules (drag_rule from to t) = (if from = to then rules else drop_row from to rules)"
    using k m by (simp add: drag_rule_def)
  moreover have "mset (list_of (xt_outbounds (set_first idx t))) = mset obs" "hd (list_of (xt_outbounds (set_first idx t))) = obs ! idx"
    using assms(5,6) splice_mset [OF assms(6)] by (simp_all add: set_first_def map_outbounds_def list_of_def elem_at_def)
  moreover have "mset (list_of (xt_outbounds (move_outbound_up idx t))) = mset obs"
    using assms(5,6) swap_mset [of "idx - 1" obs idx] by (cases idx) (simp_all add: move_outbound_up_def map_outbounds_def list_of_def)
  moreover have "mset (list_of (xt_outbounds (move_outbound_down idx t))) = mset obs"
    using assms(5,6) swap_mset [of "Suc idx" obs idx] by (simp add: move_outbound_down_def map_outbounds_def list_of_def)
  ultimately show ?thesis using drop_row_at [OF assms(3,4)] by simp
qed

section \<open>The properties at a concrete template\<close>

definition sample_routing :: xray_routing where
  "sample_routing = \<lparr>rg_rules = Some
      [JObj [(''outboundTag'', JStr ''direct''), (''ip'', JArr [JStr ''geoip:private''])],
       JObj [(''outboundTag'', JStr ''warp''), (''domain'', JArr [JStr ''geosite:openai''])]],
     rg_balancers = Some [\<lparr>bl_tag = ''b'', bl_selector = Some [''warp''], bl_fallbackTag = Some ''direct'',
       bl_strategy = Some [(''type'', JStr ''leastPing'')]\<rparr>], rg_other = []\<rparr>"

definition sample_template :: xray_template where
  "sample_template = \<lparr>xt_outbounds = Some [JObj [(''tag'', JStr ''direct'')], JObj [(''tag'', JStr ''warp'')]],
     xt_routing = Some sample_routing, xt_observatory = None, xt_burstObservatory = None, xt_other = []\<rparr>"

lemma sample_template_parts:
  "xt_routing sample_template = Some sample_routing"
  "rg_rules sample_routing = Some (list_of (rg_rules sample_routing))"
  "xt_outbounds sample_template = Some (list_of (xt_outbounds sample_template))"
  "length (list_of (rg_rules sample_routing)) = 2" "length (list_of (xt_outbounds sample_template)) = 2"
  by (simp_all add: sample_template_def sample_routing_def list_of_def)


theorem sync_provides_outbound_witness:
  "let t' = syncOutbound (sample_template\<lparr>xt_outbounds := Some [JObj [(''tag'', JStr ''direct'')]]\<rparr>) ''warp'' [(''tag'', JStr ''warp'')]
   in list_ex (\<lambda>ob. opt_prop ob ''tag'' = JStr ''warp'') (list_of (xt_outbounds t')) \<and> xt_rules t' = xt_rules sample_template"
proof -
  let ?t = "sample_template\<lparr>xt_outbounds := Some [JObj [(''tag'', JStr ''direct'')]]\<rparr>"
  let ?s = "[(''tag'', JStr ''warp'')]"
  have r: "xt_rules ?t = xt_rules sample_template" by (simp add: xt_rules_def)
  have "list_ex (\<lambda>rule. opt_prop rule ''outboundTag'' = JStr ''warp'') (xt_rules sample_template)" by code_simp
  thus ?thesis
    using sync_provides_outbound [of ?t "[JObj [(''tag'', JStr ''direct'')]]" sample_routing ?s "''warp''", OF _ _ _ refl] sample_template_parts(1) r
    by (simp add: oget_def)
qed

theorem rename_moves_references_witness:
  "outbound_refs sample_template = [''direct'', ''warp'', ''direct'', ''warp'']
    \<and> outbound_refs (propagateOutboundTagRename ''warp'' ''wg'' sample_template) = [''direct'', ''wg'', ''direct'', ''wg'']
    \<and> propagateOutboundTagRename ''wg'' ''warp'' (propagateOutboundTagRename ''warp'' ''wg'' sample_template) = sample_template"
proof -
  have r: "outbound_refs sample_template = [''direct'', ''warp'', ''direct'', ''warp'']" by code_simp
  thus ?thesis using rename_moves_references [of "''warp''" "''wg''", OF _ _ refl, of sample_template] by (simp add: retag_def)
qed


theorem moves_permute_witness:
  "xt_rules (drag_rule 0 1 sample_template) ! 1 = list_of (rg_rules sample_routing) ! 0
    \<and> hd (list_of (xt_outbounds (set_first 1 sample_template))) = JObj [(''tag'', JStr ''warp'')]"
proof -
  have "list_of (xt_outbounds sample_template) ! 1 = JObj [(''tag'', JStr ''warp'')]" by code_simp
  thus ?thesis using moves_permute [OF sample_template_parts(1,2) _ _ sample_template_parts(3), of 0 1 1] by (simp add: sample_template_parts(4,5))
qed

end
