(* ===== verification/Sub_Branding.thy ===== *)
theory Sub_Branding
  imports Outbound_Form Json_Text
begin

text \<open>
  The branding of the subscription page: \<open>frontend/src/lib/sub/branding.ts\<close>, the edits of
  \<open>pages/settings/SubscriptionBrandingTab.tsx\<close> and the parts of \<open>pages/sub/SubPage.tsx\<close> that decide what
  is rendered. The stored document is JSON text an administrator may have edited by hand.
\<close>

section \<open>The document\<close>

record sub_branding =
  br_brandName :: string
  br_logoUrl :: string
  br_tagline :: string
  br_announcement :: string
  br_theme :: string
  br_primaryColor :: string
  br_pageBg :: string
  br_cardBg :: string
  br_textColor :: string
  br_bgImageUrl :: string
  br_cardRadius :: int
  br_cardOpacity :: int
  br_showDetails :: bool
  br_showUsage :: bool
  br_showSubLinks :: bool
  br_showConfigLinks :: bool
  br_showApps :: bool
  br_showThemeToggle :: bool
  br_showLangToggle :: bool
  br_supportText :: string
  br_supportUrl :: string
  br_telegramUrl :: string
  br_websiteUrl :: string
  br_footerText :: string
  br_customCss :: string

definition DEFAULT_SUB_BRANDING :: sub_branding where
  "DEFAULT_SUB_BRANDING = \<lparr>br_brandName = [], br_logoUrl = [], br_tagline = [], br_announcement = [],
     br_theme = ''auto'', br_primaryColor = [], br_pageBg = [], br_cardBg = [], br_textColor = [], br_bgImageUrl = [],
     br_cardRadius = 12, br_cardOpacity = 100,
     br_showDetails = True, br_showUsage = True, br_showSubLinks = True, br_showConfigLinks = True, br_showApps = True,
     br_showThemeToggle = True, br_showLangToggle = True,
     br_supportText = [], br_supportUrl = [], br_telegramUrl = [], br_websiteUrl = [], br_footerText = [], br_customCss = []\<rparr>"

definition THEMES :: "string list" where
  "THEMES = [''auto'', ''light'', ''dark'']"

definition br_str :: "jv \<Rightarrow> string \<Rightarrow> string" where
  "br_str raw fallback = (case raw of JStr s \<Rightarrow> s | _ \<Rightarrow> fallback)"

definition br_bool :: "jv \<Rightarrow> bool \<Rightarrow> bool" where
  "br_bool raw fallback = (case raw of JBool b \<Rightarrow> b | _ \<Rightarrow> fallback)"

text \<open>\<open>Number(raw)\<close> and \<open>Math.round\<close>.\<close>

definition number_of_any :: "jv \<Rightarrow> jsnum" where
  "number_of_any raw =
     (case raw of JUndef \<Rightarrow> NaN | JNull \<Rightarrow> num 0 | JBool b \<Rightarrow> num (if b then 1 else 0) | JNum n \<Rightarrow> n
      | JStr s \<Rightarrow> js_number s | JArr xs \<Rightarrow> js_number (js_String raw) | JObj _ \<Rightarrow> NaN)"

definition math_round :: "rat \<Rightarrow> int" where
  "math_round q = \<lfloor>q + 1 / 2\<rfloor>"

definition br_num :: "jv \<Rightarrow> int \<Rightarrow> int \<Rightarrow> int \<Rightarrow> int" where
  "br_num raw fallback lo hi =
     (case number_of_any raw of Fin q \<Rightarrow> min hi (max lo (math_round q)) | _ \<Rightarrow> fallback)"

definition branding_of :: "jobj \<Rightarrow> sub_branding" where
  "branding_of ob =
     (let d = DEFAULT_SUB_BRANDING; st = (\<lambda>k. br_str (oget ob k)); bl = (\<lambda>k. br_bool (oget ob k))
      in \<lparr>br_brandName = st ''brandName'' (br_brandName d), br_logoUrl = st ''logoUrl'' (br_logoUrl d),
          br_tagline = st ''tagline'' (br_tagline d), br_announcement = st ''announcement'' (br_announcement d),
          br_theme = (case oget ob ''theme'' of JStr s \<Rightarrow> if s \<in> set THEMES then s else br_theme d | _ \<Rightarrow> br_theme d),
          br_primaryColor = st ''primaryColor'' (br_primaryColor d), br_pageBg = st ''pageBg'' (br_pageBg d),
          br_cardBg = st ''cardBg'' (br_cardBg d), br_textColor = st ''textColor'' (br_textColor d),
          br_bgImageUrl = st ''bgImageUrl'' (br_bgImageUrl d),
          br_cardRadius = br_num (oget ob ''cardRadius'') (br_cardRadius d) 0 48,
          br_cardOpacity = br_num (oget ob ''cardOpacity'') (br_cardOpacity d) 20 100,
          br_showDetails = bl ''showDetails'' (br_showDetails d), br_showUsage = bl ''showUsage'' (br_showUsage d),
          br_showSubLinks = bl ''showSubLinks'' (br_showSubLinks d),
          br_showConfigLinks = bl ''showConfigLinks'' (br_showConfigLinks d), br_showApps = bl ''showApps'' (br_showApps d),
          br_showThemeToggle = bl ''showThemeToggle'' (br_showThemeToggle d),
          br_showLangToggle = bl ''showLangToggle'' (br_showLangToggle d),
          br_supportText = st ''supportText'' (br_supportText d), br_supportUrl = st ''supportUrl'' (br_supportUrl d),
          br_telegramUrl = st ''telegramUrl'' (br_telegramUrl d), br_websiteUrl = st ''websiteUrl'' (br_websiteUrl d),
          br_footerText = st ''footerText'' (br_footerText d), br_customCss = st ''customCss'' (br_customCss d)\<rparr>)"

definition normalizeSubBranding :: "jv \<Rightarrow> sub_branding" where
  "normalizeSubBranding raw =
     (case (case raw of JStr s \<Rightarrow> if trim s = [] then None else JSON_parse (trim s) | _ \<Rightarrow> Some raw) of
        Some (JObj ob) \<Rightarrow> branding_of ob
      | _ \<Rightarrow> DEFAULT_SUB_BRANDING)"

section \<open>The editor\<close>

text \<open>The properties of a branding, in the order of \<^const>\<open>normalizeSubBranding\<close>'s literal.\<close>

definition branding_object :: "sub_branding \<Rightarrow> jobj" where
  "branding_object b =
    [(''brandName'', JStr (br_brandName b)), (''logoUrl'', JStr (br_logoUrl b)), (''tagline'', JStr (br_tagline b)),
     (''announcement'', JStr (br_announcement b)), (''theme'', JStr (br_theme b)), (''primaryColor'', JStr (br_primaryColor b)),
     (''pageBg'', JStr (br_pageBg b)), (''cardBg'', JStr (br_cardBg b)), (''textColor'', JStr (br_textColor b)),
     (''bgImageUrl'', JStr (br_bgImageUrl b)), (''cardRadius'', JNum (num (br_cardRadius b))),
     (''cardOpacity'', JNum (num (br_cardOpacity b))), (''showDetails'', JBool (br_showDetails b)),
     (''showUsage'', JBool (br_showUsage b)), (''showSubLinks'', JBool (br_showSubLinks b)),
     (''showConfigLinks'', JBool (br_showConfigLinks b)), (''showApps'', JBool (br_showApps b)),
     (''showThemeToggle'', JBool (br_showThemeToggle b)), (''showLangToggle'', JBool (br_showLangToggle b)),
     (''supportText'', JStr (br_supportText b)), (''supportUrl'', JStr (br_supportUrl b)), (''telegramUrl'', JStr (br_telegramUrl b)),
     (''websiteUrl'', JStr (br_websiteUrl b)), (''footerText'', JStr (br_footerText b)), (''customCss'', JStr (br_customCss b))]"

text \<open>\<open>patch\<close> stores \<open>JSON.stringify({ ...branding, ...next })\<close>, \<open>resetAll\<close> the defaults.\<close>

definition patch_branding :: "sub_branding \<Rightarrow> jobj \<Rightarrow> string option" where
  "patch_branding current next_fields = JSON_stringify (JObj (spread (branding_object current) next_fields))"

definition reset_branding :: "string option" where
  "reset_branding = JSON_stringify (JObj (branding_object DEFAULT_SUB_BRANDING))"

section \<open>What the page renders\<close>

text \<open>\<open>/^(https?:\/\/|data:image\/|\/|\.\/)/i\<close> and \<open>/^(https?:\/\/|tg:\/\/|mailto:|\/)/i\<close>.\<close>

definition starts_any :: "string list \<Rightarrow> string \<Rightarrow> bool" where
  "starts_any ps s = list_ex (starts_with (to_lower s)) ps"

definition SAFE_URL :: "string list" where
  "SAFE_URL = [''http://'', ''https://'', ''data:image/'', ''/'', ''./'']"

definition LINK_URL :: "string list" where
  "LINK_URL = [''http://'', ''https://'', ''tg://'', ''mailto:'', ''/'']"

text \<open>\<open>/["'()\\]/\<close>: double quote, apostrophe, parentheses, backslash.\<close>

definition breaks_css_url :: "char \<Rightarrow> bool" where
  "breaks_css_url c \<longleftrightarrow> code c = 34 \<or> code c = 39 \<or> code c = 40 \<or> code c = 41 \<or> code c = 92"

definition safeAssetUrl :: "string \<Rightarrow> string" where
  "safeAssetUrl url =
     (let trimmed = trim url
      in if trimmed = [] \<or> \<not> starts_any SAFE_URL trimmed then []
         else if list_ex breaks_css_url trimmed then [] else trimmed)"

definition safeLinkUrl :: "string \<Rightarrow> string" where
  "safeLinkUrl url =
     (let trimmed = trim url
      in if trimmed = [] then [] else if \<not> starts_any LINK_URL trimmed then [] else trimmed)"

text \<open>\<open>String(opacity / 100)\<close> for an opacity the normaliser lets through.\<close>

definition brandingCssVars :: "sub_branding \<Rightarrow> (string \<times> string) list" where
  "brandingCssVars b =
     (if br_pageBg b \<noteq> [] then [(''--bg-page'', br_pageBg b)] else [])
     @ (if br_cardBg b \<noteq> [] then [(''--bg-card'', br_cardBg b)] else [])
     @ (if br_textColor b \<noteq> [] then [(''--brand-text'', br_textColor b)] else [])
     @ (if br_primaryColor b \<noteq> [] then [(''--brand-primary'', br_primaryColor b)] else [])
     @ [(''--brand-card-radius'', int_str (br_cardRadius b) @ ''px''),
        (''--brand-card-opacity'', num_str (Fin (of_int (br_cardOpacity b) / 100)))]
     @ (let bg = safeAssetUrl (br_bgImageUrl b) in if bg \<noteq> [] then [(''--brand-bg-image'', ''url('' @ bg @ '')'')] else [])"

definition hasBrandingHeader :: "sub_branding \<Rightarrow> bool" where
  "hasBrandingHeader b \<longleftrightarrow> br_brandName b \<noteq> [] \<or> safeAssetUrl (br_logoUrl b) \<noteq> [] \<or> br_tagline b \<noteq> []"

definition hasBrandLinks :: "sub_branding \<Rightarrow> bool" where
  "hasBrandLinks b \<longleftrightarrow> safeLinkUrl (br_supportUrl b) \<noteq> [] \<or> safeLinkUrl (br_telegramUrl b) \<noteq> [] \<or> safeLinkUrl (br_websiteUrl b) \<noteq> []"

definition pageClass :: "sub_branding \<Rightarrow> bool \<Rightarrow> bool \<Rightarrow> string" where
  "pageClass b isDark isUltra = join '' ''
     ([''subscription-page''] @ (if isDark then [''is-dark''] else []) @ (if isUltra then [''is-ultra''] else [])
      @ (if br_bgImageUrl b \<noteq> [] then [''has-brand-bg''] else []) @ (if br_cardOpacity b < 100 then [''has-brand-glass''] else []))"

text \<open>\<open>customCss.replace(/<\/style/gi, '')\<close>: one pass, left to right.\<close>

definition STYLE_CLOSE :: string where
  "STYLE_CLOSE = ''</style''"

function (sequential) strip_style :: "string \<Rightarrow> string" where
  "strip_style [] = []"
| "strip_style (c # s) =
     (if starts_with (to_lower (c # s)) STYLE_CLOSE then strip_style (drop (length STYLE_CLOSE) (c # s)) else c # strip_style s)"
  by pat_completeness auto
termination by (relation "measure length") (auto simp: STYLE_CLOSE_def)

text \<open>\<open>isUnlimited\<close> and \<open>isActive\<close> of the page: the byte counts as the numbers the page reads, the clock a parameter.\<close>

definition sub_unlimited :: "int \<Rightarrow> int \<Rightarrow> bool" where
  "sub_unlimited totalByte expireMs \<longleftrightarrow> totalByte \<le> 0 \<and> expireMs = 0"

definition sub_active :: "bool \<Rightarrow> int \<Rightarrow> int \<Rightarrow> int \<Rightarrow> int \<Rightarrow> int \<Rightarrow> int \<Rightarrow> bool" where
  "sub_active enabled totalByte usedByte downloadByte uploadByte expireMs now =
     (if \<not> enabled then False
      else if totalByte > 0 \<and> (if usedByte \<noteq> 0 then usedByte else downloadByte + uploadByte) \<ge> totalByte then False
      else if expireMs > 0 \<and> now \<ge> expireMs then False
      else True)"

end
