(* ===== verification/Branding_Laws.thy ===== *)
theory Branding_Laws
  imports Sub_Branding
begin

text \<open>
  What the branding promises: whatever is stored, the page gets a complete document in range; an edit
  of the form is what the page reads back; and no URL of the document can leave the attribute
  or the CSS function it is placed in.
\<close>

section \<open>Normal form\<close>

lemma br_num_range: "lo \<le> fallback \<Longrightarrow> fallback \<le> hi \<Longrightarrow> lo \<le> br_num raw fallback lo hi \<and> br_num raw fallback lo hi \<le> hi"
  by (auto simp: br_num_def split: jsnum.split)

lemma branding_of_range:
  "br_theme (branding_of ob) \<in> set THEMES \<and> 0 \<le> br_cardRadius (branding_of ob) \<and> br_cardRadius (branding_of ob) \<le> 48
    \<and> 20 \<le> br_cardOpacity (branding_of ob) \<and> br_cardOpacity (branding_of ob) \<le> 100"
proof -
  have "br_theme (branding_of ob) \<in> set THEMES"
    by (simp add: branding_of_def Let_def DEFAULT_SUB_BRANDING_def THEMES_def split: jv.split)
  moreover have "0 \<le> br_cardRadius (branding_of ob) \<and> br_cardRadius (branding_of ob) \<le> 48"
    unfolding branding_of_def Let_def sub_branding.simps DEFAULT_SUB_BRANDING_def by (rule br_num_range) simp_all
  moreover have "20 \<le> br_cardOpacity (branding_of ob) \<and> br_cardOpacity (branding_of ob) \<le> 100"
    unfolding branding_of_def Let_def sub_branding.simps DEFAULT_SUB_BRANDING_def by (rule br_num_range) simp_all
  ultimately show ?thesis by simp
qed

lemma default_range:
  "br_theme DEFAULT_SUB_BRANDING \<in> set THEMES \<and> br_cardRadius DEFAULT_SUB_BRANDING = 12 \<and> br_cardOpacity DEFAULT_SUB_BRANDING = 100"
  by (simp add: DEFAULT_SUB_BRANDING_def THEMES_def)

section \<open>Types of the fields\<close>

definition BRANDING_FLAGS :: "string list" where
  "BRANDING_FLAGS = [''showDetails'', ''showUsage'', ''showSubLinks'', ''showConfigLinks'', ''showApps'', ''showThemeToggle'', ''showLangToggle'']"

definition BRANDING_TEXTS :: "string list" where
  "BRANDING_TEXTS = [''brandName'', ''logoUrl'', ''tagline'', ''announcement'', ''primaryColor'', ''pageBg'', ''cardBg'', ''textColor'',
     ''bgImageUrl'', ''supportText'', ''supportUrl'', ''telegramUrl'', ''websiteUrl'', ''footerText'', ''customCss'']"

definition in_range :: "int \<Rightarrow> int \<Rightarrow> jv \<Rightarrow> bool" where
  "in_range lo hi v = (case v of JNum (Fin q) \<Rightarrow> of_int \<lfloor>q\<rfloor> = q \<and> lo \<le> \<lfloor>q\<rfloor> \<and> \<lfloor>q\<rfloor> \<le> hi | _ \<Rightarrow> False)"

text \<open>A field of the document and a value of its type.\<close>

definition field_ok :: "string \<times> jv \<Rightarrow> bool" where
  "field_ok p =
     (case p of (k, v) \<Rightarrow>
        if k \<in> set BRANDING_TEXTS then (case v of JStr _ \<Rightarrow> True | _ \<Rightarrow> False)
        else if k \<in> set BRANDING_FLAGS then (case v of JBool _ \<Rightarrow> True | _ \<Rightarrow> False)
        else if k = ''theme'' then (case v of JStr s \<Rightarrow> s \<in> set THEMES | _ \<Rightarrow> False)
        else if k = ''cardRadius'' then in_range 0 48 v
        else k = ''cardOpacity'' \<and> in_range 20 100 v)"

definition BRANDING_KEYS :: "string list" where
  "BRANDING_KEYS = okeys (branding_object DEFAULT_SUB_BRANDING)"

lemma branding_keys: "okeys (branding_object b) = BRANDING_KEYS"
  by (simp add: BRANDING_KEYS_def branding_object_def)

lemma branding_keys_distinct: "distinct BRANDING_KEYS"
  by code_simp

lemma text_value: "k \<in> set BRANDING_TEXTS \<Longrightarrow> field_ok (k, v) \<Longrightarrow> JStr (br_str v d) = v"
  by (auto simp: field_ok_def br_str_def split: jv.splits)

lemma flag_value: "k \<in> set BRANDING_FLAGS \<Longrightarrow> k \<notin> set BRANDING_TEXTS \<Longrightarrow> field_ok (k, v) \<Longrightarrow> JBool (br_bool v d) = v"
  by (auto simp: field_ok_def br_bool_def split: jv.splits)

lemma range_value: "in_range lo hi v \<Longrightarrow> JNum (num (br_num v d lo hi)) = v"
proof -
  assume "in_range lo hi v"
  then obtain q where v: "v = JNum (Fin q)" "of_int \<lfloor>q\<rfloor> = q" "lo \<le> \<lfloor>q\<rfloor>" "\<lfloor>q\<rfloor> \<le> hi"
    by (auto simp: in_range_def split: jv.splits jsnum.splits)
  have "math_round q = \<lfloor>q\<rfloor>"
  proof -
    have "\<lfloor>of_int \<lfloor>q\<rfloor> + 1 / 2 :: rat\<rfloor> = \<lfloor>q\<rfloor>" by linarith
    thus ?thesis using v(2) by (simp add: math_round_def)
  qed
  thus ?thesis using v by (simp add: br_num_def number_of_any_def)
qed

lemma keys_literal:
  "''brandName'' \<in> set BRANDING_TEXTS" "''logoUrl'' \<in> set BRANDING_TEXTS" "''tagline'' \<in> set BRANDING_TEXTS"
  "''announcement'' \<in> set BRANDING_TEXTS" "''primaryColor'' \<in> set BRANDING_TEXTS" "''pageBg'' \<in> set BRANDING_TEXTS"
  "''cardBg'' \<in> set BRANDING_TEXTS" "''textColor'' \<in> set BRANDING_TEXTS" "''bgImageUrl'' \<in> set BRANDING_TEXTS"
  "''supportText'' \<in> set BRANDING_TEXTS" "''supportUrl'' \<in> set BRANDING_TEXTS" "''telegramUrl'' \<in> set BRANDING_TEXTS"
  "''websiteUrl'' \<in> set BRANDING_TEXTS" "''footerText'' \<in> set BRANDING_TEXTS" "''customCss'' \<in> set BRANDING_TEXTS"
  by (simp_all add: BRANDING_TEXTS_def)

lemma flags_literal:
  "k \<in> set BRANDING_FLAGS \<Longrightarrow> k \<notin> set BRANDING_TEXTS"
  "''showDetails'' \<in> set BRANDING_FLAGS" "''showUsage'' \<in> set BRANDING_FLAGS" "''showSubLinks'' \<in> set BRANDING_FLAGS"
  "''showConfigLinks'' \<in> set BRANDING_FLAGS" "''showApps'' \<in> set BRANDING_FLAGS" "''showThemeToggle'' \<in> set BRANDING_FLAGS"
  "''showLangToggle'' \<in> set BRANDING_FLAGS"
proof -
  have "list_all (\<lambda>k. k \<notin> set BRANDING_TEXTS) BRANDING_FLAGS" by code_simp
  thus "k \<in> set BRANDING_FLAGS \<Longrightarrow> k \<notin> set BRANDING_TEXTS" by (simp add: list_all_iff)
qed (simp_all add: BRANDING_FLAGS_def)

lemma other_fields:
  "field_ok (''theme'', v) = (case v of JStr s \<Rightarrow> s \<in> set THEMES | _ \<Rightarrow> False)"
  "field_ok (''cardRadius'', v) = in_range 0 48 v" "field_ok (''cardOpacity'', v) = in_range 20 100 v"
  by (simp_all add: field_ok_def BRANDING_TEXTS_def BRANDING_FLAGS_def)

lemma object_by_keys: "wf_obj ps \<Longrightarrow> ps = map (\<lambda>k. (k, oget ps k)) (okeys ps)"
  by (rule sym, simp add: comp_def, rule map_idI) (auto simp: wf_obj_def oget_def)

lemma typed_object:
  assumes "okeys ob = BRANDING_KEYS" "list_all field_ok ob"
  shows "branding_object (branding_of ob) = ob"
proof -
  have w: "wf_obj ob" using assms(1) branding_keys_distinct by (simp add: wf_obj_def)
  have f: "field_ok (k, oget ob k)" if "k \<in> set BRANDING_KEYS" for k
  proof -
    have "(k, oget ob k) \<in> set ob" using object_by_keys [OF w] that assms(1) by (metis (no_types, lifting) image_eqI list.set_map)
    thus ?thesis using assms(2) by (simp add: list_all_iff)
  qed
  have k: "BRANDING_KEYS = okeys (branding_object DEFAULT_SUB_BRANDING)" by (simp add: BRANDING_KEYS_def)
  have t: "JStr (br_str (oget ob k) d) = oget ob k" if "k \<in> set BRANDING_TEXTS" "k \<in> set BRANDING_KEYS" for k d
    using text_value [OF that(1) f [OF that(2)]] .
  have l: "JBool (br_bool (oget ob k) d) = oget ob k" if "k \<in> set BRANDING_FLAGS" "k \<in> set BRANDING_KEYS" for k d
    using flag_value [OF that(1) flags_literal(1) [OF that(1)] f [OF that(2)]] .
  have m: "k \<in> set BRANDING_TEXTS \<or> k \<in> set BRANDING_FLAGS \<Longrightarrow> k \<in> set BRANDING_KEYS" for k
  proof -
    have "list_all (\<lambda>k. k \<in> set BRANDING_KEYS) (BRANDING_TEXTS @ BRANDING_FLAGS)" by code_simp
    thus "k \<in> set BRANDING_TEXTS \<or> k \<in> set BRANDING_FLAGS \<Longrightarrow> k \<in> set BRANDING_KEYS" by (auto simp: list_all_iff)
  qed
  have th: "JStr (case oget ob ''theme'' of JStr s \<Rightarrow> if s \<in> set THEMES then s else d | _ \<Rightarrow> d) = oget ob ''theme''" for d
    using f [of "''theme''"] unfolding other_fields by (auto simp: k branding_object_def split: jv.splits)
  have r: "JNum (num (br_num (oget ob ''cardRadius'') d 0 48)) = oget ob ''cardRadius''" for d
    using f [of "''cardRadius''"] unfolding other_fields by (intro range_value) (simp add: k branding_object_def)
  have p: "JNum (num (br_num (oget ob ''cardOpacity'') d 20 100)) = oget ob ''cardOpacity''" for d
    using f [of "''cardOpacity''"] unfolding other_fields by (intro range_value) (simp add: k branding_object_def)
  have "ob = map (\<lambda>k. (k, oget ob k)) BRANDING_KEYS" using object_by_keys [OF w] assms(1) by simp
  also have "\<dots> = branding_object (branding_of ob)"
    unfolding branding_object_def branding_of_def Let_def sub_branding.simps
    by (simp only: t [OF _ m] l [OF _ m] keys_literal flags_literal th r p simp_thms) (simp add: k branding_object_def)
  finally show ?thesis by simp
qed

section \<open>Editing\<close>

lemma oset_in: "set (oset k v ps) \<subseteq> insert (k, v) (set ps)"
  by (induction ps) auto

lemma oset_keys: "k \<in> set (okeys ps) \<Longrightarrow> okeys (oset k v ps) = okeys ps"
  by (induction ps) auto

lemma field_key: "field_ok (k, v) \<Longrightarrow> k \<in> set BRANDING_KEYS"
proof -
  have "list_all (\<lambda>k. k \<in> set BRANDING_KEYS) (BRANDING_TEXTS @ BRANDING_FLAGS @ [''theme'', ''cardRadius'', ''cardOpacity''])" by code_simp
  thus "field_ok (k, v) \<Longrightarrow> k \<in> set BRANDING_KEYS" by (auto simp: list_all_iff field_ok_def split: if_splits)
qed

lemma patched_object:
  "okeys ob = BRANDING_KEYS \<Longrightarrow> list_all field_ok ob \<Longrightarrow> list_all field_ok edits \<Longrightarrow>
    okeys (spread ob edits) = BRANDING_KEYS \<and> list_all field_ok (spread ob edits)"
  unfolding spread_def
proof (induction edits arbitrary: ob)
  case (Cons p edits)
  obtain k v where p: "p = (k, v)" by (cases p)
  have "okeys (oset k v ob) = BRANDING_KEYS" using Cons.prems field_key [of k v] by (simp add: p oset_keys)
  moreover have "list_all field_ok (oset k v ob)" using Cons.prems oset_in [of k v ob] by (auto simp: p list_all_iff)
  ultimately show ?case using Cons.IH Cons.prems(3) by (simp add: p)
qed simp

lemma typed_json:
  assumes "okeys ob = BRANDING_KEYS" "list_all field_ok ob"
  shows "wf_json (JObj ob)"
proof -
  have a: "list_all (\<lambda>k. \<not> is_array_index k) BRANDING_KEYS" by code_simp
  have r: "in_range lo hi v \<Longrightarrow> - 100 \<le> lo \<Longrightarrow> hi \<le> 100 \<Longrightarrow> wf_json v" for lo hi v
    by (auto simp: in_range_def split: jv.splits jsnum.splits)
  have "field_ok (k, v) \<Longrightarrow> wf_json v" for k v using r [of 0 48 v] r [of 20 100 v]
    by (auto simp: field_ok_def split: if_splits jv.splits)
  hence "\<forall>p \<in> set ob. wf_json (snd p)" using assms(2) by (auto simp: list_all_iff)
  moreover have "\<forall>p \<in> set ob. \<not> is_array_index (fst p)"
    using a assms(1) by (metis (no_types, lifting) image_eqI list.set_map list_all_iff)
  ultimately show ?thesis using branding_keys_distinct assms(1) by (auto simp: wf_obj_def)
qed

lemma trim_ends: "\<not> is_space c \<Longrightarrow> \<not> is_space d \<Longrightarrow> trim (c # s @ [d]) = c # s @ [d]"
  by (simp add: trim_def trim_start_def)

lemma object_text_trim: "wf_json (JObj ps) \<Longrightarrow> trim (written (JObj ps)) = written (JObj ps) \<and> written (JObj ps) \<noteq> []"
proof -
  assume "wf_json (JObj ps)"
  then obtain s where "written (JObj ps) = CHR ''{'' # s @ ''}''" by (auto simp: written_object)
  thus ?thesis using trim_ends [of "CHR ''{''" "CHR ''}''" s] by (simp add: is_space_def)
qed

lemma read_back:
  assumes "okeys ob = BRANDING_KEYS" "list_all field_ok ob"
  shows "\<exists>s. JSON_stringify (JObj ob) = Some s \<and> branding_object (normalizeSubBranding (JStr s)) = ob"
proof -
  note w = typed_json [OF assms]
  have "branding_object (normalizeSubBranding (JStr (written (JObj ob)))) = ob"
    using typed_object [OF assms] object_text_trim [OF w] json_parse_written [OF w] by (simp add: normalizeSubBranding_def)
  thus ?thesis using written_start [OF w] by blast
qed

lemma range_number: "lo \<le> i \<Longrightarrow> i \<le> hi \<Longrightarrow> in_range lo hi (JNum (num i))"
  by (simp add: in_range_def)

definition branding_ok :: "sub_branding \<Rightarrow> bool" where
  "branding_ok b \<longleftrightarrow> br_theme b \<in> set THEMES \<and> 0 \<le> br_cardRadius b \<and> br_cardRadius b \<le> 48 \<and> 20 \<le> br_cardOpacity b \<and> br_cardOpacity b \<le> 100"

lemma branding_typed: "branding_ok b \<Longrightarrow> list_all field_ok (branding_object b)"
proof -
  assume b: "branding_ok b"
  have t: "field_ok (k, JStr s)" if "k \<in> set BRANDING_TEXTS" for k s using that by (simp add: field_ok_def)
  have l: "field_ok (k, JBool x)" if "k \<in> set BRANDING_FLAGS" for k x using that flags_literal(1) [OF that] by (simp add: field_ok_def)
  show ?thesis using b unfolding branding_object_def branding_ok_def
    by (simp only: list.pred_inject t l keys_literal flags_literal simp_thms other_fields) (simp add: in_range_def)
qed

lemma normalized_ok: "branding_ok (normalizeSubBranding raw)"
  using branding_of_range default_range
  by (auto simp: normalizeSubBranding_def branding_ok_def split: option.split jv.split)


text \<open>Editing and rendering agree: the text the editor stores after changing any fields (of their types) is
  read back with exactly those fields changed and every other kept; with no change the branding
  comes back, and the reset text is read as the defaults.\<close>
theorem branding_edit_roundtrip:
  assumes "list_all field_ok edits" and "b = normalizeSubBranding raw"
  shows "(\<exists>s. patch_branding b edits = Some s
      \<and> branding_object (normalizeSubBranding (JStr s)) = spread (branding_object b) edits)
    \<and> (\<exists>s. reset_branding = Some s \<and> branding_object (normalizeSubBranding (JStr s)) = branding_object DEFAULT_SUB_BRANDING)"
proof
  have "list_all field_ok (branding_object b)" using normalized_ok assms(2) by (simp add: branding_typed)
  thus "\<exists>s. patch_branding b edits = Some s
      \<and> branding_object (normalizeSubBranding (JStr s)) = spread (branding_object b) edits"
    unfolding patch_branding_def using patched_object [OF branding_keys _ assms(1)] by (intro read_back) simp_all
  have "branding_ok DEFAULT_SUB_BRANDING" using default_range by (simp add: branding_ok_def)
  thus "\<exists>s. reset_branding = Some s \<and> branding_object (normalizeSubBranding (JStr s)) = branding_object DEFAULT_SUB_BRANDING"
    unfolding reset_branding_def using branding_keys branding_typed by (intro read_back)
qed

theorem branding_edit_roundtrip_witness:
  "\<exists>s. patch_branding (normalizeSubBranding JNull) [(''cardRadius'', JNum (num 20)), (''brandName'', JStr ''Acme'')] = Some s
      \<and> branding_object (normalizeSubBranding (JStr s))
        = spread (branding_object (normalizeSubBranding JNull)) [(''cardRadius'', JNum (num 20)), (''brandName'', JStr ''Acme'')]"
  by (rule branding_edit_roundtrip [OF _ refl, THEN conjunct1]) (simp add: field_ok_def in_range_def BRANDING_TEXTS_def BRANDING_FLAGS_def)

text \<open>The numbers do not fall back to the default when they are absent by \<open>null\<close>: \<open>Number(null)\<close> is 0.\<close>

lemma null_radius_is_zero:
  "br_cardRadius (normalizeSubBranding (JObj [(''cardRadius'', JNull)])) = 0" "br_cardRadius DEFAULT_SUB_BRANDING = 12"
  "br_cardOpacity (normalizeSubBranding (JObj [(''cardOpacity'', JBool True)])) = 20"
  by (simp_all add: normalizeSubBranding_def branding_of_def br_num_def number_of_any_def oget_def math_round_def DEFAULT_SUB_BRANDING_def)

section \<open>URLs\<close>

lemma lower_prefix: "starts_with (to_lower s) p \<Longrightarrow> \<exists>a r. s = a @ r \<and> to_lower a = p"
proof -
  assume "starts_with (to_lower s) p"
  then obtain r where "to_lower s = p @ r" by (auto simp: starts_with_iff)
  hence "to_lower (take (length p) s) = p" unfolding to_lower_def by (metis append_eq_conv_conj take_map)
  thus ?thesis by (metis append_take_drop_id)
qed

lemma starts_with_common: "starts_with s p \<Longrightarrow> starts_with s q \<Longrightarrow> starts_with p q \<or> starts_with q p"
proof (induction s p arbitrary: q rule: starts_with.induct)
  case (3 c s p ps)
  thus ?case by (cases q) auto
qed auto

text \<open>No URL of a branding leaves its place or runs script: a rendered link or image URL is empty or starts
  with one of the allowed schemes, never \<open>javascript:\<close>, \<open>vbscript:\<close> or \<open>data:text\<close>; an
  image URL has no quote, parenthesis or backslash, so the \<open>url(...)\<close> of the style ends
  exactly where the page closes it.\<close>
theorem branding_urls_are_contained:
  "(safeLinkUrl url = [] \<or> starts_any LINK_URL (safeLinkUrl url)) \<and> (safeAssetUrl url = [] \<or> starts_any SAFE_URL (safeAssetUrl url))
    \<and> \<not> starts_any [''javascript:'', ''vbscript:'', ''data:text''] (safeLinkUrl url)
    \<and> \<not> starts_any [''javascript:'', ''vbscript:'', ''data:text''] (safeAssetUrl url)
    \<and> \<not> list_ex breaks_css_url (safeAssetUrl url)
    \<and> map_of (brandingCssVars b) ''--brand-bg-image''
        = (if safeAssetUrl (br_bgImageUrl b) = [] then None else Some (''url('' @ safeAssetUrl (br_bgImageUrl b) @ '')''))
    \<and> takeWhile (\<lambda>c. c \<noteq> CHR '')'') (safeAssetUrl url @ '')'') = safeAssetUrl url"
proof -
  have l: "safeLinkUrl url = [] \<or> starts_any LINK_URL (safeLinkUrl url)" by (simp add: safeLinkUrl_def Let_def)
  have a: "safeAssetUrl url = [] \<or> starts_any SAFE_URL (safeAssetUrl url)" by (simp add: safeAssetUrl_def Let_def)
  have c: "\<not> list_ex breaks_css_url (safeAssetUrl url)" by (simp add: safeAssetUrl_def Let_def)
  have d: "list_all (\<lambda>p. list_all (\<lambda>q. \<not> starts_with p q \<and> \<not> starts_with q p) [''javascript:'', ''vbscript:'', ''data:text'']) (LINK_URL @ SAFE_URL)"
    by code_simp
  have no: "\<not> starts_any [''javascript:'', ''vbscript:'', ''data:text''] s" if h: "s = [] \<or> starts_any ps s" and sub: "set ps \<subseteq> set (LINK_URL @ SAFE_URL)" for s ps
  proof
    assume "starts_any [''javascript:'', ''vbscript:'', ''data:text''] s"
    then obtain q where q: "q \<in> set [''javascript:'', ''vbscript:'', ''data:text'']" "starts_with (to_lower s) q"
      unfolding starts_any_def list_ex_iff by blast
    hence "q \<noteq> []" by auto
    hence "s \<noteq> []" using q(2) by (cases q; cases s) (simp_all add: to_lower_def)
    then obtain p where p: "p \<in> set ps" "starts_with (to_lower s) p" using h unfolding starts_any_def list_ex_iff by blast
    hence "\<not> starts_with p q \<and> \<not> starts_with q p" using d q(1) sub unfolding list_all_iff by blast
    thus False using starts_with_common [OF p(2) q(2)] by blast
  qed
  have "takeWhile (\<lambda>c. c \<noteq> CHR '')'') (u @ '')'') = u" if "\<not> list_ex breaks_css_url u" for u
    using that by (induction u) (auto simp: breaks_css_url_def)
  moreover have "map_of (brandingCssVars b) ''--brand-bg-image''
        = (if safeAssetUrl (br_bgImageUrl b) = [] then None else Some (''url('' @ safeAssetUrl (br_bgImageUrl b) @ '')''))"
    unfolding brandingCssVars_def Let_def by (simp add: map_add_def split: option.split)
  ultimately show ?thesis using l a c no [OF l] no [OF a] by simp
qed

text \<open>The custom style is stripped in one pass only: what the pass joins is not looked at again.\<close>

lemma style_close_survives: "str_includes (strip_style ''a<</style/style>b'') STYLE_CLOSE"
  by code_simp

end
