(* ===== verification/Live_Inbounds.thy ===== *)
theory Live_Inbounds
  imports Inbound_Rules Json_Text
begin

text \<open>
  The live state of the inbounds page: the row class \<open>frontend/src/models/dbinbound.ts\<close> and the hook
  \<open>frontend/src/pages/inbounds/useInbounds.ts\<close>, which merges WebSocket events into the rows, the
  per-client rollups and the speeds. The hook's \<open>useState\<close> cells and refs are the fields of one
  state; a handler is one function of it (React applies the queued updates before the next
  event). Counters are integers, as the server sends them; a speed is a byte count over the
  interval of five seconds, kept exactly as a fraction. The clock is a parameter.
\<close>

section \<open>Rows\<close>

record client_stats =
  cs_email :: string
  cs_up :: int
  cs_down :: int
  cs_total :: int
  cs_expiryTime :: int
  cs_enable :: "bool option"

record db_inbound =
  db_id :: int
  db_userId :: int
  db_up :: int
  db_down :: int
  db_total :: int
  db_remark :: string
  db_enable :: bool
  db_expiryTime :: int
  db_trafficReset :: string
  db_lastTrafficResetTime :: int
  db_listen :: string
  db_port :: int
  db_protocol :: string
  db_settings :: jv
  db_streamSettings :: jv
  db_tag :: string
  db_sniffing :: jv
  db_clientStats :: "client_stats list"
  db_nodeId :: "int option"
  db_shareAddrStrategy :: string
  db_shareAddr :: string
  db_subSortIndex :: int
  db_trafficMultiplier :: int
  db_originNodeGuid :: string
  db_cache :: "(string \<times> nat) list option"

text \<open>
  A row before \<open>cloneProps\<close>. \<open>_clientStatsMap\<close> holds references to the elements of \<open>clientStats\<close>:
  here their positions.
\<close>

definition blank_inbound :: db_inbound where
  "blank_inbound = \<lparr>db_id = 0, db_userId = 0, db_up = 0, db_down = 0, db_total = 0, db_remark = [], db_enable = True,
     db_expiryTime = 0, db_trafficReset = ''never'', db_lastTrafficResetTime = 0, db_listen = [], db_port = 0, db_protocol = [],
     db_settings = JStr [], db_streamSettings = JStr [], db_tag = [], db_sniffing = JStr [], db_clientStats = [], db_nodeId = None,
     db_shareAddrStrategy = ''node'', db_shareAddr = [], db_subSortIndex = 1, db_trafficMultiplier = 1, db_originNodeGuid = [],
     db_cache = None\<rparr>"

definition coerceInboundJsonField :: "jv \<Rightarrow> jobj" where
  "coerceInboundJsonField value =
     (case value of
        JObj ps \<Rightarrow> ps
      | JStr s \<Rightarrow> if trim s = [] then [] else (case JSON_parse (trim s) of Some (JObj ps) \<Rightarrow> ps | _ \<Rightarrow> [])
      | _ \<Rightarrow> [])"

definition build_stats_map :: "client_stats list \<Rightarrow> (string \<times> nat) list" where
  "build_stats_map sts =
     fold (\<lambda>(i, st) m. if cs_email st \<noteq> [] then AList.update (cs_email st) i m else m) (enumerate 0 sts) []"

definition getClientStats :: "string \<Rightarrow> db_inbound \<Rightarrow> client_stats option \<times> db_inbound" where
  "getClientStats email row =
     (let m = (case db_cache row of Some m \<Rightarrow> m | None \<Rightarrow> build_stats_map (db_clientStats row))
      in (map_option (\<lambda>i. db_clientStats row ! i) (map_of m email), row\<lparr>db_cache := Some m\<rparr>))"

definition invalidateCache :: "db_inbound \<Rightarrow> db_inbound" where
  "invalidateCache row = row\<lparr>db_cache := None\<rparr>"

text \<open>\<open>get address\<close>: the host the page was loaded from, unless the row listens somewhere.\<close>

definition row_address :: "string \<Rightarrow> db_inbound \<Rightarrow> string" where
  "row_address hostname row = (if db_listen row \<noteq> [] \<and> db_listen row \<noteq> ''0.0.0.0'' then db_listen row else hostname)"

definition isExpiry :: "int \<Rightarrow> db_inbound \<Rightarrow> bool" where
  "isExpiry now row \<longleftrightarrow> db_expiryTime row < now"

section \<open>Rollups\<close>

record live_client =
  lc_email :: string
  lc_enable :: bool
  lc_comment :: string

text \<open>An element of \<open>settings.clients\<close>: an absent email or comment is the empty text, which the code skips alike.\<close>

definition live_client_of :: "jv \<Rightarrow> live_client" where
  "live_client_of c = (let ob = asObject c in
     \<lparr>lc_email = asString (oget ob ''email''), lc_enable = truthy (oget ob ''enable''), lc_comment = asString (oget ob ''comment'')\<rparr>)"

definition settings_clients :: "jobj \<Rightarrow> live_client list" where
  "settings_clients settings = map live_client_of (asArray (oget settings ''clients''))"

record client_rollup =
  ru_clients :: nat
  ru_active :: "string list"
  ru_deactive :: "string list"
  ru_depleted :: "string list"
  ru_expiring :: "string list"
  ru_online :: "string list"
  ru_comments :: "(string \<times> string) list"

text \<open>What the hook's refs hold: online emails and active tags by the hosting node, and the two warning distances.\<close>

record live_refs =
  lr_onlineByGuid :: "(string \<times> string list) list"
  lr_activeByGuid :: "(string \<times> string list) list"
  lr_expireDiff :: int
  lr_trafficDiff :: int

definition attribution_guid :: "db_inbound \<Rightarrow> string" where
  "attribution_guid row =
     (if db_originNodeGuid row \<noteq> [] then db_originNodeGuid row
      else case db_nodeId row of Some i \<Rightarrow> ''node:'' @ int_str i | None \<Rightarrow> [])"

definition inbound_active :: "live_refs \<Rightarrow> db_inbound \<Rightarrow> bool" where
  "inbound_active r row =
     (case map_of (lr_activeByGuid r) (attribution_guid row) of
        None \<Rightarrow> True | Some tags \<Rightarrow> db_tag row = [] \<or> db_tag row \<in> set tags)"

definition node_online :: "live_refs \<Rightarrow> db_inbound \<Rightarrow> string \<Rightarrow> bool" where
  "node_online r row email =
     (case map_of (lr_onlineByGuid r) (attribution_guid row) of None \<Rightarrow> False | Some emails \<Rightarrow> email \<in> set emails)"

definition stats_by_email :: "client_stats list \<Rightarrow> string \<Rightarrow> client_stats option" where
  "stats_by_email sts = map_of (rev (map (\<lambda>st. (to_lower (cs_email st), st)) (filter (\<lambda>st. cs_email st \<noteq> []) sts)))"

definition stats_exhausted :: "client_stats option \<Rightarrow> bool" where
  "stats_exhausted st = (case st of None \<Rightarrow> False | Some s \<Rightarrow> cs_total s > 0 \<and> cs_up s + cs_down s \<ge> cs_total s)"

definition stats_expired :: "int \<Rightarrow> client_stats option \<Rightarrow> bool" where
  "stats_expired now st = (case st of None \<Rightarrow> False | Some s \<Rightarrow> cs_expiryTime s > 0 \<and> cs_expiryTime s \<le> now)"

definition stats_expiring :: "live_refs \<Rightarrow> int \<Rightarrow> client_stats option \<Rightarrow> bool" where
  "stats_expiring r now st = (case st of None \<Rightarrow> False | Some s \<Rightarrow>
     (cs_expiryTime s > 0 \<and> cs_expiryTime s - now < lr_expireDiff r)
     \<or> (cs_total s > 0 \<and> cs_total s - (cs_up s + cs_down s) < lr_trafficDiff r))"

definition empty_rollup :: "nat \<Rightarrow> client_rollup" where
  "empty_rollup n = \<lparr>ru_clients = n, ru_active = [], ru_deactive = [], ru_depleted = [], ru_expiring = [], ru_online = [], ru_comments = []\<rparr>"

text \<open>One turn of the loop over the clients of an enabled inbound.\<close>

definition roll_client :: "live_refs \<Rightarrow> int \<Rightarrow> db_inbound \<Rightarrow> live_client \<Rightarrow> client_rollup \<Rightarrow> client_rollup" where
  "roll_client r now row client ru =
     (let email = lc_email client;
          ru = (if lc_comment client \<noteq> [] \<and> email \<noteq> []
                then ru\<lparr>ru_comments := AList.update email (lc_comment client) (ru_comments ru)\<rparr> else ru)
      in if email = [] then ru
         else let stats = stats_by_email (db_clientStats row) (to_lower email)
         in if stats_expired now stats \<or> stats_exhausted stats then ru\<lparr>ru_depleted := ru_depleted ru @ [email]\<rparr>
            else if \<not> lc_enable client then ru\<lparr>ru_deactive := ru_deactive ru @ [email]\<rparr>
            else ru\<lparr>ru_active := ru_active ru @ [email],
                    ru_online := ru_online ru @ (if inbound_active r row \<and> node_online r row email then [email] else []),
                    ru_expiring := ru_expiring ru @ (if stats_expiring r now stats then [email] else [])\<rparr>)"

definition rollupClients :: "live_refs \<Rightarrow> int \<Rightarrow> db_inbound \<Rightarrow> live_client list \<Rightarrow> client_rollup" where
  "rollupClients r now row clients =
     (if db_enable row then fold (roll_client r now row) clients (empty_rollup (length clients))
      else (empty_rollup (length clients))\<lparr>ru_deactive := filter (\<lambda>e. e \<noteq> []) (map lc_email clients)\<rparr>)"

definition TRACKED_PROTOCOLS :: "string list" where
  "TRACKED_PROTOCOLS = [''vmess'', ''vless'', ''trojan'', ''shadowsocks'', ''hysteria'']"

text \<open>The rows \<open>rebuildClientCount\<close> counts: tracked protocols, without single-user Shadowsocks.\<close>

definition counted_row :: "db_inbound \<Rightarrow> bool" where
  "counted_row row \<longleftrightarrow> db_protocol row \<in> set TRACKED_PROTOCOLS
     \<and> \<not> (db_protocol row = ''shadowsocks'' \<and> \<not> isSSMultiUser \<lparr>cap_protocol = db_protocol row,
            cap_settings = Some (coerceInboundJsonField (db_settings row)), cap_stream = None\<rparr>)"

definition row_rollup :: "live_refs \<Rightarrow> int \<Rightarrow> db_inbound \<Rightarrow> client_rollup" where
  "row_rollup r now row = rollupClients r now row (settings_clients (coerceInboundJsonField (db_settings row)))"

definition rebuildClientCount :: "live_refs \<Rightarrow> int \<Rightarrow> db_inbound list \<Rightarrow> (int \<times> client_rollup) list" where
  "rebuildClientCount r now rows =
     fold (\<lambda>row counts. if counted_row row then AList.update (db_id row) (row_rollup r now row) counts else counts) rows []"

section \<open>State of the page\<close>

record speed_entry =
  sp_up :: rat
  sp_down :: rat

record live_page =
  lp_rows :: "db_inbound list"
  lp_counts :: "(int \<times> client_rollup) list"
  lp_speed :: "int \<Rightarrow> speed_entry option"
  lp_onlines :: "string list"
  lp_lastOnline :: "string \<Rightarrow> int option"
  lp_version :: nat
  lp_refs :: live_refs

definition TRAFFIC_POLL_INTERVAL_S :: int where
  "TRAFFIC_POLL_INTERVAL_S = 5"

definition SPEED_CACHE_TTL_MS :: int where
  "SPEED_CACHE_TTL_MS = 15000"

text \<open>The speeds a mounted page starts with: the cached ones while they are recent.\<close>

definition initial_speed :: "int \<Rightarrow> int \<Rightarrow> (int \<Rightarrow> speed_entry option) \<Rightarrow> int \<Rightarrow> speed_entry option" where
  "initial_speed now cachedAt cached = (if now - cachedAt < SPEED_CACHE_TTL_MS then cached else (\<lambda>_. None))"

definition rebuild_counts :: "int \<Rightarrow> live_page \<Rightarrow> live_page" where
  "rebuild_counts now p = p\<lparr>lp_counts := rebuildClientCount (lp_refs p) now (lp_rows p)\<rparr>"

text \<open>The effect on a fetched list: one loop builds rows and rollups.\<close>

definition seed_row :: "live_refs \<Rightarrow> int \<Rightarrow> db_inbound \<Rightarrow> db_inbound list \<times> (int \<times> client_rollup) list \<Rightarrow> db_inbound list \<times> (int \<times> client_rollup) list" where
  "seed_row r now row s =
     (let s = (fst s @ [row], snd s)
      in if db_protocol row \<in> set TRACKED_PROTOCOLS
         then if db_protocol row = ''shadowsocks'' \<and> \<not> isSSMultiUser \<lparr>cap_protocol = db_protocol row,
                   cap_settings = Some (coerceInboundJsonField (db_settings row)), cap_stream = None\<rparr>
              then s else (fst s, AList.update (db_id row) (row_rollup r now row) (snd s))
         else s)"

definition seed_rows :: "int \<Rightarrow> db_inbound list \<Rightarrow> live_page \<Rightarrow> live_page" where
  "seed_rows now fetched p =
     (let s = fold (seed_row (lp_refs p) now) fetched ([], []) in p\<lparr>lp_rows := fst s, lp_counts := snd s\<rparr>)"

text \<open>
  \<open>hydrateInbound\<close>: the detail row takes its row's place. The rollups are recomputed from the ref the
  queued update writes; \<open>eager\<close> says whether React has run that update by then (it does when no
  other update is pending), otherwise they still see the old rows.
\<close>

definition hydrateInbound :: "bool \<Rightarrow> int \<Rightarrow> db_inbound \<Rightarrow> int \<Rightarrow> live_page \<Rightarrow> live_page" where
  "hydrateInbound eager ident detail now p =
     (let rows = map (\<lambda>row. if db_id row = ident then detail else row) (lp_rows p)
      in p\<lparr>lp_rows := rows, lp_counts := rebuildClientCount (lp_refs p) now (if eager then rows else lp_rows p)\<rparr>)"

text \<open>A view asks a row for a client's statistics, which fills the row's cache.\<close>

definition lookup_stats :: "nat \<Rightarrow> string \<Rightarrow> live_page \<Rightarrow> live_page" where
  "lookup_stats i email p =
     (if i < length (lp_rows p) then p\<lparr>lp_rows := (lp_rows p)[i := snd (getClientStats email (lp_rows p ! i))]\<rparr> else p)"

section \<open>Traffic events\<close>

record traffic_delta =
  td_Tag :: string
  td_Up :: int
  td_Down :: int
  td_IsInbound :: "bool option"

record traffic_event =
  te_traffics :: "traffic_delta list option"
  te_nodeTraffics :: "traffic_delta list option"
  te_onlineClients :: "string list option"
  te_onlineByGuid :: "(string \<times> string list) list option"
  te_activeInbounds :: "(string \<times> string list) list option"
  te_lastOnlineMap :: "(string \<times> int) list option"

definition delta_for :: "traffic_delta list \<Rightarrow> string \<Rightarrow> traffic_delta option" where
  "delta_for traffics = map_of (rev (map (\<lambda>tr. (td_Tag tr, tr)) (filter (\<lambda>tr. td_IsInbound tr \<noteq> Some False) traffics)))"

definition delta_speed :: "traffic_delta \<Rightarrow> speed_entry" where
  "delta_speed d = \<lparr>sp_up = of_int (td_Up d) / of_int TRAFFIC_POLL_INTERVAL_S, sp_down = of_int (td_Down d) / of_int TRAFFIC_POLL_INTERVAL_S\<rparr>"

definition applyTraffics :: "traffic_delta list \<Rightarrow> (db_inbound \<Rightarrow> bool) \<Rightarrow> db_inbound list
    \<Rightarrow> (int \<Rightarrow> speed_entry option) \<Rightarrow> int \<Rightarrow> speed_entry option" where
  "applyTraffics traffics inScope rows speed =
     fold (\<lambda>ib sp. if inScope ib then sp(db_id ib := map_option delta_speed (delta_for traffics (db_tag ib))) else sp) rows speed"

definition local_row :: "db_inbound \<Rightarrow> bool" where
  "local_row ib \<longleftrightarrow> db_nodeId ib = None"

definition node_row :: "db_inbound \<Rightarrow> bool" where
  "node_row ib \<longleftrightarrow> db_nodeId ib \<noteq> None"

definition when_present :: "'a option \<Rightarrow> ('a \<Rightarrow> 's \<Rightarrow> 's) \<Rightarrow> 's \<Rightarrow> 's" where
  "when_present x f s = (case x of None \<Rightarrow> s | Some v \<Rightarrow> f v s)"

definition applyTrafficEvent :: "int \<Rightarrow> traffic_event \<Rightarrow> live_page \<Rightarrow> live_page" where
  "applyTrafficEvent now e p =
     (let p = when_present (te_onlineClients e) (\<lambda>xs p. p\<lparr>lp_onlines := xs\<rparr>) p;
          p = when_present (te_onlineByGuid e) (\<lambda>m p. p\<lparr>lp_refs := (lp_refs p)\<lparr>lr_onlineByGuid := m\<rparr>\<rparr>) p;
          p = when_present (te_activeInbounds e) (\<lambda>m p. p\<lparr>lp_refs := (lp_refs p)\<lparr>lr_activeByGuid := m\<rparr>\<rparr>) p;
          p = when_present (te_lastOnlineMap e) (\<lambda>m p. p\<lparr>lp_lastOnline := lp_lastOnline p ++ map_of m\<rparr>) p;
          p = when_present (te_traffics e) (\<lambda>ts p. p\<lparr>lp_speed := applyTraffics ts local_row (lp_rows p) (lp_speed p)\<rparr>) p;
          p = when_present (te_nodeTraffics e) (\<lambda>ts p. p\<lparr>lp_speed := applyTraffics ts node_row (lp_rows p) (lp_speed p)\<rparr>) p
      in rebuild_counts now p)"

section \<open>Statistics events\<close>

record inbound_update =
  iu_id :: int
  iu_up :: "int option"
  iu_down :: "int option"
  iu_total :: "int option"
  iu_enable :: "bool option"

record stats_update =
  su_email :: string
  su_up :: "int option"
  su_down :: "int option"
  su_total :: "int option"
  su_expiryTime :: "int option"
  su_enable :: "bool option"

record stats_event =
  se_inbounds :: "inbound_update list"
  se_clients :: "stats_update list"

definition last_by :: "('a \<Rightarrow> 'k) \<Rightarrow> 'a list \<Rightarrow> 'k \<Rightarrow> 'a option" where
  "last_by key xs = map_of (rev (map (\<lambda>x. (key x, x)) xs))"

definition or_keep :: "'a option \<Rightarrow> 'a \<Rightarrow> 'a" where
  "or_keep x old = (case x of None \<Rightarrow> old | Some v \<Rightarrow> v)"

definition merge_inbound :: "inbound_update list \<Rightarrow> db_inbound \<Rightarrow> db_inbound" where
  "merge_inbound us row =
     (case last_by iu_id us (db_id row) of None \<Rightarrow> row
      | Some u \<Rightarrow> row\<lparr>db_up := or_keep (iu_up u) (db_up row), db_down := or_keep (iu_down u) (db_down row),
          db_total := or_keep (iu_total u) (db_total row), db_enable := or_keep (iu_enable u) (db_enable row)\<rparr>)"

definition update_for :: "stats_update list \<Rightarrow> string \<Rightarrow> stats_update option" where
  "update_for us = last_by su_email (filter (\<lambda>u. su_email u \<noteq> []) us)"

definition merge_stats :: "stats_update list \<Rightarrow> client_stats \<Rightarrow> client_stats" where
  "merge_stats us st =
     (case update_for us (cs_email st) of None \<Rightarrow> st
      | Some u \<Rightarrow> st\<lparr>cs_up := or_keep (su_up u) (cs_up st), cs_down := or_keep (su_down u) (cs_down st),
          cs_total := or_keep (su_total u) (cs_total st), cs_expiryTime := or_keep (su_expiryTime u) (cs_expiryTime st),
          cs_enable := (case su_enable u of None \<Rightarrow> cs_enable st | Some b \<Rightarrow> Some b)\<rparr>)"

definition event_touches :: "stats_event \<Rightarrow> db_inbound list \<Rightarrow> bool" where
  "event_touches e rows \<longleftrightarrow>
     list_ex (\<lambda>row. last_by iu_id (se_inbounds e) (db_id row) \<noteq> None
       \<or> list_ex (\<lambda>st. update_for (se_clients e) (cs_email st) \<noteq> None) (db_clientStats row)) rows"

definition merge_row :: "stats_event \<Rightarrow> db_inbound \<Rightarrow> db_inbound" where
  "merge_row e row = (let row = merge_inbound (se_inbounds e) row in row\<lparr>db_clientStats := map (merge_stats (se_clients e)) (db_clientStats row)\<rparr>)"

definition applyClientStatsEvent :: "int \<Rightarrow> stats_event \<Rightarrow> live_page \<Rightarrow> live_page" where
  "applyClientStatsEvent now e p =
     (if event_touches e (lp_rows p)
      then rebuild_counts now (p\<lparr>lp_version := Suc (lp_version p), lp_rows := map (merge_row e) (lp_rows p)\<rparr>)
      else p)"

definition page_totals :: "live_page \<Rightarrow> int \<times> int" where
  "page_totals p = (sum_list (map db_up (lp_rows p)), sum_list (map db_down (lp_rows p)))"

end
