(* ===== verification/Live_Laws.thy ===== *)
theory Live_Laws
  imports Live_Inbounds "HOL-Library.Multiset" "HOL-Library.Sublist"
begin

text \<open>
  What the live page keeps true: every client of an inbound is in exactly one group of its rollup,
  the rollups belong to the rows they are shown with, the statistics cache of a row never
  goes stale, the two traffic polls do not disturb each other's speeds, and a replayed event changes
  nothing.
\<close>

section \<open>Rollups\<close>

definition client_stats_of :: "db_inbound \<Rightarrow> live_client \<Rightarrow> client_stats option" where
  "client_stats_of row c = stats_by_email (db_clientStats row) (to_lower (lc_email c))"

definition client_depleted :: "int \<Rightarrow> db_inbound \<Rightarrow> live_client \<Rightarrow> bool" where
  "client_depleted now row c \<longleftrightarrow> stats_expired now (client_stats_of row c) \<or> stats_exhausted (client_stats_of row c)"

definition named :: "live_client list \<Rightarrow> live_client list" where
  "named = filter (\<lambda>c. lc_email c \<noteq> [])"

definition emails_where :: "(live_client \<Rightarrow> bool) \<Rightarrow> live_client list \<Rightarrow> string list" where
  "emails_where P cs = map lc_email (filter P (named cs))"

lemma emails_where_simps [simp]:
  "emails_where P [] = []"
  "emails_where P (c # cs) = (if lc_email c \<noteq> [] \<and> P c then [lc_email c] else []) @ emails_where P cs"
  by (auto simp: emails_where_def named_def)

lemma rolled:
  "let ru' = fold (roll_client r now row) cs ru in
     ru_clients ru' = ru_clients ru
     \<and> ru_depleted ru' = ru_depleted ru @ emails_where (client_depleted now row) cs
     \<and> ru_deactive ru' = ru_deactive ru @ emails_where (\<lambda>c. \<not> client_depleted now row c \<and> \<not> lc_enable c) cs
     \<and> ru_active ru' = ru_active ru @ emails_where (\<lambda>c. \<not> client_depleted now row c \<and> lc_enable c) cs
     \<and> ru_online ru' = ru_online ru @ emails_where (\<lambda>c. (\<not> client_depleted now row c \<and> lc_enable c)
         \<and> inbound_active r row \<and> node_online r row (lc_email c)) cs
     \<and> ru_expiring ru' = ru_expiring ru @ emails_where (\<lambda>c. (\<not> client_depleted now row c \<and> lc_enable c)
         \<and> stats_expiring r now (client_stats_of row c)) cs"
proof (induction cs arbitrary: ru)
  case (Cons c cs)
  show ?case using Cons [of "roll_client r now row c ru"]
    by (auto simp: Let_def roll_client_def client_depleted_def client_stats_of_def)
qed simp

lemmas rollup_groups = rolled [of r now row cs "empty_rollup n" for r now row cs n, unfolded Let_def empty_rollup_def, simplified]

lemma emails_partition:
  "mset (emails_where (\<lambda>c. \<not> P c \<and> Q c) cs) + mset (emails_where (\<lambda>c. \<not> P c \<and> \<not> Q c) cs) + mset (emails_where P cs)
    = mset (map lc_email (named cs))"
  by (induction cs) (auto simp: named_def)

lemma emails_sub: "subseq (emails_where (\<lambda>c. P c \<and> Q c) cs) (emails_where P cs)"
  by (induction cs) auto

lemma emails_of_named: "filter (\<lambda>e. e \<noteq> []) (map lc_email cs) = map lc_email (named cs)"
  by (induction cs) (auto simp: named_def)

text \<open>C9: The rollup of an inbound puts every client that has an email in exactly one of its groups active,
  disabled and depleted (all of them disabled when the inbound is); the online and the expiring
  clients are active ones, in the same order; a client is depleted exactly when its statistics are
  expired or used up, whatever its switch says.\<close>
theorem rollup_partitions_clients:
  "let ru = rollupClients r now row cs in
     ru_clients ru = length cs
     \<and> mset (ru_active ru) + mset (ru_deactive ru) + mset (ru_depleted ru) = mset (map lc_email (named cs))
     \<and> subseq (ru_online ru) (ru_active ru) \<and> subseq (ru_expiring ru) (ru_active ru)
     \<and> ru_depleted ru = (if db_enable row then emails_where (client_depleted now row) cs else [])
     \<and> (inbound_active r row \<or> ru_online ru = [])"
proof (cases "db_enable row")
  case True
  note g = rollup_groups [where r = r and now = now and row = row and cs = cs and n = "length cs"]
  have "ru_clients (rollupClients r now row cs) = length cs" using True g by (simp add: rollupClients_def empty_rollup_def)
  moreover have "mset (ru_active (rollupClients r now row cs)) + mset (ru_deactive (rollupClients r now row cs))
      + mset (ru_depleted (rollupClients r now row cs)) = mset (map lc_email (named cs))"
    using True g emails_partition [of "client_depleted now row" lc_enable cs] by (simp add: rollupClients_def empty_rollup_def)
  moreover have "subseq (ru_online (rollupClients r now row cs)) (ru_active (rollupClients r now row cs))"
    "subseq (ru_expiring (rollupClients r now row cs)) (ru_active (rollupClients r now row cs))"
    using True g
      emails_sub [of "\<lambda>c. \<not> client_depleted now row c \<and> lc_enable c" "\<lambda>c. inbound_active r row \<and> node_online r row (lc_email c)" cs]
      emails_sub [of "\<lambda>c. \<not> client_depleted now row c \<and> lc_enable c" "\<lambda>c. stats_expiring r now (client_stats_of row c)" cs]
    by (simp_all add: rollupClients_def empty_rollup_def)
  moreover have "emails_where (\<lambda>c. False) cs = []" by (simp add: emails_where_def)
  hence "inbound_active r row \<or> ru_online (rollupClients r now row cs) = []"
    using True g by (cases "inbound_active r row") (simp_all add: rollupClients_def empty_rollup_def)
  ultimately show ?thesis using True g by (simp add: rollupClients_def empty_rollup_def Let_def)
next
  case False
  thus ?thesis by (simp add: rollupClients_def empty_rollup_def emails_of_named)
qed

section \<open>Counts\<close>

lemma counted_fold:
  "fold (seed_row r now) rows (rs, counts)
    = (rs @ rows, fold (\<lambda>row counts. if counted_row row then AList.update (db_id row) (row_rollup r now row) counts else counts) rows counts)"
  by (induction rows arbitrary: rs counts) (auto simp: seed_row_def counted_row_def Let_def)

lemma seed_counts: "seed_rows now fetched p = p\<lparr>lp_rows := fetched, lp_counts := rebuildClientCount (lp_refs p) now fetched\<rparr>"
  by (simp add: seed_rows_def counted_fold rebuildClientCount_def)

lemma count_of_row:
  assumes "distinct (map db_id rows)" "row \<in> set rows"
  shows "map_of (rebuildClientCount r now rows) (db_id row) = (if counted_row row then Some (row_rollup r now row) else None)"
proof -
  have "map_of (fold (\<lambda>row counts. if counted_row row then AList.update (db_id row) (row_rollup r now row) counts else counts) rows counts) i
      = (case find (\<lambda>row. counted_row row \<and> db_id row = i) rows of None \<Rightarrow> map_of counts i | Some row \<Rightarrow> Some (row_rollup r now row))"
    if "distinct (map db_id rows)" for i counts using that
  proof (induction rows arbitrary: counts)
    case (Cons row rows)
    have "find (\<lambda>x. counted_row x \<and> db_id x = db_id row) rows = None" using Cons.prems by (auto simp: find_None_iff) (metis image_eqI)
    thus ?case using Cons by (auto simp: update_conv' split: option.split)
  qed simp
  moreover have "find (\<lambda>x. counted_row x \<and> db_id x = db_id row) rows = (if counted_row row then Some row else None)"
    using assms
  proof (induction rows)
    case (Cons x rows)
    have "x = row \<Longrightarrow> \<not> (\<exists>y. y \<in> set rows \<and> db_id y = db_id row)" using Cons.prems(1) by (auto) (metis image_eqI)
    thus ?case using Cons by (cases "x = row") (auto simp: find_None_iff)
  qed simp
  ultimately show ?thesis using assms(1) by (simp add: rebuildClientCount_def)
qed

section \<open>The statistics cache\<close>

definition cache_valid :: "db_inbound \<Rightarrow> bool" where
  "cache_valid row \<longleftrightarrow> db_cache row = None \<or> db_cache row = Some (build_stats_map (db_clientStats row))"

lemma stats_map_emails: "map cs_email sts = map cs_email sts' \<Longrightarrow> build_stats_map sts = build_stats_map sts'"
proof -
  have "fold (\<lambda>(i, st) m. if cs_email st \<noteq> [] then AList.update (cs_email st) i m else m) (enumerate n sts) m
      = fold (\<lambda>(i, e) m. if e \<noteq> [] then AList.update e i m else m) (enumerate n (map cs_email sts)) m" for n m and sts :: "client_stats list"
    by (induction sts arbitrary: n m) simp_all
  thus "map cs_email sts = map cs_email sts' \<Longrightarrow> build_stats_map sts = build_stats_map sts'" by (simp add: build_stats_map_def)
qed

lemma stats_map_last:
  "map_option ((!) sts) (map_of (build_stats_map sts) email) = last_by cs_email (filter (\<lambda>st. cs_email st \<noteq> []) sts) email"
proof -
  have "map_option ((!) (pre @ sts)) (map_of (fold (\<lambda>(i, st) m. if cs_email st \<noteq> [] then AList.update (cs_email st) i m else m) (enumerate (length pre) sts) m) email)
      = (case last_by cs_email (filter (\<lambda>st. cs_email st \<noteq> []) sts) email of Some st \<Rightarrow> Some st | None \<Rightarrow> map_option ((!) (pre @ sts)) (map_of m email))"
    for pre m
  proof (induction sts arbitrary: pre m)
    case Nil
    thus ?case by (simp add: last_by_def)
  next
    case (Cons st sts)
    show ?case using Cons [of "pre @ [st]"]
      by (auto simp: last_by_def update_conv' map_add_def split: option.split)
  qed
  from this [of "[]" "[]"] show ?thesis by (simp add: build_stats_map_def split: option.split)
qed

lemma cached_lookup:
  assumes "cache_valid row"
  shows "fst (getClientStats email row) = last_by cs_email (filter (\<lambda>st. cs_email st \<noteq> []) (db_clientStats row)) email"
    "cache_valid (snd (getClientStats email row))"
  using assms stats_map_last by (auto simp: getClientStats_def cache_valid_def Let_def)

lemma merge_row_parts [simp]:
  "db_id (merge_row e row) = db_id row" "db_tag (merge_row e row) = db_tag row" "db_settings (merge_row e row) = db_settings row"
  "db_nodeId (merge_row e row) = db_nodeId row" "db_protocol (merge_row e row) = db_protocol row"
  "db_cache (merge_row e row) = db_cache row" "db_clientStats (merge_row e row) = map (merge_stats (se_clients e)) (db_clientStats row)"
  by (simp_all add: merge_row_def merge_inbound_def Let_def split: option.split)

lemma merge_stats_email [simp]: "cs_email (merge_stats us st) = cs_email st"
  by (simp add: merge_stats_def split: option.split)

lemma merged_cache: "cache_valid row \<Longrightarrow> cache_valid (merge_row e row)"
  using stats_map_emails [of "map (merge_stats (se_clients e)) (db_clientStats row)" "db_clientStats row"]
  by (simp add: cache_valid_def comp_def)

section \<open>Every state of the page\<close>

definition blank_page :: live_page where
  "blank_page = \<lparr>lp_rows = [], lp_counts = [], lp_speed = (\<lambda>_. None), lp_onlines = [], lp_lastOnline = (\<lambda>_. None), lp_version = 0,
     lp_refs = \<lparr>lr_onlineByGuid = [], lr_activeByGuid = [], lr_expireDiff = 0, lr_trafficDiff = 0\<rparr>\<rparr>"

text \<open>
  The page's histories. A fetched list has distinct ids and fresh rows (a \<open>DBInbound\<close> starts without a
  cache), a detail answers the id it was asked for.
\<close>

inductive live_history :: "live_page \<Rightarrow> bool" where
  opened: "live_history blank_page"
| seeded: "live_history p \<Longrightarrow> distinct (map db_id fetched) \<Longrightarrow> list_all (\<lambda>row. db_cache row = None) fetched \<Longrightarrow>
    live_history (seed_rows now fetched p)"
| hydrated: "live_history p \<Longrightarrow> db_id detail = ident \<Longrightarrow> db_cache detail = None \<Longrightarrow> live_history (hydrateInbound True ident detail now p)"
| looked_up: "live_history p \<Longrightarrow> live_history (lookup_stats i email p)"
| traffic: "live_history p \<Longrightarrow> live_history (applyTrafficEvent now te p)"
| stats: "live_history p \<Longrightarrow> live_history (applyClientStatsEvent now se p)"

definition counts_current :: "live_page \<Rightarrow> bool" where
  "counts_current p \<longleftrightarrow> (\<exists>now. lp_counts p = rebuildClientCount (lp_refs p) now (lp_rows p))"

definition page_ok :: "live_page \<Rightarrow> bool" where
  "page_ok p \<longleftrightarrow> distinct (map db_id (lp_rows p)) \<and> list_all cache_valid (lp_rows p) \<and> counts_current p"

lemma traffic_rows: "lp_rows (applyTrafficEvent now e p) = lp_rows p"
  by (simp add: applyTrafficEvent_def Let_def when_present_def rebuild_counts_def split: option.split)

lemma traffic_current: "counts_current (applyTrafficEvent now e p)"
  unfolding counts_current_def applyTrafficEvent_def Let_def by (rule exI [of _ now]) (simp add: rebuild_counts_def)

lemma lookup_counts: "rebuildClientCount r now (rows[i := snd (getClientStats email (rows ! i))]) = rebuildClientCount r now rows"
proof (cases "i < length rows")
  case True
  have e: "fold (\<lambda>row counts. if counted_row row then AList.update (db_id row) (row_rollup r now row) counts else counts) rows counts
      = fold (\<lambda>row counts. if counted_row row then AList.update (db_id row) (row_rollup r now row) counts else counts)
          (map (\<lambda>row. row\<lparr>db_cache := None\<rparr>) rows) counts" for rows counts
  proof (induction rows arbitrary: counts)
    case (Cons row rows)
    have c: "counted_row (row\<lparr>db_cache := None\<rparr>) = counted_row row" by (simp add: counted_row_def)
    have a: "attribution_guid (row\<lparr>db_cache := None\<rparr>) = attribution_guid row" by (simp add: attribution_guid_def)
    have "db_clientStats (row\<lparr>db_cache := None\<rparr>) = db_clientStats row" by simp
    moreover have "inbound_active r (row\<lparr>db_cache := None\<rparr>) = inbound_active r row" "node_online r (row\<lparr>db_cache := None\<rparr>) = node_online r row"
      by (simp_all add: inbound_active_def node_online_def [abs_def] a split: option.split)
    ultimately have "roll_client r now (row\<lparr>db_cache := None\<rparr>) = roll_client r now row"
      by (intro ext) (simp only: roll_client_def)
    hence "row_rollup r now (row\<lparr>db_cache := None\<rparr>) = row_rollup r now row" by (simp add: row_rollup_def rollupClients_def)
    thus ?case using Cons c by simp
  qed simp
  have "map (\<lambda>row. row\<lparr>db_cache := None\<rparr>) (rows[i := snd (getClientStats email (rows ! i))]) = map (\<lambda>row. row\<lparr>db_cache := None\<rparr>) rows"
    using True by (intro nth_equalityI) (auto simp: nth_list_update getClientStats_def Let_def)
  moreover have "rebuildClientCount r now rows = rebuildClientCount r now (map (\<lambda>row. row\<lparr>db_cache := None\<rparr>) rows)" for rows
    unfolding rebuildClientCount_def by (rule e)
  ultimately show ?thesis by (metis (no_types, lifting))
qed (simp add: list_update_beyond)

lemma history_ok: "live_history p \<Longrightarrow> page_ok p"
proof (induction rule: live_history.induct)
  case opened
  show ?case by (simp add: page_ok_def blank_page_def counts_current_def rebuildClientCount_def)
next
  case (seeded p fetched now)
  thus ?case by (auto simp: page_ok_def seed_counts counts_current_def cache_valid_def list_all_iff)
next
  case (hydrated p detail ident now)
  have "map db_id (map (\<lambda>row. if db_id row = ident then detail else row) (lp_rows p)) = map db_id (lp_rows p)"
    using hydrated(2) by simp
  hence "distinct (map db_id (map (\<lambda>row. if db_id row = ident then detail else row) (lp_rows p)))"
    using hydrated(4) by (simp only: page_ok_def)
  thus ?case using hydrated by (auto simp: page_ok_def hydrateInbound_def counts_current_def cache_valid_def list_all_iff Let_def simp del: map_map)
next
  case (looked_up p i email)
  have "map db_id ((lp_rows p)[i := snd (getClientStats email (lp_rows p ! i))]) = map db_id (lp_rows p)"
    by (simp add: map_update getClientStats_def Let_def) (metis list_update_id map_update)
  moreover have "i < length (lp_rows p) \<Longrightarrow> list_all cache_valid ((lp_rows p)[i := snd (getClientStats email (lp_rows p ! i))])"
    using looked_up(2) cached_lookup(2) [of "lp_rows p ! i" email] set_update_subset_insert [of "lp_rows p" i]
    by (fastforce simp: page_ok_def list_all_iff)
  ultimately show ?case using looked_up(2) by (auto simp: page_ok_def lookup_stats_def counts_current_def lookup_counts)
next
  case (traffic p now te)
  thus ?case using traffic_current by (simp add: page_ok_def traffic_rows)
next
  case (stats p now se)
  have "list_all cache_valid (map (merge_row se) (lp_rows p))" using stats(2) by (auto simp: page_ok_def list_all_iff merged_cache)
  thus ?case using stats(2)
    by (auto simp: page_ok_def applyClientStatsEvent_def rebuild_counts_def counts_current_def comp_def)
qed


section \<open>Speeds\<close>

lemma speed_of_row:
  "distinct (map db_id rows) \<Longrightarrow> ib \<in> set rows \<Longrightarrow>
    applyTraffics ts sc rows speed (db_id ib) = (if sc ib then map_option delta_speed (delta_for ts (db_tag ib)) else speed (db_id ib))"
  unfolding applyTraffics_def
proof (induction rows arbitrary: speed)
  case (Cons x rows)
  have other: "fold (\<lambda>ib sp. if sc ib then sp(db_id ib := map_option delta_speed (delta_for ts (db_tag ib))) else sp) rows sp i = sp i"
    if "i \<notin> db_id ` set rows" for sp i using that by (induction rows arbitrary: sp) auto
  show ?case
  proof (cases "x = ib")
    case True
    thus ?thesis using Cons.prems(1) by (simp add: other)
  next
    case False
    hence i: "ib \<in> set rows" using Cons.prems(2) by simp
    hence "db_id ib \<noteq> db_id x" using Cons.prems(1) by (metis distinct.simps(2) image_eqI list.set_map list.simps(9))
    thus ?thesis using Cons i by simp
  qed
qed simp

lemma speed_elsewhere: "i \<notin> db_id ` set rows \<Longrightarrow> applyTraffics ts sc rows speed i = speed i"
  unfolding applyTraffics_def by (induction rows arbitrary: speed) auto

lemma speed_cases: "i \<notin> db_id ` set rows \<or> (\<exists>ib \<in> set rows. i = db_id ib)"
  by auto

text \<open>A traffic poll sets the speed of exactly the inbounds in its scope, from the last delta sent for
  their tag: bytes over the five seconds of the interval, nothing when the poll does not name them;
  deltas of outbounds are ignored; and the local poll and the node poll can arrive in either
  order with the same result.\<close>
theorem speeds_by_scope:
  assumes "distinct (map db_id rows)" and "ib \<in> set rows"
  shows "applyTraffics ts local_row rows speed (db_id ib)
      = (if db_nodeId ib = None then map_option delta_speed (delta_for ts (db_tag ib)) else speed (db_id ib))
    \<and> applyTraffics ts node_row rows speed (db_id ib)
      = (if db_nodeId ib = None then speed (db_id ib) else map_option delta_speed (delta_for ts (db_tag ib)))
    \<and> applyTraffics ns node_row rows (applyTraffics ts local_row rows speed)
      = applyTraffics ts local_row rows (applyTraffics ns node_row rows speed)
    \<and> delta_for (d\<lparr>td_IsInbound := Some False\<rparr> # ts) = delta_for ts
    \<and> delta_for (ts @ [d\<lparr>td_IsInbound := None\<rparr>]) (td_Tag d) = Some (d\<lparr>td_IsInbound := None\<rparr>)"
proof -
  note at_row = speed_of_row [OF assms(1)]
  have "applyTraffics ns node_row rows (applyTraffics ts local_row rows speed) i
      = applyTraffics ts local_row rows (applyTraffics ns node_row rows speed) i" for i
    using speed_cases [of i rows] by (auto simp: speed_elsewhere at_row local_row_def node_row_def)
  hence "applyTraffics ns node_row rows (applyTraffics ts local_row rows speed)
      = applyTraffics ts local_row rows (applyTraffics ns node_row rows speed)" by (rule ext)
  thus ?thesis using at_row [OF assms(2)] by (simp add: local_row_def node_row_def delta_for_def)
qed

section \<open>Replayed events\<close>

lemma or_keep_again [simp]: "or_keep x (or_keep x old) = or_keep x old"
  by (simp add: or_keep_def split: option.split)

lemma merge_inbound_again: "merge_inbound us (merge_inbound us row) = merge_inbound us row"
  by (simp add: merge_inbound_def split: option.split)

lemma merge_stats_again: "merge_stats us (merge_stats us st) = merge_stats us st"
  by (auto simp: merge_stats_def or_keep_def split: option.split)

lemma merge_row_again: "merge_row e (merge_row e row) = merge_row e row"
proof -
  have c: "merge_inbound us (row\<lparr>db_clientStats := cs\<rparr>) = (merge_inbound us row)\<lparr>db_clientStats := cs\<rparr>" for us row cs
    by (simp add: merge_inbound_def split: option.split)
  have d: "db_clientStats (merge_inbound us row) = db_clientStats row" for us row
    by (simp add: merge_inbound_def split: option.split)
  show ?thesis by (simp add: merge_row_def Let_def c d merge_inbound_again merge_stats_again comp_def)
qed

definition update_wins :: "stats_update \<Rightarrow> client_stats \<Rightarrow> bool" where
  "update_wins u st \<longleftrightarrow> cs_up st = or_keep (su_up u) (cs_up st) \<and> cs_down st = or_keep (su_down u) (cs_down st)
     \<and> cs_total st = or_keep (su_total u) (cs_total st) \<and> cs_expiryTime st = or_keep (su_expiryTime u) (cs_expiryTime st)"

text \<open>A statistics event is absolute: delivering it twice is delivering it once (only the version counter
  moves again), a client's counters afterwards are those of the last update sent for its email, and
  an event that names no row and no client changes nothing at all.\<close>
theorem stats_event_absolute:
  assumes "p' = applyClientStatsEvent now e p"
  shows "lp_rows (applyClientStatsEvent now' e p') = lp_rows p'
    \<and> (\<not> event_touches e (lp_rows p) \<longrightarrow> p' = p)
    \<and> list_all (\<lambda>row. list_all (\<lambda>st. case update_for (se_clients e) (cs_email st) of None \<Rightarrow> True | Some u \<Rightarrow> update_wins u st)
        (db_clientStats row)) (lp_rows p')
    \<and> map db_id (lp_rows p') = map db_id (lp_rows p) \<and> lp_speed p' = lp_speed p \<and> lp_refs p' = lp_refs p"
proof -
  have rows: "lp_rows (applyClientStatsEvent now e p) = (if event_touches e (lp_rows p) then map (merge_row e) (lp_rows p) else lp_rows p)" for now p
    by (simp add: applyClientStatsEvent_def rebuild_counts_def)
  have "update_wins u (merge_stats us st)" if "update_for us (cs_email st) = Some u" for u us st
    using that by (simp add: update_wins_def merge_stats_def)
  hence w: "case update_for us (cs_email (merge_stats us st)) of None \<Rightarrow> True | Some u \<Rightarrow> update_wins u (merge_stats us st)" for us st
    by (simp split: option.split)
  have "list_all (\<lambda>row. list_all (\<lambda>st. case update_for (se_clients e) (cs_email st) of None \<Rightarrow> True | Some u \<Rightarrow> update_wins u st)
        (db_clientStats row)) (lp_rows p')"
  proof (cases "event_touches e (lp_rows p)")
    case True
    thus ?thesis using w by (auto simp: assms rows list_all_iff)
  next
    case False
    thus ?thesis by (fastforce simp: assms rows event_touches_def list_all_iff list_ex_iff split: option.split)
  qed
  moreover have "lp_rows (applyClientStatsEvent now' e p') = lp_rows p'"
    by (auto simp: assms rows merge_row_again)
  ultimately show ?thesis
    by (auto simp: assms rows) (simp_all add: applyClientStatsEvent_def rebuild_counts_def)
qed

section \<open>The properties at a concrete page\<close>

definition sample_stats :: client_stats where
  "sample_stats = \<lparr>cs_email = ''a'', cs_up = 1, cs_down = 2, cs_total = 10, cs_expiryTime = 0, cs_enable = Some True\<rparr>"

definition sample_row :: db_inbound where
  "sample_row = blank_inbound\<lparr>db_id := 1, db_protocol := ''vless'', db_tag := ''in-1'', db_clientStats := [sample_stats],
     db_settings := JObj [(''clients'', JArr [JObj [(''email'', JStr ''a''), (''enable'', JBool True)]])]\<rparr>"


theorem speeds_by_scope_witness:
  "applyTraffics [\<lparr>td_Tag = ''in-1'', td_Up = 10, td_Down = 5, td_IsInbound = None\<rparr>] local_row [sample_row] (\<lambda>_. None) 1
      = Some \<lparr>sp_up = 2, sp_down = 1\<rparr>"
proof -
  have "db_id sample_row = 1" "db_nodeId sample_row = None" "db_tag sample_row = ''in-1''"
    by (simp_all add: sample_row_def blank_inbound_def)
  thus ?thesis
    using speeds_by_scope [of "[sample_row]" sample_row "[\<lparr>td_Tag = ''in-1'', td_Up = 10, td_Down = 5, td_IsInbound = None\<rparr>]" "\<lambda>_. None"]
    by (simp add: delta_for_def delta_speed_def TRAFFIC_POLL_INTERVAL_S_def)
qed

theorem stats_event_absolute_witness:
  "let e = \<lparr>se_inbounds = [], se_clients = [\<lparr>su_email = ''a'', su_up = Some 7, su_down = None, su_total = None, su_expiryTime = None, su_enable = None\<rparr>]\<rparr>;
       p' = applyClientStatsEvent 5 e (seed_rows 0 [sample_row] blank_page)
   in lp_rows (applyClientStatsEvent 6 e p') = lp_rows p' \<and> map db_id (lp_rows p') = [1]"
  using stats_event_absolute [OF refl, of 6 _ 5 "seed_rows 0 [sample_row] blank_page"]
  by (simp add: Let_def seed_counts) (simp add: sample_row_def)

end
