(* ===== verification/Live_Clients.thy ===== *)
theory Live_Clients
  imports Live_Laws Web_Text
begin

text \<open>
  The clients page: \<open>frontend/src/hooks/useClients.ts\<close> (the live summary, the query of the list, the merge of
  statistics events, the payload of the enable switch) and the permissions of
  \<open>frontend/src/lib/permissions.ts\<close>.
\<close>

section \<open>Summary\<close>

record client_stat_row =
  cr_email :: string
  cr_up :: int
  cr_down :: int
  cr_total :: int
  cr_expiryTime :: int
  cr_enable :: bool

record clients_summary =
  sm_total :: nat
  sm_active :: nat
  sm_online :: "string list"
  sm_depleted :: "string list"
  sm_expiring :: "string list"
  sm_deactive :: "string list"

definition DEFAULT_SUMMARY :: clients_summary where
  "DEFAULT_SUMMARY = \<lparr>sm_total = 0, sm_active = 0, sm_online = [], sm_depleted = [], sm_expiring = [], sm_deactive = []\<rparr>"

text \<open>One turn of the loop of \<open>computeClientsSummary\<close>; an absent counter is 0.\<close>

definition summary_step :: "string list \<Rightarrow> int \<Rightarrow> int \<Rightarrow> int \<Rightarrow> client_stat_row \<Rightarrow> clients_summary \<Rightarrow> clients_summary" where
  "summary_step onlineSet expireDiffMs trafficDiffBytes now c s =
     (let email = cr_email c; used = cr_up c + cr_down c; total = cr_total c;
          exhausted = (total > 0 \<and> used \<ge> total); expired = (cr_expiryTime c > 0 \<and> cr_expiryTime c \<le> now);
          nearExpiry = (cr_expiryTime c > 0 \<and> cr_expiryTime c - now < expireDiffMs);
          nearLimit = (total > 0 \<and> total - used < trafficDiffBytes)
      in if email = [] then s
         else let s = (if cr_enable c \<and> email \<in> set onlineSet then s\<lparr>sm_online := sm_online s @ [email]\<rparr> else s)
         in if exhausted \<or> expired then s\<lparr>sm_depleted := sm_depleted s @ [email]\<rparr>
            else if \<not> cr_enable c then s\<lparr>sm_deactive := sm_deactive s @ [email]\<rparr>
            else if nearExpiry \<or> nearLimit then s\<lparr>sm_expiring := sm_expiring s @ [email]\<rparr>
            else s\<lparr>sm_active := Suc (sm_active s)\<rparr>)"

definition computeClientsSummary :: "client_stat_row list \<Rightarrow> string list \<Rightarrow> int \<Rightarrow> int \<Rightarrow> int \<Rightarrow> clients_summary" where
  "computeClientsSummary stats onlineSet expireDiffMs trafficDiffBytes now =
     fold (summary_step onlineSet expireDiffMs trafficDiffBytes now) stats (DEFAULT_SUMMARY\<lparr>sm_total := length stats\<rparr>)"

text \<open>The summary the page shows: the server's for resellers and until the first event, else the live one.\<close>

definition shown_summary :: "string \<Rightarrow> clients_summary option \<Rightarrow> client_stat_row list \<Rightarrow> string list \<Rightarrow> int \<Rightarrow> int \<Rightarrow> int \<Rightarrow> clients_summary" where
  "shown_summary role server allClientStats onlines expireDiff trafficDiff now =
     (let serverSummary = (case server of None \<Rightarrow> DEFAULT_SUMMARY | Some s \<Rightarrow> s)
      in if role = ''reseller'' \<or> allClientStats = [] then serverSummary
         else let live = computeClientsSummary allClientStats onlines expireDiff trafficDiff now
              in live\<lparr>sm_total := (if sm_total serverSummary \<noteq> 0 then sm_total serverSummary else sm_total live)\<rparr>)"

section \<open>Permissions\<close>

definition PERMISSIONS :: "string list" where
  "PERMISSIONS = [''inbounds.view'', ''inbounds.manage'', ''clients.view'', ''clients.manage'', ''plans.manage'', ''groups.manage'',
     ''hosts.manage'', ''nodes.manage'', ''settings.manage'', ''xray.manage'', ''admins.manage'', ''inbounds.scoped'']"

definition BUILTIN :: "string \<Rightarrow> string list option" where
  "BUILTIN role = map_of
    [(''super_admin'', [''inbounds.view'', ''inbounds.manage'', ''clients.view'', ''clients.manage'', ''plans.manage'', ''groups.manage'',
        ''hosts.manage'', ''nodes.manage'', ''settings.manage'', ''xray.manage'', ''admins.manage'']),
     (''manager'', [''inbounds.view'', ''inbounds.manage'', ''clients.view'', ''clients.manage'', ''plans.manage'', ''groups.manage'',
        ''hosts.manage'']),
     (''reseller'', [''inbounds.view'', ''clients.view'', ''clients.manage'', ''groups.manage'', ''inbounds.scoped'']),
     (''readonly'', [''inbounds.view'', ''clients.view''])] role"

text \<open>The page's \<open>X_UI_PERMS\<close>, \<open>X_UI_ROLE\<close> and \<open>X_UI_ROLE_NAME\<close>; an absent text is empty.\<close>

record page_role =
  pr_perms :: "string list option"
  pr_role :: string
  pr_name :: string

definition currentPermissions :: "page_role \<Rightarrow> string list" where
  "currentPermissions w =
     (case pr_perms w of Some ps \<Rightarrow> ps
      | None \<Rightarrow> (let role = (if pr_role w \<noteq> [] then pr_role w else ''super_admin'')
                 in case BUILTIN role of Some ps \<Rightarrow> ps | None \<Rightarrow> the (BUILTIN ''super_admin'')))"

definition can :: "page_role \<Rightarrow> string \<Rightarrow> bool" where
  "can w perm \<longleftrightarrow> perm \<in> set (currentPermissions w)"

definition isScoped :: "page_role \<Rightarrow> bool" where
  "isScoped w \<longleftrightarrow> can w ''inbounds.scoped''"

definition currentRoleName :: "page_role \<Rightarrow> string" where
  "currentRoleName w = (if pr_name w \<noteq> [] then pr_name w else if pr_role w \<noteq> [] then pr_role w else ''super_admin'')"

section \<open>The query of the list\<close>

record client_query =
  cq_page :: int
  cq_pageSize :: int
  cq_search :: "string option"
  cq_filter :: "string option"
  cq_protocol :: "string option"
  cq_inbound :: "string option"
  cq_sort :: "string option"
  cq_order :: "string option"
  cq_expiryFrom :: "int option"
  cq_expiryTo :: "int option"
  cq_usageFrom :: "int option"
  cq_usageTo :: "int option"
  cq_autoRenew :: "string option"
  cq_hasTgId :: "string option"
  cq_hasComment :: "string option"
  cq_group :: "string option"

definition text_or_empty :: "string option \<Rightarrow> string" where
  "text_or_empty x = (case x of None \<Rightarrow> [] | Some s \<Rightarrow> s)"

definition number_or_zero :: "int option \<Rightarrow> int" where
  "number_or_zero x = (case x of None \<Rightarrow> 0 | Some i \<Rightarrow> i)"

definition set_text :: "string \<Rightarrow> string option \<Rightarrow> query_params \<Rightarrow> query_params" where
  "set_text k x sp = (if text_or_empty x \<noteq> [] then params_set k (text_or_empty x) sp else sp)"

definition set_positive :: "string \<Rightarrow> int option \<Rightarrow> query_params \<Rightarrow> query_params" where
  "set_positive k x sp = (if number_or_zero x > 0 then params_set k (int_str (number_or_zero x)) sp else sp)"

definition query_pairs :: "client_query \<Rightarrow> query_params" where
  "query_pairs q =
     (let sp = params_set ''page'' (int_str (if cq_page q \<noteq> 0 then cq_page q else 1)) [];
          sp = params_set ''pageSize'' (int_str (if cq_pageSize q \<noteq> 0 then cq_pageSize q else 25)) sp;
          sp = set_text ''search'' (cq_search q) sp; sp = set_text ''filter'' (cq_filter q) sp;
          sp = set_text ''protocol'' (cq_protocol q) sp; sp = set_text ''inbound'' (cq_inbound q) sp;
          sp = set_text ''sort'' (cq_sort q) sp; sp = set_text ''order'' (cq_order q) sp;
          sp = set_positive ''expiryFrom'' (cq_expiryFrom q) sp; sp = set_positive ''expiryTo'' (cq_expiryTo q) sp;
          sp = set_positive ''usageFrom'' (cq_usageFrom q) sp; sp = set_positive ''usageTo'' (cq_usageTo q) sp;
          sp = set_text ''autoRenew'' (cq_autoRenew q) sp; sp = set_text ''hasTgId'' (cq_hasTgId q) sp;
          sp = set_text ''hasComment'' (cq_hasComment q) sp
      in set_text ''group'' (cq_group q) sp)"

definition buildQS :: "client_query \<Rightarrow> string" where
  "buildQS q = params_string (query_pairs q)"

definition same_query :: "client_query \<Rightarrow> client_query \<Rightarrow> bool" where
  "same_query p n \<longleftrightarrow> cq_page p = cq_page n \<and> cq_pageSize p = cq_pageSize n
     \<and> text_or_empty (cq_search p) = text_or_empty (cq_search n) \<and> text_or_empty (cq_filter p) = text_or_empty (cq_filter n)
     \<and> text_or_empty (cq_protocol p) = text_or_empty (cq_protocol n) \<and> text_or_empty (cq_inbound p) = text_or_empty (cq_inbound n)
     \<and> text_or_empty (cq_sort p) = text_or_empty (cq_sort n) \<and> text_or_empty (cq_order p) = text_or_empty (cq_order n)
     \<and> number_or_zero (cq_expiryFrom p) = number_or_zero (cq_expiryFrom n)
     \<and> number_or_zero (cq_expiryTo p) = number_or_zero (cq_expiryTo n)
     \<and> number_or_zero (cq_usageFrom p) = number_or_zero (cq_usageFrom n)
     \<and> number_or_zero (cq_usageTo p) = number_or_zero (cq_usageTo n)
     \<and> text_or_empty (cq_autoRenew p) = text_or_empty (cq_autoRenew n) \<and> text_or_empty (cq_hasTgId p) = text_or_empty (cq_hasTgId n)
     \<and> text_or_empty (cq_hasComment p) = text_or_empty (cq_hasComment n) \<and> text_or_empty (cq_group p) = text_or_empty (cq_group n)"

definition setQuery :: "client_query \<Rightarrow> client_query \<Rightarrow> client_query" where
  "setQuery next_query prev = (if same_query prev next_query then prev else next_query)"

section \<open>The cached page of clients\<close>

record traffic_row =
  tr_up :: "int option"
  tr_down :: "int option"
  tr_total :: "int option"
  tr_expiryTime :: "int option"
  tr_enable :: "bool option"
  tr_lastOnline :: "int option"

record client_item =
  it_email :: string
  it_traffic :: "traffic_row option"
  it_other :: jobj

definition no_traffic :: traffic_row where
  "no_traffic = \<lparr>tr_up = None, tr_down = None, tr_total = None, tr_expiryTime = None, tr_enable = None, tr_lastOnline = None\<rparr>"

definition newer :: "'a option \<Rightarrow> 'a option \<Rightarrow> 'a option" where
  "newer upd old = (case upd of None \<Rightarrow> old | Some v \<Rightarrow> Some v)"

definition merge_traffic :: "traffic_row \<Rightarrow> traffic_row option \<Rightarrow> traffic_row" where
  "merge_traffic upd old =
     (let m = (case old of None \<Rightarrow> no_traffic | Some t \<Rightarrow> t)
      in \<lparr>tr_up = newer (tr_up upd) (tr_up m), tr_down = newer (tr_down upd) (tr_down m), tr_total = newer (tr_total upd) (tr_total m),
          tr_expiryTime = newer (tr_expiryTime upd) (tr_expiryTime m), tr_enable = newer (tr_enable upd) (tr_enable m),
          tr_lastOnline = newer (tr_lastOnline upd) (tr_lastOnline m)\<rparr>)"

definition merge_item :: "(string \<times> traffic_row) list \<Rightarrow> client_item \<Rightarrow> client_item" where
  "merge_item event it =
     (case map_of (rev (filter (\<lambda>p. fst p \<noteq> []) event)) (it_email it) of
        None \<Rightarrow> it | Some upd \<Rightarrow> it\<lparr>it_traffic := Some (merge_traffic upd (it_traffic it))\<rparr>)"

text \<open>\<open>applyClientStatsEvent\<close> on the cached page: an event without clients leaves it.\<close>

definition merge_page :: "(string \<times> traffic_row) list \<Rightarrow> client_item list \<Rightarrow> client_item list" where
  "merge_page event items = (if event = [] then items else map (merge_item event) items)"

section \<open>The enable switch\<close>

text \<open>\<open>setEnable\<close>: the update posted for a client is built from its stored record.\<close>

definition number_or_default :: "jv \<Rightarrow> jv" where
  "number_or_default v = (let n = (case v of JNum n \<Rightarrow> n | JStr s \<Rightarrow> js_number s | JBool b \<Rightarrow> num (if b then 1 else 0) | JNull \<Rightarrow> num 0 | _ \<Rightarrow> NaN)
     in if num_truthy n then JNum n else JNum (num 0))"

definition truthy_or :: "jv \<Rightarrow> jv \<Rightarrow> jv" where
  "truthy_or v d = (if truthy v then v else d)"

definition enable_payload :: "jobj \<Rightarrow> bool \<Rightarrow> jobj" where
  "enable_payload base enable =
     [(''email'', oget base ''email''), (''subId'', oget base ''subId''), (''id'', oget base ''uuid''), (''password'', oget base ''password''),
      (''auth'', oget base ''auth''), (''flow'', truthy_or (oget base ''flow'') (JStr [])),
      (''security'', truthy_or (oget base ''security'') (JStr ''auto'')), (''totalGB'', truthy_or (oget base ''totalGB'') (JNum (num 0))),
      (''expiryTime'', truthy_or (oget base ''expiryTime'') (JNum (num 0))), (''limitIp'', truthy_or (oget base ''limitIp'') (JNum (num 0))),
      (''tgId'', number_or_default (oget base ''tgId'')), (''reset'', number_or_default (oget base ''reset'')),
      (''group'', truthy_or (oget base ''group'') (JStr [])), (''comment'', truthy_or (oget base ''comment'') (JStr [])),
      (''enable'', JBool enable)]
     @ (case oget base ''reverse'' of
          JObj rv \<Rightarrow> if truthy (oget rv ''tag'') then [(''reverse'', JObj [(''tag'', oget rv ''tag'')])] else []
        | _ \<Rightarrow> [])"

end
