(* ===== verification/Client_Laws.thy ===== *)
theory Client_Laws
  imports Live_Clients
begin

text \<open>
  What the clients page promises: its live summary counts every client once and agrees with the
  rollups of the inbounds page, an unchanged query is recognised as such, and a query reaches the
  server as it was set.
\<close>

section \<open>The live summary\<close>

lemma summed:
  "let s' = fold (summary_step on ed td now) rows s; n = filter (\<lambda>c. cr_email c \<noteq> []) rows in
     sm_total s' = sm_total s
     \<and> length (sm_depleted s') + length (sm_deactive s') + length (sm_expiring s') + sm_active s'
        = length (sm_depleted s) + length (sm_deactive s) + length (sm_expiring s) + sm_active s + length n
     \<and> sm_online s' = sm_online s @ map cr_email (filter (\<lambda>c. cr_enable c \<and> cr_email c \<in> set on) n)"
proof (induction rows arbitrary: s)
  case (Cons c rows)
  show ?case using Cons [of "summary_step on ed td now c s"] by (auto simp: Let_def summary_step_def)
qed simp

text \<open>The rows of the statistics event for the clients of an inbound.\<close>

definition row_of_client :: "db_inbound \<Rightarrow> live_client \<Rightarrow> client_stat_row" where
  "row_of_client row c = (let st = the (client_stats_of row c) in
     \<lparr>cr_email = lc_email c, cr_up = cs_up st, cr_down = cs_down st, cr_total = cs_total st,
      cr_expiryTime = cs_expiryTime st, cr_enable = lc_enable c\<rparr>)"

lemma summary_of_clients:
  assumes "list_all (\<lambda>c. lc_email c \<noteq> [] \<and> client_stats_of row c \<noteq> None) cs"
  shows "let s' = fold (summary_step on (lr_expireDiff r) (lr_trafficDiff r) now) (map (row_of_client row) cs) s in
     sm_depleted s' = sm_depleted s @ emails_where (client_depleted now row) cs
     \<and> sm_deactive s' = sm_deactive s @ emails_where (\<lambda>c. \<not> client_depleted now row c \<and> \<not> lc_enable c) cs
     \<and> sm_expiring s' = sm_expiring s @ emails_where (\<lambda>c. (\<not> client_depleted now row c \<and> lc_enable c)
         \<and> stats_expiring r now (client_stats_of row c)) cs
     \<and> sm_active s' + length (emails_where (\<lambda>c. (\<not> client_depleted now row c \<and> lc_enable c)
         \<and> stats_expiring r now (client_stats_of row c)) cs)
       = sm_active s + length (emails_where (\<lambda>c. \<not> client_depleted now row c \<and> lc_enable c) cs)"
  using assms
proof (induction cs arbitrary: s)
  case (Cons c cs)
  obtain st where st: "client_stats_of row c = Some st" using Cons.prems by auto
  have e: "lc_email c \<noteq> []" using Cons.prems by simp
  have d: "client_depleted now row c \<longleftrightarrow> cs_expiryTime st > 0 \<and> cs_expiryTime st \<le> now \<or> cs_total st > 0 \<and> cs_up st + cs_down st \<ge> cs_total st"
    by (auto simp: client_depleted_def st stats_expired_def stats_exhausted_def)
  have x: "stats_expiring r now (client_stats_of row c) \<longleftrightarrow> cs_expiryTime st > 0 \<and> cs_expiryTime st - now < lr_expireDiff r
      \<or> cs_total st > 0 \<and> cs_total st - (cs_up st + cs_down st) < lr_trafficDiff r"
    by (simp add: st stats_expiring_def)
  let ?s = "summary_step on (lr_expireDiff r) (lr_trafficDiff r) now (row_of_client row c) s"
  have step: "sm_depleted ?s = sm_depleted s @ (if client_depleted now row c then [lc_email c] else [])"
    "sm_deactive ?s = sm_deactive s @ (if \<not> client_depleted now row c \<and> \<not> lc_enable c then [lc_email c] else [])"
    "sm_expiring ?s = sm_expiring s @ (if (\<not> client_depleted now row c \<and> lc_enable c)
        \<and> stats_expiring r now (client_stats_of row c) then [lc_email c] else [])"
    "sm_active ?s = sm_active s + (if (\<not> client_depleted now row c \<and> lc_enable c)
        \<and> \<not> stats_expiring r now (client_stats_of row c) then 1 else 0)"
    unfolding d x using e by (auto simp: summary_step_def row_of_client_def st Let_def)
  have "list_all (\<lambda>c. lc_email c \<noteq> [] \<and> client_stats_of row c \<noteq> None) cs" using Cons.prems by simp
  from Cons.IH [OF this, of ?s] show ?case using e by (auto simp: Let_def step)
qed simp

text \<open>C22: The two pages agree. For an enabled inbound whose clients all have statistics, the live summary of the
  clients page puts the same clients under depleted, disabled and expiring as the inbound's rollup,
  in the same order; it counts as active the rollup's active clients that are not expiring; its groups
  cover all clients once.\<close>
theorem summary_agrees_with_rollup:
  assumes "db_enable row" and "list_all (\<lambda>c. lc_email c \<noteq> [] \<and> client_stats_of row c \<noteq> None) cs"
    and "s = computeClientsSummary (map (row_of_client row) cs) onlines (lr_expireDiff r) (lr_trafficDiff r) now"
    and "ru = rollupClients r now row cs"
  shows "sm_depleted s = ru_depleted ru \<and> sm_deactive s = ru_deactive ru \<and> sm_expiring s = ru_expiring ru
    \<and> sm_active s + length (ru_expiring ru) = length (ru_active ru)
    \<and> sm_total s = length cs
    \<and> length (sm_depleted s) + length (sm_deactive s) + length (sm_expiring s) + sm_active s = length cs"
proof -
  note a = summary_of_clients [OF assms(2), of onlines r now "DEFAULT_SUMMARY\<lparr>sm_total := length cs\<rparr>", unfolded Let_def DEFAULT_SUMMARY_def, simplified]
  note b = rollup_groups [where r = r and now = now and row = row and cs = cs and n = "length cs"]
  note c = summed [of onlines "lr_expireDiff r" "lr_trafficDiff r" now "map (row_of_client row) cs" "DEFAULT_SUMMARY\<lparr>sm_total := length cs\<rparr>",
      unfolded Let_def DEFAULT_SUMMARY_def, simplified]
  have f: "filter (\<lambda>x. cr_email (row_of_client row x) \<noteq> []) cs = cs"
    using assms(2) by (intro filter_True) (auto simp: list_all_iff row_of_client_def Let_def)
  have ru: "ru = fold (roll_client r now row) cs
      \<lparr>ru_clients = length cs, ru_active = [], ru_deactive = [], ru_depleted = [], ru_expiring = [], ru_online = [], ru_comments = []\<rparr>"
    using assms(1,4) by (simp add: rollupClients_def empty_rollup_def)
  have s: "s = fold (summary_step onlines (lr_expireDiff r) (lr_trafficDiff r) now) (map (row_of_client row) cs)
      \<lparr>sm_total = length cs, sm_active = 0, sm_online = [], sm_depleted = [], sm_expiring = [], sm_deactive = []\<rparr>"
    by (simp add: assms(3) computeClientsSummary_def DEFAULT_SUMMARY_def)
  show ?thesis unfolding ru s using a b c f by (simp add: filter_map comp_def)
qed

theorem summary_agrees_with_rollup_witness:
  "sm_depleted (computeClientsSummary (map (row_of_client sample_row) [\<lparr>lc_email = ''a'', lc_enable = True, lc_comment = []\<rparr>])
        [] (lr_expireDiff (lp_refs blank_page)) (lr_trafficDiff (lp_refs blank_page)) 0)
      = ru_depleted (rollupClients (lp_refs blank_page) 0 sample_row [\<lparr>lc_email = ''a'', lc_enable = True, lc_comment = []\<rparr>])"
proof -
  have s: "client_stats_of sample_row \<lparr>lc_email = ''a'', lc_enable = True, lc_comment = []\<rparr> = Some sample_stats"
    by (simp add: client_stats_of_def stats_by_email_def sample_row_def sample_stats_def to_lower_def lower_char_def is_upper_def)
  have "db_enable sample_row" by (simp add: sample_row_def blank_inbound_def)
  thus ?thesis
    using summary_agrees_with_rollup [OF _ _ refl refl, of sample_row "[\<lparr>lc_email = ''a'', lc_enable = True, lc_comment = []\<rparr>]"
        "[]" "lp_refs blank_page" 0] s by simp
qed

section \<open>Scoped accounts\<close>

lemma reseller_sees_server_summary:
  "shown_summary ''reseller'' (Some s) stats onlines ed td now = s"
  by (simp add: shown_summary_def)

text \<open>A custom role with the permission \<open>inbounds.scoped\<close> is scoped, and is shown the summary of the whole panel.\<close>

lemma scoped_role_sees_panel_summary:
  "let w = \<lparr>pr_perms = Some [''clients.view'', ''inbounds.scoped''], pr_role = ''custom'', pr_name = ''Partner''\<rparr>;
       other = \<lparr>cr_email = ''other'', cr_up = 0, cr_down = 0, cr_total = 0, cr_expiryTime = 0, cr_enable = False\<rparr>
   in isScoped w \<and> sm_deactive (shown_summary (pr_role w) (Some DEFAULT_SUMMARY) [other] [] 0 0 0) = [''other'']"
  by (simp add: isScoped_def can_def currentPermissions_def shown_summary_def computeClientsSummary_def summary_step_def DEFAULT_SUMMARY_def
      Let_def)

section \<open>Queries\<close>

lemma same_query_pairs: "same_query p q \<Longrightarrow> query_pairs p = query_pairs q"
  unfolding same_query_def query_pairs_def set_text_def set_positive_def Let_def by (simp only: simp_thms)

definition query_texts :: "client_query \<Rightarrow> string list" where
  "query_texts q = map text_or_empty [cq_search q, cq_filter q, cq_protocol q, cq_inbound q, cq_sort q, cq_order q, cq_autoRenew q,
     cq_hasTgId q, cq_hasComment q, cq_group q]"

lemma set_text_get [simp]:
  "params_get (set_text k x sp) j = (if j = k \<and> text_or_empty x \<noteq> [] then Some (text_or_empty x) else params_get sp j)"
  by (simp add: set_text_def params.get_put)

lemma set_positive_get [simp]:
  "params_get (set_positive k x sp) j = (if j = k \<and> number_or_zero x > 0 then Some (int_str (number_or_zero x)) else params_get sp j)"
  by (simp add: set_positive_def params.get_put)

definition texts_ok :: "query_params \<Rightarrow> bool" where
  "texts_ok ps \<longleftrightarrow> (\<forall>(k, v) \<in> set ps. valid_text k \<and> valid_text v)"

lemma texts_ok_set: "texts_ok ps \<Longrightarrow> valid_text k \<Longrightarrow> valid_text v \<Longrightarrow> texts_ok (params_set k v ps)"
proof -
  have "set (params_set k v ps) \<subseteq> insert (k, v) (set ps)" by (induction k v ps rule: params_set.induct) auto
  thus "texts_ok ps \<Longrightarrow> valid_text k \<Longrightarrow> valid_text v \<Longrightarrow> texts_ok (params_set k v ps)" by (auto simp: texts_ok_def)
qed

lemma int_text: "valid_text (int_str i)"
proof -
  have "code c < 128" if "c \<in> set (nat_str n)" for n c using nat_str_digits [OF that] by (simp add: is_digit_def)
  thus ?thesis by (intro ascii_valid) (auto simp: ascii_text_def list_all_iff int_str_def)
qed

lemma texts_ok_text: "texts_ok ps \<Longrightarrow> ascii_text k \<Longrightarrow> valid_text (text_or_empty x) \<Longrightarrow> texts_ok (set_text k x ps)"
  by (simp add: set_text_def texts_ok_set ascii_valid)

lemma texts_ok_positive: "texts_ok ps \<Longrightarrow> ascii_text k \<Longrightarrow> texts_ok (set_positive k x ps)"
  by (simp add: set_positive_def texts_ok_set ascii_valid int_text)

lemma query_texts_ok:
  assumes "list_all valid_text (query_texts q)"
  shows "texts_ok (query_pairs q)"
  using assms unfolding query_pairs_def Let_def query_texts_def
  by (intro texts_ok_text texts_ok_positive texts_ok_set int_text) (simp_all add: texts_ok_def ascii_text_def ascii_valid)

text \<open>A list query reaches the server as it was set: the parameters parsed from the request are the ones the
  page put in, page and page size are always there (1 and 25 when unset), an empty text or
  a bound that is not positive is left out; and a new query object that the page takes for the old one
  would have asked the same question.\<close>
theorem query_reaches_server:
  assumes "list_all valid_text (query_texts q)"
  shows "params_parse (buildQS q) = query_pairs q
    \<and> params_get (query_pairs q) ''page'' = Some (int_str (if cq_page q \<noteq> 0 then cq_page q else 1))
    \<and> params_get (query_pairs q) ''pageSize'' = Some (int_str (if cq_pageSize q \<noteq> 0 then cq_pageSize q else 25))
    \<and> params_get (query_pairs q) ''search'' = (if text_or_empty (cq_search q) = [] then None else Some (text_or_empty (cq_search q)))
    \<and> params_get (query_pairs q) ''usageTo''
        = (if number_or_zero (cq_usageTo q) > 0 then Some (int_str (number_or_zero (cq_usageTo q))) else None)
    \<and> buildQS (setQuery q p) = buildQS q"
proof -
  have "params_parse (buildQS q) = query_pairs q"
    unfolding buildQS_def using query_texts_ok [OF assms] by (intro params_roundtrip) (simp add: texts_ok_def)
  moreover have "buildQS (setQuery q p) = buildQS q" by (simp add: setQuery_def buildQS_def same_query_pairs)
  moreover have "params_get (query_pairs q) ''page'' = Some (int_str (if cq_page q \<noteq> 0 then cq_page q else 1))"
    "params_get (query_pairs q) ''pageSize'' = Some (int_str (if cq_pageSize q \<noteq> 0 then cq_pageSize q else 25))"
    "params_get (query_pairs q) ''search'' = (if text_or_empty (cq_search q) = [] then None else Some (text_or_empty (cq_search q)))"
    "params_get (query_pairs q) ''usageTo''
        = (if number_or_zero (cq_usageTo q) > 0 then Some (int_str (number_or_zero (cq_usageTo q))) else None)"
    unfolding query_pairs_def Let_def by (simp_all add: params.get_put) (simp_all add: params_get_def)
  ultimately show ?thesis by simp
qed

definition sample_query :: client_query where
  "sample_query = \<lparr>cq_page = 2, cq_pageSize = 0, cq_search = Some ''a b'', cq_filter = None, cq_protocol = None, cq_inbound = None,
     cq_sort = None, cq_order = None, cq_expiryFrom = None, cq_expiryTo = None, cq_usageFrom = None, cq_usageTo = Some 5,
     cq_autoRenew = None, cq_hasTgId = None, cq_hasComment = None, cq_group = None\<rparr>"

theorem query_reaches_server_witness:
  "params_parse (buildQS sample_query) = [(''page'', ''2''), (''pageSize'', ''25''), (''search'', ''a b''), (''usageTo'', ''5'')]"
proof -
  have v: "valid_text ''a b''" "valid_text []" by (rule ascii_valid, simp add: ascii_text_def)+
  have "list_all valid_text (query_texts sample_query)" by (simp add: query_texts_def sample_query_def text_or_empty_def v)
  moreover have "query_pairs sample_query = [(''page'', ''2''), (''pageSize'', ''25''), (''search'', ''a b''), (''usageTo'', ''5'')]" by code_simp
  ultimately show ?thesis using query_reaches_server [of sample_query sample_query] by simp
qed

section \<open>Merging\<close>

lemma newer_again [simp]: "newer u (newer u x) = newer u x"
  by (simp add: newer_def split: option.split)

lemma merge_page_again: "merge_page e (merge_page e items) = merge_page e items"
  by (auto simp: merge_page_def merge_item_def merge_traffic_def Let_def split: option.split)

text \<open>The enable switch posts a record without the client's device limit, which the server then stores as 0.\<close>

lemma enable_switch_drops_hwid_limit:
  "oget (enable_payload [(''email'', JStr ''a''), (''hwidLimit'', JNum (num 3)), (''limitIp'', JNum (num 2))] True) ''hwidLimit'' = JUndef"
  "oget (enable_payload [(''email'', JStr ''a''), (''hwidLimit'', JNum (num 3)), (''limitIp'', JNum (num 2))] True) ''limitIp'' = JNum (num 2)"
  by (simp_all add: enable_payload_def oget_def truthy_or_def num_truthy_def)

end
