(* ===== verification/Client_Form.thy ===== *)
theory Client_Form
  imports Client_Laws Sub_Branding Random_Util
begin

text \<open>
  Editing a client: the form of \<open>frontend/src/pages/clients/ClientFormModal.tsx\<close> (opening a stored client,
  the effects that run while it is open, the payload it submits), the saving sequence \<open>onSave\<close> and
  the filters of \<open>ClientsPage.tsx\<close> with \<open>filters.ts\<close>. Quotas in GB are exact fractions (the
  source's doubles agree with them up to 128 TB); the server's API is a parameter, a function of its
  state that tells whether a call succeeded.
\<close>

section \<open>Records\<close>

record client_record =
  rc_email :: string
  rc_subId :: string
  rc_uuid :: string
  rc_password :: string
  rc_auth :: string
  rc_flow :: string
  rc_security :: string
  rc_reverseTag :: string
  rc_totalGB :: int
  rc_expiryTime :: int
  rc_reset :: int
  rc_limitIp :: int
  rc_hwidLimit :: int
  rc_tgId :: int
  rc_group :: string
  rc_comment :: string
  rc_enable :: bool

text \<open>An external link of a client: whether it is a subscription, its address and its remark.\<close>

record external_link =
  el_subscription :: bool
  el_value :: string
  el_remark :: string

record client_form =
  cf_email :: string
  cf_subId :: string
  cf_uuid :: string
  cf_password :: string
  cf_auth :: string
  cf_flow :: string
  cf_security :: string
  cf_reverseTag :: string
  cf_totalGB :: rat
  cf_expiryDate :: "int option"
  cf_delayedStart :: bool
  cf_delayedDays :: int
  cf_reset :: int
  cf_limitIp :: int
  cf_hwidLimit :: int
  cf_tgId :: int
  cf_group :: string
  cf_comment :: string
  cf_enable :: bool
  cf_inboundIds :: "int list"
  cf_externalLinks :: "(bool \<times> string) list"

record inbound_option =
  io_id :: int
  io_protocol :: string
  io_tag :: string
  io_remark :: string
  io_tlsFlowCapable :: bool
  io_ssMethod :: string
  io_nodeId :: "int option"

definition emptyForm :: client_form where
  "emptyForm = \<lparr>cf_email = [], cf_subId = [], cf_uuid = [], cf_password = [], cf_auth = [], cf_flow = [], cf_security = ''auto'',
     cf_reverseTag = [], cf_totalGB = 0, cf_expiryDate = None, cf_delayedStart = False, cf_delayedDays = 0, cf_reset = 0, cf_limitIp = 0,
     cf_hwidLimit = 0, cf_tgId = 0, cf_group = [], cf_comment = [], cf_enable = True, cf_inboundIds = [], cf_externalLinks = []\<rparr>"

definition GIB :: int where
  "GIB = 1073741824"

definition DAY_MS :: int where
  "DAY_MS = 86400000"

definition bytesToGB :: "int \<Rightarrow> rat" where
  "bytesToGB bytes = (if bytes \<le> 0 then 0 else of_int (math_round (of_int bytes / of_int GIB * 100)) / 100)"

definition gbToBytes :: "rat \<Rightarrow> int" where
  "gbToBytes gb = (if gb \<le> 0 then 0 else math_round (gb * of_int GIB))"

section \<open>Opening the form\<close>

definition toExternalLinkRows :: "external_link list \<Rightarrow> (bool \<times> string) list" where
  "toExternalLinkRows = map (\<lambda>l. (el_subscription l, el_value l))"

definition or_text :: "string \<Rightarrow> string \<Rightarrow> string" where
  "or_text s d = (if s = [] then d else s)"

definition open_client :: "client_record \<Rightarrow> int list \<Rightarrow> external_link list \<Rightarrow> client_form" where
  "open_client c attachedIds links =
     (let et = rc_expiryTime c;
          form = emptyForm\<lparr>cf_email := rc_email c, cf_subId := rc_subId c, cf_uuid := rc_uuid c, cf_password := rc_password c,
            cf_auth := rc_auth c, cf_flow := rc_flow c, cf_security := or_text (rc_security c) ''auto'', cf_reverseTag := rc_reverseTag c,
            cf_totalGB := bytesToGB (rc_totalGB c), cf_reset := rc_reset c, cf_limitIp := rc_limitIp c, cf_hwidLimit := rc_hwidLimit c,
            cf_tgId := rc_tgId c, cf_group := rc_group c, cf_comment := rc_comment c, cf_enable := rc_enable c,
            cf_inboundIds := attachedIds, cf_externalLinks := toExternalLinkRows links\<rparr>
      in if et < 0
         then form\<lparr>cf_delayedStart := True, cf_delayedDays := math_round (of_int et / of_int (- DAY_MS)), cf_expiryDate := None\<rparr>
         else form\<lparr>cf_delayedStart := False, cf_delayedDays := 0, cf_expiryDate := (if et > 0 then Some et else None)\<rparr>)"

text \<open>A new client: the five random texts are parameters.\<close>

definition new_client_form :: "string \<Rightarrow> string \<Rightarrow> string \<Rightarrow> string \<Rightarrow> string \<Rightarrow> client_form" where
  "new_client_form email uuid subId password auth =
     emptyForm\<lparr>cf_email := email, cf_uuid := uuid, cf_subId := subId, cf_password := password, cf_auth := auth\<rparr>"

record client_plan =
  pl_totalGB :: rat
  pl_limitIp :: int
  pl_reset :: int
  pl_durationDays :: int

text \<open>\<open>dayjs().add(n, 'day')\<close> is a parameter: the calendar of the browser's time zone.\<close>

definition applyPlan :: "(int \<Rightarrow> int) \<Rightarrow> client_plan \<Rightarrow> client_form \<Rightarrow> client_form" where
  "applyPlan days_from_now plan form =
     form\<lparr>cf_totalGB := pl_totalGB plan, cf_limitIp := pl_limitIp plan, cf_reset := pl_reset plan, cf_delayedStart := False,
       cf_expiryDate := (if pl_durationDays plan > 0 then Some (days_from_now (pl_durationDays plan)) else None)\<rparr>"

section \<open>Effects\<close>

definition some_inbound :: "(inbound_option \<Rightarrow> bool) \<Rightarrow> inbound_option list \<Rightarrow> client_form \<Rightarrow> bool" where
  "some_inbound P inbounds form \<longleftrightarrow> list_ex (\<lambda>i. i \<in> io_id ` set (filter P inbounds)) (cf_inboundIds form)"

definition showFlow :: "inbound_option list \<Rightarrow> client_form \<Rightarrow> bool" where
  "showFlow = some_inbound io_tlsFlowCapable"

definition showReverseTag :: "inbound_option list \<Rightarrow> client_form \<Rightarrow> bool" where
  "showReverseTag = some_inbound (\<lambda>ib. io_protocol ib = ''vless'')"

definition showSecurity :: "inbound_option list \<Rightarrow> client_form \<Rightarrow> bool" where
  "showSecurity = some_inbound (\<lambda>ib. io_protocol ib = ''vmess'')"

definition option_method :: "inbound_option list \<Rightarrow> int \<Rightarrow> string" where
  "option_method inbounds i = (case find (\<lambda>ib. io_id ib = i) inbounds of None \<Rightarrow> [] | Some ib \<Rightarrow> io_ssMethod ib)"

definition ss2022Method :: "inbound_option list \<Rightarrow> client_form \<Rightarrow> string" where
  "ss2022Method inbounds form =
     (case find (\<lambda>m. m \<noteq> [] \<and> take 4 m = ''2022'') (map (option_method inbounds) (cf_inboundIds form)) of None \<Rightarrow> [] | Some m \<Rightarrow> m)"

text \<open>The effects after the attached inbounds change; \<open>fresh\<close> is the password the source draws for the method.\<close>

definition settle_form :: "string \<Rightarrow> inbound_option list \<Rightarrow> client_form \<Rightarrow> client_form" where
  "settle_form fresh inbounds form =
     (let form = (if \<not> showFlow inbounds form \<and> cf_flow form \<noteq> [] then form\<lparr>cf_flow := []\<rparr> else form);
          form = (if \<not> showReverseTag inbounds form \<and> cf_reverseTag form \<noteq> [] then form\<lparr>cf_reverseTag := []\<rparr> else form);
          m = ss2022Method inbounds form
      in if m = [] then form
         else if isShadowsocks2022Password (cf_password form) m then form else form\<lparr>cf_password := fresh\<rparr>)"

section \<open>Submitting\<close>

definition hasForbiddenClientChars :: "string \<Rightarrow> bool" where
  "hasForbiddenClientChars s \<longleftrightarrow>
     list_ex (\<lambda>c. c = CHR ''/'' \<or> c = CHR 0x5C \<or> c = CHR '' '' \<or> code c < 0x20 \<or> code c = 0x7F) s"

text \<open>\<open>ClientFormSchema\<close>, and its extension for a new client.\<close>

definition form_valid :: "bool \<Rightarrow> client_form \<Rightarrow> bool" where
  "form_valid isEdit f \<longleftrightarrow> trim (cf_email f) \<noteq> [] \<and> \<not> hasForbiddenClientChars (trim (cf_email f)) \<and> \<not> hasForbiddenClientChars (cf_subId f)
     \<and> 0 \<le> cf_totalGB f \<and> 0 \<le> cf_delayedDays f \<and> 0 \<le> cf_reset f \<and> 0 \<le> cf_limitIp f \<and> 0 \<le> cf_hwidLimit f \<and> 0 \<le> cf_tgId f
     \<and> (isEdit \<or> cf_inboundIds f \<noteq> [])"

definition submit_expiry :: "client_form \<Rightarrow> int" where
  "submit_expiry f = (if cf_delayedStart f then - DAY_MS * cf_delayedDays f
     else case cf_expiryDate f of None \<Rightarrow> 0 | Some t \<Rightarrow> t)"

text \<open>The payload, in the shape the server stores.\<close>

definition client_payload :: "inbound_option list \<Rightarrow> client_form \<Rightarrow> client_record" where
  "client_payload inbounds f =
     \<lparr>rc_email = trim (cf_email f), rc_subId = cf_subId f, rc_uuid = cf_uuid f, rc_password = cf_password f, rc_auth = cf_auth f,
      rc_flow = (if showFlow inbounds f then cf_flow f else []),
      rc_security = (if showSecurity inbounds f then or_text (cf_security f) ''auto'' else ''auto''),
      rc_reverseTag = (if showReverseTag inbounds f then trim (cf_reverseTag f) else []),
      rc_totalGB = gbToBytes (cf_totalGB f), rc_expiryTime = submit_expiry f, rc_reset = cf_reset f, rc_limitIp = cf_limitIp f,
      rc_hwidLimit = cf_hwidLimit f, rc_tgId = cf_tgId f, rc_group = cf_group f, rc_comment = cf_comment f, rc_enable = cf_enable f\<rparr>"

definition submitted_links :: "client_form \<Rightarrow> external_link list" where
  "submitted_links f = filter (\<lambda>l. el_value l \<noteq> [])
     (map (\<lambda>(sub, v). \<lparr>el_subscription = sub, el_value = trim v, el_remark = []\<rparr>) (cf_externalLinks f))"

definition first_occurrences :: "'a list \<Rightarrow> 'a list" where
  "first_occurrences xs = rev (remdups (rev xs))"

text \<open>\<open>[...next].filter((id) => !original.has(id))\<close> and the converse, over sets in insertion order.\<close>

definition to_attach :: "int list \<Rightarrow> client_form \<Rightarrow> int list" where
  "to_attach attachedIds f = filter (\<lambda>i. i \<notin> set attachedIds) (first_occurrences (cf_inboundIds f))"

definition to_detach :: "int list \<Rightarrow> client_form \<Rightarrow> int list" where
  "to_detach attachedIds f = filter (\<lambda>i. i \<notin> set (cf_inboundIds f)) (first_occurrences attachedIds)"

section \<open>Saving\<close>

datatype api_call =
    Api_Create client_record "int list"
  | Api_Update string client_record
  | Api_Attach string "int list"
  | Api_Detach string "int list"
  | Api_Links string "external_link list"

type_synonym 's client_server = "api_call \<Rightarrow> 's \<Rightarrow> bool \<times> 's"

text \<open>A chain of awaited calls, each left out when it has nothing to do; the first failure ends it.\<close>

fun call_all :: "'s client_server \<Rightarrow> api_call list \<Rightarrow> 's \<Rightarrow> bool \<times> 's" where
  "call_all server [] s = (True, s)"
| "call_all server (c # cs) s = (case server c s of (ok, s') \<Rightarrow> if ok then call_all server cs s' else (False, s'))"

definition create_calls :: "string \<Rightarrow> client_record \<Rightarrow> int list \<Rightarrow> external_link list \<Rightarrow> api_call list" where
  "create_calls email payload inboundIds links =
     Api_Create payload inboundIds # (if email \<noteq> [] \<and> links \<noteq> [] then [Api_Links email links] else [])"

definition edit_calls :: "string \<Rightarrow> client_record \<Rightarrow> int list \<Rightarrow> int list \<Rightarrow> external_link list \<Rightarrow> api_call list" where
  "edit_calls email payload attach_ids detach_ids links =
     Api_Update email payload
     # (if attach_ids \<noteq> [] then [Api_Attach email attach_ids] else [])
     @ (if detach_ids \<noteq> [] then [Api_Detach email detach_ids] else [])
     @ [Api_Links email links]"

text \<open>\<open>onSubmit\<close> of an edit with \<open>onSave\<close>: the calls are addressed to the client's email before the edit.\<close>

definition submit_edit :: "'s client_server \<Rightarrow> inbound_option list \<Rightarrow> client_record \<Rightarrow> int list \<Rightarrow> client_form \<Rightarrow> 's \<Rightarrow> (bool \<times> 's) option" where
  "submit_edit server inbounds client attachedIds f s =
     (if \<not> form_valid True f then None
      else Some (call_all server (edit_calls (rc_email client) (client_payload inbounds f) (to_attach attachedIds f)
             (to_detach attachedIds f) (submitted_links f)) s))"

definition submit_new :: "'s client_server \<Rightarrow> inbound_option list \<Rightarrow> client_form \<Rightarrow> 's \<Rightarrow> (bool \<times> 's) option" where
  "submit_new server inbounds f s =
     (if \<not> form_valid False f then None
      else let payload = client_payload inbounds f
        in Some (call_all server (create_calls (rc_email payload) payload (cf_inboundIds f) (submitted_links f)) s))"

section \<open>Filters of the page\<close>

record client_filters =
  fl_buckets :: "string list"
  fl_protocols :: "string list"
  fl_inboundIds :: "int list"
  fl_nodeIds :: "int list"
  fl_groups :: "string list"
  fl_expiryFrom :: "int option"
  fl_expiryTo :: "int option"
  fl_usageFromGB :: "rat option"
  fl_usageToGB :: "rat option"
  fl_autoRenew :: string
  fl_hasTgId :: string
  fl_hasComment :: string

definition emptyFilters :: client_filters where
  "emptyFilters = \<lparr>fl_buckets = [], fl_protocols = [], fl_inboundIds = [], fl_nodeIds = [], fl_groups = [], fl_expiryFrom = None,
     fl_expiryTo = None, fl_usageFromGB = None, fl_usageToGB = None, fl_autoRenew = [], fl_hasTgId = [], fl_hasComment = []\<rparr>"

definition nonzero :: "'a::zero option \<Rightarrow> bool" where
  "nonzero x \<longleftrightarrow> x \<noteq> None \<and> x \<noteq> Some 0"

definition activeFilterCount :: "client_filters \<Rightarrow> nat" where
  "activeFilterCount f = length (filter id
     [fl_buckets f \<noteq> [], fl_protocols f \<noteq> [], fl_inboundIds f \<noteq> [], fl_nodeIds f \<noteq> [], fl_groups f \<noteq> [],
      nonzero (fl_expiryFrom f) \<or> nonzero (fl_expiryTo f), nonzero (fl_usageFromGB f) \<or> nonzero (fl_usageToGB f),
      fl_autoRenew f \<noteq> [], fl_hasTgId f \<noteq> [], fl_hasComment f \<noteq> []])"

definition filter_pool :: "inbound_option list \<Rightarrow> client_filters \<Rightarrow> int list" where
  "filter_pool inbounds f =
     (let nodeInboundIds = map io_id (filter (\<lambda>ib. (case io_nodeId ib of None \<Rightarrow> 0 | Some n \<Rightarrow> n) \<in> set (fl_nodeIds f)) inbounds)
      in if fl_inboundIds f \<noteq> [] then filter (\<lambda>i. i \<in> set (fl_inboundIds f)) nodeInboundIds else nodeInboundIds)"

definition effectiveInboundCsv :: "inbound_option list \<Rightarrow> client_filters \<Rightarrow> string" where
  "effectiveInboundCsv inbounds f =
     (if fl_nodeIds f = [] then join '','' (map int_str (fl_inboundIds f))
      else if filter_pool inbounds f \<noteq> [] then join '','' (map int_str (filter_pool inbounds f)) else ''-1'')"

definition some_text :: "string \<Rightarrow> string option" where
  "some_text s = (if s = [] then None else Some s)"

text \<open>The query the page hands to \<open>setQuery\<close>.\<close>

definition page_query :: "int \<Rightarrow> int \<Rightarrow> string \<Rightarrow> string \<Rightarrow> string \<Rightarrow> inbound_option list \<Rightarrow> client_filters \<Rightarrow> client_query" where
  "page_query currentPage tablePageSize search sortColumn sortOrder inbounds f =
     \<lparr>cq_page = currentPage, cq_pageSize = tablePageSize, cq_search = Some search, cq_filter = Some (join '','' (fl_buckets f)),
      cq_protocol = Some (join '','' (fl_protocols f)), cq_inbound = Some (effectiveInboundCsv inbounds f),
      cq_sort = some_text sortColumn, cq_order = some_text sortOrder, cq_expiryFrom = fl_expiryFrom f, cq_expiryTo = fl_expiryTo f,
      cq_usageFrom = Some (case fl_usageFromGB f of None \<Rightarrow> 0 | Some g \<Rightarrow> gbToBytes g),
      cq_usageTo = Some (case fl_usageToGB f of None \<Rightarrow> 0 | Some g \<Rightarrow> gbToBytes g),
      cq_autoRenew = some_text (fl_autoRenew f), cq_hasTgId = some_text (fl_hasTgId f), cq_hasComment = some_text (fl_hasComment f),
      cq_group = some_text (join '','' (fl_groups f))\<rparr>"

definition clientBucket :: "int \<Rightarrow> int \<Rightarrow> int \<Rightarrow> client_record \<Rightarrow> int \<Rightarrow> string" where
  "clientBucket expireDiff trafficDiff now row used =
     (let total = rc_totalGB row; et = rc_expiryTime row
      in if (et > 0 \<and> et \<le> now) \<or> (total > 0 \<and> used \<ge> total) then ''depleted''
         else if \<not> rc_enable row then ''deactive''
         else if (et > 0 \<and> et - now < expireDiff) \<or> (total > 0 \<and> total - used < trafficDiff) then ''expiring''
         else ''active'')"

definition toggleSelect :: "string \<Rightarrow> bool \<Rightarrow> string list \<Rightarrow> string list" where
  "toggleSelect email checked prev =
     (let keys = first_occurrences prev
      in if checked then if email \<in> set keys then keys else keys @ [email] else filter (\<lambda>e. e \<noteq> email) keys)"

end
