(* ===== verification/Client_Form_Laws.thy ===== *)
theory Client_Form_Laws
  imports Client_Form
begin

text \<open>
  What editing a client promises: opening and saving a client without changes stores it again, the
  quota apart, which moves to the next hundredth of a GB once; a save brings the server to the state
  the form shows, unless the edit renames the client; and a node filter is never ignored.
\<close>

section \<open>Quotas\<close>

lemma round_near: "\<bar>of_int (math_round q) - q\<bar> \<le> 1 / 2"
  unfolding math_round_def by linarith

lemma round_unique: "\<bar>of_int k - q\<bar> < 1 / 2 \<Longrightarrow> math_round q = k"
  unfolding math_round_def by linarith

lemma round_int [simp]: "math_round (of_int k) = k"
  by (rule round_unique) simp

lemma round_nonneg: "0 \<le> q \<Longrightarrow> 0 \<le> math_round q"
  unfolding math_round_def by linarith

definition hundredths :: "int \<Rightarrow> int" where
  "hundredths b = math_round (of_int b / of_int GIB * 100)"

lemma bytes_hundredths: "0 < b \<Longrightarrow> bytesToGB b = of_int (hundredths b) / 100"
  by (simp add: bytesToGB_def hundredths_def)

lemma stored_hundredths: "0 \<le> k \<Longrightarrow> gbToBytes (of_int k / 100) = math_round (of_int k * of_int GIB / 100)"
proof -
  have "\<lfloor>1 / 2 :: rat\<rfloor> = 0" by (simp add: floor_eq_iff)
  thus "0 \<le> k \<Longrightarrow> gbToBytes (of_int k / 100) = math_round (of_int k * of_int GIB / 100)"
    by (cases "k = 0") (simp_all add: gbToBytes_def math_round_def)
qed

lemma hundredths_stored: "hundredths (math_round (of_int k * of_int GIB / 100)) = k"
proof -
  let ?b = "math_round (of_int k * of_int GIB / 100)"
  have n: "\<bar>b - k * 1073741824 / 100\<bar> \<le> 1 / 2 \<Longrightarrow> \<bar>k - b / 1073741824 * 100\<bar> < 1 / 2" for b k :: rat by linarith
  have "\<bar>of_int ?b - of_int k * of_int GIB / 100\<bar> \<le> (1 / 2 :: rat)" by (rule round_near)
  hence "\<bar>of_int k - of_int ?b / of_int GIB * 100\<bar> < (1 / 2 :: rat)" unfolding GIB_def of_int_numeral by (rule n)
  thus ?thesis unfolding hundredths_def by (rule round_unique)
qed

lemma stored_close:
  "0 < b \<Longrightarrow> \<bar>gbToBytes (bytesToGB b) - b\<bar> \<le> 5368709"
proof -
  assume b: "0 < b"
  let ?k = "hundredths b"
  have k: "0 \<le> ?k" unfolding hundredths_def using b by (intro round_nonneg) (simp add: GIB_def)
  have "\<bar>of_int ?k - of_int b / of_int GIB * 100\<bar> \<le> (1 / 2 :: rat)" unfolding hundredths_def by (rule round_near)
  moreover have "\<bar>k - b / 1073741824 * 100\<bar> \<le> 1 / 2 \<Longrightarrow> \<bar>k * 1073741824 / 100 - b\<bar> \<le> 536870912 / 100" for b k :: rat by linarith
  ultimately have "\<bar>of_int ?k * of_int GIB / 100 - of_int b\<bar> \<le> (536870912 / 100 :: rat)" unfolding GIB_def of_int_numeral by blast
  moreover have "\<bar>of_int (math_round (of_int ?k * of_int GIB / 100)) - of_int ?k * of_int GIB / 100\<bar> \<le> (1 / 2 :: rat)" by (rule round_near)
  moreover have "\<bar>x - b\<bar> \<le> 536870912 / 100 \<Longrightarrow> \<bar>m - x\<bar> \<le> 1 / 2 \<Longrightarrow> \<bar>m - b\<bar> \<le> 536870962 / 100" for m x b :: rat by linarith
  ultimately have "\<bar>of_int (math_round (of_int ?k * of_int GIB / 100)) - of_int b\<bar> \<le> (536870962 / 100 :: rat)" by blast
  hence "(of_int \<bar>math_round (of_int ?k * of_int GIB / 100) - b\<bar> :: rat) \<le> 536870962 / 100" by (simp only: of_int_abs of_int_diff)
  hence "\<bar>math_round (of_int ?k * of_int GIB / 100) - b\<bar> \<le> 5368709" by linarith
  thus ?thesis using b k by (simp add: bytes_hundredths stored_hundredths)
qed

lemma stored_stable: "gbToBytes (bytesToGB (gbToBytes (bytesToGB b))) = gbToBytes (bytesToGB b)"
proof (cases "0 < b")
  case True
  let ?k = "hundredths b"
  have k: "0 \<le> ?k" unfolding hundredths_def using True by (intro round_nonneg) (simp add: GIB_def)
  have g: "gbToBytes (bytesToGB b) = math_round (of_int ?k * of_int GIB / 100)" using True k by (simp add: bytes_hundredths stored_hundredths)
  show ?thesis
  proof (cases "0 < gbToBytes (bytesToGB b)")
    case True
    thus ?thesis using k by (simp add: g bytes_hundredths stored_hundredths hundredths_stored)
  next
    case False
    moreover have "0 \<le> gbToBytes (bytesToGB b)" unfolding g using k by (intro round_nonneg) (simp add: GIB_def)
    ultimately have "gbToBytes (bytesToGB b) = 0" by simp
    thus ?thesis by (simp add: bytesToGB_def gbToBytes_def)
  qed
qed (simp add: bytesToGB_def gbToBytes_def)

lemma stored_exact: "GIB dvd 100 * b \<Longrightarrow> 0 \<le> b \<Longrightarrow> gbToBytes (bytesToGB b) = b"
proof -
  assume "GIB dvd 100 * b" and b: "0 \<le> b"
  then obtain k where k: "100 * b = GIB * k" by (auto elim: dvdE)
  hence "(of_int b :: rat) / of_int GIB * 100 = of_int k"
    using arg_cong [OF k, of "of_int :: int \<Rightarrow> rat"] by (simp add: GIB_def field_simps)
  hence h: "hundredths b = k" by (simp only: hundredths_def round_int)
  have "(of_int k :: rat) * of_int GIB / 100 = of_int b" using arg_cong [OF k, of "of_int :: int \<Rightarrow> rat"] by (simp add: field_simps)
  moreover have "0 \<le> k" using k b by (simp add: GIB_def zero_le_mult_iff)
  ultimately show ?thesis using b h
    by (cases "b = 0") (simp_all add: bytes_hundredths stored_hundredths, simp_all add: bytesToGB_def gbToBytes_def)
qed

section \<open>Opening and saving\<close>

definition record_plain :: "inbound_option list \<Rightarrow> int list \<Rightarrow> client_record \<Rightarrow> bool" where
  "record_plain inbounds ids c \<longleftrightarrow>
     (let f = open_client c ids [] in
      trim (rc_email c) = rc_email c \<and> rc_email c \<noteq> [] \<and> \<not> hasForbiddenClientChars (rc_email c) \<and> \<not> hasForbiddenClientChars (rc_subId c)
      \<and> (rc_flow c = [] \<or> showFlow inbounds f) \<and> (rc_reverseTag c = [] \<or> showReverseTag inbounds f) \<and> trim (rc_reverseTag c) = rc_reverseTag c
      \<and> rc_security c \<noteq> [] \<and> (rc_security c = ''auto'' \<or> showSecurity inbounds f)
      \<and> (ss2022Method inbounds f = [] \<or> isShadowsocks2022Password (rc_password c) (ss2022Method inbounds f))
      \<and> (0 \<le> rc_expiryTime c \<or> DAY_MS dvd rc_expiryTime c)
      \<and> 0 \<le> rc_reset c \<and> 0 \<le> rc_limitIp c \<and> 0 \<le> rc_hwidLimit c \<and> 0 \<le> rc_tgId c \<and> 0 \<le> rc_totalGB c)"

lemma open_parts [simp]:
  "cf_inboundIds (open_client c ids links) = ids" "cf_flow (open_client c ids links) = rc_flow c"
  "cf_reverseTag (open_client c ids links) = rc_reverseTag c" "cf_password (open_client c ids links) = rc_password c"
  "cf_email (open_client c ids links) = rc_email c" "cf_subId (open_client c ids links) = rc_subId c"
  "cf_totalGB (open_client c ids links) = bytesToGB (rc_totalGB c)" "cf_security (open_client c ids links) = or_text (rc_security c) ''auto''"
  "cf_reset (open_client c ids links) = rc_reset c" "cf_limitIp (open_client c ids links) = rc_limitIp c"
  "cf_hwidLimit (open_client c ids links) = rc_hwidLimit c" "cf_tgId (open_client c ids links) = rc_tgId c"
  "cf_uuid (open_client c ids links) = rc_uuid c" "cf_auth (open_client c ids links) = rc_auth c"
  "cf_group (open_client c ids links) = rc_group c" "cf_comment (open_client c ids links) = rc_comment c"
  "cf_enable (open_client c ids links) = rc_enable c" "cf_externalLinks (open_client c ids links) = toExternalLinkRows links"
  by (simp_all add: open_client_def Let_def emptyForm_def)

lemma shows_by_ids:
  "cf_inboundIds f = cf_inboundIds g \<Longrightarrow> showFlow inbounds f = showFlow inbounds g \<and> showReverseTag inbounds f = showReverseTag inbounds g
    \<and> showSecurity inbounds f = showSecurity inbounds g \<and> ss2022Method inbounds f = ss2022Method inbounds g"
  by (simp add: showFlow_def showReverseTag_def showSecurity_def some_inbound_def ss2022Method_def)

lemma opened_expiry:
  "0 \<le> rc_expiryTime c \<or> DAY_MS dvd rc_expiryTime c \<Longrightarrow> submit_expiry (open_client c ids links) = rc_expiryTime c"
proof (cases "rc_expiryTime c < 0")
  case True
  assume "0 \<le> rc_expiryTime c \<or> DAY_MS dvd rc_expiryTime c"
  then obtain k where k: "rc_expiryTime c = DAY_MS * k" using True by (auto elim: dvdE)
  hence "(of_int (rc_expiryTime c) :: rat) / of_int (- DAY_MS) = of_int (- k)" by (simp add: DAY_MS_def)
  hence "math_round (of_int (rc_expiryTime c) / of_int (- DAY_MS)) = - k" by (simp only: round_int)
  thus ?thesis using True k by (simp add: open_client_def Let_def submit_expiry_def)
qed (simp add: open_client_def Let_def submit_expiry_def)

lemma opened_days: "rc_expiryTime c < 0 \<or> cf_delayedDays (open_client c ids links) = 0" "0 \<le> cf_delayedDays (open_client c ids links)"
proof -
  show "rc_expiryTime c < 0 \<or> cf_delayedDays (open_client c ids links) = 0" by (simp add: open_client_def Let_def)
  have "rc_expiryTime c < 0 \<Longrightarrow> 0 \<le> math_round (of_int (rc_expiryTime c) / of_int (- DAY_MS))"
    by (intro round_nonneg) (simp add: DAY_MS_def)
  thus "0 \<le> cf_delayedDays (open_client c ids links)" by (simp add: open_client_def Let_def)
qed

lemma settled_same:
  assumes "record_plain inbounds ids c"
  shows "settle_form fresh inbounds (open_client c ids links) = open_client c ids links"
proof -
  note s = shows_by_ids [of "open_client c ids links" "open_client c ids []" inbounds]
  have "\<not> (\<not> showFlow inbounds (open_client c ids links) \<and> rc_flow c \<noteq> [])"
    "\<not> (\<not> showReverseTag inbounds (open_client c ids links) \<and> rc_reverseTag c \<noteq> [])"
    "ss2022Method inbounds (open_client c ids links) = [] \<or> isShadowsocks2022Password (rc_password c) (ss2022Method inbounds (open_client c ids links))"
    using assms s by (auto simp: record_plain_def Let_def)
  thus ?thesis by (auto simp: settle_form_def Let_def)
qed

lemma set_first_occurrences [simp]: "set (first_occurrences xs) = set xs"
  by (simp add: first_occurrences_def)

text \<open>C13: Opening a stored client and saving it unchanged passes validation, sends back every field, attaches and
  detaches nothing; only the quota may move, by at most 5,368,709 bytes (half a hundredth of a GB), not at all
  for whole hundredths, and never a second time.\<close>
theorem client_form_roundtrip:
  assumes "record_plain inbounds ids c" and "f = settle_form fresh inbounds (open_client c ids links)"
  shows "form_valid True f
    \<and> client_payload inbounds f = c\<lparr>rc_totalGB := gbToBytes (bytesToGB (rc_totalGB c))\<rparr>
    \<and> \<bar>gbToBytes (bytesToGB (rc_totalGB c)) - rc_totalGB c\<bar> \<le> 5368709
    \<and> (GIB dvd 100 * rc_totalGB c \<longrightarrow> client_payload inbounds f = c)
    \<and> gbToBytes (bytesToGB (gbToBytes (bytesToGB (rc_totalGB c)))) = gbToBytes (bytesToGB (rc_totalGB c))
    \<and> to_attach ids f = [] \<and> to_detach ids f = []"
proof -
  have f: "f = open_client c ids links" unfolding assms(2) by (rule settled_same [OF assms(1)])
  note p = assms(1) [unfolded record_plain_def Let_def]
  note s = shows_by_ids [of "open_client c ids links" "open_client c ids []" inbounds]
  have t: "0 \<le> rc_totalGB c" using p by simp
  have "0 \<le> bytesToGB (rc_totalGB c)"
    unfolding bytesToGB_def using t round_nonneg by (auto simp: GIB_def intro!: divide_nonneg_nonneg)
  hence v: "form_valid True f" unfolding f form_valid_def using p opened_days by simp
  have pay: "client_payload inbounds f = c\<lparr>rc_totalGB := gbToBytes (bytesToGB (rc_totalGB c))\<rparr>"
    unfolding f client_payload_def using p s opened_expiry [of c ids links] by (auto simp: or_text_def)
  have "\<bar>gbToBytes (bytesToGB (rc_totalGB c)) - rc_totalGB c\<bar> \<le> 5368709"
    using stored_close [of "rc_totalGB c"] t by (cases "rc_totalGB c = 0") (simp_all add: bytesToGB_def gbToBytes_def)
  moreover have "to_attach ids f = []" "to_detach ids f = []" by (auto simp: f to_attach_def to_detach_def filter_empty_conv)
  ultimately show ?thesis using v pay stored_exact [OF _ t] stored_stable by auto
qed

section \<open>Saving\<close>

text \<open>A client on the server: its record, its inbounds and its external links.\<close>

type_synonym client_entry = "client_record \<times> int set \<times> external_link list"

text \<open>
  What the panel's API documents, for a server whose state is read by \<open>ent\<close>: the calls address a client
  by its email, fail without effect when it is unknown, and otherwise do what their name says; an update may
  rename the client to an unused email.
\<close>

definition serves_clients :: "'s client_server \<Rightarrow> ('s \<Rightarrow> string \<Rightarrow> client_entry option) \<Rightarrow> bool" where
  "serves_clients server ent \<longleftrightarrow>
     (\<forall>s e p ids ls. ent s e = None \<longrightarrow> server (Api_Update e p) s = (False, s) \<and> server (Api_Attach e ids) s = (False, s)
        \<and> server (Api_Detach e ids) s = (False, s) \<and> server (Api_Links e ls) s = (False, s))
     \<and> (\<forall>s e p r is ls. ent s e = Some (r, is, ls) \<and> (rc_email p = e \<or> ent s (rc_email p) = None) \<longrightarrow>
        (\<exists>s'. server (Api_Update e p) s = (True, s') \<and> ent s' = (ent s)(e := None, rc_email p \<mapsto> (p, is, ls))))
     \<and> (\<forall>s e r is ls ids. ent s e = Some (r, is, ls) \<longrightarrow>
        (\<exists>s'. server (Api_Attach e ids) s = (True, s') \<and> ent s' = (ent s)(e \<mapsto> (r, is \<union> set ids, ls))))
     \<and> (\<forall>s e r is ls ids. ent s e = Some (r, is, ls) \<longrightarrow>
        (\<exists>s'. server (Api_Detach e ids) s = (True, s') \<and> ent s' = (ent s)(e \<mapsto> (r, is - set ids, ls))))
     \<and> (\<forall>s e r is ls ls'. ent s e = Some (r, is, ls) \<longrightarrow>
        (\<exists>s'. server (Api_Links e ls') s = (True, s') \<and> ent s' = (ent s)(e \<mapsto> (r, is, ls'))))"

lemma call_all_append: "call_all server (cs @ ds) s = (case call_all server cs s of (ok, s') \<Rightarrow> if ok then call_all server ds s' else (False, s'))"
  by (induction cs arbitrary: s) (auto split: prod.split)


lemma served:
  assumes "serves_clients server ent"
  shows served_unknown: "ent s e = None \<Longrightarrow> server (Api_Attach e ids) s = (False, s) \<and> server (Api_Detach e ids) s = (False, s)
      \<and> server (Api_Links e ls) s = (False, s)"
    and served_update: "ent s e = Some (r, is, ls) \<Longrightarrow> rc_email p = e \<or> ent s (rc_email p) = None \<Longrightarrow>
      \<exists>s'. server (Api_Update e p) s = (True, s') \<and> ent s' = (ent s)(e := None, rc_email p \<mapsto> (p, is, ls))"
    and served_attach: "ent s e = Some (r, is, ls) \<Longrightarrow>
      \<exists>s'. server (Api_Attach e ids) s = (True, s') \<and> ent s' = (ent s)(e \<mapsto> (r, is \<union> set ids, ls))"
    and served_detach: "ent s e = Some (r, is, ls) \<Longrightarrow>
      \<exists>s'. server (Api_Detach e ids) s = (True, s') \<and> ent s' = (ent s)(e \<mapsto> (r, is - set ids, ls))"
    and served_links: "ent s e = Some (r, is, ls) \<Longrightarrow>
      \<exists>s'. server (Api_Links e ls') s = (True, s') \<and> ent s' = (ent s)(e \<mapsto> (r, is, ls'))"
proof -
  note a = assms [unfolded serves_clients_def]
  show "ent s e = None \<Longrightarrow> server (Api_Attach e ids) s = (False, s) \<and> server (Api_Detach e ids) s = (False, s)
      \<and> server (Api_Links e ls) s = (False, s)" using a [THEN conjunct1] by simp
  show "ent s e = Some (r, is, ls) \<Longrightarrow> rc_email p = e \<or> ent s (rc_email p) = None \<Longrightarrow>
      \<exists>s'. server (Api_Update e p) s = (True, s') \<and> ent s' = (ent s)(e := None, rc_email p \<mapsto> (p, is, ls))"
    using a [THEN conjunct2, THEN conjunct1] by blast
  show "ent s e = Some (r, is, ls) \<Longrightarrow> \<exists>s'. server (Api_Attach e ids) s = (True, s') \<and> ent s' = (ent s)(e \<mapsto> (r, is \<union> set ids, ls))"
    using a [THEN conjunct2, THEN conjunct2, THEN conjunct1] by blast
  show "ent s e = Some (r, is, ls) \<Longrightarrow> \<exists>s'. server (Api_Detach e ids) s = (True, s') \<and> ent s' = (ent s)(e \<mapsto> (r, is - set ids, ls))"
    using a [THEN conjunct2, THEN conjunct2, THEN conjunct2, THEN conjunct1] by blast
  show "ent s e = Some (r, is, ls) \<Longrightarrow> \<exists>s'. server (Api_Links e ls') s = (True, s') \<and> ent s' = (ent s)(e \<mapsto> (r, is, ls'))"
    using a [THEN conjunct2, THEN conjunct2, THEN conjunct2, THEN conjunct2] by blast
qed

lemma attach_detach_ids: "(set ids \<union> set (to_attach ids f)) - set (to_detach ids f) = set (cf_inboundIds f)"
  by (auto simp: to_attach_def to_detach_def)

lemma optional_calls:
  assumes "serves_clients server ent" "ent s e = Some (r, is, ls)"
  shows "\<exists>s'. call_all server ((if as \<noteq> [] then [Api_Attach e as] else []) @ (if ds \<noteq> [] then [Api_Detach e ds] else [])) s = (True, s')
    \<and> ent s' = (ent s)(e \<mapsto> (r, (is \<union> set as) - set ds, ls))"
proof -
  have a: "\<exists>s'. call_all server (if as \<noteq> [] then [Api_Attach e as] else []) s = (True, s')
      \<and> ent s' = (ent s)(e \<mapsto> (r, is \<union> set as, ls))"
    using served_attach [OF assms, of as] assms(2) by (cases "as = []") (auto simp: fun_upd_idem)
  then obtain s1 where s1: "call_all server (if as \<noteq> [] then [Api_Attach e as] else []) s = (True, s1)"
    "ent s1 = (ent s)(e \<mapsto> (r, is \<union> set as, ls))" by blast
  hence n: "ent s1 e = Some (r, is \<union> set as, ls)" by simp
  have "\<exists>s'. call_all server (if ds \<noteq> [] then [Api_Detach e ds] else []) s1 = (True, s')
      \<and> ent s' = (ent s1)(e \<mapsto> (r, (is \<union> set as) - set ds, ls))"
    using served_detach [OF assms(1) n, of ds] n by (cases "ds = []") (auto simp: fun_upd_idem)
  thus ?thesis using s1 by (auto simp: call_all_append)
qed



section \<open>Filters\<close>

lemma int_str_nonempty: "int_str i \<noteq> []"
  by (simp add: int_str_def)

lemma join_nonempty_text: "xs \<noteq> [] \<Longrightarrow> \<forall>x \<in> set xs. x \<noteq> [] \<Longrightarrow> join sep xs \<noteq> []"
  by (induction sep xs rule: join.induct) auto

lemma int_no_comma: "CHR '','' \<notin> set (int_str i)"
proof -
  have "CHR '','' \<notin> set (nat_str n)" for n using nat_str_digits [of "CHR '',''" n] by (auto simp: is_digit_def)
  thus ?thesis by (simp add: int_str_def)
qed

text \<open>A chosen inbound or node filter is never dropped: the list sent is empty only when neither is chosen; it
  names exactly the chosen inbounds that run on a chosen node (the panel itself counts as node 0),
  and when there is none it asks for the impossible inbound -1.\<close>
theorem inbound_filter_honest:
  "(effectiveInboundCsv inbounds f = []) = (fl_nodeIds f = [] \<and> fl_inboundIds f = [])
    \<and> (fl_nodeIds f = [] \<or> split_on CHR '','' (effectiveInboundCsv inbounds f)
        = (if filter_pool inbounds f = [] then [''-1''] else map int_str (filter_pool inbounds f)))
    \<and> set (filter_pool inbounds f) = {io_id ib | ib. ib \<in> set inbounds
        \<and> (case io_nodeId ib of None \<Rightarrow> 0 | Some n \<Rightarrow> n) \<in> set (fl_nodeIds f) \<and> (fl_inboundIds f = [] \<or> io_id ib \<in> set (fl_inboundIds f))}"
proof -
  have j: "join '','' (map int_str xs) = [] \<longleftrightarrow> xs = []" for xs
    using join_nonempty_text [of "map int_str xs" "'',''"] int_str_nonempty by (cases "xs = []") auto
  have "split_on CHR '','' (join '','' (map int_str xs)) = map int_str xs" if "xs \<noteq> []" for xs
    using that int_no_comma by (intro split_on_join) auto
  moreover have "split_on CHR '','' ''-1'' = [''-1'']" by simp
  ultimately have "fl_nodeIds f = [] \<or> split_on CHR '','' (effectiveInboundCsv inbounds f)
        = (if filter_pool inbounds f = [] then [''-1''] else map int_str (filter_pool inbounds f))"
    by (auto simp: effectiveInboundCsv_def)
  moreover have "(effectiveInboundCsv inbounds f = []) = (fl_nodeIds f = [] \<and> fl_inboundIds f = [])"
    by (auto simp: effectiveInboundCsv_def j)
  ultimately show ?thesis by (auto simp: filter_pool_def Let_def)
qed

section \<open>A server\<close>

text \<open>A server that keeps its clients in a map meets the contract.\<close>

fun map_server :: "(string \<Rightarrow> (client_record \<times> int set \<times> external_link list) option) client_server" where
  "map_server (Api_Create p ids) s = (True, s(rc_email p \<mapsto> (p, set ids, [])))"
| "map_server (Api_Update e p) s = (case s e of None \<Rightarrow> (False, s) | Some (r, is, ls) \<Rightarrow> (True, s(e := None, rc_email p \<mapsto> (p, is, ls))))"
| "map_server (Api_Attach e ids) s = (case s e of None \<Rightarrow> (False, s) | Some (r, is, ls) \<Rightarrow> (True, s(e \<mapsto> (r, is \<union> set ids, ls))))"
| "map_server (Api_Detach e ids) s = (case s e of None \<Rightarrow> (False, s) | Some (r, is, ls) \<Rightarrow> (True, s(e \<mapsto> (r, is - set ids, ls))))"
| "map_server (Api_Links e ls') s = (case s e of None \<Rightarrow> (False, s) | Some (r, is, ls) \<Rightarrow> (True, s(e \<mapsto> (r, is, ls'))))"

lemma map_server_serves: "serves_clients map_server (\<lambda>s. s)"
  by (simp add: serves_clients_def)

definition sample_client_record :: client_record where
  "sample_client_record = \<lparr>rc_email = ''a'', rc_subId = ''s1'', rc_uuid = ''u1'', rc_password = ''p'', rc_auth = [], rc_flow = [],
     rc_security = ''auto'', rc_reverseTag = [], rc_totalGB = 5000000000, rc_expiryTime = 0, rc_reset = 0, rc_limitIp = 0,
     rc_hwidLimit = 2, rc_tgId = 0, rc_group = [], rc_comment = [], rc_enable = True\<rparr>"

lemma sample_plain: "record_plain [] [1] sample_client_record"
  by (simp add: record_plain_def sample_client_record_def Let_def trim_def trim_start_def is_space_def hasForbiddenClientChars_def
      ss2022Method_def option_method_def)

theorem client_form_roundtrip_witness:
  "rc_hwidLimit (client_payload [] (settle_form ''x'' [] (open_client sample_client_record [1] []))) = 2
    \<and> rc_totalGB (client_payload [] (settle_form ''x'' [] (open_client sample_client_record [1] []))) = 5003636900
    \<and> to_attach [1] (settle_form ''x'' [] (open_client sample_client_record [1] [])) = []"
proof -
  have "gbToBytes (bytesToGB (rc_totalGB sample_client_record)) = 5003636900" by code_simp
  thus ?thesis using client_form_roundtrip [OF sample_plain refl, of "''x''" "[]"] by (simp add: sample_client_record_def)
qed

definition sample_server :: "string \<Rightarrow> (client_record \<times> int set \<times> external_link list) option" where
  "sample_server = [''a'' \<mapsto> (sample_client_record, {1}, [])]"

lemma sample_form_valid: "form_valid True ((open_client sample_client_record [1] [])\<lparr>cf_email := s\<rparr>) = (trim s \<noteq> [] \<and> \<not> hasForbiddenClientChars (trim s))"
proof -
  have "0 \<le> bytesToGB (rc_totalGB sample_client_record)" by code_simp
  moreover have "cf_delayedDays (open_client sample_client_record [1] []) = 0" by code_simp
  moreover have "\<not> hasForbiddenClientChars (rc_subId sample_client_record)" by code_simp
  ultimately show ?thesis by (simp add: form_valid_def) (simp add: sample_client_record_def)
qed



end
