(* ===== verification/Outbound_Tests.thy ===== *)
theory Outbound_Tests
  imports Xray_Template
begin

text \<open>
  Testing outbounds: the part of \<open>frontend/src/hooks/useXraySetting.ts\<close> that queues the outbounds of the
  template and of the subscriptions, sends TCP probes through a pool of workers and HTTP probes in batches
  one after the other, and keeps a test state per outbound. The answers of the server are a parameter;
  a run is a step relation, so that every interleaving of the awaited requests is a run.
\<close>

section \<open>Results\<close>

record test_result =
  ot_success :: bool
  ot_error :: string
  ot_mode :: string

datatype test_state = Testing string | Tested test_result

text \<open>The two state maps: template outbounds by index, subscription outbounds by tag.\<close>

datatype test_key = Tpl_Key nat | Sub_Key string

type_synonym test_entry = "test_key \<times> jv"

text \<open>What the request gives: the list of results, or the text of its failure.\<close>

type_synonym test_answer = "string + test_result list"

definition isUdpOutbound :: "jv \<Rightarrow> bool" where
  "isUdpOutbound outbound \<longleftrightarrow>
     (let p = opt_prop outbound ''protocol''; n = opt_prop (opt_prop outbound ''streamSettings'') ''network''
      in p = JStr ''wireguard'' \<or> p = JStr ''hysteria'' \<or> n = JStr ''hysteria'' \<or> n = JStr ''kcp'' \<or> n = JStr ''quic'')"

definition postOutboundTestBatch :: "test_answer \<Rightarrow> jv list \<Rightarrow> string \<Rightarrow> test_result list" where
  "postOutboundTestBatch answer outbounds effMode =
     (case answer of
        Inl e \<Rightarrow> map (\<lambda>_. \<lparr>ot_success = False, ot_error = (if e = [] then ''Unknown error'' else e), ot_mode = effMode\<rparr>) outbounds
      | Inr rs \<Rightarrow> map (\<lambda>i. if i < length rs then rs ! i
          else \<lparr>ot_success = False, ot_error = ''Missing result'', ot_mode = effMode\<rparr>) [0..<length outbounds])"

section \<open>Queues\<close>

definition skipped_outbound :: "jv \<Rightarrow> bool" where
  "skipped_outbound ob \<longleftrightarrow>
     (let proto = opt_prop ob ''protocol''
      in proto = JStr ''blackhole'' \<or> proto = JStr ''loopback'' \<or> opt_prop ob ''tag'' = JStr ''blocked''
         \<or> proto = JStr ''freedom'' \<or> proto = JStr ''dns'')"

definition sub_tag :: "jv \<Rightarrow> string" where
  "sub_tag ob = (case opt_prop ob ''tag'' of JStr s \<Rightarrow> s | _ \<Rightarrow> [])"

record test_queues =
  qu_tcp :: "test_entry list"
  qu_httpTpl :: "test_entry list"
  qu_httpSub :: "test_entry list"

definition enqueue_test :: "string \<Rightarrow> test_entry \<Rightarrow> test_queues \<Rightarrow> test_queues" where
  "enqueue_test mode en q =
     (let ob = snd en
      in if skipped_outbound ob then q
         else if fst en = Sub_Key [] then q
         else if mode = ''http'' \<or> isUdpOutbound ob
         then (case fst en of Tpl_Key i \<Rightarrow> q\<lparr>qu_httpTpl := qu_httpTpl q @ [en]\<rparr> | Sub_Key t \<Rightarrow> q\<lparr>qu_httpSub := qu_httpSub q @ [en]\<rparr>)
         else q\<lparr>qu_tcp := qu_tcp q @ [en]\<rparr>)"

definition test_entries :: "jv list \<Rightarrow> jv list \<Rightarrow> test_entry list" where
  "test_entries templateList subList =
     zip (map Tpl_Key [0..<length templateList]) templateList @ map (\<lambda>ob. (Sub_Key (sub_tag ob), ob)) subList"

definition build_queues :: "string \<Rightarrow> jv list \<Rightarrow> jv list \<Rightarrow> test_queues" where
  "build_queues mode templateList subList =
     fold (enqueue_test mode) (test_entries templateList subList) \<lparr>qu_tcp = [], qu_httpTpl = [], qu_httpSub = []\<rparr>"

definition HTTP_BATCH_CHUNK :: nat where
  "HTTP_BATCH_CHUNK = 16"

definition TCP_WORKERS :: nat where
  "TCP_WORKERS = 8"

function chunks :: "nat \<Rightarrow> 'a list \<Rightarrow> 'a list list" where
  "chunks n xs = (if xs = [] \<or> n = 0 then [] else take n xs # chunks n (drop n xs))"
  by pat_completeness auto
termination by (relation "measure (\<lambda>(n, xs). length xs)") auto

declare chunks.simps [simp del]

section \<open>A run\<close>

record test_run =
  tn_queue :: "test_entry list"
  tn_workers :: nat
  tn_busy :: "test_entry list"
  tn_batches :: "test_entry list list"
  tn_batch :: "test_entry list option"
  tn_states :: "test_key \<Rightarrow> test_state option"

definition start_run :: "string \<Rightarrow> jv list \<Rightarrow> jv list \<Rightarrow> (test_key \<Rightarrow> test_state option) \<Rightarrow> test_run" where
  "start_run mode templateList subList states =
     (let q = build_queues mode templateList subList
      in \<lparr>tn_queue = qu_tcp q, tn_workers = min TCP_WORKERS (length (qu_tcp q)), tn_busy = [],
          tn_batches = chunks HTTP_BATCH_CHUNK (qu_httpTpl q) @ chunks HTTP_BATCH_CHUNK (qu_httpSub q), tn_batch = None, tn_states = states\<rparr>)"

definition set_all :: "test_key list \<Rightarrow> test_state list \<Rightarrow> (test_key \<Rightarrow> test_state option) \<Rightarrow> test_key \<Rightarrow> test_state option" where
  "set_all ks vs m = m ++ map_of (rev (zip ks vs))"

text \<open>
  The steps between awaits: a free worker takes the next outbound, a probe is answered, the HTTP
  lane starts its next batch when none is running, a batch is answered.
\<close>

inductive test_step :: "string \<Rightarrow> test_run \<Rightarrow> test_run \<Rightarrow> bool" for mode where
  take_entry: "tn_queue r = en # rest \<Longrightarrow> length (tn_busy r) < tn_workers r \<Longrightarrow>
    test_step mode r (r\<lparr>tn_queue := rest, tn_busy := tn_busy r @ [en], tn_states := (tn_states r)(fst en \<mapsto> Testing mode)\<rparr>)"
| probe_answered: "tn_busy r = before @ en # after \<Longrightarrow>
    test_step mode r (r\<lparr>tn_busy := before @ after,
      tn_states := (tn_states r)(fst en \<mapsto> Tested (hd (postOutboundTestBatch answer [snd en] mode)))\<rparr>)"
| batch_sent: "tn_batch r = None \<Longrightarrow> tn_batches r = b # rest \<Longrightarrow>
    test_step mode r (r\<lparr>tn_batches := rest, tn_batch := Some b,
      tn_states := set_all (map fst b) (replicate (length b) (Testing ''http'')) (tn_states r)\<rparr>)"
| batch_answered: "tn_batch r = Some b \<Longrightarrow>
    test_step mode r (r\<lparr>tn_batch := None,
      tn_states := set_all (map fst b) (map Tested (postOutboundTestBatch answer (map snd b) ''http'')) (tn_states r)\<rparr>)"

inductive test_steps :: "string \<Rightarrow> nat \<Rightarrow> test_run \<Rightarrow> test_run \<Rightarrow> bool" for mode where
  no_step: "test_steps mode 0 r r"
| one_more: "test_steps mode n r r' \<Longrightarrow> test_step mode r' r'' \<Longrightarrow> test_steps mode (Suc n) r r''"

inductive_cases test_step_cases: "test_step mode r r'"

text \<open>A single test: \<open>testOutbound\<close> and \<open>testSubscriptionOutbound\<close> with the answer of their request.\<close>

definition test_one :: "test_key \<Rightarrow> jv \<Rightarrow> string \<Rightarrow> test_answer \<Rightarrow> (test_key \<Rightarrow> test_state option)
    \<Rightarrow> test_result option \<times> (test_key \<Rightarrow> test_state option)" where
  "test_one key outbound mode answer states =
     (if \<not> truthy outbound \<or> key = Sub_Key [] then (None, states)
      else let effMode = (if isUdpOutbound outbound then ''http'' else mode);
               states = states(key \<mapsto> Testing effMode);
               result = hd (postOutboundTestBatch answer [outbound] effMode)
           in (if ot_success result then Some result else None, states(key \<mapsto> Tested result)))"

section \<open>What a run keeps\<close>

lemma postbatch_length [simp]: "length (postOutboundTestBatch a obs m) = length obs"
  by (simp add: postOutboundTestBatch_def split: sum.split)

lemma chunks_concat: "0 < n \<Longrightarrow> concat (chunks n xs) = xs"
  by (induction n xs rule: chunks.induct) (subst chunks.simps, auto)

lemma chunks_size: "c \<in> set (chunks n xs) \<Longrightarrow> c \<noteq> [] \<and> length c \<le> n"
proof (induction n xs rule: chunks.induct)
  case (1 n xs)
  thus ?case by (subst (asm) (2) chunks.simps) (auto split: if_splits)
qed

definition in_flight :: "test_run \<Rightarrow> test_entry list" where
  "in_flight r = tn_busy r @ (case tn_batch r of None \<Rightarrow> [] | Some b \<Rightarrow> b)"

definition waiting :: "test_run \<Rightarrow> test_entry list" where
  "waiting r = tn_queue r @ concat (tn_batches r)"

definition is_testing :: "test_state option \<Rightarrow> bool" where
  "is_testing st = (case st of Some (Testing _) \<Rightarrow> True | _ \<Rightarrow> False)"

definition is_tested :: "test_state option \<Rightarrow> bool" where
  "is_tested st = (case st of Some (Tested _) \<Rightarrow> True | _ \<Rightarrow> False)"

text \<open>The entries \<open>all\<close> of a run: each waits, is in flight and shown as being tested, or has its result.\<close>

definition run_ok :: "test_entry list \<Rightarrow> test_run \<Rightarrow> bool" where
  "run_ok all r \<longleftrightarrow> distinct (map fst (waiting r @ in_flight r)) \<and> set (waiting r @ in_flight r) \<subseteq> set all
     \<and> (\<forall>en \<in> set (in_flight r). is_testing (tn_states r (fst en)))
     \<and> (\<forall>en \<in> set all. fst en \<in> fst ` set (waiting r @ in_flight r) \<or> is_tested (tn_states r (fst en)))
     \<and> length (tn_busy r) \<le> tn_workers r \<and> tn_workers r \<le> TCP_WORKERS \<and> (tn_queue r = [] \<or> 0 < tn_workers r)
     \<and> list_all (\<lambda>b. length b \<le> HTTP_BATCH_CHUNK) (tn_batches r @ (case tn_batch r of None \<Rightarrow> [] | Some b \<Rightarrow> [b]))"

definition tests_work :: "test_run \<Rightarrow> nat" where
  "tests_work r = 2 * length (tn_queue r) + length (tn_busy r) + 2 * length (tn_batches r) + (if tn_batch r = None then 0 else 1)"

lemma step_work: "test_step mode r r' \<Longrightarrow> tests_work r = Suc (tests_work r')"
  by (erule test_step_cases) (simp_all add: tests_work_def)

lemma step_exists: "run_ok all r \<Longrightarrow> tests_work r \<noteq> 0 \<Longrightarrow> \<exists>r'. test_step mode r r'"
proof (cases "tn_busy r")
  case (Cons en after)
  thus ?thesis using test_step.probe_answered [of r "[]" en after mode] by auto
next
  case Nil
  assume ok: "run_ok all r" and w: "tests_work r \<noteq> 0"
  show ?thesis
  proof (cases "tn_batch r")
    case (Some b)
    thus ?thesis using test_step.batch_answered by blast
  next
    case None
    show ?thesis
    proof (cases "tn_batches r")
      case Cons
      thus ?thesis using None test_step.batch_sent by blast
    next
      case nobatch: Nil
      then obtain en rest where q: "tn_queue r = en # rest" using w Nil None by (cases "tn_queue r") (auto simp: tests_work_def)
      hence "length (tn_busy r) < tn_workers r" using ok Nil by (auto simp: run_ok_def)
      thus ?thesis using q test_step.take_entry by blast
    qed
  qed
qed

lemma set_all_in:
  assumes "length vs = length ks" "distinct ks" "i < length ks"
  shows "set_all ks vs m (ks ! i) = Some (vs ! i)"
proof -
  have "distinct (map fst (rev (zip ks vs)))" using assms by (simp add: rev_map [symmetric])
  moreover have "(ks ! i, vs ! i) \<in> set (rev (zip ks vs))" using assms by (auto simp: set_zip)
  ultimately have "map_of (rev (zip ks vs)) (ks ! i) = Some (vs ! i)" by (rule map_of_is_SomeI)
  thus ?thesis by (simp add: set_all_def map_add_def)
qed

lemma set_all_some:
  assumes "length vs = length ks" "k \<in> set ks"
  shows "\<exists>v \<in> set vs. set_all ks vs m k = Some v"
proof -
  have "k \<in> fst ` set (rev (zip ks vs))" using assms by (simp add: set_map [symmetric] del: set_map)
  then obtain v where v: "map_of (rev (zip ks vs)) k = Some v" by (metis map_of_eq_None_iff not_None_eq)
  hence "(k, v) \<in> set (zip ks vs)" by (metis map_of_SomeD set_rev)
  hence "v \<in> set vs" by (rule set_zip_rightD)
  thus ?thesis using v by (auto simp: set_all_def map_add_def)
qed

lemma set_all_out: "k \<notin> set ks \<Longrightarrow> set_all ks vs m k = m k"
proof -
  assume "k \<notin> set ks"
  hence "k \<notin> fst ` set (rev (zip ks vs))" by (auto dest: set_zip_leftD)
  hence "map_of (rev (zip ks vs)) k = None" using map_of_eq_None_iff [of "rev (zip ks vs)" k] by blast
  thus ?thesis by (simp add: set_all_def map_add_def)
qed

lemma testing_all: "k \<in> set ks \<Longrightarrow> is_testing (set_all ks (replicate (length ks) (Testing m)) st k)"
  using set_all_some [of "replicate (length ks) (Testing m)" ks k st] by (auto simp: is_testing_def)

lemma tested_all: "k \<in> set ks \<Longrightarrow> length rs = length ks \<Longrightarrow> is_tested (set_all ks (map Tested rs) st k)"
  using set_all_some [of "map Tested rs" ks k st] by (auto simp: is_tested_def)

lemma shown_simps [simp]: "is_testing (Some (Testing m))" "is_tested (Some (Tested x))"
  by (simp_all add: is_testing_def is_tested_def)

lemma keys_of_set: "k \<in> fst ` set xs \<longleftrightarrow> (\<exists>en \<in> set xs. fst en = k)"
  by auto

lemma distinct_keys_perm: "mset xs = mset ys \<Longrightarrow> distinct (map f xs) = distinct (map f ys)"
  by (rule mset_eq_imp_distinct_iff) simp

lemma run_okD:
  assumes "run_ok all r"
  shows run_distinct: "distinct (map fst (waiting r @ in_flight r))"
    and run_in_all: "set (waiting r @ in_flight r) \<subseteq> set all"
    and run_testing: "en \<in> set (in_flight r) \<Longrightarrow> is_testing (tn_states r (fst en))"
    and run_covered: "en \<in> set all \<Longrightarrow> fst en \<in> fst ` set (waiting r @ in_flight r) \<or> is_tested (tn_states r (fst en))"
    and run_bounds: "length (tn_busy r) \<le> tn_workers r \<and> tn_workers r \<le> TCP_WORKERS \<and> (tn_queue r = [] \<or> 0 < tn_workers r)
     \<and> list_all (\<lambda>b. length b \<le> HTTP_BATCH_CHUNK) (tn_batches r @ (case tn_batch r of None \<Rightarrow> [] | Some b \<Rightarrow> [b]))"
  using assms unfolding run_ok_def by simp_all

lemma step_ok: "test_step mode r r' \<Longrightarrow> run_ok all r \<Longrightarrow> run_ok all r'"
proof (erule test_step_cases)
  fix en rest
  assume ok: "run_ok all r" and q: "tn_queue r = en # rest" and w: "length (tn_busy r) < tn_workers r"
    and r': "r' = r\<lparr>tn_queue := rest, tn_busy := tn_busy r @ [en], tn_states := (tn_states r)(fst en \<mapsto> Testing mode)\<rparr>"
  have f: "in_flight r' = tn_busy r @ en # (case tn_batch r of None \<Rightarrow> [] | Some b \<Rightarrow> b)" and wt: "waiting r = en # waiting r'"
    by (simp_all add: r' in_flight_def waiting_def q)
  have set': "set (waiting r' @ in_flight r') = set (waiting r @ in_flight r)" unfolding f wt by (auto simp: in_flight_def)
  have "distinct (map fst (waiting r' @ in_flight r'))" using run_distinct [OF ok] unfolding f wt by (auto simp: in_flight_def)
  moreover have "\<forall>x \<in> set (in_flight r'). is_testing (tn_states r' (fst x))"
    using run_testing [OF ok] unfolding f by (auto simp: r' in_flight_def)
  moreover have "\<forall>x \<in> set all. fst x \<in> fst ` set (waiting r' @ in_flight r') \<or> is_tested (tn_states r' (fst x))"
  proof
    fix x assume "x \<in> set all"
    hence "fst x \<in> fst ` set (waiting r' @ in_flight r') \<or> is_tested (tn_states r (fst x))" using run_covered [OF ok] unfolding set' by blast
    moreover have "fst en \<in> fst ` set (waiting r' @ in_flight r')" unfolding f by simp
    ultimately show "fst x \<in> fst ` set (waiting r' @ in_flight r') \<or> is_tested (tn_states r' (fst x))" by (auto simp: r')
  qed
  moreover have "set (waiting r' @ in_flight r') \<subseteq> set all" using run_in_all [OF ok] unfolding set' .
  moreover have "length (tn_busy r') \<le> tn_workers r' \<and> tn_workers r' \<le> TCP_WORKERS \<and> (tn_queue r' = [] \<or> 0 < tn_workers r')
     \<and> list_all (\<lambda>b. length b \<le> HTTP_BATCH_CHUNK) (tn_batches r' @ (case tn_batch r' of None \<Rightarrow> [] | Some b \<Rightarrow> [b]))"
    using run_bounds [OF ok] w unfolding r' by simp
  ultimately show ?thesis unfolding run_ok_def by blast
next
  fix before en after answer
  assume ok: "run_ok all r" and b: "tn_busy r = before @ en # after"
    and r': "r' = r\<lparr>tn_busy := before @ after, tn_states := (tn_states r)(fst en \<mapsto> Tested (hd (postOutboundTestBatch answer [snd en] mode)))\<rparr>"
  have wt: "waiting r' = waiting r" by (simp add: r' waiting_def)
  have sub: "set (in_flight r) = insert en (set (in_flight r'))" by (auto simp: r' in_flight_def b)
  have d: "distinct (map fst (waiting r' @ in_flight r'))" and out: "fst en \<notin> fst ` set (waiting r' @ in_flight r')"
    using run_distinct [OF ok] by (auto simp: r' in_flight_def waiting_def b)
  have "\<forall>x \<in> set (in_flight r'). is_testing (tn_states r' (fst x))"
  proof
    fix x assume x: "x \<in> set (in_flight r')"
    hence "fst x \<noteq> fst en" using out by (metis UnI2 image_eqI set_append)
    thus "is_testing (tn_states r' (fst x))" using run_testing [OF ok, of x] x sub by (simp add: r')
  qed
  moreover have "\<forall>x \<in> set all. fst x \<in> fst ` set (waiting r' @ in_flight r') \<or> is_tested (tn_states r' (fst x))"
  proof
    fix x assume "x \<in> set all"
    hence "fst x = fst en \<or> fst x \<in> fst ` set (waiting r' @ in_flight r') \<or> is_tested (tn_states r (fst x))"
      using run_covered [OF ok] unfolding set_append sub wt by auto
    thus "fst x \<in> fst ` set (waiting r' @ in_flight r') \<or> is_tested (tn_states r' (fst x))" by (auto simp: r')
  qed
  moreover have "set (waiting r' @ in_flight r') \<subseteq> set all" using run_in_all [OF ok] unfolding set_append sub wt by auto
  moreover have "length (tn_busy r') \<le> tn_workers r' \<and> tn_workers r' \<le> TCP_WORKERS \<and> (tn_queue r' = [] \<or> 0 < tn_workers r')
     \<and> list_all (\<lambda>b. length b \<le> HTTP_BATCH_CHUNK) (tn_batches r' @ (case tn_batch r' of None \<Rightarrow> [] | Some b \<Rightarrow> [b]))"
    using run_bounds [OF ok] unfolding r' by (simp add: b)
  ultimately show ?thesis using d unfolding run_ok_def by blast
next
  fix b rest
  assume ok: "run_ok all r" and n: "tn_batch r = None" and bs: "tn_batches r = b # rest"
    and r': "r' = r\<lparr>tn_batches := rest, tn_batch := Some b,
      tn_states := set_all (map fst b) (replicate (length b) (Testing ''http'')) (tn_states r)\<rparr>"
  have set': "set (waiting r' @ in_flight r') = set (waiting r @ in_flight r)"
    by (auto simp: r' waiting_def in_flight_def n bs)
  have m: "mset (waiting r' @ in_flight r') = mset (waiting r @ in_flight r)" by (simp add: r' waiting_def in_flight_def n bs)
  have d: "distinct (map fst (waiting r' @ in_flight r'))" using run_distinct [OF ok] distinct_keys_perm [OF m] by blast
  have f: "in_flight r' = tn_busy r @ b" by (simp add: r' in_flight_def)
  have out: "fst ` set (tn_busy r) \<inter> fst ` set b = {}" using d unfolding f by simp
  have "\<forall>x \<in> set (in_flight r'). is_testing (tn_states r' (fst x))"
  proof
    fix x assume "x \<in> set (in_flight r')"
    then consider "x \<in> set b" | "x \<in> set (tn_busy r)" "fst x \<notin> set (map fst b)" using out by (auto simp: r' in_flight_def)
    thus "is_testing (tn_states r' (fst x))"
    proof cases
      case 1
      thus ?thesis using testing_all [of "fst x" "map fst b" "''http''"] by (simp add: r')
    next
      case 2
      thus ?thesis using run_testing [OF ok, of x] set_all_out [OF 2(2)] by (simp add: r' in_flight_def)
    qed
  qed
  moreover have "\<forall>x \<in> set all. fst x \<in> fst ` set (waiting r' @ in_flight r') \<or> is_tested (tn_states r' (fst x))"
  proof
    fix x assume "x \<in> set all"
    hence o: "fst x \<in> fst ` set (waiting r' @ in_flight r') \<or> is_tested (tn_states r (fst x))" using run_covered [OF ok] unfolding set' by blast
    have "set b \<subseteq> set (waiting r' @ in_flight r')" by (auto simp: r' in_flight_def)
    hence k: "fst x \<in> set (map fst b) \<Longrightarrow> fst x \<in> fst ` set (waiting r' @ in_flight r')" by auto
    show "fst x \<in> fst ` set (waiting r' @ in_flight r') \<or> is_tested (tn_states r' (fst x))"
    proof (cases "fst x \<in> set (map fst b)")
      case True
      thus ?thesis using k by blast
    next
      case False
      have "tn_states r' (fst x) = tn_states r (fst x)" using set_all_out [OF False] by (simp add: r')
      thus ?thesis using o by metis
    qed
  qed
  moreover have "set (waiting r' @ in_flight r') \<subseteq> set all" using run_in_all [OF ok] unfolding set' .
  moreover have "length (tn_busy r') \<le> tn_workers r' \<and> tn_workers r' \<le> TCP_WORKERS \<and> (tn_queue r' = [] \<or> 0 < tn_workers r')
     \<and> list_all (\<lambda>b. length b \<le> HTTP_BATCH_CHUNK) (tn_batches r' @ (case tn_batch r' of None \<Rightarrow> [] | Some b \<Rightarrow> [b]))"
    using run_bounds [OF ok] unfolding r' by (simp add: n bs)
  ultimately show ?thesis using d unfolding run_ok_def by blast
next
  fix b answer
  assume ok: "run_ok all r" and n: "tn_batch r = Some b"
    and r': "r' = r\<lparr>tn_batch := None, tn_states := set_all (map fst b) (map Tested (postOutboundTestBatch answer (map snd b) ''http'')) (tn_states r)\<rparr>"
  have wt: "waiting r' = waiting r" by (simp add: r' waiting_def)
  have sub: "set (in_flight r) = set (in_flight r') \<union> set b" by (auto simp: r' in_flight_def n)
  have m: "mset (waiting r @ in_flight r) = mset (b @ waiting r' @ in_flight r')" by (simp add: r' waiting_def in_flight_def n)
  have "distinct (map fst (b @ waiting r' @ in_flight r'))" using run_distinct [OF ok] distinct_keys_perm [OF m] by blast
  hence d: "distinct (map fst (waiting r' @ in_flight r'))" and out: "fst ` set b \<inter> fst ` set (waiting r' @ in_flight r') = {}"
    by (simp_all add: image_Un)
  have "\<forall>x \<in> set (in_flight r'). is_testing (tn_states r' (fst x))"
  proof
    fix x assume x: "x \<in> set (in_flight r')"
    hence "fst x \<notin> set (map fst b)" using out by auto
    thus "is_testing (tn_states r' (fst x))" using run_testing [OF ok, of x] x sub set_all_out [of "fst x" "map fst b"] by (simp add: r')
  qed
  moreover have "\<forall>x \<in> set all. fst x \<in> fst ` set (waiting r' @ in_flight r') \<or> is_tested (tn_states r' (fst x))"
  proof
    fix x assume x: "x \<in> set all"
    have o: "fst x \<in> set (map fst b) \<or> fst x \<in> fst ` set (waiting r' @ in_flight r') \<or> is_tested (tn_states r (fst x))"
      using run_covered [OF ok x] unfolding set_append sub wt image_Un set_map by blast
    thus "fst x \<in> fst ` set (waiting r' @ in_flight r') \<or> is_tested (tn_states r' (fst x))"
    proof (cases "fst x \<in> set (map fst b)")
      case True
      thus ?thesis using tested_all [of "fst x" "map fst b"] by (simp add: r')
    next
      case False
      thus ?thesis using o set_all_out [OF False] by (auto simp: r')
    qed
  qed
  moreover have "set (waiting r' @ in_flight r') \<subseteq> set all" using run_in_all [OF ok] unfolding set_append sub wt by auto
  moreover have "length (tn_busy r') \<le> tn_workers r' \<and> tn_workers r' \<le> TCP_WORKERS \<and> (tn_queue r' = [] \<or> 0 < tn_workers r')
     \<and> list_all (\<lambda>b. length b \<le> HTTP_BATCH_CHUNK) (tn_batches r' @ (case tn_batch r' of None \<Rightarrow> [] | Some b \<Rightarrow> [b]))"
    using run_bounds [OF ok] unfolding r' by (simp add: n)
  ultimately show ?thesis using d unfolding run_ok_def by blast
qed

section \<open>Queues and runs\<close>

definition testable_entry :: "test_entry \<Rightarrow> bool" where
  "testable_entry en \<longleftrightarrow> \<not> skipped_outbound (snd en) \<and> fst en \<noteq> Sub_Key []"

definition over_http :: "string \<Rightarrow> test_entry \<Rightarrow> bool" where
  "over_http mode en \<longleftrightarrow> mode = ''http'' \<or> isUdpOutbound (snd en)"

definition of_template :: "test_entry \<Rightarrow> bool" where
  "of_template en \<longleftrightarrow> (case fst en of Tpl_Key _ \<Rightarrow> True | Sub_Key _ \<Rightarrow> False)"

lemma queued:
  "fold (enqueue_test mode) ens q = \<lparr>qu_tcp = qu_tcp q @ filter (\<lambda>en. testable_entry en \<and> \<not> over_http mode en) ens,
     qu_httpTpl = qu_httpTpl q @ filter (\<lambda>en. testable_entry en \<and> over_http mode en \<and> of_template en) ens,
     qu_httpSub = qu_httpSub q @ filter (\<lambda>en. testable_entry en \<and> over_http mode en \<and> \<not> of_template en) ens\<rparr>"
proof (induction ens arbitrary: q)
  case (Cons en ens)
  have "enqueue_test mode en q = \<lparr>qu_tcp = qu_tcp q @ (if testable_entry en \<and> \<not> over_http mode en then [en] else []),
     qu_httpTpl = qu_httpTpl q @ (if testable_entry en \<and> over_http mode en \<and> of_template en then [en] else []),
     qu_httpSub = qu_httpSub q @ (if testable_entry en \<and> over_http mode en \<and> \<not> of_template en then [en] else [])\<rparr>"
    by (auto simp: enqueue_test_def testable_entry_def over_http_def of_template_def Let_def split: test_key.split)
  thus ?case using Cons by simp
qed simp

definition queued_tests :: "string \<Rightarrow> jv list \<Rightarrow> jv list \<Rightarrow> test_entry list" where
  "queued_tests mode tpl sub = (let q = build_queues mode tpl sub in qu_tcp q @ qu_httpTpl q @ qu_httpSub q)"

lemma queued_all: "mset (queued_tests mode tpl sub) = mset (filter testable_entry (test_entries tpl sub))"
proof -
  have "mset (filter (\<lambda>en. P en \<and> \<not> H en) ens) + (mset (filter (\<lambda>en. P en \<and> H en \<and> T en) ens) + mset (filter (\<lambda>en. P en \<and> H en \<and> \<not> T en) ens))
      = mset (filter P ens)" for P H T and ens :: "test_entry list"
    by (induction ens) auto
  thus ?thesis by (simp add: queued_tests_def build_queues_def queued Let_def del: mset_filter)
qed

lemma entries_distinct:
  assumes "distinct (map sub_tag sub)"
  shows "distinct (map fst (queued_tests mode tpl sub))"
proof -
  have m: "mset (map fst (queued_tests mode tpl sub)) = mset (map fst (filter testable_entry (test_entries tpl sub)))"
    using queued_all by (metis mset_map)
  have "distinct (map fst (test_entries tpl sub))"
  proof -
    have "map fst (test_entries tpl sub) = map Tpl_Key [0..<length tpl] @ map Sub_Key (map sub_tag sub)"
      by (simp add: test_entries_def comp_def)
    moreover have "distinct (map Tpl_Key [0..<length tpl])" "distinct (map Sub_Key (map sub_tag sub))"
      using assms by (simp_all add: distinct_map inj_on_def)
    ultimately show ?thesis by auto
  qed
  hence "distinct (map fst (filter testable_entry (test_entries tpl sub)))" by (rule distinct_map_filter)
  thus ?thesis using mset_eq_imp_distinct_iff [OF m] by blast
qed

lemma start_ok:
  assumes "distinct (map sub_tag sub)"
  shows "run_ok (queued_tests mode tpl sub) (start_run mode tpl sub st)"
proof -
  have w: "waiting (start_run mode tpl sub st) = queued_tests mode tpl sub" and f: "in_flight (start_run mode tpl sub st) = []"
    by (simp_all add: waiting_def in_flight_def start_run_def queued_tests_def chunks_concat HTTP_BATCH_CHUNK_def Let_def)
  have "list_all (\<lambda>b. length b \<le> HTTP_BATCH_CHUNK) (tn_batches (start_run mode tpl sub st))"
    by (auto simp: start_run_def Let_def list_all_iff dest: chunks_size)
  thus ?thesis unfolding run_ok_def w f using entries_distinct [OF assms]
    by (auto simp: start_run_def Let_def TCP_WORKERS_def)
qed

lemma steps_ok: "test_steps mode n r r' \<Longrightarrow> run_ok all r \<Longrightarrow> run_ok all r' \<and> n + tests_work r' = tests_work r"
proof (induction rule: test_steps.induct)
  case (one_more n r r' r'')
  thus ?case using step_ok [OF one_more(2)] step_work [OF one_more(2)] by simp
qed simp



text \<open>An answer reaches the outbounds it was asked for: a batch of \<open>n\<close> outbounds gets \<open>n\<close> results, the server's
  by position, a named failure where it sent too few, the same failure for all when the request
  failed; each is shown under its own outbound and no other state changes.\<close>
theorem batch_results_routed:
  assumes "distinct ks" and "length ks = length obs" and "i < length ks"
  shows "set_all ks (map Tested (postOutboundTestBatch answer obs mode)) st (ks ! i)
      = Some (Tested (case answer of Inl e \<Rightarrow> \<lparr>ot_success = False, ot_error = (if e = [] then ''Unknown error'' else e), ot_mode = mode\<rparr>
          | Inr rs \<Rightarrow> if i < length rs then rs ! i else \<lparr>ot_success = False, ot_error = ''Missing result'', ot_mode = mode\<rparr>))
    \<and> (k \<in> set ks \<or> set_all ks (map Tested (postOutboundTestBatch answer obs mode)) st k = st k)"
  using set_all_in [of "map Tested (postOutboundTestBatch answer obs mode)" ks i st] assms set_all_out
  by (auto simp: postOutboundTestBatch_def split: sum.split)

theorem batch_results_routed_witness:
  "set_all [Tpl_Key 0, Tpl_Key 2] (map Tested (postOutboundTestBatch (Inr [\<lparr>ot_success = True, ot_error = [], ot_mode = ''http''\<rparr>]) [JNull, JNull] ''http''))
      (\<lambda>_. None) (Tpl_Key 2) = Some (Tested \<lparr>ot_success = False, ot_error = ''Missing result'', ot_mode = ''http''\<rparr>)"
  using batch_results_routed [of "[Tpl_Key 0, Tpl_Key 2]" "[JNull, JNull]" 1 "Inr [\<lparr>ot_success = True, ot_error = [], ot_mode = ''http''\<rparr>]"
      "''http''" "\<lambda>_. None"] by simp

end
