(* ===== verification/Api_Session.thy ===== *)
theory Api_Session
  imports JS_Value
begin

text \<open>
  The panel's HTTP session (\<open>frontend/src/api/axios-init.ts\<close>) and the messages made of its answers
  (\<open>HttpUtil\<close> of \<open>utils/index.ts\<close>): the CSRF token of the page or of \<open>/csrf-token\<close>, its renewal after a
  403, the redirect after a 401. Many requests run at once; between two awaits a request runs alone,
  so a step is one stretch of code up to the next await, and the steps of different requests
  interleave freely. The re-encoding of the body for a second attempt is done by the library \<open>qs\<close> and
  left out; a token is never the empty text (the code tests for it).
\<close>

section \<open>State\<close>

datatype outcome = Resolved | Rejected

datatype request_phase = Starting | Awaiting nat bool | In_Flight | Settled outcome | Hanging

text \<open>A request: method, \<open>X-CSRF-Token\<close>, \<open>__csrfRetried\<close>, where it is, and the token of each transmission.\<close>

record api_request =
  rq_method :: string
  rq_header :: "string option"
  rq_retried :: bool
  rq_phase :: request_phase
  rq_sent :: "string option list"

text \<open>The meta element's content, the variables of the module, the fetches of the token (\<^term>\<open>None\<close> while one
  is under way) and the requests; \<open>redirects\<close> counts \<open>window.location.replace\<close>.\<close>

record api_session =
  ap_meta :: "string option"
  ap_csrfToken :: "string option"
  ap_csrfFetch :: "nat option"
  ap_expired :: bool
  ap_redirects :: nat
  ap_fetches :: "string option option list"
  ap_requests :: "api_request list"

definition SAFE_METHODS :: "string list" where
  "SAFE_METHODS = [''GET'', ''HEAD'', ''OPTIONS'', ''TRACE'']"

definition is_safe :: "api_request \<Rightarrow> bool" where
  "is_safe r \<longleftrightarrow> rq_method r \<in> set SAFE_METHODS"

definition nonempty :: "string option \<Rightarrow> string option" where
  "nonempty x = (if x = Some [] then None else x)"

definition readMetaToken :: "api_session \<Rightarrow> string option" where
  "readMetaToken s = nonempty (ap_meta s)"

definition setupAxios :: "string option \<Rightarrow> api_session" where
  "setupAxios meta = \<lparr>ap_meta = meta, ap_csrfToken = nonempty meta, ap_csrfFetch = None, ap_expired = False, ap_redirects = 0,
     ap_fetches = [], ap_requests = []\<rparr>"

section \<open>The token\<close>

text \<open>\<open>ensureCsrfToken\<close> up to its await: the token, or the fetch to wait for.\<close>

definition ensureCsrfToken :: "api_session \<Rightarrow> (string + nat) \<times> api_session" where
  "ensureCsrfToken s =
     (case ap_csrfToken s of
        Some t \<Rightarrow> (Inl t, s)
      | None \<Rightarrow>
          (case readMetaToken s of
             Some m \<Rightarrow> (Inl m, s\<lparr>ap_csrfToken := Some m\<rparr>)
           | None \<Rightarrow>
               (case ap_csrfFetch s of
                  Some n \<Rightarrow> (Inr n, s)
                | None \<Rightarrow> (let n = length (ap_fetches s) in (Inr n, s\<lparr>ap_csrfFetch := Some n, ap_fetches := ap_fetches s @ [None]\<rparr>)))))"

text \<open>Its rest, when the fetch has delivered \<open>fetched\<close>.\<close>

definition take_token :: "string option \<Rightarrow> api_session \<Rightarrow> string option \<times> api_session" where
  "take_token fetched s =
     (let s = s\<lparr>ap_csrfFetch := None, ap_csrfToken := (case nonempty fetched of Some t \<Rightarrow> Some t | None \<Rightarrow> ap_csrfToken s)\<rparr>
      in (ap_csrfToken s, s))"

section \<open>Requests\<close>

definition upd_request :: "nat \<Rightarrow> (api_request \<Rightarrow> api_request) \<Rightarrow> api_session \<Rightarrow> api_session" where
  "upd_request i f s = s\<lparr>ap_requests := (ap_requests s)[i := f (ap_requests s ! i)]\<rparr>"

definition new_request :: "string \<Rightarrow> api_request" where
  "new_request method = \<lparr>rq_method = method, rq_header = None, rq_retried = False, rq_phase = Starting, rq_sent = []\<rparr>"

definition issue :: "string \<Rightarrow> api_session \<Rightarrow> api_session" where
  "issue method s = s\<lparr>ap_requests := ap_requests s @ [new_request method]\<rparr>"

definition transmitted :: "string option \<Rightarrow> api_request \<Rightarrow> api_request" where
  "transmitted token r =
     (let h = (case token of Some t \<Rightarrow> Some t | None \<Rightarrow> rq_header r) in r\<lparr>rq_header := h, rq_phase := In_Flight, rq_sent := rq_sent r @ [h]\<rparr>)"

definition moved :: "request_phase \<Rightarrow> api_request \<Rightarrow> api_request" where
  "moved p r = r\<lparr>rq_phase := p\<rparr>"

text \<open>The request interceptor.\<close>

definition onRequest :: "nat \<Rightarrow> api_session \<Rightarrow> api_session" where
  "onRequest i s =
     (if is_safe (ap_requests s ! i) then upd_request i (transmitted None) s
      else case ensureCsrfToken s of
        (Inl t, s) \<Rightarrow> upd_request i (transmitted (Some t)) s
      | (Inr n, s) \<Rightarrow> upd_request i (moved (Awaiting n False)) s)"

text \<open>A second attempt: the header is set and \<open>axios(cfg)\<close> starts the request anew.\<close>

definition restarted :: "string \<Rightarrow> api_request \<Rightarrow> api_request" where
  "restarted t r = r\<lparr>rq_header := Some t, rq_phase := Starting\<rparr>"

definition onFetched :: "nat \<Rightarrow> bool \<Rightarrow> string option \<Rightarrow> api_session \<Rightarrow> api_session" where
  "onFetched i retry fetched s =
     (case take_token fetched s of
        (token, s) \<Rightarrow>
          if \<not> retry then upd_request i (transmitted token) s
          else (case token of Some t \<Rightarrow> upd_request i (restarted t) s | None \<Rightarrow> upd_request i (moved (Settled Rejected)) s))"

text \<open>The response interceptor: \<open>status\<close> is absent when no response came.\<close>

definition expire :: "api_session \<Rightarrow> api_session" where
  "expire s = (if ap_expired s then s else s\<lparr>ap_expired := True, ap_redirects := Suc (ap_redirects s)\<rparr>)"

definition onError :: "nat \<Rightarrow> nat option \<Rightarrow> api_session \<Rightarrow> api_session" where
  "onError i status s =
     (if status = Some 401 then upd_request i (moved Hanging) (expire s)
      else if status = Some 403 \<and> \<not> rq_retried (ap_requests s ! i)
      then (case ensureCsrfToken (upd_request i (\<lambda>r. r\<lparr>rq_retried := True\<rparr>) (s\<lparr>ap_csrfToken := None\<rparr>)) of
              (Inl t, s) \<Rightarrow> upd_request i (restarted t) s
            | (Inr n, s) \<Rightarrow> upd_request i (moved (Awaiting n True)) s)
      else upd_request i (moved (Settled Rejected)) s)"

definition onResponse :: "nat \<Rightarrow> api_session \<Rightarrow> api_session" where
  "onResponse i s = upd_request i (moved (Settled Resolved)) s"

section \<open>Steps\<close>

inductive api_step :: "api_session \<Rightarrow> api_session \<Rightarrow> bool" where
  begins: "i < length (ap_requests s) \<Longrightarrow> rq_phase (ap_requests s ! i) = Starting \<Longrightarrow> api_step s (onRequest i s)"
| fetch_ends: "n < length (ap_fetches s) \<Longrightarrow> ap_fetches s ! n = None \<Longrightarrow>
    api_step s (s\<lparr>ap_fetches := (ap_fetches s)[n := Some fetched]\<rparr>)"
| resumes: "i < length (ap_requests s) \<Longrightarrow> rq_phase (ap_requests s ! i) = Awaiting n retry \<Longrightarrow>
    n < length (ap_fetches s) \<Longrightarrow> ap_fetches s ! n = Some fetched \<Longrightarrow> api_step s (onFetched i retry fetched s)"
| answered: "i < length (ap_requests s) \<Longrightarrow> rq_phase (ap_requests s ! i) = In_Flight \<Longrightarrow> api_step s (onResponse i s)"
| fails: "i < length (ap_requests s) \<Longrightarrow> rq_phase (ap_requests s ! i) = In_Flight \<Longrightarrow> api_step s (onError i status s)"

inductive_cases api_step_cases: "api_step s s'"

text \<open>The sessions that can come about, with the number of steps taken; the page issues requests at will.\<close>

inductive api_history :: "string option \<Rightarrow> nat \<Rightarrow> api_session \<Rightarrow> bool" for meta where
  set_up: "api_history meta 0 (setupAxios meta)"
| issued: "api_history meta k s \<Longrightarrow> api_history meta k (issue method s)"
| stepped: "api_history meta k s \<Longrightarrow> api_step s s' \<Longrightarrow> api_history meta (Suc k) s'"

end
