(* ===== verification/Session_Laws.thy ===== *)
theory Session_Laws
  imports Api_Session
begin

text \<open>What holds of every session: how often a request is sent, when it ends, which token it carries.\<close>

section \<open>The invariant\<close>

text \<open>A request among \<open>n\<close> fetches; \<open>expired\<close> says whether the session is.\<close>

definition request_ok :: "nat \<Rightarrow> bool \<Rightarrow> api_request \<Rightarrow> bool" where
  "request_ok fetches expired r \<longleftrightarrow>
     (case rq_phase r of
        Starting \<Rightarrow> length (rq_sent r) = (if rq_retried r then 1 else 0)
      | Awaiting n retry \<Rightarrow> length (rq_sent r) = (if rq_retried r then 1 else 0) \<and> n < fetches \<and> (retry \<longrightarrow> rq_retried r)
      | In_Flight \<Rightarrow> length (rq_sent r) = (if rq_retried r then 2 else 1)
      | Settled _ \<Rightarrow> rq_sent r \<noteq> [] \<and> length (rq_sent r) \<le> (if rq_retried r then 2 else 1)
      | Hanging \<Rightarrow> rq_sent r \<noteq> [] \<and> length (rq_sent r) \<le> (if rq_retried r then 2 else 1) \<and> expired)"

definition requests_but :: "nat set \<Rightarrow> api_session \<Rightarrow> bool" where
  "requests_but X s \<longleftrightarrow> (\<forall>j < length (ap_requests s). j \<notin> X \<longrightarrow> request_ok (length (ap_fetches s)) (ap_expired s) (ap_requests s ! j))"

definition session_but :: "nat set \<Rightarrow> api_session \<Rightarrow> bool" where
  "session_but X s \<longleftrightarrow> requests_but X s \<and> ap_redirects s = (if ap_expired s then 1 else 0)
     \<and> (\<forall>n. ap_csrfFetch s = Some n \<longrightarrow> n < length (ap_fetches s))"

abbreviation session_ok :: "api_session \<Rightarrow> bool" where
  "session_ok \<equiv> session_but {}"

lemma session_fields [simp]:
  "ap_requests (upd_request i f s) = (ap_requests s)[i := f (ap_requests s ! i)]" "ap_fetches (upd_request i f s) = ap_fetches s"
  "ap_expired (upd_request i f s) = ap_expired s" "ap_redirects (upd_request i f s) = ap_redirects s"
  "ap_csrfFetch (upd_request i f s) = ap_csrfFetch s" "ap_csrfToken (upd_request i f s) = ap_csrfToken s" "ap_meta (upd_request i f s) = ap_meta s"
  by (simp_all add: upd_request_def)

lemma request_ok_mono:
  "request_ok k e r \<Longrightarrow> k \<le> k' \<Longrightarrow> (e \<Longrightarrow> e') \<Longrightarrow> request_ok k' e' r"
  by (auto simp: request_ok_def split: request_phase.splits)

lemma session_mono:
  assumes "session_but X s" and "ap_requests s' = ap_requests s" and "length (ap_fetches s) \<le> length (ap_fetches s')"
    and "ap_expired s \<Longrightarrow> ap_expired s'" and "ap_redirects s' = (if ap_expired s' then 1 else 0)"
    and "\<forall>n. ap_csrfFetch s' = Some n \<longrightarrow> n < length (ap_fetches s')"
  shows "session_but X s'"
  using assms request_ok_mono [OF _ assms(3,4)] by (auto simp: session_but_def requests_but_def)

lemma session_upd:
  assumes "session_but {i} s" and "i < length (ap_requests s)" and "request_ok (length (ap_fetches s)) (ap_expired s) (f (ap_requests s ! i))"
  shows "session_ok (upd_request i f s)"
  using assms by (auto simp: session_but_def requests_but_def nth_list_update)

lemma session_weaken: "session_ok s \<Longrightarrow> session_but {i} s"
  by (simp add: session_but_def requests_but_def)

lemma session_skip: "session_ok s \<Longrightarrow> session_but {i} (upd_request i f s)"
  by (auto simp: session_but_def requests_but_def)

lemma ensure_frame:
  assumes "ensureCsrfToken s = (x, s')"
  shows "ap_requests s' = ap_requests s" "ap_expired s' = ap_expired s" "ap_redirects s' = ap_redirects s" "ap_meta s' = ap_meta s"
    "length (ap_fetches s) \<le> length (ap_fetches s')" "x = Inl t \<Longrightarrow> ap_fetches s' = ap_fetches s"
  using assms by (auto simp: ensureCsrfToken_def Let_def split: option.splits)

lemma ensure_session:
  assumes "ensureCsrfToken s = (x, s')" and "session_but X s"
  shows "session_but X s'" "x = Inr n \<Longrightarrow> n < length (ap_fetches s')"
proof -
  have f: "\<forall>n. ap_csrfFetch s' = Some n \<longrightarrow> n < length (ap_fetches s')" "x = Inr n \<Longrightarrow> n < length (ap_fetches s')"
    using assms by (auto simp: ensureCsrfToken_def session_but_def Let_def split: option.splits)
  show "session_but X s'"
    by (rule session_mono [OF assms(2)]) (use ensure_frame [OF assms(1)] assms(2) f in \<open>auto simp: session_but_def\<close>)
  show "x = Inr n \<Longrightarrow> n < length (ap_fetches s')" by (rule f)
qed

lemma request_at:
  "session_ok s \<Longrightarrow> i < length (ap_requests s) \<Longrightarrow> request_ok (length (ap_fetches s)) (ap_expired s) (ap_requests s ! i)"
  by (simp add: session_but_def requests_but_def)

lemma session_flags:
  assumes "session_but X s"
  shows "session_but X (s\<lparr>ap_csrfToken := t\<rparr>)" "session_but X (s\<lparr>ap_csrfFetch := None, ap_csrfToken := t\<rparr>)"
    "session_but X (expire s)" "session_but X (s\<lparr>ap_fetches := (ap_fetches s)[n := fetched]\<rparr>)"
  by (rule session_mono [OF assms]; use assms in \<open>auto simp: session_but_def expire_def\<close>)+

text \<open>After \<^const>\<open>ensureCsrfToken\<close> the request goes on or waits.\<close>

lemma ensured_ok:
  assumes "session_but {i} s" "i < length (ap_requests s)" "ensureCsrfToken s = (x, s')"
    and "\<And>t. x = Inl t \<Longrightarrow> request_ok (length (ap_fetches s')) (ap_expired s') (f t (ap_requests s ! i))"
    and "\<And>n. x = Inr n \<Longrightarrow> n < length (ap_fetches s') \<Longrightarrow> request_ok (length (ap_fetches s')) (ap_expired s') (g n (ap_requests s ! i))"
  shows "session_ok (case x of Inl t \<Rightarrow> upd_request i (f t) s' | Inr n \<Rightarrow> upd_request i (g n) s')"
proof -
  note ok = ensure_session [OF assms(3,1)]
  show ?thesis
    using assms(2,4,5) ok ensure_frame(1) [OF assms(3)] by (auto intro!: session_upd split: sum.splits)
qed

lemma onRequest_ok:
  assumes "session_ok s" "i < length (ap_requests s)" "rq_phase (ap_requests s ! i) = Starting"
  shows "session_ok (onRequest i s)"
proof -
  have r: "request_ok k e (ap_requests s ! i)" for k e using request_at [OF assms(1,2)] assms(3) by (simp add: request_ok_def)
  obtain x s' where e: "ensureCsrfToken s = (x, s')" by fastforce
  have "session_ok (upd_request i (transmitted None) s)"
    by (rule session_upd [OF session_weaken [OF assms(1)] assms(2)]) (use r assms(3) in \<open>simp add: request_ok_def transmitted_def Let_def\<close>)
  moreover have "session_ok (case x of Inl t \<Rightarrow> upd_request i (transmitted (Some t)) s' | Inr n \<Rightarrow> upd_request i (moved (Awaiting n False)) s')"
    by (rule ensured_ok [OF session_weaken [OF assms(1)] assms(2) e])
      (use r assms(3) in \<open>simp_all add: request_ok_def transmitted_def moved_def Let_def\<close>)
  ultimately show ?thesis using e by (simp add: onRequest_def)
qed

lemma onFetched_ok:
  assumes "session_ok s" "i < length (ap_requests s)" "rq_phase (ap_requests s ! i) = Awaiting n retry"
  shows "session_ok (onFetched i retry fetched s)"
proof -
  obtain token s' where t: "take_token fetched s = (token, s')" by fastforce
  have ok: "session_but {i} s'" using t session_weaken [OF session_flags(2) [OF assms(1)]] by (auto simp: take_token_def Let_def)
  have q: "ap_requests s' = ap_requests s" "ap_fetches s' = ap_fetches s" "ap_expired s' = ap_expired s"
    using t by (auto simp: take_token_def Let_def)
  show ?thesis
    using request_at [OF assms(1,2)] assms(2,3) ok
    by (auto simp: onFetched_def t request_ok_def transmitted_def restarted_def moved_def Let_def q intro!: session_upd split: option.splits)
qed

lemma onError_ok:
  assumes "session_ok s" "i < length (ap_requests s)" "rq_phase (ap_requests s ! i) = In_Flight"
  shows "session_ok (onError i status s)"
proof -
  note r = request_at [OF assms(1,2)]
  let ?s = "upd_request i (\<lambda>r. r\<lparr>rq_retried := True\<rparr>) (s\<lparr>ap_csrfToken := None\<rparr>)"
  obtain x s' where e: "ensureCsrfToken ?s = (x, s')" by fastforce
  have "session_ok (upd_request i (moved Hanging) (expire s))"
    by (rule session_upd [OF session_weaken [OF session_flags(3) [OF assms(1)]]])
      (use r assms(2,3) in \<open>auto simp: request_ok_def moved_def expire_def split: if_splits\<close>)
  moreover have "session_ok (upd_request i (moved (Settled Rejected)) s)"
    by (rule session_upd [OF session_weaken [OF assms(1)] assms(2)]) (use r assms(3) in \<open>auto simp: request_ok_def moved_def split: if_splits\<close>)
  moreover have "session_ok (case x of Inl t \<Rightarrow> upd_request i (restarted t) s' | Inr n \<Rightarrow> upd_request i (moved (Awaiting n True)) s')"
    if "\<not> rq_retried (ap_requests s ! i)"
    by (rule ensured_ok [OF session_skip [OF session_flags(1) [OF assms(1)]] _ e])
      (use r assms(2,3) that in \<open>auto simp: request_ok_def restarted_def moved_def\<close>)
  ultimately show ?thesis using e by (simp add: onError_def)
qed

lemma onResponse_ok:
  assumes "session_ok s" "i < length (ap_requests s)" "rq_phase (ap_requests s ! i) = In_Flight"
  shows "session_ok (onResponse i s)"
  unfolding onResponse_def by (rule session_upd [OF session_weaken [OF assms(1)] assms(2)])
    (use request_at [OF assms(1,2)] assms(3) in \<open>auto simp: request_ok_def moved_def split: if_splits\<close>)

lemma session_step_ok: "api_step s s' \<Longrightarrow> session_ok s \<Longrightarrow> session_ok s'"
  by (erule api_step_cases) (simp_all add: onRequest_ok onFetched_ok onError_ok onResponse_ok session_flags(4))

lemma session_history_ok: "api_history meta k s \<Longrightarrow> session_ok s"
proof (induction rule: api_history.induct)
  case set_up
  show ?case by (simp add: setupAxios_def session_but_def requests_but_def)
next
  case (issued k s verb)
  thus ?case by (auto simp: issue_def session_but_def requests_but_def nth_append new_request_def request_ok_def)
next
  case (stepped k s s')
  thus ?case using session_step_ok by blast
qed

section \<open>Requests come to an end\<close>

text \<open>The steps a request and a fetch have before them.\<close>

definition request_work :: "api_request \<Rightarrow> nat" where
  "request_work r =
     (case rq_phase r of
        Starting \<Rightarrow> if rq_retried r then 4 else 10
      | Awaiting n retry \<Rightarrow> if retry then 5 else if rq_retried r then 2 else 8
      | In_Flight \<Rightarrow> if rq_retried r then 1 else 7
      | _ \<Rightarrow> 0)"

definition session_work :: "api_session \<Rightarrow> nat" where
  "session_work s = sum_list (map request_work (ap_requests s)) + length (filter (\<lambda>f. f = None) (ap_fetches s))"

lemma work_upd:
  assumes "i < length (ap_requests s)"
  shows "session_work (upd_request i f s) + request_work (ap_requests s ! i) = session_work s + request_work (f (ap_requests s ! i))"
proof -
  have "request_work (ap_requests s ! i) \<le> sum_list (map request_work (ap_requests s))"
    using assms by (intro elem_le_sum_list [of i "map request_work (ap_requests s)", simplified]) simp
  thus ?thesis using assms by (simp add: session_work_def map_update sum_list_update)
qed

lemma work_ensure: "ensureCsrfToken s = (x, s') \<Longrightarrow> session_work s' \<le> session_work s + (if isl x then 0 else 1)"
  by (auto simp: ensureCsrfToken_def session_work_def Let_def split: option.splits)

lemma work_flags [simp]:
  "session_work (s\<lparr>ap_csrfToken := t\<rparr>) = session_work s" "session_work (s\<lparr>ap_csrfFetch := g\<rparr>) = session_work s"
  "session_work (expire s) = session_work s"
  by (simp_all add: session_work_def expire_def)

lemma work_ensured:
  assumes "i < length (ap_requests s)" "ensureCsrfToken s = (x, s')"
    and "\<And>t. request_work (f t (ap_requests s ! i)) < request_work (ap_requests s ! i)"
    and "\<And>n. request_work (g n (ap_requests s ! i)) + 1 < request_work (ap_requests s ! i)"
  shows "session_work (case x of Inl t \<Rightarrow> upd_request i (f t) s' | Inr n \<Rightarrow> upd_request i (g n) s') < session_work s"
proof (cases x)
  case (Inl t)
  thus ?thesis using work_ensure [OF assms(2)] work_upd [of i s' "f t"] assms(1) assms(3) [of t] ensure_frame(1) [OF assms(2)] by simp
next
  case (Inr n)
  thus ?thesis using work_ensure [OF assms(2)] work_upd [of i s' "g n"] assms(1) assms(4) [of n] ensure_frame(1) [OF assms(2)] by simp
qed

lemma onRequest_work:
  assumes "i < length (ap_requests s)" "rq_phase (ap_requests s ! i) = Starting"
  shows "session_work (onRequest i s) < session_work s"
proof -
  obtain x s' where e: "ensureCsrfToken s = (x, s')" by fastforce
  have "session_work (upd_request i (transmitted None) s) < session_work s"
    using work_upd [OF assms(1), of "transmitted None"] assms(2) by (simp add: request_work_def transmitted_def Let_def split: if_splits)
  moreover have "session_work (case x of Inl t \<Rightarrow> upd_request i (transmitted (Some t)) s' | Inr n \<Rightarrow> upd_request i (moved (Awaiting n False)) s') < session_work s"
    by (rule work_ensured [OF assms(1) e]) (use assms(2) in \<open>simp_all add: request_work_def transmitted_def moved_def Let_def\<close>)
  ultimately show ?thesis using e by (simp add: onRequest_def)
qed

lemma onFetched_work:
  assumes "session_ok s" "i < length (ap_requests s)" "rq_phase (ap_requests s ! i) = Awaiting n retry"
  shows "session_work (onFetched i retry fetched s) < session_work s"
proof -
  obtain token s' where t: "take_token fetched s = (token, s')" by fastforce
  have q: "ap_requests s' = ap_requests s" "session_work s' = session_work s" using t by (auto simp: take_token_def Let_def)
  have less: "session_work (upd_request i f s') < session_work s" if "request_work (f (ap_requests s ! i)) < request_work (ap_requests s ! i)" for f
    using work_upd [of i s' f] assms(2) that q by simp
  show ?thesis
    using request_at [OF assms(1,2)] assms(3)
    by (auto simp: onFetched_def t request_work_def request_ok_def transmitted_def restarted_def moved_def Let_def intro!: less split: option.splits)
qed

lemma onError_work:
  assumes "i < length (ap_requests s)" "rq_phase (ap_requests s ! i) = In_Flight"
  shows "session_work (onError i status s) < session_work s"
proof -
  let ?s = "s\<lparr>ap_csrfToken := None\<rparr>" let ?mark = "\<lambda>r. r\<lparr>rq_retried := True\<rparr>"
  obtain x s' where e: "ensureCsrfToken (upd_request i ?mark ?s) = (x, s')" by fastforce
  have less: "session_work (upd_request i (moved p) s') < session_work s" if "session_work s' = session_work s" "ap_requests s' = ap_requests s"
      "p = Hanging \<or> (\<exists>y. p = Settled y)" for p s'
    using work_upd [of i s' "moved p"] assms that by (auto simp: request_work_def moved_def split: if_splits)
  have "session_work (case x of Inl t \<Rightarrow> upd_request i (restarted t) s' | Inr n \<Rightarrow> upd_request i (moved (Awaiting n True)) s') < session_work s"
    if "\<not> rq_retried (ap_requests s ! i)"
  proof -
    have m: "session_work (upd_request i ?mark ?s) + 6 = session_work s" using work_upd [of i ?s ?mark] assms that by (simp add: request_work_def)
    show ?thesis
    proof (cases x)
      case (Inl t)
      thus ?thesis using m work_ensure [OF e] work_upd [of i s' "restarted t"] assms ensure_frame(1) [OF e]
        by (simp add: request_work_def restarted_def)
    next
      case (Inr n)
      thus ?thesis using m work_ensure [OF e] work_upd [of i s' "moved (Awaiting n True)"] assms ensure_frame(1) [OF e]
        by (simp add: request_work_def moved_def)
    qed
  qed
  moreover have "ap_requests (expire s) = ap_requests s" by (simp add: expire_def)
  ultimately show ?thesis using e less by (simp add: onError_def)
qed

lemma step_works:
  assumes "api_step s s'" "session_ok s"
  shows "session_work s' < session_work s"
  using assms(1)
proof (cases rule: api_step.cases)
  case (fetch_ends n fetched)
  have "length (filter (\<lambda>f. f = None) (xs[n := Some y])) < length (filter (\<lambda>f. f = None) xs)" if "n < length xs" "xs ! n = None" for xs :: "'z option list" and y
    using that
  proof (induction xs arbitrary: n)
    case (Cons x xs)
    thus ?case by (cases n) auto
  qed simp
  thus ?thesis using fetch_ends by (simp add: session_work_def)
next
  case (answered i)
  thus ?thesis using work_upd [of i s "moved (Settled Resolved)"] by (simp add: onResponse_def request_work_def moved_def split: if_splits)
qed (simp_all add: onRequest_work onFetched_work onError_work assms(2))

lemma history_work: "api_history meta k s \<Longrightarrow> k + session_work s \<le> 10 * length (ap_requests s)"
proof (induction rule: api_history.induct)
  case set_up
  show ?case by (simp add: setupAxios_def session_work_def)
next
  case (issued k s verb)
  thus ?case by (simp add: issue_def session_work_def new_request_def request_work_def)
next
  case (stepped k s s')
  have "length (ap_requests s') = length (ap_requests s)"
    using stepped(2) by (cases rule: api_step_cases)
      (auto simp: onRequest_def onFetched_def onError_def onResponse_def expire_def take_token_def Let_def dest: ensure_frame(1) split: option.splits prod.splits sum.splits)
  thus ?case using stepped step_works [OF stepped(2) session_history_ok [OF stepped(1)]] by simp
qed

definition finished :: "api_request \<Rightarrow> bool" where
  "finished r \<longleftrightarrow> (case rq_phase r of Settled _ \<Rightarrow> True | Hanging \<Rightarrow> True | _ \<Rightarrow> False)"

lemma step_possible:
  assumes "session_ok s" "r \<in> set (ap_requests s)" "\<not> finished r"
  shows "\<exists>s'. api_step s s'"
proof -
  obtain i where i: "i < length (ap_requests s)" "r = ap_requests s ! i" using assms(2) by (auto simp: in_set_conv_nth)
  show ?thesis
  proof (cases "rq_phase r")
    case (Awaiting n retry)
    hence n: "n < length (ap_fetches s)" using request_at [OF assms(1) i(1)] i(2) by (simp add: request_ok_def)
    show ?thesis
    proof (cases "ap_fetches s ! n")
      case None
      thus ?thesis using n fetch_ends by blast
    next
      case (Some fetched)
      thus ?thesis using resumes [OF i(1) _ n Some] Awaiting i(2) by blast
    qed
  qed (use assms(3) i begins [OF i(1)] answered [OF i(1)] in \<open>auto simp: finished_def\<close>)
qed

text \<open>C11: Whatever the answers and however the requests interleave: \<open>n\<close> requests take at most \<open>10 n\<close>
  steps, and until all are finished a step is possible; a request is sent at most twice, the
  second time only after a 403; the page is redirected at most once, and the requests
  answered by a 401, which never settle, exist only after the redirect.\<close>
theorem api_requests_finish:
  assumes "api_history meta k s"
  shows "k \<le> 10 * length (ap_requests s)
    \<and> ((\<exists>s'. api_step s s') \<or> list_all finished (ap_requests s))
    \<and> list_all (\<lambda>r. length (rq_sent r) \<le> (if rq_retried r then 2 else 1) \<and> (finished r \<longrightarrow> rq_sent r \<noteq> [])) (ap_requests s)
    \<and> ap_redirects s \<le> 1 \<and> list_all (\<lambda>r. rq_phase r = Hanging \<longrightarrow> ap_redirects s = 1) (ap_requests s)"
proof -
  note ok = session_history_ok [OF assms]
  have r: "request_ok (length (ap_fetches s)) (ap_expired s) r" if "r \<in> set (ap_requests s)" for r
    using that ok by (auto simp: session_but_def requests_but_def in_set_conv_nth)
  have e: "ap_redirects s = (if ap_expired s then 1 else 0)" using ok by (simp add: session_but_def)
  have "length (rq_sent q) \<le> (if rq_retried q then 2 else 1) \<and> (finished q \<longrightarrow> rq_sent q \<noteq> []) \<and> (rq_phase q = Hanging \<longrightarrow> ap_redirects s = 1)"
    if "q \<in> set (ap_requests s)" for q
    using r [OF that] e by (auto simp: request_ok_def finished_def split: request_phase.splits if_splits)
  thus ?thesis
    using history_work [OF assms] step_possible [OF ok] e by (auto simp: list_all_iff)
qed

section \<open>Tokens\<close>

text \<open>Where a token comes from: the page, or else a fetch.\<close>

definition token_source :: "string option \<Rightarrow> api_session \<Rightarrow> string \<Rightarrow> bool" where
  "token_source meta s t \<longleftrightarrow> (case nonempty meta of Some m \<Rightarrow> t = m | None \<Rightarrow> Some (Some t) \<in> set (ap_fetches s))"

definition tokenless :: "string option \<Rightarrow> api_session \<Rightarrow> bool" where
  "tokenless meta s \<longleftrightarrow> nonempty meta = None \<and> (\<exists>x. Some x \<in> set (ap_fetches s) \<and> nonempty x = None)"

definition request_tokens :: "(string \<Rightarrow> bool) \<Rightarrow> bool \<Rightarrow> api_request \<Rightarrow> bool" where
  "request_tokens src none r \<longleftrightarrow> (\<forall>t. rq_header r = Some t \<longrightarrow> src t) \<and> (\<forall>t. Some t \<in> set (rq_sent r) \<longrightarrow> src t)
     \<and> (\<not> is_safe r \<longrightarrow> None \<in> set (rq_sent r) \<longrightarrow> none)"

definition tokens_ok :: "string option \<Rightarrow> api_session \<Rightarrow> bool" where
  "tokens_ok meta s \<longleftrightarrow> ap_meta s = meta \<and> (nonempty meta \<noteq> None \<longrightarrow> ap_fetches s = [])
     \<and> (\<forall>t. ap_csrfToken s = Some t \<longrightarrow> token_source meta s t)
     \<and> (\<forall>r \<in> set (ap_requests s). request_tokens (token_source meta s) (tokenless meta s) r)"

lemma request_tokens_mono:
  "request_tokens src none r \<Longrightarrow> (\<And>t. src t \<Longrightarrow> src' t) \<Longrightarrow> (none \<Longrightarrow> none') \<Longrightarrow> request_tokens src' none' r"
  by (auto simp: request_tokens_def)

lemma tokens_mono:
  assumes "tokens_ok meta s" "ap_meta s' = ap_meta s" "ap_requests s' = ap_requests s" "nonempty meta \<noteq> None \<longrightarrow> ap_fetches s' = []"
    and "\<And>x. Some x \<in> set (ap_fetches s) \<Longrightarrow> Some x \<in> set (ap_fetches s')"
    and "\<And>t. ap_csrfToken s' = Some t \<Longrightarrow> ap_csrfToken s = Some t \<or> token_source meta s' t"
  shows "tokens_ok meta s'"
proof -
  have src: "token_source meta s t \<Longrightarrow> token_source meta s' t" for t using assms(5) by (auto simp: token_source_def split: option.splits)
  have "tokenless meta s \<Longrightarrow> tokenless meta s'" using assms(5) by (auto simp: tokenless_def)
  thus ?thesis using assms(1-4,6) src by (auto simp: tokens_ok_def intro: request_tokens_mono)
qed

lemma tokens_upd:
  assumes "tokens_ok meta s" "request_tokens (token_source meta s) (tokenless meta s) (f (ap_requests s ! i))"
  shows "tokens_ok meta (upd_request i f s)"
proof -
  have "token_source meta (upd_request i f s) = token_source meta s" "tokenless meta (upd_request i f s) = tokenless meta s"
    by (intro ext, simp add: token_source_def split: option.split) (simp add: tokenless_def)
  thus ?thesis using assms set_update_subset_insert [of "ap_requests s" i "f (ap_requests s ! i)"] by (auto simp: tokens_ok_def)
qed

lemma tokens_ensure:
  assumes "tokens_ok meta s" "ensureCsrfToken s = (x, s')"
  shows "tokens_ok meta s'" "x = Inl t \<Longrightarrow> token_source meta s' t"
proof -
  show "tokens_ok meta s'"
    by (rule tokens_mono [OF assms(1)])
      (use assms in \<open>auto simp: ensureCsrfToken_def tokens_ok_def readMetaToken_def token_source_def Let_def split: option.splits\<close>)
  show "x = Inl t \<Longrightarrow> token_source meta s' t"
    using assms by (auto simp: ensureCsrfToken_def tokens_ok_def readMetaToken_def token_source_def Let_def split: option.splits)
qed

lemma tokens_at: "tokens_ok meta s \<Longrightarrow> i < length (ap_requests s) \<Longrightarrow> request_tokens (token_source meta s) (tokenless meta s) (ap_requests s ! i)"
  by (simp add: tokens_ok_def)

lemma request_tokens_simps [simp]:
  "request_tokens src none (moved p r) = request_tokens src none r" "request_tokens src none (r\<lparr>rq_retried := True\<rparr>) = request_tokens src none r"
  by (simp_all add: request_tokens_def moved_def is_safe_def)

lemma tokens_transmit:
  "request_tokens src none r \<Longrightarrow> (\<And>t. token = Some t \<Longrightarrow> src t) \<Longrightarrow> (token = None \<Longrightarrow> is_safe r \<or> none) \<Longrightarrow> request_tokens src none (transmitted token r)"
  by (cases token) (auto simp: request_tokens_def transmitted_def Let_def is_safe_def)

lemma tokens_restart: "request_tokens src none r \<Longrightarrow> src t \<Longrightarrow> request_tokens src none (restarted t r)"
  by (auto simp: request_tokens_def restarted_def is_safe_def)

lemma tokens_ensured:
  assumes "tokens_ok meta s" "i < length (ap_requests s)" "ensureCsrfToken s = (x, s')"
    and "\<And>src none r t. request_tokens src none r \<Longrightarrow> src t \<Longrightarrow> request_tokens src none (f t r)"
  shows "tokens_ok meta (case x of Inl t \<Rightarrow> upd_request i (f t) s' | Inr n \<Rightarrow> upd_request i (moved (p n)) s')"
  using tokens_ensure [OF assms(1,3)] assms(2) assms(4) tokens_at [of meta s' i] ensure_frame(1) [OF assms(3)]
  by (auto intro!: tokens_upd split: sum.splits)

lemma step_tokens:
  assumes "api_step s s'" "tokens_ok meta s"
  shows "tokens_ok meta s'"
  using assms(1)
proof (cases rule: api_step.cases)
  case (begins i)
  obtain x s1 where e: "ensureCsrfToken s = (x, s1)" by fastforce
  have "tokens_ok meta (case x of Inl t \<Rightarrow> upd_request i (transmitted (Some t)) s1 | Inr n \<Rightarrow> upd_request i (moved (Awaiting n False)) s1)"
    by (rule tokens_ensured [OF assms(2) begins(2) e]) (auto intro: tokens_transmit)
  moreover have "tokens_ok meta (upd_request i (transmitted None) s)" if "is_safe (ap_requests s ! i)"
    using that by (intro tokens_upd assms(2) tokens_transmit tokens_at begins(2)) auto
  ultimately show ?thesis using begins e by (simp add: onRequest_def)
next
  case (fetch_ends n fetched)
  show ?thesis unfolding fetch_ends(1)
  proof (rule tokens_mono [OF assms(2)])
    fix x assume "Some x \<in> set (ap_fetches s)"
    then obtain j where "j < length (ap_fetches s)" "ap_fetches s ! j = Some x" by (auto simp: in_set_conv_nth)
    thus "Some x \<in> set (ap_fetches (s\<lparr>ap_fetches := (ap_fetches s)[n := Some fetched]\<rparr>))"
      using fetch_ends(3) by (cases "j = n") (auto simp: in_set_conv_nth intro!: exI [of _ j])
  qed (use fetch_ends assms(2) in \<open>auto simp: tokens_ok_def\<close>)
next
  case (resumes i n retry fetched)
  obtain token s1 where t: "take_token fetched s = (token, s1)" by fastforce
  have m: "Some fetched \<in> set (ap_fetches s)" using resumes(4,5) nth_mem by metis
  hence none: "nonempty meta = None" using assms(2) by (auto simp: tokens_ok_def)
  have src: "token_source meta s1 tk" if "nonempty fetched = Some tk" for tk
    using that m none t by (auto simp: token_source_def nonempty_def take_token_def Let_def split: if_splits)
  have ok: "tokens_ok meta s1"
    by (rule tokens_mono [OF assms(2)]) (use t src assms(2) in \<open>auto simp: take_token_def tokens_ok_def Let_def split: option.splits\<close>)
  have tk: "ap_csrfToken s1 = token" "ap_requests s1 = ap_requests s" "ap_fetches s1 = ap_fetches s" using t by (auto simp: take_token_def Let_def)
  have bad: "tokenless meta s1" if "token = None"
    using that t m none tk by (auto simp: tokenless_def take_token_def Let_def split: option.splits)
  have "token_source meta s1 t'" if "token = Some t'" for t' using ok tk(1) that by (simp add: tokens_ok_def)
  thus ?thesis using resumes(1,2) ok bad tokens_at [OF ok, of i] tk(2)
    by (auto simp: onFetched_def t intro!: tokens_upd tokens_transmit tokens_restart split: option.splits)
next
  case (answered i)
  thus ?thesis using tokens_at [OF assms(2)] assms(2) by (auto simp: onResponse_def intro!: tokens_upd)
next
  case (fails i status)
  let ?s = "upd_request i (\<lambda>r. r\<lparr>rq_retried := True\<rparr>) (s\<lparr>ap_csrfToken := None\<rparr>)"
  obtain x s1 where e: "ensureCsrfToken ?s = (x, s1)" by fastforce
  have "tokens_ok meta (s\<lparr>ap_csrfToken := None\<rparr>)" "tokens_ok meta (expire s)"
    by (rule tokens_mono [OF assms(2)]; use assms(2) in \<open>auto simp: tokens_ok_def expire_def\<close>)+
  moreover from this have "tokens_ok meta ?s" using fails(2) tokens_at [of meta "s\<lparr>ap_csrfToken := None\<rparr>" i] by (intro tokens_upd) simp_all
  hence "tokens_ok meta (case x of Inl t \<Rightarrow> upd_request i (restarted t) s1 | Inr n \<Rightarrow> upd_request i (moved (Awaiting n True)) s1)"
    by (rule tokens_ensured [OF _ _ e]) (use fails(2) in \<open>auto intro: tokens_restart\<close>)
  moreover have "ap_requests (expire s) = ap_requests s" by (simp add: expire_def)
  ultimately show ?thesis
    using fails(1,2) e tokens_at [OF assms(2)] tokens_at [of meta "expire s" i] assms(2) by (auto simp: onError_def intro!: tokens_upd)
qed

lemma history_tokens: "api_history meta k s \<Longrightarrow> tokens_ok meta s"
proof (induction rule: api_history.induct)
  case set_up
  show ?case by (auto simp: setupAxios_def tokens_ok_def token_source_def)
next
  case (issued k s verb)
  have "token_source meta (issue verb s) = token_source meta s" "tokenless meta (issue verb s) = tokenless meta s"
    by (intro ext, simp add: token_source_def issue_def split: option.split) (simp add: tokenless_def issue_def)
  thus ?case using issued(2) by (auto simp: tokens_ok_def issue_def new_request_def request_tokens_def)
next
  case (stepped k s s')
  thus ?case using step_tokens by blast
qed

text \<open>C19: Every transmission of a request that changes state carries the token of the page, when the page has
  one, also the second attempt after a 403, so no token is ever fetched then; without a page token it
  carries a token that a fetch delivered, or none after a fetch that delivered none.\<close>
theorem csrf_token_sent:
  assumes "api_history meta k s" and "r \<in> set (ap_requests s)" and "\<not> is_safe r" and "h \<in> set (rq_sent r)"
  shows "case nonempty meta of
      Some m \<Rightarrow> h = Some m \<and> ap_fetches s = []
    | None \<Rightarrow> (case h of Some t \<Rightarrow> Some (Some t) \<in> set (ap_fetches s) | None \<Rightarrow> \<exists>x. Some x \<in> set (ap_fetches s) \<and> nonempty x = None)"
proof -
  have "tokens_ok meta s" by (rule history_tokens [OF assms(1)])
  thus ?thesis using assms(2-4)
    by (cases h) (fastforce simp: tokens_ok_def request_tokens_def token_source_def tokenless_def split: option.splits)+
qed

section \<open>Witnesses\<close>

text \<open>A request refused with a 403 on a page with a token: the second attempt carries the same token.\<close>

definition refused_session :: api_session where
  "refused_session = onRequest 0 (onError 0 (Some 403) (onRequest 0 (issue ''POST'' (setupAxios (Some ''tok'')))))"

lemmas session_defs = onRequest_def onError_def issue_def setupAxios_def new_request_def is_safe_def SAFE_METHODS_def
  ensureCsrfToken_def nonempty_def upd_request_def transmitted_def restarted_def readMetaToken_def Let_def

lemma refused_history: "api_history (Some ''tok'') 3 refused_session"
proof -
  let ?a = "issue ''POST'' (setupAxios (Some ''tok''))" let ?b = "onRequest 0 ?a" let ?c = "onError 0 (Some 403) ?b"
  have "api_step ?a ?b" "api_step ?b ?c" "api_step ?c (onRequest 0 ?c)"
    by (rule begins fails; simp add: session_defs)+
  hence "api_history (Some ''tok'') (Suc (Suc (Suc 0))) refused_session"
    unfolding refused_session_def by (meson api_history.intros)
  thus ?thesis by (simp add: eval_nat_numeral)
qed

lemma refused_requests: "ap_requests refused_session
    = [\<lparr>rq_method = ''POST'', rq_header = Some ''tok'', rq_retried = True, rq_phase = In_Flight, rq_sent = [Some ''tok'', Some ''tok'']\<rparr>]"
  by (simp add: refused_session_def session_defs)

theorem api_requests_finish_witness:
  "3 \<le> 10 * length (ap_requests refused_session) \<and> ap_redirects refused_session \<le> 1"
  using api_requests_finish [OF refused_history] by simp

theorem csrf_token_sent_witness: "ap_fetches refused_session = []"
  using csrf_token_sent [OF refused_history, of "hd (ap_requests refused_session)" "Some ''tok''"]
  by (simp add: refused_requests is_safe_def SAFE_METHODS_def nonempty_def)

end
