(* ===== verification/Http_Messages.thy ===== *)
theory Http_Messages
  imports Link_Parser
begin

text \<open>
  The messages the panel makes of HTTP answers (\<open>HttpUtil\<close> of \<open>frontend/src/utils/index.ts\<close>,
  \<open>utils/zodValidate.ts\<close>) and the invalidation of cached queries by WebSocket notifications
  (\<open>api/websocketBridge.ts\<close>, \<open>api/invalidationTracker.ts\<close>). A zod schema is a parameter: the data it
  delivers, or \<^term>\<open>None\<close>.
\<close>

section \<open>Messages\<close>

text \<open>An instance of \<open>Msg\<close>, or a value that is only cast to it.\<close>

datatype http_msg = Msg bool string jv | Cast jv

datatype toast = Toast_Success string | Toast_Error string | Toast_Pending

text \<open>What \<open>axios\<close> gives: the data of an answer, or an error with the data of its response and its text.\<close>

datatype http_result = Http_Ok jv | Http_Failed jv string

definition text_of :: "jv \<Rightarrow> string" where
  "text_of v = (case v of JStr s \<Rightarrow> s | _ \<Rightarrow> [])"

definition respToMsg :: "jv \<Rightarrow> http_msg" where
  "respToMsg data =
     (if \<not> truthy data then Msg False ''No response data'' JNull
      else case data of
        JObj ps \<Rightarrow>
          if ''success'' \<in> set (okeys ps)
          then Msg (truthy (oget ps ''success'')) (text_of (oget ps ''msg'')) (if oget ps ''obj'' = JUndef then JNull else oget ps ''obj'')
          else Cast data
      | JArr _ \<Rightarrow> Cast data
      | _ \<Rightarrow> Msg False ''unknown data:'' data)"

definition handleMsg :: "http_msg \<Rightarrow> toast list" where
  "handleMsg m =
     (case m of
        Cast _ \<Rightarrow> []
      | Msg success text ob \<Rightarrow>
          if text = [] then []
          else (if success then Toast_Success text else Toast_Error text)
            # (if success \<and> opt_prop ob ''nodePending'' = JBool True then [Toast_Pending] else []))"

text \<open>\<open>HttpUtil.get\<close> and \<open>HttpUtil.post\<close>; the message of an error is a text.\<close>

definition failure_text :: "jv \<Rightarrow> string \<Rightarrow> string" where
  "failure_text data message =
     (if text_of (opt_prop data ''message'') \<noteq> [] then text_of (opt_prop data ''message'')
      else if message \<noteq> [] then message else ''Request failed'')"

definition http_call :: "bool \<Rightarrow> http_result \<Rightarrow> http_msg \<times> toast list" where
  "http_call silent result =
     (let m = (case result of Http_Ok data \<Rightarrow> respToMsg data | Http_Failed data message \<Rightarrow> Msg False (failure_text data message) JNull)
      in (m, if silent then [] else handleMsg m))"

datatype modal_event = Modal_Loading bool | Modal_Close

definition postWithModal :: "bool \<Rightarrow> http_result \<Rightarrow> http_msg \<times> toast list \<times> modal_event list" where
  "postWithModal modal result =
     (case http_call False result of
        (m, toasts) \<Rightarrow> (m, toasts,
          if \<not> modal then []
          else [Modal_Loading True, Modal_Loading False] @ (case m of Msg True _ _ \<Rightarrow> [Modal_Close] | _ \<Rightarrow> [])))"

definition parseMsg :: "(jv \<Rightarrow> jv option) \<Rightarrow> http_msg \<Rightarrow> http_msg" where
  "parseMsg schema m =
     (case m of
        Cast _ \<Rightarrow> m
      | Msg success text ob \<Rightarrow>
          if \<not> success \<or> ob = JNull \<or> ob = JUndef then m
          else (case schema ob of None \<Rightarrow> m | Some data \<Rightarrow> Msg success text data))"

section \<open>What the user sees\<close>

definition success_of :: "http_msg \<Rightarrow> bool" where
  "success_of m = (case m of Msg s _ _ \<Rightarrow> s | Cast v \<Rightarrow> truthy (opt_prop v ''success''))"

text \<open>A request that fails is reported by exactly one error; silent ones show nothing; a dialog that was
  set to loading stops loading, and it closes only after a success.\<close>

theorem http_failures_reported:
  "(\<exists>e. e \<noteq> [] \<and> http_call False (Http_Failed data message) = (Msg False e JNull, [Toast_Error e]))
    \<and> snd (http_call True r) = [] \<and> fst (http_call True r) = fst (http_call False r)
    \<and> (\<exists>m toasts events. postWithModal True r = (m, toasts, [Modal_Loading True, Modal_Loading False] @ events) \<and> (events \<noteq> [] \<longrightarrow> success_of m))"
proof -
  have "failure_text data message \<noteq> []" by (simp add: failure_text_def)
  hence "\<exists>e. e \<noteq> [] \<and> http_call False (Http_Failed data message) = (Msg False e JNull, [Toast_Error e])"
    by (simp add: http_call_def handleMsg_def)
  moreover have "\<exists>m toasts events. postWithModal True r = (m, toasts, [Modal_Loading True, Modal_Loading False] @ events) \<and> (events \<noteq> [] \<longrightarrow> success_of m)"
    by (auto simp: postWithModal_def success_of_def split: prod.split http_msg.split bool.split)
  ultimately show ?thesis by (simp add: http_call_def Let_def)
qed

text \<open>A schema never changes whether a message is a success, nor its text.\<close>

lemma parseMsg_keeps: "success_of (parseMsg schema m) = success_of m"
  by (auto simp: parseMsg_def success_of_def split: http_msg.split option.split)

section \<open>Invalidation\<close>

text \<open>Times in milliseconds. The timer holds the kind of its notification and when it is due; the log, what was
  invalidated and when.\<close>

record bridge =
  br_timer :: "(string \<times> nat) option"
  br_lastLocal :: nat
  br_log :: "(string \<times> nat) list"

definition isRecentLocalInvalidate :: "nat \<Rightarrow> bridge \<Rightarrow> bool" where
  "isRecentLocalInvalidate now b \<longleftrightarrow> now < br_lastLocal b + 1500"

definition markLocalInvalidate :: "nat \<Rightarrow> bridge \<Rightarrow> bridge" where
  "markLocalInvalidate now b = b\<lparr>br_lastLocal := now\<rparr>"

definition onInvalidate :: "string \<Rightarrow> nat \<Rightarrow> bridge \<Rightarrow> bridge" where
  "onInvalidate type now b = (if type \<noteq> ''inbounds'' \<and> type \<noteq> ''clients'' then b else b\<lparr>br_timer := Some (type, now + 200)\<rparr>)"

definition bridge_timer :: "bridge \<Rightarrow> bridge" where
  "bridge_timer b =
     (case br_timer b of
        None \<Rightarrow> b
      | Some (type, due) \<Rightarrow>
          (let b = b\<lparr>br_timer := None\<rparr>
           in if isRecentLocalInvalidate due b then b else b\<lparr>br_log := br_log b @ [(type, due)]\<rparr>))"

definition bridge_unmount :: "bridge \<Rightarrow> bridge" where
  "bridge_unmount b = b\<lparr>br_timer := None\<rparr>"

text \<open>Both kinds share one timer: a notification of clients within 200 ms after one of inbounds replaces it, and the
  inbounds are never invalidated.\<close>

lemma inbounds_notification_lost:
  assumes "br_lastLocal b + 1500 \<le> t" and "br_log b = []"
  shows "br_log (bridge_timer (onInvalidate ''clients'' (t + 100) (onInvalidate ''inbounds'' t b))) = [(''clients'', t + 300)]
    \<and> br_timer (bridge_timer (onInvalidate ''clients'' (t + 100) (onInvalidate ''inbounds'' t b))) = None"
  using assms by (simp add: onInvalidate_def bridge_timer_def isRecentLocalInvalidate_def Let_def)

end
