(* ===== verification/Xray_Editor.thy ===== *)
theory Xray_Editor
  imports Xray_Template
begin

text \<open>
  The editor of the Xray template: the text and the parsed template that
  \<open>frontend/src/hooks/useXraySetting.ts\<close> keeps in step, the advanced texts of \<open>pages/xray/XrayPage.tsx\<close>,
  saving, the refetch after it and the poll that enables the save button. The server is a parameter: what it
  stores for a text it accepts. A mutator works on a deep copy, so it is a function of the template.
\<close>

section \<open>State\<close>

text \<open>\<open>xe_config\<close> is the cached answer of the config query (template, test URL, and the lists of tags beside them), \<open>xe_saving\<close> the saves under way, in order.\<close>

record editor =
  xe_text :: string
  xe_template :: jv
  xe_url :: string
  xe_oldText :: string
  xe_oldUrl :: string
  xe_saveDisabled :: bool
  xe_config :: "((jv \<times> string) \<times> jv) option"
  xe_saving :: "(string \<times> string) list"

definition DEFAULT_TEST_URL :: string where
  "DEFAULT_TEST_URL = ''https://www.google.com/generate_204''"

definition new_editor :: editor where
  "new_editor = \<lparr>xe_text = [], xe_template = JNull, xe_url = DEFAULT_TEST_URL, xe_oldText = [], xe_oldUrl = [],
     xe_saveDisabled = True, xe_config = None, xe_saving = []\<rparr>"

definition pretty_text :: "jv \<Rightarrow> string" where
  "pretty_text v = (case JSON_pretty 0 v of None \<Rightarrow> [] | Some t \<Rightarrow> t)"

definition or_url :: "string \<Rightarrow> string" where
  "or_url u = (if u = [] then DEFAULT_TEST_URL else u)"

section \<open>Operations\<close>

text \<open>The effect that seeds the editor when the data of the query has changed.\<close>

definition seed_editor :: "(jv \<times> string) \<times> jv \<Rightarrow> editor \<Rightarrow> editor" where
  "seed_editor config e =
     (if xe_config e = Some config then e
      else
        (let (setting, url) = fst config
         in e\<lparr>xe_text := pretty_text setting, xe_template := setting, xe_oldText := pretty_text setting,
              xe_url := or_url url, xe_oldUrl := or_url url, xe_saveDisabled := True, xe_config := Some config\<rparr>))"

definition setXraySetting :: "string \<Rightarrow> editor \<Rightarrow> editor" where
  "setXraySetting text e =
     (case JSON_parse text of
        Some v \<Rightarrow> e\<lparr>xe_text := text, xe_template := v\<rparr>
      | None \<Rightarrow> e\<lparr>xe_text := text\<rparr>)"

definition setTemplateSettings :: "(jv \<Rightarrow> jv) \<Rightarrow> editor \<Rightarrow> editor" where
  "setTemplateSettings f e =
     (let v = f (xe_template e)
      in if v = JNull \<or> v = JUndef then e\<lparr>xe_template := v\<rparr> else e\<lparr>xe_text := pretty_text v, xe_template := v\<rparr>)"

definition mutate_template :: "(jv \<Rightarrow> jv) \<Rightarrow> editor \<Rightarrow> editor" where
  "mutate_template f = setTemplateSettings (\<lambda>prev. if truthy prev then f prev else prev)"

definition setOutboundTestUrl :: "string \<Rightarrow> editor \<Rightarrow> editor" where
  "setOutboundTestUrl u e = e\<lparr>xe_url := u\<rparr>"

definition resetToDefault :: "jv \<Rightarrow> editor \<Rightarrow> editor" where
  "resetToDefault dflt = setTemplateSettings (\<lambda>_. dflt)"

text \<open>The advanced texts: the whole template or one section of it. A section is set in a template that is an object.\<close>

datatype adv_key = Adv_All | Adv_Inbounds | Adv_Outbounds | Adv_Rules

definition section_value :: "adv_key \<Rightarrow> jv \<Rightarrow> jv" where
  "section_value key t =
     or_truthy (case key of Adv_Inbounds \<Rightarrow> opt_prop t ''inbounds'' | Adv_Outbounds \<Rightarrow> opt_prop t ''outbounds''
       | _ \<Rightarrow> opt_prop (opt_prop t ''routing'') ''rules'') (JArr [])"

definition advancedText :: "adv_key \<Rightarrow> editor \<Rightarrow> string" where
  "advancedText key e =
     (if key = Adv_All then xe_text e
      else if \<not> truthy (xe_template e) then []
      else pretty_text (section_value key (xe_template e)))"

definition set_section :: "adv_key \<Rightarrow> jv \<Rightarrow> jv \<Rightarrow> jv" where
  "set_section key v t =
     (case key of
        Adv_Inbounds \<Rightarrow> set_prop ''inbounds'' v t
      | Adv_Outbounds \<Rightarrow> set_prop ''outbounds'' v t
      | _ \<Rightarrow> set_prop ''routing'' (set_prop ''rules'' v (or_truthy (opt_prop t ''routing'') (JObj []))) t)"

definition onAdvancedTextChange :: "adv_key \<Rightarrow> string \<Rightarrow> editor \<Rightarrow> editor" where
  "onAdvancedTextChange key text e =
     (if key = Adv_All then setXraySetting text e
      else case JSON_parse text of None \<Rightarrow> e | Some v \<Rightarrow> mutate_template (set_section key v) e)"

text \<open>Saving: a text that does not parse is refused; the request carries the text and URL of the moment it is sent.\<close>

definition onSaveAll :: "editor \<Rightarrow> editor" where
  "onSaveAll e = (if JSON_parse (xe_text e) = None then e else e\<lparr>xe_saving := xe_saving e @ [(xe_text e, or_url (xe_url e))]\<rparr>)"

definition save_succeeded :: "string \<times> string \<Rightarrow> editor \<Rightarrow> editor" where
  "save_succeeded sent e = e\<lparr>xe_oldText := fst sent, xe_oldUrl := snd sent, xe_saveDisabled := True\<rparr>"

definition poll_dirty :: "editor \<Rightarrow> editor" where
  "poll_dirty e = e\<lparr>xe_saveDisabled := \<not> (xe_oldText e \<noteq> xe_text e \<or> xe_oldUrl e \<noteq> xe_url e)\<rparr>"

section \<open>Runs\<close>

text \<open>\<open>accept\<close> is the server: the template it stores for a text. The second component of a state is what it
  has stored; a refetch may bring other tags beside it. What users and mutators put in has the values JSON carries.\<close>

inductive editor_run :: "(string \<Rightarrow> jv option) \<Rightarrow> editor \<Rightarrow> jv \<times> string \<Rightarrow> bool" for accept where
  mounted: "json_value (fst stored) \<Longrightarrow> editor_run accept new_editor stored"
| refetched: "editor_run accept e stored \<Longrightarrow> editor_run accept (seed_editor (stored, other) e) stored"
| text_typed: "editor_run accept e stored \<Longrightarrow> (\<And>v. JSON_parse text = Some v \<Longrightarrow> json_value v) \<Longrightarrow>
    editor_run accept (onAdvancedTextChange key text e) stored"
| mutated: "editor_run accept e stored \<Longrightarrow> (\<And>v. json_value v \<Longrightarrow> truthy v \<Longrightarrow> json_value (f v) \<and> f v \<noteq> JNull) \<Longrightarrow>
    editor_run accept (mutate_template f e) stored"
| reset: "editor_run accept e stored \<Longrightarrow> json_value dflt \<Longrightarrow> dflt \<noteq> JNull \<Longrightarrow> editor_run accept (resetToDefault dflt e) stored"
| url_typed: "editor_run accept e stored \<Longrightarrow> editor_run accept (setOutboundTestUrl u e) stored"
| save_sent: "editor_run accept e stored \<Longrightarrow> editor_run accept (onSaveAll e) stored"
| saved: "editor_run accept e stored \<Longrightarrow> xe_saving e = sent # rest \<Longrightarrow> accept (fst sent) = Some v \<Longrightarrow> json_value v \<Longrightarrow>
    editor_run accept (save_succeeded sent (e\<lparr>xe_saving := rest\<rparr>)) (v, snd sent)"
| refused: "editor_run accept e stored \<Longrightarrow> xe_saving e = sent # rest \<Longrightarrow> editor_run accept (e\<lparr>xe_saving := rest\<rparr>) stored"
| polled: "editor_run accept e stored \<Longrightarrow> editor_run accept (poll_dirty e) stored"

section \<open>Text and template agree\<close>

lemma opt_prop_value: "json_value v \<Longrightarrow> json_value (opt_prop v k) \<or> opt_prop v k = JUndef"
  by (cases v) (auto simp: opt_prop_def oget_def split: option.split dest!: map_of_SomeD)

lemma section_value_json:
  assumes "json_value t"
  shows "json_value (section_value key t)"
proof -
  have "json_value (opt_prop (opt_prop t a) b) \<or> opt_prop (opt_prop t a) b = JUndef" for a b
    using opt_prop_value [OF assms, of a] opt_prop_value [of "opt_prop t a" b] by (auto simp: opt_prop_def)
  moreover have "json_value (or_truthy x (JArr []))" if "json_value x \<or> x = JUndef" for x
    using that by (auto simp: or_truthy_def)
  ultimately show ?thesis using opt_prop_value [OF assms] by (cases key) (simp_all add: section_value_def)
qed

lemma js_keys_oset:
  assumes "js_keys ps = okeys ps" "\<not> is_array_index k"
  shows "js_keys (oset k v ps) = okeys (oset k v ps)"
proof (cases "k \<in> set (okeys ps)")
  case True
  hence "okeys (oset k v ps) = okeys ps" by (induction ps) auto
  thus ?thesis using assms(1) by (simp add: js_keys_def)
next
  case False
  hence "okeys (oset k v ps) = okeys ps @ [k]" by (induction ps) auto
  thus ?thesis using assms by (simp add: js_keys_def)
qed

lemma json_value_oset:
  assumes "json_value (JObj ps)" "\<not> is_array_index k" "json_value v"
  shows "json_value (JObj (oset k v ps))"
proof -
  have "set (oset k v ps) \<subseteq> insert (k, v) (set ps)" by (induction ps) auto
  thus ?thesis using assms js_keys_oset [of ps k v] by fastforce
qed

lemma set_prop_value: "json_value t \<Longrightarrow> \<not> is_array_index k \<Longrightarrow> json_value v \<Longrightarrow> json_value (set_prop k v t) \<and> (t \<noteq> JNull \<longrightarrow> set_prop k v t \<noteq> JNull)"
  by (cases t) (auto simp: set_prop_def json_value_oset simp del: json_value.simps(7))

lemma set_section_value:
  assumes "json_value t" "json_value v" "truthy t"
  shows "json_value (set_section key v t) \<and> set_section key v t \<noteq> JNull"
proof -
  have i: "\<not> is_array_index ''inbounds''" "\<not> is_array_index ''outbounds''" "\<not> is_array_index ''routing''" "\<not> is_array_index ''rules''"
    by (simp_all add: is_array_index_def is_digit_def)
  have "json_value (JObj [])" by (simp add: wf_obj_def js_keys_def)
  hence r: "json_value (or_truthy (opt_prop t ''routing'') (JObj []))"
    using opt_prop_value [OF assms(1), of "''routing''"] by (auto simp: or_truthy_def simp del: json_value.simps)
  have "t \<noteq> JNull" using assms(3) by auto
  thus ?thesis using set_prop_value [OF assms(1) i(1) assms(2)] set_prop_value [OF assms(1) i(2) assms(2)]
      set_prop_value [OF assms(1) i(3) conjunct1 [OF set_prop_value [OF r i(4) assms(2)]]]
    by (cases key) (simp_all add: set_section_def)
qed

lemma pretty_text_parses: "json_value v \<Longrightarrow> JSON_parse (pretty_text v) = Some v"
  using json_pretty_roundtrip [of v 0] by (auto simp: pretty_text_def)

definition in_sync :: "editor \<Rightarrow> bool" where
  "in_sync e \<longleftrightarrow> json_value (xe_template e) \<and> (\<forall>v. JSON_parse (xe_text e) = Some v \<longrightarrow> xe_template e = v)"

lemma in_sync_template:
  assumes "in_sync e" "json_value (f (xe_template e))" "f (xe_template e) = JNull \<longrightarrow> xe_template e = JNull"
  shows "in_sync (setTemplateSettings f e)"
  using assms pretty_text_parses [OF assms(2)] by (auto simp: in_sync_def setTemplateSettings_def Let_def)

lemma in_sync_mutate:
  assumes "in_sync e" "\<And>v. json_value v \<Longrightarrow> truthy v \<Longrightarrow> json_value (f v) \<and> f v \<noteq> JNull"
  shows "in_sync (mutate_template f e)"
  unfolding mutate_template_def
  by (rule in_sync_template [OF assms(1)]) (use assms in \<open>auto simp: in_sync_def\<close>)

lemma in_sync_typed:
  assumes "in_sync e" "\<And>v. JSON_parse text = Some v \<Longrightarrow> json_value v"
  shows "in_sync (onAdvancedTextChange key text e)"
proof (cases "key = Adv_All")
  case True
  thus ?thesis using assms by (auto simp: onAdvancedTextChange_def setXraySetting_def in_sync_def split: option.split)
next
  case False
  have "in_sync (mutate_template (set_section key v) e)" if "JSON_parse text = Some v" for v
    by (rule in_sync_mutate [OF assms(1)]) (use set_section_value assms(2) [OF that] in blast)
  thus ?thesis using False assms(1) by (auto simp: onAdvancedTextChange_def split: option.split)
qed

lemma run_in_sync: "editor_run accept e stored \<Longrightarrow> in_sync e \<and> json_value (fst stored)"
proof (induction rule: editor_run.induct)
  case (mounted stored)
  have "JSON_parse [] = None" by (simp add: JSON_parse_def skip_ws_def)
  thus ?case using mounted by (simp add: in_sync_def new_editor_def)
next
  case (refetched e stored other)
  thus ?case using pretty_text_parses by (auto simp: in_sync_def seed_editor_def split: prod.split)
next
  case (text_typed e stored typing key)
  thus ?case using in_sync_typed by blast
next
  case (mutated e stored f)
  thus ?case using in_sync_mutate by blast
next
  case (reset e stored dflt)
  thus ?case using in_sync_template [of e "\<lambda>_. dflt"] by (simp add: resetToDefault_def)
qed (simp_all add: in_sync_def setOutboundTestUrl_def onSaveAll_def save_succeeded_def poll_dirty_def)

text \<open>C8: After any sequence of edits, saves and refetches a text that parses parses to the template, so what is
  saved is what the tabs show; the text of a section parses to that section; and after a poll the save
  button is off exactly when text and test URL are the ones last loaded or saved.\<close>
theorem editor_in_sync:
  assumes "editor_run accept e stored"
  shows "(\<forall>v. JSON_parse (xe_text e) = Some v \<longrightarrow> xe_template e = v)
    \<and> (truthy (xe_template e) \<and> key \<noteq> Adv_All \<longrightarrow> JSON_parse (advancedText key e) = Some (section_value key (xe_template e)))
    \<and> (xe_saveDisabled (poll_dirty e) \<longleftrightarrow> xe_text e = xe_oldText e \<and> xe_url e = xe_oldUrl e)"
  using run_in_sync [OF assms] pretty_text_parses [OF section_value_json, of "xe_template e" key]
  by (auto simp: in_sync_def advancedText_def poll_dirty_def)

text \<open>Saving without an edit in between, to a server that stores what the text says: the text that is sent parses
  to the template shown, and after the answer, the refetch and a poll the editor shows what the
  server stores and has nothing left to save.\<close>
theorem editor_save_settles:
  assumes "editor_run accept e stored" and "xe_saving e = []" and "JSON_parse (xe_text e) = Some v" and "xe_url e \<noteq> []"
    and "e' = poll_dirty (seed_editor ((v, xe_url e), other) (save_succeeded (hd (xe_saving (onSaveAll e))) ((onSaveAll e)\<lparr>xe_saving := []\<rparr>)))"
  shows "xe_saving (onSaveAll e) = [(xe_text e, xe_url e)] \<and> xe_template e = v
    \<and> xe_template e' = v \<and> JSON_parse (xe_text e') = Some v \<and> xe_url e' = xe_url e \<and> xe_saveDisabled e'"
proof -
  have t: "xe_template e = v" "json_value v" using run_in_sync [OF assms(1)] assms(3) by (auto simp: in_sync_def)
  show ?thesis using t assms(2-4) pretty_text_parses [OF t(2)]
    by (simp add: assms(5) onSaveAll_def save_succeeded_def seed_editor_def poll_dirty_def or_url_def)
qed

text \<open>A refetch whose answer differs from the cached one in any part, also only in the lists of tags, replaces unsaved edits.\<close>

lemma refetch_discards_edits:
  assumes "xe_config e \<noteq> Some (stored, other)"
  shows "xe_template (seed_editor (stored, other) e) = fst stored \<and> xe_text (seed_editor (stored, other) e) = pretty_text (fst stored)
    \<and> xe_saveDisabled (seed_editor (stored, other) e)"
  using assms by (simp add: seed_editor_def split: prod.split)

section \<open>Witnesses\<close>

definition loaded_editor :: editor where
  "loaded_editor = seed_editor ((JObj [(''routing'', JObj [])], ''http://t''), JNull) new_editor"

lemma loaded_run: "editor_run JSON_parse loaded_editor (JObj [(''routing'', JObj [])], ''http://t'')"
  unfolding loaded_editor_def
  by (rule refetched, rule mounted) (simp add: wf_obj_def js_keys_def is_array_index_def is_digit_def)

theorem editor_in_sync_witness:
  "xe_saveDisabled (poll_dirty loaded_editor) \<and> JSON_parse (advancedText Adv_Rules loaded_editor) = Some (JArr [])"
  using editor_in_sync [OF loaded_run, of Adv_Rules]
  by (simp add: loaded_editor_def seed_editor_def new_editor_def section_value_def opt_prop_def oget_def or_truthy_def or_url_def)

theorem editor_save_settles_witness:
  "xe_saving (onSaveAll loaded_editor) = [(pretty_text (JObj [(''routing'', JObj [])]), ''http://t'')]"
  using editor_save_settles [OF loaded_run, where v = "JObj [(''routing'', JObj [])]", OF _ _ _ refl]
    pretty_text_parses [of "JObj [(''routing'', JObj [])]"]
  by (simp add: loaded_editor_def seed_editor_def new_editor_def or_url_def wf_obj_def js_keys_def is_array_index_def is_digit_def)

end
