(* ===== verification/Host_Overrides.thy ===== *)
theory Host_Overrides
  imports Json_Text Share_Links
begin

text \<open>
  The JSON overrides of a host (\<open>frontend/src/pages/hosts/json-forms\<close>): a form edits one subtree of an
  object, and what it reports is a text in which only the values that were set appear. Then a host as an
  external proxy of a share link (\<open>lib/hosts/host-link.ts\<close>). Object keys named \<open>__proto__\<close> are left aside.
\<close>

section \<open>Texts and objects\<close>

definition parseJsonObject :: "string \<Rightarrow> jobj" where
  "parseJsonObject raw = (if raw = [] then [] else case JSON_parse raw of Some (JObj ps) \<Rightarrow> ps | _ \<Rightarrow> [])"

text \<open>\<open>undefined\<close> stands for a value that is dropped.\<close>

definition keep_member :: "string \<Rightarrow> jv \<Rightarrow> jobj" where
  "keep_member k v = (if v = JUndef then [] else [(k, v)])"

function (sequential) pruneEmptyDeep :: "jv \<Rightarrow> jv" where
  "pruneEmptyDeep (JArr xs) = (let ys = filter (\<lambda>v. v \<noteq> JUndef) (map pruneEmptyDeep xs) in if ys = [] then JUndef else JArr ys)"
| "pruneEmptyDeep (JObj ps) =
     (let out = concat (map (\<lambda>k. case map_of ps k of None \<Rightarrow> [] | Some v \<Rightarrow> keep_member k (pruneEmptyDeep v)) (js_keys ps))
      in if out = [] then JUndef else JObj out)"
| "pruneEmptyDeep v = (if v = JStr [] \<or> v = JNull then JUndef else v)"
  by pat_completeness auto

termination
proof (relation "measure size")
  fix x :: jv and xs assume "x \<in> set xs"
  then show "(x, JArr xs) \<in> measure size" by (induction xs) auto
next
  fix ps :: jobj and k and v :: jv assume "map_of ps k = Some v"
  from map_of_size [OF this] show "(v, JObj ps) \<in> measure size" by simp
qed simp

definition serializeOverride :: "jv \<Rightarrow> string" where
  "serializeOverride value =
     (let pruned = pruneEmptyDeep value in if pruned = JUndef then [] else (case JSON_stringify pruned of None \<Rightarrow> [] | Some s \<Rightarrow> s))"

definition nestAtPath :: "string list \<Rightarrow> jv \<Rightarrow> jv" where
  "nestAtPath path leaf = foldr (\<lambda>k acc. JObj [(k, acc)]) path leaf"

section \<open>The forms\<close>

text \<open>\<open>OutboundSubtreeJsonForm\<close>: the subtree the form starts with, and what its effect reports.\<close>

definition initial_subtree :: "jobj \<Rightarrow> string \<Rightarrow> jv" where
  "initial_subtree defaultSubtree value =
     (let parsed = parseJsonObject value; initial = (if parsed \<noteq> [] then parsed else defaultSubtree)
      in if initial = [] then JUndef else JObj initial)"

definition reported :: "(jv \<Rightarrow> string) \<Rightarrow> string \<Rightarrow> jv \<Rightarrow> string option" where
  "reported serialize value subtree = (let t = serialize subtree in if t \<noteq> value then Some t else None)"

definition DEFAULT_MUX :: jobj where
  "DEFAULT_MUX = [(''enabled'', JBool False), (''concurrency'', JNum (num 8)), (''xudpConcurrency'', JNum (num 16)), (''xudpProxyUDP443'', JStr ''reject'')]"

definition serialize_mux :: "jv \<Rightarrow> string" where
  "serialize_mux mux = (if truthy (opt_prop mux ''enabled'') then serializeOverride mux else [])"

definition INBOUND_ONLY_SOCKOPT :: "string list" where
  "INBOUND_ONLY_SOCKOPT = [''acceptProxyProtocol'', ''V6Only'', ''trustedXForwardedFor'']"

text \<open>The spread of an array has its indices as keys.\<close>

definition serializeClientSockopt :: "jv \<Rightarrow> string" where
  "serializeClientSockopt sockopt =
     (case sockopt of
        JObj ps \<Rightarrow> serializeOverride (JObj (fold odel INBOUND_ONLY_SOCKOPT ps))
      | JArr xs \<Rightarrow> serializeOverride (JObj (zip (map nat_str [0..<length xs]) xs))
      | v \<Rightarrow> serializeOverride v)"

section \<open>Share links of a host\<close>

record host_link_input =
  ho_security :: string
  ho_address :: string
  ho_port :: int
  ho_remark :: string
  ho_sni :: string
  ho_alpn :: "string list"
  ho_fingerprint :: "string option"
  ho_pinnedPeerCertSha256 :: "string list"
  ho_verifyPeerCertByName :: string
  ho_echConfigList :: string
  ho_overrideSniFromAddress :: bool
  ho_keepSniBlank :: bool

definition some_nonempty :: "'a list \<Rightarrow> 'a list option" where
  "some_nonempty xs = (if xs = [] then None else Some xs)"

definition host_sni :: "host_link_input \<Rightarrow> string option" where
  "host_sni h =
     (if ho_keepSniBlank h then None
      else if ho_overrideSniFromAddress h then some_nonempty (ho_address h)
      else some_nonempty (ho_sni h))"

definition hostToExternalProxyEntry :: "host_link_input \<Rightarrow> external_proxy" where
  "hostToExternalProxyEntry h =
     \<lparr>ep_forceTls = (if ho_security h = ''tls'' \<or> ho_security h = ''none'' then ho_security h else ''same''),
      ep_dest = ho_address h, ep_port = (if ho_port h > 0 then ho_port h else 443), ep_remark = ho_remark h,
      ep_sni = host_sni h, ep_fingerprint = ho_fingerprint h, ep_alpn = some_nonempty (ho_alpn h),
      ep_pinnedPeerCertSha256 = some_nonempty (ho_pinnedPeerCertSha256 h),
      ep_verifyPeerCertByName = some_nonempty (ho_verifyPeerCertByName h), ep_echConfigList = some_nonempty (ho_echConfigList h)\<rparr>"

text \<open>A host that keeps its SNI blank gets its address as SNI in the link: the generators fall back to the
  destination when an external proxy has none.\<close>

lemma keep_blank_writes_address:
  "ho_keepSniBlank h \<Longrightarrow> ho_address h \<noteq> [] \<Longrightarrow>
     (''sni'', ho_address h) \<in> set (external_tls (hostToExternalProxyEntry h))"
  by (simp add: external_tls_def external_sni_def hostToExternalProxyEntry_def host_sni_def)

section \<open>Pruning\<close>

text \<open>What the forms hold: JSON values, and \<open>undefined\<close> for fields that are not set.\<close>

fun form_json :: "jv \<Rightarrow> bool" where
  "form_json JUndef = True"
| "form_json (JArr xs) = (\<forall>x \<in> set xs. form_json x)"
| "form_json (JObj ps) = (wf_obj ps \<and> (\<forall>p \<in> set ps. \<not> is_array_index (fst p) \<and> form_json (snd p)))"
| "form_json v = wf_json v"

fun sparse :: "jv \<Rightarrow> bool" where
  "sparse JUndef = False"
| "sparse JNull = False"
| "sparse (JStr s) = (s \<noteq> [])"
| "sparse (JArr xs) = (xs \<noteq> [] \<and> (\<forall>x \<in> set xs. sparse x))"
| "sparse (JObj ps) = (ps \<noteq> [] \<and> (\<forall>p \<in> set ps. sparse (snd p)))"
| "sparse v = True"

lemma form_json_keys: "form_json (JObj ps) \<Longrightarrow> js_keys ps = okeys ps"
  by (rule js_keys_plain) auto

lemma prune_members:
  "wf_obj ps \<Longrightarrow> concat (map (\<lambda>k. case map_of ps k of None \<Rightarrow> [] | Some v \<Rightarrow> keep_member k (pruneEmptyDeep v)) (okeys ps))
    = filter (\<lambda>p. snd p \<noteq> JUndef) (map (apsnd pruneEmptyDeep) ps)"
proof -
  assume wf: "wf_obj ps"
  let ?m = "\<lambda>k. case map_of ps k of None \<Rightarrow> [] | Some v \<Rightarrow> keep_member k (pruneEmptyDeep v)"
  have "?m (fst p) = keep_member (fst p) (pruneEmptyDeep (snd p))" if "p \<in> set ps" for p
  proof -
    have "map_of ps (fst p) = Some (snd p)" using that wf by (simp add: wf_obj_def)
    thus ?thesis by simp
  qed
  hence "map (?m \<circ> fst) ps = map (\<lambda>p. keep_member (fst p) (pruneEmptyDeep (snd p))) ps" by (intro map_cong) simp_all
  moreover have "concat (map (\<lambda>p. keep_member (fst p) (pruneEmptyDeep (snd p))) qs)
      = filter (\<lambda>p. snd p \<noteq> JUndef) (map (apsnd pruneEmptyDeep) qs)" for qs
    by (induction qs) (auto simp: keep_member_def)
  ultimately show ?thesis by (simp only: map_map)
qed

lemma prune_record:
  assumes "form_json (JObj ps)"
  shows "pruneEmptyDeep (JObj ps) =
    (let out = filter (\<lambda>p. snd p \<noteq> JUndef) (map (apsnd pruneEmptyDeep) ps) in if out = [] then JUndef else JObj out)"
  using assms prune_members [of ps] form_json_keys [OF assms] by simp

lemma prune_result: "form_json v \<Longrightarrow> pruneEmptyDeep v = JUndef \<or> wf_json (pruneEmptyDeep v) \<and> sparse (pruneEmptyDeep v)"
proof (induction v)
  case (JArr xs)
  thus ?case by (auto simp: Let_def)
next
  case (JObj ps)
  let ?out = "filter (\<lambda>p. snd p \<noteq> JUndef) (map (apsnd pruneEmptyDeep) ps)"
  have "distinct (okeys ?out)" using JObj.prems by (auto simp: wf_obj_def distinct_map_filter o_def)
  moreover have "wf_json (snd p) \<and> sparse (snd p) \<and> \<not> is_array_index (fst p)" if "p \<in> set ?out" for p
  proof -
    obtain q where "q \<in> set ps" "p = apsnd pruneEmptyDeep q" "pruneEmptyDeep (snd q) \<noteq> JUndef" using \<open>p \<in> set ?out\<close> by auto
    thus ?thesis using JObj.IH [of q "snd q"] JObj.prems prod_set_simps(2) [of "fst q" "snd q"] by auto
  qed
  ultimately show ?case unfolding prune_record [OF JObj.prems] by (simp add: Let_def wf_obj_def)
qed auto

lemma prune_sparse: "form_json v \<Longrightarrow> sparse v \<Longrightarrow> pruneEmptyDeep v = v"
proof (induction v)
  case (JArr xs)
  hence "map pruneEmptyDeep xs = xs" by (intro map_idI) auto
  moreover have "filter (\<lambda>v. v \<noteq> JUndef) xs = xs" using JArr.prems by (auto simp: filter_id_conv)
  ultimately show ?case using JArr.prems by simp
next
  case (JObj ps)
  have "map (apsnd pruneEmptyDeep) ps = ps"
  proof (rule map_idI)
    fix p assume "p \<in> set ps"
    thus "apsnd pruneEmptyDeep p = p" using JObj.IH [of p "snd p"] JObj.prems prod_set_simps(2) [of "fst p" "snd p"]
      by (auto simp: prod_eq_iff)
  qed
  moreover have "filter (\<lambda>p. snd p \<noteq> JUndef) ps = ps" using JObj.prems by (auto simp: filter_id_conv)
  ultimately show ?case using JObj.prems unfolding prune_record [OF JObj.prems(1)] by simp
qed auto

lemma wf_form_json: "wf_json v \<Longrightarrow> form_json v"
  by (induction v) auto

text \<open>A member of the pruned object is the pruned member: what was set stays where it was.\<close>

lemma prune_member:
  assumes "form_json v"
  shows "opt_prop (pruneEmptyDeep v) k = (if \<exists>ps. v = JObj ps then pruneEmptyDeep (opt_prop v k) else JUndef)"
proof (cases v)
  case (JObj ps)
  let ?out = "filter (\<lambda>p. snd p \<noteq> JUndef) (map (apsnd pruneEmptyDeep) ps)"
  have m: "map_of (map (apsnd pruneEmptyDeep) qs) k = map_option pruneEmptyDeep (map_of qs k)" for qs
    by (induction qs) auto
  have f: "oget (filter (\<lambda>p. snd p \<noteq> JUndef) qs) k = oget qs k" if "distinct (okeys qs)" for qs
    using that
  proof (induction qs)
    case (Cons q qs)
    have "map_of (filter (\<lambda>p. snd p \<noteq> JUndef) qs) k = None" if "fst q = k"
      using Cons.prems that by (force simp: map_of_eq_None_iff)
    thus ?case using Cons by (auto simp: oget_def)
  qed simp
  have "distinct (okeys (map (apsnd pruneEmptyDeep) ps))" using assms JObj by (simp add: wf_obj_def o_def)
  hence "oget ?out k = pruneEmptyDeep (oget ps k)" using f [of "map (apsnd pruneEmptyDeep) ps"] m [of ps] by (simp add: oget_def split: option.split)
  moreover have "oget [] k = JUndef" by (simp add: oget_def)
  ultimately show ?thesis using prune_record [of ps] assms JObj by (auto simp: opt_prop_def Let_def)
qed (auto simp: opt_prop_def Let_def)

section \<open>Reading the texts back\<close>

definition form_value :: "jv \<Rightarrow> bool" where
  "form_value v \<longleftrightarrow> form_json v \<and> ((\<exists>ps. v = JObj ps) \<or> v = JUndef)"

lemma parse_blank [simp]: "parseJsonObject [] = []"
  by (simp add: parseJsonObject_def)

lemma opt_prop_nil [simp]: "opt_prop (JObj []) k = JUndef" "opt_prop JUndef k = JUndef"
  by (simp_all add: opt_prop_def oget_def)

lemma serialize_blank [simp]: "serializeOverride JUndef = []" "serializeOverride (JObj []) = []"
  by (simp_all add: serializeOverride_def js_keys_def)

lemma override_read:
  assumes "form_value v"
  shows "pruneEmptyDeep v = JUndef \<and> serializeOverride v = []
    \<or> (\<exists>qs. pruneEmptyDeep v = JObj qs \<and> qs \<noteq> [] \<and> wf_json (JObj qs) \<and> sparse (JObj qs) \<and> serializeOverride v \<noteq> []
         \<and> parseJsonObject (serializeOverride v) = qs \<and> serializeOverride (JObj qs) = serializeOverride v)"
proof (cases "pruneEmptyDeep v = JUndef")
  case True
  thus ?thesis by (simp add: serializeOverride_def)
next
  case False
  obtain ps where v: "v = JObj ps" using assms False by (auto simp: form_value_def)
  have f: "form_json v" using assms by (simp add: form_value_def)
  then obtain qs where q: "pruneEmptyDeep v = JObj qs" using False v prune_record [of ps] by (auto simp: Let_def split: if_splits)
  have w: "wf_json (JObj qs)" "sparse (JObj qs)" using prune_result [OF f] False q by auto
  obtain t where t: "JSON_stringify (JObj qs) = Some t" "JSON_parse t = Some (JObj qs)" using json_roundtrip [OF w(1)] by blast
  have "t \<noteq> []" using t(2) by (auto simp: JSON_parse_def skip_ws_def)
  thus ?thesis using q w t prune_sparse [OF wf_form_json [OF w(1)] w(2)] by (simp add: serializeOverride_def parseJsonObject_def)
qed

lemma override_again: "form_value v \<Longrightarrow> serializeOverride (JObj (parseJsonObject (serializeOverride v))) = serializeOverride v"
  using override_read [of v] by auto

text \<open>What a form relies on: a text is read back to a subtree that is written as the same text, a text without
  content is the empty one, and the defaults of a form are not an override.\<close>

locale override_form =
  fixes serialize :: "jv \<Rightarrow> string" and dflt :: jobj and ok :: "jv \<Rightarrow> bool"
  assumes again: "ok v \<Longrightarrow> serialize (JObj (parseJsonObject (serialize v))) = serialize v"
    and blank: "ok v \<Longrightarrow> parseJsonObject (serialize v) = [] \<Longrightarrow> serialize v = []"
    and dflt_blank: "serialize (if dflt = [] then JUndef else JObj dflt) = []"
begin

lemma reopening_quiet: "ok v \<Longrightarrow> reported serialize (serialize v) (initial_subtree dflt (serialize v)) = None"
  using again [of v] blank [of v] dflt_blank by (auto simp: reported_def initial_subtree_def Let_def)

lemma last_edit_stays:
  "vs \<noteq> [] \<Longrightarrow> fold (\<lambda>v value. case reported serialize value v of None \<Rightarrow> value | Some t \<Rightarrow> t) vs value = serialize (last vs)"
  by (induction vs rule: rev_induct) (auto simp: reported_def Let_def)

end

interpretation plain_override: override_form serializeOverride "[]" form_value
proof unfold_locales
  fix v assume v: "form_value v" "parseJsonObject (serializeOverride v) = []"
  show "serializeOverride v = []" using override_read [OF v(1)] v(2) by auto
qed (simp_all add: override_again)

definition mux_value :: "jv \<Rightarrow> bool" where
  "mux_value v \<longleftrightarrow> form_value v \<and> (opt_prop v ''enabled'' = JUndef \<or> (\<exists>b. opt_prop v ''enabled'' = JBool b))"

lemma mux_enabled_kept:
  assumes "mux_value v" "truthy (opt_prop v ''enabled'')"
  shows "opt_prop (JObj (parseJsonObject (serializeOverride v))) ''enabled'' = JBool True"
proof -
  have e: "opt_prop v ''enabled'' = JBool True" using assms by (auto simp: mux_value_def)
  then obtain ps where "v = JObj ps" by (cases v) (auto simp: opt_prop_def)
  hence "opt_prop (pruneEmptyDeep v) ''enabled'' = JBool True"
    using assms(1) e prune_member [of v "''enabled''"] by (simp add: mux_value_def form_value_def)
  thus ?thesis using override_read [of v] assms(1) by (auto simp: mux_value_def)
qed

lemma mux_again:
  assumes "mux_value v"
  shows "serialize_mux (JObj (parseJsonObject (serialize_mux v))) = serialize_mux v"
proof (cases "truthy (opt_prop v ''enabled'')")
  case True
  thus ?thesis using mux_enabled_kept [OF assms] override_again assms by (simp add: serialize_mux_def mux_value_def)
next
  case False
  thus ?thesis by (simp add: serialize_mux_def)
qed

lemma mux_blank:
  assumes "mux_value v" "parseJsonObject (serialize_mux v) = []"
  shows "serialize_mux v = []"
proof -
  have "form_value v" using assms(1) by (simp add: mux_value_def)
  from override_read [OF this] show ?thesis using assms(2) by (auto simp: serialize_mux_def split: if_splits)
qed

interpretation mux_override: override_form serialize_mux DEFAULT_MUX mux_value
proof unfold_locales
  show "serialize_mux (if DEFAULT_MUX = [] then JUndef else JObj DEFAULT_MUX) = []"
    by (simp add: serialize_mux_def DEFAULT_MUX_def opt_prop_def oget_def)
qed (use mux_again mux_blank in blast)+

definition without_inbound_only :: "jv \<Rightarrow> jv" where
  "without_inbound_only v = (case v of JObj ps \<Rightarrow> JObj (fold odel INBOUND_ONLY_SOCKOPT ps) | _ \<Rightarrow> v)"

lemma form_json_odel: "form_json (JObj ps) \<Longrightarrow> form_json (JObj (odel k ps))"
  by (auto simp: AList.delete_eq wf_obj_def distinct_map_filter o_def)

lemma without_form:
  assumes "form_value v"
  shows "form_value (without_inbound_only v) \<and> serializeClientSockopt v = serializeOverride (without_inbound_only v)"
  using assms by (auto simp: form_value_def without_inbound_only_def serializeClientSockopt_def INBOUND_ONLY_SOCKOPT_def form_json_odel
      simp del: form_json.simps(3))

lemma inbound_only_gone:
  assumes "form_value v" "k \<in> set INBOUND_ONLY_SOCKOPT"
  shows "opt_prop (JObj (parseJsonObject (serializeClientSockopt v))) k = JUndef"
proof -
  let ?w = "without_inbound_only v"
  have "opt_prop ?w k = JUndef"
    using assms by (auto simp: form_value_def without_inbound_only_def opt_prop_def oget_def obj.get_del_all)
  hence "opt_prop (pruneEmptyDeep ?w) k = JUndef"
    using prune_member [of ?w k] without_form [OF assms(1)] by (simp add: form_value_def)
  thus ?thesis using override_read [of ?w] without_form [OF assms(1)] by auto
qed

lemma sockopt_again:
  assumes "form_value v"
  shows "serializeClientSockopt (JObj (parseJsonObject (serializeClientSockopt v))) = serializeClientSockopt v"
proof -
  let ?w = "without_inbound_only v" and ?qs = "parseJsonObject (serializeClientSockopt v)"
  have w: "form_value ?w" "serializeClientSockopt v = serializeOverride ?w" using without_form [OF assms] by auto
  have s: "\<forall>p \<in> set ?qs. snd p \<noteq> JUndef" using override_read [OF w(1)] w(2) by fastforce
  have "k \<notin> set (okeys ?qs)" if "k \<in> set INBOUND_ONLY_SOCKOPT" for k
  proof
    assume "k \<in> set (okeys ?qs)"
    then obtain x where "map_of ?qs k = Some x" by (metis image_set map_of_eq_None_iff not_Some_eq)
    thus False using inbound_only_gone [OF assms that] s map_of_SomeD [of ?qs k x] by (auto simp: opt_prop_def oget_def)
  qed
  hence "fold odel INBOUND_ONLY_SOCKOPT ?qs = ?qs" by (simp add: INBOUND_ONLY_SOCKOPT_def delete_idem)
  thus ?thesis using override_again [OF w(1)] w(2) by (simp add: serializeClientSockopt_def)
qed

interpretation sockopt_override: override_form serializeClientSockopt "[]" form_value
proof unfold_locales
  fix v assume v: "form_value v" and p: "parseJsonObject (serializeClientSockopt v) = []"
  show "serializeClientSockopt v = []" using override_read [of "without_inbound_only v"] without_form [OF v] p by auto
next
  show "serializeClientSockopt (if [] = [] then JUndef else JObj []) = []" by (simp add: serializeClientSockopt_def)
qed (rule sockopt_again)

text \<open>C28: The JSON overrides of a host settle: opening the form on a text it has stored changes nothing (so a host that
  is opened and closed stays as it is), for the plain, the mux and the sockopt form; reading it gives every member that was set, pruned of empty values, where it was; and
  the keys that only an inbound has never get into a sockopt override.\<close>
theorem host_overrides_settle:
  assumes "mux_value v"
  shows "reported serializeOverride (serializeOverride v) (initial_subtree [] (serializeOverride v)) = None
    \<and> reported serialize_mux (serialize_mux v) (initial_subtree DEFAULT_MUX (serialize_mux v)) = None
    \<and> reported serializeClientSockopt (serializeClientSockopt v) (initial_subtree [] (serializeClientSockopt v)) = None
    \<and> opt_prop (JObj (parseJsonObject (serializeOverride v))) k = pruneEmptyDeep (opt_prop v k)
    \<and> (pruneEmptyDeep v = JUndef \<or> sparse (pruneEmptyDeep v))
    \<and> (k \<in> set INBOUND_ONLY_SOCKOPT \<longrightarrow> opt_prop (JObj (parseJsonObject (serializeClientSockopt v))) k = JUndef)"
proof -
  have f: "form_value v" using assms by (simp add: mux_value_def)
  have "opt_prop (JObj (parseJsonObject (serializeOverride v))) k = pruneEmptyDeep (opt_prop v k)"
    using override_read [OF f] prune_member [of v k] f by (auto simp: form_value_def)
  thus ?thesis using plain_override.reopening_quiet [OF f] mux_override.reopening_quiet [OF assms] sockopt_override.reopening_quiet [OF f]
      inbound_only_gone [OF f] prune_result [of v] f by (auto simp: form_value_def)
qed

definition sample_override :: jv where
  "sample_override = JObj [(''enabled'', JBool True), (''mark'', JNum (num 0)), (''V6Only'', JBool False), (''penetrate'', JArr [JStr []]), (''tag'', JStr [])]"

theorem host_overrides_settle_witness:
  "opt_prop (JObj (parseJsonObject (serializeOverride sample_override))) ''mark'' = JNum (num 0)
    \<and> opt_prop (JObj (parseJsonObject (serializeOverride sample_override))) ''penetrate'' = JUndef
    \<and> opt_prop (JObj (parseJsonObject (serializeClientSockopt sample_override))) ''V6Only'' = JUndef"
proof -
  have "mux_value sample_override"
    by (simp add: mux_value_def form_value_def sample_override_def wf_obj_def is_array_index_def is_digit_def opt_prop_def oget_def exI [of _ True])
  note p = host_overrides_settle [OF this]
  show ?thesis using p [of "''mark''"] p [of "''penetrate''"] p [of "''V6Only''"]
    by (simp add: sample_override_def opt_prop_def [of _ "''mark''"] opt_prop_def [of _ "''penetrate''"] oget_def INBOUND_ONLY_SOCKOPT_def)
qed

text \<open>A host as external proxy: the port can be dialled, the security is one the generators know, and only fields
  with content override those of the inbound.\<close>
theorem host_entry_usable:
  assumes "ho_port h \<le> 65535" and "e = hostToExternalProxyEntry h"
  shows "0 < ep_port e \<and> ep_port e \<le> 65535 \<and> ep_forceTls e \<in> {''tls'', ''none'', ''same''}
    \<and> Some [] \<notin> {ep_sni e, ep_verifyPeerCertByName e, ep_echConfigList e} \<and> Some [] \<notin> {ep_alpn e, ep_pinnedPeerCertSha256 e}
    \<and> (ho_port h > 0 \<longrightarrow> ep_port e = ho_port h) \<and> (ho_keepSniBlank h \<longrightarrow> ep_sni e = None)"
  using assms by (auto simp: hostToExternalProxyEntry_def some_nonempty_def host_sni_def)

end
