(* ===== verification/Inbound_Fallbacks.thy ===== *)
theory Inbound_Fallbacks
  imports Live_Inbounds Share_Links "HOL-Library.Multiset"
begin

text \<open>
  The fallback rows of a VLESS or Trojan inbound (\<open>frontend/src/pages/inbounds/form/useInboundFallbacks.ts\<close>,
  the calls of \<open>FallbacksCard.tsx\<close>): rows keyed by a counter, loaded from the server and saved with their
  position. The labels of the options are left out. Answers of the server are arguments.
\<close>

section \<open>State\<close>

record fallback_row =
  fb_rowKey :: string
  fb_childId :: "int option"
  fb_name :: string
  fb_alpn :: string
  fb_path :: string
  fb_dest :: string
  fb_xver :: int

record fallback_state =
  fs_key :: nat
  fs_rows :: "fallback_row list"

text \<open>A fallback as it is sent and answered; a missing child is \<^term>\<open>None\<close>.\<close>

record saved_fallback =
  sf_childId :: "int option"
  sf_name :: string
  sf_alpn :: string
  sf_path :: string
  sf_dest :: string
  sf_xver :: int
  sf_sortOrder :: nat

text \<open>What the card changes in a row.\<close>

datatype fallback_patch = Patch_Child "int option" | Patch_Name string | Patch_Alpn string | Patch_Path string | Patch_Dest string | Patch_Xver int

definition row_key :: "nat \<Rightarrow> string" where
  "row_key n = ''fb-'' @ nat_str n"

definition blank_row :: "nat \<Rightarrow> fallback_row" where
  "blank_row n = \<lparr>fb_rowKey = row_key n, fb_childId = None, fb_name = [], fb_alpn = [], fb_path = [], fb_dest = [], fb_xver = 0\<rparr>"

section \<open>Operations\<close>

definition fallbackChildOptions :: "int option \<Rightarrow> db_inbound list \<Rightarrow> int list" where
  "fallbackChildOptions own dbInbounds = filter (\<lambda>i. Some i \<noteq> own) (map db_id dbInbounds)"

definition loaded_row :: "nat \<Rightarrow> saved_fallback \<Rightarrow> fallback_row" where
  "loaded_row n r = \<lparr>fb_rowKey = row_key n, fb_childId = (case sf_childId r of Some c \<Rightarrow> if c > 0 then Some c else None | None \<Rightarrow> None), fb_name = sf_name r,
     fb_alpn = sf_alpn r, fb_path = sf_path r, fb_dest = sf_dest r, fb_xver = sf_xver r\<rparr>"

text \<open>An answer without success or without a list is \<^term>\<open>None\<close>.\<close>

definition loadFallbacks :: "int option \<Rightarrow> saved_fallback list option \<Rightarrow> fallback_state \<Rightarrow> fallback_state" where
  "loadFallbacks masterId answer s =
     (if masterId = None \<or> masterId = Some 0 then s\<lparr>fs_rows := []\<rparr>
      else case answer of
        None \<Rightarrow> s\<lparr>fs_rows := []\<rparr>
      | Some rs \<Rightarrow> \<lparr>fs_key = fs_key s + length rs, fs_rows = map (\<lambda>(i, r). loaded_row (fs_key s + i) r) (enumerate 1 rs)\<rparr>)"

definition has_target :: "fallback_row \<Rightarrow> bool" where
  "has_target c \<longleftrightarrow> fb_childId c \<notin> {None, Some 0} \<or> trim (fb_dest c) \<noteq> []"

definition payload_row :: "nat \<Rightarrow> fallback_row \<Rightarrow> saved_fallback" where
  "payload_row i c = \<lparr>sf_childId = fb_childId c, sf_name = fb_name c, sf_alpn = fb_alpn c,
     sf_path = fb_path c, sf_dest = fb_dest c, sf_xver = fb_xver c, sf_sortOrder = i\<rparr>"

definition fallback_payload :: "fallback_state \<Rightarrow> saved_fallback list" where
  "fallback_payload s = map (\<lambda>(i, c). payload_row i c) (enumerate 0 (filter has_target (fs_rows s)))"

text \<open>The request, if one is made, and the result, where \<open>success\<close> is that of the answer.\<close>

definition saveFallbacks :: "int \<Rightarrow> bool \<Rightarrow> fallback_state \<Rightarrow> saved_fallback list option \<times> bool" where
  "saveFallbacks masterId success s = (if masterId = 0 then (None, True) else (Some (fallback_payload s), success))"

definition stream_path :: "jobj \<Rightarrow> string \<Rightarrow> string \<Rightarrow> string" where
  "stream_path stream block key = asString (opt_prop (oget stream block) key)"

text \<open>SNI, ALPN and path of a child; \<^term>\<open>None\<close> when it is not among the inbounds.\<close>

definition deriveFallbackDefaults :: "db_inbound list \<Rightarrow> int \<Rightarrow> (string \<times> string \<times> string) option" where
  "deriveFallbackDefaults dbInbounds childId =
     map_option (\<lambda>child.
       (let stream = coerceInboundJsonField (db_streamSettings child);
            tls = oget stream ''tlsSettings'';
            network = asString (oget stream ''network'');
            path = (if network = ''ws'' then stream_path stream ''wsSettings'' ''path''
              else if network = ''grpc'' then stream_path stream ''grpcSettings'' ''serviceName''
              else if network = ''httpupgrade'' then stream_path stream ''httpupgradeSettings'' ''path''
              else if network = ''xhttp'' then stream_path stream ''xhttpSettings'' ''path''
              else [])
        in (asString (opt_prop tls ''serverName''),
            join '','' (concat (map (\<lambda>v. case v of JStr s \<Rightarrow> [s] | _ \<Rightarrow> []) (asArray (opt_prop tls ''alpn'')))), path)))
       (find (\<lambda>ib. db_id ib = childId) dbInbounds)"

definition addFallback :: "fallback_state \<Rightarrow> fallback_state" where
  "addFallback s = \<lparr>fs_key = Suc (fs_key s), fs_rows = fs_rows s @ [blank_row (Suc (fs_key s))]\<rparr>"

definition isPristine :: "fallback_row \<Rightarrow> bool" where
  "isPristine r \<longleftrightarrow> fb_name r = [] \<and> fb_alpn r = [] \<and> fb_path r = [] \<and> fb_dest r = [] \<and> fb_xver r = 0"

definition patch_row :: "fallback_patch \<Rightarrow> fallback_row \<Rightarrow> fallback_row" where
  "patch_row p r = (case p of Patch_Child c \<Rightarrow> r\<lparr>fb_childId := c\<rparr> | Patch_Name x \<Rightarrow> r\<lparr>fb_name := x\<rparr> | Patch_Alpn x \<Rightarrow> r\<lparr>fb_alpn := x\<rparr>
     | Patch_Path x \<Rightarrow> r\<lparr>fb_path := x\<rparr> | Patch_Dest x \<Rightarrow> r\<lparr>fb_dest := x\<rparr> | Patch_Xver x \<Rightarrow> r\<lparr>fb_xver := x\<rparr>)"

definition with_defaults :: "(string \<times> string \<times> string) option \<Rightarrow> fallback_row \<Rightarrow> fallback_row" where
  "with_defaults d r = (case d of None \<Rightarrow> r | Some (sni, alpn, path) \<Rightarrow> r\<lparr>fb_name := sni, fb_alpn := alpn, fb_path := path, fb_xver := 0\<rparr>)"

definition update_row :: "db_inbound list \<Rightarrow> fallback_patch \<Rightarrow> fallback_row \<Rightarrow> fallback_row" where
  "update_row dbInbounds p r =
     (case p of
        Patch_Child (Some c) \<Rightarrow>
          if Some c \<noteq> fb_childId r \<and> isPristine r then with_defaults (deriveFallbackDefaults dbInbounds c) (patch_row p r)
          else patch_row p r
      | _ \<Rightarrow> patch_row p r)"

definition updateFallback :: "db_inbound list \<Rightarrow> string \<Rightarrow> fallback_patch \<Rightarrow> fallback_state \<Rightarrow> fallback_state" where
  "updateFallback dbInbounds rowKey p s =
     s\<lparr>fs_rows := map (\<lambda>r. if fb_rowKey r \<noteq> rowKey then r else update_row dbInbounds p r) (fs_rows s)\<rparr>"

definition removeFallback :: "nat \<Rightarrow> fallback_state \<Rightarrow> fallback_state" where
  "removeFallback idx s = s\<lparr>fs_rows := map snd (filter (\<lambda>(i, r). i \<noteq> idx) (enumerate 0 (fs_rows s)))\<rparr>"

text \<open>The direction is down or up. The card calls it with the index of a row.\<close>

definition moveFallback :: "nat \<Rightarrow> bool \<Rightarrow> fallback_state \<Rightarrow> fallback_state" where
  "moveFallback idx down s =
     (let prev = fs_rows s; target = int idx + (if down then 1 else -1)
      in if target < 0 \<or> target \<ge> int (length prev) then s
         else s\<lparr>fs_rows := prev[idx := prev ! nat target, nat target := prev ! idx]\<rparr>)"

definition added_row :: "db_inbound list \<Rightarrow> nat \<Rightarrow> int \<Rightarrow> fallback_row" where
  "added_row dbInbounds n c = with_defaults (deriveFallbackDefaults dbInbounds c) ((blank_row n)\<lparr>fb_childId := Some c\<rparr>)"

definition addAllFallbacks :: "int option \<Rightarrow> db_inbound list \<Rightarrow> fallback_state \<Rightarrow> fallback_state" where
  "addAllFallbacks own dbInbounds s =
     (let alreadyHave = set (map fb_childId (fs_rows s));
          missing = filter (\<lambda>c. Some c \<notin> alreadyHave) (fallbackChildOptions own dbInbounds)
      in if missing = [] then s
         else \<lparr>fs_key = fs_key s + length missing,
               fs_rows = fs_rows s @ map (\<lambda>(i, c). added_row dbInbounds (fs_key s + i) c) (enumerate 1 missing)\<rparr>)"

section \<open>Sequences of operations\<close>

datatype fallback_op =
    Fb_Load "int option" "saved_fallback list option" | Fb_Add | Fb_Update string fallback_patch | Fb_Remove nat | Fb_Move nat bool | Fb_Add_All

text \<open>The inbound being edited and the list of inbounds may change from one operation to the next.\<close>

definition fallback_step :: "(int option \<times> db_inbound list) \<times> fallback_op \<Rightarrow> fallback_state \<Rightarrow> fallback_state" where
  "fallback_step x s =
     (case x of ((own, ibs), act) \<Rightarrow>
        (case act of
           Fb_Load m a \<Rightarrow> loadFallbacks m a s | Fb_Add \<Rightarrow> addFallback s | Fb_Update k p \<Rightarrow> updateFallback ibs k p s
         | Fb_Remove i \<Rightarrow> removeFallback i s | Fb_Move i d \<Rightarrow> if i < length (fs_rows s) then moveFallback i d s else s
         | Fb_Add_All \<Rightarrow> addAllFallbacks own ibs s))"

definition no_fallbacks :: fallback_state where
  "no_fallbacks = \<lparr>fs_key = 0, fs_rows = []\<rparr>"

text \<open>Each row has a key of its own, and the counter is past all of them.\<close>

definition keys_ok :: "fallback_state \<Rightarrow> bool" where
  "keys_ok s \<longleftrightarrow> distinct (map fb_rowKey (fs_rows s)) \<and> set (map fb_rowKey (fs_rows s)) \<subseteq> row_key ` {1..fs_key s}"

lemma row_key_inject [simp]: "row_key m = row_key n \<longleftrightarrow> m = n"
  by (simp add: row_key_def)

lemma row_key_of [simp]:
  "fb_rowKey (loaded_row n r) = row_key n" "fb_rowKey (blank_row n) = row_key n" "fb_rowKey (added_row ibs n c) = row_key n"
  "fb_rowKey (patch_row p row) = fb_rowKey row" "fb_rowKey (with_defaults d row) = fb_rowKey row" "fb_rowKey (update_row ibs p row) = fb_rowKey row"
proof -
  show d: "fb_rowKey (with_defaults d row) = fb_rowKey row" for d row by (simp add: with_defaults_def split: option.split)
  show p: "fb_rowKey (patch_row p row) = fb_rowKey row" for p by (simp add: patch_row_def split: fallback_patch.split)
  show b: "fb_rowKey (blank_row n) = row_key n" by (simp add: blank_row_def)
  show "fb_rowKey (added_row ibs n c) = row_key n" by (simp add: added_row_def d blank_row_def)
  show "fb_rowKey (update_row ibs p row) = fb_rowKey row" by (simp add: update_row_def d p split: fallback_patch.split option.split)
qed (simp add: loaded_row_def)

lemma fresh_keys: "map fb_rowKey (map (\<lambda>(i, c). f (k + i) c) (enumerate 1 cs)) = map (\<lambda>i. row_key (k + i)) [1..<Suc (length cs)]"
  if "\<And>n c. fb_rowKey (f n c) = row_key n"
proof -
  have "fb_rowKey \<circ> (\<lambda>(i, c). f (k + i) c) = (\<lambda>i. row_key (k + i)) \<circ> fst" using that by auto
  thus ?thesis by (simp del: upt_Suc) (simp only: map_map [symmetric] map_fst_enumerate, simp del: upt_Suc)
qed

lemma fresh_keys_ok:
  "distinct (map (\<lambda>i. row_key (k + i)) [1..<Suc n])" "set (map (\<lambda>i. row_key (k + i)) [1..<Suc n]) = row_key ` {Suc k..k + n}"
proof -
  show "distinct (map (\<lambda>i. row_key (k + i)) [1..<Suc n])" by (simp add: distinct_map inj_on_def del: upt_Suc)
  have "{Suc k..k + n} = (+) k ` {1..n}" by (simp add: image_add_atLeastAtMost)
  thus "set (map (\<lambda>i. row_key (k + i)) [1..<Suc n]) = row_key ` {Suc k..k + n}"
    by (simp add: image_image atLeastLessThanSuc_atLeastAtMost del: upt_Suc image_add_atLeastAtMost)
qed

lemma keys_ok_append:
  assumes "keys_ok s" "map fb_rowKey new = map (\<lambda>i. row_key (fs_key s + i)) [1..<Suc n]"
  shows "keys_ok \<lparr>fs_key = fs_key s + n, fs_rows = fs_rows s @ new\<rparr>"
proof -
  let ?A = "set (map fb_rowKey (fs_rows s))" and ?B = "row_key ` {Suc (fs_key s)..fs_key s + n}" and ?C = "row_key ` {1..fs_key s + n}"
  have n: "distinct (map fb_rowKey new)" "set (map fb_rowKey new) = ?B" using fresh_keys_ok [of "fs_key s" n] assms(2) by simp_all
  have A: "distinct (map fb_rowKey (fs_rows s))" "?A \<subseteq> row_key ` {1..fs_key s}" using assms(1) by (simp_all add: keys_ok_def)
  have d: "row_key ` {1..fs_key s} \<inter> ?B = {}" by auto
  have c: "?B \<subseteq> ?C" "row_key ` {1..fs_key s} \<subseteq> ?C" by (intro image_mono; simp)+
  have "?A \<inter> ?B = {}" using A(2) d by (meson disjoint_iff subsetD)
  hence "distinct (map fb_rowKey (fs_rows s @ new))" using A(1) n by (simp only: map_append distinct_append)
  moreover have "set (map fb_rowKey (fs_rows s @ new)) \<subseteq> ?C" using A(2) n(2) c by (simp only: map_append set_append) blast
  ultimately show ?thesis by (simp only: keys_ok_def fallback_state.select_convs)
qed

lemma keys_ok_sub: "keys_ok s \<Longrightarrow> distinct (map fb_rowKey rows) \<Longrightarrow> set rows \<subseteq> set (fs_rows s) \<Longrightarrow> keys_ok (s\<lparr>fs_rows := rows\<rparr>)"
  by (auto simp: keys_ok_def)

lemma removed_rows: "map snd (filter (\<lambda>(i, r). i \<noteq> idx) (enumerate n xs)) = (if idx < n then xs else take (idx - n) xs @ drop (Suc (idx - n)) xs)"
proof (induction xs arbitrary: n)
  case (Cons x xs)
  consider "idx < n" | "idx = n" | m where "idx - n = Suc m" "idx - Suc n = m" "n < idx" by (cases "idx - n") fastforce+
  thus ?case
  proof cases
    case 3
    thus ?thesis using Cons.IH [of "Suc n"] by simp
  qed (use Cons.IH [of "Suc n"] in simp_all)
qed simp

lemma swapped_mset: "i < length xs \<Longrightarrow> j < length xs \<Longrightarrow> mset (xs[i := xs ! j, j := xs ! i]) = mset xs"
  by (rule mset_swap)

lemma moved_mset: "i < length (fs_rows s) \<Longrightarrow> mset (fs_rows (moveFallback i d s)) = mset (fs_rows s)"
  by (auto simp: moveFallback_def Let_def intro!: swapped_mset)

lemma step_keys_ok:
  assumes "keys_ok s"
  shows "keys_ok (fallback_step ((own, ibs), act) s)"
proof (cases act)
  case (Fb_Load m a)
  have "keys_ok \<lparr>fs_key = fs_key s + length rs, fs_rows = map (\<lambda>(i, r). loaded_row (fs_key s + i) r) (enumerate 1 rs)\<rparr>" for rs
  proof -
    have "keys_ok (s\<lparr>fs_rows := []\<rparr>)" by (simp add: keys_ok_def)
    from keys_ok_append [OF this, of "map (\<lambda>(i, r). loaded_row (fs_key s + i) r) (enumerate 1 rs)" "length rs"]
    show ?thesis using fresh_keys [of loaded_row "fs_key s" rs] by (simp del: upt_Suc)
  qed
  moreover have "keys_ok (s\<lparr>fs_rows := []\<rparr>)" by (simp add: keys_ok_def)
  ultimately show ?thesis using Fb_Load by (auto simp: fallback_step_def loadFallbacks_def split: option.split)
next
  case Fb_Add
  thus ?thesis using keys_ok_append [OF assms, of "[blank_row (Suc (fs_key s))]" 1] by (simp add: fallback_step_def addFallback_def)
next
  case (Fb_Update k p)
  have "map fb_rowKey (fs_rows (updateFallback ibs k p s)) = map fb_rowKey (fs_rows s)" by (simp add: updateFallback_def)
  thus ?thesis using assms Fb_Update by (simp add: fallback_step_def keys_ok_def) (simp add: updateFallback_def)
next
  case (Fb_Remove i)
  have "keys_ok (s\<lparr>fs_rows := take i (fs_rows s) @ drop (Suc i) (fs_rows s)\<rparr>)"
  proof (rule keys_ok_sub [OF assms])
    have d: "distinct (map fb_rowKey (take i (fs_rows s) @ drop i (fs_rows s)))" using assms by (simp add: keys_ok_def)
    have "set (drop (Suc i) (fs_rows s)) \<subseteq> set (drop i (fs_rows s))" by (simp add: set_drop_subset_set_drop)
    moreover have "distinct (map fb_rowKey (drop (Suc i) (fs_rows s)))" using assms by (simp add: keys_ok_def flip: drop_map)
    ultimately show "distinct (map fb_rowKey (take i (fs_rows s) @ drop (Suc i) (fs_rows s)))" using d
      by (simp only: map_append distinct_append set_map) blast
    show "set (take i (fs_rows s) @ drop (Suc i) (fs_rows s)) \<subseteq> set (fs_rows s)" by (auto dest: in_set_takeD in_set_dropD)
  qed
  thus ?thesis using Fb_Remove by (simp add: fallback_step_def removeFallback_def removed_rows)
next
  case (Fb_Move i d)
  have "keys_ok (moveFallback i d s)" if "i < length (fs_rows s)"
  proof -
    have m: "mset (fs_rows (moveFallback i d s)) = mset (fs_rows s)" by (rule moved_mset [OF that])
    hence "mset (map fb_rowKey (fs_rows (moveFallback i d s))) = mset (map fb_rowKey (fs_rows s))" by simp
    hence "distinct (map fb_rowKey (fs_rows (moveFallback i d s)))" using assms mset_eq_imp_distinct_iff unfolding keys_ok_def by blast
    moreover have "moveFallback i d s = s\<lparr>fs_rows := fs_rows (moveFallback i d s)\<rparr>" by (simp add: moveFallback_def Let_def)
    ultimately show ?thesis using keys_ok_sub [OF assms, of "fs_rows (moveFallback i d s)"] mset_eq_setD [OF m] by simp
  qed
  thus ?thesis using assms Fb_Move by (simp add: fallback_step_def)
next
  case Fb_Add_All
  show ?thesis using keys_ok_append [OF assms fresh_keys [of "added_row ibs"]] assms Fb_Add_All
    by (simp add: fallback_step_def addAllFallbacks_def Let_def)
qed

lemma steps_keys_ok: "keys_ok s \<Longrightarrow> keys_ok (fold fallback_step xs s)"
proof (induction xs arbitrary: s)
  case (Cons x xs)
  thus ?case using step_keys_ok [of s "fst (fst x)" "snd (fst x)" "snd x"] by simp
qed simp

lemma removed_one: "i < length xs \<Longrightarrow> mset (take i xs @ drop (Suc i) xs) = mset xs - {#xs ! i#}"
  by (subst (3) id_take_nth_drop [of i xs]) simp_all

lemma added_children: "map fb_childId (map (\<lambda>(i, c). added_row ibs (k + i) c) (enumerate 1 cs)) = map Some cs"
proof -
  have "fb_childId (added_row ibs n x) = Some x" for n x
    by (simp add: added_row_def with_defaults_def split: option.split)
  hence "fb_childId \<circ> (\<lambda>(i, c). added_row ibs (k + i) c) = Some \<circ> snd" by auto
  thus ?thesis by (simp only: map_map) (simp only: map_map [symmetric] map_snd_enumerate)
qed

lemma add_all_covers: "Some ` (set (map db_id ibs) - set_option own) \<subseteq> set (map fb_childId (fs_rows (addAllFallbacks own ibs s)))"
proof
  fix x assume "x \<in> Some ` (set (map db_id ibs) - set_option own)"
  then obtain c where c: "x = Some c" "c \<in> set (fallbackChildOptions own ibs)" by (auto simp: fallbackChildOptions_def)
  let ?cs = "filter (\<lambda>c. Some c \<notin> set (map fb_childId (fs_rows s))) (fallbackChildOptions own ibs)"
  have "set (map fb_childId (fs_rows (addAllFallbacks own ibs s))) = set (map fb_childId (fs_rows s)) \<union> Some ` set ?cs"
  proof (cases "?cs = []")
    case False
    have "map fb_childId (fs_rows (addAllFallbacks own ibs s)) = map fb_childId (fs_rows s) @ map Some ?cs"
      using False added_children [of ibs "fs_key s" ?cs] by (simp only: addAllFallbacks_def Let_def if_False fallback_state.select_convs map_append)
    thus ?thesis by (simp only: set_append set_map)
  qed (simp add: addAllFallbacks_def Let_def)
  thus "x \<in> set (map fb_childId (fs_rows (addAllFallbacks own ibs s)))" using c by auto
qed

text \<open>Whatever is done in the fallback editor, every row has a key of its own, so that an edit reaches exactly the row
  it is made in; moving a row keeps the rows, removing takes away the one at the index, and "add all" keeps the
  rows there are, reaches every other inbound and adds nothing the second time.\<close>
theorem fallback_rows_identified:
  assumes "s = fold fallback_step xs no_fallbacks" and "i < length (fs_rows s)"
  shows "distinct (map fb_rowKey (fs_rows s))
    \<and> fs_rows (updateFallback ibs (fb_rowKey (fs_rows s ! i)) p s) = (fs_rows s)[i := update_row ibs p (fs_rows s ! i)]
    \<and> mset (fs_rows (moveFallback i d s)) = mset (fs_rows s)
    \<and> mset (fs_rows (removeFallback i s)) = mset (fs_rows s) - {#fs_rows s ! i#}
    \<and> take (length (fs_rows s)) (fs_rows (addAllFallbacks own ibs s)) = fs_rows s
    \<and> Some ` (set (map db_id ibs) - set_option own) \<subseteq> set (map fb_childId (fs_rows (addAllFallbacks own ibs s)))
    \<and> addAllFallbacks own ibs (addAllFallbacks own ibs s) = addAllFallbacks own ibs s"
proof -
  have k: "keys_ok s" unfolding assms(1) by (rule steps_keys_ok) (simp add: keys_ok_def no_fallbacks_def)
  hence d: "distinct (map fb_rowKey (fs_rows s))" by (simp add: keys_ok_def)
  have u: "fs_rows (updateFallback ibs (fb_rowKey (fs_rows s ! i)) p s) = (fs_rows s)[i := update_row ibs p (fs_rows s ! i)]"
  proof (rule nth_equalityI)
    fix j assume "j < length (fs_rows (updateFallback ibs (fb_rowKey (fs_rows s ! i)) p s))"
    hence j: "j < length (fs_rows s)" by (simp add: updateFallback_def)
    have "fb_rowKey (fs_rows s ! j) = fb_rowKey (fs_rows s ! i) \<longleftrightarrow> j = i"
      using nth_eq_iff_index_eq [OF d, of j i] j assms(2) by simp
    thus "fs_rows (updateFallback ibs (fb_rowKey (fs_rows s ! i)) p s) ! j = (fs_rows s)[i := update_row ibs p (fs_rows s ! i)] ! j"
      using j by (auto simp: updateFallback_def nth_list_update)
  qed (simp add: updateFallback_def)
  have r: "mset (fs_rows (removeFallback i s)) = mset (fs_rows s) - {#fs_rows s ! i#}"
    using removed_one [OF assms(2)] by (simp add: removeFallback_def removed_rows)
  have "addAllFallbacks own ibs t = t" if "Some ` (set (map db_id ibs) - set_option own) \<subseteq> set (map fb_childId (fs_rows t))" for t
    using that by (auto simp: addAllFallbacks_def fallbackChildOptions_def Let_def filter_empty_conv image_subset_iff)
  thus ?thesis using d u r add_all_covers [of ibs own s] moved_mset [OF assms(2)] by (simp add: addAllFallbacks_def Let_def)
qed

section \<open>Saving and loading\<close>

definition without_key :: "fallback_row \<Rightarrow> fallback_row" where
  "without_key r = r\<lparr>fb_rowKey := []\<rparr>"

lemma loaded_contents: "map without_key (map (\<lambda>(i, r). loaded_row (k + i) r) (enumerate 1 rs)) = map (\<lambda>r. without_key (loaded_row 0 r)) rs"
proof -
  have "without_key \<circ> (\<lambda>(i, r). loaded_row (k + i) r) = (\<lambda>r. without_key (loaded_row 0 r)) \<circ> snd" by (auto simp: without_key_def loaded_row_def)
  thus ?thesis by (simp only: map_map) (simp only: map_map [symmetric] map_snd_enumerate)
qed

lemma saved_orders: "map sf_sortOrder (fallback_payload s) = [0..<length (fallback_payload s)]"
proof -
  have "sf_sortOrder \<circ> (\<lambda>(i, c). payload_row i c) = fst" by (auto simp: payload_row_def)
  thus ?thesis by (simp add: fallback_payload_def)
qed

text \<open>The server's column is an integer, so it keeps a missing child as 0.\<close>

definition stored :: "saved_fallback \<Rightarrow> saved_fallback" where
  "stored r = r\<lparr>sf_childId := Some (case sf_childId r of None \<Rightarrow> 0 | Some c \<Rightarrow> c)\<rparr>"

lemma stored_same [simp]: "sf_sortOrder (stored r) = sf_sortOrder r" "loaded_row n (stored r) = loaded_row n r"
  by (simp_all add: stored_def loaded_row_def split: option.splits)

lemma stored_order:
  assumes "mset answer = mset (map stored (fallback_payload s))" "sorted (map sf_sortOrder answer)"
  shows "answer = map stored (fallback_payload s)"
proof (rule map_sorted_distinct_set_unique [where f = sf_sortOrder])
  have o: "map sf_sortOrder (map stored (fallback_payload s)) = [0..<length (fallback_payload s)]"
    using saved_orders [of s] by (simp add: o_def)
  have "mset (map sf_sortOrder answer) = mset (map sf_sortOrder (map stored (fallback_payload s)))" using assms(1) by (simp only: mset_map)
  moreover show d: "distinct (map sf_sortOrder (map stored (fallback_payload s)))" by (simp only: o distinct_upt)
  ultimately show "distinct (map sf_sortOrder answer)" using mset_eq_imp_distinct_iff by blast
  show "set answer = set (map stored (fallback_payload s))" by (rule mset_eq_setD [OF assms(1)])
  thus "inj_on sf_sortOrder (set answer \<union> set (map stored (fallback_payload s)))" using d by (simp only: distinct_map Un_absorb)
  show "sorted (map sf_sortOrder (map stored (fallback_payload s)))" by (simp only: o sorted_upt)
qed (rule assms(2))

definition children_positive :: "fallback_state \<Rightarrow> bool" where
  "children_positive s \<longleftrightarrow> list_all (\<lambda>r. case fb_childId r of None \<Rightarrow> True | Some c \<Rightarrow> 0 < c) (fs_rows s)"

lemma saved_contents: "children_positive s \<Longrightarrow> map (\<lambda>r. without_key (loaded_row 0 r)) (fallback_payload s) = map without_key (filter has_target (fs_rows s))"
proof -
  assume p: "children_positive s"
  have w: "without_key (loaded_row 0 (payload_row i c)) = without_key c" if "c \<in> set (fs_rows s)" for i c
    using p that by (cases c) (auto simp: children_positive_def list_all_iff without_key_def loaded_row_def payload_row_def split: option.splits)
  hence "map ((\<lambda>r. without_key (loaded_row 0 r)) \<circ> (\<lambda>(i, c). payload_row i c)) (enumerate 0 (filter has_target (fs_rows s)))
      = map (without_key \<circ> snd) (enumerate 0 (filter has_target (fs_rows s)))"
  proof (intro map_cong refl)
    fix p assume p: "p \<in> set (enumerate 0 (filter has_target (fs_rows s)))"
    have "snd p \<in> set (map snd (enumerate 0 (filter has_target (fs_rows s))))" using p by (simp only: set_map imageI)
    hence "snd p \<in> set (fs_rows s)" by simp
    thus "((\<lambda>r. without_key (loaded_row 0 r)) \<circ> (\<lambda>(i, c). payload_row i c)) p = (without_key \<circ> snd) p"
      using w by (cases p) simp
  qed
  thus ?thesis by (simp only: fallback_payload_def map_map) (simp only: map_map [symmetric] map_snd_enumerate)
qed

lemma enumerate_map_snd: "enumerate n (map f xs) = map (apsnd f) (enumerate n xs)"
  by (induction xs arbitrary: n) auto

lemma without_key_same [simp]: "has_target (without_key c) = has_target c" "payload_row i (without_key c) = payload_row i c"
  by (simp_all add: without_key_def has_target_def payload_row_def)

lemma save_contents: "fallback_payload s = map (\<lambda>(i, c). payload_row i c) (enumerate 0 (filter has_target (map without_key (fs_rows s))))"
proof -
  have "(\<lambda>(i, c). payload_row i c) \<circ> apsnd without_key = (\<lambda>(i, c). payload_row i c)" by auto
  thus ?thesis by (simp add: fallback_payload_def filter_map enumerate_map_snd o_def [of has_target])
qed

text \<open>C21: A server that keeps what it is sent and lists it by \<open>sortOrder\<close> gives the rows back as they were and in their order,
  except those without a child and without a destination; saving them again sends the same.\<close>
theorem fallbacks_reload:
  assumes "children_positive s" and "fst (saveFallbacks m success s) = Some payload"
    and "mset answer = mset (map stored payload)" and "sorted (map sf_sortOrder answer)"
    and "s' = loadFallbacks (Some m) (Some answer) s0"
  shows "map without_key (fs_rows s') = map without_key (filter has_target (fs_rows s)) \<and> fst (saveFallbacks m success s') = Some payload"
proof -
  have m: "m \<noteq> 0" "payload = fallback_payload s" using assms(2) by (simp_all add: saveFallbacks_def split: if_splits)
  have "map (\<lambda>r. without_key (loaded_row 0 r)) answer = map without_key (filter has_target (fs_rows s))"
    using stored_order [OF assms(3) [unfolded m(2)] assms(4)] saved_contents [OF assms(1)] by (simp add: o_def)
  hence r: "map without_key (fs_rows s') = map without_key (filter has_target (fs_rows s))"
    using m(1) loaded_contents [of "fs_key s0" answer] by (simp add: assms(5) loadFallbacks_def)
  have "filter has_target (map without_key (filter has_target (fs_rows s))) = filter has_target (map without_key (fs_rows s))"
    by (simp add: filter_map o_def)
  hence "fallback_payload s' = fallback_payload s" using r by (simp only: save_contents [of s'] save_contents [of s])
  thus ?thesis using r m by (simp add: saveFallbacks_def)
qed

section \<open>Witnesses\<close>

definition sample_child :: db_inbound where
  "sample_child = blank_inbound\<lparr>db_id := 7, db_streamSettings := JObj [(''network'', JStr ''ws''), (''wsSettings'', JObj [(''path'', JStr ''/w'')])]\<rparr>"

definition sample_steps :: "((int option \<times> db_inbound list) \<times> fallback_op) list" where
  "sample_steps = [((Some 1, [sample_child]), Fb_Add), ((Some 1, [sample_child]), Fb_Update (row_key 1) (Patch_Child (Some 7))), ((Some 1, [sample_child]), Fb_Add)]"

lemma sample_rows:
  "fs_rows (fold fallback_step sample_steps no_fallbacks) = [(blank_row 1)\<lparr>fb_childId := Some 7, fb_path := ''/w''\<rparr>, blank_row 2]"
  by (simp add: sample_steps_def sample_child_def fallback_step_def addFallback_def updateFallback_def no_fallbacks_def blank_row_def
      update_row_def isPristine_def with_defaults_def deriveFallbackDefaults_def patch_row_def coerceInboundJsonField_def
      stream_path_def opt_prop_def oget_def blank_inbound_def asString_or_def asArray_def Let_def)

theorem fallback_rows_identified_witness:
  "mset (fs_rows (moveFallback 0 True (fold fallback_step sample_steps no_fallbacks)))
     = mset [(blank_row 1)\<lparr>fb_childId := Some 7, fb_path := ''/w''\<rparr>, blank_row 2]"
  using fallback_rows_identified [OF refl, of 0 sample_steps "[]" "Patch_Name []" True None] by (simp add: sample_rows)

theorem fallbacks_reload_witness:
  "map without_key (fs_rows (loadFallbacks (Some 1) (Some (map stored (fallback_payload (fold fallback_step sample_steps no_fallbacks)))) no_fallbacks))
     = [without_key ((blank_row 1)\<lparr>fb_childId := Some 7, fb_path := ''/w''\<rparr>)]"
proof -
  let ?s = "fold fallback_step sample_steps no_fallbacks"
  have "children_positive ?s" by (simp add: children_positive_def sample_rows blank_row_def)
  moreover have "sorted (map sf_sortOrder (map stored (fallback_payload ?s)))" using saved_orders [of ?s] by (simp add: o_def)
  moreover have "fst (saveFallbacks 1 True ?s) = Some (fallback_payload ?s)" by (simp add: saveFallbacks_def)
  ultimately have "map without_key (fs_rows (loadFallbacks (Some 1) (Some (map stored (fallback_payload ?s))) no_fallbacks)) = map without_key (filter has_target (fs_rows ?s))"
    using fallbacks_reload [of ?s 1 True "fallback_payload ?s" "map stored (fallback_payload ?s)", OF _ _ refl _ refl] by blast
  thus ?thesis by (simp add: sample_rows has_target_def blank_row_def trim_def trim_start_def)
qed

text \<open>Once a child has filled the blanks the row is no longer pristine: picking another child keeps the SNI, ALPN and path of the
  first.\<close>

lemma second_pick_keeps_first_path:
  "fb_path (update_row ibs (Patch_Child (Some c)) ((blank_row 1)\<lparr>fb_childId := Some 7, fb_path := ''/w''\<rparr>)) = ''/w''"
  by (simp add: update_row_def isPristine_def patch_row_def)

end
