(* ===== verification/Rule_Form.thy ===== *)
theory Rule_Form
  imports Xray_Template "HOL-Library.Monad_Syntax"
begin

text \<open>
  The routing rule form (\<open>frontend/src/pages/xray/routing/RuleFormModal.tsx\<close>) and the texts of the rule table
  (\<open>routing/helpers.ts\<close>). The form is filled from whatever JSON the rule holds, so its fields are JSON values
  until \<open>RuleFormSchema\<close> has accepted them at submit.
\<close>

section \<open>Texts\<close>

text \<open>An element of an array as \<open>Array.prototype.join\<close> writes it.\<close>

fun elem_text :: "jv \<Rightarrow> string" where
  "elem_text (JStr s) = s"
| "elem_text (JNum n) = num_str n"
| "elem_text (JBool b) = (if b then ''true'' else ''false'')"
| "elem_text (JArr xs) = join '','' (map elem_text xs)"
| "elem_text (JObj ps) = ''[object Object]''"
| "elem_text v = []"

definition arrJoin :: "jv \<Rightarrow> string option" where
  "arrJoin v = (if nullish v then None else Some (elem_text v))"

definition csv :: "string \<Rightarrow> string list" where
  "csv value = (if value = [] then [] else filter (\<lambda>s. s \<noteq> []) (map trim (split_on CHR '','' value)))"

definition chipPreviewParts :: "string list \<Rightarrow> string" where
  "chipPreviewParts parts = (case parts of [] \<Rightarrow> [] | [p] \<Rightarrow> p | p # ps \<Rightarrow> p @ '' +'' @ nat_str (length ps))"

definition chipPreview :: "string \<Rightarrow> string" where
  "chipPreview value = chipPreviewParts (csv value)"

definition buildRemarkByTag :: "(string \<times> string) list \<Rightarrow> (string \<times> string) list" where
  "buildRemarkByTag options =
     fold (\<lambda>(tag, remark) m. if tag = [] then m else AList.update tag (if trim remark = [] then tag else trim remark) m) options []"

definition formatInboundTag :: "string \<Rightarrow> (string \<times> string) list \<Rightarrow> string" where
  "formatInboundTag tag remarkByTag =
     (case map_of remarkByTag tag of
        None \<Rightarrow> tag
      | Some r \<Rightarrow> if trim r = [] \<or> trim r = tag then tag else tag @ '' ('' @ trim r @ '')'')"

definition formatInboundTagList :: "string \<Rightarrow> (string \<times> string) list \<Rightarrow> string list" where
  "formatInboundTagList tags remarkByTag = map (\<lambda>tag. formatInboundTag tag remarkByTag) (csv tags)"

definition inboundTagsDisplayTitle :: "string \<Rightarrow> (string \<times> string) list \<Rightarrow> string option" where
  "inboundTagsDisplayTitle tags remarkByTag =
     (let list = formatInboundTagList tags remarkByTag in if list = [] then None else Some (join '', '' list))"

definition inboundTagChipPreview :: "string \<Rightarrow> (string \<times> string) list \<Rightarrow> string" where
  "inboundTagChipPreview tags remarkByTag = chipPreviewParts (formatInboundTagList tags remarkByTag)"

text \<open>The rule that carries the panel's statistics.\<close>

definition isApiRule :: "jv \<Rightarrow> bool" where
  "isApiRule rule \<longleftrightarrow>
     opt_prop rule ''outboundTag'' = JStr ''api''
     \<and> (case opt_prop rule ''inboundTag'' of
          JArr tags \<Rightarrow> JStr ''api'' \<in> set tags
        | v \<Rightarrow> ''api'' \<in> set (if truthy v then csv (elem_text v) else []))"

definition ruleCriteriaChips :: "(string \<Rightarrow> string) \<Rightarrow> (string \<times> string) list" where
  "ruleCriteriaChips rule =
     filter (\<lambda>(label, value). value \<noteq> [])
       [(''Domain'', rule ''domain''), (''IP'', rule ''ip''), (''Port'', rule ''port''), (''Src IP'', rule ''sourceIP''),
        (''Src Port'', rule ''sourcePort''), (''L4'', rule ''network''), (''Protocol'', rule ''protocol''), (''User'', rule ''user''),
        (''VLESS'', rule ''vlessRoute'')]"

section \<open>The form\<close>

record rule_form =
  rf_enabled :: bool
  rf_domain :: string
  rf_ip :: string
  rf_port :: string
  rf_sourcePort :: string
  rf_vlessRoute :: string
  rf_network :: string
  rf_sourceIP :: string
  rf_user :: string
  rf_inboundTag :: "string list"
  rf_protocol :: "string list"
  rf_attrs :: "(string \<times> string) list"
  rf_outboundTag :: string
  rf_balancerTag :: string

definition initialForm :: rule_form where
  "initialForm = \<lparr>rf_enabled = True, rf_domain = [], rf_ip = [], rf_port = [], rf_sourcePort = [], rf_vlessRoute = [], rf_network = [],
     rf_sourceIP = [], rf_user = [], rf_inboundTag = [], rf_protocol = [], rf_attrs = [], rf_outboundTag = [], rf_balancerTag = []\<rparr>"

text \<open>Filling the form. \<open>Object.entries\<close> of an object; other values of \<open>attrs\<close> do not occur.\<close>

definition joined_or_text :: "jv \<Rightarrow> jv" where
  "joined_or_text v = (case v of JArr xs \<Rightarrow> JStr (elem_text v) | _ \<Rightarrow> or_truthy v (JStr []))"

definition attr_entries :: "jv \<Rightarrow> jv" where
  "attr_entries v = (case v of JObj ps \<Rightarrow> JArr (map (\<lambda>k. JArr [JStr k, oget ps k]) (js_keys ps)) | _ \<Rightarrow> JArr [])"

definition open_rule :: "jv \<Rightarrow> jobj" where
  "open_rule rule =
     (let get = opt_prop rule in
      [(''enabled'', JBool (get ''enabled'' \<noteq> JBool False)), (''domain'', joined_or_text (get ''domain'')), (''ip'', joined_or_text (get ''ip'')),
       (''port'', or_truthy (get ''port'') (JStr [])), (''sourcePort'', or_truthy (get ''sourcePort'') (JStr [])),
       (''vlessRoute'', or_truthy (get ''vlessRoute'') (JStr [])), (''network'', or_truthy (get ''network'') (JStr [])),
       (''sourceIP'', joined_or_text (get ''sourceIP'')), (''user'', joined_or_text (get ''user'')),
       (''inboundTag'', or_truthy (get ''inboundTag'') (JArr [])), (''protocol'', or_truthy (get ''protocol'') (JArr [])),
       (''attrs'', attr_entries (get ''attrs'')),
       (''outboundTag'', or_truthy (get ''outboundTag'') (JStr [])), (''balancerTag'', or_truthy (get ''balancerTag'') (JStr []))])"

text \<open>\<open>RuleFormSchema.safeParse\<close>.\<close>

fun as_bool :: "jv \<Rightarrow> bool option" where
  "as_bool (JBool b) = Some b"
| "as_bool _ = None"

definition as_strings :: "jv \<Rightarrow> string list option" where
  "as_strings v = (case v of JArr xs \<Rightarrow> those (map js_str_of xs) | _ \<Rightarrow> None)"

definition as_pair :: "jv \<Rightarrow> (string \<times> string) option" where
  "as_pair v = (case v of JArr [JStr k, JStr x] \<Rightarrow> Some (k, x) | _ \<Rightarrow> None)"

definition as_pairs :: "jv \<Rightarrow> (string \<times> string) list option" where
  "as_pairs v = (case v of JArr xs \<Rightarrow> those (map as_pair xs) | _ \<Rightarrow> None)"

definition RuleFormSchema :: "jobj \<Rightarrow> rule_form option" where
  "RuleFormSchema form =
     (let text = (\<lambda>k. js_str_of (oget form k)) in
      do {
        enabled \<leftarrow> as_bool (oget form ''enabled''); domain \<leftarrow> text ''domain''; ip \<leftarrow> text ''ip''; port \<leftarrow> text ''port'';
        sourcePort \<leftarrow> text ''sourcePort''; vlessRoute \<leftarrow> text ''vlessRoute''; network \<leftarrow> text ''network''; sourceIP \<leftarrow> text ''sourceIP'';
        user \<leftarrow> text ''user''; inboundTag \<leftarrow> as_strings (oget form ''inboundTag''); protocol \<leftarrow> as_strings (oget form ''protocol'');
        attrs \<leftarrow> as_pairs (oget form ''attrs''); outboundTag \<leftarrow> text ''outboundTag''; balancerTag \<leftarrow> text ''balancerTag'';
        Some \<lparr>rf_enabled = enabled, rf_domain = domain, rf_ip = ip, rf_port = port, rf_sourcePort = sourcePort, rf_vlessRoute = vlessRoute,
          rf_network = network, rf_sourceIP = sourceIP, rf_user = user, rf_inboundTag = inboundTag, rf_protocol = protocol,
          rf_attrs = attrs, rf_outboundTag = outboundTag, rf_balancerTag = balancerTag\<rparr> })"

text \<open>\<open>built\<close>, and the loop that leaves empty fields out.\<close>

definition attrs_object :: "(string \<times> string) list \<Rightarrow> jobj" where
  "attrs_object attrs = fold (\<lambda>(k, v). oset k (JStr v)) (filter (\<lambda>(k, v). k \<noteq> []) attrs) []"

definition built_rule :: "rule_form \<Rightarrow> jobj" where
  "built_rule v =
     [(''type'', JStr ''field''), (''enabled'', JBool (rf_enabled v)), (''domain'', str_list (csv (rf_domain v))), (''ip'', str_list (csv (rf_ip v))),
      (''port'', JStr (rf_port v)), (''sourcePort'', JStr (rf_sourcePort v)), (''vlessRoute'', JStr (rf_vlessRoute v)), (''network'', JStr (rf_network v)),
      (''sourceIP'', str_list (csv (rf_sourceIP v))), (''user'', str_list (csv (rf_user v))), (''inboundTag'', str_list (rf_inboundTag v)),
      (''protocol'', str_list (rf_protocol v)), (''attrs'', JObj (attrs_object (rf_attrs v))),
      (''outboundTag'', if rf_outboundTag v = [] then JUndef else JStr (rf_outboundTag v)),
      (''balancerTag'', if rf_balancerTag v = [] then JUndef else JStr (rf_balancerTag v))]"

definition kept_field :: "jv \<Rightarrow> bool" where
  "kept_field v \<longleftrightarrow> v \<notin> {JUndef, JNull, JArr [], JObj [], JStr []}"

definition rule_of_form :: "rule_form \<Rightarrow> jv" where
  "rule_of_form v = JObj (filter (\<lambda>p. kept_field (snd p)) (built_rule v))"

text \<open>Submitting the form: nothing happens when the schema rejects it.\<close>

definition submit_rule :: "jobj \<Rightarrow> jv option" where
  "submit_rule form = map_option rule_of_form (RuleFormSchema form)"

section \<open>Lists in a text field\<close>

lemma trim_ends_solid: "trim s = [] \<or> \<not> is_space (hd (trim s)) \<and> \<not> is_space (last (trim s))"
proof (cases "trim s = []")
  case False
  let ?t = "dropWhile is_space s"
  have e: "trim s = rev (dropWhile is_space (rev ?t))" by (simp add: trim_def trim_start_def)
  have "dropWhile is_space (rev ?t) \<noteq> []" using False e by simp
  hence "\<not> is_space (last (trim s))" using hd_dropWhile [of is_space "rev ?t"] by (simp add: e last_rev)
  moreover have "?t = trim s @ rev (takeWhile is_space (rev ?t))"
    unfolding e by (metis rev_append rev_rev_ident takeWhile_dropWhile_id)
  hence "hd ?t = hd (trim s)" "?t \<noteq> []" using False by (metis hd_append2, metis append_is_Nil_conv)
  hence "\<not> is_space (hd (trim s))" using hd_dropWhile [of is_space s] by metis
  ultimately show ?thesis by blast
qed simp

lemma trim_solid: "s = [] \<or> \<not> is_space (hd s) \<and> \<not> is_space (last s) \<Longrightarrow> trim s = s"
  by (auto simp: trim_def trim_start_def dropWhile_eq_self_iff [THEN iffD2] hd_rev)

lemma trim_idem [simp]: "trim (trim s) = trim s"
  using trim_solid trim_ends_solid by blast

lemma trim_chars: "set (trim s) \<subseteq> set s"
proof
  fix x assume "x \<in> set (trim s)"
  hence "x \<in> set (dropWhile is_space (rev (dropWhile is_space s)))" by (simp add: trim_def trim_start_def)
  from set_dropWhileD [OF this] show "x \<in> set s" using set_dropWhileD [of x is_space s] by simp
qed

definition csv_item :: "string \<Rightarrow> bool" where
  "csv_item x \<longleftrightarrow> x \<noteq> [] \<and> trim x = x \<and> CHR '','' \<notin> set x"

lemma csv_items: "list_all csv_item (csv s)"
proof -
  have "csv_item (trim p)" if "p \<in> set (split_on CHR '','' s)" "trim p \<noteq> []" for p
    using that trim_chars [of p] split_on_parts [OF that(1)] by (auto simp: csv_item_def)
  thus ?thesis by (auto simp: csv_def list_all_iff)
qed

lemma csv_join: "list_all csv_item xs \<Longrightarrow> csv (join '','' xs) = xs"
proof (cases xs)
  case (Cons x ys)
  assume i: "list_all csv_item xs"
  hence "x \<noteq> []" "join '','' xs \<noteq> []" using Cons by (cases ys; simp add: csv_item_def)+
  moreover have "split_on CHR '','' (join '','' xs) = xs" using i Cons by (intro split_on_join) (auto simp: list_all_iff csv_item_def)
  moreover have "map trim xs = xs" using i by (intro map_idI) (auto simp: list_all_iff csv_item_def)
  moreover have "filter (\<lambda>s. s \<noteq> []) xs = xs" using i by (auto simp: filter_id_conv list_all_iff csv_item_def)
  ultimately show ?thesis by (simp add: csv_def)
qed (simp add: csv_def)

lemma csv_again [simp]: "csv (join '','' (csv s)) = csv s"
  by (rule csv_join [OF csv_items])

section \<open>Reading back what was submitted\<close>

lemma oget_kept: "wf_obj ps \<Longrightarrow> \<not> P JUndef \<Longrightarrow> oget (filter (\<lambda>p. P (snd p)) ps) k = (if P (oget ps k) then oget ps k else JUndef)"
proof (induction ps)
  case (Cons p ps)
  have "oget (filter (\<lambda>p. P (snd p)) ps) (fst p) = JUndef"
  proof -
    have "map_of (filter (\<lambda>p. P (snd p)) ps) (fst p) = None" using Cons.prems(1) by (force simp: map_of_eq_None_iff wf_obj_def)
    thus ?thesis by (simp add: oget_def)
  qed
  moreover have "oget (q # qs) j = (if fst q = j then snd q else oget qs j)" for q :: "string \<times> jv" and qs j
    by (simp add: oget_def)
  ultimately show ?case using Cons by (auto simp: wf_obj_def)
qed (simp add: oget_def)

definition unique_attrs :: "(string \<times> string) list \<Rightarrow> (string \<times> string) list" where
  "unique_attrs attrs = fold (\<lambda>(k, v). AList.update k v) (filter (\<lambda>(k, v). k \<noteq> []) attrs) []"

definition clean_form :: "rule_form \<Rightarrow> rule_form" where
  "clean_form f = f\<lparr>rf_domain := join '','' (csv (rf_domain f)), rf_ip := join '','' (csv (rf_ip f)), rf_sourceIP := join '','' (csv (rf_sourceIP f)),
     rf_user := join '','' (csv (rf_user f)), rf_attrs := unique_attrs (rf_attrs f)\<rparr>"

lemma attrs_object_unique: "attrs_object attrs = map (apsnd JStr) (unique_attrs attrs)"
proof -
  have u: "AList.update k (JStr v) (map (apsnd JStr) m) = map (apsnd JStr) (AList.update k v m)" for k v m
    by (induction m) auto
  have "fold (\<lambda>(k, v). oset k (JStr v)) xs (map (apsnd JStr) m) = map (apsnd JStr) (fold (\<lambda>(k, v). AList.update k v) xs m)" for xs m
    by (induction xs arbitrary: m) (auto simp: u)
  from this [of _ "[]"] show ?thesis by (simp add: attrs_object_def unique_attrs_def)
qed

lemma unique_attrs_keys: "distinct (map fst (unique_attrs attrs)) \<and> set (map fst (unique_attrs attrs)) \<subseteq> set (map fst attrs) - {[]}"
proof -
  have "distinct (map fst m) \<Longrightarrow> distinct (map fst (fold (\<lambda>(k, v). AList.update k v) xs m))
      \<and> set (map fst (fold (\<lambda>(k, v). AList.update k v) xs m)) = set (map fst m) \<union> set (map fst xs)" for xs and m :: "(string \<times> string) list"
  proof (induction xs arbitrary: m)
    case (Cons x xs)
    have "set (map fst (AList.update (fst x) (snd x) m)) = insert (fst x) (set (map fst m))" by (induction m) auto
    thus ?case using Cons.IH [of "AList.update (fst x) (snd x) m"] Cons.prems distinct_update [of m "fst x" "snd x"] by (simp add: case_prod_unfold)
  qed simp
  from this [of "[]" "filter (\<lambda>(k, v). k \<noteq> []) attrs"] show ?thesis by (auto simp: unique_attrs_def)
qed

lemma update_all_new: "distinct (map fst (m @ xs)) \<Longrightarrow> fold (\<lambda>(k, v). AList.update k v) xs m = m @ xs"
proof (induction xs arbitrary: m)
  case (Cons x xs)
  have "fst x \<notin> fst ` set m \<Longrightarrow> AList.update (fst x) (snd x) m = m @ [x]" by (induction m) auto
  thus ?case using Cons.IH [of "m @ [x]"] Cons.prems by (cases x) auto
qed simp

lemma unique_attrs_again: "unique_attrs (unique_attrs attrs) = unique_attrs attrs"
proof -
  have "filter (\<lambda>(k, v). k \<noteq> []) (unique_attrs attrs) = unique_attrs attrs"
    using unique_attrs_keys [of attrs] by (auto simp: filter_id_conv)
  thus ?thesis using update_all_new [of "[]" "unique_attrs attrs"] unique_attrs_keys [of attrs] by (simp add: unique_attrs_def [of "unique_attrs attrs"])
qed

lemma clean_same_rule: "rule_of_form (clean_form f) = rule_of_form f"
  by (simp add: rule_of_form_def built_rule_def clean_form_def attrs_object_unique unique_attrs_again)

lemma those_map_Some: "those (map (\<lambda>x. Some (f x)) xs) = Some (map f xs)"
  by (induction xs) auto

lemma as_strings_texts [simp]: "as_strings (str_list xs) = Some xs"
  using those_map_Some [of id xs] by (simp add: as_strings_def o_def js_str_of_def)

lemma attr_entries_pairs:
  assumes "list_all (\<lambda>(k, v). \<not> is_array_index k) as" "distinct (map fst as)"
  shows "as_pairs (attr_entries (JObj (map (apsnd JStr) as))) = Some as"
proof -
  let ?ps = "map (apsnd JStr) as"
  have f: "map fst ?ps = map fst as" by simp
  have "\<not> is_array_index (fst a)" if "a \<in> set as" for a using assms(1) that by (auto simp: list_all_iff)
  hence k: "js_keys ?ps = map fst as" using js_keys_plain [of ?ps] by (simp add: f del: map_map)
  have "as_pair (JArr [JStr (fst a), oget ?ps (fst a)]) = Some a" if "a \<in> set as" for a
  proof -
    have "map_of ?ps (fst a) = Some (JStr (snd a))" using assms(2) that by (intro map_of_is_SomeI) (auto simp: f image_iff prod_eq_iff simp del: map_map intro!: bexI [of _ a])
    thus ?thesis by (simp add: as_pair_def oget_def)
  qed
  hence "map as_pair (map (\<lambda>k. JArr [JStr k, oget ?ps k]) (map fst as)) = map Some as" by simp
  thus ?thesis using those_map_Some [of id as] by (simp add: as_pairs_def attr_entries_def k del: map_map)
qed

lemma rule_fields:
  "opt_prop (rule_of_form f) k = (let v = oget (built_rule f) k in if kept_field v then v else JUndef)"
proof -
  have "wf_obj (built_rule f)" by (simp add: built_rule_def wf_obj_def)
  from oget_kept [OF this, of kept_field k] show ?thesis by (simp add: kept_field_def [of JUndef] rule_of_form_def opt_prop_def Let_def)
qed

lemma kept_texts: "kept_field (str_list xs) \<longleftrightarrow> xs \<noteq> []" "kept_field (JStr s) \<longleftrightarrow> s \<noteq> []" "kept_field (JBool b)" "kept_field (JObj ps) \<longleftrightarrow> ps \<noteq> []"
  by (auto simp: kept_field_def)

lemma elem_texts: "elem_text (str_list xs) = join '','' xs"
  by (simp add: o_def)

lemma joined_kept: "joined_or_text (if kept_field (str_list xs) then str_list xs else JUndef) = JStr (join '','' xs)"
  by (simp add: kept_texts joined_or_text_def or_truthy_def) (simp add: o_def)

lemma or_kept: "or_truthy (if kept_field (JStr s) then JStr s else JUndef) (JStr []) = JStr s"
  "or_truthy (if kept_field (str_list xs) then str_list xs else JUndef) (JArr []) = str_list xs"
  by (simp_all add: kept_texts or_truthy_def)

lemma attrs_kept:
  assumes "list_all (\<lambda>(k, v). \<not> is_array_index k) attrs"
  shows "as_pairs (attr_entries (if kept_field (JObj (attrs_object attrs)) then JObj (attrs_object attrs) else JUndef)) = Some (unique_attrs attrs)"
proof -
  have "list_all (\<lambda>(k, v). \<not> is_array_index k) (unique_attrs attrs)"
    using assms unique_attrs_keys [of attrs] by (fastforce simp: list_all_iff image_iff)
  hence p: "as_pairs (attr_entries (JObj (attrs_object attrs))) = Some (unique_attrs attrs)"
    using attr_entries_pairs unique_attrs_keys [of attrs] by (simp add: attrs_object_unique)
  show ?thesis
  proof (cases "attrs_object attrs = []")
    case True
    thus ?thesis by (simp add: kept_texts attr_entries_def as_pairs_def attrs_object_unique)
  qed (simp add: kept_texts p)
qed

lemma opened_rule:
  assumes "list_all (\<lambda>(k, v). \<not> is_array_index k) (rf_attrs f)"
  shows "RuleFormSchema (open_rule (rule_of_form f)) = Some (clean_form f)"
proof -
  let ?r = "rule_of_form f"
  let ?k = "\<lambda>v. if kept_field v then v else JUndef"
  have g: "opt_prop ?r k = ?k (oget (built_rule f) k)" for k by (simp only: rule_fields Let_def)
  have "opt_prop ?r ''domain'' = ?k (str_list (csv (rf_domain f)))" "opt_prop ?r ''ip'' = ?k (str_list (csv (rf_ip f)))"
    "opt_prop ?r ''sourceIP'' = ?k (str_list (csv (rf_sourceIP f)))" "opt_prop ?r ''user'' = ?k (str_list (csv (rf_user f)))"
    "opt_prop ?r ''inboundTag'' = ?k (str_list (rf_inboundTag f))" "opt_prop ?r ''protocol'' = ?k (str_list (rf_protocol f))"
    "opt_prop ?r ''port'' = ?k (JStr (rf_port f))" "opt_prop ?r ''sourcePort'' = ?k (JStr (rf_sourcePort f))"
    "opt_prop ?r ''vlessRoute'' = ?k (JStr (rf_vlessRoute f))" "opt_prop ?r ''network'' = ?k (JStr (rf_network f))"
    "opt_prop ?r ''attrs'' = ?k (JObj (attrs_object (rf_attrs f)))"
    unfolding g by (simp_all add: built_rule_def oget_def)
  note lists = this
  have tags: "or_truthy (opt_prop ?r ''outboundTag'') (JStr []) = JStr (rf_outboundTag f)"
    "or_truthy (opt_prop ?r ''balancerTag'') (JStr []) = JStr (rf_balancerTag f)"
    unfolding g by (simp_all add: built_rule_def oget_def kept_field_def or_truthy_def)
  have en: "opt_prop ?r ''enabled'' = JBool (rf_enabled f)"
    unfolding g by (simp add: built_rule_def oget_def kept_field_def)
  have "open_rule ?r = [(''enabled'', JBool (rf_enabled f)), (''domain'', JStr (join '','' (csv (rf_domain f)))), (''ip'', JStr (join '','' (csv (rf_ip f)))),
       (''port'', JStr (rf_port f)), (''sourcePort'', JStr (rf_sourcePort f)), (''vlessRoute'', JStr (rf_vlessRoute f)), (''network'', JStr (rf_network f)),
       (''sourceIP'', JStr (join '','' (csv (rf_sourceIP f)))), (''user'', JStr (join '','' (csv (rf_user f)))),
       (''inboundTag'', str_list (rf_inboundTag f)), (''protocol'', str_list (rf_protocol f)),
       (''attrs'', attr_entries (?k (JObj (attrs_object (rf_attrs f))))),
       (''outboundTag'', JStr (rf_outboundTag f)), (''balancerTag'', JStr (rf_balancerTag f))]"
    unfolding open_rule_def Let_def lists tags joined_kept or_kept en by simp
  note op = this
  have "as_pairs (oget (open_rule ?r) ''attrs'') = Some (unique_attrs (rf_attrs f))"
    using attrs_kept [OF assms] by (simp add: op oget_def)
  moreover have "oget (open_rule ?r) ''inboundTag'' = str_list (rf_inboundTag f)" "oget (open_rule ?r) ''protocol'' = str_list (rf_protocol f)"
    by (simp_all add: op oget_def)
  ultimately show ?thesis
    by (simp add: RuleFormSchema_def Let_def) (simp add: op oget_def js_str_of_def clean_form_def)
qed

text \<open>C20: A rule saved from the form opens as the same form (its lists written with single commas, of repeated attribute
  names the last), and saving that gives the same rule, so an untouched rule is never changed; each
  list field of the rule holds the trimmed non-empty items of its text; and the rule is the panel's statistics rule
  exactly when it goes from the api inbound to the api outbound.\<close>
theorem rule_form_settles:
  assumes "list_all (\<lambda>(k, v). \<not> is_array_index k) (rf_attrs f)"
  shows "RuleFormSchema (open_rule (rule_of_form f)) = Some (clean_form f)
    \<and> submit_rule (open_rule (rule_of_form f)) = Some (rule_of_form f)
    \<and> opt_prop (rule_of_form f) ''domain'' = (if csv (rf_domain f) = [] then JUndef else str_list (csv (rf_domain f)))
    \<and> (isApiRule (rule_of_form f) \<longleftrightarrow> rf_outboundTag f = ''api'' \<and> ''api'' \<in> set (rf_inboundTag f))"
proof -
  have g: "opt_prop (rule_of_form f) k = (let v = oget (built_rule f) k in if kept_field v then v else JUndef)" for k by (rule rule_fields)
  have "opt_prop (rule_of_form f) ''domain'' = (if csv (rf_domain f) = [] then JUndef else str_list (csv (rf_domain f)))"
    by (simp add: g built_rule_def oget_def kept_field_def)
  moreover have "isApiRule (rule_of_form f) \<longleftrightarrow> rf_outboundTag f = ''api'' \<and> ''api'' \<in> set (rf_inboundTag f)"
    by (auto simp: isApiRule_def g built_rule_def oget_def kept_field_def)
  ultimately show ?thesis using opened_rule [OF assms] clean_same_rule [of f] by (simp add: submit_rule_def)
qed

theorem rule_form_settles_witness:
  "submit_rule (open_rule (rule_of_form (initialForm\<lparr>rf_domain := ''a, b'', rf_inboundTag := [''api''], rf_outboundTag := ''api'', rf_attrs := [(''k'', ''v'')]\<rparr>)))
     = Some (rule_of_form (initialForm\<lparr>rf_domain := ''a, b'', rf_inboundTag := [''api''], rf_outboundTag := ''api'', rf_attrs := [(''k'', ''v'')]\<rparr>))"
  using rule_form_settles [of "initialForm\<lparr>rf_domain := ''a, b'', rf_inboundTag := [''api''], rf_outboundTag := ''api'', rf_attrs := [(''k'', ''v'')]\<rparr>"]
  by (simp add: is_array_index_def is_digit_def)

text \<open>What the form cannot hold: an item with a comma is split in two, and a rule whose port is a number or whose inbound tag is a
  text, both of which Xray accepts, is rejected without a word.\<close>

lemma comma_item_split: "csv (elem_text (str_list [''regexp:a{1,2}''])) = [''regexp:a{1'', ''2}'']"
  by (simp add: csv_def trim_def trim_start_def is_space_def)

lemma numeric_port_rejected: "submit_rule (open_rule (JObj [(''port'', JNum (num 53)), (''outboundTag'', JStr ''direct'')])) = None"
  by (simp add: submit_rule_def RuleFormSchema_def open_rule_def opt_prop_def oget_def or_truthy_def num_truthy_def js_str_of_def
      joined_or_text_def attr_entries_def Let_def)

lemma tag_text_rejected: "submit_rule (open_rule (JObj [(''inboundTag'', JStr ''api''), (''outboundTag'', JStr ''api'')])) = None"
  by (simp add: submit_rule_def RuleFormSchema_def open_rule_def opt_prop_def oget_def or_truthy_def js_str_of_def as_strings_def
      joined_or_text_def attr_entries_def Let_def)

end
