(* ===== verification/Dns_Editor.thy ===== *)
theory Dns_Editor
  imports Rule_Form
begin

text \<open>
  The DNS tab of the template editor (\<open>frontend/src/pages/xray/dns\<close>): the form of one server with its wire shape
  (\<open>DnsServerModal.tsx\<close>, the schema of \<open>schemas/dns.ts\<close>), and the operations of the tab (\<open>DnsTab.tsx\<close>) on
  the template, which are run on a copy of it, with the rows of the host table that the tab keeps beside it.
  Host addresses are texts.
\<close>

section \<open>One server\<close>

definition coalesce :: "jv \<Rightarrow> jv \<Rightarrow> jv" where
  "coalesce a b = (if nullish a then b else a)"

text \<open>\<open>DnsServerObjectSchema\<close>: a field is absent, of its type, or the parse fails.\<close>

definition optional :: "(jv \<Rightarrow> bool) \<Rightarrow> jv \<Rightarrow> bool" where
  "optional ok v \<longleftrightarrow> v = JUndef \<or> ok v"

definition int_in :: "int \<Rightarrow> int \<Rightarrow> jv \<Rightarrow> bool" where
  "int_in lo hi v \<longleftrightarrow> (case v of JNum (Fin q) \<Rightarrow> of_int \<lfloor>q\<rfloor> = q \<and> lo \<le> \<lfloor>q\<rfloor> \<and> \<lfloor>q\<rfloor> \<le> hi | _ \<Rightarrow> False)"

definition MAX_SAFE :: int where
  "MAX_SAFE = 2 ^ 53 - 1"

definition DNS_STRATEGIES :: "string list" where
  "DNS_STRATEGIES = [''UseIP'', ''UseIPv4'', ''UseIPv6'', ''UseSystem'']"

definition DNS_SERVER_FIELDS :: "(string \<times> (jv \<Rightarrow> bool)) list" where
  "DNS_SERVER_FIELDS =
     [(''address'', \<lambda>v. js_str_of v \<noteq> None), (''port'', optional (int_in 1 65535)),
      (''domains'', optional (\<lambda>v. as_strings v \<noteq> None)), (''expectedIPs'', optional (\<lambda>v. as_strings v \<noteq> None)),
      (''unexpectedIPs'', optional (\<lambda>v. as_strings v \<noteq> None)), (''skipFallback'', optional (\<lambda>v. as_bool v \<noteq> None)),
      (''finalQuery'', optional (\<lambda>v. as_bool v \<noteq> None)), (''tag'', optional (\<lambda>v. js_str_of v \<noteq> None)),
      (''clientIP'', optional (\<lambda>v. js_str_of v \<noteq> None)), (''queryStrategy'', optional (\<lambda>v. v \<in> JStr ` set DNS_STRATEGIES)),
      (''disableCache'', optional (\<lambda>v. as_bool v \<noteq> None)), (''timeoutMs'', optional (int_in 0 MAX_SAFE)),
      (''serveStale'', optional (\<lambda>v. as_bool v \<noteq> None)), (''serveExpiredTTL'', optional (int_in 0 MAX_SAFE))]"

definition DNS_SERVER_DEFAULTS :: jobj where
  "DNS_SERVER_DEFAULTS = [(''port'', JNum (num 53)), (''timeoutMs'', JNum (num 4000))]"

definition DnsServerObjectSchema :: "jobj \<Rightarrow> (string \<Rightarrow> jv) option" where
  "DnsServerObjectSchema val =
     (let v = (if truthy (oget val ''expectIPs'') \<and> \<not> truthy (oget val ''expectedIPs'') then oset ''expectedIPs'' (oget val ''expectIPs'') val else val)
      in if list_all (\<lambda>(k, ok). ok (oget v k)) DNS_SERVER_FIELDS
         then Some (\<lambda>k. if k \<notin> set (map fst DNS_SERVER_FIELDS) then JUndef
                        else if oget v k = JUndef then oget DNS_SERVER_DEFAULTS k else oget v k)
         else None)"

definition defaultFormValues :: jobj where
  "defaultFormValues =
     [(''address'', JStr ''localhost''), (''port'', JNum (num 53)), (''domains'', JArr []), (''expectedIPs'', JArr []), (''unexpectedIPs'', JArr []),
      (''queryStrategy'', JStr ''UseIP''), (''skipFallback'', JBool False), (''disableCache'', JBool False), (''finalQuery'', JBool False),
      (''tag'', JStr []), (''clientIP'', JStr []), (''serveStale'', JBool False), (''serveExpiredTTL'', JNum (num 0)), (''timeoutMs'', JNum (num 4000))]"

text \<open>\<open>valuesFromServer\<close>: a value the schema rejects is taken over as it stands, except its port.\<close>

definition server_values :: "(string \<Rightarrow> jv) \<Rightarrow> (string \<Rightarrow> jv) \<Rightarrow> jv \<Rightarrow> jobj" where
  "server_values data raw port =
     (let pick = (\<lambda>k. coalesce (data k) (raw k)) in
      [(''address'', or_truthy (pick ''address'') (JStr ''localhost'')), (''port'', port),
       (''domains'', coalesce (pick ''domains'') (JArr [])),
       (''expectedIPs'', coalesce (pick ''expectedIPs'') (coalesce (raw ''expectIPs'') (JArr []))),
       (''unexpectedIPs'', coalesce (pick ''unexpectedIPs'') (JArr [])), (''queryStrategy'', coalesce (pick ''queryStrategy'') (JStr ''UseIP'')),
       (''skipFallback'', coalesce (pick ''skipFallback'') (JBool False)), (''disableCache'', coalesce (pick ''disableCache'') (JBool False)),
       (''finalQuery'', coalesce (pick ''finalQuery'') (JBool False)), (''tag'', coalesce (pick ''tag'') (JStr [])),
       (''clientIP'', coalesce (pick ''clientIP'') (JStr [])), (''serveStale'', coalesce (pick ''serveStale'') (JBool False)),
       (''serveExpiredTTL'', coalesce (pick ''serveExpiredTTL'') (JNum (num 0))), (''timeoutMs'', coalesce (pick ''timeoutMs'') (JNum (num 4000)))])"

definition valuesFromServer :: "jv \<Rightarrow> jobj" where
  "valuesFromServer server =
     (case server of
        JStr s \<Rightarrow> oset ''address'' (JStr s) defaultFormValues
      | JObj ps \<Rightarrow>
          (case DnsServerObjectSchema ps of
             Some data \<Rightarrow> server_values data (oget ps) (data ''port'')
           | None \<Rightarrow> server_values (\<lambda>_. JUndef) (oget ps) (JNum (num 53)))
      | _ \<Rightarrow> defaultFormValues)"

text \<open>The values of the form when \<open>validateFields\<close> has let them pass.\<close>

record dns_server_form =
  df_address :: string
  df_port :: int
  df_domains :: "string list"
  df_expectedIPs :: "string list"
  df_unexpectedIPs :: "string list"
  df_queryStrategy :: string
  df_skipFallback :: bool
  df_disableCache :: bool
  df_finalQuery :: bool
  df_tag :: string
  df_clientIP :: string
  df_serveStale :: bool
  df_serveExpiredTTL :: int
  df_timeoutMs :: int

definition dns_values :: "dns_server_form \<Rightarrow> jobj" where
  "dns_values f =
     [(''address'', JStr (df_address f)), (''port'', JNum (num (df_port f))), (''domains'', str_list (df_domains f)),
      (''expectedIPs'', str_list (df_expectedIPs f)), (''unexpectedIPs'', str_list (df_unexpectedIPs f)), (''queryStrategy'', JStr (df_queryStrategy f)),
      (''skipFallback'', JBool (df_skipFallback f)), (''disableCache'', JBool (df_disableCache f)), (''finalQuery'', JBool (df_finalQuery f)),
      (''tag'', JStr (df_tag f)), (''clientIP'', JStr (df_clientIP f)), (''serveStale'', JBool (df_serveStale f)),
      (''serveExpiredTTL'', JNum (num (df_serveExpiredTTL f))), (''timeoutMs'', JNum (num (df_timeoutMs f)))]"

definition isPlain :: "dns_server_form \<Rightarrow> bool" where
  "isPlain f \<longleftrightarrow> df_domains f = [] \<and> df_expectedIPs f = [] \<and> df_unexpectedIPs f = [] \<and> df_port f = 53 \<and> df_queryStrategy f = ''UseIP''
     \<and> \<not> df_skipFallback f \<and> \<not> df_disableCache f \<and> \<not> df_finalQuery f \<and> df_tag f = [] \<and> df_clientIP f = []
     \<and> \<not> df_serveStale f \<and> df_serveExpiredTTL f = 0 \<and> df_timeoutMs f = 4000"

definition nonempty_texts :: "string list \<Rightarrow> string list" where
  "nonempty_texts = filter (\<lambda>s. s \<noteq> [])"

definition valuesToWire :: "dns_server_form \<Rightarrow> jv" where
  "valuesToWire f =
     (if isPlain f then JStr (df_address f)
      else JObj ([(''address'', JStr (df_address f)), (''port'', JNum (num (df_port f))), (''domains'', str_list (nonempty_texts (df_domains f))),
        (''expectedIPs'', str_list (nonempty_texts (df_expectedIPs f))), (''unexpectedIPs'', str_list (nonempty_texts (df_unexpectedIPs f))),
        (''queryStrategy'', JStr (df_queryStrategy f)), (''skipFallback'', JBool (df_skipFallback f)), (''disableCache'', JBool (df_disableCache f)),
        (''finalQuery'', JBool (df_finalQuery f)), (''serveStale'', JBool (df_serveStale f)), (''serveExpiredTTL'', JNum (num (df_serveExpiredTTL f))),
        (''timeoutMs'', JNum (num (df_timeoutMs f)))]
        @ (if df_tag f = [] then [] else [(''tag'', JStr (df_tag f))]) @ (if df_clientIP f = [] then [] else [(''clientIP'', JStr (df_clientIP f))])))"

definition dns_form_valid :: "dns_server_form \<Rightarrow> bool" where
  "dns_form_valid f \<longleftrightarrow> df_address f \<noteq> [] \<and> 1 \<le> df_port f \<and> df_port f \<le> 65535 \<and> df_queryStrategy f \<in> set DNS_STRATEGIES
     \<and> 0 \<le> df_serveExpiredTTL f \<and> df_serveExpiredTTL f \<le> MAX_SAFE \<and> 0 \<le> df_timeoutMs f \<and> df_timeoutMs f \<le> MAX_SAFE"

definition drop_blanks :: "dns_server_form \<Rightarrow> dns_server_form" where
  "drop_blanks f = f\<lparr>df_domains := nonempty_texts (df_domains f), df_expectedIPs := nonempty_texts (df_expectedIPs f),
     df_unexpectedIPs := nonempty_texts (df_unexpectedIPs f)\<rparr>"

section \<open>Texts of the server table\<close>

definition addrFor :: "jv \<Rightarrow> string" where
  "addrFor server = (case server of JStr s \<Rightarrow> s | v \<Rightarrow> asString (opt_prop v ''address''))"

definition domainsFor :: "jv \<Rightarrow> string" where
  "domainsFor server = elem_text (or_truthy (opt_prop server ''domains'') (JArr []))"

definition expectedIPsFor :: "jv \<Rightarrow> string" where
  "expectedIPsFor server =
     (case or_truthy (opt_prop server ''expectedIPs'') (or_truthy (opt_prop server ''expectIPs'') (JArr [])) of
        JArr xs \<Rightarrow> elem_text (JArr xs) | _ \<Rightarrow> [])"

lemma int_in_num: "int_in lo hi (JNum (num i)) \<longleftrightarrow> lo \<le> i \<and> i \<le> hi"
  by (simp add: int_in_def)

lemma dns_server_read:
  assumes "dns_form_valid f" "\<not> isPlain f" "valuesToWire f = JObj ps"
  shows "valuesFromServer (JObj ps) = dns_values (drop_blanks f)"
proof -
  note v = assms(1) [unfolded dns_form_valid_def]
  define ps' where "ps' = [(''address'', JStr (df_address f)), (''port'', JNum (num (df_port f))), (''domains'', str_list (nonempty_texts (df_domains f))),
        (''expectedIPs'', str_list (nonempty_texts (df_expectedIPs f))), (''unexpectedIPs'', str_list (nonempty_texts (df_unexpectedIPs f))),
        (''queryStrategy'', JStr (df_queryStrategy f)), (''skipFallback'', JBool (df_skipFallback f)), (''disableCache'', JBool (df_disableCache f)),
        (''finalQuery'', JBool (df_finalQuery f)), (''serveStale'', JBool (df_serveStale f)), (''serveExpiredTTL'', JNum (num (df_serveExpiredTTL f))),
        (''timeoutMs'', JNum (num (df_timeoutMs f)))]
        @ (if df_tag f = [] then [] else [(''tag'', JStr (df_tag f))]) @ (if df_clientIP f = [] then [] else [(''clientIP'', JStr (df_clientIP f))])"
  have ps: "ps = ps'" using assms(2,3) unfolding valuesToWire_def ps'_def by (simp only: if_False jv.inject)
  have fields: "oget ps ''address'' = JStr (df_address f)" "oget ps ''port'' = JNum (num (df_port f))"
    "oget ps ''domains'' = str_list (nonempty_texts (df_domains f))" "oget ps ''expectedIPs'' = str_list (nonempty_texts (df_expectedIPs f))"
    "oget ps ''unexpectedIPs'' = str_list (nonempty_texts (df_unexpectedIPs f))" "oget ps ''queryStrategy'' = JStr (df_queryStrategy f)"
    "oget ps ''skipFallback'' = JBool (df_skipFallback f)" "oget ps ''disableCache'' = JBool (df_disableCache f)"
    "oget ps ''finalQuery'' = JBool (df_finalQuery f)" "oget ps ''serveStale'' = JBool (df_serveStale f)"
    "oget ps ''serveExpiredTTL'' = JNum (num (df_serveExpiredTTL f))" "oget ps ''timeoutMs'' = JNum (num (df_timeoutMs f))"
    "oget ps ''expectIPs'' = JUndef" "oget ps ''tag'' = (if df_tag f = [] then JUndef else JStr (df_tag f))"
    "oget ps ''clientIP'' = (if df_clientIP f = [] then JUndef else JStr (df_clientIP f))"
    unfolding ps ps'_def by (simp_all add: oget_def)
  have "list_all (\<lambda>(k, ok). ok (oget ps k)) DNS_SERVER_FIELDS"
    using v by (simp add: DNS_SERVER_FIELDS_def fields optional_def int_in_num js_str_of_def)
  hence s: "DnsServerObjectSchema ps = Some (\<lambda>k. if k \<notin> set (map fst DNS_SERVER_FIELDS) then JUndef
      else if oget ps k = JUndef then oget DNS_SERVER_DEFAULTS k else oget ps k)"
    by (simp add: DnsServerObjectSchema_def fields)
  have d: "oget DNS_SERVER_DEFAULTS ''tag'' = JUndef" "oget DNS_SERVER_DEFAULTS ''clientIP'' = JUndef"
    by (simp_all add: DNS_SERVER_DEFAULTS_def oget_def)
  show ?thesis using v
    by (simp add: valuesFromServer_def s server_values_def Let_def fields d DNS_SERVER_FIELDS_def
        coalesce_def or_truthy_def dns_values_def drop_blanks_def)
qed

lemma plain_same: "isPlain f \<Longrightarrow> dns_values f = oset ''address'' (JStr (df_address f)) defaultFormValues"
  by (simp add: isPlain_def dns_values_def defaultFormValues_def)

text \<open>C27: A DNS server saved from the form opens with the same values, without the blank entries of its lists, whether it was
  written as a bare address or as an object; it is a bare address exactly when everything but the address
  is at its default; and the table shows its address and domains.\<close>
theorem dns_server_roundtrip:
  assumes "dns_form_valid f"
  shows "valuesFromServer (valuesToWire f) = dns_values (drop_blanks f)
    \<and> (valuesToWire f = JStr (df_address f) \<longleftrightarrow> isPlain f)
    \<and> addrFor (valuesToWire f) = df_address f \<and> domainsFor (valuesToWire f) = join '','' (nonempty_texts (df_domains f))"
proof (cases "isPlain f")
  case True
  hence "drop_blanks f = f" by (simp add: drop_blanks_def isPlain_def nonempty_texts_def)
  moreover have "df_domains f = []" using True by (simp add: isPlain_def)
  ultimately show ?thesis using plain_same [OF True] True
    by (simp add: valuesToWire_def valuesFromServer_def addrFor_def domainsFor_def opt_prop_def or_truthy_def nonempty_texts_def)
next
  case False
  obtain ps where ps: "valuesToWire f = JObj ps" using False by (simp add: valuesToWire_def)
  have "addrFor (valuesToWire f) = df_address f" "domainsFor (valuesToWire f) = join '','' (nonempty_texts (df_domains f))"
    using False by (simp_all add: valuesToWire_def addrFor_def domainsFor_def opt_prop_def oget_def or_truthy_def o_def asString_or_def)
  thus ?thesis using dns_server_read [OF assms False ps] ps False by simp
qed

definition sample_dns_form :: dns_server_form where
  "sample_dns_form = \<lparr>df_address = ''1.1.1.1'', df_port = 53, df_domains = [''geosite:cn'', []], df_expectedIPs = [], df_unexpectedIPs = [],
     df_queryStrategy = ''UseIP'', df_skipFallback = True, df_disableCache = False, df_finalQuery = False, df_tag = [], df_clientIP = [],
     df_serveStale = False, df_serveExpiredTTL = 0, df_timeoutMs = 4000\<rparr>"

theorem dns_server_roundtrip_witness:
  "oget (valuesFromServer (valuesToWire sample_dns_form)) ''domains'' = str_list [''geosite:cn'']"
proof -
  have "dns_form_valid sample_dns_form" by (simp add: dns_form_valid_def sample_dns_form_def DNS_STRATEGIES_def MAX_SAFE_def)
  from conjunct1 [OF dns_server_roundtrip [OF this]] show ?thesis
    by (simp only: dns_values_def) (simp add: oget_def drop_blanks_def sample_dns_form_def nonempty_texts_def)
qed

text \<open>A server the schema rejects, here for its port, opens with port 53, and saving it writes that.\<close>

lemma rejected_port_replaced:
  "oget (valuesFromServer (JObj [(''address'', JStr ''1.1.1.1''), (''port'', JNum (num 70000))])) ''port'' = JNum (num 53)"
  by (simp add: valuesFromServer_def DnsServerObjectSchema_def DNS_SERVER_FIELDS_def oget_def optional_def int_in_def server_values_def js_str_of_def)

section \<open>The tab\<close>

record host_row =
  hr_domain :: string
  hr_values :: "string list"

text \<open>The template, the rows of the host table, and whether DNS was on when the effect last ran.\<close>

record dns_tab =
  dt_template :: jv
  dt_hosts :: "host_row list"
  dt_enabled :: bool

definition dns_of :: "jv \<Rightarrow> jv" where
  "dns_of t = opt_prop t ''dns''"

definition dnsEnabled :: "jv \<Rightarrow> bool" where
  "dnsEnabled t \<longleftrightarrow> truthy (dns_of t)"

text \<open>\<open>mutate\<close> of a mutator that changes \<open>tt.dns\<close> when there is one.\<close>

definition edit_dns :: "(jv \<Rightarrow> jv) \<Rightarrow> jv \<Rightarrow> jv" where
  "edit_dns f t = (if truthy t \<and> dnsEnabled t then set_prop ''dns'' (f (dns_of t)) t else t)"

definition del_prop :: "string \<Rightarrow> jv \<Rightarrow> jv" where
  "del_prop k v = (case v of JObj ps \<Rightarrow> JObj (odel k ps) | _ \<Rightarrow> v)"

definition NEW_DNS :: jv where
  "NEW_DNS = JObj [(''tag'', JStr ''dns_inbound''), (''queryStrategy'', JStr ''UseIP''), (''disableCache'', JBool False), (''disableFallback'', JBool False),
     (''disableFallbackIfMatch'', JBool False), (''useSystemHosts'', JBool False), (''enableParallelQuery'', JBool False), (''serveStale'', JBool False),
     (''serveExpiredTTL'', JNum (num 0)), (''hosts'', JObj []), (''servers'', JArr [])]"

definition toggleDNS :: "bool \<Rightarrow> jv \<Rightarrow> jv" where
  "toggleDNS enabled t =
     (if \<not> truthy t then t
      else if enabled then set_prop ''fakedns'' JNull (set_prop ''dns'' NEW_DNS t)
      else del_prop ''fakedns'' (del_prop ''dns'' t))"

text \<open>The rows the effect makes of the hosts, and the hosts that \<open>syncHosts\<close> makes of the rows.\<close>

definition host_rows :: "jv \<Rightarrow> host_row list" where
  "host_rows dns =
     (case or_truthy (opt_prop dns ''hosts'') (JObj []) of
        JObj src \<Rightarrow> map (\<lambda>k. \<lparr>hr_domain = k, hr_values = (case oget src k of JArr xs \<Rightarrow> map elem_text xs | v \<Rightarrow> [elem_text v])\<rparr>) (js_keys src)
      | _ \<Rightarrow> [])"

definition host_of_row :: "host_row \<Rightarrow> (string \<times> string list) option" where
  "host_of_row row =
     (let vals = nonempty_texts (hr_values row) in if hr_domain row = [] \<or> vals = [] then None else Some (hr_domain row, vals))"

definition host_value :: "string list \<Rightarrow> jv" where
  "host_value vals = (case vals of [v] \<Rightarrow> JStr v | _ \<Rightarrow> str_list vals)"

definition hosts_object :: "host_row list \<Rightarrow> jobj" where
  "hosts_object rows = fold (\<lambda>(d, vals). oset d (host_value vals)) (List.map_filter host_of_row rows) []"

definition syncHosts :: "host_row list \<Rightarrow> dns_tab \<Rightarrow> dns_tab" where
  "syncHosts next_rows s =
     s\<lparr>dt_hosts := next_rows,
       dt_template := edit_dns (\<lambda>dns. let ob = hosts_object next_rows in
         if ob \<noteq> [] then set_prop ''hosts'' (JObj ob) dns else if has_own dns ''hosts'' then del_prop ''hosts'' dns else dns) (dt_template s)\<rparr>"

definition dns_effect :: "dns_tab \<Rightarrow> dns_tab" where
  "dns_effect s =
     (let on = dnsEnabled (dt_template s)
      in if on = dt_enabled s then s
         else s\<lparr>dt_enabled := on, dt_hosts := (if on then host_rows (dns_of (dt_template s)) else [])\<rparr>)"

text \<open>The tab as it is mounted: its effect runs once.\<close>

definition mount_dns :: "jv \<Rightarrow> dns_tab" where
  "mount_dns t = \<lparr>dt_template = t, dt_hosts = (if dnsEnabled t then host_rows (dns_of t) else []), dt_enabled = dnsEnabled t\<rparr>"

definition setDnsField :: "string \<Rightarrow> jv \<Rightarrow> bool \<Rightarrow> jv \<Rightarrow> jv" where
  "setDnsField key value omit =
     edit_dns (\<lambda>dns. if omit \<and> (nullish value \<or> (case value of JStr s \<Rightarrow> trim s = [] | _ \<Rightarrow> False)) then del_prop key dns else set_prop key value dns)"

definition map_servers :: "(jv list \<Rightarrow> jv list) \<Rightarrow> jv \<Rightarrow> jv" where
  "map_servers f dns = (case opt_prop dns ''servers'' of JArr xs \<Rightarrow> set_prop ''servers'' (JArr (f xs)) dns | _ \<Rightarrow> dns)"

definition deleteServer :: "nat \<Rightarrow> jv \<Rightarrow> jv" where
  "deleteServer idx = edit_dns (map_servers (splice_out idx))"

definition onServerConfirm :: "nat option \<Rightarrow> jv \<Rightarrow> jv \<Rightarrow> jv" where
  "onServerConfirm editingIndex value =
     edit_dns (\<lambda>dns.
       let xs = asArray (opt_prop dns ''servers'')
       in set_prop ''servers'' (JArr (case editingIndex of None \<Rightarrow> xs @ [value] | Some i \<Rightarrow> put_at i value xs)) dns)"

definition setServers :: "string list \<Rightarrow> jv \<Rightarrow> jv" where
  "setServers servers = edit_dns (set_prop ''servers'' (str_list servers))"

definition DEFAULT_FAKEDNS :: jv where
  "DEFAULT_FAKEDNS = JObj [(''ipPool'', JStr ''198.18.0.0/15''), (''poolSize'', JNum (num 65535))]"

text \<open>\<open>fakedns\<close> is a list or \<open>null\<close>; an entry that is an object is changed in place.\<close>

definition deleteFakedns :: "nat \<Rightarrow> jv \<Rightarrow> jv" where
  "deleteFakedns idx t =
     (case opt_prop t ''fakedns'' of
        JArr xs \<Rightarrow> set_prop ''fakedns'' (let ys = splice_out idx xs in if ys = [] then JNull else JArr ys) t
      | _ \<Rightarrow> t)"

definition updateFakednsField :: "nat \<Rightarrow> string \<Rightarrow> jv \<Rightarrow> jv \<Rightarrow> jv" where
  "updateFakednsField idx field v t =
     (case opt_prop t ''fakedns'' of
        JArr xs \<Rightarrow> if truthy (elem_at xs idx) then set_prop ''fakedns'' (JArr (xs[idx := set_prop field v (xs ! idx)])) t else t
      | _ \<Rightarrow> t)"

definition addFakedns :: "jv \<Rightarrow> jv" where
  "addFakedns t = (if truthy t then set_prop ''fakedns'' (JArr (asArray (opt_prop t ''fakedns'') @ [DEFAULT_FAKEDNS])) t else t)"

datatype dns_op =
    Dns_Toggle bool | Dns_Hosts "host_row list" | Dns_Field string jv bool | Dns_Delete nat | Dns_Confirm "nat option" jv | Dns_Servers "string list"
  | Dns_Fake_Add | Dns_Fake_Delete nat | Dns_Fake_Set nat string jv

text \<open>The fields that have a control on the tab. The host table is shown while DNS is on, and the switch only ever changes it.\<close>

definition DNS_FIELD_KEYS :: "string list" where
  "DNS_FIELD_KEYS = [''tag'', ''clientIp'', ''queryStrategy'', ''disableCache'', ''disableFallback'', ''disableFallbackIfMatch'', ''enableParallelQuery'',
     ''useSystemHosts'', ''serveStale'', ''serveExpiredTTL'']"

definition dns_step :: "dns_op \<Rightarrow> dns_tab \<Rightarrow> dns_tab" where
  "dns_step act s =
     dns_effect
       (let on_template = (\<lambda>f. s\<lparr>dt_template := f (dt_template s)\<rparr>) in
        case act of
          Dns_Toggle b \<Rightarrow> if b = dnsEnabled (dt_template s) then s else on_template (toggleDNS b)
        | Dns_Hosts rows \<Rightarrow> if dnsEnabled (dt_template s) then syncHosts rows s else s
        | Dns_Field k v omit \<Rightarrow> if k \<in> set DNS_FIELD_KEYS then on_template (setDnsField k v omit) else s
        | Dns_Delete i \<Rightarrow> on_template (deleteServer i)
        | Dns_Confirm i v \<Rightarrow> on_template (onServerConfirm i v)
        | Dns_Servers xs \<Rightarrow> on_template (setServers xs)
        | Dns_Fake_Add \<Rightarrow> on_template addFakedns
        | Dns_Fake_Delete i \<Rightarrow> on_template (deleteFakedns i)
        | Dns_Fake_Set i field v \<Rightarrow> on_template (updateFakednsField i field v))"

section \<open>Rows and hosts\<close>

definition host_map :: "host_row list \<Rightarrow> string \<Rightarrow> string list option" where
  "host_map rows = map_of (rev (List.map_filter host_of_row rows))"

lemma host_map_Nil [simp]: "host_map [] = Map.empty"
  by (simp add: host_map_def List.map_filter_simps)

lemma nonempty_texts_idem [simp]: "nonempty_texts (nonempty_texts xs) = nonempty_texts xs"
  by (simp add: nonempty_texts_def)

lemma host_pairs:
  assumes "(d, vals) \<in> set (List.map_filter host_of_row rows)"
  shows "d \<noteq> [] \<and> vals \<noteq> [] \<and> nonempty_texts vals = vals"
  using assms by (auto simp: List.map_filter_def host_of_row_def Let_def split: if_splits)

lemma host_value_read: "(case host_value vals of JArr xs \<Rightarrow> map elem_text xs | v \<Rightarrow> [elem_text v]) = vals"
  by (cases vals; cases "tl vals") (auto simp: host_value_def o_def split: list.splits)

lemma hosts_object_get: "map_of (hosts_object rows) k = map_option host_value (host_map rows k)"
proof -
  let ?L = "List.map_filter host_of_row rows"
  have "hosts_object rows = fold (\<lambda>(k, v). oset k v) (map (apsnd host_value) ?L) []"
    by (simp add: hosts_object_def fold_map o_def case_prod_unfold)
  moreover have "map_of (rev (map (apsnd host_value) L)) k = map_option host_value (map_of (rev L) k)" for L
    by (induction L) (auto simp: map_add_def split: option.split)
  ultimately show ?thesis by (simp add: obj.get_put_all host_map_def split: option.split)
qed

lemma host_rows_map:
  assumes "opt_prop dns ''hosts'' = JObj (hosts_object rows)"
  shows "host_map (host_rows dns) = host_map rows"
proof (rule ext)
  fix k
  let ?ob = "hosts_object rows" and ?v = "\<lambda>k. the (host_map rows k)"
  have some: "k \<in> set (js_keys ?ob) \<longleftrightarrow> host_map rows k \<noteq> None" for k
    using hosts_object_get [of rows k] map_of_eq_None_iff [of ?ob k] by simp
  have val: "k \<noteq> [] \<and> ?v k \<noteq> [] \<and> nonempty_texts (?v k) = ?v k \<and> oget ?ob k = host_value (?v k)" if "host_map rows k \<noteq> None" for k
  proof -
    from that obtain vals where v: "host_map rows k = Some vals" by blast
    hence "(k, vals) \<in> set (List.map_filter host_of_row rows)" unfolding host_map_def by (auto dest: map_of_SomeD)
    from host_pairs [OF this] show ?thesis using v hosts_object_get [of rows k] by (simp add: oget_def)
  qed
  define row where "row = (\<lambda>k. \<lparr>hr_domain = k, hr_values = (case oget ?ob k of JArr xs \<Rightarrow> map elem_text xs | v \<Rightarrow> [elem_text v])\<rparr>)"
  have r: "host_of_row (row k) = Some (k, ?v k)" if "k \<in> set (js_keys ?ob)" for k
    using val [of k] some [of k] that by (simp add: row_def host_value_read host_of_row_def Let_def)
  have h: "host_rows dns = map row (js_keys ?ob)" using assms by (simp add: host_rows_def or_truthy_def row_def)
  have "List.map_filter host_of_row (map row ks) = map (\<lambda>k. (k, ?v k)) ks" if "set ks \<subseteq> set (js_keys ?ob)" for ks
    using that r by (induction ks) (auto simp: List.map_filter_simps)
  hence "List.map_filter host_of_row (host_rows dns) = map (\<lambda>k. (k, ?v k)) (js_keys ?ob)" unfolding h by blast
  hence "host_map (host_rows dns) = (Some \<circ> ?v) |` set (js_keys ?ob)"
    by (simp add: host_map_def rev_map map_of_map_restrict)
  thus "host_map (host_rows dns) k = host_map rows k" using some [of k] by (auto simp: restrict_map_def)
qed

lemma host_map_empty: "hosts_object rows = [] \<Longrightarrow> host_map rows = Map.empty"
  using hosts_object_get [of rows] by (intro ext) simp

section \<open>The tab keeps rows and template together\<close>

definition fakedns_ok :: "jv \<Rightarrow> bool" where
  "fakedns_ok t \<longleftrightarrow> (case opt_prop t ''fakedns'' of JUndef \<Rightarrow> True | JNull \<Rightarrow> True | JArr xs \<Rightarrow> xs \<noteq> [] | _ \<Rightarrow> False)"

definition dns_object :: "jv \<Rightarrow> bool" where
  "dns_object t \<longleftrightarrow> (case dns_of t of JObj ps \<Rightarrow> True | v \<Rightarrow> \<not> truthy v)"

definition dns_tab_ok :: "dns_tab \<Rightarrow> bool" where
  "dns_tab_ok s \<longleftrightarrow> fakedns_ok (dt_template s) \<and> dns_object (dt_template s) \<and> dt_enabled s = dnsEnabled (dt_template s)
     \<and> host_map (dt_hosts s) = host_map (dt_hosts (mount_dns (dt_template s)))"

lemma opt_prop_none [simp]: "\<forall>ps. v \<noteq> JObj ps \<Longrightarrow> opt_prop v k = JUndef"
  by (cases v) (simp_all add: opt_prop_def)

lemma opt_set [simp]: "opt_prop (set_prop k v t) j = (case t of JObj ps \<Rightarrow> if j = k then v else opt_prop t j | _ \<Rightarrow> JUndef)"
  by (cases t) (simp_all add: set_prop_def opt_prop_def)

lemma opt_del [simp]: "opt_prop (del_prop k t) j = (if j = k then JUndef else opt_prop t j)"
  by (cases t) (simp_all add: del_prop_def opt_prop_def)

lemma dns_on: "dns_object t \<Longrightarrow> dnsEnabled t \<Longrightarrow> \<exists>ts ps. t = JObj ts \<and> oget ts ''dns'' = JObj ps"
  by (cases t) (auto simp: dns_object_def dnsEnabled_def dns_of_def opt_prop_def split: jv.splits)

text \<open>An edit of \<open>dns\<close> that leaves its hosts alone, and an edit of another part of the template.\<close>

lemma ok_edit_dns:
  assumes "dns_tab_ok s" and "\<And>ps. \<exists>qs. f (JObj ps) = JObj qs \<and> oget qs ''hosts'' = oget ps ''hosts''"
  shows "dns_tab_ok (dns_effect (s\<lparr>dt_template := edit_dns f (dt_template s)\<rparr>))"
proof (cases "dnsEnabled (dt_template s)")
  case False
  thus ?thesis using assms(1) by (simp add: edit_dns_def dns_tab_ok_def dns_effect_def Let_def)
next
  case True
  then obtain ts ps where t: "dt_template s = JObj ts" "oget ts ''dns'' = JObj ps" using assms(1) dns_on unfolding dns_tab_ok_def by blast
  obtain qs where q: "f (JObj ps) = JObj qs" "oget qs ''hosts'' = oget ps ''hosts''" using assms(2) by blast
  have e: "edit_dns f (JObj ts) = JObj (oset ''dns'' (JObj qs) ts)"
    using True t q by (simp add: edit_dns_def dns_of_def opt_prop_def set_prop_def)
  have "host_rows (JObj qs) = host_rows (JObj ps)" using q(2) by (simp add: host_rows_def opt_prop_def)
  thus ?thesis using assms(1) t True
    by (simp add: e dns_tab_ok_def dns_effect_def Let_def mount_dns_def dnsEnabled_def dns_object_def dns_of_def opt_prop_def fakedns_ok_def)
qed

lemma ok_other:
  assumes "dns_tab_ok s" and "dns_of t = dns_of (dt_template s)" and "fakedns_ok t"
  shows "dns_tab_ok (dns_effect (s\<lparr>dt_template := t\<rparr>))"
  using assms by (simp add: dns_tab_ok_def dns_effect_def Let_def mount_dns_def dnsEnabled_def dns_object_def)

lemma ok_mounted: "fakedns_ok t \<Longrightarrow> dns_object t \<Longrightarrow> dns_tab_ok (mount_dns t)"
  by (simp add: dns_tab_ok_def mount_dns_def)

lemma fakedns_ok_prop: "opt_prop t ''fakedns'' = opt_prop u ''fakedns'' \<Longrightarrow> fakedns_ok t = fakedns_ok u"
  by (simp add: fakedns_ok_def)

lemma ok_toggle:
  assumes "dns_tab_ok s" and "b \<noteq> dnsEnabled (dt_template s)"
  shows "dns_tab_ok (dns_effect (s\<lparr>dt_template := toggleDNS b (dt_template s)\<rparr>))"
proof -
  let ?t = "toggleDNS b (dt_template s)"
  have "fakedns_ok ?t \<and> dns_object ?t"
    using assms by (cases "dt_template s") (auto simp: toggleDNS_def dns_tab_ok_def fakedns_ok_def dns_object_def dns_of_def NEW_DNS_def
        set_prop_def del_prop_def opt_prop_def simp del: opt_set opt_del)
  moreover have "\<not> dnsEnabled (toggleDNS False t)" for t
    by (cases t) (auto simp: toggleDNS_def dnsEnabled_def dns_of_def)
  ultimately show ?thesis using assms by (auto simp: dns_tab_ok_def dns_effect_def Let_def mount_dns_def)
qed

lemma ok_hosts:
  assumes "dns_tab_ok s" and "dnsEnabled (dt_template s)"
  shows "dns_tab_ok (dns_effect (syncHosts rows s))"
proof -
  obtain ts ps where t: "dt_template s = JObj ts" "oget ts ''dns'' = JObj ps" using assms dns_on unfolding dns_tab_ok_def by blast
  have ps: "opt_prop (JObj ps) ''hosts'' = oget ps ''hosts''" by (simp add: opt_prop_def)
  obtain qs where q: "dt_template (syncHosts rows s) = JObj (oset ''dns'' (JObj qs) ts)" "host_map (host_rows (JObj qs)) = host_map rows"
  proof (cases "hosts_object rows = []")
    case True
    have "host_rows (JObj (odel ''hosts'' ps)) = []" by (simp add: host_rows_def opt_prop_def or_truthy_def js_keys_def)
    moreover have "host_rows (JObj ps) = []" if "\<not> has_own (JObj ps) ''hosts''"
      using that by (simp add: host_rows_def opt_prop_def or_truthy_def js_keys_def has_own_def oget_def map_of_eq_None_iff [THEN iffD2])
    ultimately show thesis
      using that [of "if has_own (JObj ps) ''hosts'' then odel ''hosts'' ps else ps"] True assms(2) t host_map_empty [OF True]
      by (simp add: syncHosts_def edit_dns_def dns_of_def opt_prop_def set_prop_def del_prop_def split: if_splits)
  next
    case False
    have "host_map (host_rows (JObj (oset ''hosts'' (JObj (hosts_object rows)) ps))) = host_map rows"
      by (rule host_rows_map) (simp add: opt_prop_def)
    thus thesis
      using that [of "oset ''hosts'' (JObj (hosts_object rows)) ps"] False assms(2) t
      by (simp add: syncHosts_def edit_dns_def dns_of_def opt_prop_def set_prop_def)
  qed
  have h: "dt_hosts (syncHosts rows s) = rows" "dt_enabled (syncHosts rows s) = dt_enabled s" by (simp_all add: syncHosts_def)
  show ?thesis using assms t q h
    by (simp add: dns_tab_ok_def dns_effect_def Let_def mount_dns_def dnsEnabled_def dns_object_def dns_of_def opt_prop_def fakedns_ok_def)
qed

lemma dns_step_ok:
  assumes "dns_tab_ok s"
  shows "dns_tab_ok (dns_step act s)"
proof -
  let ?t = "dt_template s"
  have idle: "dns_tab_ok (dns_effect s)" using assms by (simp add: dns_effect_def dns_tab_ok_def Let_def)
  have fk: "fakedns_ok ?t" using assms by (simp add: dns_tab_ok_def)
  show ?thesis
  proof (cases act)
    case (Dns_Toggle b)
    thus ?thesis using idle ok_toggle [OF assms] by (simp add: dns_step_def)
  next
    case (Dns_Hosts rows)
    thus ?thesis using idle ok_hosts [OF assms] by (simp add: dns_step_def)
  next
    case (Dns_Field k v omit)
    have "dns_tab_ok (dns_effect (s\<lparr>dt_template := setDnsField k v omit ?t\<rparr>))" if "k \<in> set DNS_FIELD_KEYS"
      unfolding setDnsField_def
      by (rule ok_edit_dns [OF assms]) (use that in \<open>auto simp: DNS_FIELD_KEYS_def set_prop_def del_prop_def\<close>)
    thus ?thesis using Dns_Field idle by (simp add: dns_step_def)
  next
    case (Dns_Delete i)
    have "dns_tab_ok (dns_effect (s\<lparr>dt_template := deleteServer i ?t\<rparr>))" unfolding deleteServer_def
      by (rule ok_edit_dns [OF assms]) (auto simp: map_servers_def set_prop_def split: jv.split)
    thus ?thesis using Dns_Delete by (simp add: dns_step_def)
  next
    case (Dns_Confirm i v)
    have "dns_tab_ok (dns_effect (s\<lparr>dt_template := onServerConfirm i v ?t\<rparr>))" unfolding onServerConfirm_def
      by (rule ok_edit_dns [OF assms]) (auto simp: set_prop_def Let_def)
    thus ?thesis using Dns_Confirm by (simp add: dns_step_def)
  next
    case (Dns_Servers xs)
    have "dns_tab_ok (dns_effect (s\<lparr>dt_template := setServers xs ?t\<rparr>))" unfolding setServers_def
      by (rule ok_edit_dns [OF assms]) (auto simp: set_prop_def)
    thus ?thesis using Dns_Servers by (simp add: dns_step_def)
  next
    case Dns_Fake_Add
    have "fakedns_ok (addFakedns ?t)" using fk by (cases ?t) (auto simp: addFakedns_def fakedns_ok_def)
    moreover have "dns_of (addFakedns ?t) = dns_of ?t" by (cases ?t) (auto simp: addFakedns_def dns_of_def)
    ultimately show ?thesis using ok_other [OF assms] Dns_Fake_Add by (simp add: dns_step_def)
  next
    case (Dns_Fake_Delete i)
    have "fakedns_ok (deleteFakedns i ?t)" using fk
      by (cases ?t) (auto simp: deleteFakedns_def fakedns_ok_def Let_def opt_prop_def set_prop_def split: jv.splits)
    moreover have "dns_of (deleteFakedns i ?t) = dns_of ?t"
      by (cases ?t) (auto simp: deleteFakedns_def dns_of_def opt_prop_def set_prop_def split: jv.split)
    ultimately show ?thesis using ok_other [OF assms] Dns_Fake_Delete by (simp add: dns_step_def)
  next
    case (Dns_Fake_Set i field v)
    have "fakedns_ok (updateFakednsField i field v ?t)" using fk
      by (cases ?t) (auto simp: updateFakednsField_def fakedns_ok_def opt_prop_def set_prop_def split: jv.splits)
    moreover have "dns_of (updateFakednsField i field v ?t) = dns_of ?t"
      by (cases ?t) (auto simp: updateFakednsField_def dns_of_def opt_prop_def set_prop_def split: jv.split)
    ultimately show ?thesis using ok_other [OF assms] Dns_Fake_Set by (simp add: dns_step_def)
  qed
qed

text \<open>C14: While the template is edited on the DNS tab, the host table and the hosts of the template stay the same map (so nothing
  typed is lost when the tab is left and opened again), the table is empty while DNS is off, and the
  list of fake DNS pools is never stored empty, which Xray rejects.\<close>
theorem dns_tab_in_sync:
  assumes "fakedns_ok t" and "dns_object t" and "s = fold dns_step acts (mount_dns t)"
  shows "host_map (dt_hosts s) = host_map (dt_hosts (mount_dns (dt_template s)))
    \<and> (dnsEnabled (dt_template s) \<longrightarrow> host_map (host_rows (dns_of (dt_template s))) = host_map (dt_hosts s))
    \<and> opt_prop (dt_template s) ''fakedns'' \<noteq> JArr []"
proof -
  have "dns_tab_ok u \<Longrightarrow> dns_tab_ok (fold dns_step acts u)" for u
    by (induction acts arbitrary: u) (simp_all add: dns_step_ok)
  from this [OF ok_mounted [OF assms(1,2)]] have "dns_tab_ok s" by (simp add: assms(3))
  thus ?thesis by (auto simp: dns_tab_ok_def mount_dns_def fakedns_ok_def)
qed

theorem dns_tab_in_sync_witness:
  "host_map (host_rows (dns_of (dt_template (fold dns_step [Dns_Toggle True, Dns_Hosts [\<lparr>hr_domain = ''a'', hr_values = [''1.1.1.1'', []]\<rparr>]] (mount_dns (JObj []))))))
     ''a'' = Some [''1.1.1.1'']"
proof -
  let ?s = "fold dns_step [Dns_Toggle True, Dns_Hosts [\<lparr>hr_domain = ''a'', hr_values = [''1.1.1.1'', []]\<rparr>]] (mount_dns (JObj []))"
  have e: "dnsEnabled (dt_template ?s)" "dt_hosts ?s = [\<lparr>hr_domain = ''a'', hr_values = [''1.1.1.1'', []]\<rparr>]"
    by (simp_all add: dns_step_def toggleDNS_def mount_dns_def dnsEnabled_def dns_of_def opt_prop_def oget_def set_prop_def NEW_DNS_def
        dns_effect_def Let_def syncHosts_def edit_dns_def hosts_object_def List.map_filter_simps host_of_row_def nonempty_texts_def)
  have o: "fakedns_ok (JObj [])" "dns_object (JObj [])" by (simp_all add: fakedns_ok_def dns_object_def dns_of_def opt_prop_def oget_def)
  have "host_map (host_rows (dns_of (dt_template ?s))) = host_map (dt_hosts ?s)"
    using dns_tab_in_sync [OF o refl, of "[Dns_Toggle True, Dns_Hosts [\<lparr>hr_domain = ''a'', hr_values = [''1.1.1.1'', []]\<rparr>]]"] e(1) by blast
  hence "host_map (host_rows (dns_of (dt_template ?s))) = host_map [\<lparr>hr_domain = ''a'', hr_values = [''1.1.1.1'', []]\<rparr>]" by (simp only: e(2))
  moreover have "host_map [\<lparr>hr_domain = ''a'', hr_values = [''1.1.1.1'', []]\<rparr>] ''a'' = Some [''1.1.1.1'']"
    by (simp add: host_map_def List.map_filter_simps host_of_row_def Let_def nonempty_texts_def)
  ultimately show ?thesis by metis
qed

end
