(* ===== verification/Stream_Cascades.thy ===== *)
theory Stream_Cascades
  imports Inbound_Roundtrip Inbound_Rules Outbound_Form Xray_Template Random_Util
begin

text \<open>
  What the inbound and outbound forms do to \<open>streamSettings\<close> when the network, the security or the protocol is
  changed: \<open>frontend/src/pages/xray/outbounds/outbound-form-helpers.ts\<close>, the handlers of \<open>OutboundFormModal.tsx\<close>,
  \<open>InboundFormModal.tsx\<close> and \<open>useSecurityActions.ts\<close>, with the default blocks of \<open>schemas/protocols\<close>.
  Random values and what the server generates are arguments.
\<close>

section \<open>Default blocks\<close>

text \<open>What each schema delivers for an empty object.\<close>

definition KCP_DEFAULTS :: jobj where
  "KCP_DEFAULTS = [(''mtu'', JNum (num 1350)), (''tti'', JNum (num 20)), (''uplinkCapacity'', JNum (num 5)), (''downlinkCapacity'', JNum (num 20)),
     (''cwndMultiplier'', JNum (num 1)), (''maxSendingWindow'', JNum (num 2097152))]"

definition WS_DEFAULTS :: jobj where
  "WS_DEFAULTS = [(''acceptProxyProtocol'', JBool False), (''path'', JStr ''/''), (''host'', JStr []), (''headers'', JObj []), (''heartbeatPeriod'', JNum (num 0))]"

definition GRPC_DEFAULTS :: jobj where
  "GRPC_DEFAULTS = [(''serviceName'', JStr []), (''authority'', JStr []), (''multiMode'', JBool False)]"

definition HTTPUPGRADE_DEFAULTS :: jobj where
  "HTTPUPGRADE_DEFAULTS = [(''acceptProxyProtocol'', JBool False), (''path'', JStr ''/''), (''host'', JStr []), (''headers'', JObj [])]"

definition XHTTP_DEFAULTS :: jobj where
  "XHTTP_DEFAULTS =
     [(''path'', JStr ''/''), (''host'', JStr []), (''mode'', JStr ''auto''), (''xPaddingBytes'', JStr ''100-1000''), (''xPaddingObfsMode'', JBool False),
      (''xPaddingKey'', JStr []), (''xPaddingHeader'', JStr []), (''xPaddingPlacement'', JStr []), (''xPaddingMethod'', JStr []),
      (''sessionIDPlacement'', JStr []), (''sessionIDKey'', JStr []), (''sessionIDTable'', JStr []), (''sessionIDLength'', JStr []),
      (''seqPlacement'', JStr []), (''seqKey'', JStr []), (''uplinkDataPlacement'', JStr []), (''uplinkDataKey'', JStr []),
      (''scMaxEachPostBytes'', JStr []), (''noSSEHeader'', JBool False), (''scMaxBufferedPosts'', JNum (num 30)),
      (''scStreamUpServerSecs'', JStr ''20-80''), (''serverMaxHeaderBytes'', JNum (num 0)), (''uplinkHTTPMethod'', JStr []), (''headers'', JObj []),
      (''scMinPostsIntervalMs'', JStr []), (''uplinkChunkSize'', JNum (num 0)), (''noGRPCHeader'', JBool False), (''enableXmux'', JBool False)]"

definition HYSTERIA_DEFAULTS :: jobj where
  "HYSTERIA_DEFAULTS = [(''version'', JNum (num 2)), (''auth'', JStr []), (''udpIdleTimeout'', JNum (num 60))]"

definition TLS_DEFAULTS :: jobj where
  "TLS_DEFAULTS =
     [(''serverName'', JStr []), (''minVersion'', JStr ''1.2''), (''maxVersion'', JStr ''1.3''), (''cipherSuites'', JStr []), (''rejectUnknownSni'', JBool False),
      (''disableSystemRoot'', JBool False), (''enableSessionResumption'', JBool False), (''certificates'', JArr []), (''alpn'', str_list [''h2'', ''http/1.1'']),
      (''echServerKeys'', JStr []),
      (''settings'', JObj [(''fingerprint'', JStr ''chrome''), (''echConfigList'', JStr []), (''pinnedPeerCertSha256'', JArr []), (''verifyPeerCertByName'', JStr [])])]"

definition REALITY_DEFAULTS :: jobj where
  "REALITY_DEFAULTS =
     [(''show'', JBool False), (''xver'', JNum (num 0)), (''target'', JStr []), (''serverNames'', JArr []), (''privateKey'', JStr []), (''minClientVer'', JStr []),
      (''maxClientVer'', JStr []), (''maxTimediff'', JNum (num 0)), (''shortIds'', JArr []), (''mldsa65Seed'', JStr []),
      (''settings'', JObj [(''publicKey'', JStr []), (''fingerprint'', JStr ''chrome''), (''serverName'', JStr []), (''spiderX'', JStr ''/''), (''mldsa65Verify'', JStr [])])]"

text \<open>\<open>inbound-tls-defaults.ts\<close>.\<close>

definition defaultCertificate :: jobj where
  "defaultCertificate =
     [(''useFile'', JBool True), (''certificateFile'', JStr []), (''keyFile'', JStr []), (''certificate'', JArr []), (''key'', JArr []),
      (''ocspStapling'', JNum (num 0)), (''oneTimeLoading'', JBool False), (''usage'', JStr ''encipherment''), (''buildChain'', JBool False)]"

definition createTlsSettingsWithDefaultCert :: jobj where
  "createTlsSettingsWithDefaultCert = oset ''certificates'' (JArr [JObj defaultCertificate]) TLS_DEFAULTS"

definition createHysteriaTlsSettingsWithDefaultCert :: jobj where
  "createHysteriaTlsSettingsWithDefaultCert =
     (let tls = oset ''alpn'' (str_list [''h3'']) createTlsSettingsWithDefaultCert;
          settings = (case oget tls ''settings'' of JObj ps \<Rightarrow> ps | _ \<Rightarrow> [])
      in oset ''settings'' (JObj (oset ''fingerprint'' (JStr []) settings)) tls)"

text \<open>\<open>reality-targets.ts\<close>; the index comes from \<open>Math.random\<close>.\<close>

definition REALITY_TARGETS :: "(string \<times> string) list" where
  "REALITY_TARGETS = map (\<lambda>host. (host @ '':443'', host))
     [''www.amazon.com'', ''aws.amazon.com'', ''www.oracle.com'', ''www.nvidia.com'', ''www.amd.com'', ''www.intel.com'', ''www.sony.com'']"

section \<open>Outbound form\<close>

definition out_slice :: "string \<Rightarrow> jobj" where
  "out_slice network =
     (if network = ''kcp'' then KCP_DEFAULTS
      else if network = ''ws'' then odel ''acceptProxyProtocol'' WS_DEFAULTS
      else if network = ''grpc'' then GRPC_DEFAULTS
      else if network = ''httpupgrade'' then odel ''acceptProxyProtocol'' HTTPUPGRADE_DEFAULTS
      else if network = ''xhttp'' then
        [(''path'', JStr ''/''), (''host'', JStr []), (''mode'', JStr []), (''headers'', JArr []), (''xPaddingBytes'', JStr ''100-1000'')]
      else if network = ''hysteria'' then HYSTERIA_DEFAULTS
      else [(''header'', JObj [(''type'', JStr ''none'')])])"

definition OUT_NETWORKS :: "string list" where
  "OUT_NETWORKS = [''tcp'', ''kcp'', ''ws'', ''grpc'', ''httpupgrade'', ''xhttp'', ''hysteria'']"

definition settings_key :: "string \<Rightarrow> string" where
  "settings_key network = network @ ''Settings''"

definition newStreamSlice :: "string \<Rightarrow> jobj" where
  "newStreamSlice network =
     (let n = (if network \<in> set OUT_NETWORKS then network else ''tcp'') in [(''network'', JStr n), (settings_key n, JObj (out_slice n))])"

definition OUT_TLS :: jobj where
  "OUT_TLS = [(''serverName'', JStr []), (''alpn'', JArr []), (''fingerprint'', JStr []), (''echConfigList'', JStr []), (''verifyPeerCertByName'', JStr []),
     (''pinnedPeerCertSha256'', JStr [])]"

definition OUT_REALITY :: jobj where
  "OUT_REALITY = [(''publicKey'', JStr []), (''fingerprint'', JStr ''chrome''), (''serverName'', JStr []), (''shortId'', JStr []), (''spiderX'', JStr []),
     (''mldsa65Verify'', JStr [])]"

definition hysteriaStreamSlice :: jobj where
  "hysteriaStreamSlice =
     newStreamSlice ''hysteria'' @ [(''security'', JStr ''tls''), (''tlsSettings'', JObj (oset ''alpn'' (str_list [''h3'']) OUT_TLS))]"

definition slice_of :: "string \<Rightarrow> string \<Rightarrow> jv \<Rightarrow> capability_slice" where
  "slice_of protocol network security =
     \<lparr>cap_protocol = protocol, cap_settings = None, cap_stream = Some [(''network'', JStr network), (''security'', security)]\<rparr>"

definition kept_security :: "string \<Rightarrow> string \<Rightarrow> jv \<Rightarrow> jv" where
  "kept_security protocol network current =
     (if current = JStr ''tls'' \<and> \<not> canEnableTls (slice_of protocol network current) then JStr ''none''
      else if current = JStr ''reality'' \<and> \<not> canEnableReality (slice_of protocol network current) then JStr ''none''
      else current)"

definition applyNetworkChange :: "string \<Rightarrow> jobj \<Rightarrow> string \<Rightarrow> jobj" where
  "applyNetworkChange protocol stream network =
     (if network = ''hysteria'' then hysteriaStreamSlice
      else
        let current = (if nullish (oget stream ''security'') then JStr ''none'' else oget stream ''security'');
            newSecurity = kept_security protocol network current;
            newStream = newStreamSlice network @ [(''security'', newSecurity)]
        in if newSecurity = JStr ''tls'' \<and> truthy (oget stream ''tlsSettings'') then newStream @ [(''tlsSettings'', oget stream ''tlsSettings'')]
           else if newSecurity = JStr ''reality'' \<and> truthy (oget stream ''realitySettings'')
           then newStream @ [(''realitySettings'', oget stream ''realitySettings'')]
           else newStream)"

text \<open>The security radio of \<open>OutboundFormModal\<close>.\<close>

definition out_security_change :: "string \<Rightarrow> jobj \<Rightarrow> jobj" where
  "out_security_change security stream =
     (let cleaned = odel ''realitySettings'' (odel ''tlsSettings'' stream);
          cleaned = (if security = ''tls'' then oset ''tlsSettings'' (JObj OUT_TLS) cleaned
                     else if security = ''reality'' then oset ''realitySettings'' (JObj OUT_REALITY) cleaned else cleaned)
      in oset ''security'' (JStr security) cleaned)"

text \<open>The effects that run after each change of protocol, network or security.\<close>

definition out_stream_effects :: "string \<Rightarrow> jobj \<Rightarrow> jobj" where
  "out_stream_effects protocol stream =
     (let stream =
        (if protocol \<notin> set STREAM_CAPABLE_PROTOCOLS then stream
         else if protocol = ''wireguard'' then (if truthy (oget stream ''network'') then [(''security'', JStr ''none'')] else stream)
         else if truthy (oget stream ''network'') then stream
         else newStreamSlice ''tcp'' @ [(''security'', JStr ''none'')])
      in if protocol \<noteq> ''hysteria'' \<or> oget stream ''network'' = JStr ''hysteria'' \<and> oget stream ''security'' = JStr ''tls'' then stream
         else
           let slice = hysteriaStreamSlice;
               slice = (if truthy (oget stream ''hysteriaSettings'') then oset ''hysteriaSettings'' (oget stream ''hysteriaSettings'') slice else slice)
           in if truthy (oget stream ''tlsSettings'') then oset ''tlsSettings'' (oget stream ''tlsSettings'') slice else slice)"

text \<open>The stream part of \<open>onValuesChange\<close>.\<close>

definition out_protocol_change :: "string \<Rightarrow> jobj \<Rightarrow> jobj" where
  "out_protocol_change protocol stream =
     (if protocol = ''hysteria'' then hysteriaStreamSlice
      else if oget stream ''network'' = JStr ''hysteria'' then newStreamSlice ''tcp'' @ [(''security'', JStr ''none'')]
      else stream)"

definition onXmuxToggle :: "bool \<Rightarrow> jobj \<Rightarrow> jobj" where
  "onXmuxToggle checked xhttp =
     (if \<not> checked then xhttp
      else case oget xhttp ''xmux'' of
        JObj ps \<Rightarrow> if ps \<noteq> [] then xhttp else oset ''xmux'' (JObj XMUX_DEFAULTS) xhttp
      | JArr xs \<Rightarrow> if xs \<noteq> [] then xhttp else oset ''xmux'' (JObj XMUX_DEFAULTS) xhttp
      | _ \<Rightarrow> oset ''xmux'' (JObj XMUX_DEFAULTS) xhttp)"

section \<open>Inbound form\<close>

definition in_slice :: "string \<Rightarrow> jobj" where
  "in_slice n =
     (if n = ''tcp'' then [(''acceptProxyProtocol'', JBool False), (''header'', JObj [(''type'', JStr ''none'')])]
      else if n = ''kcp'' then KCP_DEFAULTS else if n = ''ws'' then WS_DEFAULTS else if n = ''grpc'' then GRPC_DEFAULTS
      else if n = ''httpupgrade'' then HTTPUPGRADE_DEFAULTS else if n = ''xhttp'' then XHTTP_DEFAULTS else [])"

definition IN_NETWORKS :: "string list" where
  "IN_NETWORKS = [''tcp'', ''kcp'', ''ws'', ''grpc'', ''httpupgrade'', ''xhttp'']"

definition is_mkcp :: "jv \<Rightarrow> bool" where
  "is_mkcp m \<longleftrightarrow> opt_prop m ''type'' = JStr ''mkcp-legacy''"

definition MKCP_MASK :: jv where
  "MKCP_MASK = JObj [(''type'', JStr ''mkcp-legacy''), (''settings'', JObj [(''header'', JStr []), (''value'', JStr [])])]"

text \<open>\<open>finalmask\<close> is an object when it is there.\<close>

definition switch_mask :: "string \<Rightarrow> jobj \<Rightarrow> jobj" where
  "switch_mask network stream =
     (let fm = (case oget stream ''finalmask'' of JObj ps \<Rightarrow> ps | _ \<Rightarrow> []) in
      if network = ''kcp'' then
        (let udp = asArray (oget fm ''udp'')
         in if list_ex is_mkcp udp then stream else oset ''finalmask'' (JObj (oset ''udp'' (JArr (udp @ [MKCP_MASK])) fm)) stream)
      else case oget fm ''udp'' of
        JArr udp \<Rightarrow> oset ''finalmask'' (JObj (oset ''udp'' (JArr (filter (\<lambda>m. \<not> is_mkcp m) udp)) fm)) stream
      | _ \<Rightarrow> stream)"

definition in_network_change :: "string \<Rightarrow> jobj \<Rightarrow> jobj" where
  "in_network_change network current =
     (let cleaned = oset ''network'' (JStr network) current;
          cleaned = fold (\<lambda>k s. if k \<noteq> settings_key network then odel k s else s) (map settings_key IN_NETWORKS) cleaned;
          cleaned = oset (settings_key network) (JObj (in_slice network)) cleaned
      in switch_mask network cleaned)"

text \<open>The part of \<open>onSecurityChange\<close> before its request, with the target and the short ids that were drawn.\<close>

definition trimmed_items :: "string \<Rightarrow> string list" where
  "trimmed_items s = filter (\<lambda>p. p \<noteq> []) (map trim (split_on CHR '','' s))"

definition in_security_change :: "string \<Rightarrow> nat \<Rightarrow> string \<Rightarrow> jobj \<Rightarrow> jobj" where
  "in_security_change security index shortIds current =
     (let cleaned = odel ''realitySettings'' (odel ''tlsSettings'' (oset ''security'' (JStr security) current)) in
      if security = ''tls'' then oset ''tlsSettings'' (JObj createTlsSettingsWithDefaultCert) cleaned
      else if security = ''reality'' then
        (let tgt = REALITY_TARGETS ! index;
             reality = oset ''target'' (JStr (fst tgt)) REALITY_DEFAULTS;
             reality = oset ''serverNames'' (str_list (trimmed_items (snd tgt))) reality;
             reality = oset ''shortIds'' (str_list (trimmed_items shortIds)) reality
         in oset ''realitySettings'' (JObj reality) cleaned)
      else cleaned)"

text \<open>\<open>form.setFieldValue\<close> of a path makes the objects on the way; the answer to a key request writes two fields.\<close>

fun set_path :: "string list \<Rightarrow> jv \<Rightarrow> jv \<Rightarrow> jv" where
  "set_path [] v ob = v"
| "set_path (k # ks) v ob = (let ps = (case ob of JObj ps \<Rightarrow> ps | _ \<Rightarrow> []) in JObj (oset k (set_path ks v (oget ps k)) ps))"

definition set_reality_keys :: "string \<Rightarrow> string \<Rightarrow> jobj \<Rightarrow> jobj" where
  "set_reality_keys privKey pubKey stream =
     (case set_path [''realitySettings'', ''settings'', ''publicKey''] (JStr pubKey)
             (set_path [''realitySettings'', ''privateKey''] (JStr privKey) (JObj stream)) of
        JObj ps \<Rightarrow> ps | _ \<Rightarrow> stream)"

definition clearRealityKeypair :: "jobj \<Rightarrow> jobj" where
  "clearRealityKeypair = set_reality_keys [] []"

text \<open>The stream part of the protocol change; \<open>password\<close> is a random one.\<close>

definition in_protocol_change :: "string \<Rightarrow> string \<Rightarrow> jobj \<Rightarrow> jobj" where
  "in_protocol_change protocol password stream =
     (if protocol = ''hysteria'' then
        [(''network'', JStr ''hysteria''), (''security'', JStr ''tls''), (''hysteriaSettings'', JObj HYSTERIA_DEFAULTS),
         (''tlsSettings'', JObj createHysteriaTlsSettingsWithDefaultCert),
         (''finalmask'', JObj [(''tcp'', JArr []), (''udp'', JArr [JObj [(''type'', JStr ''salamander''), (''settings'', JObj [(''password'', JStr password)])]])])]
      else if protocol = ''wireguard'' \<or> protocol = ''tunnel'' then [(''security'', JStr ''none'')]
      else if oget stream ''network'' = JStr ''hysteria'' \<or> \<not> truthy (oget stream ''network'')
      then [(''network'', JStr ''tcp''), (''security'', JStr ''none''), (''tcpSettings'', JObj [])]
      else stream)"

section \<open>Changing the network of an outbound\<close>

lemma can_enable_slice [simp]:
  "canEnableTls (slice_of p n s) \<longleftrightarrow> p = ''hysteria'' \<or> p \<in> set TLS_ELIGIBLE_PROTOCOLS \<and> n \<in> set TLS_NETWORKS"
  "canEnableReality (slice_of p n s) \<longleftrightarrow> p \<in> set REALITY_ELIGIBLE_PROTOCOLS \<and> n \<in> set REALITY_NETWORKS"
  by (auto simp: canEnableTls_def canEnableReality_def slice_of_def chain_get_def oget_def or_else_def includes_value_def)

lemma settings_key_last: "last (settings_key n) = CHR ''s''"
  by (simp add: settings_key_def)

lemma settings_key_other [simp]:
  "settings_key n \<noteq> ''network''" "settings_key n \<noteq> ''security''" "settings_key n \<noteq> ''finalmask''" "settings_key n = settings_key m \<longleftrightarrow> n = m"
  using settings_key_last [of n] by (auto simp: settings_key_def)

lemma settings_key_security [simp]: "settings_key n = ''tlsSettings'' \<longleftrightarrow> n = ''tls''" "settings_key n = ''realitySettings'' \<longleftrightarrow> n = ''reality''"
proof -
  have "''tlsSettings'' = settings_key ''tls''" "''realitySettings'' = settings_key ''reality''" by (simp_all add: settings_key_def)
  thus "settings_key n = ''tlsSettings'' \<longleftrightarrow> n = ''tls''" "settings_key n = ''realitySettings'' \<longleftrightarrow> n = ''reality''" by (metis settings_key_other(4))+
qed

lemma settings_key_sym [simp]:
  "''network'' \<noteq> settings_key n" "''security'' \<noteq> settings_key n" "''finalmask'' \<noteq> settings_key n"
  "''tlsSettings'' = settings_key n \<longleftrightarrow> n = ''tls''" "''realitySettings'' = settings_key n \<longleftrightarrow> n = ''reality''"
  using settings_key_other [of n] settings_key_security [of n] by metis+

lemma kept_security_again [simp]: "kept_security p n (kept_security p n s) = kept_security p n s"
  by (simp add: kept_security_def)

lemma kept_security_supported:
  "(kept_security p n s = JStr ''tls'' \<longrightarrow> canEnableTls (slice_of p n s)) \<and> (kept_security p n s = JStr ''reality'' \<longrightarrow> canEnableReality (slice_of p n s))"
  by (auto simp: kept_security_def)

lemma oget_list: "oget [] k = JUndef" "oget (p # ps) k = (if fst p = k then snd p else oget ps k)"
  by (simp_all add: oget_def)

text \<open>C32: Changing the network of an outbound gives settings for exactly the new network and keeps TLS or Reality with its
  settings exactly when protocol and network support it; so from any state the security is one that can be
  used, no settings of another network or security stay behind, and choosing the network again changes
  nothing.\<close>
theorem outbound_network_change:
  assumes "network \<in> set OUT_NETWORKS" and "network \<noteq> ''hysteria''" and "st = applyNetworkChange protocol stream network"
  shows "oget st ''network'' = JStr network \<and> oget st (settings_key network) = JObj (out_slice network)
    \<and> oget st ''security'' = kept_security protocol network (if nullish (oget stream ''security'') then JStr ''none'' else oget stream ''security'')
    \<and> (oget st ''security'' = JStr ''tls'' \<longrightarrow> canEnableTls (slice_of protocol network (JStr ''tls'')) \<and> (truthy (oget stream ''tlsSettings'') \<longrightarrow> oget st ''tlsSettings'' = oget stream ''tlsSettings''))
    \<and> (oget st ''security'' = JStr ''reality'' \<longrightarrow> canEnableReality (slice_of protocol network (JStr ''reality'')) \<and> (truthy (oget stream ''realitySettings'') \<longrightarrow> oget st ''realitySettings'' = oget stream ''realitySettings''))
    \<and> (oget st ''security'' \<noteq> JStr ''tls'' \<longrightarrow> oget st ''tlsSettings'' = JUndef) \<and> (oget st ''security'' \<noteq> JStr ''reality'' \<longrightarrow> oget st ''realitySettings'' = JUndef)
    \<and> (other \<noteq> network \<and> other \<notin> {''tls'', ''reality''} \<longrightarrow> oget st (settings_key other) = JUndef)
    \<and> applyNetworkChange protocol st network = st"
proof -
  let ?cur = "if nullish (oget stream ''security'') then JStr ''none'' else oget stream ''security''"
  define sec where "sec = kept_security protocol network ?cur"
  define tail where "tail = (if sec = JStr ''tls'' \<and> truthy (oget stream ''tlsSettings'') then [(''tlsSettings'', oget stream ''tlsSettings'')]
    else if sec = JStr ''reality'' \<and> truthy (oget stream ''realitySettings'') then [(''realitySettings'', oget stream ''realitySettings'')] else [])"
  have n: "network \<noteq> ''tls''" "network \<noteq> ''reality''" using assms(1) by (auto simp: OUT_NETWORKS_def)
  have st: "st = [(''network'', JStr network), (settings_key network, JObj (out_slice network)), (''security'', sec)] @ tail"
    using assms(1,2) unfolding assms(3) applyNetworkChange_def sec_def tail_def by (simp add: newStreamSlice_def Let_def)
  have sup: "sec = JStr ''tls'' \<longrightarrow> canEnableTls (slice_of protocol network (JStr ''tls''))" "sec = JStr ''reality'' \<longrightarrow> canEnableReality (slice_of protocol network (JStr ''reality''))"
    using kept_security_supported [of protocol network ?cur] by (simp_all add: sec_def)
  have again: "kept_security protocol network sec = sec" "\<not> nullish sec"
    by (auto simp: sec_def kept_security_def nullish_def)
  have head: "oget st k = (if k = ''network'' then JStr network else if k = settings_key network then JObj (out_slice network)
      else if k = ''security'' then sec else oget tail k)" for k
    by (simp add: st oget_list)
  have tail: "oget tail k = (if k = ''tlsSettings'' \<and> sec = JStr ''tls'' \<and> truthy (oget stream k) then oget stream k
      else if k = ''realitySettings'' \<and> sec = JStr ''reality'' \<and> truthy (oget stream k) then oget stream k else JUndef)" for k
    by (auto simp: tail_def oget_list)
  have "applyNetworkChange protocol st network = st"
    unfolding applyNetworkChange_def head
    using assms(1,2) n again by (simp add: newStreamSlice_def Let_def tail) (auto simp: st tail_def)
  moreover have "other \<noteq> network \<and> other \<notin> {''tls'', ''reality''} \<longrightarrow> oget st (settings_key other) = JUndef"
    by (simp add: head tail)
  ultimately show ?thesis using n sup by (simp add: head tail) (simp add: sec_def)
qed

theorem outbound_network_change_witness:
  "let stream = [(''network'', JStr ''tcp''), (''security'', JStr ''reality''), (''realitySettings'', JObj [(''shortId'', JStr ''6ba8'')])];
       st = applyNetworkChange ''vless'' stream ''ws''
   in oget st ''security'' = JStr ''none'' \<and> oget st ''realitySettings'' = JUndef \<and> applyNetworkChange ''vless'' st ''ws'' = st"
  using outbound_network_change [where network = "''ws''" and protocol = "''vless''"
      and stream = "[(''network'', JStr ''tcp''), (''security'', JStr ''reality''), (''realitySettings'', JObj [(''shortId'', JStr ''6ba8'')])]", OF _ _ refl]
  by (simp add: OUT_NETWORKS_def Let_def kept_security_def nullish_def oget_list REALITY_NETWORKS_def)

lemma settings_key_sockopt [simp]: "settings_key n \<noteq> ''sockopt''" "''sockopt'' \<noteq> settings_key n"
  using settings_key_last [of n] by (auto dest: arg_cong [where f = last])

lemma network_change_drops_masks:
  assumes "k = ''sockopt'' \<or> k = ''finalmask''"
  shows "oget (applyNetworkChange protocol stream network) k = JUndef"
  using assms by (elim disjE) (simp_all add: applyNetworkChange_def newStreamSlice_def hysteriaStreamSlice_def oget_list Let_def)

section \<open>Changing the network of an inbound\<close>

definition udp_masks :: "jobj \<Rightarrow> jv list" where
  "udp_masks stream = (case oget stream ''finalmask'' of JObj fm \<Rightarrow> asArray (oget fm ''udp'') | _ \<Rightarrow> [])"

lemma oget_fold_del: "oget (fold (\<lambda>k s. if k \<noteq> keep then odel k s else s) ks ob) j = (if j \<in> set ks \<and> j \<noteq> keep then JUndef else oget ob j)"
  by (induction ks arbitrary: ob) auto

lemma fold_del_none: "\<forall>k\<in>set ks. k = keep \<or> oget ob k = JUndef \<and> k \<notin> set (okeys ob) \<Longrightarrow> fold (\<lambda>k s. if k \<noteq> keep then odel k s else s) ks ob = ob"
  by (induction ks) (auto simp: delete_id)

lemma switch_mask_other [simp]: "k \<noteq> ''finalmask'' \<Longrightarrow> oget (switch_mask n ob) k = oget ob k"
  by (simp add: switch_mask_def Let_def split: jv.splits)

lemma mkcp_mask [simp]: "is_mkcp MKCP_MASK"
  by (simp add: is_mkcp_def MKCP_MASK_def opt_prop_def oget_def)

lemma filter_mkcp_only: "list_ex is_mkcp xs \<longleftrightarrow> filter is_mkcp xs \<noteq> []"
  by (induction xs) auto

lemma switch_mask_udp:
  "filter (\<lambda>m. \<not> is_mkcp m) (udp_masks (switch_mask n ob)) = filter (\<lambda>m. \<not> is_mkcp m) (udp_masks ob)"
  "list_ex is_mkcp (udp_masks (switch_mask n ob)) \<longleftrightarrow> n = ''kcp''"
  by (auto simp: switch_mask_def udp_masks_def Let_def asArray_def oget_list filter_mkcp_only split: jv.splits)

text \<open>C33: Changing the network of an inbound leaves the settings block of the new network, with its defaults, and of no other
  one, and touches nothing else but the transport mask; there every mask the user set up stays in order, and
  the mKCP mask is there exactly when the network is mKCP.\<close>
theorem inbound_network_change:
  assumes "network \<in> set IN_NETWORKS" and "st = in_network_change network stream"
  shows "oget st ''network'' = JStr network \<and> oget st (settings_key network) = JObj (in_slice network)
    \<and> (other \<in> set IN_NETWORKS \<and> other \<noteq> network \<longrightarrow> oget st (settings_key other) = JUndef)
    \<and> (k \<notin> {''network'', ''finalmask''} \<and> k \<notin> set (map settings_key IN_NETWORKS) \<longrightarrow> oget st k = oget stream k)
    \<and> filter (\<lambda>m. \<not> is_mkcp m) (udp_masks st) = filter (\<lambda>m. \<not> is_mkcp m) (udp_masks stream)
    \<and> (list_ex is_mkcp (udp_masks st) \<longleftrightarrow> network = ''kcp'')"
proof -
  define base where "base = oset (settings_key network) (JObj (in_slice network))
    (fold (\<lambda>k s. if k \<noteq> settings_key network then odel k s else s) (map settings_key IN_NETWORKS) (oset ''network'' (JStr network) stream))"
  have st: "st = switch_mask network base" by (simp add: assms(2) in_network_change_def base_def Let_def)
  have base: "oget base k = (if k = settings_key network then JObj (in_slice network)
      else if k \<in> settings_key ` set IN_NETWORKS then JUndef else if k = ''network'' then JStr network else oget stream k)" for k
    by (auto simp: base_def oget_fold_del)
  have "udp_masks base = udp_masks stream"
    by (simp add: udp_masks_def base image_iff)
  thus ?thesis using assms(1)
    by (auto simp: st base switch_mask_udp image_iff)
qed

theorem inbound_network_change_witness:
  "let stream = [(''network'', JStr ''kcp''), (''kcpSettings'', JObj KCP_DEFAULTS), (''finalmask'', JObj [(''udp'', JArr [MKCP_MASK, JObj [(''type'', JStr ''salamander'')]])])];
       st = in_network_change ''ws'' stream
   in oget st ''network'' = JStr ''ws'' \<and> \<not> list_ex is_mkcp (udp_masks st)
    \<and> filter (\<lambda>m. \<not> is_mkcp m) (udp_masks st) = [JObj [(''type'', JStr ''salamander'')]]"
  using inbound_network_change [where network = "''ws''"
      and stream = "[(''network'', JStr ''kcp''), (''kcpSettings'', JObj KCP_DEFAULTS), (''finalmask'', JObj [(''udp'', JArr [MKCP_MASK, JObj [(''type'', JStr ''salamander'')]])])]",
      OF _ refl]
  by (simp add: IN_NETWORKS_def Let_def udp_masks_def oget_list asArray_def is_mkcp_def MKCP_MASK_def opt_prop_def)

section \<open>Security and protocol of an inbound\<close>

lemma in_network_change_keeps_security: "oget (in_network_change network stream) ''security'' = oget stream ''security''"
  by (auto simp: in_network_change_def Let_def oget_fold_del)

text \<open>A Reality inbound switched to WebSocket stays a Reality inbound, which the form says cannot be.\<close>

lemma reality_survives_network_change:
  assumes "oget stream ''security'' = JStr ''reality''"
  shows "oget (in_network_change ''ws'' stream) ''security'' = JStr ''reality''
    \<and> \<not> canEnableReality (slice_of protocol ''ws'' (JStr ''reality''))"
  using assms by (simp add: in_network_change_keeps_security REALITY_NETWORKS_def)

text \<open>The protocol change keeps Reality for a protocol that cannot have it, on both sides.\<close>

lemma reality_survives_protocol_change:
  "let stream = [(''network'', JStr ''tcp''), (''security'', JStr ''reality'')] in
     oget (in_protocol_change ''vmess'' w stream) ''security'' = JStr ''reality''
   \<and> oget (out_stream_effects ''vmess'' (out_protocol_change ''vmess'' stream)) ''security'' = JStr ''reality''
   \<and> \<not> canEnableReality (slice_of ''vmess'' ''tcp'' (JStr ''reality''))"
  by (simp add: in_protocol_change_def out_protocol_change_def out_stream_effects_def oget_list Let_def REALITY_ELIGIBLE_PROTOCOLS_def)

text \<open>An answer that comes after the user has left Reality makes the block anew, without a target.\<close>

lemma late_keys_recreate_reality:
  "oget (set_reality_keys privKey pubKey (in_security_change ''none'' i ids stream)) ''security'' = JStr ''none''
   \<and> oget (set_reality_keys privKey pubKey (in_security_change ''none'' i ids stream)) ''realitySettings''
       = JObj [(''privateKey'', JStr privKey), (''settings'', JObj [(''publicKey'', JStr pubKey)])]"
  by (simp add: set_reality_keys_def in_security_change_def Let_def oget_list)

lemma https_port: "nat_str 443 = ''443''"
  by (simp add: nat_str.simps digit_char_def) code_simp

lemma target_hosts: "\<forall>h\<in>set [''www.amazon.com'', ''aws.amazon.com'', ''www.oracle.com'', ''www.nvidia.com'', ''www.amd.com'', ''www.intel.com'', ''www.sony.com''].
    h \<noteq> [] \<and> CHR '','' \<notin> set h \<and> (\<forall>c\<in>set h. \<not> is_space c) \<and> hd h \<noteq> CHR ''/'' \<and> hd h \<noteq> CHR ''@''"
  by (simp add: is_space_def)

lemma reality_target_usable:
  assumes "(tgt, sni) \<in> set REALITY_TARGETS"
  shows "tgt = sni @ '':443'' \<and> validateRealityTarget tgt = None \<and> trimmed_items sni = [sni]"
proof -
  have t: "tgt = sni @ '':443''"
    and h: "sni \<noteq> [] \<and> CHR '','' \<notin> set sni \<and> (\<forall>c\<in>set sni. \<not> is_space c) \<and> hd sni \<noteq> CHR ''/'' \<and> hd sni \<noteq> CHR ''@''"
    using assms target_hosts unfolding REALITY_TARGETS_def set_map image_iff by blast+
  have "validateRealityTarget (sni @ CHR '':'' # nat_str 443) = None" using h by (subst reality_host_port) auto
  thus ?thesis using h by (simp add: t https_port trimmed_items_def split_on_no_sep trim_no_space)
qed

text \<open>Choosing a security for an inbound leaves the settings of that security and of no other one, with a certificate entry
  for TLS and, for Reality, a destination the validator accepts with its host name as server name; the network
  and its settings stay.\<close>
theorem inbound_security_change:
  assumes "index < length REALITY_TARGETS" and "st = in_security_change security index shortIds stream"
  shows "oget st ''security'' = JStr security
    \<and> (security \<noteq> ''tls'' \<longrightarrow> oget st ''tlsSettings'' = JUndef) \<and> (security \<noteq> ''reality'' \<longrightarrow> oget st ''realitySettings'' = JUndef)
    \<and> (security = ''tls'' \<longrightarrow> opt_prop (oget st ''tlsSettings'') ''certificates'' = JArr [JObj defaultCertificate])
    \<and> (security = ''reality'' \<longrightarrow> (\<exists>tgt sni. opt_prop (oget st ''realitySettings'') ''target'' = JStr tgt \<and> validateRealityTarget tgt = None
          \<and> tgt = sni @ '':443'' \<and> opt_prop (oget st ''realitySettings'') ''serverNames'' = str_list [sni]
          \<and> opt_prop (oget st ''realitySettings'') ''shortIds'' = str_list (trimmed_items shortIds)))
    \<and> (k \<notin> {''security'', ''tlsSettings'', ''realitySettings''} \<longrightarrow> oget st k = oget stream k)"
proof -
  obtain tgt sni where p: "REALITY_TARGETS ! index = (tgt, sni)" by fastforce
  note usable = reality_target_usable [OF nth_mem [OF assms(1), unfolded p]]
  thus ?thesis
    using usable by (simp add: assms(2) in_security_change_def Let_def p opt_prop_def createTlsSettingsWithDefaultCert_def)
qed

theorem inbound_security_change_witness:
  "let st = in_security_change ''tls'' 0 [] [(''network'', JStr ''ws''), (''security'', JStr ''reality''), (''realitySettings'', JObj REALITY_DEFAULTS)]
   in oget st ''network'' = JStr ''ws'' \<and> oget st ''realitySettings'' = JUndef
    \<and> opt_prop (oget st ''tlsSettings'') ''certificates'' = JArr [JObj defaultCertificate]"
  using inbound_security_change [where index = 0 and security = "''tls''" and shortIds = "[]" and k = "''network''"
      and stream = "[(''network'', JStr ''ws''), (''security'', JStr ''reality''), (''realitySettings'', JObj REALITY_DEFAULTS)]", OF _ refl]
  by (simp add: Let_def REALITY_TARGETS_def oget_list)

end
