(* ===== verification/Settings_Page.thy ===== *)
theory Settings_Page
  imports Sub_Branding Xray_Template
begin

text \<open>
  The settings of the panel: \<open>frontend/src/models/setting.ts\<close> with the object helpers it uses from \<open>utils/index.ts\<close>,
  the hook \<open>api/queries/useAllSettings.ts\<close>, the schema \<open>schemas/setting.ts\<close>, and of \<open>pages/settings\<close> the saving, the
  address after a restart, the lists of the subscription formats, the paths and the event notifications.
  The default remark template and the default currency contain characters beyond the modelled range and are
  arguments. Settings are texts, numbers and flags, so \<open>===\<close> on arrays and objects does not matter; it is
  taken as equality of contents.
\<close>

section \<open>Objects\<close>

text \<open>\<open>ObjectUtil\<close>; \<open>cloneProps\<close> changes \<open>dest\<close>.\<close>

definition strict_eq :: "jv \<Rightarrow> jv \<Rightarrow> bool" where
  "strict_eq a b = (case (a, b) of (JNum m, JNum n) \<Rightarrow> num_eq m n | _ \<Rightarrow> a = b)"

definition has_key :: "jobj \<Rightarrow> string \<Rightarrow> bool" where
  "has_key d k \<longleftrightarrow> k \<in> set (okeys d)"

definition clone_prop :: "string list \<Rightarrow> string \<times> jv \<Rightarrow> jobj \<Rightarrow> jobj" where
  "clone_prop ignoreProps p dest =
     (if has_key dest (fst p) \<and> snd p \<noteq> JUndef \<and> fst p \<notin> set ignoreProps then oset (fst p) (snd p) dest else dest)"

definition cloneProps :: "string list \<Rightarrow> jobj \<Rightarrow> jv \<Rightarrow> jobj" where
  "cloneProps ignoreProps dest src = (case src of JObj ps \<Rightarrow> fold (clone_prop ignoreProps) ps dest | _ \<Rightarrow> dest)"

definition obj_equals :: "jobj \<Rightarrow> jobj \<Rightarrow> bool" where
  "obj_equals a b \<longleftrightarrow> length (okeys a) = length (okeys b) \<and> (\<forall>k\<in>set (okeys a). has_key b k \<and> strict_eq (oget a k) (oget b k))"

section \<open>The settings\<close>

definition default_settings :: "string \<Rightarrow> string \<Rightarrow> jobj" where
  "default_settings remark currency =
     [(''webListen'', JStr []), (''webDomain'', JStr []), (''webPort'', JNum (num 2053)), (''webCertFile'', JStr []),
      (''webKeyFile'', JStr []), (''webBasePath'', JStr ''/''), (''sessionMaxAge'', JNum (num 360)),
      (''trustedProxyCIDRs'', JStr ''127.0.0.1/32,::1/128''), (''panelOutbound'', JStr []), (''pageSize'', JNum (num 25)),
      (''expireDiff'', JNum (num 0)), (''trafficDiff'', JNum (num 0)), (''remarkTemplate'', JStr remark),
      (''datepicker'', JStr ''gregorian''), (''tgBotEnable'', JBool False), (''tgBotToken'', JStr []), (''tgBotAPIServer'', JStr []),
      (''tgBotChatId'', JStr []), (''tgRunTime'', JStr ''@daily''), (''tgBotBackup'', JBool False), (''tgCpu'', JNum (num 80)),
      (''tgMemory'', JNum (num 80)), (''tgLang'', JStr ''en-US''), (''twoFactorEnable'', JBool False), (''twoFactorToken'', JStr []),
      (''xrayTemplateConfig'', JStr []), (''subEnable'', JBool True), (''subJsonEnable'', JBool False), (''subTitle'', JStr []),
      (''subSupportUrl'', JStr []), (''subProfileUrl'', JStr []), (''subAnnounce'', JStr []), (''subEnableRouting'', JBool False),
      (''subRoutingRules'', JStr []), (''subListen'', JStr []), (''subPort'', JNum (num 2096)), (''subPath'', JStr ''/sub/''),
      (''subJsonPath'', JStr ''/json/''), (''subClashEnable'', JBool False), (''subClashPath'', JStr ''/clash/''),
      (''subDomain'', JStr []), (''externalTrafficInformEnable'', JBool False), (''externalTrafficInformURI'', JStr []),
      (''restartXrayOnClientDisable'', JBool True), (''subCertFile'', JStr []), (''subKeyFile'', JStr []), (''subUpdates'', JNum (num 12)),
      (''subEncrypt'', JBool True), (''subURI'', JStr []), (''subJsonURI'', JStr []), (''subClashURI'', JStr []),
      (''subClashEnableRouting'', JBool False), (''subClashRules'', JStr []), (''subJsonMux'', JStr []), (''subJsonRules'', JStr []),
      (''subJsonFinalMask'', JStr []), (''subThemeDir'', JStr []), (''subHideSettings'', JBool False), (''timeLocation'', JStr ''Local''),
      (''ldapEnable'', JBool False), (''ldapHost'', JStr []), (''ldapPort'', JNum (num 389)), (''ldapUseTLS'', JBool False),
      (''ldapBindDN'', JStr []), (''ldapPassword'', JStr []), (''ldapBaseDN'', JStr []),
      (''ldapUserFilter'', JStr ''(objectClass=person)''), (''ldapUserAttr'', JStr ''mail''), (''ldapVlessField'', JStr ''vless_enabled''),
      (''ldapSyncCron'', JStr ''@every 1m''), (''ldapFlagField'', JStr []), (''ldapTruthyValues'', JStr ''true,1,yes,on''),
      (''ldapInvertFlag'', JBool False), (''ldapInboundTags'', JStr []), (''ldapAutoCreate'', JBool False),
      (''ldapAutoDelete'', JBool False), (''ldapDefaultTotalGB'', JNum (num 0)), (''ldapDefaultExpiryDays'', JNum (num 0)),
      (''ldapDefaultLimitIP'', JNum (num 0)), (''subBrandingEnable'', JBool False), (''subBranding'', JStr []),
      (''hwidEnable'', JBool False), (''hwidForced'', JBool False), (''hwidGuardManualSub'', JBool False),
      (''hwidDefaultLimit'', JNum (num 0)), (''autoDeleteExpiredEnable'', JBool False), (''autoDeleteExpiredDays'', JNum (num 0)),
      (''tgEnabledEvents'', JStr []), (''smtpEnable'', JBool False), (''smtpHost'', JStr []), (''smtpPort'', JNum (num 587)),
      (''smtpUsername'', JStr []), (''smtpPassword'', JStr []), (''smtpTo'', JStr []), (''smtpEncryptionType'', JStr ''starttls''),
      (''smtpEnabledEvents'', JStr []), (''smtpCpu'', JNum (num 80)), (''smtpMemory'', JNum (num 80)), (''hasTgBotToken'', JBool False),
      (''hasTwoFactorToken'', JBool False), (''hasLdapPassword'', JBool False), (''hasApiToken'', JBool False),
      (''hasWarpSecret'', JBool False), (''hasNordSecret'', JBool False), (''hasSmtpPassword'', JBool False),
      (''salesBotEnable'', JBool False), (''salesBotToken'', JStr []), (''salesBotAdmins'', JStr []), (''salesBotWelcome'', JStr []),
      (''salesBotPayText'', JStr []), (''salesBotSupport'', JStr []), (''salesBotLang'', JStr ''fa-IR''),
      (''salesBotCurrency'', JStr currency), (''hasSalesBotToken'', JBool False), (''shopPricePerGB'', JNum (num 0)),
      (''shopPricePerDay'', JNum (num 0)), (''shopInboundId'', JNum (num 0)), (''shopMinTopUp'', JNum (num 0)),
      (''shopMaxTopUp'', JNum (num 0)), (''shopMinBalance'', JNum (num 0)), (''shopMaxVolumeGB'', JNum (num 0)),
      (''shopJoinChannel'', JStr []), (''shopConfigDays'', JNum (num 0)), (''shopBillingInterval'', JNum (num 2))]"

definition clamp_cpu :: "jv \<Rightarrow> jv" where
  "clamp_cpu v = JNum (num (case number_of_any v of Fin q \<Rightarrow> min 100 (max 0 (math_round q)) | _ \<Rightarrow> 80))"

definition new_AllSetting :: "string \<times> string \<Rightarrow> jv \<Rightarrow> jobj" where
  "new_AllSetting texts data =
     (let d = default_settings (fst texts) (snd texts);
          d = (if nullish data then d else cloneProps [] d data)
      in oset ''tgCpu'' (clamp_cpu (oget d ''tgCpu'')) d)"

section \<open>The schema\<close>

datatype setting_field = Text_Field | Flag_Field | Whole_Field int "int option" | Path_Field | Choice_Field "string list"

text \<open>Every field is optional; the schema delivers what it accepts as it is.\<close>

definition AllSettingSchema :: "(string \<times> setting_field) list" where
  "AllSettingSchema =
     [(''webListen'', Text_Field), (''webDomain'', Text_Field), (''webPort'', Whole_Field 1 (Some 65535)), (''webCertFile'', Text_Field),
      (''webKeyFile'', Text_Field), (''webBasePath'', Path_Field), (''sessionMaxAge'', Whole_Field 1 (Some 525600)),
      (''trustedProxyCIDRs'', Text_Field), (''panelOutbound'', Text_Field), (''pageSize'', Whole_Field 0 (Some 1000)),
      (''expireDiff'', Whole_Field 0 None), (''trafficDiff'', Whole_Field 0 (Some 100)), (''remarkTemplate'', Text_Field),
      (''datepicker'', Choice_Field [''gregorian'', ''jalalian'']), (''tgBotEnable'', Flag_Field), (''tgBotToken'', Text_Field),
      (''tgBotProxy'', Text_Field), (''tgBotAPIServer'', Text_Field), (''tgBotChatId'', Text_Field), (''tgRunTime'', Text_Field),
      (''tgBotBackup'', Flag_Field), (''tgCpu'', Whole_Field 0 (Some 100)), (''tgLang'', Text_Field), (''twoFactorEnable'', Flag_Field),
      (''twoFactorToken'', Text_Field), (''xrayTemplateConfig'', Text_Field), (''subEnable'', Flag_Field), (''subJsonEnable'', Flag_Field),
      (''subTitle'', Text_Field), (''subSupportUrl'', Text_Field), (''subProfileUrl'', Text_Field), (''subAnnounce'', Text_Field),
      (''subEnableRouting'', Flag_Field), (''subRoutingRules'', Text_Field), (''subListen'', Text_Field),
      (''subPort'', Whole_Field 1 (Some 65535)), (''subPath'', Path_Field), (''subJsonPath'', Path_Field),
      (''subClashEnable'', Flag_Field), (''subClashPath'', Path_Field), (''subDomain'', Text_Field),
      (''externalTrafficInformEnable'', Flag_Field), (''externalTrafficInformURI'', Text_Field),
      (''restartXrayOnClientDisable'', Flag_Field), (''subCertFile'', Text_Field), (''subKeyFile'', Text_Field),
      (''subUpdates'', Whole_Field 1 (Some 168)), (''subEncrypt'', Flag_Field), (''subURI'', Text_Field), (''subJsonURI'', Text_Field),
      (''subClashURI'', Text_Field), (''subClashEnableRouting'', Flag_Field), (''subClashRules'', Text_Field),
      (''subJsonMux'', Text_Field), (''subJsonRules'', Text_Field), (''subJsonFinalMask'', Text_Field), (''subHideSettings'', Flag_Field),
      (''timeLocation'', Text_Field), (''ldapEnable'', Flag_Field), (''ldapHost'', Text_Field), (''ldapPort'', Whole_Field 1 (Some 65535)),
      (''ldapUseTLS'', Flag_Field), (''ldapBindDN'', Text_Field), (''ldapPassword'', Text_Field), (''ldapBaseDN'', Text_Field),
      (''ldapUserFilter'', Text_Field), (''ldapUserAttr'', Text_Field), (''ldapVlessField'', Text_Field), (''ldapSyncCron'', Text_Field),
      (''ldapFlagField'', Text_Field), (''ldapTruthyValues'', Text_Field), (''ldapInvertFlag'', Flag_Field),
      (''ldapInboundTags'', Text_Field), (''ldapAutoCreate'', Flag_Field), (''ldapAutoDelete'', Flag_Field),
      (''ldapDefaultTotalGB'', Whole_Field 0 None), (''ldapDefaultExpiryDays'', Whole_Field 0 None),
      (''ldapDefaultLimitIP'', Whole_Field 0 None), (''hasTgBotToken'', Flag_Field), (''hasTwoFactorToken'', Flag_Field),
      (''hasLdapPassword'', Flag_Field), (''hasApiToken'', Flag_Field), (''hasWarpSecret'', Flag_Field), (''hasNordSecret'', Flag_Field),
      (''hasSmtpPassword'', Flag_Field), (''salesBotEnable'', Flag_Field), (''salesBotToken'', Text_Field),
      (''salesBotAdmins'', Text_Field), (''salesBotWelcome'', Text_Field), (''salesBotPayText'', Text_Field),
      (''salesBotSupport'', Text_Field), (''salesBotLang'', Text_Field), (''salesBotCurrency'', Text_Field),
      (''hasSalesBotToken'', Flag_Field), (''shopPricePerGB'', Whole_Field 0 None), (''shopPricePerDay'', Whole_Field 0 None),
      (''shopInboundId'', Whole_Field 0 None), (''shopMinTopUp'', Whole_Field 0 None), (''shopMaxTopUp'', Whole_Field 0 None),
      (''shopMinBalance'', Whole_Field 0 None), (''shopMaxVolumeGB'', Whole_Field 0 None), (''shopJoinChannel'', Text_Field),
      (''shopConfigDays'', Whole_Field 0 None), (''shopBillingInterval'', Whole_Field 0 None)]"

definition field_accepts :: "setting_field \<Rightarrow> jv \<Rightarrow> bool" where
  "field_accepts f v \<longleftrightarrow> v = JUndef \<or>
     (case f of
        Text_Field \<Rightarrow> (case v of JStr _ \<Rightarrow> True | _ \<Rightarrow> False)
      | Flag_Field \<Rightarrow> (case v of JBool _ \<Rightarrow> True | _ \<Rightarrow> False)
      | Whole_Field lo hi \<Rightarrow> (case v of JNum (Fin q) \<Rightarrow> of_int \<lfloor>q\<rfloor> = q \<and> \<bar>\<lfloor>q\<rfloor>\<bar> < 2 ^ 53 \<and> lo \<le> \<lfloor>q\<rfloor> \<and> (case hi of None \<Rightarrow> True | Some h \<Rightarrow> \<lfloor>q\<rfloor> \<le> h) | _ \<Rightarrow> False)
      | Path_Field \<Rightarrow> (case v of JStr s \<Rightarrow> starts_with s ''/'' | _ \<Rightarrow> False)
      | Choice_Field vs \<Rightarrow> (case v of JStr s \<Rightarrow> s \<in> set vs | _ \<Rightarrow> False))"

text \<open>The field of the first issue, if there is one.\<close>

definition first_issue :: "jobj \<Rightarrow> string option" where
  "first_issue ob = map_option fst (find (\<lambda>(k, f). \<not> field_accepts f (oget ob k)) AllSettingSchema)"

section \<open>The hook\<close>

text \<open>\<open>se_data\<close> is what the query holds, \<^term>\<open>None\<close> before the first answer.\<close>

record settings_state =
  se_data :: "jv option"
  se_draft :: jobj

definition mount_settings :: "string \<times> string \<Rightarrow> settings_state" where
  "mount_settings texts = \<lparr>se_data = None, se_draft = new_AllSetting texts JUndef\<rparr>"

definition server_settings :: "string \<times> string \<Rightarrow> settings_state \<Rightarrow> jobj" where
  "server_settings texts s = new_AllSetting texts (case se_data s of None \<Rightarrow> JUndef | Some v \<Rightarrow> v)"

text \<open>An answer whose contents are those the query holds leaves the held object in place (structural sharing of
  react-query), so the effect on it does not run.\<close>

definition data_arrives :: "string \<times> string \<Rightarrow> jv \<Rightarrow> settings_state \<Rightarrow> settings_state" where
  "data_arrives texts v s = (if se_data s = Some v then s else \<lparr>se_data = Some v, se_draft = new_AllSetting texts v\<rparr>)"

definition updateSetting :: "string \<times> string \<Rightarrow> jobj \<Rightarrow> settings_state \<Rightarrow> settings_state" where
  "updateSetting texts patch s = s\<lparr>se_draft := spread (new_AllSetting texts (JObj (se_draft s))) patch\<rparr>"

definition saveDisabled :: "string \<times> string \<Rightarrow> settings_state \<Rightarrow> bool" where
  "saveDisabled texts s = obj_equals (server_settings texts s) (se_draft s)"

text \<open>The body of \<open>saveMut\<close>: the checked draft, or the draft when the check fails, which are the same. \<open>onSave\<close>
  of \<open>SettingsPage.tsx\<close> sends nothing when a field is not accepted and names the field.\<close>

definition onSave :: "settings_state \<Rightarrow> string + jobj" where
  "onSave s = (case first_issue (se_draft s) of Some k \<Rightarrow> Inl k | None \<Rightarrow> Inr (se_draft s))"

end
