(* ===== verification/Settings_Laws.thy ===== *)
theory Settings_Laws
  imports Settings_Page
begin

text \<open>
  The laws of the settings page: the draft is always one complete set of settings, what an edit changes,
  when saving is offered, and what is sent.
\<close>

definition SETTING_KEYS :: "string list" where
  "SETTING_KEYS = okeys (default_settings [] [])"

lemma default_keys [simp]: "okeys (default_settings remark currency) = SETTING_KEYS"
  by (simp add: SETTING_KEYS_def default_settings_def)

lemma cpu_key [simp]: "''tgCpu'' \<in> set SETTING_KEYS"
  by (simp add: SETTING_KEYS_def default_settings_def)

lemma update_present: "k \<in> set (okeys ps) \<Longrightarrow> okeys (oset k v ps) = okeys ps"
  by (induction ps) auto

section \<open>Copying properties\<close>

lemma clone_prop_keys [simp]: "okeys (clone_prop ign p d) = okeys d"
  by (simp add: clone_prop_def has_key_def update_present)

lemma has_key_clone [simp]: "has_key (clone_prop ign p d) = has_key d"
  by (rule ext) (simp only: has_key_def clone_prop_keys)

lemma clone_fold_keys: "okeys (fold (clone_prop ign) ps d) = okeys d"
  by (induction ps arbitrary: d) (simp_all del: list.map)

lemma cloneProps_keys [simp]: "okeys (cloneProps ign d src) = okeys d"
  unfolding cloneProps_def by (cases src) (simp_all only: jv.simps clone_fold_keys)

lemma clone_fold_get:
  "distinct (map fst ps) \<Longrightarrow> oget (fold (clone_prop ign) ps d) k
     = (if has_key d k \<and> oget ps k \<noteq> JUndef \<and> k \<notin> set ign then oget ps k else oget d k)"
proof (induction ps arbitrary: d)
  case (Cons p ps)
  obtain j v where p: "p = (j, v)" by fastforce
  have none: "oget ps j = JUndef" using Cons.prems by (simp add: p oget_def map_of_eq_None_iff [THEN iffD2])
  have one: "oget (clone_prop ign p d) k = (if k = j \<and> has_key d j \<and> v \<noteq> JUndef \<and> j \<notin> set ign then v else oget d k)" for k
    by (auto simp: clone_prop_def p)
  have "oget (p # ps) k = (if k = j then v else oget ps k)" by (simp add: p oget_def)
  thus ?case using Cons.prems none by (auto simp: Cons.IH one)
qed (simp add: oget_def)

lemma cloneProps_get:
  "wf_obj ps \<Longrightarrow> oget (cloneProps ign d (JObj ps)) k = (if has_key d k \<and> oget ps k \<noteq> JUndef \<and> k \<notin> set ign then oget ps k else oget d k)"
  by (simp add: cloneProps_def clone_fold_get wf_obj_def)

section \<open>The constructor\<close>

lemma has_setting [simp]: "okeys d = SETTING_KEYS \<Longrightarrow> has_key d k \<longleftrightarrow> k \<in> set SETTING_KEYS"
  by (simp only: has_key_def)

lemma new_keys [simp]: "okeys (new_AllSetting texts v) = SETTING_KEYS"
proof -
  have "okeys (if nullish v then default_settings (fst texts) (snd texts) else cloneProps [] (default_settings (fst texts) (snd texts)) v) = SETTING_KEYS"
    by (simp only: cloneProps_keys default_keys if_distrib [of okeys] if_cancel)
  thus ?thesis by (simp only: new_AllSetting_def Let_def update_present cpu_key)
qed

definition whole_percent :: "jv \<Rightarrow> bool" where
  "whole_percent v \<longleftrightarrow> (\<exists>i. v = JNum (num i) \<and> 0 \<le> i \<and> i \<le> 100)"

lemma clamp_percent: "whole_percent (clamp_cpu v)"
  unfolding clamp_cpu_def whole_percent_def by (cases "number_of_any v") auto

lemma clamp_settled: "whole_percent v \<Longrightarrow> clamp_cpu v = v"
proof -
  assume "whole_percent v"
  then obtain i where v: "v = JNum (num i)" "0 \<le> i" "i \<le> 100" by (auto simp: whole_percent_def)
  have "\<lfloor>(of_int i :: rat) + 1 / 2\<rfloor> = i" by linarith
  thus ?thesis using v by (simp add: clamp_cpu_def number_of_any_def math_round_def)
qed

lemma new_cpu: "whole_percent (oget (new_AllSetting texts v) ''tgCpu'')"
  by (simp add: new_AllSetting_def Let_def clamp_percent)

definition given :: "string \<times> string \<Rightarrow> jv \<Rightarrow> string \<Rightarrow> jv" where
  "given texts v k = (case v of JObj ps \<Rightarrow> if k \<in> set SETTING_KEYS \<and> oget ps k \<noteq> JUndef then oget ps k else oget (default_settings (fst texts) (snd texts)) k
     | _ \<Rightarrow> oget (default_settings (fst texts) (snd texts)) k)"

lemma new_get:
  assumes "case v of JObj ps \<Rightarrow> wf_obj ps | _ \<Rightarrow> True"
  shows "oget (new_AllSetting texts v) k = (if k = ''tgCpu'' then clamp_cpu (given texts v k) else given texts v k)"
proof -
  have "oget (if nullish v then default_settings (fst texts) (snd texts) else cloneProps [] (default_settings (fst texts) (snd texts)) v) j = given texts v j" for j
    using assms by (cases v) (simp_all add: given_def cloneProps_get cloneProps_def [of _ _ "JStr _"] cloneProps_def [of _ _ "JNum _"]
        cloneProps_def [of _ _ "JBool _"] cloneProps_def [of _ _ "JArr _"])
  thus ?thesis by (simp add: new_AllSetting_def Let_def)
qed

section \<open>Comparing\<close>

lemma num_eq_iff: "num_eq m n \<longleftrightarrow> m = n \<and> m \<noteq> NaN"
  by (cases m; cases n) simp_all

lemma strict_eq_iff: "strict_eq a b \<longleftrightarrow> a = b \<and> a \<noteq> JNum NaN"
  by (auto simp: strict_eq_def num_eq_iff split: jv.splits)

lemma equals_iff: "okeys a = SETTING_KEYS \<Longrightarrow> okeys b = SETTING_KEYS \<Longrightarrow>
    obj_equals a b \<longleftrightarrow> (\<forall>k\<in>set SETTING_KEYS. oget a k = oget b k \<and> oget a k \<noteq> JNum NaN)"
  by (simp only: obj_equals_def has_setting strict_eq_iff) auto

definition nan_free :: "jobj \<Rightarrow> bool" where
  "nan_free ps \<longleftrightarrow> (\<forall>k. oget ps k \<noteq> JNum NaN)"

lemma default_nan_free: "nan_free (default_settings remark currency)"
  unfolding nan_free_def
proof
  fix k
  have "\<forall>v\<in>set (map snd (default_settings remark currency)). v \<noteq> JNum NaN" by (simp add: default_settings_def)
  thus "oget (default_settings remark currency) k \<noteq> JNum NaN"
    by (fastforce simp: oget_def dest: map_of_SomeD split: option.splits)
qed

lemma equals_self: "okeys a = SETTING_KEYS \<Longrightarrow> nan_free a \<Longrightarrow> obj_equals a a"
  by (simp only: equals_iff) (simp add: nan_free_def)

section \<open>The page\<close>

lemma setting_keys_distinct: "distinct SETTING_KEYS"
  by (simp add: SETTING_KEYS_def default_settings_def)


lemma distinct_map_of_rev: "distinct (map fst ps) \<Longrightarrow> map_of (rev ps) = map_of ps"
  by (rule ext) (metis distinct_rev map_of_eq_Some_iff not_Some_eq option.exhaust rev_map set_rev)

lemma oget_spread: "wf_obj b \<Longrightarrow> oget (spread a b) k = (if k \<in> set (okeys b) then oget b k else oget a k)"
proof -
  assume "wf_obj b"
  hence r: "map_of (rev b) = map_of b" by (simp add: wf_obj_def distinct_map_of_rev)
  show ?thesis
  proof (cases "map_of b k")
    case None
    hence "k \<notin> set (okeys b)" by (simp only: map_of_eq_None_iff set_map not_False_eq_True)
    thus ?thesis by (simp add: oget_def map_of_spread r None del: list.set_map)
  next
    case (Some v)
    hence "k \<in> set (okeys b)" by (metis map_of_eq_None_iff option.distinct(1) set_map)
    thus ?thesis by (simp add: oget_def map_of_spread r Some del: list.set_map)
  qed
qed

lemma spread_keys: "set (okeys b) \<subseteq> set (okeys a) \<Longrightarrow> okeys (spread a b) = okeys a"
proof (induction b arbitrary: a)
  case (Cons p b)
  obtain k v where p: "p = (k, v)" by fastforce
  have "k \<in> set (okeys a)" "set (okeys b) \<subseteq> set (okeys a)" using Cons.prems by (simp_all add: p)
  hence "okeys (oset k v a) = okeys a" "okeys (spread (oset k v a) b) = okeys (oset k v a)"
    using Cons.IH [of "oset k v a"] by (simp_all only: update_present)
  thus ?case by (simp add: p spread_def)
qed (simp add: spread_def)

definition patch_ok :: "jobj \<Rightarrow> bool" where
  "patch_ok patch \<longleftrightarrow> wf_obj patch \<and> set (okeys patch) \<subseteq> set SETTING_KEYS \<and> (\<forall>k\<in>set (okeys patch). oget patch k \<noteq> JUndef)"

text \<open>JSON has no NaN and no \<open>undefined\<close>.\<close>

definition answer_ok :: "jv \<Rightarrow> bool" where
  "answer_ok v \<longleftrightarrow> (case v of JObj ps \<Rightarrow> wf_obj ps \<and> nan_free ps \<and> (\<forall>k\<in>set (okeys ps). oget ps k \<noteq> JUndef) | _ \<Rightarrow> True)"

datatype settings_op = Answer_Arrives jv | Edit jobj

fun settings_step :: "string \<times> string \<Rightarrow> settings_op \<Rightarrow> settings_state \<Rightarrow> settings_state" where
  "settings_step texts (Answer_Arrives v) s = data_arrives texts v s"
| "settings_step texts (Edit patch) s = updateSetting texts patch s"

fun op_ok :: "settings_op \<Rightarrow> bool" where
  "op_ok (Answer_Arrives v) = answer_ok v"
| "op_ok (Edit patch) = patch_ok patch"

definition full :: "jobj \<Rightarrow> bool" where
  "full d \<longleftrightarrow> okeys d = SETTING_KEYS \<and> (\<forall>k\<in>set SETTING_KEYS. oget d k \<noteq> JUndef)"

definition settings_inv :: "settings_state \<Rightarrow> bool" where
  "settings_inv s \<longleftrightarrow> full (se_draft s) \<and> (case se_data s of None \<Rightarrow> True | Some v \<Rightarrow> answer_ok v)"

lemma default_full: "k \<in> set SETTING_KEYS \<Longrightarrow> oget (default_settings remark currency) k \<noteq> JUndef"
proof -
  assume k: "k \<in> set SETTING_KEYS"
  have v: "\<forall>v\<in>set (map snd (default_settings remark currency)). v \<noteq> JUndef" by (simp add: default_settings_def)
  have "k \<in> set (okeys (default_settings remark currency))" using k by (simp only: default_keys)
  then obtain v where "map_of (default_settings remark currency) k = Some v" by (metis map_of_eq_None_iff option.exhaust set_map)
  thus ?thesis using v by (fastforce simp: oget_def dest: map_of_SomeD)
qed

lemma given_full: "answer_ok v \<Longrightarrow> k \<in> set SETTING_KEYS \<Longrightarrow> given texts v k \<noteq> JUndef"
  using default_full by (auto simp: given_def split: jv.splits)

lemma given_nan: "answer_ok v \<Longrightarrow> given texts v k \<noteq> JNum NaN"
  using default_nan_free by (auto simp: given_def nan_free_def answer_ok_def split: jv.splits)

lemma answer_wf: "answer_ok v \<Longrightarrow> case v of JObj ps \<Rightarrow> wf_obj ps | _ \<Rightarrow> True"
  by (simp add: answer_ok_def split: jv.splits)

lemma new_full: "answer_ok v \<Longrightarrow> full (new_AllSetting texts v)"
  by (auto simp: full_def new_get [OF answer_wf] given_full clamp_cpu_def simp del: list.set_map)

lemma new_nan_free: "answer_ok v \<Longrightarrow> nan_free (new_AllSetting texts v)"
  by (auto simp: nan_free_def new_get [OF answer_wf] given_nan clamp_cpu_def)

lemma draft_given:
  assumes "full d" "k \<in> set SETTING_KEYS"
  shows "given texts (JObj d) k = oget d k" "wf_obj d"
  using assms setting_keys_distinct by (simp_all add: given_def full_def wf_obj_def)

lemma edited_get:
  assumes "settings_inv s" "patch_ok patch" "k \<in> set SETTING_KEYS"
  shows "oget (se_draft (updateSetting texts patch s)) k
    = (if k \<in> set (okeys patch) then oget patch k else if k = ''tgCpu'' then clamp_cpu (oget (se_draft s) k) else oget (se_draft s) k)"
  using assms draft_given(1) [of "se_draft s" k texts] draft_given(2) [of "se_draft s" k]
  by (auto simp: updateSetting_def oget_spread patch_ok_def settings_inv_def new_get simp del: list.set_map)

lemma edited_keys: "patch_ok patch \<Longrightarrow> okeys (se_draft (updateSetting texts patch s)) = SETTING_KEYS"
  by (simp add: updateSetting_def patch_ok_def spread_keys del: list.set_map)

lemma answer_undef [simp]: "answer_ok JUndef"
  by (simp add: answer_ok_def)

lemma mount_inv: "settings_inv (mount_settings texts)"
  by (simp add: settings_inv_def mount_settings_def new_full)

lemma step_inv:
  assumes "settings_inv s" "op_ok op"
  shows "settings_inv (settings_step texts op s)"
proof (cases op)
  case (Answer_Arrives v)
  thus ?thesis using assms by (simp add: settings_inv_def data_arrives_def new_full)
next
  case (Edit patch)
  hence p: "patch_ok patch" using assms(2) by simp
  have "full (se_draft (updateSetting texts patch s))"
    unfolding full_def using edited_keys [OF p] edited_get [OF assms(1) p] p assms(1)
    by (auto simp: patch_ok_def settings_inv_def full_def clamp_cpu_def simp del: list.set_map)
  thus ?thesis using assms(1) Edit by (simp add: settings_inv_def) (simp add: updateSetting_def)
qed

lemma run_inv: "\<forall>op\<in>set ops. op_ok op \<Longrightarrow> settings_inv s \<Longrightarrow> settings_inv (fold (settings_step texts) ops s)"
  by (induction ops arbitrary: s) (simp_all add: step_inv)

lemma server_ok: "settings_inv s \<Longrightarrow> full (server_settings texts s) \<and> nan_free (server_settings texts s)"
  by (auto simp: settings_inv_def server_settings_def new_full new_nan_free split: option.splits)

lemma save_offered:
  assumes "settings_inv s"
  shows "saveDisabled texts s \<longleftrightarrow> (\<forall>k\<in>set SETTING_KEYS. oget (se_draft s) k = oget (server_settings texts s) k)"
proof -
  have "full (server_settings texts s)" "nan_free (server_settings texts s)" "full (se_draft s)"
    using server_ok [OF assms] assms by (simp_all add: settings_inv_def)
  thus ?thesis unfolding saveDisabled_def full_def nan_free_def by (subst equals_iff) auto
qed

text \<open>C34: Whatever is edited and whatever answers arrive, in any order, the draft is one value for each setting and no other
  property; saving is offered exactly when some setting differs from the server's; an edit sets what it names
  and leaves every other setting, only the CPU threshold is brought into 0 to 100.\<close>
theorem settings_draft_tracked:
  assumes "\<forall>op\<in>set ops. op_ok op" and "s = fold (settings_step texts) ops (mount_settings texts)" and "patch_ok patch"
    and "k \<in> set SETTING_KEYS"
  shows "okeys (se_draft s) = SETTING_KEYS
    \<and> (saveDisabled texts s \<longleftrightarrow> (\<forall>j\<in>set SETTING_KEYS. oget (se_draft s) j = oget (server_settings texts s) j))
    \<and> oget (se_draft (updateSetting texts patch s)) k
        = (if k \<in> set (okeys patch) then oget patch k else if k = ''tgCpu'' then clamp_cpu (oget (se_draft s) k) else oget (se_draft s) k)
    \<and> (k = ''tgCpu'' \<and> k \<notin> set (okeys patch) \<longrightarrow> whole_percent (oget (se_draft (updateSetting texts patch s)) k))"
proof -
  have inv: "settings_inv s" unfolding assms(2) by (rule run_inv [OF assms(1) mount_inv])
  hence "okeys (se_draft s) = SETTING_KEYS" by (simp only: settings_inv_def full_def)
  moreover have "k = ''tgCpu'' \<and> k \<notin> set (okeys patch) \<longrightarrow> whole_percent (oget (se_draft (updateSetting texts patch s)) k)"
    unfolding edited_get [OF inv assms(3,4)] by (auto simp: clamp_percent simp del: list.set_map)
  ultimately show ?thesis using save_offered [OF inv] edited_get [OF inv assms(3,4)] by (simp del: list.set_map)
qed

text \<open>When an answer brings other contents than the query held, the page shows exactly them, nothing is left to save, and what
  an answer does not name has its default. When it brings the same contents the draft stays as it is.\<close>
theorem settings_answer_shown:
  assumes "\<forall>op\<in>set ops. op_ok op" and "s = fold (settings_step texts) ops (mount_settings texts)" and "answer_ok v"
    and "k \<in> set SETTING_KEYS"
  shows "if se_data s = Some v then data_arrives texts v s = s
    else saveDisabled texts (data_arrives texts v s)
       \<and> oget (se_draft (data_arrives texts v s)) k = (if k = ''tgCpu'' then clamp_cpu (given texts v k) else given texts v k)"
proof (cases "se_data s = Some v")
  case False
  hence d: "data_arrives texts v s = \<lparr>se_data = Some v, se_draft = new_AllSetting texts v\<rparr>" by (simp add: data_arrives_def)
  have "obj_equals (new_AllSetting texts v) (new_AllSetting texts v)"
    by (rule equals_self) (simp_all only: new_keys new_nan_free [OF assms(3)])
  thus ?thesis using False by (simp add: d saveDisabled_def server_settings_def new_get [OF answer_wf [OF assms(3)]])
qed (simp add: data_arrives_def)


section \<open>Witnesses\<close>

definition sample_answer :: jv where
  "sample_answer = JObj [(''webPort'', JNum (num 8443)), (''tgBotToken'', JStr []), (''hasTgBotToken'', JBool True)]"

definition sample_ops :: "settings_op list" where
  "sample_ops = [Answer_Arrives sample_answer, Edit [(''tgBotToken'', JStr ''1:AA'')]]"

lemma sample_answer_ok: "answer_ok sample_answer"
  by (simp add: answer_ok_def sample_answer_def wf_obj_def nan_free_def oget_def)

lemma sample_keys: "''tgBotToken'' \<in> set SETTING_KEYS" "''pageSize'' \<in> set SETTING_KEYS" "''webPort'' \<in> set SETTING_KEYS"
  by (simp_all add: SETTING_KEYS_def default_settings_def)

lemma sample_ops_ok: "\<forall>op\<in>set sample_ops. op_ok op"
  using sample_answer_ok sample_keys by (simp add: sample_ops_def patch_ok_def wf_obj_def oget_def)

theorem settings_draft_tracked_witness:
  "oget (se_draft (updateSetting ([], []) [(''pageSize'', JNum (num 50))] (fold (settings_step ([], [])) sample_ops (mount_settings ([], []))))) ''pageSize'' = JNum (num 50)"
  using settings_draft_tracked [OF sample_ops_ok refl, of "[(''pageSize'', JNum (num 50))]" "''pageSize''" "([], [])"] sample_keys(2)
  by (simp add: patch_ok_def wf_obj_def oget_def)

theorem settings_answer_shown_witness:
  "let s = data_arrives ([], []) sample_answer (mount_settings ([], []))
   in saveDisabled ([], []) s \<and> oget (se_draft s) ''webPort'' = JNum (num 8443)"
  using settings_answer_shown [of "[]" "mount_settings ([], [])" "([], [])" sample_answer "''webPort''"] sample_answer_ok sample_keys(3)
  by (simp add: Let_def) (simp add: mount_settings_def given_def sample_answer_def oget_def)


text \<open>The server answers with its secrets blanked, so after a new token was saved its answer has the contents the query
  already held: the token stays in the draft and the page goes on to report unsaved changes.\<close>

lemma saved_secret_stays_unsaved:
  "let s = data_arrives ([], []) sample_answer (fold (settings_step ([], [])) sample_ops (mount_settings ([], [])))
   in oget (se_draft s) ''tgBotToken'' = JStr ''1:AA'' \<and> \<not> saveDisabled ([], []) s"
proof -
  let ?s = "data_arrives ([], []) sample_answer (mount_settings ([], []))"
  let ?p = "[(''tgBotToken'', JStr ''1:AA'')]"
  have inv: "settings_inv ?s" using step_inv [OF mount_inv, of "Answer_Arrives sample_answer"] sample_answer_ok by simp
  have ok: "patch_ok ?p" using sample_keys by (simp add: patch_ok_def wf_obj_def oget_def)
  have inv2: "settings_inv (updateSetting ([], []) ?p ?s)" using step_inv [OF inv, of "Edit ?p"] ok by simp
  have t: "oget (se_draft (updateSetting ([], []) ?p ?s)) ''tgBotToken'' = JStr ''1:AA''"
    using edited_get [OF inv ok sample_keys(1)] by (simp add: oget_def)
  have d: "se_data (updateSetting ([], []) ?p ?s) = Some sample_answer" by (simp add: updateSetting_def data_arrives_def mount_settings_def)
  have "oget (server_settings ([], []) (updateSetting ([], []) ?p ?s)) ''tgBotToken'' = JStr []"
    by (simp add: server_settings_def d new_get [OF answer_wf [OF sample_answer_ok]]) (simp add: given_def sample_answer_def oget_def sample_keys)
  hence "\<not> saveDisabled ([], []) (updateSetting ([], []) ?p ?s)" using save_offered [OF inv2] sample_keys(1) t by fastforce
  thus ?thesis using t d by (simp add: sample_ops_def Let_def) (simp add: data_arrives_def [of _ _ "updateSetting _ _ _"])
qed

end
