(* ===== verification/Settings_Fields.thy ===== *)
theory Settings_Fields
  imports Json_Text Rule_Form Share_Links
begin

text \<open>
  The fields of the settings page that are more than a text or a switch: the schedule of the Telegram report
  (\<open>TelegramTab.tsx\<close>), the lists of the JSON subscription (\<open>SubscriptionFormatsTab.tsx\<close>), the chosen events
  (\<open>components/ui/notifications\<close>), the paths (\<open>uriPath.ts\<close>) and the address to go to after a restart
  (\<open>SettingsPage.tsx\<close>).
\<close>

section \<open>Schedule\<close>

datatype schedule_mode = Every | Macro string | Custom_Schedule

record run_time =
  rt_mode :: schedule_mode
  rt_num :: jsnum
  rt_unit :: char
  rt_custom :: string

definition MACROS :: "string list" where
  "MACROS = [''@hourly'', ''@daily'', ''@weekly'', ''@monthly'']"

text \<open>\<open>EVERY_RE\<close>: the digits and the unit.\<close>

definition match_every :: "string \<Rightarrow> (string \<times> char) option" where
  "match_every v =
     (if to_lower (take 6 v) \<noteq> ''@every'' then None
      else let r = drop 6 v; r1 = dropWhile is_space r; ds = takeWhile is_digit r1; r2 = dropWhile is_space (dropWhile is_digit r1)
           in if r1 = r \<or> ds = [] then None
              else case r2 of [u] \<Rightarrow> if lower_char u \<in> {CHR ''s'', CHR ''m'', CHR ''h''} then Some (ds, u) else None | _ \<Rightarrow> None)"

text \<open>\<open>Math.max(1, n || 1)\<close>.\<close>

definition at_least_one :: "jsnum \<Rightarrow> jsnum" where
  "at_least_one n = (if num_less (num 1) n then n else num 1)"

definition parseRunTime :: "string \<Rightarrow> run_time" where
  "parseRunTime raw =
     (let v = trim raw in
      case match_every v of
        Some (ds, u) \<Rightarrow> \<lparr>rt_mode = Every, rt_num = at_least_one (js_number ds), rt_unit = lower_char u, rt_custom = []\<rparr>
      | None \<Rightarrow>
          if v \<in> set MACROS then \<lparr>rt_mode = Macro v, rt_num = num 1, rt_unit = CHR ''h'', rt_custom = []\<rparr>
          else \<lparr>rt_mode = Custom_Schedule, rt_num = num 1, rt_unit = CHR ''h'', rt_custom = v\<rparr>)"

definition composeRunTime :: "run_time \<Rightarrow> string" where
  "composeRunTime s =
     (case rt_mode s of
        Every \<Rightarrow> ''@every '' @ num_str (at_least_one (rt_num s)) @ [rt_unit s]
      | Custom_Schedule \<Rightarrow> rt_custom s
      | Macro m \<Rightarrow> m)"

definition toCrontab :: "run_time \<Rightarrow> string" where
  "toCrontab s =
     (case rt_mode s of
        Macro m \<Rightarrow>
          if m = ''@hourly'' then ''0 0 * * * *'' else if m = ''@daily'' then ''0 0 0 * * *''
          else if m = ''@weekly'' then ''0 0 0 * * 0'' else if m = ''@monthly'' then ''0 0 0 1 * *'' else rt_custom s
      | Every \<Rightarrow>
          let n = num_str (at_least_one (rt_num s)) in
          if rt_unit s = CHR ''s'' then ''*/'' @ n @ '' * * * * *''
          else if rt_unit s = CHR ''m'' then ''0 */'' @ n @ '' * * * *''
          else ''0 0 */'' @ n @ '' * * *''
      | Custom_Schedule \<Rightarrow> rt_custom s)"

definition onModeChange :: "schedule_mode \<Rightarrow> run_time \<Rightarrow> run_time" where
  "onModeChange mode s =
     (if mode = Custom_Schedule \<and> trim (rt_custom s) = [] then s\<lparr>rt_mode := mode, rt_custom := toCrontab s\<rparr> else s\<lparr>rt_mode := mode\<rparr>)"

section \<open>Lists of the JSON subscription\<close>

definition DEFAULT_SUB_MUX :: jobj where
  "DEFAULT_SUB_MUX = [(''enabled'', JBool True), (''concurrency'', JNum (num 8)), (''xudpConcurrency'', JNum (num 16)), (''xudpProxyUDP443'', JStr ''reject'')]"

definition DEFAULT_DOMAIN_RULE :: jobj where
  "DEFAULT_DOMAIN_RULE = [(''type'', JStr ''field''), (''outboundTag'', JStr ''direct''), (''domain'', str_list [''geosite:category-ir''])]"

definition DEFAULT_IP_RULE :: jobj where
  "DEFAULT_IP_RULE = [(''type'', JStr ''field''), (''outboundTag'', JStr ''direct''), (''ip'', str_list [''geoip:private'', ''geoip:ir''])]"

definition readJson :: "string \<Rightarrow> jv \<Rightarrow> jv" where
  "readJson raw fallback = (if raw = [] then fallback else case JSON_parse raw of Some v \<Rightarrow> v | None \<Rightarrow> fallback)"

text \<open>\<open>JSON.stringify\<close> of an object or a list.\<close>

definition stored_text :: "jv \<Rightarrow> string" where
  "stored_text v = (case JSON_stringify v of Some s \<Rightarrow> s | None \<Rightarrow> [])"

text \<open>A stored mux that is no object counts as empty.\<close>

definition muxObj :: "string \<Rightarrow> jobj" where
  "muxObj subJsonMux = (case readJson subJsonMux (JObj DEFAULT_SUB_MUX) of JObj ps \<Rightarrow> ps | _ \<Rightarrow> [])"

definition setMuxEnabled :: "bool \<Rightarrow> string" where
  "setMuxEnabled v = (if v then stored_text (JObj DEFAULT_SUB_MUX) else [])"

definition setMuxField :: "string \<Rightarrow> jv \<Rightarrow> string \<Rightarrow> string" where
  "setMuxField key chosen subJsonMux = stored_text (JObj (oset key chosen (muxObj subJsonMux)))"

definition setDirectEnabled :: "bool \<Rightarrow> string" where
  "setDirectEnabled v = (if v then stored_text (JArr [JObj DEFAULT_DOMAIN_RULE, JObj DEFAULT_IP_RULE]) else [])"

text \<open>A stored text that is no list counts as \<open>null\<close> here; on a truthy one that is no list the page throws.\<close>

definition ruleArray :: "string \<Rightarrow> jv list option" where
  "ruleArray subJsonRules = (case readJson subJsonRules JNull of JArr xs \<Rightarrow> Some xs | _ \<Rightarrow> None)"

definition has_list :: "string \<Rightarrow> jv \<Rightarrow> bool" where
  "has_list key r \<longleftrightarrow> truthy (opt_prop r key)"

definition direct_list :: "string \<Rightarrow> jv list option \<Rightarrow> jv" where
  "direct_list key rules =
     (case rules of None \<Rightarrow> JArr [] | Some rs \<Rightarrow> (case find (has_list key) rs of None \<Rightarrow> JArr [] | Some r \<Rightarrow> opt_prop r key))"

definition directIPs :: "string \<Rightarrow> jv" where
  "directIPs subJsonRules = direct_list ''ip'' (ruleArray subJsonRules)"

definition directDomains :: "string \<Rightarrow> jv" where
  "directDomains subJsonRules = direct_list ''domain'' (ruleArray subJsonRules)"

definition put_list :: "string \<Rightarrow> jobj \<Rightarrow> string list \<Rightarrow> jv list \<Rightarrow> jv list" where
  "put_list key rule chosen rules =
     (if chosen = [] then filter (\<lambda>r. \<not> has_list key r) rules
      else case find_index (has_list key) rules of
        None \<Rightarrow> rules @ [JObj (oset key (str_list chosen) rule)]
      | Some idx \<Rightarrow> rules[idx := set_prop key (str_list chosen) (rules ! idx)])"

definition setDirectIPs :: "string list \<Rightarrow> string \<Rightarrow> string" where
  "setDirectIPs chosen subJsonRules =
     (case ruleArray subJsonRules of None \<Rightarrow> subJsonRules | Some rs \<Rightarrow> stored_text (JArr (put_list ''ip'' DEFAULT_IP_RULE chosen rs)))"

definition setDirectDomains :: "string list \<Rightarrow> string \<Rightarrow> string" where
  "setDirectDomains chosen subJsonRules =
     (case ruleArray subJsonRules of None \<Rightarrow> subJsonRules | Some rs \<Rightarrow> stored_text (JArr (put_list ''domain'' DEFAULT_DOMAIN_RULE chosen rs)))"

section \<open>Events\<close>

definition selected_events :: "string \<Rightarrow> string list" where
  "selected_events events = (if events = [] then [] else filter (\<lambda>s. s \<noteq> []) (map trim (split_on CHR '','' events)))"

definition toggle_event :: "string \<Rightarrow> string \<Rightarrow> string" where
  "toggle_event key events =
     (let selected = selected_events events
      in join '','' (if key \<in> set selected then filter (\<lambda>e. e \<noteq> key) selected else selected @ [key]))"

text \<open>\<open>[...new Set(xs)]\<close> keeps the first of equal elements.\<close>

definition toggle_events :: "string list \<Rightarrow> string \<Rightarrow> string" where
  "toggle_events keys events =
     (let selected = selected_events events
      in join '','' (if set keys \<subseteq> set selected then filter (\<lambda>e. e \<notin> set keys) selected else rev (remdups (rev (selected @ keys)))))"

section \<open>Paths\<close>

definition sanitizePath :: "string \<Rightarrow> string" where
  "sanitizePath input = filter (\<lambda>c. c \<notin> {CHR '':'', CHR ''*'', CHR '' '', CHR 92} \<and> \<not> code c < 32 \<and> code c \<noteq> 127) input"

fun collapse_slashes :: "string \<Rightarrow> string" where
  "collapse_slashes (c # d # s) = (if c = CHR ''/'' \<and> d = CHR ''/'' then collapse_slashes (d # s) else c # collapse_slashes (d # s))"
| "collapse_slashes s = s"

definition normalizePath :: "string \<Rightarrow> string" where
  "normalizePath input =
     (let p = (if input = [] then ''/'' else input);
          p = (if starts_with p ''/'' then p else CHR ''/'' # p);
          p = (if ends_with p ''/'' then p else p @ ''/'')
      in collapse_slashes p)"

section \<open>The address after a restart\<close>

definition is_v4_part :: "string \<Rightarrow> bool" where
  "is_v4_part p \<longleftrightarrow> p \<noteq> [] \<and> length p \<le> 3 \<and> (\<forall>c\<in>set p. is_digit c) \<and> digits_val 10 p \<le> 255"

definition is_v6_group :: "string \<Rightarrow> bool" where
  "is_v6_group g \<longleftrightarrow> g \<noteq> [] \<and> length g \<le> 4 \<and> (\<forall>c\<in>set g. is_hex c)"

text \<open>\<open>split('::')\<close>.\<close>

fun split_colons :: "string \<Rightarrow> string list" where
  "split_colons (c # d # s) =
     (if c = CHR '':'' \<and> d = CHR '':'' then [] # split_colons s
      else (case split_colons (d # s) of [] \<Rightarrow> [[c]] | p # ps \<Rightarrow> (c # p) # ps))"
| "split_colons s = [s]"

definition v6_groups :: "string \<Rightarrow> string list" where
  "v6_groups s = filter (\<lambda>g. g \<noteq> []) (split_on CHR '':'' s)"

definition isIp :: "string \<Rightarrow> bool" where
  "isIp h =
     (let v4 = split_on CHR ''.'' h in
      if length v4 = 4 \<and> list_all is_v4_part v4 then True
      else if \<not> str_includes h '':'' \<or> str_includes h '':::'' then False
      else let parts = split_colons h in
        if length parts > 2 then False
        else let groups = v6_groups (hd parts) @ (if length parts = 2 then v6_groups (parts ! 1) else [])
          in list_all is_v6_group groups \<and> (if length parts = 2 then length groups < 8 else length groups = 8))"

text \<open>The parts of the current and of the new URL that the code sets; escaping of the path is the browser's. A URL shows no
  port that is the default of its scheme, and \<open>new URL\<close> throws (\<^term>\<open>None\<close>) on an IPv6 address without brackets.\<close>

record panel_url =
  pu_secure :: bool
  pu_host :: string
  pu_port :: string
  pu_path :: string

definition shown_port :: "bool \<Rightarrow> string \<Rightarrow> string" where
  "shown_port secure port = (if port = (if secure then ''443'' else ''80'') then [] else port)"

definition settings_path :: "string \<Rightarrow> string" where
  "settings_path webBasePath =
     (let base = (case webBasePath of c # r \<Rightarrow> if c = CHR ''/'' then r else webBasePath | [] \<Rightarrow> []);
          base = (if base \<noteq> [] \<and> \<not> ends_with base ''/'' then base @ ''/'' else base)
      in CHR ''/'' # base @ ''panel/settings'')"

definition rebuildUrlAfterRestart :: "string \<Rightarrow> int \<Rightarrow> string \<Rightarrow> string \<Rightarrow> string \<Rightarrow> panel_url \<Rightarrow> panel_url option" where
  "rebuildUrlAfterRestart webDomain webPort webBasePath webCertFile webKeyFile loc =
     (let secure = (webCertFile \<noteq> [] \<or> webKeyFile \<noteq> []); path = settings_path webBasePath in
      if \<not> isIp (pu_host loc) then Some (loc\<lparr>pu_secure := secure, pu_port := shown_port secure (pu_port loc), pu_path := path\<rparr>)
      else
        let finalHost = (if webDomain \<noteq> [] \<and> isIp webDomain then webDomain else pu_host loc);
            finalPort = (if webPort \<noteq> 0 \<and> \<not> num_eq (num webPort) (js_number (pu_port loc)) then int_str webPort else pu_port loc)
        in if str_includes finalHost '':'' then None
           else Some \<lparr>pu_secure = secure, pu_host = finalHost, pu_port = shown_port secure finalPort, pu_path = path\<rparr>)"

section \<open>The schedule settles\<close>

lemma unit_lower: "lower_char u \<in> {CHR ''s'', CHR ''m'', CHR ''h''} \<Longrightarrow> lower_char (lower_char u) = lower_char u"
  by (auto simp: lower_char_def is_upper_def)

lemma space_char [simp]: "is_space CHR '' ''"
  by (simp add: is_space_def)

lemma every_lower [simp]: "to_lower ''@every'' = ''@every''"
  by (simp add: to_lower_def lower_char_def is_upper_def)

lemma match_written:
  assumes "u \<in> {CHR ''s'', CHR ''m'', CHR ''h''}"
  shows "match_every (''@every '' @ nat_str n @ [u]) = Some (nat_str n, u)"
proof -
  have u: "\<not> is_digit u" "\<not> is_space u" "lower_char u = u" using assms by (auto simp: is_digit_def is_space_def lower_char_def is_upper_def)
  have d: "\<forall>c\<in>set (nat_str n). is_digit c" using nat_str_digits by blast
  have "\<not> is_space (hd (nat_str n @ [u]))" using d nat_str_nonempty [of n] digit_not_space by (cases "nat_str n") auto
  hence sp: "dropWhile is_space (nat_str n @ [u]) = nat_str n @ [u]" by (cases "nat_str n @ [u]") auto
  have dg: "takeWhile is_digit (nat_str n @ [u]) = nat_str n" "dropWhile is_digit (nat_str n @ [u]) = [u]"
    using d u(1) by (simp_all add: takeWhile_append2 dropWhile_append2)
  show ?thesis using assms u by (auto simp: match_every_def Let_def sp dg)
qed

definition schedule_ok :: "run_time \<Rightarrow> bool" where
  "schedule_ok s \<longleftrightarrow>
     (case rt_mode s of
        Every \<Rightarrow> (case rt_num s of Fin q \<Rightarrow> of_int \<lfloor>q\<rfloor> = q \<and> 1 \<le> \<lfloor>q\<rfloor> \<and> \<lfloor>q\<rfloor> \<le> 2 ^ 53 | _ \<Rightarrow> False) \<and> rt_unit s \<in> {CHR ''s'', CHR ''m'', CHR ''h''}
      | Macro m \<Rightarrow> m \<in> set MACROS
      | Custom_Schedule \<Rightarrow> trim (rt_custom s) = rt_custom s \<and> match_every (rt_custom s) = None \<and> rt_custom s \<notin> set MACROS)"

text \<open>The field as it is when the page is opened again.\<close>

definition reopened :: "run_time \<Rightarrow> run_time" where
  "reopened s =
     (case rt_mode s of
        Every \<Rightarrow> s\<lparr>rt_custom := []\<rparr>
      | Macro m \<Rightarrow> \<lparr>rt_mode = Macro m, rt_num = num 1, rt_unit = CHR ''h'', rt_custom = []\<rparr>
      | Custom_Schedule \<Rightarrow> \<lparr>rt_mode = Custom_Schedule, rt_num = num 1, rt_unit = CHR ''h'', rt_custom = rt_custom s\<rparr>)"

lemma at_least_whole: "1 \<le> n \<Longrightarrow> at_least_one (num n) = num n"
  by (simp add: at_least_one_def)

lemma at_least_nat: "1 \<le> n \<Longrightarrow> at_least_one (Fin (of_nat n)) = Fin (of_nat n)"
  using at_least_whole [of "int n"] by simp

lemma macro_plain: "m \<in> set MACROS \<Longrightarrow> trim m = m \<and> match_every m = None"
  by (auto simp: MACROS_def match_every_def trim_def trim_start_def is_space_def to_lower_def lower_char_def is_upper_def)

lemma reopen:
  assumes "schedule_ok s"
  shows "parseRunTime (composeRunTime s) = reopened s"
proof (cases "rt_mode s")
  case Every
  obtain q where q: "rt_num s = Fin q" "of_int \<lfloor>q\<rfloor> = q" "1 \<le> \<lfloor>q\<rfloor>" "\<lfloor>q\<rfloor> \<le> 2 ^ 53" and u: "rt_unit s \<in> {CHR ''s'', CHR ''m'', CHR ''h''}"
    using assms by (auto simp: schedule_ok_def Every split: jsnum.splits)
  define n where "n = nat \<lfloor>q\<rfloor>"
  have i: "int n = \<lfloor>q\<rfloor>" using q(3) by (simp add: n_def)
  have n: "rt_num s = num (int n)" "1 \<le> int n" "int n \<le> 2 ^ 53" by (simp_all only: i q)
  have c: "composeRunTime s = ''@every '' @ nat_str n @ [rt_unit s]"
    using n(2) by (simp add: composeRunTime_def Every n(1) at_least_nat num_str_def int_str_def)
  have nsp: "\<not> is_space (rt_unit s)" "lower_char (rt_unit s) = rt_unit s" using u by (auto simp: is_space_def lower_char_def is_upper_def)
  have "trim (''@every '' @ nat_str n @ [rt_unit s]) = ''@every '' @ nat_str n @ [rt_unit s]"
    using nsp by (simp add: trim_def trim_start_def is_space_def [of "CHR ''@''"])
  moreover have "at_least_one (js_number (nat_str n)) = num (int n)" using n(2,3) by (simp add: at_least_nat)
  ultimately show ?thesis using nsp match_written [OF u, of n]
    by (simp only: parseRunTime_def c Let_def option.simps prod.case) (simp add: reopened_def Every n(1))
next
  case (Macro m)
  hence "m \<in> set MACROS" using assms by (simp add: schedule_ok_def)
  thus ?thesis using macro_plain [of m] by (simp add: composeRunTime_def Macro parseRunTime_def reopened_def Let_def)
next
  case Custom_Schedule
  thus ?thesis using assms by (simp add: composeRunTime_def parseRunTime_def reopened_def schedule_ok_def Let_def)
qed

text \<open>The schedule that is stored opens as the choice it was made from, and storing that again writes the same; every text
  the server can hold opens as such a choice, as long as its number is exact.\<close>
theorem schedule_settles:
  assumes "schedule_ok s" and "\<forall>ds u. match_every (trim raw) = Some (ds, u) \<longrightarrow> digits_val 10 ds \<le> 2 ^ 53"
  shows "parseRunTime (composeRunTime s) = reopened s \<and> composeRunTime (reopened s) = composeRunTime s \<and> schedule_ok (parseRunTime raw)"
proof (intro conjI)
  show "parseRunTime (composeRunTime s) = reopened s" by (rule reopen [OF assms(1)])
  show "composeRunTime (reopened s) = composeRunTime s" by (simp add: composeRunTime_def reopened_def split: schedule_mode.split)
  show "schedule_ok (parseRunTime raw)"
  proof (cases "match_every (trim raw)")
    case None
    thus ?thesis by (simp add: parseRunTime_def schedule_ok_def Let_def)
  next
    case (Some p)
    then obtain ds u where p: "match_every (trim raw) = Some (ds, u)" by (cases p) auto
    hence u: "lower_char u \<in> {CHR ''s'', CHR ''m'', CHR ''h''}" and ds: "ds \<noteq> []" "\<forall>c\<in>set ds. is_digit c"
      by (auto simp: match_every_def Let_def dest: set_takeWhileD split: if_splits list.splits)
    have "js_number ds = num (int (digits_val 10 ds))"
      using js_number_digits [OF ds] assms(2) p by (simp add: to_num_nat)
    moreover have "int (digits_val 10 ds) \<le> 2 ^ 53" using assms(2) p by (simp add: of_nat_le_iff [symmetric] del: of_nat_le_iff)
    ultimately show ?thesis using u by (auto simp: parseRunTime_def p schedule_ok_def Let_def at_least_one_def)
  qed
qed

theorem schedule_settles_witness:
  "parseRunTime (composeRunTime \<lparr>rt_mode = Every, rt_num = num 5, rt_unit = CHR ''m'', rt_custom = ''x''\<rparr>)
     = \<lparr>rt_mode = Every, rt_num = num 5, rt_unit = CHR ''m'', rt_custom = []\<rparr>"
  using schedule_settles [of "\<lparr>rt_mode = Every, rt_num = num 5, rt_unit = CHR ''m'', rt_custom = ''x''\<rparr>" "[]"]
  by (simp add: schedule_ok_def reopened_def match_every_def to_lower_def trim_def trim_start_def)

text \<open>A custom schedule seeded from 90 seconds has a step beyond its field.\<close>

lemma seeded_step_out_of_range:
  "rt_custom (onModeChange Custom_Schedule \<lparr>rt_mode = Every, rt_num = num 90, rt_unit = CHR ''s'', rt_custom = []\<rparr>) = ''*/'' @ nat_str 90 @ '' * * * * *''"
  by (simp add: onModeChange_def toCrontab_def trim_def trim_start_def at_least_one_def num_str_def int_str_def Let_def)

section \<open>The lists of direct destinations\<close>

text \<open>A rule holds addresses or domains, not both.\<close>

definition separate_rules :: "jv list \<Rightarrow> bool" where
  "separate_rules rs \<longleftrightarrow> list_all (\<lambda>r. (\<exists>ps. r = JObj ps) \<and> \<not> (has_list ''ip'' r \<and> has_list ''domain'' r)) rs"

lemma find_filter_other:
  "list_all (\<lambda>r. \<not> (P r \<and> Q r)) rs \<Longrightarrow> find Q (filter (\<lambda>r. \<not> P r) rs) = find Q rs"
  by (induction rs) auto

lemma find_none_filter: "find P (filter (\<lambda>r. \<not> P r) rs) = None"
  by (induction rs) auto

lemma find_append: "find P (xs @ ys) = (case find P xs of None \<Rightarrow> find P ys | Some x \<Rightarrow> Some x)"
  by (induction xs) auto

lemma find_index_none: "find_index P xs = None \<longleftrightarrow> find P xs = None"
  by (induction xs) auto

lemma find_index_some: "find_index P xs = Some i \<Longrightarrow> i < length xs \<and> P (xs ! i) \<and> find P (xs[i := y]) = (if P y then Some y else find P (drop (Suc i) xs))"
  by (induction xs arbitrary: i) (auto split: if_splits)

lemma find_update_other:
  "i < length xs \<Longrightarrow> \<not> Q (xs ! i) \<Longrightarrow> \<not> Q y \<Longrightarrow> find Q (xs[i := y]) = find Q xs"
  by (induction xs arbitrary: i) (auto simp: nth_Cons list_update.simps split: nat.splits)

lemma put_list_lens:
  assumes "list_all (\<lambda>r. \<exists>ps. r = JObj ps) rs" "list_all (\<lambda>r. \<not> (has_list key r \<and> has_list other r)) rs" "key \<noteq> other"
    and "\<not> has_list other (JObj rule)"
  shows "direct_list key (Some (put_list key rule chosen rs)) = str_list chosen"
    and "direct_list other (Some (put_list key rule chosen rs)) = direct_list other (Some rs)"
    and "filter (\<lambda>r. \<not> has_list key r) (put_list key rule chosen rs) = filter (\<lambda>r. \<not> has_list key r) rs"
proof -
  have set: "has_list key (set_prop key (str_list chosen) r)" "opt_prop (set_prop key (str_list chosen) r) key = str_list chosen"
    "has_list other (set_prop key (str_list chosen) r) = has_list other r" if "\<exists>ps. r = JObj ps" for r
    using that assms(3) by (auto simp: has_list_def set_prop_def opt_prop_def)
  have new: "has_list key (JObj (oset key (str_list chosen) rule))" "opt_prop (JObj (oset key (str_list chosen) rule)) key = str_list chosen"
    "\<not> has_list other (JObj (oset key (str_list chosen) rule))"
    using assms(3,4) by (auto simp: has_list_def opt_prop_def)
  consider (empty) "chosen = []" | (none) "chosen \<noteq> []" "find_index (has_list key) rs = None" | (idx) i where "chosen \<noteq> []" "find_index (has_list key) rs = Some i"
    by (cases "chosen = []"; cases "find_index (has_list key) rs") auto
  hence "direct_list key (Some (put_list key rule chosen rs)) = str_list chosen
    \<and> direct_list other (Some (put_list key rule chosen rs)) = direct_list other (Some rs)
    \<and> filter (\<lambda>r. \<not> has_list key r) (put_list key rule chosen rs) = filter (\<lambda>r. \<not> has_list key r) rs"
  proof cases
    case empty
    thus ?thesis using assms(2) by (simp add: put_list_def direct_list_def find_none_filter find_filter_other)
  next
    case none
    have put: "put_list key rule chosen rs = rs @ [JObj (oset key (str_list chosen) rule)]" using none by (simp add: put_list_def)
    have "find (has_list key) rs = None" using none(2) by (simp only: find_index_none)
    thus ?thesis using new
      by (simp add: put direct_list_def find_append split: option.split)
  next
    case idx
    let ?y = "set_prop key (str_list chosen) (rs ! i)"
    have i: "i < length rs" "has_list key (rs ! i)" "find (has_list key) (rs[i := ?y]) = (if has_list key ?y then Some ?y else find (has_list key) (drop (Suc i) rs))"
      using find_index_some [OF idx(2), of ?y] by simp_all
    have o: "\<exists>ps. rs ! i = JObj ps" "\<not> has_list other (rs ! i)" using assms(1,2) i(1,2) by (auto simp: list_all_length)
    have "filter (\<lambda>r. \<not> has_list key r) (rs[i := ?y]) = filter (\<lambda>r. \<not> has_list key r) rs"
      using i(1,2) set(1) [OF o(1)] by (simp add: upd_conv_take_nth_drop) (subst (3) id_take_nth_drop [OF i(1)], simp)
    thus ?thesis using idx i set [OF o(1)] o(2)
      by (simp add: put_list_def direct_list_def find_update_other)
  qed
  thus "direct_list key (Some (put_list key rule chosen rs)) = str_list chosen"
    "direct_list other (Some (put_list key rule chosen rs)) = direct_list other (Some rs)"
    "filter (\<lambda>r. \<not> has_list key r) (put_list key rule chosen rs) = filter (\<lambda>r. \<not> has_list key r) rs" by blast+
qed

lemma json_written_some: "wf_json v \<Longrightarrow> \<exists>s. JSON_stringify v = Some s \<and> JSON_parse s = Some v"
  using written_start json_parse_written by blast

lemma parse_nonempty: "JSON_parse [] = None"
  by (simp add: JSON_parse_def skip_ws_def)

lemma set_oset_sub: "set (oset k v ps) \<subseteq> insert (k, v) (set ps)"
  by (induction ps) auto

lemma stored_parse: "wf_json v \<Longrightarrow> readJson (stored_text v) fallback = v"
proof -
  assume v: "wf_json v"
  obtain s where s: "JSON_stringify v = Some s" "JSON_parse s = Some v" using json_written_some [OF v] by blast
  have "s \<noteq> []" using s(2) parse_nonempty by fastforce
  thus ?thesis using s by (simp add: readJson_def stored_text_def)
qed

lemma wf_put:
  assumes "wf_json (JArr rs)" "wf_json (JObj rule)" "\<not> is_array_index key"
  shows "wf_json (JArr (put_list key rule chosen rs))"
proof -
  have v: "wf_json (str_list chosen)" by simp
  have o: "wf_json (JObj (oset key (str_list chosen) ps))" if "wf_json (JObj ps)" for ps
  proof -
    have "set (oset key (str_list chosen) ps) \<subseteq> insert (key, str_list chosen) (set ps)" by (rule set_oset_sub)
    thus ?thesis using that assms(3) v by fastforce
  qed
  have p: "wf_json (set_prop key (str_list chosen) r)" if "wf_json r" for r
    using that o by (cases r) (auto simp: set_prop_def simp del: wf_json.simps(7))
  show ?thesis
  proof (cases "chosen = []")
    case True
    thus ?thesis using assms(1) by (simp add: put_list_def)
  next
    case False
    show ?thesis
    proof (cases "find_index (has_list key) rs")
      case None
      thus ?thesis using False assms(1) o [OF assms(2)] by (simp add: put_list_def del: wf_json.simps(7))
    next
      case (Some i)
      have i: "i < length rs" using find_index_some [OF Some] by blast
      hence y: "wf_json (set_prop key (str_list chosen) (rs ! i))" using assms(1) by (intro p) simp
      have "set (rs[i := set_prop key (str_list chosen) (rs ! i)]) \<subseteq> insert (set_prop key (str_list chosen) (rs ! i)) (set rs)"
        by (rule set_update_subset_insert)
      hence "\<forall>x\<in>set (rs[i := set_prop key (str_list chosen) (rs ! i)]). wf_json x" using y assms(1) by (metis insert_iff subsetD wf_json.simps(6))
      thus ?thesis using False Some by (simp add: put_list_def)
    qed
  qed
qed

lemma rules_parse: "wf_json (JArr xs) \<Longrightarrow> ruleArray (stored_text (JArr xs)) = Some xs"
  by (simp only: ruleArray_def stored_parse jv.simps)

definition rules_ok :: "jv list \<Rightarrow> bool" where
  "rules_ok rs \<longleftrightarrow> wf_json (JArr rs) \<and> separate_rules rs"

text \<open>Where every stored rule is either one for addresses or one for domains, a chosen list reads back as it was chosen, through
  the stored JSON text, the other list is as before, and every rule without that list stays as it is and in its
  place among them.\<close>
theorem direct_lists_lens:
  assumes "rules_ok rs" and "ips = setDirectIPs chosen (stored_text (JArr rs))" and "domains = setDirectDomains chosen (stored_text (JArr rs))"
  shows "directIPs ips = str_list chosen \<and> directDomains ips = directDomains (stored_text (JArr rs))
    \<and> directDomains domains = str_list chosen \<and> directIPs domains = directIPs (stored_text (JArr rs))
    \<and> (\<exists>rs'. ruleArray ips = Some rs' \<and> filter (\<lambda>r. \<not> has_list ''ip'' r) rs' = filter (\<lambda>r. \<not> has_list ''ip'' r) rs)
    \<and> (\<exists>rs'. ruleArray domains = Some rs' \<and> filter (\<lambda>r. \<not> has_list ''domain'' r) rs' = filter (\<lambda>r. \<not> has_list ''domain'' r) rs)"
proof -
  have rs: "wf_json (JArr rs)" "list_all (\<lambda>r. \<exists>ps. r = JObj ps) rs"
    "list_all (\<lambda>r. \<not> (has_list ''ip'' r \<and> has_list ''domain'' r)) rs" "list_all (\<lambda>r. \<not> (has_list ''domain'' r \<and> has_list ''ip'' r)) rs"
    using assms(1) by (auto simp: rules_ok_def separate_rules_def list_all_iff)
  have d: "wf_json (JObj DEFAULT_IP_RULE)" "wf_json (JObj DEFAULT_DOMAIN_RULE)" "\<not> is_array_index ''ip''" "\<not> is_array_index ''domain''"
    "\<not> has_list ''domain'' (JObj DEFAULT_IP_RULE)" "\<not> has_list ''ip'' (JObj DEFAULT_DOMAIN_RULE)"
    by (simp_all add: DEFAULT_IP_RULE_def DEFAULT_DOMAIN_RULE_def wf_obj_def is_array_index_def is_digit_def has_list_def opt_prop_def oget_def)
  have r: "ruleArray (stored_text (JArr rs)) = Some rs" by (rule rules_parse [OF rs(1)])
  have w: "ruleArray ips = Some (put_list ''ip'' DEFAULT_IP_RULE chosen rs)" "ruleArray domains = Some (put_list ''domain'' DEFAULT_DOMAIN_RULE chosen rs)"
    by (simp_all only: assms(2,3) setDirectIPs_def setDirectDomains_def r option.simps rules_parse [OF wf_put [OF rs(1) d(1,3)]] rules_parse [OF wf_put [OF rs(1) d(2,4)]])
  show ?thesis
    using put_list_lens [OF rs(2,3) _ d(5), of chosen] put_list_lens [OF rs(2,4) _ d(6), of chosen]
    by (simp add: directIPs_def directDomains_def w r)
qed

definition sample_rules :: "jv list" where
  "sample_rules = [JObj [(''type'', JStr ''field''), (''domain'', str_list [''geosite:cn''])], JObj [(''type'', JStr ''field''), (''port'', JStr ''53'')]]"

theorem direct_lists_lens_witness:
  "directIPs (setDirectIPs [''geoip:cn''] (stored_text (JArr sample_rules))) = str_list [''geoip:cn'']
   \<and> directDomains (setDirectIPs [''geoip:cn''] (stored_text (JArr sample_rules))) = str_list [''geosite:cn'']"
proof -
  have ok: "rules_ok sample_rules"
    by (simp add: rules_ok_def separate_rules_def sample_rules_def wf_obj_def is_array_index_def is_digit_def has_list_def opt_prop_def oget_def)
  have "directDomains (stored_text (JArr sample_rules)) = str_list [''geosite:cn'']"
    using rules_parse [of sample_rules] ok
    by (simp add: directDomains_def rules_ok_def del: wf_json.simps) (simp add: sample_rules_def direct_list_def has_list_def opt_prop_def oget_def)
  thus ?thesis using direct_lists_lens [OF ok refl refl, of "[''geoip:cn'']"] by simp
qed

text \<open>A rule for both loses its domains when the addresses are cleared.\<close>

lemma clearing_drops_domains:
  "put_list ''ip'' rule [] [JObj [(''ip'', str_list [''geoip:cn'']), (''domain'', str_list [''geosite:cn''])]] = []"
  by (simp add: put_list_def has_list_def opt_prop_def oget_def)

section \<open>Chosen events\<close>

lemma selected_csv: "selected_events = csv"
  by (rule ext) (simp add: selected_events_def csv_def)

lemma join_csv: "list_all csv_item xs \<Longrightarrow> selected_events (join '','' xs) = xs"
  by (simp add: selected_csv csv_join)

lemma selected_items: "list_all csv_item (selected_events events)"
  by (simp add: selected_csv csv_items)

lemma toggled: "csv_item key \<Longrightarrow> selected_events (toggle_event key events)
    = (if key \<in> set (selected_events events) then filter (\<lambda>e. e \<noteq> key) (selected_events events) else selected_events events @ [key])"
  using selected_items [of events] by (auto simp: toggle_event_def Let_def join_csv list_all_iff)

lemma toggled_all: "list_all csv_item keys \<Longrightarrow> selected_events (toggle_events keys events)
    = (if set keys \<subseteq> set (selected_events events) then filter (\<lambda>e. e \<notin> set keys) (selected_events events)
       else rev (remdups (rev (selected_events events @ keys))))"
proof -
  assume "list_all csv_item keys"
  hence "list_all csv_item (rev (remdups (rev (selected_events events @ keys))))"
    and "list_all csv_item (filter (\<lambda>e. e \<notin> set keys) (selected_events events))"
    using selected_items [of events] by (auto simp: list_all_iff)
  thus ?thesis by (simp only: toggle_events_def Let_def join_csv split: if_split) simp
qed

text \<open>Through the stored text, a click on an event changes whether this event is chosen and no other, two clicks give back
  the choice, and the click on a group chooses all of it, or none when all was chosen, and leaves the rest.\<close>
theorem event_choice:
  assumes "csv_item key" and "list_all csv_item keys"
  shows "set (selected_events (toggle_event key events))
      = (if key \<in> set (selected_events events) then set (selected_events events) - {key} else insert key (set (selected_events events)))
    \<and> set (selected_events (toggle_event key (toggle_event key events))) = set (selected_events events)
    \<and> set (selected_events (toggle_events keys events))
      = (if set keys \<subseteq> set (selected_events events) then set (selected_events events) - set keys else set (selected_events events) \<union> set keys)"
  using assms by (auto simp: toggled toggled_all)

theorem event_choice_witness:
  "set (selected_events (toggle_event ''node.up'' ''cpu.high,node.up'')) = set (selected_events ''cpu.high,node.up'') - {''node.up''}"
proof -
  have "csv_item ''node.up''" by (simp add: csv_item_def trim_def trim_start_def is_space_def)
  moreover have "''node.up'' \<in> set (selected_events ''cpu.high,node.up'')" by (simp add: selected_events_def trim_def trim_start_def is_space_def)
  ultimately show ?thesis using event_choice [of "''node.up''" "[]" "''cpu.high,node.up''"] by simp
qed

section \<open>Paths\<close>

lemma collapse_keeps_ends:
  "s \<noteq> [] \<Longrightarrow> collapse_slashes s \<noteq> [] \<and> hd (collapse_slashes s) = hd s \<and> last (collapse_slashes s) = last s"
  by (induction s rule: collapse_slashes.induct) auto

lemma collapse_chars: "set (collapse_slashes s) = set s"
  by (induction s rule: collapse_slashes.induct) auto

fun single_slashes :: "string \<Rightarrow> bool" where
  "single_slashes (c # d # s) = (\<not> (c = CHR ''/'' \<and> d = CHR ''/'') \<and> single_slashes (d # s))"
| "single_slashes s = True"

lemma collapse_single: "single_slashes (collapse_slashes s)"
proof (induction s rule: collapse_slashes.induct)
  case (1 c d s)
  show ?case
  proof (cases "c = CHR ''/'' \<and> d = CHR ''/''")
    case True
    thus ?thesis using 1(1) [OF True] by (simp only: collapse_slashes.simps(1) if_True refl simp_thms)
  next
    case False
    have e: "collapse_slashes (d # s) \<noteq> []" "hd (collapse_slashes (d # s)) = d" using collapse_keeps_ends [of "d # s"] by simp_all
    then obtain r where r: "collapse_slashes (d # s) = d # r" by (cases "collapse_slashes (d # s)") auto
    hence "collapse_slashes (c # d # s) = c # d # r" using False by (simp only: collapse_slashes.simps(1) if_False)
    moreover have "single_slashes (d # r)" using 1(2) [OF False] r by simp
    ultimately show ?thesis using False by (simp only: single_slashes.simps(1)) simp
  qed
qed simp_all

lemma collapse_same: "single_slashes s \<Longrightarrow> collapse_slashes s = s"
  by (induction s rule: collapse_slashes.induct) auto

lemma starts_slash: "starts_with p ''/'' \<longleftrightarrow> p \<noteq> [] \<and> hd p = CHR ''/''"
  by (cases p) auto

lemma ends_slash: "ends_with p ''/'' \<longleftrightarrow> p \<noteq> [] \<and> last p = CHR ''/''"
  by (simp add: ends_with_def starts_slash hd_rev)

text \<open>A normalised path begins and ends with a slash, has no empty segment, is accepted by the schema's path field and is
  normalised already; it holds no character that was not typed but the slash, so a cleaned path stays clean.\<close>
theorem normalized_path:
  assumes "p = normalizePath (sanitizePath input)"
  shows "starts_with p ''/'' \<and> ends_with p ''/'' \<and> single_slashes p \<and> normalizePath p = p \<and> sanitizePath p = p
    \<and> set p \<subseteq> insert (CHR ''/'') (set input)"
proof -
  define q where "q = (let p = (if sanitizePath input = [] then ''/'' else sanitizePath input);
      p = (if starts_with p ''/'' then p else CHR ''/'' # p) in if ends_with p ''/'' then p else p @ ''/'')"
  have p: "p = collapse_slashes q" by (simp add: assms normalizePath_def q_def Let_def)
  have q: "q \<noteq> []" "hd q = CHR ''/''" "last q = CHR ''/''" "set q \<subseteq> insert (CHR ''/'') (set (sanitizePath input))"
    by (auto simp: q_def Let_def starts_slash ends_slash split: if_splits)
  have e: "p \<noteq> []" "hd p = CHR ''/''" "last p = CHR ''/''" "single_slashes p" "set p = set q"
    using collapse_keeps_ends [OF q(1)] q by (simp_all add: p collapse_single collapse_chars)
  have c: "CHR ''/'' \<notin> {CHR '':'', CHR ''*'', CHR '' '', CHR 92} \<and> \<not> code (CHR ''/'') < 32 \<and> code (CHR ''/'') \<noteq> 127" by simp
  have "sanitizePath p = p"
    unfolding sanitizePath_def using q(4) e(5) c by (intro filter_True) (auto simp: sanitizePath_def)
  moreover have "set p \<subseteq> insert (CHR ''/'') (set input)" using q(4) e(5) by (auto simp: sanitizePath_def)
  ultimately show ?thesis using e by (simp add: starts_slash ends_slash normalizePath_def [of p] Let_def collapse_same)
qed

theorem normalized_path_witness:
  "starts_with (normalizePath (sanitizePath ''a//b c'')) ''/'' \<and> single_slashes (normalizePath (sanitizePath ''a//b c''))"
  using normalized_path [OF refl, of "''a//b c''"] by blast

section \<open>The address after a restart\<close>

text \<open>The browser shows an IPv6 host in brackets, which the test does not take for an address.\<close>

lemma bracketed_address_missed: "\<not> isIp ''[::1]'' \<and> isIp ''::1''"
  by (simp add: isIp_def Let_def is_v6_group_def v6_groups_def is_hex_def is_digit_def is_v4_part_def)

text \<open>An IPv6 address as the domain of the panel makes the new address throw.\<close>

lemma v6_domain_throws:
  "isIp (pu_host loc) \<Longrightarrow> rebuildUrlAfterRestart ''::1'' webPort webBasePath c k loc = None"
  using bracketed_address_missed by (simp add: rebuildUrlAfterRestart_def Let_def)

lemma v4_address: "list_all is_v4_part [a, b, c, d] \<Longrightarrow> list_all (\<lambda>s. CHR ''.'' \<notin> set s) [a, b, c, d] \<Longrightarrow> isIp (join ''.'' [a, b, c, d])"
  using split_on_join [of "[a, b, c, d]" "CHR ''.''"] by (simp add: isIp_def Let_def list_all_iff)

text \<open>A panel opened by its IPv4 address is found again after a restart under the configured port, with the scheme the
  certificate settings ask for and the settings page below the configured base path; opened by a name, host
  and port stay.\<close>
theorem restart_address:
  assumes "loc = \<lparr>pu_secure = sec, pu_host = host, pu_port = port, pu_path = path\<rparr>" and "CHR '':'' \<notin> set host" and "webPort \<noteq> 0"
    and "int_str webPort \<noteq> port \<longrightarrow> js_number port \<noteq> num webPort"
  shows "\<exists>u. rebuildUrlAfterRestart [] webPort webBasePath crt key loc = Some u \<and> pu_secure u = (crt \<noteq> [] \<or> key \<noteq> []) \<and> pu_host u = host
    \<and> pu_path u = settings_path webBasePath
    \<and> pu_port u = shown_port (crt \<noteq> [] \<or> key \<noteq> []) (if isIp host then int_str webPort else port)"
proof -
  have h: "\<not> str_includes host '':''" using assms(2) by (induction host) auto
  have eq: "num_eq (num webPort) (js_number port) \<longleftrightarrow> js_number port = num webPort" by (cases "js_number port") auto
  show ?thesis using h assms(3,4) by (auto simp: rebuildUrlAfterRestart_def Let_def assms(1) eq)
qed

end
