(* ===== verification/Node_List.thy ===== *)
theory Node_List
  imports Sub_Branding "HOL-Library.Multiset"
begin

text \<open>
  The nodes page: the order of the table in \<open>frontend/src/pages/nodes/NodeList.tsx\<close>, the totals of
  \<open>api/queries/useNodesQuery.ts\<close>, the update of panels in \<open>NodesPage.tsx\<close> and the comparison of versions in
  \<open>lib/panel-version.ts\<close>. The scheme, address and port are always sent; every use of another optional field
  tests whether it is truthy, so a missing one is the empty text, 0 or \<^term>\<open>False\<close>.
\<close>

section \<open>Nodes\<close>

record node =
  nd_id :: int
  nd_name :: string
  nd_scheme :: string
  nd_address :: string
  nd_port :: int
  nd_basePath :: string
  nd_guid :: string
  nd_parentGuid :: string
  nd_transitive :: bool
  nd_enable :: bool
  nd_status :: string
  nd_xrayState :: string
  nd_xrayError :: string
  nd_lastError :: string
  nd_latencyMs :: int
  nd_inboundCount :: int
  nd_clientCount :: int
  nd_onlineCount :: int
  nd_depletedCount :: int

definition isUpdateEligible :: "node \<Rightarrow> bool" where
  "isUpdateEligible n \<longleftrightarrow> nd_enable n \<and> nd_status n = ''online''"

definition hasXrayProblem :: "string \<Rightarrow> string \<Rightarrow> bool" where
  "hasXrayProblem status xrayState \<longleftrightarrow> status = ''online'' \<and> trim (to_lower xrayState) \<in> {''error'', ''stop''}"

text \<open>The tooltip, and whether the icon has the colour of a failed core.\<close>

definition statusIssue :: "node \<Rightarrow> string \<times> bool" where
  "statusIssue n =
     (if nd_lastError n \<noteq> [] then nd_lastError n else if hasXrayProblem (nd_status n) (nd_xrayState n) then nd_xrayError n else [],
      nd_lastError n = [] \<and> hasXrayProblem (nd_status n) (nd_xrayState n))"

definition formatUptime :: "nat \<Rightarrow> string" where
  "formatUptime secs =
     (if secs = 0 then ''-''
      else let days = secs div 86400; hours = (secs mod 86400) div 3600; mins = (secs mod 3600) div 60 in
        if days > 0 then nat_str days @ ''d '' @ nat_str hours @ ''h''
        else if hours > 0 then nat_str hours @ ''h '' @ nat_str mins @ ''m'' else nat_str mins @ ''m'')"

section \<open>The table\<close>

datatype table_key = Direct int | Sub string

definition node_key :: "node \<Rightarrow> table_key" where
  "node_key n = (if nd_transitive n then Sub (nd_guid n) else Direct (nd_id n))"

definition node_url :: "node \<Rightarrow> string" where
  "node_url n = nd_scheme n @ ''://'' @ nd_address n @ CHR '':'' # int_str (nd_port n) @ (if nd_basePath n = [] then ''/'' else nd_basePath n)"

definition children_of :: "node list \<Rightarrow> node \<Rightarrow> node list" where
  "children_of nodes n =
     (if nd_guid n = [] then [] else filter (\<lambda>c. nd_transitive c \<and> nd_parentGuid c \<noteq> [] \<and> nd_parentGuid c = nd_guid n) nodes)"

text \<open>The loop over the nodes that were not reached.\<close>

fun push_rest :: "table_key set \<Rightarrow> node list \<Rightarrow> node list" where
  "push_rest added [] = []"
| "push_rest added (n # ns) =
     (if nd_transitive n \<and> node_key n \<notin> added then n # push_rest (insert (node_key n) added) ns else push_rest added ns)"

definition dataSource :: "node list \<Rightarrow> node list" where
  "dataSource nodes =
     (let ordered = concat (map (\<lambda>n. n # children_of nodes n) (filter (\<lambda>n. \<not> nd_transitive n) nodes))
      in ordered @ push_rest (set (map node_key ordered)) nodes)"

text \<open>\<open>onUpdateSelected\<close>: the ids that are sent after the confirmation.\<close>

definition update_selected :: "int list \<Rightarrow> node list \<Rightarrow> int list" where
  "update_selected selectedIds nodes = map nd_id (filter (\<lambda>n. nd_id n \<in> set selectedIds \<and> isUpdateEligible n) nodes)"

section \<open>Totals\<close>

record node_totals =
  tt_total :: nat
  tt_online :: nat
  tt_offline :: nat
  tt_avgLatency :: int
  tt_inbounds :: int
  tt_clients :: int
  tt_onlineClients :: int
  tt_depleted :: int

definition latencies :: "node list \<Rightarrow> int list" where
  "latencies nodes = map nd_latencyMs (filter (\<lambda>n. isUpdateEligible n \<and> nd_latencyMs n > 0) nodes)"

definition totals :: "node list \<Rightarrow> node_totals" where
  "totals nodes =
     \<lparr>tt_total = length nodes,
      tt_online = length (filter isUpdateEligible nodes),
      tt_offline = length (filter (\<lambda>n. nd_enable n \<and> nd_status n = ''offline'') nodes),
      tt_avgLatency = (let l = latencies nodes in if l \<noteq> [] then math_round (of_int (sum_list l) / of_nat (length l)) else 0),
      tt_inbounds = sum_list (map nd_inboundCount nodes), tt_clients = sum_list (map nd_clientCount nodes),
      tt_onlineClients = sum_list (map nd_onlineCount nodes), tt_depleted = sum_list (map nd_depletedCount nodes)\<rparr>"

section \<open>Versions\<close>

definition bare_version :: "string \<Rightarrow> string" where
  "bare_version v = (case trim v of c # r \<Rightarrow> if c = CHR ''v'' then r else c # r | [] \<Rightarrow> [])"

definition parseVersionParts :: "string \<Rightarrow> (jsnum \<times> jsnum \<times> jsnum) option" where
  "parseVersionParts version =
     (case split_on CHR ''.'' (bare_version version) of
        [a, b, c] \<Rightarrow> if list_all (\<lambda>p. p \<noteq> [] \<and> list_all is_digit p) [a, b, c] then Some (js_number a, js_number b, js_number c) else None
      | _ \<Rightarrow> None)"

definition isPanelUpdateAvailable :: "string \<Rightarrow> string \<Rightarrow> bool" where
  "isPanelUpdateAvailable latest current =
     (if latest = [] \<or> current = [] then False
      else case (parseVersionParts latest, parseVersionParts current) of
        (Some (a1, a2, a3), Some (b1, b2, b3)) \<Rightarrow>
          if num_less b1 a1 then True else if num_less a1 b1 then False
          else if num_less b2 a2 then True else if num_less a2 b2 then False
          else num_less b3 a3
      | _ \<Rightarrow> bare_version latest \<noteq> bare_version current)"

section \<open>Every node once\<close>

lemma push_rest_set: "n \<in> set (push_rest added ns) \<Longrightarrow> n \<in> set ns \<and> nd_transitive n \<and> node_key n \<notin> added"
  by (induction ns arbitrary: added) (auto split: if_splits)

lemma push_rest_all:
  "distinct (map node_key (filter nd_transitive ns)) \<Longrightarrow> push_rest added ns = filter (\<lambda>n. nd_transitive n \<and> node_key n \<notin> added) ns"
proof (induction ns arbitrary: added)
  case (Cons n ns)
  have "node_key m \<noteq> node_key n" if "nd_transitive n" "m \<in> set ns" "nd_transitive m" for m
  proof
    assume "node_key m = node_key n"
    hence "node_key n \<in> node_key ` set (filter nd_transitive ns)" using that by (intro image_eqI [of _ _ m]) auto
    thus False using Cons.prems that(1) by simp
  qed
  hence "filter (\<lambda>m. nd_transitive m \<and> node_key m \<notin> insert (node_key n) added) ns
      = filter (\<lambda>m. nd_transitive m \<and> node_key m \<notin> added) ns" if "nd_transitive n"
    using that by (intro filter_cong) auto
  thus ?case using Cons by (simp split: if_splits)
qed simp

lemma mset_interleaved: "mset (concat (map (\<lambda>n. n # f n) ps)) = mset ps + mset (concat (map f ps))"
  by (induction ps) simp_all

definition child_of :: "string set \<Rightarrow> node \<Rightarrow> bool" where
  "child_of G c \<longleftrightarrow> nd_transitive c \<and> nd_parentGuid c \<noteq> [] \<and> nd_parentGuid c \<in> G"

lemma child_of_no_guid [simp]: "child_of (insert [] G) = child_of G"
  by (auto simp: child_of_def fun_eq_iff)

lemma child_of_none [simp]: "child_of {} = (\<lambda>_. False)"
  by (simp add: child_of_def fun_eq_iff)

lemma children_of_child: "children_of nodes p = filter (child_of {nd_guid p}) nodes"
  by (auto simp: children_of_def child_of_def intro!: filter_cong)

lemma child_of_insert: "g \<notin> G \<Longrightarrow> filter_mset (child_of {g}) M + filter_mset (child_of G) M = filter_mset (child_of (insert g G)) M"
  by (induction M) (auto simp: child_of_def)

lemma mset_concat_children:
  "distinct (filter (\<lambda>g. g \<noteq> []) (map nd_guid ps))
   \<Longrightarrow> mset (concat (map (children_of nodes) ps)) = filter_mset (child_of (nd_guid ` set ps)) (mset nodes)"
proof (induction ps)
  case (Cons p ps)
  show ?case
  proof (cases "nd_guid p = []")
    case False
    hence "nd_guid p \<notin> nd_guid ` set ps" using Cons.prems by auto
    thus ?thesis using Cons False by (simp add: children_of_child child_of_insert)
  qed (use Cons in \<open>simp add: children_of_child\<close>)
qed simp


definition node0 :: node where
  "node0 = \<lparr>nd_id = 1, nd_name = ''a'', nd_scheme = ''https'', nd_address = ''a.com'', nd_port = 2053, nd_basePath = [],
     nd_guid = ''g1'', nd_parentGuid = [], nd_transitive = False, nd_enable = True, nd_status = ''online'', nd_xrayState = ''Running'',
     nd_xrayError = [], nd_lastError = [], nd_latencyMs = 20, nd_inboundCount = 2, nd_clientCount = 5, nd_onlineCount = 1,
     nd_depletedCount = 0\<rparr>"

definition sub_node :: "string \<Rightarrow> string \<Rightarrow> node" where
  "sub_node guid parent = node0\<lparr>nd_id := 0, nd_guid := guid, nd_parentGuid := parent, nd_transitive := True\<rparr>"

lemmas node_example = node0_def sub_node_def node_key_def children_of_def


text \<open>Two sub-nodes that report no identifier, below a node that is not in the list: only the first is shown.\<close>
lemma unnamed_sub_node_lost:
  "dataSource [node0, sub_node [] ''gone'', (sub_node [] ''gone'')\<lparr>nd_name := ''b''\<rparr>] = [node0, sub_node [] ''gone'']"
  by (simp add: dataSource_def node_example)

section \<open>Totals and versions\<close>

lemma math_round_mono: "p \<le> q \<Longrightarrow> math_round p \<le> math_round q"
  by (simp add: math_round_def floor_mono)

lemma math_round_int [simp]: "math_round (of_int i) = i"
  by (simp add: math_round_def) linarith

lemma sum_list_bounds:
  "(\<And>x. x \<in> set l \<Longrightarrow> lo \<le> x \<and> x \<le> hi) \<Longrightarrow> int (length l) * lo \<le> sum_list l \<and> sum_list l \<le> int (length l) * hi"
  by (induction l) (auto simp: algebra_simps, force+)

lemma rat_average:
  assumes "0 < k" "int k * lo \<le> s" "s \<le> int k * hi"
  shows "(of_int lo :: rat) \<le> of_int s / of_nat k" "of_int s / of_nat k \<le> (of_int hi :: rat)"
proof -
  have "(of_int (int k * lo) :: rat) \<le> of_int s" "(of_int s :: rat) \<le> of_int (int k * hi)" using assms(2,3) by (simp_all only: of_int_le_iff)
  hence "(of_nat k * of_int lo :: rat) \<le> of_int s" "(of_int s :: rat) \<le> of_nat k * of_int hi" by simp_all
  thus "(of_int lo :: rat) \<le> of_int s / of_nat k" "of_int s / of_nat k \<le> (of_int hi :: rat)"
    using assms(1) by (simp_all add: pos_le_divide_eq pos_divide_le_eq mult.commute)
qed

text \<open>The average latency of the nodes page lies between the least and the greatest latency of an online node that has one, and
  the counts of online and offline nodes never exceed the number of nodes.\<close>
theorem node_totals_bounds:
  assumes "\<And>m. m \<in> set nodes \<Longrightarrow> isUpdateEligible m \<Longrightarrow> 0 < nd_latencyMs m \<Longrightarrow> lo \<le> nd_latencyMs m \<and> nd_latencyMs m \<le> hi"
    and "n \<in> set nodes" "isUpdateEligible n" "0 < nd_latencyMs n"
  shows "lo \<le> tt_avgLatency (totals nodes) \<and> tt_avgLatency (totals nodes) \<le> hi
    \<and> tt_online (totals nodes) + tt_offline (totals nodes) \<le> tt_total (totals nodes)"
proof -
  let ?l = "latencies nodes"
  have len: "0 < length ?l" using assms(2-4) by (auto simp: latencies_def length_greater_0_conv filter_empty_conv)
  have "lo \<le> x \<and> x \<le> hi" if "x \<in> set ?l" for x using that assms(1) by (auto simp: latencies_def)
  note s = sum_list_bounds [of ?l lo hi, OF this]
  note r = rat_average [OF len conjunct1 [OF s] conjunct2 [OF s]]
  note m = math_round_mono [OF r(1), unfolded math_round_int] math_round_mono [OF r(2), unfolded math_round_int]
  have avg: "tt_avgLatency (totals nodes) = math_round (of_int (sum_list ?l) / of_nat (length ?l))"
    using len by (simp add: totals_def Let_def)
  have "length (filter isUpdateEligible ns) + length (filter (\<lambda>n. nd_enable n \<and> nd_status n = ''offline'') ns) \<le> length ns" for ns
    by (induction ns) (auto simp: isUpdateEligible_def)
  hence "tt_online (totals nodes) + tt_offline (totals nodes) \<le> tt_total (totals nodes)" by (simp add: totals_def)
  with m show ?thesis unfolding avg by blast
qed

theorem node_totals_bounds_witness:
  "tt_avgLatency (totals [node0, node0\<lparr>nd_latencyMs := 31\<rparr>, node0\<lparr>nd_status := ''offline''\<rparr>]) \<le> 31"
proof -
  let ?ns = "[node0, node0\<lparr>nd_latencyMs := 31\<rparr>, node0\<lparr>nd_status := ''offline''\<rparr>]"
  have "20 \<le> tt_avgLatency (totals ?ns) \<and> tt_avgLatency (totals ?ns) \<le> 31 \<and> tt_online (totals ?ns) + tt_offline (totals ?ns) \<le> tt_total (totals ?ns)"
    by (rule node_totals_bounds [where n = node0]) (auto simp: node0_def isUpdateEligible_def)
  thus ?thesis by simp
qed

lemma num_less_asym: "num_less a b \<Longrightarrow> \<not> num_less b a"
  by (cases a; cases b) auto

text \<open>No panel is told to update to its own version, and two panels with plain versions are not both told to take the
  version of the other.\<close>
lemma update_not_both:
  "\<not> isPanelUpdateAvailable v v"
  "parseVersionParts v \<noteq> None \<Longrightarrow> parseVersionParts w \<noteq> None \<Longrightarrow> isPanelUpdateAvailable v w \<Longrightarrow> \<not> isPanelUpdateAvailable w v"
proof -
  have irr: "\<not> num_less a a" for a using num_less_asym by blast
  show "\<not> isPanelUpdateAvailable v v" by (auto simp: isPanelUpdateAvailable_def irr split: option.splits)
  show "parseVersionParts v \<noteq> None \<Longrightarrow> parseVersionParts w \<noteq> None \<Longrightarrow> isPanelUpdateAvailable v w \<Longrightarrow> \<not> isPanelUpdateAvailable w v"
    by (auto simp: isPanelUpdateAvailable_def split: if_splits dest: num_less_asym)
qed

text \<open>A tag of four parts is compared as a text: the older one is announced as an update of the newer one.\<close>
lemma four_parts_both:
  "isPanelUpdateAvailable ''v2.8.10.1'' ''v2.9.0.0''"
  "isPanelUpdateAvailable ''v2.9.0.0'' ''v2.8.10.1''"
  by code_simp+

end
