(* ===== verification/Final_Masks.thy ===== *)
theory Final_Masks
  imports Host_Overrides Inbound_Roundtrip
begin

text \<open>
  The transport masks (\<open>frontend/src/lib/xray/forms/transport/FinalMaskForm.tsx\<close>), the form of the inbound,
  outbound and host dialogs and of the JSON subscription, and the two texts that hold them
  (\<open>pages/settings/SubJsonFinalMaskForm.tsx\<close>, \<open>pages/hosts/json-forms/HostFinalMaskForm.tsx\<close>). The form
  writes its values through \<open>form.setFieldValue\<close> with a path; list items are only written where one is
  shown, so the index is in range.
\<close>

section \<open>Paths\<close>

datatype path_step = Field string | Item nat

text \<open>\<open>getDeep\<close>; the paths of the form name no property of a list.\<close>

fun getDeep :: "jv \<Rightarrow> path_step list \<Rightarrow> jv" where
  "getDeep ob [] = ob"
| "getDeep (JObj ps) (Field k # path) = getDeep (oget ps k) path"
| "getDeep (JArr xs) (Item i # path) = (if i < length xs then getDeep (xs ! i) path else JUndef)"
| "getDeep (JObj ps) (Item i # path) = getDeep (oget ps (nat_str i)) path"
| "getDeep ob (step # path) = JUndef"

fun set_at :: "path_step list \<Rightarrow> jv \<Rightarrow> jv \<Rightarrow> jv" where
  "set_at [] v ob = v"
| "set_at (Field k # path) v ob =
     (let ps = (case ob of JObj ps \<Rightarrow> ps | _ \<Rightarrow> []) in JObj (oset k (set_at path v (oget ps k)) ps))"
| "set_at (Item i # path) v (JArr xs) = (if i < length xs then JArr (xs[i := set_at path v (xs ! i)]) else JArr xs)"
| "set_at (Item i # path) v ob = ob"

section \<open>Values a mask starts with\<close>

definition defaultTcpMaskSettings :: "string \<Rightarrow> jobj" where
  "defaultTcpMaskSettings type =
     (if type = ''fragment'' then [(''packets'', JStr ''1-3''), (''lengths'', JArr [JStr ''100-200'']), (''delays'', JArr []), (''maxSplit'', JStr [])]
      else if type = ''sudoku'' then
        [(''password'', JStr []), (''ascii'', JStr []), (''customTable'', JStr []), (''customTables'', JArr []),
         (''paddingMin'', JNum (num 0)), (''paddingMax'', JNum (num 0))]
      else if type = ''header-custom'' then [(''clients'', JArr []), (''servers'', JArr [])]
      else [])"

definition defaultUdpMaskSettings :: "string \<Rightarrow> jobj" where
  "defaultUdpMaskSettings type =
     (if type = ''salamander'' then [(''password'', JStr [])]
      else if type = ''mkcp-legacy'' then [(''header'', JStr []), (''value'', JStr [])]
      else if type = ''xdns'' then [(''domains'', JArr [])]
      else if type = ''xicmp'' then [(''dgram'', JBool False), (''ips'', JArr [])]
      else if type = ''realm'' then [(''url'', JStr []), (''stunServers'', JArr [])]
      else if type = ''header-custom'' then [(''client'', JArr []), (''server'', JArr [])]
      else if type = ''noise'' then [(''reset'', JNum (num 0)), (''noise'', JArr [])]
      else [])"

definition defaultUdpClientServerItem :: jobj where
  "defaultUdpClientServerItem = [(''rand'', JNum (num 0)), (''randRange'', JStr ''0-255''), (''type'', JStr ''array''), (''packet'', JArr [])]"

definition defaultClientServerItem :: jobj where
  "defaultClientServerItem =
     [(''delay'', JNum (num 0)), (''rand'', JNum (num 0)), (''randRange'', JStr ''0-255''), (''type'', JStr ''array''), (''packet'', JArr [])]"

definition defaultNoiseItem :: jobj where
  "defaultNoiseItem =
     [(''rand'', JStr ''1-8192''), (''randRange'', JStr ''0-255''), (''type'', JStr ''array''), (''packet'', JArr []), (''delay'', JStr ''10-20'')]"

definition defaultQuicParams :: jobj where
  "defaultQuicParams =
     [(''congestion'', JStr ''bbr''), (''debug'', JBool False), (''maxIdleTimeout'', JNum (num 30)), (''keepAlivePeriod'', JNum (num 10)),
      (''disablePathMTUDiscovery'', JBool False), (''maxIncomingStreams'', JNum (num 1024)),
      (''initStreamReceiveWindow'', JNum (num 8388608)), (''maxStreamReceiveWindow'', JNum (num 8388608)),
      (''initConnectionReceiveWindow'', JNum (num 20971520)), (''maxConnectionReceiveWindow'', JNum (num 20971520))]"

definition defaultUdpHop :: jobj where
  "defaultUdpHop = [(''ports'', JStr ''20000-50000''), (''interval'', JStr ''5-10'')]"

section \<open>Fragment masks of older versions\<close>

definition is_array :: "jv \<Rightarrow> bool" where
  "is_array v = (case v of JArr _ \<Rightarrow> True | _ \<Rightarrow> False)"

definition legacy_range :: "jv \<Rightarrow> bool" where
  "legacy_range v = (case v of JStr s \<Rightarrow> trim s \<noteq> [] | _ \<Rightarrow> False)"

definition has_field :: "string \<Rightarrow> jobj \<Rightarrow> bool" where
  "has_field k ps = (map_of ps k \<noteq> None)"

text \<open>One of the two pairs: the legacy key \<open>old\<close> becomes a list under \<open>new\<close> and is deleted.\<close>

definition lift_range :: "string \<Rightarrow> string \<Rightarrow> jobj \<Rightarrow> jobj" where
  "lift_range old new st =
     odel old (if \<not> is_array (oget st new) \<and> legacy_range (oget st old) then oset new (JArr [oget st old]) st else st)"

definition migrateFragmentSettings :: "jobj \<Rightarrow> jobj \<times> bool" where
  "migrateFragmentSettings settings =
     (let out = lift_range ''length'' ''lengths'' settings
      in (lift_range ''delay'' ''delays'' out, has_field ''length'' settings \<or> has_field ''delay'' out))"

definition migrate_mask :: "jv \<Rightarrow> jv \<times> bool" where
  "migrate_mask v =
     (case v of
        JObj m \<Rightarrow>
          if oget m ''type'' = JStr ''fragment'' then
            (case oget m ''settings'' of
               JObj st \<Rightarrow> let (migrated, changed) = migrateFragmentSettings st in
                 if changed then (JObj (oset ''settings'' (JObj migrated) m), True) else (v, False)
             | _ \<Rightarrow> (v, False))
          else (v, False)
      | _ \<Rightarrow> (v, False))"

text \<open>The effect at mount, on the block of masks.\<close>

definition migrate_masks :: "jv \<Rightarrow> jv" where
  "migrate_masks fm =
     (case getDeep fm [Field ''tcp''] of
        JArr xs \<Rightarrow> let ys = map migrate_mask xs in
          if list_ex snd ys then set_at [Field ''tcp''] (JArr (map fst ys)) fm else fm
      | _ \<Rightarrow> fm)"

section \<open>The two texts\<close>

fun hasValue :: "jv \<Rightarrow> bool" where
  "hasValue JUndef = False"
| "hasValue JNull = False"
| "hasValue (JArr xs) = list_ex hasValue xs"
| "hasValue (JObj ps) = list_ex (\<lambda>p. hasValue (snd p)) ps"
| "hasValue (JStr s) = (s \<noteq> [])"
| "hasValue v = True"

definition NO_MASKS :: jv where
  "NO_MASKS = JObj [(''tcp'', JArr []), (''udp'', JArr [])]"

definition parseFinalMask :: "string \<Rightarrow> jv" where
  "parseFinalMask raw = (if raw = [] then NO_MASKS else case JSON_parse raw of Some v \<Rightarrow> v | None \<Rightarrow> NO_MASKS)"

definition masks_text :: "jv \<Rightarrow> string" where
  "masks_text fm = (if hasValue fm then (case JSON_stringify fm of Some t \<Rightarrow> t | None \<Rightarrow> []) else [])"

text \<open>What the form holds once it is mounted on a text, and what the effect then reports.\<close>

definition mounted :: "string \<Rightarrow> jv" where
  "mounted value = migrate_masks (parseFinalMask value)"

definition masks_reported :: "string \<Rightarrow> jv \<Rightarrow> string option" where
  "masks_reported value fm = (let t = masks_text fm in if t \<noteq> value then Some t else None)"

section \<open>Editing\<close>

record mask_sections =
  show_tcp :: bool
  show_udp :: bool
  show_quic :: bool

definition TCP_NETWORKS :: "string list" where
  "TCP_NETWORKS = [''raw'', ''tcp'', ''httpupgrade'', ''ws'', ''grpc'', ''xhttp'']"

definition sections_shown :: "string \<Rightarrow> string \<Rightarrow> bool \<Rightarrow> mask_sections" where
  "sections_shown network protocol showAll =
     (let isHysteria = (protocol = ''hysteria''); isWireguard = (protocol = ''wireguard'') in
      \<lparr>show_tcp = (showAll \<or> (\<not> isWireguard \<and> network \<in> set TCP_NETWORKS)),
       show_udp = (showAll \<or> isHysteria \<or> isWireguard \<or> network = ''kcp''),
       show_quic = (showAll \<or> isHysteria \<or> network = ''xhttp'')\<rparr>)"

definition udp_options :: "bool \<Rightarrow> bool \<Rightarrow> string list" where
  "udp_options isHysteria isWireguard =
     (if isHysteria then [''salamander'']
      else (if isWireguard then [''salamander''] else []) @ [''mkcp-legacy'', ''xdns'', ''xicmp'', ''realm'', ''header-custom'', ''noise''])"

definition new_udp_mask :: "bool \<Rightarrow> bool \<Rightarrow> jobj" where
  "new_udp_mask isHysteria isWireguard =
     (let def = (if isHysteria \<or> isWireguard then ''salamander'' else ''mkcp-legacy'')
      in [(''type'', JStr def), (''settings'', JObj (defaultUdpMaskSettings def))])"

definition new_tcp_mask :: jobj where
  "new_tcp_mask = [(''type'', JStr ''fragment''), (''settings'', JObj (defaultTcpMaskSettings ''fragment''))]"

text \<open>A choice in the type field: the field is written, then its handler runs.\<close>

definition tcp_type_change :: "path_step list \<Rightarrow> nat \<Rightarrow> string \<Rightarrow> jv \<Rightarrow> jv" where
  "tcp_type_change base i v form =
     (let absolutePath = base @ [Field ''tcp'', Item i]
      in set_at (absolutePath @ [Field ''settings'']) (JObj (defaultTcpMaskSettings v)) (set_at (absolutePath @ [Field ''type'']) (JStr v) form))"

definition udp_type_change :: "string \<Rightarrow> path_step list \<Rightarrow> nat \<Rightarrow> string \<Rightarrow> jv \<Rightarrow> jv" where
  "udp_type_change network base i v form =
     (let listPath = base @ [Field ''udp'']; absolutePath = listPath @ [Item i];
          form = set_at (absolutePath @ [Field ''type'']) (JStr v) form;
          form = set_at (absolutePath @ [Field ''settings'']) (JObj (defaultUdpMaskSettings v)) form
      in if network = ''kcp'' then
           set_at (butlast listPath @ [Field ''kcpSettings'', Field ''mtu'']) (JNum (num (if v = ''xdns'' then 900 else 1350))) form
         else form)"

definition item_type_change :: "bool \<Rightarrow> string \<Rightarrow> path_step list \<Rightarrow> string \<Rightarrow> jv \<Rightarrow> jv" where
  "item_type_change string_delay random path v form =
     (let form = set_at (path @ [Field ''type'']) (JStr v) form in
      if v = ''base64'' then set_at (path @ [Field ''packet'']) (JStr random) form
      else if v = ''array'' then
        set_at (path @ [Field ''packet'']) (JArr []) (set_at (path @ [Field ''rand'']) (if string_delay then JStr ''1-8192'' else JNum (num 0)) form)
      else set_at (path @ [Field ''packet'']) (JStr []) form)"

definition quic_toggle :: "path_step list \<Rightarrow> bool \<Rightarrow> jv \<Rightarrow> jv" where
  "quic_toggle base on form = set_at (base @ [Field ''quicParams'']) (if on then JObj defaultQuicParams else JUndef) form"

definition hop_toggle :: "path_step list \<Rightarrow> bool \<Rightarrow> jv \<Rightarrow> jv" where
  "hop_toggle base on form = set_at (base @ [Field ''udpHop'']) (if on then JObj defaultUdpHop else JUndef) form"

section \<open>Texts of the fields\<close>

text \<open>\<open>typeof value === 'string' ? value.trim() : String(value ?? '').trim()\<close>.\<close>

definition field_text :: "jv \<Rightarrow> string" where
  "field_text value = trim (if nullish value then [] else js_String value)"

definition digits :: "string \<Rightarrow> bool" where
  "digits s \<longleftrightarrow> s \<noteq> [] \<and> list_all is_digit s"

definition range_digits :: "string \<Rightarrow> (string \<times> string) option" where
  "range_digits s = (case split_on CHR ''-'' s of [a, b] \<Rightarrow> if digits a \<and> digits b then Some (a, b) else None | _ \<Rightarrow> None)"

text \<open>A number of more than 2^53 - 1 is not safe, and is above the greatest size anyway.\<close>

definition parseGeckoPacketSize :: "jv \<Rightarrow> (nat \<times> nat) option" where
  "parseGeckoPacketSize value =
     (case range_digits (field_text value) of
        None \<Rightarrow> None
      | Some (a, b) \<Rightarrow>
          let min = digits_val 10 a; max = digits_val 10 b in
          if min \<ge> 2 ^ 53 \<or> max \<ge> 2 ^ 53 \<or> min < 1 \<or> max < min \<or> max > 2048 then None else Some (min, max))"

definition formatGeckoPacketSize :: "nat \<Rightarrow> nat \<Rightarrow> string" where
  "formatGeckoPacketSize lo hi = nat_str lo @ CHR ''-'' # nat_str hi"

definition splitGeckoPacketSize :: "jv \<Rightarrow> jsnum option \<times> jsnum option" where
  "splitGeckoPacketSize value =
     (let parts = split_on CHR ''-'' (field_text value);
          num_of = (\<lambda>s. if digits s then Some (js_number s) else None)
      in (num_of (hd parts), num_of (if length parts > 1 then parts ! 1 else [])))"

definition shown_size :: "jsnum option \<Rightarrow> string" where
  "shown_size n = (case n of None \<Rightarrow> [] | Some m \<Rightarrow> num_str m)"

definition gecko_min_typed :: "jsnum option \<Rightarrow> jv \<Rightarrow> jv" where
  "gecko_min_typed n value = JStr (shown_size n @ CHR ''-'' # shown_size (snd (splitGeckoPacketSize value)))"

definition gecko_max_typed :: "jsnum option \<Rightarrow> jv \<Rightarrow> jv" where
  "gecko_max_typed n value = JStr (shown_size (fst (splitGeckoPacketSize value)) @ CHR ''-'' # shown_size n)"

definition gecko_mode :: "jv \<Rightarrow> bool" where
  "gecko_mode packetSize = (case packetSize of JStr s \<Rightarrow> trim s \<noteq> [] | _ \<Rightarrow> False)"

definition gecko_mode_change :: "bool \<Rightarrow> jv \<Rightarrow> jv" where
  "gecko_mode_change gecko current =
     (if gecko then (if parseGeckoPacketSize current \<noteq> None then current else JStr (formatGeckoPacketSize 512 1200)) else JUndef)"

definition validateFragmentPackets :: "jv \<Rightarrow> bool" where
  "validateFragmentPackets value = (let s = field_text value in s = [] \<or> s = ''tlshello'' \<or> range_digits s \<noteq> None)"

definition validateFragmentLength :: "jv \<Rightarrow> bool" where
  "validateFragmentLength value =
     (let s = field_text value; min = js_number (hd (split_on CHR ''-'' s)) in s \<noteq> [] \<and> is_finite min \<and> num_less (num 0) min)"

definition validateFragmentDelayEntry :: "jv \<Rightarrow> bool" where
  "validateFragmentDelayEntry value = (let s = field_text value in digits s \<or> range_digits s \<noteq> None)"

definition rand_bounds :: "string \<Rightarrow> (nat \<times> nat) option" where
  "rand_bounds s =
     (case split_on CHR ''-'' s of
        [a] \<Rightarrow> if digits a \<and> length a \<le> 3 then Some (digits_val 10 a, digits_val 10 a) else None
      | [a, b] \<Rightarrow> if digits a \<and> length a \<le> 3 \<and> digits b \<and> length b \<le> 3 then Some (digits_val 10 a, digits_val 10 b) else None
      | _ \<Rightarrow> None)"

definition validateRandRange :: "jv \<Rightarrow> bool" where
  "validateRandRange value =
     (let s = field_text value in
      s = [] \<or> (case rand_bounds s of None \<Rightarrow> False | Some (from, to) \<Rightarrow> from \<le> 255 \<and> to \<le> 255))"

definition rand_range_typed :: "jv \<Rightarrow> jv" where
  "rand_range_typed v = (if v = JStr [] then JUndef else v)"

section \<open>Migration\<close>

lemma oget_lift:
  "old \<noteq> new \<Longrightarrow> oget (lift_range old new st) k =
    (if k = old then JUndef
     else if k = new \<and> \<not> is_array (oget st new) \<and> legacy_range (oget st old) then JArr [oget st old] else oget st k)"
  by (simp add: lift_range_def)

lemma has_field_delete [simp]: "has_field k (odel j ps) \<longleftrightarrow> k \<noteq> j \<and> has_field k ps"
  by (simp add: has_field_def delete_conv')

lemma has_field_set [simp]: "has_field k (oset j v ps) \<longleftrightarrow> k = j \<or> has_field k ps"
  by (simp add: has_field_def update_conv')

lemma has_field_lift: "old \<noteq> new \<Longrightarrow> k \<noteq> new \<Longrightarrow> has_field k (lift_range old new st) \<longleftrightarrow> k \<noteq> old \<and> has_field k st"
  by (simp add: lift_range_def)

lemma migrated_fields [simp]:
  "\<not> has_field ''length'' (fst (migrateFragmentSettings st))"
  "\<not> has_field ''delay'' (fst (migrateFragmentSettings st))"
  by (simp_all add: migrateFragmentSettings_def Let_def has_field_lift)

lemma lift_unchanged: "\<not> has_field old st \<Longrightarrow> lift_range old new st = st"
proof -
  assume "\<not> has_field old st"
  hence "map_of st old = None" by (simp add: has_field_def)
  hence "oget st old = JUndef" "odel old st = st" by (simp_all add: oget_def) (simp add: delete_idem map_of_eq_None_iff)
  thus ?thesis by (simp add: lift_range_def legacy_range_def)
qed

lemma migrated_unchanged: "\<not> has_field ''length'' st \<Longrightarrow> \<not> has_field ''delay'' st \<Longrightarrow> migrateFragmentSettings st = (st, False)"
  by (simp add: migrateFragmentSettings_def lift_unchanged)

text \<open>A mask that was migrated is not migrated again, and neither is one that was left as it is.\<close>

lemma migrate_mask_settled: "migrate_mask (fst (migrate_mask v)) = (fst (migrate_mask v), False)"
proof -
  have "migrateFragmentSettings (fst (migrateFragmentSettings st)) = (fst (migrateFragmentSettings st), False)" for st
    by (rule migrated_unchanged) simp_all
  thus ?thesis by (auto simp: migrate_mask_def split: jv.splits prod.splits if_splits) (metis fst_conv snd_conv)+
qed

lemma migrate_masks_settled: "migrate_masks (migrate_masks fm) = migrate_masks fm"
  by (auto simp: migrate_masks_def Let_def list_ex_iff migrate_mask_settled split: jv.splits)

text \<open>The migration of a fragment mask makes a list of every range that has none yet, leaves no key of the old form and
  touches no other setting; the migrated block is not changed by a second visit.\<close>
theorem fragment_masks_migrated:
  "migrate_masks (migrate_masks fm) = migrate_masks fm
   \<and> (let st' = fst (migrateFragmentSettings st) in
        \<not> has_field ''length'' st' \<and> \<not> has_field ''delay'' st'
        \<and> oget st' ''lengths'' =
           (if \<not> is_array (oget st ''lengths'') \<and> legacy_range (oget st ''length'') then JArr [oget st ''length''] else oget st ''lengths'')
        \<and> oget st' ''delays'' =
           (if \<not> is_array (oget st ''delays'') \<and> legacy_range (oget st ''delay'') then JArr [oget st ''delay''] else oget st ''delays'')
        \<and> oget st' ''packets'' = oget st ''packets'' \<and> oget st' ''maxSplit'' = oget st ''maxSplit'')"
  by (simp add: migrate_masks_settled Let_def) (simp add: migrateFragmentSettings_def Let_def oget_lift)

text \<open>A range that is stored as a number, as Xray also reads it, is deleted without becoming an item.\<close>
lemma numeric_length_lost:
  "fst (migrateFragmentSettings [(''packets'', JStr ''tlshello''), (''length'', JNum (num 100))]) = [(''packets'', JStr ''tlshello'')]"
  by (simp add: migrateFragmentSettings_def lift_range_def Let_def is_array_def legacy_range_def oget_def)

section \<open>The texts settle\<close>

lemma wf_json_obj_oset: "wf_json (JObj ps) \<Longrightarrow> wf_json v \<Longrightarrow> \<not> is_array_index k \<Longrightarrow> wf_json (JObj (oset k v ps))"
  using set_oset [of k v ps] by fastforce

lemma wf_json_obj_odel: "wf_json (JObj ps) \<Longrightarrow> wf_json (JObj (odel k ps))"
  by (auto simp: AList.delete_eq wf_odel [unfolded AList.delete_eq])

lemma wf_json_oget: "wf_json (JObj ps) \<Longrightarrow> oget ps k \<noteq> JUndef \<Longrightarrow> wf_json (oget ps k)"
proof -
  assume ps: "wf_json (JObj ps)" and "oget ps k \<noteq> JUndef"
  then obtain v where "map_of ps k = Some v" "oget ps k = v" by (auto simp: oget_def split: option.splits)
  thus ?thesis using ps by (auto dest!: map_of_SomeD)
qed

lemma key_names [simp]:
  "\<not> is_array_index ''lengths''" "\<not> is_array_index ''delays''" "\<not> is_array_index ''settings''" "\<not> is_array_index ''tcp''"
  by code_simp+

lemma wf_lift: "wf_json (JObj st) \<Longrightarrow> \<not> is_array_index new \<Longrightarrow> wf_json (JObj (lift_range old new st))"
  unfolding lift_range_def using wf_json_oget [of st old]
  by (auto intro!: wf_json_obj_odel wf_json_obj_oset simp: legacy_range_def simp del: wf_json.simps(7) split: jv.splits)

lemma wf_migrate_mask: "wf_json v \<Longrightarrow> wf_json (fst (migrate_mask v))"
proof -
  assume v: "wf_json v"
  show ?thesis
  proof (cases "snd (migrate_mask v)")
    case True
    then obtain m st where m: "v = JObj m" "oget m ''settings'' = JObj st"
      "fst (migrate_mask v) = JObj (oset ''settings'' (JObj (fst (migrateFragmentSettings st))) m)"
      by (auto simp: migrate_mask_def split: jv.splits prod.splits if_splits)
    have "wf_json (JObj st)" using wf_json_oget [of m "''settings''"] v m by simp
    hence "wf_json (JObj (fst (migrateFragmentSettings st)))" by (simp add: migrateFragmentSettings_def Let_def wf_lift del: wf_json.simps)
    thus ?thesis using v m wf_json_obj_oset [of m _ "''settings''"] by (simp del: wf_json.simps)
  qed (use v in \<open>auto simp: migrate_mask_def split: jv.splits prod.splits if_splits\<close>)
qed

lemma wf_migrate_masks: "wf_json fm \<Longrightarrow> wf_json (migrate_masks fm)"
proof (cases fm)
  case (JObj ps)
  assume fm: "wf_json fm"
  show ?thesis
  proof (cases "oget ps ''tcp''")
    case (JArr xs)
    have "wf_json (JArr xs)" using wf_json_oget [of ps "''tcp''"] fm \<open>fm = JObj ps\<close> JArr by simp
    hence "wf_json (JArr (map (\<lambda>x. fst (migrate_mask x)) xs))" by (simp add: wf_migrate_mask)
    hence "wf_json (JObj (oset ''tcp'' (JArr (map (\<lambda>x. fst (migrate_mask x)) xs)) ps))"
      using fm JObj by (intro wf_json_obj_oset) simp_all
    thus ?thesis using fm JObj JArr by (simp add: migrate_masks_def Let_def comp_def del: wf_json.simps)
  qed (use fm JObj in \<open>simp_all add: migrate_masks_def del: wf_json.simps\<close>)
qed (simp_all add: migrate_masks_def)

lemma parse_no_text: "JSON_parse [] = None"
  by (simp add: JSON_parse_def skip_ws_def)

lemma no_masks_migrated: "migrate_masks NO_MASKS = NO_MASKS"
  by (simp add: migrate_masks_def NO_MASKS_def oget_def)

lemma no_masks_text: "\<not> hasValue NO_MASKS"
  by (simp add: NO_MASKS_def)


definition sample_masks :: jv where
  "sample_masks = JObj [(''tcp'', JArr [JObj [(''type'', JStr ''fragment''), (''settings'', JObj [(''length'', JStr ''5-9'')])]]), (''udp'', JArr [])]"


section \<open>Changing the type of a mask\<close>

fun obj_of :: "jv \<Rightarrow> jobj" where
  "obj_of (JObj ps) = ps"
| "obj_of v = []"

fun reachable :: "path_step list \<Rightarrow> jv \<Rightarrow> bool" where
  "reachable [] ob = True"
| "reachable (Field k # path) ob = ((nullish ob \<or> (\<exists>ps. ob = JObj ps)) \<and> reachable path (oget (obj_of ob) k))"
| "reachable (Item i # path) ob = (case ob of JArr xs \<Rightarrow> i < length xs \<and> reachable path (xs ! i) | _ \<Rightarrow> False)"

text \<open>Two paths that part at a step: other fields of an object, or other items of a list.\<close>

fun apart :: "path_step list \<Rightarrow> path_step list \<Rightarrow> bool" where
  "apart (Field j # p) (Field k # q) = (j \<noteq> k \<or> apart p q)"
| "apart (Item i # p) (Item j # q) = (i \<noteq> j \<or> apart p q)"
| "apart _ _ = False"

lemma get_undefined [simp]: "getDeep JUndef path = JUndef"
  by (cases path) auto

lemma oget_empty [simp]: "oget [] k = JUndef"
  by (simp add: oget_def)

lemma get_field: "nullish ob \<or> (\<exists>ps. ob = JObj ps) \<Longrightarrow> getDeep ob (Field k # path) = getDeep (oget (obj_of ob) k) path"
  by (cases ob) (auto simp: nullish_def)

lemma set_field: "set_at (Field k # path) v ob = JObj (oset k (set_at path v (oget (obj_of ob) k)) (obj_of ob))"
  by (cases ob) (simp_all add: Let_def)

declare set_at.simps(2) [simp del]

lemma get_set_same: "reachable p ob \<Longrightarrow> getDeep (set_at p v ob) p = v"
proof (induction p arbitrary: ob)
  case (Cons s p)
  thus ?case by (cases s) (auto simp: set_field split: jv.splits)
qed simp

lemma apart_cons:
  assumes "apart (s # p) q"
  obtains r where "q = s # r" "apart p r" | k j r where "s = Field k" "q = Field j # r" "j \<noteq> k"
    | i j r where "s = Item i" "q = Item j # r" "j \<noteq> i"
  using assms by (cases "(s # p, q)" rule: apart.cases) auto

lemma get_set_apart: "reachable p ob \<Longrightarrow> apart p q \<Longrightarrow> getDeep (set_at p v ob) q = getDeep ob q"
proof (induction p arbitrary: ob q)
  case (Cons s p)
  from Cons.prems(2) show ?case
  proof (cases rule: apart_cons)
    case (1 r)
    thus ?thesis using Cons by (cases s) (auto simp: set_field get_field split: jv.splits)
  next
    case (2 k j r)
    thus ?thesis using Cons.prems(1) by (simp add: set_field get_field)
  next
    case (3 i j r)
    thus ?thesis using Cons.prems(1) by (auto split: jv.splits)
  qed
qed simp

lemma reachable_set: "reachable p ob \<Longrightarrow> reachable q ob \<Longrightarrow> apart p q \<Longrightarrow> reachable q (set_at p v ob)"
proof (induction p arbitrary: ob q)
  case (Cons s p)
  from Cons.prems(3) show ?case
  proof (cases rule: apart_cons)
    case (1 r)
    thus ?thesis using Cons by (cases s) (auto simp: set_field split: jv.splits)
  next
    case (2 k j r)
    thus ?thesis using Cons.prems(1,2) by (simp add: set_field)
  next
    case (3 i j r)
    thus ?thesis using Cons.prems(1,2) by (auto split: jv.splits)
  qed
qed simp

text \<open>Several fields are written one after the other at paths that part from each other.\<close>

locale form_store =
  fixes get :: "'s \<Rightarrow> 'p \<Rightarrow> 's" and put :: "'p \<Rightarrow> 's \<Rightarrow> 's \<Rightarrow> 's"
    and ok :: "'p \<Rightarrow> 's \<Rightarrow> bool" and parted :: "'p \<Rightarrow> 'p \<Rightarrow> bool"
  assumes get_put: "ok p s \<Longrightarrow> get (put p v s) p = v"
    and get_other: "ok p s \<Longrightarrow> parted p q \<Longrightarrow> get (put p v s) q = get s q"
    and ok_put: "ok p s \<Longrightarrow> ok q s \<Longrightarrow> parted p q \<Longrightarrow> ok q (put p v s)"
begin

lemma writes_other:
  "sorted_wrt (\<lambda>w x. parted (fst w) (fst x)) ws \<Longrightarrow> (\<And>w. w \<in> set ws \<Longrightarrow> ok (fst w) s \<and> parted (fst w) q)
   \<Longrightarrow> get (fold (\<lambda>(p, v). put p v) ws s) q = get s q"
proof (induction ws arbitrary: s)
  case (Cons w ws)
  obtain r u where w: "w = (r, u)" by (cases w)
  have "ok r s" "parted r q" using Cons.prems(2) [of w] w by auto
  moreover have "ok (fst x) (put r u s) \<and> parted (fst x) q" if "x \<in> set ws" for x
    using Cons.prems(2) [of x] Cons.prems(1) \<open>ok r s\<close> w that by (auto intro: ok_put)
  ultimately show ?case using Cons.IH [of "put r u s"] Cons.prems(1) w by (simp add: get_other)
qed simp

lemma writes_read:
  "sorted_wrt (\<lambda>w x. parted (fst w) (fst x) \<and> parted (fst x) (fst w)) ws \<Longrightarrow> (\<And>w. w \<in> set ws \<Longrightarrow> ok (fst w) s)
   \<Longrightarrow> (p, v) \<in> set ws \<Longrightarrow> get (fold (\<lambda>(p, v). put p v) ws s) p = v"
proof (induction ws arbitrary: s)
  case (Cons w ws)
  obtain r u where w: "w = (r, u)" by (cases w)
  have ok: "ok (fst x) (put r u s)" if "x \<in> set ws" for x using Cons.prems(2) [of w] Cons.prems(2) [of x] Cons.prems(1) w that by (auto intro: ok_put)
  show ?case
  proof (cases "(p, v) \<in> set ws")
    case True
    thus ?thesis using Cons ok w by simp
  next
    case False
    hence pv: "p = r" "v = u" using Cons.prems(3) w by auto
    have "get (fold (\<lambda>(p, v). put p v) ws (put r u s)) r = get (put r u s) r"
    proof (rule writes_other)
      show "sorted_wrt (\<lambda>w x. parted (fst w) (fst x)) ws" using Cons.prems(1) by (auto elim: sorted_wrt_mono_rel [rotated])
    qed (use Cons.prems(1) w ok in auto)
    thus ?thesis using Cons.prems(2) [of w] w pv by (simp add: get_put)
  qed
qed simp

end

interpretation masks: form_store getDeep set_at reachable apart
  by unfold_locales (rule get_set_same get_set_apart reachable_set; assumption)+

lemma apart_prefix [simp]: "apart (p @ q) (p @ r) = apart q r"
proof (induction p)
  case (Cons s p)
  thus ?case by (cases s) auto
qed simp

lemma apart_extend: "apart p q \<Longrightarrow> apart (p @ r) q"
  by (induction p q rule: apart.induct) auto

lemma reachable_sibling: "reachable (p @ [Field j]) ob = reachable (p @ [Field k]) ob"
proof (induction p arbitrary: ob)
  case (Cons s p)
  show ?case using Cons.IH by (cases s) (auto split: jv.splits)
qed simp

definition udp_writes :: "string \<Rightarrow> path_step list \<Rightarrow> nat \<Rightarrow> string \<Rightarrow> (path_step list \<times> jv) list" where
  "udp_writes network base i v =
     [(base @ [Field ''udp'', Item i, Field ''type''], JStr v),
      (base @ [Field ''udp'', Item i, Field ''settings''], JObj (defaultUdpMaskSettings v))]
     @ (if network = ''kcp'' then [(base @ [Field ''kcpSettings'', Field ''mtu''], JNum (num (if v = ''xdns'' then 900 else 1350)))] else [])"

lemma udp_type_writes: "udp_type_change network base i v form = fold (\<lambda>(p, v). set_at p v) (udp_writes network base i v) form"
  by (simp add: udp_type_change_def udp_writes_def Let_def butlast_append)


definition kcp_form :: jv where
  "kcp_form = JObj [(''streamSettings'', JObj [(''kcpSettings'', JObj [(''mtu'', JNum (num 1350))]),
     (''finalmask'', JObj [(''udp'', JArr [JObj (new_udp_mask False False)])])])]"

abbreviation stream_masks :: "path_step list" where
  "stream_masks \<equiv> [Field ''streamSettings'', Field ''finalmask'']"

lemmas mask_examples = kcp_form_def new_udp_mask_def Let_def oget_def


text \<open>Choosing xDNS on an mKCP inbound writes the smaller MTU below the masks, where nothing reads it; the MTU of the
  transport stays.\<close>
lemma xdns_mtu_misplaced:
  "getDeep (udp_type_change ''kcp'' stream_masks 0 ''xdns'' kcp_form) [Field ''streamSettings'', Field ''kcpSettings'', Field ''mtu''] = JNum (num 1350)"
  "getDeep (udp_type_change ''kcp'' stream_masks 0 ''xdns'' kcp_form) (stream_masks @ [Field ''kcpSettings'', Field ''mtu'']) = JNum (num 900)"
  by (simp_all add: udp_type_writes udp_writes_def set_field mask_examples)

section \<open>Packet sizes\<close>

lemma digits_nat [simp]: "digits (nat_str n)"
  using nat_str_digits by (auto simp: digits_def list_all_iff)

lemma range_no_dash: "digits s \<Longrightarrow> CHR ''-'' \<notin> set s"
  by (auto simp: digits_def list_all_iff is_digit_def)

lemma range_parts: "digits a \<Longrightarrow> digits b \<Longrightarrow> split_on CHR ''-'' (a @ CHR ''-'' # b) = [a, b]"
  by (simp add: split_on_append_sep split_on_no_sep range_no_dash)

lemma field_text_range: "digits a \<Longrightarrow> digits b \<Longrightarrow> field_text (JStr (a @ CHR ''-'' # b)) = a @ CHR ''-'' # b"
proof -
  assume "digits a" "digits b"
  hence "\<forall>c \<in> set (a @ CHR ''-'' # b). \<not> is_space c"
    using digit_not_space by (auto simp: digits_def list_all_iff) (simp add: is_space_def)
  from trim_no_space [OF this] show ?thesis by (simp add: field_text_def nullish_def)
qed

lemma parse_gecko_range:
  "digits a \<Longrightarrow> digits b \<Longrightarrow> 1 \<le> digits_val 10 a \<Longrightarrow> digits_val 10 a \<le> digits_val 10 b \<Longrightarrow> digits_val 10 b \<le> 2048
   \<Longrightarrow> parseGeckoPacketSize (JStr (a @ CHR ''-'' # b)) = Some (digits_val 10 a, digits_val 10 b)"
  by (simp add: parseGeckoPacketSize_def range_digits_def field_text_range range_parts Let_def)

lemma gecko_accepted:
  assumes "parseGeckoPacketSize v = Some (lo, hi)"
  shows "1 \<le> lo \<and> lo \<le> hi \<and> hi \<le> 2048 \<and> splitGeckoPacketSize v = (Some (num (int lo)), Some (num (int hi)))"
proof -
  obtain a b where ab: "split_on CHR ''-'' (field_text v) = [a, b]" "digits a" "digits b" "lo = digits_val 10 a" "hi = digits_val 10 b"
    and bounds: "1 \<le> lo" "lo \<le> hi" "hi \<le> 2048"
    using assms by (auto simp: parseGeckoPacketSize_def range_digits_def Let_def split: option.splits list.splits if_splits)
  have "js_number a = num (int lo)" "js_number b = num (int hi)"
    using ab bounds js_number_digits [of a] js_number_digits [of b] by (simp_all add: digits_def list_all_iff to_num_nat)
  thus ?thesis using ab bounds by (simp add: splitGeckoPacketSize_def Let_def)
qed

text \<open>A packet size that the form accepts lies between 1 and 2048 with the smaller end first; choosing the Gecko mode always
  leaves an accepted size, and typing another end between the bounds gives the size with that end.\<close>
theorem gecko_sizes_in_range:
  assumes "parseGeckoPacketSize v = Some (lo, hi)"
  shows "1 \<le> lo \<and> lo \<le> hi \<and> hi \<le> 2048
    \<and> parseGeckoPacketSize (gecko_mode_change True w) \<noteq> None
    \<and> (1 \<le> n \<and> n \<le> hi \<longrightarrow> parseGeckoPacketSize (gecko_min_typed (Some (num (int n))) v) = Some (n, hi))
    \<and> (lo \<le> m \<and> m \<le> 2048 \<longrightarrow> parseGeckoPacketSize (gecko_max_typed (Some (num (int m))) v) = Some (lo, m))"
proof (intro conjI impI)
  note a = gecko_accepted [OF assms]
  show "1 \<le> lo" "lo \<le> hi" "hi \<le> 2048" using a by simp_all
  show "parseGeckoPacketSize (gecko_mode_change True w) \<noteq> None"
    using parse_gecko_range [of "nat_str 512" "nat_str 1200"] by (simp add: gecko_mode_change_def formatGeckoPacketSize_def)
  show "parseGeckoPacketSize (gecko_min_typed (Some (num (int n))) v) = Some (n, hi)" if "1 \<le> n \<and> n \<le> hi"
    using parse_gecko_range [of "nat_str n" "nat_str hi"] that a by (simp add: gecko_min_typed_def shown_size_def num_str_nat)
  show "parseGeckoPacketSize (gecko_max_typed (Some (num (int m))) v) = Some (lo, m)" if "lo \<le> m \<and> m \<le> 2048"
    using parse_gecko_range [of "nat_str lo" "nat_str m"] that a by (simp add: gecko_max_typed_def shown_size_def num_str_nat)
qed

theorem gecko_sizes_in_range_witness:
  "parseGeckoPacketSize (gecko_min_typed (Some (num (int 600))) (JStr (formatGeckoPacketSize 512 1200))) = Some (600, 1200)"
proof -
  have "parseGeckoPacketSize (JStr (formatGeckoPacketSize 512 1200)) = Some (512, 1200)"
    using parse_gecko_range [of "nat_str 512" "nat_str 1200"] by (simp add: formatGeckoPacketSize_def)
  from gecko_sizes_in_range [OF this, of JUndef 600 1200] show ?thesis by simp
qed

end
