(* ===== verification/Usage_Display.thy ===== *)
theory Usage_Display
  imports Sub_Branding Json_Text "HOL-Library.Monad_Syntax"
begin

text \<open>
  How sizes, times, quotas, log lines and remarks are shown: the formatters and colours of
  \<open>frontend/src/utils/index.ts\<close>, \<open>lib/clients\<close>, \<open>lib/remark/remarkVariables.ts\<close>, the percentages of
  \<open>models/status.ts\<close> and the log viewer's parser \<open>pages/index/logParse.ts\<close>.
\<close>

section \<open>Numbers with a fixed count of decimals\<close>

definition pad_zeros :: "nat \<Rightarrow> string \<Rightarrow> string" where
  "pad_zeros n s = replicate (n - length s) CHR ''0'' @ s"

text \<open>\<open>x.toFixed(f)\<close>: the nearest multiple of the last decimal, the greater of two.\<close>

definition to_fixed :: "nat \<Rightarrow> rat \<Rightarrow> string" where
  "to_fixed f x =
     (let m = pad_zeros (f + 1) (nat_str (nat \<lfloor>\<bar>x\<bar> * 10 ^ f + 1 / 2\<rfloor>)); k = length m - f
      in (if x < 0 then ''-'' else []) @ (if f = 0 then m else take k m @ CHR ''.'' # drop k m))"

definition ONE_KB :: rat where "ONE_KB = 1024"
definition ONE_MB :: rat where "ONE_MB = ONE_KB * 1024"
definition ONE_GB :: rat where "ONE_GB = ONE_MB * 1024"
definition ONE_TB :: rat where "ONE_TB = ONE_GB * 1024"
definition ONE_PB :: rat where "ONE_PB = ONE_TB * 1024"

text \<open>\<^term>\<open>None\<close> is null or undefined.\<close>

definition sizeFormat :: "jsnum option \<Rightarrow> string" where
  "sizeFormat n =
     (case n of
        Some (Fin q) \<Rightarrow>
          if q \<le> 0 then ''0 B''
          else if q < ONE_KB then to_fixed 0 q @ '' B''
          else if q < ONE_MB then to_fixed 2 (q / ONE_KB) @ '' KB''
          else if q < ONE_GB then to_fixed 2 (q / ONE_MB) @ '' MB''
          else if q < ONE_TB then to_fixed 2 (q / ONE_GB) @ '' GB''
          else if q < ONE_PB then to_fixed 2 (q / ONE_TB) @ '' TB''
          else to_fixed 2 (q / ONE_PB) @ '' PB''
      | _ \<Rightarrow> ''0 B'')"

definition speedFormat :: "jsnum option \<Rightarrow> string" where
  "speedFormat bps = sizeFormat bps @ ''/s''"

definition cpuSpeedFormat :: "rat \<Rightarrow> string" where
  "cpuSpeedFormat speed = (if speed > 1000 then to_fixed 2 (speed / 1000) @ '' GHz'' else to_fixed 2 speed @ '' MHz'')"

definition cpuCoreFormat :: "int \<Rightarrow> string" where
  "cpuCoreFormat cores = (if cores = 1 then ''1 Core'' else int_str cores @ '' Cores'')"

definition formatSecond :: "rat \<Rightarrow> string" where
  "formatSecond second =
     (if second < 60 then to_fixed 0 second @ ''s''
      else if second < 3600 then to_fixed 0 (second / 60) @ ''m''
      else if second < 3600 * 24 then to_fixed 0 (second / 3600) @ ''h''
      else let day = \<lfloor>second / 3600 / 24\<rfloor>; remain = math_round (second / 3600 - of_int day * 24)
        in int_str day @ ''d'' @ (if remain > 0 then CHR '' '' # int_str remain @ ''h'' else []))"

definition addZero :: "int \<Rightarrow> string" where
  "addZero n = (if n < 10 then CHR ''0'' # int_str n else int_str n)"

definition floor_decimals :: "rat \<Rightarrow> nat \<Rightarrow> rat" where
  "floor_decimals x n = of_int \<lfloor>x * 10 ^ n\<rfloor> / 10 ^ n"

text \<open>The gauges of the dashboard (\<open>CurTotal\<close>).\<close>

definition gauge_percent :: "rat \<Rightarrow> rat \<Rightarrow> rat" where
  "gauge_percent current tot = (if tot = 0 then 0 else floor_decimals (current / tot * 100) 2)"

definition gauge_color :: "rat \<Rightarrow> rat \<Rightarrow> string" where
  "gauge_color current tot =
     (let p = gauge_percent current tot in if p < 80 then ''#1677ff'' else if p < 90 then ''#faad14'' else ''#ff4d4f'')"

section \<open>Quotas\<close>

datatype usage_color = Purple | Green | Orange | Red

definition usageColor :: "rat option \<Rightarrow> rat \<Rightarrow> rat option \<Rightarrow> usage_color" where
  "usageColor data threshold tot =
     (let t = (case tot of None \<Rightarrow> 0 | Some t \<Rightarrow> t) in
      case data of
        None \<Rightarrow> Purple
      | Some d \<Rightarrow> if t < 0 then Green else if t = 0 then Purple else if d < t - threshold then Green else if d < t then Orange else Red)"

record client_usage =
  cu_total :: rat
  cu_up :: rat
  cu_down :: rat

definition COLORS :: "usage_color \<Rightarrow> string" where
  "COLORS c = (case c of Green \<Rightarrow> ''#389e0a'' | Orange \<Rightarrow> ''#faad14'' | Red \<Rightarrow> ''#ff4d4f'' | Purple \<Rightarrow> ''#722ed1'')"

definition clientUsageColor :: "client_usage option \<Rightarrow> rat \<Rightarrow> string" where
  "clientUsageColor clientStats trafficDiff =
     (case clientStats of
        None \<Rightarrow> COLORS Purple
      | Some s \<Rightarrow>
          if cu_total s = 0 then COLORS Purple
          else if cu_up s + cu_down s < cu_total s - trafficDiff then COLORS Green
          else if cu_up s + cu_down s < cu_total s then COLORS Orange
          else COLORS Red)"

text \<open>\<open>now\<close> is the clock; \<^term>\<open>None\<close> is a missing expiry time.\<close>

definition userExpiryColor :: "rat \<Rightarrow> rat \<Rightarrow> bool \<Rightarrow> rat option \<Rightarrow> bool \<Rightarrow> string" where
  "userExpiryColor now threshold enable expiryTime isDark =
     (if \<not> enable then (if isDark then ''#2c3950'' else ''#bcbcbc'')
      else case expiryTime of
        None \<Rightarrow> COLORS Purple
      | Some e \<Rightarrow> if e < 0 then COLORS Green else if e = 0 then COLORS Purple
          else if now < e - threshold then COLORS Green else if now < e then COLORS Orange else COLORS Red)"

record traffic_display =
  td_used :: rat
  td_remaining :: rat
  td_percent :: rat
  td_isUnlimited :: bool
  td_isDepleted :: bool
  td_strokeColor :: string
  td_exception :: bool

definition computeTrafficDisplay :: "client_usage \<Rightarrow> bool \<Rightarrow> rat \<Rightarrow> bool \<Rightarrow> traffic_display" where
  "computeTrafficDisplay input enabled trafficDiff isDark =
     (let used = cu_up input + cu_down input; tot = cu_total input; isUnlimited = (tot \<le> 0);
          percent = (if isUnlimited then 100 else min 100 (max 0 (used / tot * 100)));
          isDepleted = (\<not> isUnlimited \<and> used \<ge> tot)
      in \<lparr>td_used = used, td_remaining = (if isUnlimited then 0 else max 0 (tot - used)), td_percent = percent,
          td_isUnlimited = isUnlimited, td_isDepleted = isDepleted,
          td_strokeColor =
            (if \<not> enabled then (if isDark then ''rgb(72, 84, 105)'' else ''#bcbcbc'')
             else if isUnlimited then ''#722ed1'' else clientUsageColor (Some input) trafficDiff),
          td_exception = (isDepleted \<and> enabled)\<rparr>)"

section \<open>Addresses and devices of a client\<close>

record client_ip =
  ci_ip :: string
  ci_time :: string
  ci_node :: string

definition ip_text :: "jv \<Rightarrow> string" where
  "ip_text v = (case v of JStr s \<Rightarrow> s | _ \<Rightarrow> [])"

definition client_ip_of :: "jv \<Rightarrow> client_ip list" where
  "client_ip_of x =
     (case x of
        JStr s \<Rightarrow> if s \<noteq> [] then [\<lparr>ci_ip = s, ci_time = [], ci_node = []\<rparr>] else []
      | JObj ps \<Rightarrow> let ip = ip_text (oget ps ''ip'') in
          if ip = [] then [] else [\<lparr>ci_ip = ip, ci_time = ip_text (oget ps ''time''), ci_node = ip_text (oget ps ''node'')\<rparr>]
      | _ \<Rightarrow> [])"

definition normalizeClientIps :: "jv \<Rightarrow> client_ip list" where
  "normalizeClientIps ob = (case ob of JArr xs \<Rightarrow> concat (map client_ip_of xs) | _ \<Rightarrow> [])"

record client_device =
  dv_hwid :: string
  dv_deviceOs :: string
  dv_osVersion :: string
  dv_deviceModel :: string

definition deviceLabel :: "client_device \<Rightarrow> string" where
  "deviceLabel d =
     (let parts = filter (\<lambda>p. p \<noteq> []) [dv_deviceModel d, dv_deviceOs d];
          parts = (if dv_osVersion d \<noteq> [] \<and> parts \<noteq> [] then butlast parts @ [last parts @ CHR '' '' # dv_osVersion d] else parts);
          label = join [CHR '' '', CHR 0xB7, CHR '' ''] parts
      in if label \<noteq> [] then label else dv_hwid d)"

section \<open>Remarks\<close>

definition REMARK_VARIABLES :: "(string \<times> string) list" where
  "REMARK_VARIABLES =
     [(''EMAIL'', ''john''), (''INBOUND'', ''Germany''), (''HOST'', ''CDN''), (''ID'', ''3f2a9c1b-aaaa-bbbb-cccc-1234567890ab''),
      (''SHORT_ID'', ''3f2a9c1b''), (''TELEGRAM_ID'', ''123456789''), (''SUB_ID'', ''subABC''), (''COMMENT'', ''vip''),
      (''TRAFFIC_USED'', ''8.40GB''), (''TRAFFIC_LEFT'', ''41.60GB''), (''TRAFFIC_TOTAL'', ''50.00GB''),
      (''TRAFFIC_USED_BYTES'', ''9019431321''), (''TRAFFIC_LEFT_BYTES'', ''44667656679''), (''TRAFFIC_TOTAL_BYTES'', ''53687091200''),
      (''UP'', ''5.20GB''), (''DOWN'', ''3.20GB''), (''STATUS'', ''active''), (''DAYS_LEFT'', ''12''), (''EXPIRE_DATE'', ''2026-09-01''),
      (''EXPIRE_UNIX'', ''1788300000''), (''CREATED_UNIX'', ''1700000000''), (''RESET_DAYS'', ''30'')]"

definition wrapToken :: "string \<Rightarrow> string" where
  "wrapToken token = ''{{'' @ token @ ''}}''"

definition hasRemarkTokens :: "string \<Rightarrow> bool" where
  "hasRemarkTokens template = str_includes template ''{{''"

definition token_char :: "char \<Rightarrow> bool" where
  "token_char c \<longleftrightarrow> is_upper c \<or> c = CHR ''_''"

text \<open>\<open>TOKEN_RE\<close> at the start of a text: the token and what follows it.\<close>

definition token_at :: "string \<Rightarrow> (string \<times> string) option" where
  "token_at s =
     (if starts_with s ''{{'' then
        let r = drop 2 s; tok = takeWhile token_char r; rest = dropWhile token_char r
        in if tok \<noteq> [] \<and> starts_with rest ''}}'' then Some (tok, drop 2 rest) else None
      else None)"

definition sample_of :: "string \<Rightarrow> string" where
  "sample_of tok = (case map_of REMARK_VARIABLES tok of None \<Rightarrow> [] | Some s \<Rightarrow> s)"

function replace_tokens :: "string \<Rightarrow> string" where
  "replace_tokens s =
     (case s of
        [] \<Rightarrow> []
      | c # r \<Rightarrow> (case token_at s of Some (tok, rest) \<Rightarrow> sample_of tok @ replace_tokens rest | None \<Rightarrow> c # replace_tokens r))"
  by pat_completeness auto

lemma token_at_shorter: "token_at s = Some (tok, rest) \<Longrightarrow> length rest < length s"
proof -
  assume s: "token_at s = Some (tok, rest)"
  hence "starts_with s ''{{''" "rest = drop 2 (dropWhile token_char (drop 2 s))"
    by (auto simp: token_at_def Let_def split: if_splits)
  moreover from this have "0 < length s" by auto
  moreover have "length (dropWhile token_char (drop 2 s)) \<le> length s" using length_dropWhile_le [of token_char "drop 2 s"] by simp
  ultimately show ?thesis by (simp only: length_drop)
qed

termination replace_tokens
  by (relation "measure length") (auto dest: token_at_shorter)

definition previewRemark :: "string \<Rightarrow> string" where
  "previewRemark template = (if \<not> hasRemarkTokens template then template else replace_tokens template)"

section \<open>Log lines\<close>

record parsed_log =
  lg_date :: string
  lg_time :: string
  lg_stamp :: string
  lg_levelText :: string
  lg_levelClass :: string
  lg_service :: string
  lg_body :: string

definition LEVELS :: "string list" where
  "LEVELS = [''DEBUG'', ''INFO'', ''NOTICE'', ''WARNING'', ''ERROR'']"

definition LEVEL_CLASSES :: "string list" where
  "LEVEL_CLASSES = [''level-debug'', ''level-info'', ''level-notice'', ''level-warning'', ''level-error'']"

definition is_letter :: "char \<Rightarrow> bool" where
  "is_letter c \<longleftrightarrow> is_upper c \<or> is_lower c"

text \<open>What the patterns are made of; each takes its part off the front of a text.\<close>

definition take_spaces :: "string \<Rightarrow> string option" where
  "take_spaces s = (let r = dropWhile is_space s in if length r < length s then Some r else None)"

definition take_word :: "string \<Rightarrow> (string \<times> string) option" where
  "take_word s = (let w = takeWhile (\<lambda>c. \<not> is_space c) s in if w \<noteq> [] then Some (w, drop (length w) s) else None)"

definition shaped :: "string \<Rightarrow> string \<Rightarrow> bool" where
  "shaped pattern s = (length pattern \<le> length s \<and> list_all2 (\<lambda>p c. if p = CHR ''d'' then is_digit c else if p = CHR ''a'' then is_letter c else p = c) pattern (take (length pattern) s))"

definition require :: "bool \<Rightarrow> unit option" where
  "require b = (if b then Some () else None)"

definition one_line :: "string \<Rightarrow> bool" where
  "one_line s \<longleftrightarrow> CHR 10 \<notin> set s \<and> CHR 13 \<notin> set s"

text \<open>\<open>SYSLOG_PREFIX\<close>: date, time and message. The date is what the text holds up to the end of its digits.\<close>

definition syslog_match :: "string \<Rightarrow> (string \<times> string \<times> string) option" where
  "syslog_match s =
     (if \<not> shaped ''aaa'' s then None
      else do {
        r1 \<leftarrow> take_spaces (drop 3 s);
        let day = takeWhile is_digit r1;
        require (day \<noteq> [] \<and> length day \<le> 2);
        r2 \<leftarrow> take_spaces (drop (length day) r1);
        require (shaped ''dd:dd:dd'' r2);
        r3 \<leftarrow> take_spaces (drop 8 r2);
        (host, r4) \<leftarrow> take_word r3;
        r5 \<leftarrow> take_spaces r4;
        (ident, r6) \<leftarrow> take_word r5;
        require (length ident \<ge> 2 \<and> last ident = CHR '':'');
        message \<leftarrow> take_spaces r6;
        if one_line message then Some (take (length s - length (drop (length day) r1)) s, take 8 r2, message) else None
      })"

definition drop_go_date :: "string \<Rightarrow> string" where
  "drop_go_date s =
     (if \<not> shaped ''dddd/dd/dd'' s then s
      else case take_spaces (drop 10 s) of
        None \<Rightarrow> s
      | Some r \<Rightarrow> if \<not> shaped ''dd:dd:dd'' r then s else (case take_spaces (drop 8 r) of None \<Rightarrow> s | Some t \<Rightarrow> t))"

definition telego_match :: "string \<Rightarrow> (string \<times> string) option" where
  "telego_match s =
     (if \<not> starts_with s ''['' then None
      else let stamp = takeWhile (\<lambda>c. c \<noteq> CHR '']'') (tl s) in
        if stamp = [] \<or> length stamp = length (tl s) then None
        else do {
          r \<leftarrow> take_spaces (drop (length stamp + 2) s);
          let level = takeWhile is_upper r;
          require (level \<noteq> []);
          body \<leftarrow> take_spaces (drop (length level) r);
          if one_line body then Some (level, body) else None
        })"

fun split_dash :: "string \<Rightarrow> (string \<times> string) option" where
  "split_dash [] = None"
| "split_dash (c # s) =
     (if starts_with (c # s) '' - '' then Some ([], drop 3 (c # s))
      else map_option (\<lambda>(a, b). (c # a, b)) (split_dash s))"

definition splitLevelDash :: "string \<Rightarrow> (string \<times> string) option" where
  "splitLevelDash message =
     (case split_dash message of
        None \<Rightarrow> None
      | Some (l, rest) \<Rightarrow> if trim l \<in> set LEVELS then Some (trim l, rest) else None)"

definition syslog_body :: "string \<Rightarrow> string \<times> string" where
  "syslog_body message =
     (case splitLevelDash message of
        Some (level, rest) \<Rightarrow> (level, rest)
      | None \<Rightarrow> let m = drop_go_date message in
          case telego_match m of Some (level, rest) \<Rightarrow> if level \<in> set LEVELS then (level, rest) else ([], m) | None \<Rightarrow> ([], m))"

text \<open>The app log: \<open>raw.split(' - ')\<close> and the rest joined again is the text after the first separator.\<close>

definition applog_parts :: "string \<Rightarrow> string \<times> string \<times> string \<times> string" where
  "applog_parts raw =
     (let (head, message) = (case split_dash raw of None \<Rightarrow> (raw, []) | Some p \<Rightarrow> p) in
      case split_on CHR '' '' head of
        a # b # c # _ \<Rightarrow> (a, b, c, message)
      | _ \<Rightarrow> ([], [], head, message))"

definition parseLogLine :: "string \<Rightarrow> parsed_log" where
  "parseLogLine line =
     (let raw = trim line;
          (date, time, levelText, body) =
            (case syslog_match raw of
               Some (d, t, message) \<Rightarrow> (case syslog_body message of (level, b) \<Rightarrow> (d, t, level, b))
             | None \<Rightarrow> applog_parts raw);
          levelClass = (case map_of (zip LEVELS LEVEL_CLASSES) levelText of Some c \<Rightarrow> c | None \<Rightarrow> ''level-unknown'');
          (service, body) = (if starts_with body ''XRAY:'' then (''XRAY:'', trim_start (drop 5 body))
                             else if body \<noteq> [] then (''X-UI:'', body) else ([], body))
      in \<lparr>lg_date = date, lg_time = time, lg_stamp = join '' '' (filter (\<lambda>s. s \<noteq> []) [date, time]), lg_levelText = levelText,
          lg_levelClass = levelClass, lg_service = service, lg_body = body\<rparr>)"

section \<open>Quotas are shown consistently\<close>

text \<open>Where a quota is not negative, the two colourings of a usage agree.\<close>
lemma usage_colors_agree:
  "0 \<le> cu_total u \<Longrightarrow> clientUsageColor (Some u) diff = COLORS (usageColor (Some (cu_up u + cu_down u)) diff (Some (cu_total u)))"
  by (simp add: clientUsageColor_def usageColor_def)

lemma clamp_full: "min 100 (max 0 (q :: rat)) = 100 \<longleftrightarrow> 100 \<le> q"
  by (auto simp: min_def max_def)

text \<open>The bar of a client's traffic stays between 0 and 100 percent; for a limited client it is full exactly when the client is
  depleted, which is when nothing remains, then it is red, and before that used and remaining add up to the quota.\<close>
theorem traffic_display_consistent:
  assumes "0 \<le> cu_up u" "0 \<le> cu_down u" "0 \<le> diff"
  shows "let d = computeTrafficDisplay u enabled diff dark in
    0 \<le> td_percent d \<and> td_percent d \<le> 100 \<and> 0 \<le> td_remaining d
    \<and> (td_isUnlimited d \<longrightarrow> \<not> td_isDepleted d)
    \<and> (\<not> td_isUnlimited d \<longrightarrow>
        (td_isDepleted d \<longleftrightarrow> td_remaining d = 0) \<and> (td_isDepleted d \<longleftrightarrow> td_percent d = 100)
        \<and> (\<not> td_isDepleted d \<longrightarrow> td_used d + td_remaining d = cu_total u)
        \<and> (enabled \<and> td_isDepleted d \<longrightarrow> td_strokeColor d = COLORS Red \<and> td_exception d))"
proof -
  let ?used = "cu_up u + cu_down u"
  have "100 \<le> ?used / cu_total u * 100 \<longleftrightarrow> cu_total u \<le> ?used" if "0 < cu_total u" using that by (auto simp: field_simps)
  hence "min 100 (max 0 (?used / cu_total u * 100)) = 100 \<longleftrightarrow> cu_total u \<le> ?used" if "0 < cu_total u"
    unfolding clamp_full using that .
  thus ?thesis using assms by (auto simp: computeTrafficDisplay_def Let_def clientUsageColor_def min_le_iff_disj not_le)
qed

theorem traffic_display_consistent_witness:
  "td_percent (computeTrafficDisplay \<lparr>cu_total = 100, cu_up = 30, cu_down = 90\<rparr> True 5 False) = 100"
  using traffic_display_consistent [of "\<lparr>cu_total = 100, cu_up = 30, cu_down = 90\<rparr>" 5 True False]
  by (simp add: Let_def computeTrafficDisplay_def)

text \<open>Rounding to the shown decimals can reach the next unit: 1024.00 MB below a GB, 60 minutes below an hour, and 24 hours
  beside the days.\<close>
lemma unit_overflow:
  "sizeFormat (Some (num (2 ^ 30 - 1))) = ''1024.00 MB''"
  "formatSecond 3599 = ''60m''"
  "formatSecond 172799 = ''1d 24h''"
proof -
  have "\<lfloor>\<bar>(1073741823 / 1048576 :: rat)\<bar> * 10 ^ 2 + 1 / 2\<rfloor> = 102400" "\<lfloor>\<bar>(3599 / 60 :: rat)\<bar> * 10 ^ 0 + 1 / 2\<rfloor> = 60"
    by (rule floor_unique; simp)+
  moreover have "\<lfloor>(172799 / 3600 / 24 :: rat)\<rfloor> = 1" "math_round (172799 / 3600 - of_int 1 * 24) = 24"
    unfolding math_round_def by (rule floor_unique; simp)+
  moreover have "pad_zeros 3 (nat_str 102400) = ''102400''" "pad_zeros 1 (nat_str 60) = ''60''" "int_str 1 = ''1''" "int_str 24 = ''24''"
    by (simp_all add: pad_zeros_def int_str_def nat_str.simps digit_char_def char_of_def bit_Suc_0_iff bit_0)
  ultimately show "sizeFormat (Some (num (2 ^ 30 - 1))) = ''1024.00 MB''" "formatSecond 3599 = ''60m''" "formatSecond 172799 = ''1d 24h''"
    by (simp_all add: sizeFormat_def formatSecond_def to_fixed_def Let_def ONE_KB_def ONE_MB_def ONE_GB_def)
qed

section \<open>Remarks are expanded once\<close>

declare replace_tokens.simps [simp del]

lemma replace_empty [simp]: "replace_tokens [] = []"
  by (simp add: replace_tokens.simps)

lemma replace_plain: "CHR ''{'' \<notin> set a \<Longrightarrow> replace_tokens (a @ s) = a @ replace_tokens s"
proof (induction a)
  case (Cons c a)
  hence "token_at (c # a @ s) = None" by (auto simp: token_at_def)
  thus ?case using Cons by (simp add: replace_tokens.simps [of "c # a @ s"])
qed simp

lemma token_wrapped: "tok \<noteq> [] \<Longrightarrow> list_all token_char tok \<Longrightarrow> token_at (wrapToken tok @ s) = Some (tok, s)"
proof -
  assume t: "tok \<noteq> []" "list_all token_char tok"
  have "\<not> token_char CHR ''}''" by (simp add: token_char_def is_upper_def)
  hence "takeWhile token_char (tok @ ''}}'' @ s) = tok" "dropWhile token_char (tok @ ''}}'' @ s) = ''}}'' @ s"
    using t by (simp_all add: list_all_iff takeWhile_tail)
  thus ?thesis using t by (simp add: token_at_def wrapToken_def)
qed

lemma replace_wrapped: "tok \<noteq> [] \<Longrightarrow> list_all token_char tok \<Longrightarrow> replace_tokens (wrapToken tok @ s) = sample_of tok @ replace_tokens s"
  using token_wrapped [of tok s] replace_tokens.simps [of "wrapToken tok @ s"] by (simp add: wrapToken_def)

text \<open>The preview of a remark puts the sample of a token in its place, nothing for an unknown one, keeps the text before it and
  goes on behind it; a sample is not expanded again.\<close>
theorem remark_preview:
  assumes "CHR ''{'' \<notin> set a" "tok \<noteq> []" "list_all token_char tok"
  shows "previewRemark (a @ wrapToken tok @ b) = a @ sample_of tok @ previewRemark b"
proof -
  have "hasRemarkTokens (a @ wrapToken tok @ b)"
    unfolding hasRemarkTokens_def wrapToken_def by (induction a) auto
  moreover have "replace_tokens b = b" if "\<not> hasRemarkTokens b"
    using that
  proof (induction b)
    case (Cons c b)
    hence "token_at (c # b) = None" by (auto simp: token_at_def hasRemarkTokens_def)
    thus ?case using Cons by (simp add: replace_tokens.simps [of "c # b"] hasRemarkTokens_def)
  qed simp
  hence "previewRemark b = replace_tokens b" by (simp add: previewRemark_def)
  ultimately show ?thesis using assms by (simp add: previewRemark_def replace_plain replace_wrapped)
qed

theorem remark_preview_witness: "previewRemark (''user '' @ wrapToken ''EMAIL'' @ ''!'') = ''user '' @ ''john'' @ ''!''"
  using remark_preview [of "''user ''" "''EMAIL''" "''!''"]
  by (simp add: token_char_def is_upper_def sample_of_def REMARK_VARIABLES_def previewRemark_def hasRemarkTokens_def)

text \<open>The server also knows these tokens; the preview leaves nothing for them.\<close>
lemma server_tokens_unknown:
  "list_all (\<lambda>t. sample_of t = []) [''STATUS_EMOJI'', ''USAGE_PERCENTAGE'', ''PROTOCOL'', ''TRANSPORT'', ''TIME_LEFT'', ''JALALI_EXPIRE_DATE'']"
  by (simp add: sample_of_def REMARK_VARIABLES_def)

section \<open>Log lines\<close>

lemma split_dash_found:
  "\<not> str_includes a ''- '' \<Longrightarrow> a = [] \<or> last a \<noteq> CHR '' '' \<Longrightarrow> CHR ''-'' \<notin> set a \<Longrightarrow> split_dash (a @ '' - '' @ s) = Some (a, s)"
proof (induction a)
  case (Cons c a)
  have "\<not> starts_with ((c # a) @ '' - '' @ s) '' - ''"
    using Cons.prems by (cases a) auto
  thus ?case using Cons by (auto split: if_splits)
qed simp

definition log_word :: "string \<Rightarrow> bool" where
  "log_word w \<longleftrightarrow> w \<noteq> [] \<and> CHR ''-'' \<notin> set w \<and> list_all (\<lambda>c. \<not> is_space c) w"

lemma log_word_last: "log_word w \<Longrightarrow> last w \<noteq> CHR '' ''"
proof
  assume w: "log_word w" and l: "last w = CHR '' ''"
  have "last w \<in> set w" using w by (simp add: log_word_def)
  hence "\<not> is_space (last w)" using w by (simp add: log_word_def list_all_iff)
  thus False unfolding l by (simp add: is_space_def)
qed

lemma log_word_split: "log_word w \<Longrightarrow> split_on CHR '' '' (w @ CHR '' '' # s) = w # split_on CHR '' '' s"
  by (rule split_on_append_sep) (auto simp: log_word_def list_all_iff is_space_def)

lemma log_word_alone: "log_word w \<Longrightarrow> split_on CHR '' '' w = [w]"
  by (rule split_on_no_sep) (auto simp: log_word_def list_all_iff is_space_def)

lemma no_dash_pair: "CHR ''-'' \<notin> set a \<Longrightarrow> \<not> str_includes a ''- ''"
proof (induction a)
  case (Cons c a)
  thus ?case by (cases a) auto
qed simp

text \<open>A line of the panel's own log is taken apart into date, time, level and message; the message of Xray is told from the
  panel's own by its mark, and a level the viewer knows gets its own class.\<close>
theorem log_line_parsed:
  assumes "log_word date" "is_digit (hd date)" "log_word time" "level \<in> set LEVELS"
    and "body \<noteq> []" "\<not> is_space (hd body)" "\<not> is_space (last body)" "\<not> starts_with body ''XRAY:''"
  shows "let line = date @ '' '' @ time @ '' '' @ level @ '' - '' in
    parseLogLine (line @ body) =
      \<lparr>lg_date = date, lg_time = time, lg_stamp = date @ '' '' @ time, lg_levelText = level,
       lg_levelClass = ''level-'' @ to_lower level, lg_service = ''X-UI:'', lg_body = body\<rparr>
    \<and> parseLogLine (line @ ''XRAY: '' @ body) =
      \<lparr>lg_date = date, lg_time = time, lg_stamp = date @ '' '' @ time, lg_levelText = level,
       lg_levelClass = ''level-'' @ to_lower level, lg_service = ''XRAY:'', lg_body = body\<rparr>"
proof -
  let ?head = "date @ '' '' @ time @ '' '' @ level"
  have lvl: "log_word level" using assms(4) by (auto simp: LEVELS_def log_word_def is_space_def)
  have cls: "map_of (zip LEVELS LEVEL_CLASSES) level = Some (''level-'' @ to_lower level)"
    using assms(4) by (auto simp: LEVELS_def LEVEL_CLASSES_def to_lower_def lower_char_def is_upper_def char_of_def bit_Suc_0_iff bit_0)
  have head: "split_on CHR '' '' ?head = [date, time, level]"
    using assms(1,3) lvl by (simp add: log_word_split log_word_alone)
  have dash: "CHR ''-'' \<notin> set ?head" "last ?head \<noteq> CHR '' ''"
    using log_word_last [OF lvl] assms(1,3) lvl by (auto simp: log_word_def)
  have parts: "applog_parts (?head @ '' - '' @ s) = (date, time, level, s)" for s
    using split_dash_found [of ?head s] no_dash_pair [OF dash(1)] dash head by (simp add: applog_parts_def)
  obtain c r where c: "date = c # r" "is_digit c" using assms(1,2) by (cases date) (auto simp: log_word_def)
  hence no_sys: "syslog_match (?head @ s) = None" for s
    by (auto simp: syslog_match_def shaped_def is_letter_def is_digit_def is_upper_def is_lower_def)
  have trimmed: "trim (?head @ '' - '' @ s) = ?head @ '' - '' @ s" if "s \<noteq> []" "\<not> is_space (last s)" for s
  proof -
    have "\<not> is_space c" using c(2) by (rule digit_not_space)
    thus ?thesis using that c(1) by (cases s rule: rev_cases) (simp_all add: trim_def trim_start_def)
  qed
  have stamp: "join '' '' (filter (\<lambda>s. s \<noteq> []) [date, time]) = date @ '' '' @ time"
    using assms(1,3) by (simp add: log_word_def)
  have parsed: "parseLogLine (?head @ '' - '' @ s) =
      (let (service, b) = (if starts_with s ''XRAY:'' then (''XRAY:'', trim_start (drop 5 s)) else if s \<noteq> [] then (''X-UI:'', s) else ([], s))
       in \<lparr>lg_date = date, lg_time = time, lg_stamp = date @ '' '' @ time, lg_levelText = level,
           lg_levelClass = ''level-'' @ to_lower level, lg_service = service, lg_body = b\<rparr>)"
    if "s \<noteq> []" "\<not> is_space (last s)" for s
    unfolding parseLogLine_def trimmed [OF that] Let_def no_sys [of "'' - '' @ s"] parts stamp option.case prod.case cls by simp
  have "trim_start (CHR '' '' # body) = body"
    using assms(5,6) by (cases body) (auto simp: trim_start_def is_space_def)
  thus ?thesis using parsed [of body] parsed [of "''XRAY: '' @ body"] assms(5-8) by (simp add: Let_def)
qed

theorem log_line_parsed_witness:
  "lg_service (parseLogLine ''2026/06/08 19:22:22 INFO - XRAY: started'') = ''XRAY:''"
  using log_line_parsed [of "''2026/06/08''" "''19:22:22''" "''INFO''" "''started''"]
  by (simp add: log_word_def is_digit_def is_space_def LEVELS_def Let_def)

text \<open>A line of the journal: the level is that of the message.\<close>
lemma journal_line: "lg_levelText (parseLogLine ''Jun  8 19:22:22 srv x-ui[7]: ERROR - closed'') = ''ERROR''"
  by (simp add: parseLogLine_def trim_def trim_start_def syslog_match_def shaped_def is_letter_def is_upper_def is_lower_def is_digit_def
      is_space_def take_spaces_def take_word_def require_def one_line_def syslog_body_def splitLevelDash_def LEVELS_def Let_def)

end
