(* ===== verification/Admin_Groups.thy ===== *)
theory Admin_Groups
  imports Sub_Branding Client_Defaults Json_Text Rule_Form
begin

text \<open>
  Administrators with their roles (\<open>frontend/src/pages/admins\<close>), the groups of clients
  (\<open>pages/groups/GroupsPage.tsx\<close>) and the creation of many clients at once
  (\<open>pages/clients/ClientBulkAddModal.tsx\<close>). A number that a row does not have is 0, a text is empty.
\<close>

section \<open>Roles\<close>

record custom_role =
  cr_id :: int
  cr_name :: string
  cr_permissions :: string

definition customRoleKey :: "int \<Rightarrow> string" where
  "customRoleKey i = ''custom:'' @ int_str i"

text \<open>\<open>parseInt(s, 10)\<close>; \<^term>\<open>None\<close> is NaN.\<close>

definition parse_int :: "string \<Rightarrow> int option" where
  "parse_int s0 =
     (let s = trim_start s0;
          (neg, r) = (case s of c # d \<Rightarrow> if c = CHR ''-'' then (True, d) else if c = CHR ''+'' then (False, d) else (False, s) | [] \<Rightarrow> (False, []));
          ds = takeWhile is_digit r
      in if ds = [] then None else Some (if neg then - int (digits_val 10 ds) else int (digits_val 10 ds)))"

definition parse_id :: "string \<Rightarrow> int option" where
  "parse_id s = (case parse_int s of Some i \<Rightarrow> if i > 0 then Some i else None | None \<Rightarrow> None)"

definition parseCustomRoleId :: "string \<Rightarrow> int option" where
  "parseCustomRoleId role = (if starts_with role ''custom:'' then parse_id (drop 7 role) else None)"

definition permList :: "custom_role \<Rightarrow> string list" where
  "permList r = filter (\<lambda>p. p \<noteq> []) (map trim (split_on CHR '','' (cr_permissions r)))"

text \<open>The roles that are limited to inbounds and quotas.\<close>

definition scopedRoles :: "custom_role list \<Rightarrow> string list" where
  "scopedRoles roles =
     ''reseller'' # map (\<lambda>r. customRoleKey (cr_id r)) (filter (\<lambda>r. ''inbounds.scoped'' \<in> set (split_on CHR '','' (cr_permissions r))) roles)"

section \<open>Administrators\<close>

record admin_row =
  ad_id :: int
  ad_username :: string
  ad_role :: string
  ad_allowedInbounds :: string
  ad_trafficQuotaGB :: int
  ad_clientQuota :: int
  ad_disabled :: bool

record admin_form =
  af_username :: string
  af_role :: string
  af_allowedInbounds :: "int list"
  af_trafficQuotaGB :: int
  af_clientQuota :: int

definition csvToIds :: "string \<Rightarrow> int list" where
  "csvToIds t = (if t = [] then [] else List.map_filter (\<lambda>s. parse_id (trim s)) (split_on CHR '','' t))"

definition open_add :: admin_form where
  "open_add = \<lparr>af_username = [], af_role = ''manager'', af_allowedInbounds = [], af_trafficQuotaGB = 0, af_clientQuota = 0\<rparr>"

definition open_edit :: "admin_row \<Rightarrow> admin_form" where
  "open_edit r = \<lparr>af_username = ad_username r, af_role = ad_role r, af_allowedInbounds = csvToIds (ad_allowedInbounds r),
     af_trafficQuotaGB = ad_trafficQuotaGB r, af_clientQuota = ad_clientQuota r\<rparr>"

text \<open>The body of the request; the password of a new administrator is sent beside it.\<close>

record admin_body =
  ab_username :: string
  ab_role :: string
  ab_allowedInbounds :: string
  ab_trafficQuotaGB :: int
  ab_clientQuota :: int

definition save_admin :: "custom_role list \<Rightarrow> admin_form \<Rightarrow> admin_body" where
  "save_admin roles f =
     (let isReseller = (af_role f \<in> set (scopedRoles roles)) in
      \<lparr>ab_username = af_username f, ab_role = af_role f,
       ab_allowedInbounds = (if isReseller then join '','' (map int_str (af_allowedInbounds f)) else []),
       ab_trafficQuotaGB = (if isReseller then af_trafficQuotaGB f else 0),
       ab_clientQuota = (if isReseller then af_clientQuota f else 0)\<rparr>)"

definition roleUsage :: "admin_row list \<Rightarrow> int \<Rightarrow> nat" where
  "roleUsage rows i = length (filter (\<lambda>r. parseCustomRoleId (ad_role r) = Some i) rows)"

text \<open>The bars of a reseller: the share of a quota that is used, and its colour.\<close>

definition quota_percent :: "int \<Rightarrow> int \<Rightarrow> int" where
  "quota_percent used quota = (if quota > 0 then min 100 (math_round (of_int used / of_int quota * 100)) else 0)"

definition quotaColor :: "int \<Rightarrow> string option" where
  "quotaColor percent = (if percent \<ge> 90 then Some ''#ff4d4f'' else if percent \<ge> 70 then Some ''#faad14'' else None)"

definition action_keys :: "custom_role list \<Rightarrow> admin_row \<Rightarrow> string list" where
  "action_keys roles r =
     [''password''] @ (if ad_role r \<in> set (scopedRoles roles) then [''resetTraffic''] else [])
     @ [if ad_disabled r then ''enable'' else ''disable'', ''delete'']"

text \<open>Actions of the menu that ask first, and the request each of them makes.\<close>

datatype admin_request = Set_Enabled int bool | Delete_Admin int | Reset_Traffic int

definition run_confirm :: "string \<Rightarrow> admin_row \<Rightarrow> admin_request list" where
  "run_confirm kind r =
     (if kind = ''disable'' then [Set_Enabled (ad_id r) False] else [])
     @ (if kind = ''delete'' then [Delete_Admin (ad_id r)] else [])
     @ (if kind = ''resetTraffic'' then [Reset_Traffic (ad_id r)] else [])"

section \<open>Groups\<close>

datatype group_refusal = Blank_Name | Same_Name | Collision string

definition confirmCreate :: "string list \<Rightarrow> string \<Rightarrow> group_refusal + string" where
  "confirmCreate groups createName =
     (let name = trim createName in
      if name = [] then Inl Blank_Name
      else if to_lower name \<in> set (map to_lower groups) then Inl (Collision name)
      else Inr name)"

definition confirmRename :: "string list \<Rightarrow> string \<Rightarrow> string \<Rightarrow> group_refusal + string" where
  "confirmRename groups target renameValue =
     (let new = trim renameValue in
      if new = [] then Inl Blank_Name else if new = target then Inl Same_Name
      else if list_ex (\<lambda>g. to_lower g = to_lower new \<and> g \<noteq> target) groups then Inl (Collision new)
      else Inr new)"

text \<open>What the list shows after the server has done it.\<close>

definition renamed :: "string \<Rightarrow> string \<Rightarrow> string list \<Rightarrow> string list" where
  "renamed target new groups = map (\<lambda>g. if g = target then new else g) groups"

section \<open>Creating many clients\<close>

record bulk_form =
  bf_emailMethod :: nat
  bf_firstNum :: int
  bf_lastNum :: int
  bf_emailPrefix :: string
  bf_emailPostfix :: string
  bf_quantity :: int
  bf_subId :: string
  bf_group :: string
  bf_comment :: string
  bf_flow :: string
  bf_limitIp :: int
  bf_totalGB :: rat
  bf_expiryTime :: int
  bf_reset :: int
  bf_inboundIds :: "int list"

definition empty_bulk_form :: bulk_form where
  "empty_bulk_form = \<lparr>bf_emailMethod = 0, bf_firstNum = 1, bf_lastNum = 1, bf_emailPrefix = [], bf_emailPostfix = [], bf_quantity = 1,
     bf_subId = [], bf_group = [], bf_comment = [], bf_flow = [], bf_limitIp = 0, bf_totalGB = 0, bf_expiryTime = 0, bf_reset = 0,
     bf_inboundIds = []\<rparr>"

definition ClientBulkAddFormSchema :: "bulk_form \<Rightarrow> bool" where
  "ClientBulkAddFormSchema f \<longleftrightarrow> bf_emailMethod f \<le> 4 \<and> 1 \<le> bf_firstNum f \<and> 1 \<le> bf_lastNum f
     \<and> 1 \<le> bf_quantity f \<and> bf_quantity f \<le> 1000 \<and> 0 \<le> bf_limitIp f \<and> 0 \<le> bf_totalGB f \<and> 0 \<le> bf_reset f \<and> bf_inboundIds f \<noteq> []"

definition email_tail :: "bulk_form \<Rightarrow> int \<Rightarrow> string" where
  "email_tail f i =
     (let m = bf_emailMethod f; prefix = (if m > 0 then bf_emailPrefix f else []); postfix = (if m > 2 then bf_emailPostfix f else [])
      in if m > 1 then prefix @ int_str i @ postfix else prefix @ postfix)"

definition email_numbers :: "bulk_form \<Rightarrow> int list" where
  "email_numbers f = (if bf_emailMethod f > 1 then [bf_firstNum f..bf_lastNum f] else [0..bf_quantity f - 1])"

definition buildEmails :: "bulk_form \<Rightarrow> string list rand" where
  "buildEmails f = map_rand (\<lambda>i. do {
     r \<leftarrow> (if bf_emailMethod f \<noteq> 4 then randomLowerAndNum 10 else State_Monad.return []);
     State_Monad.return (r @ email_tail f i) }) (email_numbers f)"

record bulk_inbound =
  bi_id :: int
  bi_ssMethod :: string
  bi_tlsFlowCapable :: bool

definition bulk_showFlow :: "bulk_inbound list \<Rightarrow> bulk_form \<Rightarrow> bool" where
  "bulk_showFlow inbounds f = list_ex (\<lambda>i. list_ex (\<lambda>b. bi_id b = i \<and> bi_tlsFlowCapable b) inbounds) (bf_inboundIds f)"

definition bulk_ss2022Method :: "bulk_inbound list \<Rightarrow> bulk_form \<Rightarrow> string" where
  "bulk_ss2022Method inbounds f =
     (case List.map_filter (\<lambda>i. case find (\<lambda>b. bi_id b = i) inbounds of
          Some b \<Rightarrow> if starts_with (bi_ssMethod b) ''2022'' then Some (bi_ssMethod b) else None | None \<Rightarrow> None) (bf_inboundIds f) of
        [] \<Rightarrow> [] | m # _ \<Rightarrow> m)"

definition bulk_payload :: "string rand \<Rightarrow> bulk_inbound list \<Rightarrow> bulk_form \<Rightarrow> string \<Rightarrow> jobj rand" where
  "bulk_payload uuid inbounds f email = do {
     subId \<leftarrow> (if bf_subId f \<noteq> [] then State_Monad.return (bf_subId f) else randomLowerAndNum 16);
     i \<leftarrow> uuid;
     password \<leftarrow> (if bulk_ss2022Method inbounds f \<noteq> [] then randomShadowsocksPassword (bulk_ss2022Method inbounds f) else randomLowerAndNum 16);
     auth \<leftarrow> randomLowerAndNum 16;
     State_Monad.return
       [(''email'', JStr email), (''subId'', JStr subId), (''id'', JStr i), (''password'', JStr password), (''auth'', JStr auth),
        (''flow'', JStr (if bulk_showFlow inbounds f then bf_flow f else [])),
        (''totalGB'', JNum (num (math_round (bf_totalGB f * 2 ^ 30)))), (''expiryTime'', JNum (num (bf_expiryTime f))),
        (''reset'', JNum (num (bf_reset f))), (''limitIp'', JNum (num (bf_limitIp f))), (''group'', JStr (bf_group f)),
        (''comment'', JStr (bf_comment f)), (''enable'', JBool True)]
   }"

text \<open>The clients that are sent; \<^term>\<open>None\<close> where nothing is.\<close>

definition submit_bulk :: "string rand \<Rightarrow> bulk_inbound list \<Rightarrow> bulk_form \<Rightarrow> jobj list option rand" where
  "submit_bulk uuid inbounds f =
     (if \<not> ClientBulkAddFormSchema f then State_Monad.return None
      else do {
        emails \<leftarrow> buildEmails f;
        if emails = [] then State_Monad.return None
        else do { ps \<leftarrow> map_rand (bulk_payload uuid inbounds f) emails; State_Monad.return (Some ps) } })"

section \<open>Saving an administrator\<close>

lemma digit_text_trim [simp]: "trim (nat_str n) = nat_str n"
  by (rule trim_no_space) (use nat_str_digits digit_not_space in blast)

lemma parse_int_nat: "parse_int (nat_str n) = Some (int n)"
proof -
  have d: "\<forall>c \<in> set (nat_str n). is_digit c" using nat_str_digits by blast
  hence "\<forall>c \<in> set (nat_str n). \<not> is_space c" using digit_not_space by blast
  hence t: "trim_start (nat_str n) = nat_str n" by (rule trim_start_no_space)
  obtain c r where s: "nat_str n = c # r" by (cases "nat_str n") (use nat_str_nonempty in auto)
  have "is_digit c" using d s by simp
  hence "c \<noteq> CHR ''-''" "c \<noteq> CHR ''+''" by (auto simp: is_digit_def)
  moreover have "takeWhile is_digit (c # r) = c # r" using d s by (simp add: takeWhile_eq_all_conv)
  moreover have "digits_val 10 (c # r) = n" using digits_val_nat_str [of n] s by simp
  ultimately show ?thesis using t unfolding parse_int_def s by (simp add: Let_def)
qed

lemma parse_id_str: "0 < i \<Longrightarrow> parse_id (int_str i) = Some i"
  by (simp add: parse_id_def int_str_def parse_int_nat)

lemma custom_key_parsed: "0 < i \<Longrightarrow> parseCustomRoleId (customRoleKey i) = Some i"
  by (simp add: parseCustomRoleId_def customRoleKey_def parse_id_str)

lemma int_str_comma: "CHR '','' \<notin> set (int_str i)"
  using nat_str_digits [where c = "CHR '',''"] by (auto simp: int_str_def is_digit_def)

lemma csv_reads_back: "list_all (\<lambda>i. 0 < i) ids \<Longrightarrow> csvToIds (join '','' (map int_str ids)) = ids"
proof (cases ids)
  case (Cons i js)
  assume ids: "list_all (\<lambda>i. 0 < i) ids"
  have split: "split_on CHR '','' (join '','' (map int_str ids)) = map int_str ids"
    using Cons int_str_comma by (intro split_on_join) auto
  have "join '','' (map int_str ids) \<noteq> []"
  proof
    assume "join '','' (map int_str ids) = []"
    hence "map int_str ids = [[]]" using split by simp
    thus False by (auto simp: int_str_def split: if_splits)
  qed
  moreover have "List.map_filter (\<lambda>s. parse_id (trim s)) (map int_str ids) = ids"
    using ids
  proof (induction ids)
    case (Cons j js)
    hence "trim (int_str j) = int_str j" by (simp add: int_str_def)
    thus ?case using Cons by (simp add: parse_id_str List.map_filter_simps)
  qed (simp add: List.map_filter_simps)
  ultimately show ?thesis unfolding csvToIds_def split by simp
qed (simp add: csvToIds_def)

lemma no_ids: "csvToIds [] = []"
  by (simp add: csvToIds_def)

text \<open>Only a role that is limited to inbounds is stored with inbounds or quotas; for such a role the stored list reads back as the
  chosen inbounds, and opening and saving a stored administrator changes nothing.\<close>
theorem admin_saved:
  assumes "list_all (\<lambda>i. 0 < i) (af_allowedInbounds f)"
  shows "let b = save_admin roles f;
      r = \<lparr>ad_id = i, ad_username = ab_username b, ad_role = ab_role b, ad_allowedInbounds = ab_allowedInbounds b,
           ad_trafficQuotaGB = ab_trafficQuotaGB b, ad_clientQuota = ab_clientQuota b, ad_disabled = d\<rparr>
    in (af_role f \<notin> set (scopedRoles roles) \<longrightarrow> ab_allowedInbounds b = [] \<and> ab_trafficQuotaGB b = 0 \<and> ab_clientQuota b = 0)
      \<and> (af_role f \<in> set (scopedRoles roles) \<longrightarrow> open_edit r = f)
      \<and> save_admin roles (open_edit r) = b"
  using csv_reads_back [OF assms] by (cases f) (auto simp: save_admin_def open_edit_def Let_def no_ids)

theorem admin_saved_witness:
  "let f = \<lparr>af_username = ''eve'', af_role = ''reseller'', af_allowedInbounds = [7, 12], af_trafficQuotaGB = 50, af_clientQuota = 9\<rparr>;
     b = save_admin [] f
   in open_edit \<lparr>ad_id = 1, ad_username = ab_username b, ad_role = ab_role b, ad_allowedInbounds = ab_allowedInbounds b,
           ad_trafficQuotaGB = ab_trafficQuotaGB b, ad_clientQuota = ab_clientQuota b, ad_disabled = False\<rparr> = f"
  using admin_saved [of "\<lparr>af_username = ''eve'', af_role = ''reseller'', af_allowedInbounds = [7, 12], af_trafficQuotaGB = 50, af_clientQuota = 9\<rparr>" "[]" 1 False]
  by (simp add: Let_def scopedRoles_def)

text \<open>Before the custom roles have arrived, saving an administrator with a limited custom role takes the inbounds and quotas away.\<close>
lemma saved_before_roles_arrive:
  "role = \<lparr>cr_id = 3, cr_name = ''shop'', cr_permissions = ''clients.view,inbounds.scoped''\<rparr> \<Longrightarrow>
   f = \<lparr>af_username = ''eve'', af_role = customRoleKey 3, af_allowedInbounds = [7], af_trafficQuotaGB = 50, af_clientQuota = 9\<rparr> \<Longrightarrow>
   ab_clientQuota (save_admin [role] f) = 9 \<and> ab_clientQuota (save_admin [] f) = 0 \<and> ab_allowedInbounds (save_admin [] f) = []"
  by (simp add: save_admin_def scopedRoles_def customRoleKey_def Let_def)

section \<open>Names of groups\<close>

definition group_names_ok :: "string list \<Rightarrow> bool" where
  "group_names_ok groups \<longleftrightarrow> distinct (map to_lower groups) \<and> list_all (\<lambda>g. g \<noteq> [] \<and> trim g = g) groups"

text \<open>A group that is created or renamed through the page leaves the names different from each other, also when upper and lower
  case are not told apart, and without blanks at their ends; changing only the case of a name is allowed.\<close>
theorem group_names_kept:
  assumes "group_names_ok groups"
  shows "(confirmCreate groups t = Inr n \<longrightarrow> group_names_ok (groups @ [n]))
    \<and> (confirmRename groups g t = Inr n \<longrightarrow> group_names_ok (renamed g n groups))
    \<and> (g \<in> set groups \<and> trim t \<noteq> [] \<and> trim t \<noteq> g \<and> to_lower (trim t) = to_lower g \<longrightarrow> confirmRename groups g t = Inr (trim t))"
proof (intro conjI impI)
  show "group_names_ok (groups @ [n])" if "confirmCreate groups t = Inr n"
    using that assms by (auto simp: confirmCreate_def group_names_ok_def Let_def trim_idem split: if_splits)
  show "group_names_ok (renamed g n groups)" if r: "confirmRename groups g t = Inr n"
  proof -
    have n: "n = trim t" "n \<noteq> []" and free: "\<And>h. h \<in> set groups \<Longrightarrow> h \<noteq> g \<Longrightarrow> to_lower h \<noteq> to_lower n"
      using r by (auto simp: confirmRename_def Let_def list_ex_iff split: if_splits)
    have "inj_on to_lower (set groups)" "distinct groups" using assms by (simp_all add: group_names_ok_def distinct_map)
    hence "inj_on (\<lambda>h. to_lower (if h = g then n else h)) (set groups)" using free by (auto simp: inj_on_def) metis+
    thus ?thesis using assms n \<open>distinct groups\<close>
      by (auto simp: group_names_ok_def renamed_def distinct_map comp_def list_all_iff trim_idem)
  qed
  show "confirmRename groups g t = Inr (trim t)" if "g \<in> set groups \<and> trim t \<noteq> [] \<and> trim t \<noteq> g \<and> to_lower (trim t) = to_lower g"
    using that assms by (auto simp: confirmRename_def Let_def list_ex_iff group_names_ok_def distinct_map inj_on_def)
qed

theorem group_names_kept_witness: "confirmRename [''vip'', ''Trial''] ''vip'' '' VIP '' = Inr ''VIP''"
proof -
  have t: "trim '' VIP '' = ''VIP''" by code_simp
  have "group_names_ok [''vip'', ''Trial'']" by code_simp
  moreover have "to_lower ''VIP'' = to_lower ''vip''" by code_simp
  ultimately show ?thesis using group_names_kept [of "[''vip'', ''Trial'']" "'' VIP ''" _ "''vip''"] by (simp add: t)
qed

section \<open>Names of many clients\<close>

lemma email_numbers_count:
  "length (email_numbers f) = nat (if bf_emailMethod f > 1 then bf_lastNum f - bf_firstNum f + 1 else bf_quantity f)"
  by (simp add: email_numbers_def)

lemma numbered_distinct:
  assumes "bf_emailMethod f = 4"
  shows "inj (email_tail f)"
proof (rule injI)
  fix i j assume "email_tail f i = email_tail f j"
  hence "int_str i = int_str j" using assms by (simp add: email_tail_def Let_def)
  moreover have "nat_str m \<noteq> CHR ''-'' # s" for m s
  proof
    assume "nat_str m = CHR ''-'' # s"
    hence "is_digit CHR ''-''" using nat_str_digits [of "CHR ''-''" m] by simp
    thus False by (simp add: is_digit_def)
  qed
  ultimately show "i = j" by (auto simp: int_str_def dest: sym split: if_splits)
qed

text \<open>As many addresses are made as the form asks for, each with its number between prefix and suffix after ten random
  characters; with the method that draws nothing they are the numbered names themselves, which are all different.\<close>
theorem bulk_emails_built:
  "always (\<lambda>es. length es = nat (if bf_emailMethod f > 1 then bf_lastNum f - bf_firstNum f + 1 else bf_quantity f)
      \<and> list_all2 (\<lambda>i e. \<exists>r. e = r @ email_tail f i \<and> length r = (if bf_emailMethod f = 4 then 0 else 10)) (email_numbers f) es
      \<and> (bf_emailMethod f = 4 \<longrightarrow> es = map (email_tail f) (email_numbers f) \<and> distinct es)) (buildEmails f)"
proof -
  let ?R = "\<lambda>i e. \<exists>r. e = r @ email_tail f i \<and> length r = (if bf_emailMethod f = 4 then 0 else 10)"
  have "always (?R i) (do { r \<leftarrow> (if bf_emailMethod f \<noteq> 4 then randomLowerAndNum 10 else State_Monad.return []); State_Monad.return (r @ email_tail f i) })" for i
  proof (rule always_bind)
    show "always (\<lambda>r. length r = (if bf_emailMethod f = 4 then 0 else 10)) (if bf_emailMethod f \<noteq> 4 then randomLowerAndNum 10 else State_Monad.return [])"
      using always_randomLowerAndNum [of 10] by simp
  qed auto
  hence all: "always (\<lambda>es. list_all2 ?R (email_numbers f) es) (buildEmails f)" unfolding buildEmails_def by (rule always_map_rand)
  show ?thesis
  proof (rule always_mono [OF all], intro conjI impI)
    fix es assume es: "list_all2 ?R (email_numbers f) es"
    show "length es = nat (if bf_emailMethod f > 1 then bf_lastNum f - bf_firstNum f + 1 else bf_quantity f)"
      using list_all2_lengthD [OF es] by (simp add: email_numbers_count)
    show "list_all2 ?R (email_numbers f) es" by (rule es)
    assume m: "bf_emailMethod f = 4"
    have "list_all2 (\<lambda>i e. e = email_tail f i) (email_numbers f) es" using es m by (auto elim: list_all2_mono)
    thus "es = map (email_tail f) (email_numbers f)" by (simp add: list_all2_conv_all_nth list_eq_iff_nth_eq)
    moreover have "distinct (email_numbers f)" by (simp add: email_numbers_def)
    ultimately show "distinct es" using numbered_distinct [OF m] by (simp add: distinct_map) (meson inj_on_subset subset_UNIV)
  qed
qed

theorem bulk_emails_built_witness:
  "\<forall>s. fst (run_state (buildEmails (empty_bulk_form\<lparr>bf_emailMethod := 4, bf_lastNum := 3, bf_emailPrefix := ''u''\<rparr>)) s) = [''u1'', ''u2'', ''u3'']"
proof
  fix s
  let ?f = "empty_bulk_form\<lparr>bf_emailMethod := 4, bf_lastNum := 3, bf_emailPrefix := ''u''\<rparr>"
  have "map (email_tail ?f) (email_numbers ?f) = [''u1'', ''u2'', ''u3'']" by code_simp
  thus "fst (run_state (buildEmails ?f) s) = [''u1'', ''u2'', ''u3'']"
    using always_D [OF bulk_emails_built [of ?f], of s] by (simp add: empty_bulk_form_def)
qed

text \<open>A last number below the first one passes the check of the form, and then nothing is sent and nothing said.\<close>
lemma reversed_range_silent:
  "bf_emailMethod f > 1 \<Longrightarrow> bf_lastNum f < bf_firstNum f \<Longrightarrow> fst (run_state (submit_bulk uuid inbounds f) s) = None"
  by (simp add: submit_bulk_def buildEmails_def email_numbers_def State_Monad.bind_def State_Monad.return_def)

end
