(* ===== verification/Spec2Isabelle.thy ===== *)
theory Spec2Isabelle
  imports Factory_Forms Protocol_Migration Inbound_Roundtrip Ws_Client Link_Roundtrip Link_Shadowsocks Link_Address
    Template_Laws Branding_Laws Client_Form_Laws Outbound_Tests
    Session_Laws Http_Messages Xray_Editor Host_Overrides Inbound_Fallbacks Dns_Editor Stream_Cascades
    Settings_Laws Settings_Fields Node_List Final_Masks
    Usage_Display Admin_Groups
begin

text \<open>
  Verification library for the browser side of the 3x-ui panel, the TypeScript program under
  \<open>src/frontend/src\<close>. The panel edits the configuration of an Xray proxy server: inbounds with their
  clients, the Xray template (outbounds, routing rules, balancers), subscriptions and their look. The
  program reads JSON from the Go server, turns it into typed form state, lets the user edit it,
  writes it back as JSON, generates and imports share links, and keeps its pages live over a WebSocket.

  \<^bold>\<open>Foundations.\<close>
  \<^item> \<open>JS_Prelude\<close>, \<open>JS_String\<close>, \<open>JS_Value\<close>: JavaScript numbers (exact fractions with NaN and the
    infinities), strings, values and ordered objects. The lookup and update laws of objects are the locale
    \<open>keyed_store\<close>, interpreted on them.
  \<^item> \<open>Json_Text\<close>, \<open>Json_Pretty\<close>: \<open>JSON.parse\<close> and \<open>JSON.stringify\<close>, with and without indentation. The
    reader is fuelled by twice the length of its input, which is proved to be enough.
  \<^item> \<open>Web_Text\<close>, \<open>Web_Url\<close>: percent encoding, \<open>URLSearchParams\<close> and \<open>URL\<close>. The browser's parser of
    IPv6 literals is a parameter.
  \<^item> \<open>Base64_Codec\<close>: \<open>btoa\<close>, \<open>atob\<close>, UTF-8 and the class \<open>Base64\<close> of \<open>utils/index.ts\<close>.

  \<^bold>\<open>Keys and random credentials\<close> (\<open>utils/index.ts\<close>). \<open>Curve25519\<close> models the limb arithmetic of the class
  \<open>Wireguard\<close> and shows each operation correct modulo 2^255 - 19; \<open>X25519\<close> refines RFC 7748 by the ladder;
  \<open>Wireguard_Keys\<close> adds key texts and pairs. \<open>Random_Util\<close> models \<open>RandomUtil\<close> as a state monad over the
  numbers the browser delivers.

  \<^bold>\<open>Forms\<close> (\<open>lib/xray/*\<close>). \<open>Wire_Normalize\<close> is \<open>stream-wire-normalize.ts\<close>; \<open>Outbound_Form\<close> and
  \<open>Outbound_Roundtrip\<close> are \<open>outbound-form-adapter.ts\<close> with its round trip; \<open>Inbound_Rules\<close>, \<open>Header_Map\<close>,
  \<open>Inbound_Form\<close> and \<open>Inbound_Roundtrip\<close> are the inbound side (capabilities, tags, session identifiers,
  headers, adapter). \<open>Client_Defaults\<close>, \<open>Factory_Forms\<close> and \<open>Protocol_Migration\<close> are the factories and
  the migration of clients between protocols.

  \<^bold>\<open>Share links\<close> (\<open>lib/xray/inbound-link.ts\<close>, \<open>outbound-link-parser.ts\<close>). \<open>Share_Inbound\<close>,
  \<open>Share_Links\<close> and \<open>Share_Fanout\<close> generate, \<open>Link_Parser\<close> imports; \<open>Link_Roundtrip\<close>, \<open>Link_Shadowsocks\<close>
  and \<open>Link_Address\<close> show what an imported link gives back and which address it carries.

  \<^bold>\<open>The Xray template\<close> (\<open>pages/xray\<close>). \<open>Xray_Template\<close> holds the template and every operation of the
  tabs on it, \<open>Template_Laws\<close> their laws. \<open>Outbound_Tests\<close> is the testing of outbounds in
  \<open>hooks/useXraySetting.ts\<close>, a step relation over its workers and batches; the number of steps of a run is
  known from the start. \<open>Xray_Editor\<close> is the editor of that hook: text and object of the template, kept in
  step by every edit. \<open>Rule_Form\<close> is the routing rule dialog, \<open>Dns_Editor\<close> the DNS tab with its server dialog and
  the host rows it keeps beside the template.

  \<^bold>\<open>Stream settings in the dialogs.\<close> \<open>Stream_Cascades\<close> is what a change of network, security or protocol does
  to \<open>streamSettings\<close> in the inbound and outbound dialogs, with the default blocks of \<open>schemas/protocols\<close>;
  \<open>Inbound_Fallbacks\<close> is \<open>useInboundFallbacks.ts\<close>. \<open>Host_Overrides\<close> is \<open>pages/hosts/json-forms\<close> with
  \<open>lib/hosts/host-link.ts\<close>: its locale \<open>override_form\<close> says when a stored override stays as it is, and is
  interpreted for mux, sockopt and the transport blocks. \<open>Final_Masks\<close> is the form of transport masks and the
  texts that hold them; its locale \<open>form_store\<close> states what writing several fields of a form does, and is
  interpreted on reading and writing at paths.

  \<^bold>\<open>Settings and nodes.\<close> \<open>Settings_Page\<close> and \<open>Settings_Laws\<close> are \<open>models/setting.ts\<close>, its schema and
  \<open>api/queries/useAllSettings.ts\<close>: draft and stored settings under any sequence of edits and answers.
  \<open>Settings_Fields\<close> are the fields of \<open>pages/settings\<close> that compute: schedule, subscription lists, events,
  paths and the address after a restart. \<open>Node_List\<close> is \<open>pages/nodes/NodeList.tsx\<close> with the totals of
  \<open>useNodesQuery.ts\<close> and the version comparison of \<open>lib/panel-version.ts\<close>. \<open>Admin_Groups\<close> is \<open>pages/admins\<close>,
  the names of groups and the creation of many clients; \<open>Usage_Display\<close> is what turns sizes, times, quotas, remarks and
  log lines into what is shown.

  \<^bold>\<open>Talking to the server.\<close> \<open>Api_Session\<close> and \<open>Session_Laws\<close> are \<open>api/axios-init.ts\<close>: the steps of any
  number of requests sharing the CSRF token, each sent at most twice. \<open>Http_Messages\<close> is \<open>HttpUtil\<close>,
  \<open>parseMsg\<close> and the invalidation of queries by \<open>api/websocketBridge.ts\<close>.

  \<^bold>\<open>Live state.\<close> \<open>Ws_Client\<close> is \<open>api/websocket.ts\<close> as a state machine with the browser's sockets, timers
  and the stack of the running task. \<open>Live_Inbounds\<close> and \<open>Live_Laws\<close> are \<open>models/dbinbound.ts\<close> and
  \<open>pages/inbounds/useInbounds.ts\<close>; \<open>Live_Clients\<close> and \<open>Client_Laws\<close> are \<open>hooks/useClients.ts\<close> with
  \<open>lib/permissions.ts\<close>.

  \<^bold>\<open>Clients and branding.\<close> \<open>Client_Form\<close> and \<open>Client_Form_Laws\<close> are the client form, its saving and the
  filters of \<open>pages/clients\<close>; the server is a parameter, a function of its state, with the hypothesis
  \<open>serves_clients\<close> that says what a successful call does. \<open>Sub_Branding\<close> and \<open>Branding_Laws\<close> are
  \<open>lib/sub/branding.ts\<close>, its editor and the page that renders it.

  \<^bold>\<open>How the parts meet.\<close> The inbound and outbound adapters use the wire normalisation; migration uses the
  factories and these the random source; importing a link yields an outbound the outbound adapter opens;
  the pages read rows through the JSON model; the summary of the clients page and the rollup of the
  inbounds page are shown to classify clients alike.

  \<^bold>\<open>Bounds.\<close> Numbers are exact fractions: doubles agree with them on integers up to 2^53, which
  covers traffic counters and times. Recursion that is not structural carries a measure; the only
  fuel is that of the JSON reader, twice the length of the text.

  \<^bold>\<open>Not modelled.\<close> React rendering, antd, react-query and zod are libraries outside the repository:
  what the code stores through them is modelled as plain state, and a zod schema as what it accepts and
  delivers. The re-encoding of request bodies with \<open>qs\<close> is left out. Translations, layouts, generated
  declarations and the API documentation carry no logic. The Go server is a parameter.
\<close>

end
